(* ===== verification/Prelude.thy ===== *)
theory Prelude
  imports Main "HOL-Library.Word" "HOL-Library.AList"
begin

unbundle bit_operations_syntax

text \<open>
  Shared ground of the development: the machine integers of the Rust sources, byte
  strings and their UTF-8 check, little-endian byte encodings, results of fallible code
  and hash maps, each with the generic lemmas that the component theories reuse.

  Unsigned integers are words (\<open>u8\<close> .. \<open>u64\<close>): comparison is unsigned, \<open>+\<close> wraps, as
  the release build of the crates does (the workspace sets no \<open>overflow-checks\<close>).
  A \<open>usize\<close> that counts or indexes memory is a \<open>nat\<close>.
\<close>

named_theorems eval_simps "equations that evaluate closed terms of the model"

section \<open>Machine integers\<close>

type_synonym u8 = "8 word"
type_synonym u16 = "16 word"
type_synonym u32 = "32 word"
type_synonym u64 = "64 word"

text \<open>
  A Rust \<open>i64\<close> is the same 64 bits with a signed order: a type of its own, so that
  \<open>\<le>\<close> and \<open><\<close> on it are the signed comparisons the code makes.
\<close>

datatype i64 = I64 (i64_word: "64 word")

definition i64_val :: "i64 \<Rightarrow> int" where
  "i64_val x = sint (i64_word x)"

definition i64_of_int :: "int \<Rightarrow> i64" where
  "i64_of_int k = I64 (word_of_int k)"

lemma i64_val_inj [simp]: "i64_val a = i64_val b \<longleftrightarrow> a = b"
  by (auto simp: i64_val_def intro: i64.expand signed_word_eqI)

instantiation i64 :: comm_ring_1
begin

definition zero_i64 :: i64 where "zero_i64 = I64 0"
definition one_i64 :: i64 where "one_i64 = I64 1"
definition plus_i64 :: "i64 \<Rightarrow> i64 \<Rightarrow> i64" where
  "plus_i64 a b = I64 (i64_word a + i64_word b)"
definition minus_i64 :: "i64 \<Rightarrow> i64 \<Rightarrow> i64" where
  "minus_i64 a b = I64 (i64_word a - i64_word b)"
definition uminus_i64 :: "i64 \<Rightarrow> i64" where
  "uminus_i64 a = I64 (- i64_word a)"
definition times_i64 :: "i64 \<Rightarrow> i64 \<Rightarrow> i64" where
  "times_i64 a b = I64 (i64_word a * i64_word b)"

instance
  by standard
    (simp_all add: zero_i64_def one_i64_def plus_i64_def minus_i64_def uminus_i64_def
      times_i64_def algebra_simps)

end

instantiation i64 :: linorder
begin

definition less_eq_i64 :: "i64 \<Rightarrow> i64 \<Rightarrow> bool" where
  "less_eq_i64 a b \<longleftrightarrow> i64_val a \<le> i64_val b"
definition less_i64 :: "i64 \<Rightarrow> i64 \<Rightarrow> bool" where
  "less_i64 a b \<longleftrightarrow> i64_val a < i64_val b"

instance
  by standard (auto simp: less_eq_i64_def less_i64_def)

end

lemma numeral_i64 [eval_simps]: "(numeral k :: i64) = I64 (numeral k)"
proof -
  have "(of_nat n :: i64) = I64 (of_nat n)" for n
    by (induction n) (simp_all add: zero_i64_def one_i64_def plus_i64_def)
  from this [of "numeral k"] show ?thesis by simp
qed

lemmas i64_eval [eval_simps] = zero_i64_def one_i64_def plus_i64_def minus_i64_def
  uminus_i64_def times_i64_def less_eq_i64_def less_i64_def i64_val_def i64_of_int_def

lemma i64_val_bounds: "- (2 ^ 63) \<le> i64_val a \<and> i64_val a < 2 ^ 63"
  using sint_greater_eq [of "i64_word a"] sint_less [of "i64_word a"]
  by (simp add: i64_val_def)

lemma i64_val_of_int:
  "- (2 ^ 63) \<le> k \<Longrightarrow> k < 2 ^ 63 \<Longrightarrow> i64_val (i64_of_int k) = k"
  by (simp add: i64_val_def i64_of_int_def sint_sbintrunc' signed_take_bit_int_eq_self)

lemma i64_of_int_val [simp]: "i64_of_int (i64_val a) = a"
  by (simp add: i64_val_def i64_of_int_def)

lemma i64_of_int_add: "i64_of_int (a + b) = i64_of_int a + i64_of_int b"
  by (simp add: i64_of_int_def plus_i64_def)

lemma i64_val_0 [simp]: "i64_val 0 = 0"
  by (simp add: i64_val_def zero_i64_def)

text \<open>Wrapping addition is the mathematical sum wherever that is representable.\<close>

lemma i64_val_add:
  assumes "- (2 ^ 63) \<le> i64_val a + i64_val b" "i64_val a + i64_val b < 2 ^ 63"
  shows "i64_val (a + b) = i64_val a + i64_val b"
proof -
  have "a + b = i64_of_int (i64_val a + i64_val b)"
    by (simp add: i64_of_int_add)
  with assms show ?thesis by (simp add: i64_val_of_int)
qed

text \<open>\<open>i64::saturating_sub\<close>: the difference, clamped to the range of the type.\<close>

definition i64_saturating_sub :: "i64 \<Rightarrow> i64 \<Rightarrow> i64" where
  "i64_saturating_sub a b =
     i64_of_int (max (- (2 ^ 63)) (min (2 ^ 63 - 1) (i64_val a - i64_val b)))"

lemma i64_saturating_sub_val:
  "i64_val (i64_saturating_sub a b) =
     max (- (2 ^ 63)) (min (2 ^ 63 - 1) (i64_val a - i64_val b))"
  by (auto simp: i64_saturating_sub_def intro!: i64_val_of_int)

text \<open>A bool literal written as an integer (\<open>v as u8\<close>).\<close>

definition bool_u8 :: "bool \<Rightarrow> u8" where
  "bool_u8 b = (if b then 1 else 0)"

section \<open>Little-endian bytes\<close>

text \<open>\<open>to_le_bytes\<close> of an \<open>n\<close>-byte integer and \<open>from_le_bytes\<close>.\<close>

fun le_bytes :: "nat \<Rightarrow> 'a::len word \<Rightarrow> u8 list" where
  "le_bytes 0 w = []"
| "le_bytes (Suc n) w = ucast w # le_bytes n (drop_bit 8 w)"

fun le_val :: "u8 list \<Rightarrow> 'a::len word" where
  "le_val [] = 0"
| "le_val (b # bs) = ucast b OR push_bit 8 (le_val bs)"

lemma length_le_bytes [simp]: "length (le_bytes n w) = n"
  by (induction n arbitrary: w) auto

lemma le_val_le_bytes_take: "le_val (le_bytes n w) = take_bit (8 * n) (w :: 'a::len word)"
proof (induction n arbitrary: w)
  case 0
  then show ?case by simp
next
  case (Suc n)
  show ?case
    unfolding le_bytes.simps le_val.simps Suc.IH
    by (rule bit_word_eqI) (auto simp: bit_simps)
qed

lemma le_val_le_bytes [simp]:
  "LENGTH('a::len) = 8 * n \<Longrightarrow> le_val (le_bytes n (w :: 'a word)) = w"
  unfolding le_val_le_bytes_take by (metis take_bit_word_eq_self order_refl)

section \<open>Strings\<close>

text \<open>
  A Rust string is the list of its UTF-8 bytes, written as a HOL \<open>string\<close> (whose
  characters are bytes). \<open>utf8_valid\<close> is the check of \<open>std::str::from_utf8\<close>.
\<close>

definition str_bytes :: "string \<Rightarrow> u8 list" where
  "str_bytes s = map (\<lambda>c. word_of_nat (of_char c)) s"

definition bytes_str :: "u8 list \<Rightarrow> string" where
  "bytes_str bs = map (\<lambda>b. char_of (unat b)) bs"

definition utf8_cont :: "u8 \<Rightarrow> bool" where
  "utf8_cont b \<longleftrightarrow> 0x80 \<le> b \<and> b \<le> 0xBF"

definition utf8_second3 :: "u8 \<Rightarrow> u8 \<Rightarrow> bool" where
  "utf8_second3 b0 b1 \<longleftrightarrow>
     (if b0 = 0xE0 then 0xA0 \<le> b1 \<and> b1 \<le> 0xBF
      else if b0 = 0xED then 0x80 \<le> b1 \<and> b1 \<le> 0x9F else utf8_cont b1)"

definition utf8_second4 :: "u8 \<Rightarrow> u8 \<Rightarrow> bool" where
  "utf8_second4 b0 b1 \<longleftrightarrow>
     (if b0 = 0xF0 then 0x90 \<le> b1 \<and> b1 \<le> 0xBF
      else if b0 = 0xF4 then 0x80 \<le> b1 \<and> b1 \<le> 0x8F else utf8_cont b1)"

fun utf8_valid :: "u8 list \<Rightarrow> bool" where
  "utf8_valid [] = True"
| "utf8_valid (b0 # bs) =
     (if b0 < 0x80 then utf8_valid bs
      else if 0xC2 \<le> b0 \<and> b0 \<le> 0xDF then
        (case bs of b1 # r \<Rightarrow> utf8_cont b1 \<and> utf8_valid r | _ \<Rightarrow> False)
      else if 0xE0 \<le> b0 \<and> b0 \<le> 0xEF then
        (case bs of b1 # b2 # r \<Rightarrow> utf8_second3 b0 b1 \<and> utf8_cont b2 \<and> utf8_valid r
         | _ \<Rightarrow> False)
      else if 0xF0 \<le> b0 \<and> b0 \<le> 0xF4 then
        (case bs of b1 # b2 # b3 # r \<Rightarrow>
           utf8_second4 b0 b1 \<and> utf8_cont b2 \<and> utf8_cont b3 \<and> utf8_valid r
         | _ \<Rightarrow> False)
      else False)"

lemma length_str_bytes [simp]: "length (str_bytes s) = length s"
  by (simp add: str_bytes_def)

lemma length_bytes_str [simp]: "length (bytes_str bs) = length bs"
  by (simp add: bytes_str_def)

lemma bytes_str_str_bytes [simp]: "bytes_str (str_bytes s) = s"
proof -
  have "unat (word_of_nat (of_char c) :: u8) = of_char c" for c
    by (simp add: unat_of_nat)
  then show ?thesis
    by (simp add: bytes_str_def str_bytes_def comp_def)
qed

lemma str_bytes_inj [simp]: "str_bytes s = str_bytes t \<longleftrightarrow> s = t"
  using bytes_str_str_bytes by metis

lemma str_bytes_append [simp]: "str_bytes (s @ t) = str_bytes s @ str_bytes t"
  by (simp add: str_bytes_def)

text \<open>Every ASCII string is valid UTF-8.\<close>

lemma utf8_valid_ascii: "list_all (\<lambda>b. b < 0x80) bs \<Longrightarrow> utf8_valid bs"
  by (induction bs) auto

definition str_utf8 :: "string \<Rightarrow> bool" where
  "str_utf8 s \<longleftrightarrow> utf8_valid (str_bytes s)"

lemma str_utf8_ascii: "\<forall>c \<in> set s. (of_char c :: nat) < 128 \<Longrightarrow> str_utf8 s"
proof -
  assume a: "\<forall>c \<in> set s. (of_char c :: nat) < 128"
  have "(word_of_nat (of_char c) :: u8) < 0x80" if "c \<in> set s" for c
    using a that by (simp add: word_less_nat_alt unat_of_nat)
  then show ?thesis
    by (auto simp: str_utf8_def str_bytes_def list_all_iff intro!: utf8_valid_ascii)
qed

section \<open>Results of fallible code\<close>

text \<open>The \<open>?\<close> operator: an error ends the function, a value goes on.\<close>

definition and_then :: "'e + 'a \<Rightarrow> ('a \<Rightarrow> 'e + 'b) \<Rightarrow> 'e + 'b" where
  "and_then r f = (case r of Inl e \<Rightarrow> Inl e | Inr x \<Rightarrow> f x)"

definition map_err :: "('e \<Rightarrow> 'f) \<Rightarrow> 'e + 'a \<Rightarrow> 'f + 'a" where
  "map_err g r = (case r of Inl e \<Rightarrow> Inl (g e) | Inr x \<Rightarrow> Inr x)"

lemma and_then_simps [simp]:
  "and_then (Inl e) f = Inl e" "and_then (Inr x) f = f x"
  by (simp_all add: and_then_def)

lemma map_err_simps [simp]:
  "map_err g (Inl e) = Inl (g e)" "map_err g (Inr x) = Inr x"
  by (simp_all add: map_err_def)

lemma and_then_Inr_iff:
  "and_then r f = Inr y \<longleftrightarrow> (\<exists>x. r = Inr x \<and> f x = Inr y)"
  by (cases r) auto

lemma and_then_cong [fundef_cong]:
  "r = r' \<Longrightarrow> (\<And>x. r' = Inr x \<Longrightarrow> f x = g x) \<Longrightarrow> and_then r f = and_then r' g"
  by (cases r') auto

text \<open>An iterator's \<open>collect\<close> into a \<open>Result\<close>: the first error wins.\<close>

fun collect_results :: "('a \<Rightarrow> 'e + 'b) \<Rightarrow> 'a list \<Rightarrow> 'e + 'b list" where
  "collect_results f [] = Inr []"
| "collect_results f (x # xs) =
     and_then (f x) (\<lambda>y. and_then (collect_results f xs) (\<lambda>ys. Inr (y # ys)))"

section \<open>Hash maps\<close>

text \<open>
  A \<open>HashMap\<close> is an association list with distinct keys; its order stands for the
  unspecified iteration order of the map. \<open>insert\<close> is \<open>AList.update\<close>, \<open>remove\<close>
  is \<open>AList.delete\<close>, \<open>get\<close> is \<open>map_of\<close>.
\<close>

type_synonym ('k, 'v) hash_map = "('k \<times> 'v) list"

definition hm_wf :: "('k, 'v) hash_map \<Rightarrow> bool" where
  "hm_wf m \<longleftrightarrow> distinct (map fst m)"

lemma hm_wf_Nil [simp]: "hm_wf []"
  by (simp add: hm_wf_def)

lemma hm_wf_update [simp]: "hm_wf m \<Longrightarrow> hm_wf (AList.update k v m)"
  by (simp add: hm_wf_def distinct_update)

lemma hm_wf_delete [simp]: "hm_wf m \<Longrightarrow> hm_wf (AList.delete k m)"
  by (simp add: hm_wf_def distinct_delete)

lemma map_of_hm_update [simp]:
  "map_of (AList.update k v m) k' = (if k' = k then Some v else map_of m k')"
  by (simp add: update_conv')

lemma map_of_hm_delete [simp]:
  "map_of (AList.delete k m) k' = (if k' = k then None else map_of m k')"
  by (simp add: delete_conv')

lemma map_of_map_snd:
  "map_of (map (\<lambda>(k, v). (k, f v)) m) k = map_option f (map_of m k)"
  by (induction m) auto

end
