(* ===== verification/Core_Types.thy ===== *)
theory Core_Types
  imports Prelude
begin

text \<open>
  The discriminated types of \<open>crates/connector-core/src/types.rs\<close> and the error type of
  \<open>error.rs\<close>: each enum with its \<open>u8\<close> representation (\<open>_u8\<close>, the \<open>as u8\<close> cast) and
  its \<open>TryFrom<u8>\<close> (\<open>_try_from\<close>). The locale \<open>wire_enum\<close> is the contract between the
  two directions; every enum is an interpretation of it.
\<close>

section \<open>Enums\<close>

datatype venue_id =
    BinanceSpot
  | BinanceFutures

datatype market_type =
    Spot
  | UsdmFutures

datatype message_type =
    MT_InstrumentDefinition
  | MT_TradingStatus
  | MT_BookSnapshot
  | MT_BookDelta
  | MT_BestBidOffer
  | MT_Trade
  | MT_MarkPrice
  | MT_FundingRate
  | MT_Liquidation
  | MT_OpenInterest
  | MT_AccountUpdate
  | MT_OrderUpdate
  | MT_Heartbeat
  | MT_FeedStatus
  | MT_GapDetected
  | MT_BookStale
  | MT_BookRecovered
  | MT_BookChecksum

datatype feed_state =
    FS_Connecting
  | FS_Live
  | FS_Degraded
  | FS_Stale
  | FS_Recovering
  | FS_Recovered
  | FS_Failed

datatype aggressor_side =
    Aggr_Unknown
  | Aggr_Buy
  | Aggr_Sell

datatype book_stale_reason =
    BSR_SequenceGap
  | BSR_WebSocketReconnect
  | BSR_SnapshotIncompatible
  | BSR_StaleTimeout
  | BSR_MalformedEvent
  | BSR_ExchangeShutdown
  | BSR_BboMismatch
  | BSR_BufferOverflow

section \<open>Errors\<close>

text \<open>\<open>connector_core::Error\<close>, in the order of the source.\<close>

datatype core_error =
    BufferTooShort (bts_needed: nat) (bts_have: nat)
  | StringTooLong nat nat
  | VecTooLong nat nat
  | InvalidUtf8
  | UnknownVenueId u8
  | UnknownMarketType u8
  | UnknownMessageType u8
  | UnknownFeedState u8
  | UnknownAggressorSide u8
  | UnknownBookStaleReason u8
  | MessageTypeMismatch message_type message_type

section \<open>Wire representation\<close>

fun venue_id_u8 :: "venue_id \<Rightarrow> u8" where
  "venue_id_u8 BinanceSpot = 1"
| "venue_id_u8 BinanceFutures = 2"

definition venue_id_try_from :: "u8 \<Rightarrow> core_error + venue_id" where
  "venue_id_try_from v =
     (if v = 1 then Inr BinanceSpot
      else if v = 2 then Inr BinanceFutures
      else Inl (UnknownVenueId v))"

fun market_type_u8 :: "market_type \<Rightarrow> u8" where
  "market_type_u8 Spot = 1"
| "market_type_u8 UsdmFutures = 2"

definition market_type_try_from :: "u8 \<Rightarrow> core_error + market_type" where
  "market_type_try_from v =
     (if v = 1 then Inr Spot
      else if v = 2 then Inr UsdmFutures
      else Inl (UnknownMarketType v))"

fun message_type_u8 :: "message_type \<Rightarrow> u8" where
  "message_type_u8 MT_InstrumentDefinition = 1"
| "message_type_u8 MT_TradingStatus = 2"
| "message_type_u8 MT_BookSnapshot = 3"
| "message_type_u8 MT_BookDelta = 4"
| "message_type_u8 MT_BestBidOffer = 5"
| "message_type_u8 MT_Trade = 6"
| "message_type_u8 MT_MarkPrice = 7"
| "message_type_u8 MT_FundingRate = 8"
| "message_type_u8 MT_Liquidation = 9"
| "message_type_u8 MT_OpenInterest = 10"
| "message_type_u8 MT_AccountUpdate = 11"
| "message_type_u8 MT_OrderUpdate = 12"
| "message_type_u8 MT_Heartbeat = 13"
| "message_type_u8 MT_FeedStatus = 14"
| "message_type_u8 MT_GapDetected = 15"
| "message_type_u8 MT_BookStale = 16"
| "message_type_u8 MT_BookRecovered = 17"
| "message_type_u8 MT_BookChecksum = 18"

definition message_type_try_from :: "u8 \<Rightarrow> core_error + message_type" where
  "message_type_try_from v =
     (if v = 1 then Inr MT_InstrumentDefinition
      else if v = 2 then Inr MT_TradingStatus
      else if v = 3 then Inr MT_BookSnapshot
      else if v = 4 then Inr MT_BookDelta
      else if v = 5 then Inr MT_BestBidOffer
      else if v = 6 then Inr MT_Trade
      else if v = 7 then Inr MT_MarkPrice
      else if v = 8 then Inr MT_FundingRate
      else if v = 9 then Inr MT_Liquidation
      else if v = 10 then Inr MT_OpenInterest
      else if v = 11 then Inr MT_AccountUpdate
      else if v = 12 then Inr MT_OrderUpdate
      else if v = 13 then Inr MT_Heartbeat
      else if v = 14 then Inr MT_FeedStatus
      else if v = 15 then Inr MT_GapDetected
      else if v = 16 then Inr MT_BookStale
      else if v = 17 then Inr MT_BookRecovered
      else if v = 18 then Inr MT_BookChecksum
      else Inl (UnknownMessageType v))"

fun feed_state_u8 :: "feed_state \<Rightarrow> u8" where
  "feed_state_u8 FS_Connecting = 1"
| "feed_state_u8 FS_Live = 2"
| "feed_state_u8 FS_Degraded = 3"
| "feed_state_u8 FS_Stale = 4"
| "feed_state_u8 FS_Recovering = 5"
| "feed_state_u8 FS_Recovered = 6"
| "feed_state_u8 FS_Failed = 7"

definition feed_state_try_from :: "u8 \<Rightarrow> core_error + feed_state" where
  "feed_state_try_from v =
     (if v = 1 then Inr FS_Connecting
      else if v = 2 then Inr FS_Live
      else if v = 3 then Inr FS_Degraded
      else if v = 4 then Inr FS_Stale
      else if v = 5 then Inr FS_Recovering
      else if v = 6 then Inr FS_Recovered
      else if v = 7 then Inr FS_Failed
      else Inl (UnknownFeedState v))"

fun aggressor_side_u8 :: "aggressor_side \<Rightarrow> u8" where
  "aggressor_side_u8 Aggr_Unknown = 0"
| "aggressor_side_u8 Aggr_Buy = 1"
| "aggressor_side_u8 Aggr_Sell = 2"

definition aggressor_side_try_from :: "u8 \<Rightarrow> core_error + aggressor_side" where
  "aggressor_side_try_from v =
     (if v = 0 then Inr Aggr_Unknown
      else if v = 1 then Inr Aggr_Buy
      else if v = 2 then Inr Aggr_Sell
      else Inl (UnknownAggressorSide v))"

fun book_stale_reason_u8 :: "book_stale_reason \<Rightarrow> u8" where
  "book_stale_reason_u8 BSR_SequenceGap = 1"
| "book_stale_reason_u8 BSR_WebSocketReconnect = 2"
| "book_stale_reason_u8 BSR_SnapshotIncompatible = 3"
| "book_stale_reason_u8 BSR_StaleTimeout = 4"
| "book_stale_reason_u8 BSR_MalformedEvent = 5"
| "book_stale_reason_u8 BSR_ExchangeShutdown = 6"
| "book_stale_reason_u8 BSR_BboMismatch = 7"
| "book_stale_reason_u8 BSR_BufferOverflow = 8"

definition book_stale_reason_try_from :: "u8 \<Rightarrow> core_error + book_stale_reason" where
  "book_stale_reason_try_from v =
     (if v = 1 then Inr BSR_SequenceGap
      else if v = 2 then Inr BSR_WebSocketReconnect
      else if v = 3 then Inr BSR_SnapshotIncompatible
      else if v = 4 then Inr BSR_StaleTimeout
      else if v = 5 then Inr BSR_MalformedEvent
      else if v = 6 then Inr BSR_ExchangeShutdown
      else if v = 7 then Inr BSR_BboMismatch
      else if v = 8 then Inr BSR_BufferOverflow
      else Inl (UnknownBookStaleReason v))"

section \<open>The contract of a wire enum\<close>

text \<open>
  \<open>to_u8\<close> and \<open>try_from\<close> are inverse to each other: every variant survives the round
  trip, and only the byte of a variant decodes to it.
\<close>

locale wire_enum =
  fixes to_u8 :: "'a \<Rightarrow> u8"
    and try_from :: "u8 \<Rightarrow> 'e + 'a"
  assumes try_from_to_u8 [simp]: "try_from (to_u8 x) = Inr x"
    and try_from_Inr: "try_from v = Inr x \<Longrightarrow> to_u8 x = v"
begin

lemma to_u8_inj [simp]: "to_u8 x = to_u8 y \<longleftrightarrow> x = y"
  by (metis Inr_inject try_from_to_u8)

lemma try_from_iff: "try_from v = Inr x \<longleftrightarrow> v = to_u8 x"
  using try_from_Inr try_from_to_u8 by blast

lemma try_from_error: "v \<notin> range to_u8 \<Longrightarrow> \<exists>e. try_from v = Inl e"
  by (cases "try_from v") (auto dest: try_from_Inr)

end

interpretation venue: wire_enum venue_id_u8 venue_id_try_from
proof
  show "venue_id_try_from (venue_id_u8 x) = Inr x" for x
    by (cases x) (simp_all add: venue_id_try_from_def)
  show "venue_id_try_from v = Inr x \<Longrightarrow> venue_id_u8 x = v" for v x
    by (auto simp: venue_id_try_from_def split: if_splits)
qed

interpretation market: wire_enum market_type_u8 market_type_try_from
proof
  show "market_type_try_from (market_type_u8 x) = Inr x" for x
    by (cases x) (simp_all add: market_type_try_from_def)
  show "market_type_try_from v = Inr x \<Longrightarrow> market_type_u8 x = v" for v x
    by (auto simp: market_type_try_from_def split: if_splits)
qed

interpretation msg_ty: wire_enum message_type_u8 message_type_try_from
proof
  show "message_type_try_from (message_type_u8 x) = Inr x" for x
    by (cases x) (simp_all add: message_type_try_from_def)
  show "message_type_try_from v = Inr x \<Longrightarrow> message_type_u8 x = v" for v x
    by (auto simp: message_type_try_from_def split: if_splits)
qed

interpretation feed: wire_enum feed_state_u8 feed_state_try_from
proof
  show "feed_state_try_from (feed_state_u8 x) = Inr x" for x
    by (cases x) (simp_all add: feed_state_try_from_def)
  show "feed_state_try_from v = Inr x \<Longrightarrow> feed_state_u8 x = v" for v x
    by (auto simp: feed_state_try_from_def split: if_splits)
qed

interpretation aggr: wire_enum aggressor_side_u8 aggressor_side_try_from
proof
  show "aggressor_side_try_from (aggressor_side_u8 x) = Inr x" for x
    by (cases x) (simp_all add: aggressor_side_try_from_def)
  show "aggressor_side_try_from v = Inr x \<Longrightarrow> aggressor_side_u8 x = v" for v x
    by (auto simp: aggressor_side_try_from_def split: if_splits)
qed

interpretation stale_reason: wire_enum book_stale_reason_u8 book_stale_reason_try_from
proof
  show "book_stale_reason_try_from (book_stale_reason_u8 x) = Inr x" for x
    by (cases x) (simp_all add: book_stale_reason_try_from_def)
  show "book_stale_reason_try_from v = Inr x \<Longrightarrow> book_stale_reason_u8 x = v" for v x
    by (auto simp: book_stale_reason_try_from_def split: if_splits)
qed

section \<open>Instance roles\<close>

datatype instance_role = Active | Passive

definition from_instance_id :: "u32 \<Rightarrow> instance_role" where
  "from_instance_id i = (if i = 0 then Active else Passive)"

definition is_active :: "instance_role \<Rightarrow> bool" where
  "is_active r \<longleftrightarrow> r = Active"

definition is_passive :: "instance_role \<Rightarrow> bool" where
  "is_passive r \<longleftrightarrow> r = Passive"

lemma role_exclusive: "is_active r \<longleftrightarrow> \<not> is_passive r"
  by (cases r) (simp_all add: is_active_def is_passive_def)

end
