(* ===== verification/Codec.thy ===== *)
theory Codec
  imports Core_Types
begin

text \<open>
  The cursor-based \<open>Encoder\<close> and \<open>Decoder\<close> of \<open>crates/connector-core/src/codec.rs\<close>.
  An encoder action returns its result together with the encoder, because the borrowed
  buffer keeps what was written before an error; a decoder action only returns the
  advanced decoder with its value. The locale \<open>field_codec\<close> is what every \<open>put\<close>/\<open>get\<close>
  pair promises: the exact bytes written, the value read back from them, and
  \<open>BufferTooShort\<close> on any truncation, on both sides.
\<close>

section \<open>Encoder\<close>

record encoder =
  enc_buf :: "u8 list"
  enc_pos :: nat

type_synonym put = "encoder \<Rightarrow> (core_error + unit) \<times> encoder"

definition Encoder_new :: "u8 list \<Rightarrow> encoder" where
  "Encoder_new buf = \<lparr>enc_buf = buf, enc_pos = 0\<rparr>"

definition enc_need :: "nat \<Rightarrow> encoder \<Rightarrow> core_error + unit" where
  "enc_need n e =
     (if length (enc_buf e) - enc_pos e < n
      then Inl (BufferTooShort (enc_pos e + n) (length (enc_buf e)))
      else Inr ())"

text \<open>\<open>buf[pos..pos + n].copy_from_slice(bs)\<close>, within the buffer.\<close>

definition blit :: "u8 list \<Rightarrow> nat \<Rightarrow> u8 list \<Rightarrow> u8 list" where
  "blit buf pos bs = take pos buf @ bs @ drop (pos + length bs) buf"

definition enc_write :: "u8 list \<Rightarrow> encoder \<Rightarrow> encoder" where
  "enc_write bs e =
     e\<lparr>enc_buf := blit (enc_buf e) (enc_pos e) bs, enc_pos := enc_pos e + length bs\<rparr>"

text \<open>\<open>p?; q\<close>: an error of the first action ends the sequence.\<close>

definition put_then :: "put \<Rightarrow> put \<Rightarrow> put" where
  "put_then p q e = (case p e of (Inl x, e') \<Rightarrow> (Inl x, e') | (Inr _, e') \<Rightarrow> q e')"

definition put_ok :: put where
  "put_ok e = (Inr (), e)"

fun put_all :: "put list \<Rightarrow> put" where
  "put_all [] = put_ok"
| "put_all (p # ps) = put_then p (put_all ps)"

definition put_u8 :: "u8 \<Rightarrow> put" where
  "put_u8 v e = (case enc_need 1 e of Inl x \<Rightarrow> (Inl x, e) | Inr _ \<Rightarrow>
     (Inr (), e\<lparr>enc_buf := (enc_buf e)[enc_pos e := v], enc_pos := enc_pos e + 1\<rparr>))"

definition put_bool :: "bool \<Rightarrow> put" where
  "put_bool v = put_u8 (bool_u8 v)"

definition put_u16 :: "u16 \<Rightarrow> put" where
  "put_u16 v e = (case enc_need 2 e of Inl x \<Rightarrow> (Inl x, e) | Inr _ \<Rightarrow>
     (Inr (), enc_write (le_bytes 2 v) e))"

definition put_u32 :: "u32 \<Rightarrow> put" where
  "put_u32 v e = (case enc_need 4 e of Inl x \<Rightarrow> (Inl x, e) | Inr _ \<Rightarrow>
     (Inr (), enc_write (le_bytes 4 v) e))"

definition put_u64 :: "u64 \<Rightarrow> put" where
  "put_u64 v e = (case enc_need 8 e of Inl x \<Rightarrow> (Inl x, e) | Inr _ \<Rightarrow>
     (Inr (), enc_write (le_bytes 8 v) e))"

definition put_i64 :: "i64 \<Rightarrow> put" where
  "put_i64 v e = (case enc_need 8 e of Inl x \<Rightarrow> (Inl x, e) | Inr _ \<Rightarrow>
     (Inr (), enc_write (le_bytes 8 (i64_word v)) e))"

definition put_raw :: "u8 list \<Rightarrow> put" where
  "put_raw b e = (case enc_need (length b) e of Inl x \<Rightarrow> (Inl x, e) | Inr _ \<Rightarrow>
     (Inr (), enc_write b e))"

definition u16_MAX :: nat where "u16_MAX = 65535"
definition u32_MAX :: nat where "u32_MAX = 4294967295"

definition put_str :: "string \<Rightarrow> put" where
  "put_str s e =
     (let b = str_bytes s in
      if u16_MAX < length b then (Inl (StringTooLong (length b) u16_MAX), e)
      else put_then (put_u16 (word_of_nat (length b))) (put_raw b) e)"

definition Encoder_finish :: "encoder \<Rightarrow> nat" where
  "Encoder_finish e = enc_pos e"

section \<open>Decoder\<close>

record decoder =
  dec_buf :: "u8 list"
  dec_pos :: nat

type_synonym 'a get = "decoder \<Rightarrow> core_error + 'a \<times> decoder"

definition Decoder_new :: "u8 list \<Rightarrow> decoder" where
  "Decoder_new buf = \<lparr>dec_buf = buf, dec_pos = 0\<rparr>"

definition dec_need :: "nat \<Rightarrow> decoder \<Rightarrow> core_error + unit" where
  "dec_need n d =
     (if length (dec_buf d) - dec_pos d < n
      then Inl (BufferTooShort (dec_pos d + n) (length (dec_buf d)))
      else Inr ())"

text \<open>\<open>buf[pos..pos + n]\<close>, and the cursor behind it.\<close>

definition byte_slice :: "u8 list \<Rightarrow> nat \<Rightarrow> nat \<Rightarrow> u8 list" where
  "byte_slice buf pos n = take n (drop pos buf)"

definition dec_advance :: "nat \<Rightarrow> decoder \<Rightarrow> decoder" where
  "dec_advance n d = d\<lparr>dec_pos := dec_pos d + n\<rparr>"

definition get_then :: "'a get \<Rightarrow> ('a \<Rightarrow> 'b get) \<Rightarrow> 'b get" where
  "get_then g f d = and_then (g d) (\<lambda>(x, d'). f x d')"

definition get_ret :: "'a \<Rightarrow> 'a get" where
  "get_ret x d = Inr (x, d)"

definition get_lift :: "core_error + 'a \<Rightarrow> 'a get" where
  "get_lift r d = and_then r (\<lambda>x. Inr (x, d))"

definition get_u8 :: "u8 get" where
  "get_u8 d = and_then (dec_need 1 d) (\<lambda>_. Inr (dec_buf d ! dec_pos d, dec_advance 1 d))"

definition get_bool :: "bool get" where
  "get_bool = get_then get_u8 (\<lambda>b. get_ret (b \<noteq> 0))"

definition get_u16 :: "u16 get" where
  "get_u16 d = and_then (dec_need 2 d)
     (\<lambda>_. Inr (le_val (byte_slice (dec_buf d) (dec_pos d) 2), dec_advance 2 d))"

definition get_u32 :: "u32 get" where
  "get_u32 d = and_then (dec_need 4 d)
     (\<lambda>_. Inr (le_val (byte_slice (dec_buf d) (dec_pos d) 4), dec_advance 4 d))"

definition get_u64 :: "u64 get" where
  "get_u64 d = and_then (dec_need 8 d)
     (\<lambda>_. Inr (le_val (byte_slice (dec_buf d) (dec_pos d) 8), dec_advance 8 d))"

definition get_i64 :: "i64 get" where
  "get_i64 d = and_then (dec_need 8 d)
     (\<lambda>_. Inr (I64 (le_val (byte_slice (dec_buf d) (dec_pos d) 8)), dec_advance 8 d))"

definition get_raw_str :: "nat \<Rightarrow> string get" where
  "get_raw_str n d = and_then (dec_need n d) (\<lambda>_.
     let b = byte_slice (dec_buf d) (dec_pos d) n in
     if utf8_valid b then Inr (bytes_str b, dec_advance n d) else Inl InvalidUtf8)"

definition get_str :: "string get" where
  "get_str = get_then get_u16 (\<lambda>len. get_raw_str (unat len))"

section \<open>What an action writes and reads\<close>

text \<open>
  \<open>writes p bs\<close>: with room for \<open>bs\<close> the action succeeds and puts exactly \<open>bs\<close> at the
  cursor; without room it fails with \<open>BufferTooShort\<close>, the buffer keeping its length.
\<close>

definition writes :: "put \<Rightarrow> u8 list \<Rightarrow> bool" where
  "writes p bs \<longleftrightarrow> (\<forall>e. enc_pos e \<le> length (enc_buf e) \<longrightarrow>
     (if enc_pos e + length bs \<le> length (enc_buf e) then p e = (Inr (), enc_write bs e)
      else \<exists>n e'. p e = (Inl (BufferTooShort n (length (enc_buf e))), e') \<and>
             length (enc_buf e') = length (enc_buf e)))"

text \<open>
  \<open>reads g bs v\<close>: where the input goes on with \<open>bs\<close>, the action returns \<open>v\<close> and moves
  behind \<open>bs\<close>; where the input ends inside \<open>bs\<close>, it fails with \<open>BufferTooShort\<close>.
\<close>

definition reads :: "'a get \<Rightarrow> u8 list \<Rightarrow> 'a \<Rightarrow> bool" where
  "reads g bs v \<longleftrightarrow> (\<forall>d. dec_pos d \<le> length (dec_buf d) \<longrightarrow>
     (\<forall>r. drop (dec_pos d) (dec_buf d) = bs @ r \<longrightarrow>
        g d = Inr (v, dec_advance (length bs) d)) \<and>
     (\<forall>r. r \<noteq> [] \<longrightarrow> bs = drop (dec_pos d) (dec_buf d) @ r \<longrightarrow>
        (\<exists>n. g d = Inl (BufferTooShort n (length (dec_buf d))))))"

named_theorems codec_intros "composition rules of writes and reads"

text \<open>\<open>yields P g\<close>: whatever the input, a value that the action returns satisfies \<open>P\<close>.\<close>

definition yields :: "('a \<Rightarrow> bool) \<Rightarrow> 'a get \<Rightarrow> bool" where
  "yields P g \<longleftrightarrow> (\<forall>d v d'. g d = Inr (v, d') \<longrightarrow> P v)"

lemma yields_get_ret: "P v \<Longrightarrow> yields P (get_ret v)"
  by (simp add: yields_def get_ret_def)

lemma yields_get_then: "(\<And>x. yields P (f x)) \<Longrightarrow> yields P (get_then g f)"
  by (auto simp: yields_def get_then_def and_then_Inr_iff)

lemma length_blit [simp]: "pos + length bs \<le> length buf \<Longrightarrow> length (blit buf pos bs) = length buf"
  by (simp add: blit_def)

lemma blit_Nil [simp]: "blit buf pos [] = buf"
  by (simp add: blit_def)

lemma blit_blit:
  "pos + length bs + length cs \<le> length buf \<Longrightarrow>
   blit (blit buf pos bs) (pos + length bs) cs = blit buf pos (bs @ cs)"
  by (simp add: blit_def ac_simps)

lemma enc_write_simps [simp]:
  "enc_pos (enc_write bs e) = enc_pos e + length bs"
  "enc_buf (enc_write bs e) = blit (enc_buf e) (enc_pos e) bs"
  by (simp_all add: enc_write_def)

lemma enc_write_Nil [simp]: "enc_write [] e = e"
  by (simp add: enc_write_def)

lemma enc_write_append:
  "enc_pos e + length bs + length cs \<le> length (enc_buf e) \<Longrightarrow>
   enc_write cs (enc_write bs e) = enc_write (bs @ cs) e"
  by (simp add: enc_write_def blit_blit add.assoc)

lemma dec_advance_simps [simp]:
  "dec_pos (dec_advance n d) = dec_pos d + n" "dec_buf (dec_advance n d) = dec_buf d"
  "dec_advance m (dec_advance n d) = dec_advance (n + m) d" "dec_advance 0 d = d"
  by (simp_all add: dec_advance_def)

lemma writesI_need:
  assumes "\<And>e. p e = (case enc_need (length bs) e of Inl x \<Rightarrow> (Inl x, e)
             | Inr _ \<Rightarrow> (Inr (), enc_write bs e))"
  shows "writes p bs"
  unfolding writes_def by (auto simp: assms enc_need_def)

lemma writes_put_ok [codec_intros]: "writes put_ok []"
  by (simp add: writes_def put_ok_def)

lemma writes_put_then [codec_intros]:
  assumes p: "writes p bs" and q: "writes q cs"
  shows "writes (put_then p q) (bs @ cs)"
  unfolding writes_def
proof (intro allI impI)
  fix e :: encoder
  assume le: "enc_pos e \<le> length (enc_buf e)"
  let ?L = "length (enc_buf e)"
  show "if enc_pos e + length (bs @ cs) \<le> ?L
        then put_then p q e = (Inr (), enc_write (bs @ cs) e)
        else \<exists>n e'. put_then p q e = (Inl (BufferTooShort n ?L), e') \<and> length (enc_buf e') = ?L"
  proof (cases "enc_pos e + length bs \<le> ?L")
    case True
    with p le have pe: "p e = (Inr (), enc_write bs e)"
      unfolding writes_def by auto
    have "let e' = enc_write bs e in
        if enc_pos e' + length cs \<le> length (enc_buf e') then q e' = (Inr (), enc_write cs e')
        else \<exists>n e''. q e' = (Inl (BufferTooShort n (length (enc_buf e'))), e'') \<and>
               length (enc_buf e'') = length (enc_buf e')"
      using q True unfolding writes_def Let_def
      by (drule_tac x = "enc_write bs e" in spec) simp
    with pe True show ?thesis
      by (auto simp: put_then_def Let_def enc_write_append split: if_splits)
  next
    case False
    with p le obtain n e' where "p e = (Inl (BufferTooShort n ?L), e')" "length (enc_buf e') = ?L"
      unfolding writes_def by (auto split: if_splits)
    with False show ?thesis by (auto simp: put_then_def)
  qed
qed

lemma writes_put_all_Nil [codec_intros]: "writes (put_all []) []"
  by (simp add: writes_put_ok)

lemma writes_put_all_Cons [codec_intros]:
  "writes p bs \<Longrightarrow> writes (put_all ps) cs \<Longrightarrow> writes (put_all (p # ps)) (bs @ cs)"
  by (simp add: writes_put_then)

lemma reads_get_ret [codec_intros]: "reads (get_ret v) [] v"
  by (simp add: reads_def get_ret_def)

lemma reads_get_then [codec_intros]:
  assumes g: "reads g bs v" and f: "reads (f v) cs w"
  shows "reads (get_then g f) (bs @ cs) w"
  unfolding reads_def
proof (intro allI impI conjI)
  fix d :: decoder and r
  assume le: "dec_pos d \<le> length (dec_buf d)"
  {
    assume d: "drop (dec_pos d) (dec_buf d) = (bs @ cs) @ r"
    then have gd: "g d = Inr (v, dec_advance (length bs) d)"
      using g le unfolding reads_def by (metis append.assoc)
    have "dec_pos d + length bs \<le> length (dec_buf d)"
      using arg_cong [OF d, of length] le by simp
    moreover have "drop (dec_pos d + length bs) (dec_buf d) = cs @ r"
      using arg_cong [OF d, of "drop (length bs)"] by (simp add: add.commute)
    ultimately have "f v (dec_advance (length bs) d) =
        Inr (w, dec_advance (length cs) (dec_advance (length bs) d))"
      using f unfolding reads_def by (metis dec_advance_simps(1,2))
    with gd show "get_then g f d = Inr (w, dec_advance (length (bs @ cs)) d)"
      by (simp add: get_then_def)
  }
  {
    assume r: "r \<noteq> []" and d: "bs @ cs = drop (dec_pos d) (dec_buf d) @ r"
    let ?D = "drop (dec_pos d) (dec_buf d)"
    show "\<exists>n. get_then g f d = Inl (BufferTooShort n (length (dec_buf d)))"
    proof (cases "length bs \<le> length ?D")
      case True
      with d obtain t where t: "?D = bs @ t" "cs = t @ r"
        by (auto simp: append_eq_append_conv2 dest: sym)
      then have gd: "g d = Inr (v, dec_advance (length bs) d)"
        using g le unfolding reads_def by blast
      have "dec_pos d + length bs \<le> length (dec_buf d)"
        using True le by simp
      moreover have "drop (dec_pos d + length bs) (dec_buf d) = t"
        using arg_cong [OF t(1), of "drop (length bs)"] by (simp add: add.commute)
      ultimately have "\<exists>n. f v (dec_advance (length bs) d) =
          Inl (BufferTooShort n (length (dec_buf d)))"
        using f r t(2) unfolding reads_def by (metis dec_advance_simps(1,2))
      with gd show ?thesis by (simp add: get_then_def)
    next
      case False
      then have "bs \<noteq> ?D" "take (length bs) ?D = ?D"
        by auto
      with d obtain t where "bs = ?D @ t" "t \<noteq> []"
        by (metis append_Nil2 append_eq_append_conv_if append_take_drop_id False linear)
      then show ?thesis
        using g le unfolding reads_def get_then_def by fastforce
    qed
  }
qed

text \<open>A read at the front of its own bytes, as a decoder at the start of a buffer sees it.\<close>

lemma reads_at_front:
  "reads g bs v \<Longrightarrow> g (Decoder_new (bs @ r)) = Inr (v, dec_advance (length bs) (Decoder_new (bs @ r)))"
  by (auto simp: reads_def Decoder_new_def)

lemma reads_truncated:
  "reads g (bs @ r) v \<Longrightarrow> r \<noteq> [] \<Longrightarrow> \<exists>n. g (Decoder_new bs) = Inl (BufferTooShort n (length bs))"
  unfolding reads_def
  by (drule spec [of _ "Decoder_new bs"]) (simp add: Decoder_new_def)

lemma writes_at_front:
  "writes p bs \<Longrightarrow> length bs \<le> length buf \<Longrightarrow>
   p (Encoder_new buf) =
     (Inr (), \<lparr>enc_buf = bs @ drop (length bs) buf, enc_pos = length bs\<rparr>)"
  by (simp add: writes_def Encoder_new_def enc_write_def blit_def)

lemma writes_no_room:
  "writes p bs \<Longrightarrow> length buf < length bs \<Longrightarrow>
   \<exists>n e'. p (Encoder_new buf) = (Inl (BufferTooShort n (length buf)), e') \<and>
     length (enc_buf e') = length buf"
  unfolding writes_def
  by (drule spec [of _ "Encoder_new buf"]) (auto simp: Encoder_new_def)

section \<open>The contract of a field codec\<close>

text \<open>
  \<open>bytes v\<close> is the wire form of \<open>v\<close>; \<open>ok v\<close> says which values fit it (string and list
  lengths, UTF-8). Inside the locale: the round trip through a buffer, what happens
  when the buffer is too small or cut short, and that no two values share a prefix.
\<close>

locale field_codec =
  fixes put :: "'a \<Rightarrow> put"
    and get :: "'a get"
    and bytes :: "'a \<Rightarrow> u8 list"
    and ok :: "'a \<Rightarrow> bool"
  assumes put_writes: "ok v \<Longrightarrow> writes (put v) (bytes v)"
    and get_reads: "ok v \<Longrightarrow> reads get (bytes v) v"
begin

lemma put_get:
  assumes "ok v" "length (bytes v) \<le> length buf"
  shows "\<exists>e. put v (Encoder_new buf) = (Inr (), e) \<and>
     get (Decoder_new (enc_buf e)) = Inr (v, dec_advance (enc_pos e) (Decoder_new (enc_buf e)))"
  using writes_at_front [OF put_writes [OF assms(1)] assms(2)]
    reads_at_front [OF get_reads [OF assms(1)], of "drop (length (bytes v)) buf"]
  by simp

lemma bytes_unambiguous:
  assumes "ok v" "ok w" "bytes v @ r = bytes w @ s"
  shows "v = w"
  using reads_at_front [OF get_reads [OF assms(1)], of r]
    reads_at_front [OF get_reads [OF assms(2)], of s] assms(3)
  by simp

lemma get_truncated:
  assumes "ok v" "n < length (bytes v)"
  shows "\<exists>k. get (Decoder_new (take n (bytes v))) = Inl (BufferTooShort k n)"
  using reads_truncated [of get "take n (bytes v)" "drop n (bytes v)" v]
    get_reads [OF assms(1)] assms(2)
  by (simp add: min_def)

end

lemma append_shorter: "r \<noteq> [] \<Longrightarrow> bs = xs @ r \<Longrightarrow> length xs < length bs"
  by simp

lemma readsI_need:
  assumes "\<And>d. g d = and_then (dec_need n d) (\<lambda>_. Inr (h (byte_slice (dec_buf d) (dec_pos d) n), dec_advance n d))"
    and "length bs = n" "h bs = v"
  shows "reads g bs v"
  unfolding reads_def
proof (intro allI impI conjI)
  fix d :: decoder and r
  assume le: "dec_pos d \<le> length (dec_buf d)"
  show "g d = Inr (v, dec_advance (length bs) d)" if eq: "drop (dec_pos d) (dec_buf d) = bs @ r"
  proof -
    have "length (dec_buf d) - dec_pos d = length bs + length r"
      using arg_cong [OF eq, of length] by simp
    with assms show ?thesis by (simp add: dec_need_def byte_slice_def eq)
  qed
  show "\<exists>n. g d = Inl (BufferTooShort n (length (dec_buf d)))"
    if "r \<noteq> []" "bs = drop (dec_pos d) (dec_buf d) @ r"
    using append_shorter [OF that] assms by (simp add: dec_need_def)
qed

lemma writes_put_u8 [codec_intros]: "writes (put_u8 v) [v]"
proof (rule writesI_need)
  show "put_u8 v e = (case enc_need (length [v]) e of Inl x \<Rightarrow> (Inl x, e)
      | Inr _ \<Rightarrow> (Inr (), enc_write [v] e))" for e
    by (auto simp: put_u8_def enc_need_def enc_write_def blit_def upd_conv_take_nth_drop)
qed

lemma reads_get_u8 [codec_intros]: "reads get_u8 [v] v"
proof (rule readsI_need [where n = 1 and h = hd])
  show "get_u8 d = and_then (dec_need 1 d)
      (\<lambda>_. Inr (hd (byte_slice (dec_buf d) (dec_pos d) 1), dec_advance 1 d))" for d
    by (auto simp: get_u8_def dec_need_def byte_slice_def hd_drop_conv_nth take_Suc)
qed simp_all

interpretation u8_codec: field_codec put_u8 get_u8 "\<lambda>v. [v]" "\<lambda>_. True"
  by unfold_locales (simp_all add: codec_intros)

interpretation u16_codec: field_codec put_u16 get_u16 "le_bytes 2" "\<lambda>_. True"
  by unfold_locales
    (auto intro!: writesI_need readsI_need [where n = 2 and h = le_val]
      simp: put_u16_def get_u16_def)

interpretation u32_codec: field_codec put_u32 get_u32 "le_bytes 4" "\<lambda>_. True"
  by unfold_locales
    (auto intro!: writesI_need readsI_need [where n = 4 and h = le_val]
      simp: put_u32_def get_u32_def)

interpretation u64_codec: field_codec put_u64 get_u64 "le_bytes 8" "\<lambda>_. True"
  by unfold_locales
    (auto intro!: writesI_need readsI_need [where n = 8 and h = le_val]
      simp: put_u64_def get_u64_def)

interpretation i64_codec: field_codec put_i64 get_i64 "\<lambda>v. le_bytes 8 (i64_word v)" "\<lambda>_. True"
  by unfold_locales
    (auto intro!: writesI_need readsI_need [where n = 8 and h = "\<lambda>b. I64 (le_val b)"]
      simp: put_i64_def get_i64_def)

interpretation bool_codec: field_codec put_bool get_bool "\<lambda>b. [bool_u8 b]" "\<lambda>_. True"
proof
  show "writes (put_bool v) [bool_u8 v]" for v
    by (simp add: put_bool_def writes_put_u8)
  have "reads get_bool ([bool_u8 v] @ []) v" for v
    unfolding get_bool_def
    by (rule reads_get_then [OF reads_get_u8]) (cases v; simp add: bool_u8_def reads_get_ret)
  then show "reads get_bool [bool_u8 v] v" for v
    by simp
qed

definition str_wire :: "string \<Rightarrow> u8 list" where
  "str_wire s = le_bytes 2 (word_of_nat (length s) :: u16) @ str_bytes s"

definition str_ok :: "string \<Rightarrow> bool" where
  "str_ok s \<longleftrightarrow> length s \<le> u16_MAX \<and> str_utf8 s"

interpretation str_codec: field_codec put_str get_str str_wire str_ok
proof
  fix s
  assume ok: "str_ok s"
  then have len: "unat (word_of_nat (length s) :: u16) = length s"
    by (simp add: str_ok_def u16_MAX_def unat_of_nat)
  have "put_str s = put_then (put_u16 (word_of_nat (length s))) (put_raw (str_bytes s))"
    using ok by (intro ext) (simp add: put_str_def str_ok_def)
  moreover have "writes (put_raw (str_bytes s)) (str_bytes s)"
    by (rule writesI_need) (simp add: put_raw_def)
  ultimately show "writes (put_str s) (str_wire s)"
    by (simp add: str_wire_def writes_put_then u16_codec.put_writes)
  have "reads (get_raw_str (length s)) (str_bytes s) s"
    unfolding reads_def
  proof (intro allI impI conjI)
    fix d :: decoder and r
    assume le: "dec_pos d \<le> length (dec_buf d)"
    show "get_raw_str (length s) d = Inr (s, dec_advance (length (str_bytes s)) d)"
      if eq: "drop (dec_pos d) (dec_buf d) = str_bytes s @ r"
    proof -
      have "length (dec_buf d) - dec_pos d = length s + length r"
        using arg_cong [OF eq, of length] by simp
      with ok show ?thesis
        by (simp add: get_raw_str_def dec_need_def byte_slice_def eq str_ok_def str_utf8_def)
    qed
    show "\<exists>n. get_raw_str (length s) d = Inl (BufferTooShort n (length (dec_buf d)))"
      if "r \<noteq> []" "str_bytes s = drop (dec_pos d) (dec_buf d) @ r"
      using append_shorter [OF that] by (simp add: get_raw_str_def dec_need_def)
  qed
  then show "reads get_str (str_wire s) s"
    unfolding get_str_def str_wire_def
    by (intro reads_get_then [where v = "word_of_nat (length s)"])
      (simp_all add: u16_codec.get_reads len)
qed

lemmas field_codec_intros [codec_intros] =
  u16_codec.put_writes [OF TrueI] u16_codec.get_reads [OF TrueI]
  u32_codec.put_writes [OF TrueI] u32_codec.get_reads [OF TrueI]
  u64_codec.put_writes [OF TrueI] u64_codec.get_reads [OF TrueI]
  i64_codec.put_writes [OF TrueI] i64_codec.get_reads [OF TrueI]
  bool_codec.put_writes [OF TrueI] bool_codec.get_reads [OF TrueI]
  str_codec.put_writes str_codec.get_reads

text \<open>An enum field: \<open>put_u8(x as u8)\<close> and \<open>X::try_from(get_u8()?)?\<close>.\<close>

definition get_enum :: "(u8 \<Rightarrow> core_error + 'a) \<Rightarrow> 'a get" where
  "get_enum try_from = get_then get_u8 (\<lambda>b. get_lift (try_from b))"

lemma reads_get_enum: "try_from b = Inr x \<Longrightarrow> reads (get_enum try_from) [b] x"
proof -
  assume "try_from b = Inr x"
  then have "get_lift (try_from b) = get_ret x"
    by (intro ext) (simp add: get_lift_def get_ret_def)
  then have "reads (get_enum try_from) ([b] @ []) x"
    unfolding get_enum_def by (intro reads_get_then [OF reads_get_u8]) (simp add: reads_get_ret)
  then show ?thesis by simp
qed

lemmas enum_reads [codec_intros] = reads_get_enum [where try_from = aggressor_side_try_from, OF aggr.try_from_to_u8]
  reads_get_enum [where try_from = feed_state_try_from, OF feed.try_from_to_u8]
  reads_get_enum [where try_from = book_stale_reason_try_from, OF stale_reason.try_from_to_u8]

end
