(* ===== verification/Header.thy ===== *)
theory Header
  imports Codec
begin

text \<open>
  \<open>MessageHeader\<close> of \<open>crates/connector-core/src/header.rs\<close>: the 56-byte fixed prefix of
  every message, its encoder into the front of a buffer and its decoder.
\<close>

definition SCHEMA_VERSION :: u8 where "SCHEMA_VERSION = 1"
definition TS_NONE :: i64 where "TS_NONE = 0"
definition HEADER_SIZE :: nat where
  "HEADER_SIZE = 1 + 1 + 1 + 1 + 4 + 4 + 4 + 8 + 8 + 8 + 8 + 8"

record message_header =
  mh_schema_version :: u8
  mh_message_type :: message_type
  mh_venue_id :: venue_id
  mh_market_type :: market_type
  mh_instrument_id :: u32
  mh_connection_id :: u32
  mh_instance_id :: u32
  mh_sequence_number :: u64
  mh_exchange_event_ts :: i64
  mh_exchange_tx_ts :: i64
  mh_local_recv_ts :: i64
  mh_local_publish_ts :: i64

text \<open>The writes of \<open>encode_into\<close>, offset by offset, in the order of the code.\<close>

definition header_fill :: "message_header \<Rightarrow> u8 list \<Rightarrow> u8 list" where
  "header_fill h b0 =
     (let b1 = b0[0 := mh_schema_version h];
          b2 = b1[1 := message_type_u8 (mh_message_type h)];
          b3 = b2[2 := venue_id_u8 (mh_venue_id h)];
          b4 = b3[3 := market_type_u8 (mh_market_type h)];
          b5 = blit b4 4 (le_bytes 4 (mh_instrument_id h));
          b6 = blit b5 8 (le_bytes 4 (mh_connection_id h));
          b7 = blit b6 12 (le_bytes 4 (mh_instance_id h));
          b8 = blit b7 16 (le_bytes 8 (mh_sequence_number h));
          b9 = blit b8 24 (le_bytes 8 (i64_word (mh_exchange_event_ts h)));
          b10 = blit b9 32 (le_bytes 8 (i64_word (mh_exchange_tx_ts h)));
          b11 = blit b10 40 (le_bytes 8 (i64_word (mh_local_recv_ts h)))
      in blit b11 48 (le_bytes 8 (i64_word (mh_local_publish_ts h))))"

definition header_encode_into :: "message_header \<Rightarrow> u8 list \<Rightarrow> (core_error + unit) \<times> u8 list" where
  "header_encode_into h buf =
     (if length buf < HEADER_SIZE then (Inl (BufferTooShort HEADER_SIZE (length buf)), buf)
      else (Inr (), header_fill h buf))"

definition header_decode :: "u8 list \<Rightarrow> core_error + message_header" where
  "header_decode buf =
     (if length buf < HEADER_SIZE then Inl (BufferTooShort HEADER_SIZE (length buf)) else
      and_then (message_type_try_from (buf ! 1)) (\<lambda>mt.
      and_then (venue_id_try_from (buf ! 2)) (\<lambda>v.
      and_then (market_type_try_from (buf ! 3)) (\<lambda>mk. Inr
        \<lparr>mh_schema_version = buf ! 0, mh_message_type = mt, mh_venue_id = v, mh_market_type = mk,
         mh_instrument_id = le_val (byte_slice buf 4 4),
         mh_connection_id = le_val (byte_slice buf 8 4),
         mh_instance_id = le_val (byte_slice buf 12 4),
         mh_sequence_number = le_val (byte_slice buf 16 8),
         mh_exchange_event_ts = I64 (le_val (byte_slice buf 24 8)),
         mh_exchange_tx_ts = I64 (le_val (byte_slice buf 32 8)),
         mh_local_recv_ts = I64 (le_val (byte_slice buf 40 8)),
         mh_local_publish_ts = I64 (le_val (byte_slice buf 48 8))\<rparr>))))"

section \<open>The wire form of a header\<close>

definition header_bytes :: "message_header \<Rightarrow> u8 list" where
  "header_bytes h =
     [mh_schema_version h, message_type_u8 (mh_message_type h), venue_id_u8 (mh_venue_id h),
      market_type_u8 (mh_market_type h)] @
     le_bytes 4 (mh_instrument_id h) @ le_bytes 4 (mh_connection_id h) @
     le_bytes 4 (mh_instance_id h) @ le_bytes 8 (mh_sequence_number h) @
     le_bytes 8 (i64_word (mh_exchange_event_ts h)) @ le_bytes 8 (i64_word (mh_exchange_tx_ts h)) @
     le_bytes 8 (i64_word (mh_local_recv_ts h)) @ le_bytes 8 (i64_word (mh_local_publish_ts h))"

lemma length_header_bytes [simp]: "length (header_bytes h) = HEADER_SIZE"
  by (simp add: header_bytes_def HEADER_SIZE_def)

lemma HEADER_SIZE_56: "HEADER_SIZE = 56"
  by (simp add: HEADER_SIZE_def)

text \<open>Writing behind a filled front extends the front.\<close>

lemma blit_front:
  "length A = k \<Longrightarrow> blit (A @ drop k buf) k bs = (A @ bs) @ drop (k + length bs) buf"
  by (simp add: blit_def add.commute)

lemma list_update_front:
  "length A = k \<Longrightarrow> k < length buf \<Longrightarrow> (A @ drop k buf)[k := x] = (A @ [x]) @ drop (Suc k) buf"
  by (simp add: list_update_append Cons_nth_drop_Suc [symmetric])

lemma header_fill_bytes:
  assumes "HEADER_SIZE \<le> length buf"
  shows "header_fill h buf = header_bytes h @ drop HEADER_SIZE buf"
proof -
  have start: "buf = [] @ drop 0 buf" by simp
  have L: "buf \<noteq> []" "Suc 0 < length buf" "2 < length buf" "3 < length buf"
    using assms by (auto simp: HEADER_SIZE_56)
  show ?thesis
    unfolding header_fill_def Let_def
    apply (subst (1) start)
    apply (simp only: One_nat_def)
    apply (subst list_update_front, simp, simp add: L)
    apply (subst list_update_front, simp, simp add: L)
    apply (simp only: numeral_2_eq_2 [symmetric])
    apply (subst list_update_front, simp, simp add: L)
    apply (simp only: numeral_3_eq_3 [symmetric] Suc_numeral add_num_simps)
    apply (subst list_update_front, simp, simp add: L)
    apply (simp only: Suc_numeral add_num_simps)
    apply (subst blit_front, simp,
        simp only: length_le_bytes numeral_plus_numeral add_num_simps)+
    apply (simp add: header_bytes_def HEADER_SIZE_56)
    done
qed

theorem header_decode_bytes: "header_decode (header_bytes h @ rest) = Inr h"
  by (simp add: header_decode_def header_bytes_def HEADER_SIZE_56 byte_slice_def)

text \<open>Whatever the buffer held, a header written into it is the header read from it.\<close>

lemma header_roundtrip:
  "HEADER_SIZE \<le> length buf \<Longrightarrow>
   \<exists>buf'. header_encode_into h buf = (Inr (), buf') \<and> header_decode buf' = Inr h \<and>
          length buf' = length buf \<and> drop HEADER_SIZE buf' = drop HEADER_SIZE buf"
  by (simp add: header_encode_into_def header_fill_bytes header_decode_bytes)

lemma header_decode_short:
  "length buf < HEADER_SIZE \<Longrightarrow> header_decode buf = Inl (BufferTooShort HEADER_SIZE (length buf))"
  by (simp add: header_decode_def)

end
