(* ===== verification/Messages.thy ===== *)
theory Messages
  imports Header
begin

text \<open>
  The messages of \<open>crates/connector-core/src/message.rs\<close>: one record per struct, with its
  \<open>encode_into\<close> and \<open>decode\<close>, and the sum type \<open>NormalizedMessage\<close> with \<open>from_bytes\<close>.
  The fields carry a prefix per message (\<open>bd_\<close> for \<open>BookDelta\<close>, and so on). The locale
  \<open>message_codec\<close> is the contract of a message type; the round trip, the truncation and
  the short-buffer behaviour are proved once inside it and instantiated for all eighteen.

  Memory exhaustion is not modelled: \<open>get_levels\<close> reserves \<open>count\<close> levels before it has
  read any of them.
\<close>

section \<open>Price levels\<close>

definition UPDATE_ID_NONE :: u64 where "UPDATE_ID_NONE = 0"

record price_level =
  pl_price :: i64
  pl_qty :: i64

definition put_levels :: "price_level list \<Rightarrow> put" where
  "put_levels ls e =
     (if u32_MAX < length ls then (Inl (VecTooLong (length ls) u32_MAX), e)
      else put_then (put_u32 (word_of_nat (length ls)))
        (put_all (concat (map (\<lambda>l. [put_i64 (pl_price l), put_i64 (pl_qty l)]) ls))) e)"

fun get_n_levels :: "nat \<Rightarrow> price_level list get" where
  "get_n_levels 0 = get_ret []"
| "get_n_levels (Suc n) =
     get_then get_i64 (\<lambda>price. get_then get_i64 (\<lambda>qty.
     get_then (get_n_levels n) (\<lambda>ls. get_ret (\<lparr>pl_price = price, pl_qty = qty\<rparr> # ls))))"

definition get_levels :: "price_level list get" where
  "get_levels = get_then get_u32 (\<lambda>count. get_n_levels (unat count))"

definition level_wire :: "price_level \<Rightarrow> u8 list" where
  "level_wire l = le_bytes 8 (i64_word (pl_price l)) @ le_bytes 8 (i64_word (pl_qty l))"

definition levels_wire :: "price_level list \<Rightarrow> u8 list" where
  "levels_wire ls = le_bytes 4 (word_of_nat (length ls) :: u32) @ concat (map level_wire ls)"

definition levels_ok :: "price_level list \<Rightarrow> bool" where
  "levels_ok ls \<longleftrightarrow> length ls \<le> u32_MAX"

lemma reads_ret_eq: "v = w \<Longrightarrow> reads (get_ret v) [] w"
  by (simp add: reads_get_ret)

lemma writes_levels:
  "writes (put_all (concat (map (\<lambda>l. [put_i64 (pl_price l), put_i64 (pl_qty l)]) ls)))
     (concat (map level_wire ls))"
proof (induction ls)
  case Nil
  then show ?case by (simp add: writes_put_ok)
next
  case (Cons l ls)
  then show ?case
    by (auto simp: level_wire_def intro!: writes_put_then i64_codec.put_writes)
qed

lemma reads_n_levels: "reads (get_n_levels (length ls)) (concat (map level_wire ls)) ls"
proof (induction ls)
  case Nil
  then show ?case by (simp add: reads_get_ret)
next
  case (Cons l ls)
  have "reads (get_then get_i64 (\<lambda>price. get_then get_i64 (\<lambda>qty.
      get_then (get_n_levels (length ls)) (\<lambda>ls. get_ret (\<lparr>pl_price = price, pl_qty = qty\<rparr> # ls)))))
      (le_bytes 8 (i64_word (pl_price l)) @ le_bytes 8 (i64_word (pl_qty l)) @
       concat (map level_wire ls) @ []) (l # ls)"
    by (rule codec_intros Cons.IH reads_ret_eq | simp)+
  moreover have "concat (map level_wire (l # ls)) =
      le_bytes 8 (i64_word (pl_price l)) @ le_bytes 8 (i64_word (pl_qty l)) @
      concat (map level_wire ls) @ []"
    by (simp add: level_wire_def)
  ultimately show ?case by (simp only: get_n_levels.simps list.size add_Suc_right add_0_right)
qed

interpretation levels_codec: field_codec put_levels get_levels levels_wire levels_ok
proof
  fix ls
  assume ok: "levels_ok ls"
  then have len: "unat (word_of_nat (length ls) :: u32) = length ls"
    by (simp add: levels_ok_def u32_MAX_def unat_of_nat)
  have "put_levels ls = put_then (put_u32 (word_of_nat (length ls)))
      (put_all (concat (map (\<lambda>l. [put_i64 (pl_price l), put_i64 (pl_qty l)]) ls)))"
    using ok by (intro ext) (simp add: put_levels_def levels_ok_def)
  then show "writes (put_levels ls) (levels_wire ls)"
    by (simp add: levels_wire_def writes_put_then u32_codec.put_writes writes_levels)
  show "reads get_levels (levels_wire ls) ls"
    unfolding get_levels_def levels_wire_def
    by (intro reads_get_then [where v = "word_of_nat (length ls)"])
      (simp_all add: u32_codec.get_reads len reads_n_levels)
qed

lemmas levels_codec_intros [codec_intros] = levels_codec.put_writes levels_codec.get_reads

section \<open>The shape of every message codec\<close>

text \<open>\<open>self.header.encode_into(buf)?\<close>, then the body through an \<open>Encoder\<close> on the rest.\<close>

definition encode_message :: "message_header \<Rightarrow> put list \<Rightarrow> u8 list \<Rightarrow> (core_error + nat) \<times> u8 list" where
  "encode_message h ps buf =
     (case header_encode_into h buf of
        (Inl e, b) \<Rightarrow> (Inl e, b)
      | (Inr _, b) \<Rightarrow>
          (case put_all ps (Encoder_new (drop HEADER_SIZE b)) of
             (Inl e, enc) \<Rightarrow> (Inl e, take HEADER_SIZE b @ enc_buf enc)
           | (Inr _, enc) \<Rightarrow>
               (Inr (HEADER_SIZE + Encoder_finish enc), take HEADER_SIZE b @ enc_buf enc)))"

definition encode_header_only :: "message_header \<Rightarrow> u8 list \<Rightarrow> (core_error + nat) \<times> u8 list" where
  "encode_header_only h buf =
     (case header_encode_into h buf of (Inl e, b) \<Rightarrow> (Inl e, b) | (Inr _, b) \<Rightarrow> (Inr HEADER_SIZE, b))"

text \<open>The guard of the macro \<open>check_message_type!\<close>.\<close>

definition check_message_type :: "message_header \<Rightarrow> message_type \<Rightarrow> core_error + unit" where
  "check_message_type h expected =
     (if mh_message_type h \<noteq> expected then Inl (MessageTypeMismatch (mh_message_type h) expected)
      else Inr ())"

definition decode_message :: "message_type \<Rightarrow> (message_header \<Rightarrow> 'm get) \<Rightarrow> u8 list \<Rightarrow> core_error + 'm" where
  "decode_message ty body buf =
     and_then (header_decode buf) (\<lambda>h.
     and_then (check_message_type h ty) (\<lambda>_.
     and_then (body h (Decoder_new (drop HEADER_SIZE buf))) (\<lambda>(m, _). Inr m)))"

lemma encode_header_only_eq: "encode_header_only h buf = encode_message h [] buf"
  by (auto simp: encode_header_only_def encode_message_def header_encode_into_def put_ok_def
      Encoder_new_def Encoder_finish_def)

locale message_codec =
  fixes header_of :: "'m \<Rightarrow> message_header"
    and ty :: message_type
    and puts :: "'m \<Rightarrow> put list"
    and body :: "message_header \<Rightarrow> 'm get"
    and wire :: "'m \<Rightarrow> u8 list"
    and ok :: "'m \<Rightarrow> bool"
    and encode :: "'m \<Rightarrow> u8 list \<Rightarrow> (core_error + nat) \<times> u8 list"
    and decode :: "u8 list \<Rightarrow> core_error + 'm"
  assumes ok_type: "ok m \<Longrightarrow> mh_message_type (header_of m) = ty"
    and puts_write: "ok m \<Longrightarrow> writes (put_all (puts m)) (wire m)"
    and body_reads: "ok m \<Longrightarrow> reads (body (header_of m)) (wire m) m"
    and body_header: "yields (\<lambda>m. header_of m = h) (body h)"
    and encode_eq: "encode m buf = encode_message (header_of m) (puts m) buf"
    and decode_eq: "decode buf = decode_message ty body buf"
begin

definition full :: "'m \<Rightarrow> u8 list" where
  "full m = header_bytes (header_of m) @ wire m"

lemma encode_full:
  assumes "ok m" "length (full m) \<le> length buf"
  shows "encode m buf = (Inr (length (full m)), full m @ drop (length (full m)) buf)"
proof -
  have "length (wire m) \<le> length (drop HEADER_SIZE buf)" "HEADER_SIZE \<le> length buf"
    using assms(2) by (simp_all add: full_def)
  with writes_at_front [OF puts_write [OF assms(1)]] show ?thesis
    by (simp add: encode_eq encode_message_def header_encode_into_def header_fill_bytes
        Encoder_finish_def full_def add.commute)
qed

lemma decode_full:
  assumes "ok m"
  shows "decode (full m @ rest) = Inr m"
  using reads_at_front [OF body_reads [OF assms], of rest] ok_type [OF assms]
  by (simp add: decode_eq decode_message_def full_def header_decode_bytes check_message_type_def)

lemma roundtrip:
  assumes "ok m" "length (full m) \<le> length buf"
  shows "\<exists>n buf'. encode m buf = (Inr n, buf') \<and> n = length (full m) \<and>
    length buf' = length buf \<and> drop n buf' = drop n buf \<and>
    decode buf' = Inr m \<and> decode (take n buf') = Inr m"
  using assms decode_full [OF assms(1), of "[]"]
  by (simp add: encode_full decode_full)

text \<open>A buffer too small for the message gives \<open>BufferTooShort\<close> and keeps its length.\<close>

lemma encode_no_room:
  assumes "ok m" "length buf < length (full m)"
  shows "\<exists>k n buf'. encode m buf = (Inl (BufferTooShort k n), buf') \<and> length buf' = length buf"
proof (cases "length buf < HEADER_SIZE")
  case True
  then show ?thesis by (simp add: encode_eq encode_message_def header_encode_into_def)
next
  case False
  then have "length (drop HEADER_SIZE buf) < length (wire m)"
    using assms(2) by (simp add: full_def)
  then obtain n e' where "put_all (puts m) (Encoder_new (drop HEADER_SIZE buf)) =
      (Inl (BufferTooShort n (length (drop HEADER_SIZE buf))), e')"
    "length (enc_buf e') = length (drop HEADER_SIZE buf)"
    using writes_no_room [OF puts_write [OF assms(1)]] by blast
  with False show ?thesis
    by (simp add: encode_eq encode_message_def header_encode_into_def header_fill_bytes)
qed

text \<open>A message cut short anywhere does not decode: the error is \<open>BufferTooShort\<close>.\<close>

lemma decode_truncated:
  assumes "ok m" "n < length (full m)"
  shows "\<exists>k l. decode (take n (full m)) = Inl (BufferTooShort k l)"
proof (cases "n < HEADER_SIZE")
  case True
  then show ?thesis
    by (simp add: decode_eq decode_message_def header_decode_short full_def)
next
  case False
  then obtain j where n: "n = HEADER_SIZE + j" using le_Suc_ex not_less by blast
  have "reads (body (header_of m)) (take j (wire m) @ drop j (wire m)) m"
    using body_reads [OF assms(1)] by simp
  moreover have "drop j (wire m) \<noteq> []"
    using assms(2) n by (simp add: full_def)
  ultimately obtain k l where "body (header_of m) (Decoder_new (take j (wire m))) =
      Inl (BufferTooShort k l)"
    using reads_truncated [of "body (header_of m)" "take j (wire m)" "drop j (wire m)" m] by blast
  then show ?thesis
    using ok_type [OF assms(1)] n
    by (simp add: decode_eq decode_message_def full_def header_decode_bytes check_message_type_def)
qed

lemma decode_header: "decode buf = Inr m \<Longrightarrow> header_decode buf = Inr (header_of m)"
  using body_header
  by (auto simp: decode_eq decode_message_def check_message_type_def and_then_Inr_iff
      yields_def split: if_splits)

lemma header_of_full: "header_decode (full m @ rest) = Inr (header_of m)"
  by (simp add: full_def header_decode_bytes)

text \<open>A header of another type is refused before the body is looked at.\<close>

lemma decode_wrong_type:
  assumes "header_decode buf = Inr h" "mh_message_type h \<noteq> ty"
  shows "decode buf = Inl (MessageTypeMismatch (mh_message_type h) ty)"
  using assms by (simp add: decode_eq decode_message_def check_message_type_def)

end

section \<open>\<open>InstrumentDefinition\<close>\<close>

record InstrumentDefinition =
  id_header :: message_header
  id_symbol :: string
  id_base_asset :: string
  id_quote_asset :: string
  id_price_scale :: u32
  id_qty_scale :: u32
  id_tick_size :: i64
  id_step_size :: i64
  id_min_qty :: i64
  id_min_notional :: i64
  id_contract_size :: i64
  id_is_trading :: bool

definition InstrumentDefinition_puts :: "InstrumentDefinition \<Rightarrow> put list" where
  "InstrumentDefinition_puts m =
     [put_str (id_symbol m),
      put_str (id_base_asset m),
      put_str (id_quote_asset m),
      put_u32 (id_price_scale m),
      put_u32 (id_qty_scale m),
      put_i64 (id_tick_size m),
      put_i64 (id_step_size m),
      put_i64 (id_min_qty m),
      put_i64 (id_min_notional m),
      put_i64 (id_contract_size m),
      put_bool (id_is_trading m)]"

definition InstrumentDefinition_body :: "message_header \<Rightarrow> InstrumentDefinition get" where
  "InstrumentDefinition_body header =
     get_then get_str (\<lambda>symbol.
     get_then get_str (\<lambda>base_asset.
     get_then get_str (\<lambda>quote_asset.
     get_then get_u32 (\<lambda>price_scale.
     get_then get_u32 (\<lambda>qty_scale.
     get_then get_i64 (\<lambda>tick_size.
     get_then get_i64 (\<lambda>step_size.
     get_then get_i64 (\<lambda>min_qty.
     get_then get_i64 (\<lambda>min_notional.
     get_then get_i64 (\<lambda>contract_size.
     get_then get_bool (\<lambda>is_trading.
     get_ret
       \<lparr>id_header = header, id_symbol = symbol, id_base_asset = base_asset,
        id_quote_asset = quote_asset, id_price_scale = price_scale, id_qty_scale = qty_scale,
        id_tick_size = tick_size, id_step_size = step_size, id_min_qty = min_qty,
        id_min_notional = min_notional, id_contract_size = contract_size, id_is_trading =
        is_trading\<rparr>)))))))))))"

definition InstrumentDefinition_encode_into :: "InstrumentDefinition \<Rightarrow> u8 list \<Rightarrow> (core_error + nat) \<times> u8 list" where
  "InstrumentDefinition_encode_into m buf = encode_message (id_header m) (InstrumentDefinition_puts m) buf"

definition InstrumentDefinition_decode :: "u8 list \<Rightarrow> core_error + InstrumentDefinition" where
  "InstrumentDefinition_decode buf = decode_message MT_InstrumentDefinition InstrumentDefinition_body buf"

definition InstrumentDefinition_wire :: "InstrumentDefinition \<Rightarrow> u8 list" where
  "InstrumentDefinition_wire m =
     (str_wire (id_symbol m) @
      str_wire (id_base_asset m) @
      str_wire (id_quote_asset m) @
      le_bytes 4 (id_price_scale m) @
      le_bytes 4 (id_qty_scale m) @
      le_bytes 8 (i64_word (id_tick_size m)) @
      le_bytes 8 (i64_word (id_step_size m)) @
      le_bytes 8 (i64_word (id_min_qty m)) @
      le_bytes 8 (i64_word (id_min_notional m)) @
      le_bytes 8 (i64_word (id_contract_size m)) @
      [bool_u8 (id_is_trading m)])"

definition InstrumentDefinition_ok :: "InstrumentDefinition \<Rightarrow> bool" where
  "InstrumentDefinition_ok m \<longleftrightarrow>
     mh_message_type (id_header m) = MT_InstrumentDefinition \<and>
     str_ok (id_symbol m) \<and>
     str_ok (id_base_asset m) \<and>
     str_ok (id_quote_asset m)"

interpretation InstrumentDefinition_codec: message_codec id_header MT_InstrumentDefinition InstrumentDefinition_puts InstrumentDefinition_body InstrumentDefinition_wire InstrumentDefinition_ok
  InstrumentDefinition_encode_into InstrumentDefinition_decode
proof
  fix m buf h
  show "InstrumentDefinition_encode_into m buf = encode_message (id_header m) (InstrumentDefinition_puts m) buf"
    and "InstrumentDefinition_decode buf = decode_message MT_InstrumentDefinition InstrumentDefinition_body buf"
    by (simp_all add: InstrumentDefinition_encode_into_def InstrumentDefinition_decode_def)
  show "yields (\<lambda>m. id_header m = h) (InstrumentDefinition_body h)"
    unfolding InstrumentDefinition_body_def by (intro yields_get_then yields_get_ret) simp
  assume ok: "InstrumentDefinition_ok m"
  then show "mh_message_type (id_header m) = MT_InstrumentDefinition"
    by (simp add: InstrumentDefinition_ok_def)
  have "writes (put_all (InstrumentDefinition_puts m))
       (str_wire (id_symbol m) @ str_wire (id_base_asset m) @ str_wire (id_quote_asset m) @
        le_bytes 4 (id_price_scale m) @ le_bytes 4 (id_qty_scale m) @ le_bytes 8 (i64_word
        (id_tick_size m)) @ le_bytes 8 (i64_word (id_step_size m)) @ le_bytes 8 (i64_word
        (id_min_qty m)) @ le_bytes 8 (i64_word (id_min_notional m)) @ le_bytes 8 (i64_word
        (id_contract_size m)) @ [bool_u8 (id_is_trading m)] @ [])"
    unfolding InstrumentDefinition_puts_def by (rule codec_intros | simp add: ok [unfolded InstrumentDefinition_ok_def])+
  then show "writes (put_all (InstrumentDefinition_puts m)) (InstrumentDefinition_wire m)"
    by (simp add: InstrumentDefinition_wire_def)
  have "reads (InstrumentDefinition_body (id_header m))
       (str_wire (id_symbol m) @ str_wire (id_base_asset m) @ str_wire (id_quote_asset m) @
        le_bytes 4 (id_price_scale m) @ le_bytes 4 (id_qty_scale m) @ le_bytes 8 (i64_word
        (id_tick_size m)) @ le_bytes 8 (i64_word (id_step_size m)) @ le_bytes 8 (i64_word
        (id_min_qty m)) @ le_bytes 8 (i64_word (id_min_notional m)) @ le_bytes 8 (i64_word
        (id_contract_size m)) @ [bool_u8 (id_is_trading m)] @ []) m"
    unfolding InstrumentDefinition_body_def by (rule codec_intros reads_ret_eq | simp add: ok [unfolded InstrumentDefinition_ok_def])+
  then show "reads (InstrumentDefinition_body (id_header m)) (InstrumentDefinition_wire m) m"
    by (simp add: InstrumentDefinition_wire_def)
qed

section \<open>\<open>TradingStatus\<close>\<close>

record TradingStatus =
  ts_header :: message_header
  ts_symbol :: string
  ts_is_trading :: bool

definition TradingStatus_puts :: "TradingStatus \<Rightarrow> put list" where
  "TradingStatus_puts m =
     [put_str (ts_symbol m),
      put_bool (ts_is_trading m)]"

definition TradingStatus_body :: "message_header \<Rightarrow> TradingStatus get" where
  "TradingStatus_body header =
     get_then get_str (\<lambda>symbol.
     get_then get_bool (\<lambda>is_trading.
     get_ret
       \<lparr>ts_header = header, ts_symbol = symbol, ts_is_trading = is_trading\<rparr>))"

definition TradingStatus_encode_into :: "TradingStatus \<Rightarrow> u8 list \<Rightarrow> (core_error + nat) \<times> u8 list" where
  "TradingStatus_encode_into m buf = encode_message (ts_header m) (TradingStatus_puts m) buf"

definition TradingStatus_decode :: "u8 list \<Rightarrow> core_error + TradingStatus" where
  "TradingStatus_decode buf = decode_message MT_TradingStatus TradingStatus_body buf"

definition TradingStatus_wire :: "TradingStatus \<Rightarrow> u8 list" where
  "TradingStatus_wire m =
     (str_wire (ts_symbol m) @
      [bool_u8 (ts_is_trading m)])"

definition TradingStatus_ok :: "TradingStatus \<Rightarrow> bool" where
  "TradingStatus_ok m \<longleftrightarrow>
     mh_message_type (ts_header m) = MT_TradingStatus \<and>
     str_ok (ts_symbol m)"

interpretation TradingStatus_codec: message_codec ts_header MT_TradingStatus TradingStatus_puts TradingStatus_body TradingStatus_wire TradingStatus_ok
  TradingStatus_encode_into TradingStatus_decode
proof
  fix m buf h
  show "TradingStatus_encode_into m buf = encode_message (ts_header m) (TradingStatus_puts m) buf"
    and "TradingStatus_decode buf = decode_message MT_TradingStatus TradingStatus_body buf"
    by (simp_all add: TradingStatus_encode_into_def TradingStatus_decode_def)
  show "yields (\<lambda>m. ts_header m = h) (TradingStatus_body h)"
    unfolding TradingStatus_body_def by (intro yields_get_then yields_get_ret) simp
  assume ok: "TradingStatus_ok m"
  then show "mh_message_type (ts_header m) = MT_TradingStatus"
    by (simp add: TradingStatus_ok_def)
  have "writes (put_all (TradingStatus_puts m))
       (str_wire (ts_symbol m) @ [bool_u8 (ts_is_trading m)] @ [])"
    unfolding TradingStatus_puts_def by (rule codec_intros | simp add: ok [unfolded TradingStatus_ok_def])+
  then show "writes (put_all (TradingStatus_puts m)) (TradingStatus_wire m)"
    by (simp add: TradingStatus_wire_def)
  have "reads (TradingStatus_body (ts_header m))
       (str_wire (ts_symbol m) @ [bool_u8 (ts_is_trading m)] @ []) m"
    unfolding TradingStatus_body_def by (rule codec_intros reads_ret_eq | simp add: ok [unfolded TradingStatus_ok_def])+
  then show "reads (TradingStatus_body (ts_header m)) (TradingStatus_wire m) m"
    by (simp add: TradingStatus_wire_def)
qed

section \<open>\<open>BookSnapshot\<close>\<close>

record BookSnapshot =
  bs_header :: message_header
  bs_symbol :: string
  bs_price_scale :: u8
  bs_qty_scale :: u8
  bs_update_id :: u64
  bs_bids :: "price_level list"
  bs_asks :: "price_level list"

definition BookSnapshot_puts :: "BookSnapshot \<Rightarrow> put list" where
  "BookSnapshot_puts m =
     [put_str (bs_symbol m),
      put_u8 (bs_price_scale m),
      put_u8 (bs_qty_scale m),
      put_u64 (bs_update_id m),
      put_levels (bs_bids m),
      put_levels (bs_asks m)]"

definition BookSnapshot_body :: "message_header \<Rightarrow> BookSnapshot get" where
  "BookSnapshot_body header =
     get_then get_str (\<lambda>symbol.
     get_then get_u8 (\<lambda>price_scale.
     get_then get_u8 (\<lambda>qty_scale.
     get_then get_u64 (\<lambda>update_id.
     get_then get_levels (\<lambda>bids.
     get_then get_levels (\<lambda>asks.
     get_ret
       \<lparr>bs_header = header, bs_symbol = symbol, bs_price_scale = price_scale,
        bs_qty_scale = qty_scale, bs_update_id = update_id, bs_bids = bids, bs_asks =
        asks\<rparr>))))))"

definition BookSnapshot_encode_into :: "BookSnapshot \<Rightarrow> u8 list \<Rightarrow> (core_error + nat) \<times> u8 list" where
  "BookSnapshot_encode_into m buf = encode_message (bs_header m) (BookSnapshot_puts m) buf"

definition BookSnapshot_decode :: "u8 list \<Rightarrow> core_error + BookSnapshot" where
  "BookSnapshot_decode buf = decode_message MT_BookSnapshot BookSnapshot_body buf"

definition BookSnapshot_wire :: "BookSnapshot \<Rightarrow> u8 list" where
  "BookSnapshot_wire m =
     (str_wire (bs_symbol m) @
      [bs_price_scale m] @
      [bs_qty_scale m] @
      le_bytes 8 (bs_update_id m) @
      levels_wire (bs_bids m) @
      levels_wire (bs_asks m))"

definition BookSnapshot_ok :: "BookSnapshot \<Rightarrow> bool" where
  "BookSnapshot_ok m \<longleftrightarrow>
     mh_message_type (bs_header m) = MT_BookSnapshot \<and>
     str_ok (bs_symbol m) \<and>
     levels_ok (bs_bids m) \<and>
     levels_ok (bs_asks m)"

interpretation BookSnapshot_codec: message_codec bs_header MT_BookSnapshot BookSnapshot_puts BookSnapshot_body BookSnapshot_wire BookSnapshot_ok
  BookSnapshot_encode_into BookSnapshot_decode
proof
  fix m buf h
  show "BookSnapshot_encode_into m buf = encode_message (bs_header m) (BookSnapshot_puts m) buf"
    and "BookSnapshot_decode buf = decode_message MT_BookSnapshot BookSnapshot_body buf"
    by (simp_all add: BookSnapshot_encode_into_def BookSnapshot_decode_def)
  show "yields (\<lambda>m. bs_header m = h) (BookSnapshot_body h)"
    unfolding BookSnapshot_body_def by (intro yields_get_then yields_get_ret) simp
  assume ok: "BookSnapshot_ok m"
  then show "mh_message_type (bs_header m) = MT_BookSnapshot"
    by (simp add: BookSnapshot_ok_def)
  have "writes (put_all (BookSnapshot_puts m))
       (str_wire (bs_symbol m) @ [bs_price_scale m] @ [bs_qty_scale m] @ le_bytes 8
        (bs_update_id m) @ levels_wire (bs_bids m) @ levels_wire (bs_asks m) @ [])"
    unfolding BookSnapshot_puts_def by (rule codec_intros | simp add: ok [unfolded BookSnapshot_ok_def])+
  then show "writes (put_all (BookSnapshot_puts m)) (BookSnapshot_wire m)"
    by (simp add: BookSnapshot_wire_def)
  have "reads (BookSnapshot_body (bs_header m))
       (str_wire (bs_symbol m) @ [bs_price_scale m] @ [bs_qty_scale m] @ le_bytes 8
        (bs_update_id m) @ levels_wire (bs_bids m) @ levels_wire (bs_asks m) @ []) m"
    unfolding BookSnapshot_body_def by (rule codec_intros reads_ret_eq | simp add: ok [unfolded BookSnapshot_ok_def])+
  then show "reads (BookSnapshot_body (bs_header m)) (BookSnapshot_wire m) m"
    by (simp add: BookSnapshot_wire_def)
qed

section \<open>\<open>BookDelta\<close>\<close>

record BookDelta =
  bd_header :: message_header
  bd_symbol :: string
  bd_price_scale :: u8
  bd_qty_scale :: u8
  bd_first_update_id :: u64
  bd_final_update_id :: u64
  bd_prev_update_id :: u64
  bd_bids :: "price_level list"
  bd_asks :: "price_level list"

definition BookDelta_puts :: "BookDelta \<Rightarrow> put list" where
  "BookDelta_puts m =
     [put_str (bd_symbol m),
      put_u8 (bd_price_scale m),
      put_u8 (bd_qty_scale m),
      put_u64 (bd_first_update_id m),
      put_u64 (bd_final_update_id m),
      put_u64 (bd_prev_update_id m),
      put_levels (bd_bids m),
      put_levels (bd_asks m)]"

definition BookDelta_body :: "message_header \<Rightarrow> BookDelta get" where
  "BookDelta_body header =
     get_then get_str (\<lambda>symbol.
     get_then get_u8 (\<lambda>price_scale.
     get_then get_u8 (\<lambda>qty_scale.
     get_then get_u64 (\<lambda>first_update_id.
     get_then get_u64 (\<lambda>final_update_id.
     get_then get_u64 (\<lambda>prev_update_id.
     get_then get_levels (\<lambda>bids.
     get_then get_levels (\<lambda>asks.
     get_ret
       \<lparr>bd_header = header, bd_symbol = symbol, bd_price_scale = price_scale,
        bd_qty_scale = qty_scale, bd_first_update_id = first_update_id, bd_final_update_id =
        final_update_id, bd_prev_update_id = prev_update_id, bd_bids = bids, bd_asks =
        asks\<rparr>))))))))"

definition BookDelta_encode_into :: "BookDelta \<Rightarrow> u8 list \<Rightarrow> (core_error + nat) \<times> u8 list" where
  "BookDelta_encode_into m buf = encode_message (bd_header m) (BookDelta_puts m) buf"

definition BookDelta_decode :: "u8 list \<Rightarrow> core_error + BookDelta" where
  "BookDelta_decode buf = decode_message MT_BookDelta BookDelta_body buf"

definition BookDelta_wire :: "BookDelta \<Rightarrow> u8 list" where
  "BookDelta_wire m =
     (str_wire (bd_symbol m) @
      [bd_price_scale m] @
      [bd_qty_scale m] @
      le_bytes 8 (bd_first_update_id m) @
      le_bytes 8 (bd_final_update_id m) @
      le_bytes 8 (bd_prev_update_id m) @
      levels_wire (bd_bids m) @
      levels_wire (bd_asks m))"

definition BookDelta_ok :: "BookDelta \<Rightarrow> bool" where
  "BookDelta_ok m \<longleftrightarrow>
     mh_message_type (bd_header m) = MT_BookDelta \<and>
     str_ok (bd_symbol m) \<and>
     levels_ok (bd_bids m) \<and>
     levels_ok (bd_asks m)"

interpretation BookDelta_codec: message_codec bd_header MT_BookDelta BookDelta_puts BookDelta_body BookDelta_wire BookDelta_ok
  BookDelta_encode_into BookDelta_decode
proof
  fix m buf h
  show "BookDelta_encode_into m buf = encode_message (bd_header m) (BookDelta_puts m) buf"
    and "BookDelta_decode buf = decode_message MT_BookDelta BookDelta_body buf"
    by (simp_all add: BookDelta_encode_into_def BookDelta_decode_def)
  show "yields (\<lambda>m. bd_header m = h) (BookDelta_body h)"
    unfolding BookDelta_body_def by (intro yields_get_then yields_get_ret) simp
  assume ok: "BookDelta_ok m"
  then show "mh_message_type (bd_header m) = MT_BookDelta"
    by (simp add: BookDelta_ok_def)
  have "writes (put_all (BookDelta_puts m))
       (str_wire (bd_symbol m) @ [bd_price_scale m] @ [bd_qty_scale m] @ le_bytes 8
        (bd_first_update_id m) @ le_bytes 8 (bd_final_update_id m) @ le_bytes 8
        (bd_prev_update_id m) @ levels_wire (bd_bids m) @ levels_wire (bd_asks m) @ [])"
    unfolding BookDelta_puts_def by (rule codec_intros | simp add: ok [unfolded BookDelta_ok_def])+
  then show "writes (put_all (BookDelta_puts m)) (BookDelta_wire m)"
    by (simp add: BookDelta_wire_def)
  have "reads (BookDelta_body (bd_header m))
       (str_wire (bd_symbol m) @ [bd_price_scale m] @ [bd_qty_scale m] @ le_bytes 8
        (bd_first_update_id m) @ le_bytes 8 (bd_final_update_id m) @ le_bytes 8
        (bd_prev_update_id m) @ levels_wire (bd_bids m) @ levels_wire (bd_asks m) @ []) m"
    unfolding BookDelta_body_def by (rule codec_intros reads_ret_eq | simp add: ok [unfolded BookDelta_ok_def])+
  then show "reads (BookDelta_body (bd_header m)) (BookDelta_wire m) m"
    by (simp add: BookDelta_wire_def)
qed

section \<open>\<open>BestBidOffer\<close>\<close>

record BestBidOffer =
  bbo_header :: message_header
  bbo_symbol :: string
  bbo_price_scale :: u8
  bbo_qty_scale :: u8
  bbo_bid_price :: i64
  bbo_bid_qty :: i64
  bbo_ask_price :: i64
  bbo_ask_qty :: i64
  bbo_update_id :: u64

definition BestBidOffer_puts :: "BestBidOffer \<Rightarrow> put list" where
  "BestBidOffer_puts m =
     [put_str (bbo_symbol m),
      put_u8 (bbo_price_scale m),
      put_u8 (bbo_qty_scale m),
      put_i64 (bbo_bid_price m),
      put_i64 (bbo_bid_qty m),
      put_i64 (bbo_ask_price m),
      put_i64 (bbo_ask_qty m),
      put_u64 (bbo_update_id m)]"

definition BestBidOffer_body :: "message_header \<Rightarrow> BestBidOffer get" where
  "BestBidOffer_body header =
     get_then get_str (\<lambda>symbol.
     get_then get_u8 (\<lambda>price_scale.
     get_then get_u8 (\<lambda>qty_scale.
     get_then get_i64 (\<lambda>bid_price.
     get_then get_i64 (\<lambda>bid_qty.
     get_then get_i64 (\<lambda>ask_price.
     get_then get_i64 (\<lambda>ask_qty.
     get_then get_u64 (\<lambda>update_id.
     get_ret
       \<lparr>bbo_header = header, bbo_symbol = symbol, bbo_price_scale = price_scale,
        bbo_qty_scale = qty_scale, bbo_bid_price = bid_price, bbo_bid_qty = bid_qty,
        bbo_ask_price = ask_price, bbo_ask_qty = ask_qty, bbo_update_id = update_id\<rparr>))))))))"

definition BestBidOffer_encode_into :: "BestBidOffer \<Rightarrow> u8 list \<Rightarrow> (core_error + nat) \<times> u8 list" where
  "BestBidOffer_encode_into m buf = encode_message (bbo_header m) (BestBidOffer_puts m) buf"

definition BestBidOffer_decode :: "u8 list \<Rightarrow> core_error + BestBidOffer" where
  "BestBidOffer_decode buf = decode_message MT_BestBidOffer BestBidOffer_body buf"

definition BestBidOffer_wire :: "BestBidOffer \<Rightarrow> u8 list" where
  "BestBidOffer_wire m =
     (str_wire (bbo_symbol m) @
      [bbo_price_scale m] @
      [bbo_qty_scale m] @
      le_bytes 8 (i64_word (bbo_bid_price m)) @
      le_bytes 8 (i64_word (bbo_bid_qty m)) @
      le_bytes 8 (i64_word (bbo_ask_price m)) @
      le_bytes 8 (i64_word (bbo_ask_qty m)) @
      le_bytes 8 (bbo_update_id m))"

definition BestBidOffer_ok :: "BestBidOffer \<Rightarrow> bool" where
  "BestBidOffer_ok m \<longleftrightarrow>
     mh_message_type (bbo_header m) = MT_BestBidOffer \<and>
     str_ok (bbo_symbol m)"

interpretation BestBidOffer_codec: message_codec bbo_header MT_BestBidOffer BestBidOffer_puts BestBidOffer_body BestBidOffer_wire BestBidOffer_ok
  BestBidOffer_encode_into BestBidOffer_decode
proof
  fix m buf h
  show "BestBidOffer_encode_into m buf = encode_message (bbo_header m) (BestBidOffer_puts m) buf"
    and "BestBidOffer_decode buf = decode_message MT_BestBidOffer BestBidOffer_body buf"
    by (simp_all add: BestBidOffer_encode_into_def BestBidOffer_decode_def)
  show "yields (\<lambda>m. bbo_header m = h) (BestBidOffer_body h)"
    unfolding BestBidOffer_body_def by (intro yields_get_then yields_get_ret) simp
  assume ok: "BestBidOffer_ok m"
  then show "mh_message_type (bbo_header m) = MT_BestBidOffer"
    by (simp add: BestBidOffer_ok_def)
  have "writes (put_all (BestBidOffer_puts m))
       (str_wire (bbo_symbol m) @ [bbo_price_scale m] @ [bbo_qty_scale m] @ le_bytes 8 (i64_word
        (bbo_bid_price m)) @ le_bytes 8 (i64_word (bbo_bid_qty m)) @ le_bytes 8 (i64_word
        (bbo_ask_price m)) @ le_bytes 8 (i64_word (bbo_ask_qty m)) @ le_bytes 8 (bbo_update_id
        m) @ [])"
    unfolding BestBidOffer_puts_def by (rule codec_intros | simp add: ok [unfolded BestBidOffer_ok_def])+
  then show "writes (put_all (BestBidOffer_puts m)) (BestBidOffer_wire m)"
    by (simp add: BestBidOffer_wire_def)
  have "reads (BestBidOffer_body (bbo_header m))
       (str_wire (bbo_symbol m) @ [bbo_price_scale m] @ [bbo_qty_scale m] @ le_bytes 8 (i64_word
        (bbo_bid_price m)) @ le_bytes 8 (i64_word (bbo_bid_qty m)) @ le_bytes 8 (i64_word
        (bbo_ask_price m)) @ le_bytes 8 (i64_word (bbo_ask_qty m)) @ le_bytes 8 (bbo_update_id
        m) @ []) m"
    unfolding BestBidOffer_body_def by (rule codec_intros reads_ret_eq | simp add: ok [unfolded BestBidOffer_ok_def])+
  then show "reads (BestBidOffer_body (bbo_header m)) (BestBidOffer_wire m) m"
    by (simp add: BestBidOffer_wire_def)
qed

section \<open>\<open>Trade\<close>\<close>

record Trade =
  tr_header :: message_header
  tr_symbol :: string
  tr_price_scale :: u8
  tr_qty_scale :: u8
  tr_trade_id :: u64
  tr_price :: i64
  tr_qty :: i64
  tr_trade_ts :: i64
  tr_is_buyer_maker :: bool
  tr_aggressor_side :: aggressor_side

definition Trade_puts :: "Trade \<Rightarrow> put list" where
  "Trade_puts m =
     [put_str (tr_symbol m),
      put_u8 (tr_price_scale m),
      put_u8 (tr_qty_scale m),
      put_u64 (tr_trade_id m),
      put_i64 (tr_price m),
      put_i64 (tr_qty m),
      put_i64 (tr_trade_ts m),
      put_bool (tr_is_buyer_maker m),
      put_u8 (aggressor_side_u8 (tr_aggressor_side m))]"

definition Trade_body :: "message_header \<Rightarrow> Trade get" where
  "Trade_body header =
     get_then get_str (\<lambda>symbol.
     get_then get_u8 (\<lambda>price_scale.
     get_then get_u8 (\<lambda>qty_scale.
     get_then get_u64 (\<lambda>trade_id.
     get_then get_i64 (\<lambda>price.
     get_then get_i64 (\<lambda>qty.
     get_then get_i64 (\<lambda>trade_ts.
     get_then get_bool (\<lambda>is_buyer_maker.
     get_then (get_enum aggressor_side_try_from) (\<lambda>aggressor_side.
     get_ret
       \<lparr>tr_header = header, tr_symbol = symbol, tr_price_scale = price_scale,
        tr_qty_scale = qty_scale, tr_trade_id = trade_id, tr_price = price, tr_qty = qty,
        tr_trade_ts = trade_ts, tr_is_buyer_maker = is_buyer_maker, tr_aggressor_side =
        aggressor_side\<rparr>)))))))))"

definition Trade_encode_into :: "Trade \<Rightarrow> u8 list \<Rightarrow> (core_error + nat) \<times> u8 list" where
  "Trade_encode_into m buf = encode_message (tr_header m) (Trade_puts m) buf"

definition Trade_decode :: "u8 list \<Rightarrow> core_error + Trade" where
  "Trade_decode buf = decode_message MT_Trade Trade_body buf"

definition Trade_wire :: "Trade \<Rightarrow> u8 list" where
  "Trade_wire m =
     (str_wire (tr_symbol m) @
      [tr_price_scale m] @
      [tr_qty_scale m] @
      le_bytes 8 (tr_trade_id m) @
      le_bytes 8 (i64_word (tr_price m)) @
      le_bytes 8 (i64_word (tr_qty m)) @
      le_bytes 8 (i64_word (tr_trade_ts m)) @
      [bool_u8 (tr_is_buyer_maker m)] @
      [aggressor_side_u8 (tr_aggressor_side m)])"

definition Trade_ok :: "Trade \<Rightarrow> bool" where
  "Trade_ok m \<longleftrightarrow>
     mh_message_type (tr_header m) = MT_Trade \<and>
     str_ok (tr_symbol m)"

interpretation Trade_codec: message_codec tr_header MT_Trade Trade_puts Trade_body Trade_wire Trade_ok
  Trade_encode_into Trade_decode
proof
  fix m buf h
  show "Trade_encode_into m buf = encode_message (tr_header m) (Trade_puts m) buf"
    and "Trade_decode buf = decode_message MT_Trade Trade_body buf"
    by (simp_all add: Trade_encode_into_def Trade_decode_def)
  show "yields (\<lambda>m. tr_header m = h) (Trade_body h)"
    unfolding Trade_body_def by (intro yields_get_then yields_get_ret) simp
  assume ok: "Trade_ok m"
  then show "mh_message_type (tr_header m) = MT_Trade"
    by (simp add: Trade_ok_def)
  have "writes (put_all (Trade_puts m))
       (str_wire (tr_symbol m) @ [tr_price_scale m] @ [tr_qty_scale m] @ le_bytes 8 (tr_trade_id
        m) @ le_bytes 8 (i64_word (tr_price m)) @ le_bytes 8 (i64_word (tr_qty m)) @ le_bytes 8
        (i64_word (tr_trade_ts m)) @ [bool_u8 (tr_is_buyer_maker m)] @ [aggressor_side_u8
        (tr_aggressor_side m)] @ [])"
    unfolding Trade_puts_def by (rule codec_intros | simp add: ok [unfolded Trade_ok_def])+
  then show "writes (put_all (Trade_puts m)) (Trade_wire m)"
    by (simp add: Trade_wire_def)
  have "reads (Trade_body (tr_header m))
       (str_wire (tr_symbol m) @ [tr_price_scale m] @ [tr_qty_scale m] @ le_bytes 8 (tr_trade_id
        m) @ le_bytes 8 (i64_word (tr_price m)) @ le_bytes 8 (i64_word (tr_qty m)) @ le_bytes 8
        (i64_word (tr_trade_ts m)) @ [bool_u8 (tr_is_buyer_maker m)] @ [aggressor_side_u8
        (tr_aggressor_side m)] @ []) m"
    unfolding Trade_body_def by (rule codec_intros reads_ret_eq | simp add: ok [unfolded Trade_ok_def])+
  then show "reads (Trade_body (tr_header m)) (Trade_wire m) m"
    by (simp add: Trade_wire_def)
qed

section \<open>\<open>MarkPrice\<close>\<close>

record MarkPrice =
  mp_header :: message_header
  mp_symbol :: string
  mp_price_scale :: u8
  mp_mark_price :: i64
  mp_index_price :: i64

definition MarkPrice_puts :: "MarkPrice \<Rightarrow> put list" where
  "MarkPrice_puts m =
     [put_str (mp_symbol m),
      put_u8 (mp_price_scale m),
      put_i64 (mp_mark_price m),
      put_i64 (mp_index_price m)]"

definition MarkPrice_body :: "message_header \<Rightarrow> MarkPrice get" where
  "MarkPrice_body header =
     get_then get_str (\<lambda>symbol.
     get_then get_u8 (\<lambda>price_scale.
     get_then get_i64 (\<lambda>mark_price.
     get_then get_i64 (\<lambda>index_price.
     get_ret
       \<lparr>mp_header = header, mp_symbol = symbol, mp_price_scale = price_scale,
        mp_mark_price = mark_price, mp_index_price = index_price\<rparr>))))"

definition MarkPrice_encode_into :: "MarkPrice \<Rightarrow> u8 list \<Rightarrow> (core_error + nat) \<times> u8 list" where
  "MarkPrice_encode_into m buf = encode_message (mp_header m) (MarkPrice_puts m) buf"

definition MarkPrice_decode :: "u8 list \<Rightarrow> core_error + MarkPrice" where
  "MarkPrice_decode buf = decode_message MT_MarkPrice MarkPrice_body buf"

definition MarkPrice_wire :: "MarkPrice \<Rightarrow> u8 list" where
  "MarkPrice_wire m =
     (str_wire (mp_symbol m) @
      [mp_price_scale m] @
      le_bytes 8 (i64_word (mp_mark_price m)) @
      le_bytes 8 (i64_word (mp_index_price m)))"

definition MarkPrice_ok :: "MarkPrice \<Rightarrow> bool" where
  "MarkPrice_ok m \<longleftrightarrow>
     mh_message_type (mp_header m) = MT_MarkPrice \<and>
     str_ok (mp_symbol m)"

interpretation MarkPrice_codec: message_codec mp_header MT_MarkPrice MarkPrice_puts MarkPrice_body MarkPrice_wire MarkPrice_ok
  MarkPrice_encode_into MarkPrice_decode
proof
  fix m buf h
  show "MarkPrice_encode_into m buf = encode_message (mp_header m) (MarkPrice_puts m) buf"
    and "MarkPrice_decode buf = decode_message MT_MarkPrice MarkPrice_body buf"
    by (simp_all add: MarkPrice_encode_into_def MarkPrice_decode_def)
  show "yields (\<lambda>m. mp_header m = h) (MarkPrice_body h)"
    unfolding MarkPrice_body_def by (intro yields_get_then yields_get_ret) simp
  assume ok: "MarkPrice_ok m"
  then show "mh_message_type (mp_header m) = MT_MarkPrice"
    by (simp add: MarkPrice_ok_def)
  have "writes (put_all (MarkPrice_puts m))
       (str_wire (mp_symbol m) @ [mp_price_scale m] @ le_bytes 8 (i64_word (mp_mark_price m)) @
        le_bytes 8 (i64_word (mp_index_price m)) @ [])"
    unfolding MarkPrice_puts_def by (rule codec_intros | simp add: ok [unfolded MarkPrice_ok_def])+
  then show "writes (put_all (MarkPrice_puts m)) (MarkPrice_wire m)"
    by (simp add: MarkPrice_wire_def)
  have "reads (MarkPrice_body (mp_header m))
       (str_wire (mp_symbol m) @ [mp_price_scale m] @ le_bytes 8 (i64_word (mp_mark_price m)) @
        le_bytes 8 (i64_word (mp_index_price m)) @ []) m"
    unfolding MarkPrice_body_def by (rule codec_intros reads_ret_eq | simp add: ok [unfolded MarkPrice_ok_def])+
  then show "reads (MarkPrice_body (mp_header m)) (MarkPrice_wire m) m"
    by (simp add: MarkPrice_wire_def)
qed

section \<open>\<open>FundingRate\<close>\<close>

record FundingRate =
  fr_header :: message_header
  fr_symbol :: string
  fr_funding_rate_scale :: u8
  fr_funding_rate :: i64
  fr_next_funding_time :: i64

definition FundingRate_puts :: "FundingRate \<Rightarrow> put list" where
  "FundingRate_puts m =
     [put_str (fr_symbol m),
      put_u8 (fr_funding_rate_scale m),
      put_i64 (fr_funding_rate m),
      put_i64 (fr_next_funding_time m)]"

definition FundingRate_body :: "message_header \<Rightarrow> FundingRate get" where
  "FundingRate_body header =
     get_then get_str (\<lambda>symbol.
     get_then get_u8 (\<lambda>funding_rate_scale.
     get_then get_i64 (\<lambda>funding_rate.
     get_then get_i64 (\<lambda>next_funding_time.
     get_ret
       \<lparr>fr_header = header, fr_symbol = symbol, fr_funding_rate_scale =
        funding_rate_scale, fr_funding_rate = funding_rate, fr_next_funding_time =
        next_funding_time\<rparr>))))"

definition FundingRate_encode_into :: "FundingRate \<Rightarrow> u8 list \<Rightarrow> (core_error + nat) \<times> u8 list" where
  "FundingRate_encode_into m buf = encode_message (fr_header m) (FundingRate_puts m) buf"

definition FundingRate_decode :: "u8 list \<Rightarrow> core_error + FundingRate" where
  "FundingRate_decode buf = decode_message MT_FundingRate FundingRate_body buf"

definition FundingRate_wire :: "FundingRate \<Rightarrow> u8 list" where
  "FundingRate_wire m =
     (str_wire (fr_symbol m) @
      [fr_funding_rate_scale m] @
      le_bytes 8 (i64_word (fr_funding_rate m)) @
      le_bytes 8 (i64_word (fr_next_funding_time m)))"

definition FundingRate_ok :: "FundingRate \<Rightarrow> bool" where
  "FundingRate_ok m \<longleftrightarrow>
     mh_message_type (fr_header m) = MT_FundingRate \<and>
     str_ok (fr_symbol m)"

interpretation FundingRate_codec: message_codec fr_header MT_FundingRate FundingRate_puts FundingRate_body FundingRate_wire FundingRate_ok
  FundingRate_encode_into FundingRate_decode
proof
  fix m buf h
  show "FundingRate_encode_into m buf = encode_message (fr_header m) (FundingRate_puts m) buf"
    and "FundingRate_decode buf = decode_message MT_FundingRate FundingRate_body buf"
    by (simp_all add: FundingRate_encode_into_def FundingRate_decode_def)
  show "yields (\<lambda>m. fr_header m = h) (FundingRate_body h)"
    unfolding FundingRate_body_def by (intro yields_get_then yields_get_ret) simp
  assume ok: "FundingRate_ok m"
  then show "mh_message_type (fr_header m) = MT_FundingRate"
    by (simp add: FundingRate_ok_def)
  have "writes (put_all (FundingRate_puts m))
       (str_wire (fr_symbol m) @ [fr_funding_rate_scale m] @ le_bytes 8 (i64_word
        (fr_funding_rate m)) @ le_bytes 8 (i64_word (fr_next_funding_time m)) @ [])"
    unfolding FundingRate_puts_def by (rule codec_intros | simp add: ok [unfolded FundingRate_ok_def])+
  then show "writes (put_all (FundingRate_puts m)) (FundingRate_wire m)"
    by (simp add: FundingRate_wire_def)
  have "reads (FundingRate_body (fr_header m))
       (str_wire (fr_symbol m) @ [fr_funding_rate_scale m] @ le_bytes 8 (i64_word
        (fr_funding_rate m)) @ le_bytes 8 (i64_word (fr_next_funding_time m)) @ []) m"
    unfolding FundingRate_body_def by (rule codec_intros reads_ret_eq | simp add: ok [unfolded FundingRate_ok_def])+
  then show "reads (FundingRate_body (fr_header m)) (FundingRate_wire m) m"
    by (simp add: FundingRate_wire_def)
qed

section \<open>\<open>Liquidation\<close>\<close>

record Liquidation =
  lq_header :: message_header
  lq_symbol :: string
  lq_price_scale :: u8
  lq_qty_scale :: u8
  lq_side :: aggressor_side
  lq_price :: i64
  lq_qty :: i64
  lq_avg_price :: i64
  lq_last_filled_qty :: i64

definition Liquidation_puts :: "Liquidation \<Rightarrow> put list" where
  "Liquidation_puts m =
     [put_str (lq_symbol m),
      put_u8 (lq_price_scale m),
      put_u8 (lq_qty_scale m),
      put_u8 (aggressor_side_u8 (lq_side m)),
      put_i64 (lq_price m),
      put_i64 (lq_qty m),
      put_i64 (lq_avg_price m),
      put_i64 (lq_last_filled_qty m)]"

definition Liquidation_body :: "message_header \<Rightarrow> Liquidation get" where
  "Liquidation_body header =
     get_then get_str (\<lambda>symbol.
     get_then get_u8 (\<lambda>price_scale.
     get_then get_u8 (\<lambda>qty_scale.
     get_then (get_enum aggressor_side_try_from) (\<lambda>side.
     get_then get_i64 (\<lambda>price.
     get_then get_i64 (\<lambda>qty.
     get_then get_i64 (\<lambda>avg_price.
     get_then get_i64 (\<lambda>last_filled_qty.
     get_ret
       \<lparr>lq_header = header, lq_symbol = symbol, lq_price_scale = price_scale,
        lq_qty_scale = qty_scale, lq_side = side, lq_price = price, lq_qty = qty, lq_avg_price =
        avg_price, lq_last_filled_qty = last_filled_qty\<rparr>))))))))"

definition Liquidation_encode_into :: "Liquidation \<Rightarrow> u8 list \<Rightarrow> (core_error + nat) \<times> u8 list" where
  "Liquidation_encode_into m buf = encode_message (lq_header m) (Liquidation_puts m) buf"

definition Liquidation_decode :: "u8 list \<Rightarrow> core_error + Liquidation" where
  "Liquidation_decode buf = decode_message MT_Liquidation Liquidation_body buf"

definition Liquidation_wire :: "Liquidation \<Rightarrow> u8 list" where
  "Liquidation_wire m =
     (str_wire (lq_symbol m) @
      [lq_price_scale m] @
      [lq_qty_scale m] @
      [aggressor_side_u8 (lq_side m)] @
      le_bytes 8 (i64_word (lq_price m)) @
      le_bytes 8 (i64_word (lq_qty m)) @
      le_bytes 8 (i64_word (lq_avg_price m)) @
      le_bytes 8 (i64_word (lq_last_filled_qty m)))"

definition Liquidation_ok :: "Liquidation \<Rightarrow> bool" where
  "Liquidation_ok m \<longleftrightarrow>
     mh_message_type (lq_header m) = MT_Liquidation \<and>
     str_ok (lq_symbol m)"

interpretation Liquidation_codec: message_codec lq_header MT_Liquidation Liquidation_puts Liquidation_body Liquidation_wire Liquidation_ok
  Liquidation_encode_into Liquidation_decode
proof
  fix m buf h
  show "Liquidation_encode_into m buf = encode_message (lq_header m) (Liquidation_puts m) buf"
    and "Liquidation_decode buf = decode_message MT_Liquidation Liquidation_body buf"
    by (simp_all add: Liquidation_encode_into_def Liquidation_decode_def)
  show "yields (\<lambda>m. lq_header m = h) (Liquidation_body h)"
    unfolding Liquidation_body_def by (intro yields_get_then yields_get_ret) simp
  assume ok: "Liquidation_ok m"
  then show "mh_message_type (lq_header m) = MT_Liquidation"
    by (simp add: Liquidation_ok_def)
  have "writes (put_all (Liquidation_puts m))
       (str_wire (lq_symbol m) @ [lq_price_scale m] @ [lq_qty_scale m] @ [aggressor_side_u8
        (lq_side m)] @ le_bytes 8 (i64_word (lq_price m)) @ le_bytes 8 (i64_word (lq_qty m)) @
        le_bytes 8 (i64_word (lq_avg_price m)) @ le_bytes 8 (i64_word (lq_last_filled_qty m)) @
        [])"
    unfolding Liquidation_puts_def by (rule codec_intros | simp add: ok [unfolded Liquidation_ok_def])+
  then show "writes (put_all (Liquidation_puts m)) (Liquidation_wire m)"
    by (simp add: Liquidation_wire_def)
  have "reads (Liquidation_body (lq_header m))
       (str_wire (lq_symbol m) @ [lq_price_scale m] @ [lq_qty_scale m] @ [aggressor_side_u8
        (lq_side m)] @ le_bytes 8 (i64_word (lq_price m)) @ le_bytes 8 (i64_word (lq_qty m)) @
        le_bytes 8 (i64_word (lq_avg_price m)) @ le_bytes 8 (i64_word (lq_last_filled_qty m)) @
        []) m"
    unfolding Liquidation_body_def by (rule codec_intros reads_ret_eq | simp add: ok [unfolded Liquidation_ok_def])+
  then show "reads (Liquidation_body (lq_header m)) (Liquidation_wire m) m"
    by (simp add: Liquidation_wire_def)
qed

section \<open>\<open>OpenInterest\<close>\<close>

record OpenInterest =
  oi_header :: message_header
  oi_symbol :: string
  oi_qty_scale :: u8
  oi_open_interest :: i64

definition OpenInterest_puts :: "OpenInterest \<Rightarrow> put list" where
  "OpenInterest_puts m =
     [put_str (oi_symbol m),
      put_u8 (oi_qty_scale m),
      put_i64 (oi_open_interest m)]"

definition OpenInterest_body :: "message_header \<Rightarrow> OpenInterest get" where
  "OpenInterest_body header =
     get_then get_str (\<lambda>symbol.
     get_then get_u8 (\<lambda>qty_scale.
     get_then get_i64 (\<lambda>open_interest.
     get_ret
       \<lparr>oi_header = header, oi_symbol = symbol, oi_qty_scale = qty_scale,
        oi_open_interest = open_interest\<rparr>)))"

definition OpenInterest_encode_into :: "OpenInterest \<Rightarrow> u8 list \<Rightarrow> (core_error + nat) \<times> u8 list" where
  "OpenInterest_encode_into m buf = encode_message (oi_header m) (OpenInterest_puts m) buf"

definition OpenInterest_decode :: "u8 list \<Rightarrow> core_error + OpenInterest" where
  "OpenInterest_decode buf = decode_message MT_OpenInterest OpenInterest_body buf"

definition OpenInterest_wire :: "OpenInterest \<Rightarrow> u8 list" where
  "OpenInterest_wire m =
     (str_wire (oi_symbol m) @
      [oi_qty_scale m] @
      le_bytes 8 (i64_word (oi_open_interest m)))"

definition OpenInterest_ok :: "OpenInterest \<Rightarrow> bool" where
  "OpenInterest_ok m \<longleftrightarrow>
     mh_message_type (oi_header m) = MT_OpenInterest \<and>
     str_ok (oi_symbol m)"

interpretation OpenInterest_codec: message_codec oi_header MT_OpenInterest OpenInterest_puts OpenInterest_body OpenInterest_wire OpenInterest_ok
  OpenInterest_encode_into OpenInterest_decode
proof
  fix m buf h
  show "OpenInterest_encode_into m buf = encode_message (oi_header m) (OpenInterest_puts m) buf"
    and "OpenInterest_decode buf = decode_message MT_OpenInterest OpenInterest_body buf"
    by (simp_all add: OpenInterest_encode_into_def OpenInterest_decode_def)
  show "yields (\<lambda>m. oi_header m = h) (OpenInterest_body h)"
    unfolding OpenInterest_body_def by (intro yields_get_then yields_get_ret) simp
  assume ok: "OpenInterest_ok m"
  then show "mh_message_type (oi_header m) = MT_OpenInterest"
    by (simp add: OpenInterest_ok_def)
  have "writes (put_all (OpenInterest_puts m))
       (str_wire (oi_symbol m) @ [oi_qty_scale m] @ le_bytes 8 (i64_word (oi_open_interest m)) @
        [])"
    unfolding OpenInterest_puts_def by (rule codec_intros | simp add: ok [unfolded OpenInterest_ok_def])+
  then show "writes (put_all (OpenInterest_puts m)) (OpenInterest_wire m)"
    by (simp add: OpenInterest_wire_def)
  have "reads (OpenInterest_body (oi_header m))
       (str_wire (oi_symbol m) @ [oi_qty_scale m] @ le_bytes 8 (i64_word (oi_open_interest m)) @
        []) m"
    unfolding OpenInterest_body_def by (rule codec_intros reads_ret_eq | simp add: ok [unfolded OpenInterest_ok_def])+
  then show "reads (OpenInterest_body (oi_header m)) (OpenInterest_wire m) m"
    by (simp add: OpenInterest_wire_def)
qed

section \<open>\<open>FeedStatus\<close>\<close>

record FeedStatus =
  fs_header :: message_header
  fs_state :: feed_state

definition FeedStatus_puts :: "FeedStatus \<Rightarrow> put list" where
  "FeedStatus_puts m =
     [put_u8 (feed_state_u8 (fs_state m))]"

definition FeedStatus_body :: "message_header \<Rightarrow> FeedStatus get" where
  "FeedStatus_body header =
     get_then (get_enum feed_state_try_from) (\<lambda>state.
     get_ret
       \<lparr>fs_header = header, fs_state = state\<rparr>)"

definition FeedStatus_encode_into :: "FeedStatus \<Rightarrow> u8 list \<Rightarrow> (core_error + nat) \<times> u8 list" where
  "FeedStatus_encode_into m buf = encode_message (fs_header m) (FeedStatus_puts m) buf"

definition FeedStatus_decode :: "u8 list \<Rightarrow> core_error + FeedStatus" where
  "FeedStatus_decode buf = decode_message MT_FeedStatus FeedStatus_body buf"

definition FeedStatus_wire :: "FeedStatus \<Rightarrow> u8 list" where
  "FeedStatus_wire m =
     ([feed_state_u8 (fs_state m)])"

definition FeedStatus_ok :: "FeedStatus \<Rightarrow> bool" where
  "FeedStatus_ok m \<longleftrightarrow>
     mh_message_type (fs_header m) = MT_FeedStatus"

interpretation FeedStatus_codec: message_codec fs_header MT_FeedStatus FeedStatus_puts FeedStatus_body FeedStatus_wire FeedStatus_ok
  FeedStatus_encode_into FeedStatus_decode
proof
  fix m buf h
  show "FeedStatus_encode_into m buf = encode_message (fs_header m) (FeedStatus_puts m) buf"
    and "FeedStatus_decode buf = decode_message MT_FeedStatus FeedStatus_body buf"
    by (simp_all add: FeedStatus_encode_into_def FeedStatus_decode_def)
  show "yields (\<lambda>m. fs_header m = h) (FeedStatus_body h)"
    unfolding FeedStatus_body_def by (intro yields_get_then yields_get_ret) simp
  assume ok: "FeedStatus_ok m"
  then show "mh_message_type (fs_header m) = MT_FeedStatus"
    by (simp add: FeedStatus_ok_def)
  have "writes (put_all (FeedStatus_puts m))
       ([feed_state_u8 (fs_state m)] @ [])"
    unfolding FeedStatus_puts_def by (rule codec_intros | simp add: ok [unfolded FeedStatus_ok_def])+
  then show "writes (put_all (FeedStatus_puts m)) (FeedStatus_wire m)"
    by (simp add: FeedStatus_wire_def)
  have "reads (FeedStatus_body (fs_header m))
       ([feed_state_u8 (fs_state m)] @ []) m"
    unfolding FeedStatus_body_def by (rule codec_intros reads_ret_eq | simp add: ok [unfolded FeedStatus_ok_def])+
  then show "reads (FeedStatus_body (fs_header m)) (FeedStatus_wire m) m"
    by (simp add: FeedStatus_wire_def)
qed

section \<open>\<open>GapDetected\<close>\<close>

record GapDetected =
  gd_header :: message_header
  gd_symbol :: string
  gd_expected_update_id :: u64
  gd_received_update_id :: u64

definition GapDetected_puts :: "GapDetected \<Rightarrow> put list" where
  "GapDetected_puts m =
     [put_str (gd_symbol m),
      put_u64 (gd_expected_update_id m),
      put_u64 (gd_received_update_id m)]"

definition GapDetected_body :: "message_header \<Rightarrow> GapDetected get" where
  "GapDetected_body header =
     get_then get_str (\<lambda>symbol.
     get_then get_u64 (\<lambda>expected_update_id.
     get_then get_u64 (\<lambda>received_update_id.
     get_ret
       \<lparr>gd_header = header, gd_symbol = symbol, gd_expected_update_id =
        expected_update_id, gd_received_update_id = received_update_id\<rparr>)))"

definition GapDetected_encode_into :: "GapDetected \<Rightarrow> u8 list \<Rightarrow> (core_error + nat) \<times> u8 list" where
  "GapDetected_encode_into m buf = encode_message (gd_header m) (GapDetected_puts m) buf"

definition GapDetected_decode :: "u8 list \<Rightarrow> core_error + GapDetected" where
  "GapDetected_decode buf = decode_message MT_GapDetected GapDetected_body buf"

definition GapDetected_wire :: "GapDetected \<Rightarrow> u8 list" where
  "GapDetected_wire m =
     (str_wire (gd_symbol m) @
      le_bytes 8 (gd_expected_update_id m) @
      le_bytes 8 (gd_received_update_id m))"

definition GapDetected_ok :: "GapDetected \<Rightarrow> bool" where
  "GapDetected_ok m \<longleftrightarrow>
     mh_message_type (gd_header m) = MT_GapDetected \<and>
     str_ok (gd_symbol m)"

interpretation GapDetected_codec: message_codec gd_header MT_GapDetected GapDetected_puts GapDetected_body GapDetected_wire GapDetected_ok
  GapDetected_encode_into GapDetected_decode
proof
  fix m buf h
  show "GapDetected_encode_into m buf = encode_message (gd_header m) (GapDetected_puts m) buf"
    and "GapDetected_decode buf = decode_message MT_GapDetected GapDetected_body buf"
    by (simp_all add: GapDetected_encode_into_def GapDetected_decode_def)
  show "yields (\<lambda>m. gd_header m = h) (GapDetected_body h)"
    unfolding GapDetected_body_def by (intro yields_get_then yields_get_ret) simp
  assume ok: "GapDetected_ok m"
  then show "mh_message_type (gd_header m) = MT_GapDetected"
    by (simp add: GapDetected_ok_def)
  have "writes (put_all (GapDetected_puts m))
       (str_wire (gd_symbol m) @ le_bytes 8 (gd_expected_update_id m) @ le_bytes 8
        (gd_received_update_id m) @ [])"
    unfolding GapDetected_puts_def by (rule codec_intros | simp add: ok [unfolded GapDetected_ok_def])+
  then show "writes (put_all (GapDetected_puts m)) (GapDetected_wire m)"
    by (simp add: GapDetected_wire_def)
  have "reads (GapDetected_body (gd_header m))
       (str_wire (gd_symbol m) @ le_bytes 8 (gd_expected_update_id m) @ le_bytes 8
        (gd_received_update_id m) @ []) m"
    unfolding GapDetected_body_def by (rule codec_intros reads_ret_eq | simp add: ok [unfolded GapDetected_ok_def])+
  then show "reads (GapDetected_body (gd_header m)) (GapDetected_wire m) m"
    by (simp add: GapDetected_wire_def)
qed

section \<open>\<open>BookStale\<close>\<close>

record BookStale =
  bst_header :: message_header
  bst_symbol :: string
  bst_reason :: book_stale_reason

definition BookStale_puts :: "BookStale \<Rightarrow> put list" where
  "BookStale_puts m =
     [put_str (bst_symbol m),
      put_u8 (book_stale_reason_u8 (bst_reason m))]"

definition BookStale_body :: "message_header \<Rightarrow> BookStale get" where
  "BookStale_body header =
     get_then get_str (\<lambda>symbol.
     get_then (get_enum book_stale_reason_try_from) (\<lambda>reason.
     get_ret
       \<lparr>bst_header = header, bst_symbol = symbol, bst_reason = reason\<rparr>))"

definition BookStale_encode_into :: "BookStale \<Rightarrow> u8 list \<Rightarrow> (core_error + nat) \<times> u8 list" where
  "BookStale_encode_into m buf = encode_message (bst_header m) (BookStale_puts m) buf"

definition BookStale_decode :: "u8 list \<Rightarrow> core_error + BookStale" where
  "BookStale_decode buf = decode_message MT_BookStale BookStale_body buf"

definition BookStale_wire :: "BookStale \<Rightarrow> u8 list" where
  "BookStale_wire m =
     (str_wire (bst_symbol m) @
      [book_stale_reason_u8 (bst_reason m)])"

definition BookStale_ok :: "BookStale \<Rightarrow> bool" where
  "BookStale_ok m \<longleftrightarrow>
     mh_message_type (bst_header m) = MT_BookStale \<and>
     str_ok (bst_symbol m)"

interpretation BookStale_codec: message_codec bst_header MT_BookStale BookStale_puts BookStale_body BookStale_wire BookStale_ok
  BookStale_encode_into BookStale_decode
proof
  fix m buf h
  show "BookStale_encode_into m buf = encode_message (bst_header m) (BookStale_puts m) buf"
    and "BookStale_decode buf = decode_message MT_BookStale BookStale_body buf"
    by (simp_all add: BookStale_encode_into_def BookStale_decode_def)
  show "yields (\<lambda>m. bst_header m = h) (BookStale_body h)"
    unfolding BookStale_body_def by (intro yields_get_then yields_get_ret) simp
  assume ok: "BookStale_ok m"
  then show "mh_message_type (bst_header m) = MT_BookStale"
    by (simp add: BookStale_ok_def)
  have "writes (put_all (BookStale_puts m))
       (str_wire (bst_symbol m) @ [book_stale_reason_u8 (bst_reason m)] @ [])"
    unfolding BookStale_puts_def by (rule codec_intros | simp add: ok [unfolded BookStale_ok_def])+
  then show "writes (put_all (BookStale_puts m)) (BookStale_wire m)"
    by (simp add: BookStale_wire_def)
  have "reads (BookStale_body (bst_header m))
       (str_wire (bst_symbol m) @ [book_stale_reason_u8 (bst_reason m)] @ []) m"
    unfolding BookStale_body_def by (rule codec_intros reads_ret_eq | simp add: ok [unfolded BookStale_ok_def])+
  then show "reads (BookStale_body (bst_header m)) (BookStale_wire m) m"
    by (simp add: BookStale_wire_def)
qed

section \<open>\<open>BookRecovered\<close>\<close>

record BookRecovered =
  br_header :: message_header
  br_symbol :: string
  br_snapshot_update_id :: u64

definition BookRecovered_puts :: "BookRecovered \<Rightarrow> put list" where
  "BookRecovered_puts m =
     [put_str (br_symbol m),
      put_u64 (br_snapshot_update_id m)]"

definition BookRecovered_body :: "message_header \<Rightarrow> BookRecovered get" where
  "BookRecovered_body header =
     get_then get_str (\<lambda>symbol.
     get_then get_u64 (\<lambda>snapshot_update_id.
     get_ret
       \<lparr>br_header = header, br_symbol = symbol, br_snapshot_update_id =
        snapshot_update_id\<rparr>))"

definition BookRecovered_encode_into :: "BookRecovered \<Rightarrow> u8 list \<Rightarrow> (core_error + nat) \<times> u8 list" where
  "BookRecovered_encode_into m buf = encode_message (br_header m) (BookRecovered_puts m) buf"

definition BookRecovered_decode :: "u8 list \<Rightarrow> core_error + BookRecovered" where
  "BookRecovered_decode buf = decode_message MT_BookRecovered BookRecovered_body buf"

definition BookRecovered_wire :: "BookRecovered \<Rightarrow> u8 list" where
  "BookRecovered_wire m =
     (str_wire (br_symbol m) @
      le_bytes 8 (br_snapshot_update_id m))"

definition BookRecovered_ok :: "BookRecovered \<Rightarrow> bool" where
  "BookRecovered_ok m \<longleftrightarrow>
     mh_message_type (br_header m) = MT_BookRecovered \<and>
     str_ok (br_symbol m)"

interpretation BookRecovered_codec: message_codec br_header MT_BookRecovered BookRecovered_puts BookRecovered_body BookRecovered_wire BookRecovered_ok
  BookRecovered_encode_into BookRecovered_decode
proof
  fix m buf h
  show "BookRecovered_encode_into m buf = encode_message (br_header m) (BookRecovered_puts m) buf"
    and "BookRecovered_decode buf = decode_message MT_BookRecovered BookRecovered_body buf"
    by (simp_all add: BookRecovered_encode_into_def BookRecovered_decode_def)
  show "yields (\<lambda>m. br_header m = h) (BookRecovered_body h)"
    unfolding BookRecovered_body_def by (intro yields_get_then yields_get_ret) simp
  assume ok: "BookRecovered_ok m"
  then show "mh_message_type (br_header m) = MT_BookRecovered"
    by (simp add: BookRecovered_ok_def)
  have "writes (put_all (BookRecovered_puts m))
       (str_wire (br_symbol m) @ le_bytes 8 (br_snapshot_update_id m) @ [])"
    unfolding BookRecovered_puts_def by (rule codec_intros | simp add: ok [unfolded BookRecovered_ok_def])+
  then show "writes (put_all (BookRecovered_puts m)) (BookRecovered_wire m)"
    by (simp add: BookRecovered_wire_def)
  have "reads (BookRecovered_body (br_header m))
       (str_wire (br_symbol m) @ le_bytes 8 (br_snapshot_update_id m) @ []) m"
    unfolding BookRecovered_body_def by (rule codec_intros reads_ret_eq | simp add: ok [unfolded BookRecovered_ok_def])+
  then show "reads (BookRecovered_body (br_header m)) (BookRecovered_wire m) m"
    by (simp add: BookRecovered_wire_def)
qed

section \<open>\<open>BookChecksum\<close>\<close>

record BookChecksum =
  bc_header :: message_header
  bc_symbol :: string
  bc_update_id :: u64
  bc_bid_depth :: u32
  bc_ask_depth :: u32
  bc_checksum :: u64

definition BookChecksum_puts :: "BookChecksum \<Rightarrow> put list" where
  "BookChecksum_puts m =
     [put_str (bc_symbol m),
      put_u64 (bc_update_id m),
      put_u32 (bc_bid_depth m),
      put_u32 (bc_ask_depth m),
      put_u64 (bc_checksum m)]"

definition BookChecksum_body :: "message_header \<Rightarrow> BookChecksum get" where
  "BookChecksum_body header =
     get_then get_str (\<lambda>symbol.
     get_then get_u64 (\<lambda>update_id.
     get_then get_u32 (\<lambda>bid_depth.
     get_then get_u32 (\<lambda>ask_depth.
     get_then get_u64 (\<lambda>checksum.
     get_ret
       \<lparr>bc_header = header, bc_symbol = symbol, bc_update_id = update_id, bc_bid_depth =
        bid_depth, bc_ask_depth = ask_depth, bc_checksum = checksum\<rparr>)))))"

definition BookChecksum_encode_into :: "BookChecksum \<Rightarrow> u8 list \<Rightarrow> (core_error + nat) \<times> u8 list" where
  "BookChecksum_encode_into m buf = encode_message (bc_header m) (BookChecksum_puts m) buf"

definition BookChecksum_decode :: "u8 list \<Rightarrow> core_error + BookChecksum" where
  "BookChecksum_decode buf = decode_message MT_BookChecksum BookChecksum_body buf"

definition BookChecksum_wire :: "BookChecksum \<Rightarrow> u8 list" where
  "BookChecksum_wire m =
     (str_wire (bc_symbol m) @
      le_bytes 8 (bc_update_id m) @
      le_bytes 4 (bc_bid_depth m) @
      le_bytes 4 (bc_ask_depth m) @
      le_bytes 8 (bc_checksum m))"

definition BookChecksum_ok :: "BookChecksum \<Rightarrow> bool" where
  "BookChecksum_ok m \<longleftrightarrow>
     mh_message_type (bc_header m) = MT_BookChecksum \<and>
     str_ok (bc_symbol m)"

interpretation BookChecksum_codec: message_codec bc_header MT_BookChecksum BookChecksum_puts BookChecksum_body BookChecksum_wire BookChecksum_ok
  BookChecksum_encode_into BookChecksum_decode
proof
  fix m buf h
  show "BookChecksum_encode_into m buf = encode_message (bc_header m) (BookChecksum_puts m) buf"
    and "BookChecksum_decode buf = decode_message MT_BookChecksum BookChecksum_body buf"
    by (simp_all add: BookChecksum_encode_into_def BookChecksum_decode_def)
  show "yields (\<lambda>m. bc_header m = h) (BookChecksum_body h)"
    unfolding BookChecksum_body_def by (intro yields_get_then yields_get_ret) simp
  assume ok: "BookChecksum_ok m"
  then show "mh_message_type (bc_header m) = MT_BookChecksum"
    by (simp add: BookChecksum_ok_def)
  have "writes (put_all (BookChecksum_puts m))
       (str_wire (bc_symbol m) @ le_bytes 8 (bc_update_id m) @ le_bytes 4 (bc_bid_depth m) @
        le_bytes 4 (bc_ask_depth m) @ le_bytes 8 (bc_checksum m) @ [])"
    unfolding BookChecksum_puts_def by (rule codec_intros | simp add: ok [unfolded BookChecksum_ok_def])+
  then show "writes (put_all (BookChecksum_puts m)) (BookChecksum_wire m)"
    by (simp add: BookChecksum_wire_def)
  have "reads (BookChecksum_body (bc_header m))
       (str_wire (bc_symbol m) @ le_bytes 8 (bc_update_id m) @ le_bytes 4 (bc_bid_depth m) @
        le_bytes 4 (bc_ask_depth m) @ le_bytes 8 (bc_checksum m) @ []) m"
    unfolding BookChecksum_body_def by (rule codec_intros reads_ret_eq | simp add: ok [unfolded BookChecksum_ok_def])+
  then show "reads (BookChecksum_body (bc_header m)) (BookChecksum_wire m) m"
    by (simp add: BookChecksum_wire_def)
qed

section \<open>\<open>Heartbeat\<close>\<close>

record Heartbeat =
  hb_header :: message_header

definition Heartbeat_encode_into :: "Heartbeat \<Rightarrow> u8 list \<Rightarrow> (core_error + nat) \<times> u8 list" where
  "Heartbeat_encode_into m buf = encode_header_only (hb_header m) buf"

definition Heartbeat_decode :: "u8 list \<Rightarrow> core_error + Heartbeat" where
  "Heartbeat_decode buf =
     and_then (header_decode buf) (\<lambda>h.
     and_then (check_message_type h MT_Heartbeat) (\<lambda>_. Inr \<lparr>hb_header = h\<rparr>))"

interpretation Heartbeat_codec: message_codec hb_header MT_Heartbeat "\<lambda>_. []"
  "\<lambda>h. get_ret \<lparr>hb_header = h\<rparr>" "\<lambda>_. []" "\<lambda>m. mh_message_type (hb_header m) = MT_Heartbeat"
  Heartbeat_encode_into Heartbeat_decode
  by unfold_locales
    (auto intro!: reads_ret_eq simp: Heartbeat_encode_into_def encode_header_only_eq Heartbeat_decode_def decode_message_def
      get_ret_def writes_put_ok yields_def)

section \<open>\<open>AccountUpdate\<close>\<close>

record AccountUpdate =
  au_header :: message_header

definition AccountUpdate_encode_into :: "AccountUpdate \<Rightarrow> u8 list \<Rightarrow> (core_error + nat) \<times> u8 list" where
  "AccountUpdate_encode_into m buf = encode_header_only (au_header m) buf"

definition AccountUpdate_decode :: "u8 list \<Rightarrow> core_error + AccountUpdate" where
  "AccountUpdate_decode buf =
     and_then (header_decode buf) (\<lambda>h.
     and_then (check_message_type h MT_AccountUpdate) (\<lambda>_. Inr \<lparr>au_header = h\<rparr>))"

interpretation AccountUpdate_codec: message_codec au_header MT_AccountUpdate "\<lambda>_. []"
  "\<lambda>h. get_ret \<lparr>au_header = h\<rparr>" "\<lambda>_. []" "\<lambda>m. mh_message_type (au_header m) = MT_AccountUpdate"
  AccountUpdate_encode_into AccountUpdate_decode
  by unfold_locales
    (auto intro!: reads_ret_eq simp: AccountUpdate_encode_into_def encode_header_only_eq AccountUpdate_decode_def decode_message_def
      get_ret_def writes_put_ok yields_def)

section \<open>\<open>OrderUpdate\<close>\<close>

record OrderUpdate =
  ou_header :: message_header

definition OrderUpdate_encode_into :: "OrderUpdate \<Rightarrow> u8 list \<Rightarrow> (core_error + nat) \<times> u8 list" where
  "OrderUpdate_encode_into m buf = encode_header_only (ou_header m) buf"

definition OrderUpdate_decode :: "u8 list \<Rightarrow> core_error + OrderUpdate" where
  "OrderUpdate_decode buf =
     and_then (header_decode buf) (\<lambda>h.
     and_then (check_message_type h MT_OrderUpdate) (\<lambda>_. Inr \<lparr>ou_header = h\<rparr>))"

interpretation OrderUpdate_codec: message_codec ou_header MT_OrderUpdate "\<lambda>_. []"
  "\<lambda>h. get_ret \<lparr>ou_header = h\<rparr>" "\<lambda>_. []" "\<lambda>m. mh_message_type (ou_header m) = MT_OrderUpdate"
  OrderUpdate_encode_into OrderUpdate_decode
  by unfold_locales
    (auto intro!: reads_ret_eq simp: OrderUpdate_encode_into_def encode_header_only_eq OrderUpdate_decode_def decode_message_def
      get_ret_def writes_put_ok yields_def)

end
