(* ===== verification/Normalized_Message.thy ===== *)
theory Normalized_Message
  imports Messages
begin

text \<open>
  The sum type \<open>NormalizedMessage\<close> of \<open>crates/connector-core/src/message.rs\<close>: dispatch of
  \<open>from_bytes\<close> on the header's type byte, \<open>encode_into\<close> and \<open>header\<close>. Its round trip
  rests on the eighteen interpretations of \<open>message_codec\<close>.
\<close>

datatype normalized_message =
    NM_InstrumentDefinition InstrumentDefinition
  | NM_TradingStatus TradingStatus
  | NM_BookSnapshot BookSnapshot
  | NM_BookDelta BookDelta
  | NM_BestBidOffer BestBidOffer
  | NM_Trade Trade
  | NM_MarkPrice MarkPrice
  | NM_FundingRate FundingRate
  | NM_Liquidation Liquidation
  | NM_OpenInterest OpenInterest
  | NM_AccountUpdate AccountUpdate
  | NM_OrderUpdate OrderUpdate
  | NM_Heartbeat Heartbeat
  | NM_FeedStatus FeedStatus
  | NM_GapDetected GapDetected
  | NM_BookStale BookStale
  | NM_BookRecovered BookRecovered

fun nm_encode_into :: "normalized_message \<Rightarrow> u8 list \<Rightarrow> (core_error + nat) \<times> u8 list" where
  "nm_encode_into (NM_InstrumentDefinition m) buf = InstrumentDefinition_encode_into m buf"
| "nm_encode_into (NM_TradingStatus m) buf = TradingStatus_encode_into m buf"
| "nm_encode_into (NM_BookSnapshot m) buf = BookSnapshot_encode_into m buf"
| "nm_encode_into (NM_BookDelta m) buf = BookDelta_encode_into m buf"
| "nm_encode_into (NM_BestBidOffer m) buf = BestBidOffer_encode_into m buf"
| "nm_encode_into (NM_Trade m) buf = Trade_encode_into m buf"
| "nm_encode_into (NM_MarkPrice m) buf = MarkPrice_encode_into m buf"
| "nm_encode_into (NM_FundingRate m) buf = FundingRate_encode_into m buf"
| "nm_encode_into (NM_Liquidation m) buf = Liquidation_encode_into m buf"
| "nm_encode_into (NM_OpenInterest m) buf = OpenInterest_encode_into m buf"
| "nm_encode_into (NM_AccountUpdate m) buf = AccountUpdate_encode_into m buf"
| "nm_encode_into (NM_OrderUpdate m) buf = OrderUpdate_encode_into m buf"
| "nm_encode_into (NM_Heartbeat m) buf = Heartbeat_encode_into m buf"
| "nm_encode_into (NM_FeedStatus m) buf = FeedStatus_encode_into m buf"
| "nm_encode_into (NM_GapDetected m) buf = GapDetected_encode_into m buf"
| "nm_encode_into (NM_BookStale m) buf = BookStale_encode_into m buf"
| "nm_encode_into (NM_BookRecovered m) buf = BookRecovered_encode_into m buf"

fun nm_header :: "normalized_message \<Rightarrow> message_header" where
  "nm_header (NM_InstrumentDefinition m) = id_header m"
| "nm_header (NM_TradingStatus m) = ts_header m"
| "nm_header (NM_BookSnapshot m) = bs_header m"
| "nm_header (NM_BookDelta m) = bd_header m"
| "nm_header (NM_BestBidOffer m) = bbo_header m"
| "nm_header (NM_Trade m) = tr_header m"
| "nm_header (NM_MarkPrice m) = mp_header m"
| "nm_header (NM_FundingRate m) = fr_header m"
| "nm_header (NM_Liquidation m) = lq_header m"
| "nm_header (NM_OpenInterest m) = oi_header m"
| "nm_header (NM_AccountUpdate m) = au_header m"
| "nm_header (NM_OrderUpdate m) = ou_header m"
| "nm_header (NM_Heartbeat m) = hb_header m"
| "nm_header (NM_FeedStatus m) = fs_header m"
| "nm_header (NM_GapDetected m) = gd_header m"
| "nm_header (NM_BookStale m) = bst_header m"
| "nm_header (NM_BookRecovered m) = br_header m"

definition nm_from_bytes :: "u8 list \<Rightarrow> core_error + normalized_message" where
  "nm_from_bytes buf =
     and_then (header_decode buf) (\<lambda>header.
     case mh_message_type header of
       MT_InstrumentDefinition \<Rightarrow> and_then (InstrumentDefinition_decode buf) (\<lambda>m. Inr (NM_InstrumentDefinition m))
     | MT_TradingStatus \<Rightarrow> and_then (TradingStatus_decode buf) (\<lambda>m. Inr (NM_TradingStatus m))
     | MT_BookSnapshot \<Rightarrow> and_then (BookSnapshot_decode buf) (\<lambda>m. Inr (NM_BookSnapshot m))
     | MT_BookDelta \<Rightarrow> and_then (BookDelta_decode buf) (\<lambda>m. Inr (NM_BookDelta m))
     | MT_BestBidOffer \<Rightarrow> and_then (BestBidOffer_decode buf) (\<lambda>m. Inr (NM_BestBidOffer m))
     | MT_Trade \<Rightarrow> and_then (Trade_decode buf) (\<lambda>m. Inr (NM_Trade m))
     | MT_MarkPrice \<Rightarrow> and_then (MarkPrice_decode buf) (\<lambda>m. Inr (NM_MarkPrice m))
     | MT_FundingRate \<Rightarrow> and_then (FundingRate_decode buf) (\<lambda>m. Inr (NM_FundingRate m))
     | MT_Liquidation \<Rightarrow> and_then (Liquidation_decode buf) (\<lambda>m. Inr (NM_Liquidation m))
     | MT_OpenInterest \<Rightarrow> and_then (OpenInterest_decode buf) (\<lambda>m. Inr (NM_OpenInterest m))
     | MT_AccountUpdate \<Rightarrow> and_then (AccountUpdate_decode buf) (\<lambda>m. Inr (NM_AccountUpdate m))
     | MT_OrderUpdate \<Rightarrow> and_then (OrderUpdate_decode buf) (\<lambda>m. Inr (NM_OrderUpdate m))
     | MT_Heartbeat \<Rightarrow> and_then (Heartbeat_decode buf) (\<lambda>m. Inr (NM_Heartbeat m))
     | MT_FeedStatus \<Rightarrow> and_then (FeedStatus_decode buf) (\<lambda>m. Inr (NM_FeedStatus m))
     | MT_GapDetected \<Rightarrow> and_then (GapDetected_decode buf) (\<lambda>m. Inr (NM_GapDetected m))
     | MT_BookStale \<Rightarrow> and_then (BookStale_decode buf) (\<lambda>m. Inr (NM_BookStale m))
     | MT_BookRecovered \<Rightarrow> and_then (BookRecovered_decode buf) (\<lambda>m. Inr (NM_BookRecovered m))
     | MT_BookChecksum \<Rightarrow> Inl (UnknownMessageType (message_type_u8 MT_BookChecksum)))"

section \<open>Round trip\<close>

text \<open>
  \<open>nm_ok\<close>: the header carries the type of the variant, strings are valid UTF-8 of at most
  65535 bytes and level lists have at most \<open>u32::MAX\<close> entries. \<open>nm_wire\<close> is the message
  on the wire, header included.
\<close>

fun nm_ok :: "normalized_message \<Rightarrow> bool" where
  "nm_ok (NM_InstrumentDefinition m) \<longleftrightarrow> InstrumentDefinition_ok m"
| "nm_ok (NM_TradingStatus m) \<longleftrightarrow> TradingStatus_ok m"
| "nm_ok (NM_BookSnapshot m) \<longleftrightarrow> BookSnapshot_ok m"
| "nm_ok (NM_BookDelta m) \<longleftrightarrow> BookDelta_ok m"
| "nm_ok (NM_BestBidOffer m) \<longleftrightarrow> BestBidOffer_ok m"
| "nm_ok (NM_Trade m) \<longleftrightarrow> Trade_ok m"
| "nm_ok (NM_MarkPrice m) \<longleftrightarrow> MarkPrice_ok m"
| "nm_ok (NM_FundingRate m) \<longleftrightarrow> FundingRate_ok m"
| "nm_ok (NM_Liquidation m) \<longleftrightarrow> Liquidation_ok m"
| "nm_ok (NM_OpenInterest m) \<longleftrightarrow> OpenInterest_ok m"
| "nm_ok (NM_AccountUpdate m) \<longleftrightarrow> mh_message_type (au_header m) = MT_AccountUpdate"
| "nm_ok (NM_OrderUpdate m) \<longleftrightarrow> mh_message_type (ou_header m) = MT_OrderUpdate"
| "nm_ok (NM_Heartbeat m) \<longleftrightarrow> mh_message_type (hb_header m) = MT_Heartbeat"
| "nm_ok (NM_FeedStatus m) \<longleftrightarrow> FeedStatus_ok m"
| "nm_ok (NM_GapDetected m) \<longleftrightarrow> GapDetected_ok m"
| "nm_ok (NM_BookStale m) \<longleftrightarrow> BookStale_ok m"
| "nm_ok (NM_BookRecovered m) \<longleftrightarrow> BookRecovered_ok m"

fun nm_wire :: "normalized_message \<Rightarrow> u8 list" where
  "nm_wire (NM_InstrumentDefinition m) = header_bytes (id_header m) @ InstrumentDefinition_wire m"
| "nm_wire (NM_TradingStatus m) = header_bytes (ts_header m) @ TradingStatus_wire m"
| "nm_wire (NM_BookSnapshot m) = header_bytes (bs_header m) @ BookSnapshot_wire m"
| "nm_wire (NM_BookDelta m) = header_bytes (bd_header m) @ BookDelta_wire m"
| "nm_wire (NM_BestBidOffer m) = header_bytes (bbo_header m) @ BestBidOffer_wire m"
| "nm_wire (NM_Trade m) = header_bytes (tr_header m) @ Trade_wire m"
| "nm_wire (NM_MarkPrice m) = header_bytes (mp_header m) @ MarkPrice_wire m"
| "nm_wire (NM_FundingRate m) = header_bytes (fr_header m) @ FundingRate_wire m"
| "nm_wire (NM_Liquidation m) = header_bytes (lq_header m) @ Liquidation_wire m"
| "nm_wire (NM_OpenInterest m) = header_bytes (oi_header m) @ OpenInterest_wire m"
| "nm_wire (NM_AccountUpdate m) = header_bytes (au_header m)"
| "nm_wire (NM_OrderUpdate m) = header_bytes (ou_header m)"
| "nm_wire (NM_Heartbeat m) = header_bytes (hb_header m)"
| "nm_wire (NM_FeedStatus m) = header_bytes (fs_header m) @ FeedStatus_wire m"
| "nm_wire (NM_GapDetected m) = header_bytes (gd_header m) @ GapDetected_wire m"
| "nm_wire (NM_BookStale m) = header_bytes (bst_header m) @ BookStale_wire m"
| "nm_wire (NM_BookRecovered m) = header_bytes (br_header m) @ BookRecovered_wire m"

lemmas full_defs =
  InstrumentDefinition_codec.full_def TradingStatus_codec.full_def BookSnapshot_codec.full_def
  BookDelta_codec.full_def BestBidOffer_codec.full_def Trade_codec.full_def
  MarkPrice_codec.full_def FundingRate_codec.full_def Liquidation_codec.full_def
  OpenInterest_codec.full_def AccountUpdate_codec.full_def OrderUpdate_codec.full_def
  Heartbeat_codec.full_def FeedStatus_codec.full_def GapDetected_codec.full_def
  BookStale_codec.full_def BookRecovered_codec.full_def

lemmas encode_fulls =
  InstrumentDefinition_codec.encode_full [unfolded full_defs append_Nil2]
  TradingStatus_codec.encode_full [unfolded full_defs append_Nil2]
  BookSnapshot_codec.encode_full [unfolded full_defs append_Nil2] BookDelta_codec.encode_full
  [unfolded full_defs append_Nil2] BestBidOffer_codec.encode_full [unfolded full_defs
  append_Nil2] Trade_codec.encode_full [unfolded full_defs append_Nil2]
  MarkPrice_codec.encode_full [unfolded full_defs append_Nil2] FundingRate_codec.encode_full
  [unfolded full_defs append_Nil2] Liquidation_codec.encode_full [unfolded full_defs
  append_Nil2] OpenInterest_codec.encode_full [unfolded full_defs append_Nil2]
  AccountUpdate_codec.encode_full [unfolded full_defs append_Nil2]
  OrderUpdate_codec.encode_full [unfolded full_defs append_Nil2] Heartbeat_codec.encode_full
  [unfolded full_defs append_Nil2] FeedStatus_codec.encode_full [unfolded full_defs
  append_Nil2] GapDetected_codec.encode_full [unfolded full_defs append_Nil2]
  BookStale_codec.encode_full [unfolded full_defs append_Nil2] BookRecovered_codec.encode_full
  [unfolded full_defs append_Nil2]

lemmas decode_fulls =
  InstrumentDefinition_codec.decode_full [unfolded full_defs append_Nil2 append_assoc]
  TradingStatus_codec.decode_full [unfolded full_defs append_Nil2 append_assoc]
  BookSnapshot_codec.decode_full [unfolded full_defs append_Nil2 append_assoc]
  BookDelta_codec.decode_full [unfolded full_defs append_Nil2 append_assoc]
  BestBidOffer_codec.decode_full [unfolded full_defs append_Nil2 append_assoc]
  Trade_codec.decode_full [unfolded full_defs append_Nil2 append_assoc]
  MarkPrice_codec.decode_full [unfolded full_defs append_Nil2 append_assoc]
  FundingRate_codec.decode_full [unfolded full_defs append_Nil2 append_assoc]
  Liquidation_codec.decode_full [unfolded full_defs append_Nil2 append_assoc]
  OpenInterest_codec.decode_full [unfolded full_defs append_Nil2 append_assoc]
  AccountUpdate_codec.decode_full [unfolded full_defs append_Nil2 append_assoc]
  OrderUpdate_codec.decode_full [unfolded full_defs append_Nil2 append_assoc]
  Heartbeat_codec.decode_full [unfolded full_defs append_Nil2 append_assoc]
  FeedStatus_codec.decode_full [unfolded full_defs append_Nil2 append_assoc]
  GapDetected_codec.decode_full [unfolded full_defs append_Nil2 append_assoc]
  BookStale_codec.decode_full [unfolded full_defs append_Nil2 append_assoc]
  BookRecovered_codec.decode_full [unfolded full_defs append_Nil2 append_assoc]

lemmas decode_headers =
  InstrumentDefinition_codec.decode_header TradingStatus_codec.decode_header
  BookSnapshot_codec.decode_header BookDelta_codec.decode_header
  BestBidOffer_codec.decode_header Trade_codec.decode_header MarkPrice_codec.decode_header
  FundingRate_codec.decode_header Liquidation_codec.decode_header
  OpenInterest_codec.decode_header AccountUpdate_codec.decode_header
  OrderUpdate_codec.decode_header Heartbeat_codec.decode_header FeedStatus_codec.decode_header
  GapDetected_codec.decode_header BookStale_codec.decode_header
  BookRecovered_codec.decode_header

lemmas ok_types =
  InstrumentDefinition_codec.ok_type TradingStatus_codec.ok_type BookSnapshot_codec.ok_type
  BookDelta_codec.ok_type BestBidOffer_codec.ok_type Trade_codec.ok_type
  MarkPrice_codec.ok_type FundingRate_codec.ok_type Liquidation_codec.ok_type
  OpenInterest_codec.ok_type AccountUpdate_codec.ok_type OrderUpdate_codec.ok_type
  Heartbeat_codec.ok_type FeedStatus_codec.ok_type GapDetected_codec.ok_type
  BookStale_codec.ok_type BookRecovered_codec.ok_type

lemmas decode_truncs =
  InstrumentDefinition_codec.decode_truncated [unfolded full_defs append_Nil2, simplified]
  TradingStatus_codec.decode_truncated [unfolded full_defs append_Nil2, simplified]
  BookSnapshot_codec.decode_truncated [unfolded full_defs append_Nil2, simplified]
  BookDelta_codec.decode_truncated [unfolded full_defs append_Nil2, simplified]
  BestBidOffer_codec.decode_truncated [unfolded full_defs append_Nil2, simplified]
  Trade_codec.decode_truncated [unfolded full_defs append_Nil2, simplified]
  MarkPrice_codec.decode_truncated [unfolded full_defs append_Nil2, simplified]
  FundingRate_codec.decode_truncated [unfolded full_defs append_Nil2, simplified]
  Liquidation_codec.decode_truncated [unfolded full_defs append_Nil2, simplified]
  OpenInterest_codec.decode_truncated [unfolded full_defs append_Nil2, simplified]
  AccountUpdate_codec.decode_truncated [unfolded full_defs append_Nil2, simplified]
  OrderUpdate_codec.decode_truncated [unfolded full_defs append_Nil2, simplified]
  Heartbeat_codec.decode_truncated [unfolded full_defs append_Nil2, simplified]
  FeedStatus_codec.decode_truncated [unfolded full_defs append_Nil2, simplified]
  GapDetected_codec.decode_truncated [unfolded full_defs append_Nil2, simplified]
  BookStale_codec.decode_truncated [unfolded full_defs append_Nil2, simplified]
  BookRecovered_codec.decode_truncated [unfolded full_defs append_Nil2, simplified]

lemma nm_encode_wire:
  "nm_ok m \<Longrightarrow> length (nm_wire m) \<le> length buf \<Longrightarrow>
   nm_encode_into m buf = (Inr (length (nm_wire m)), nm_wire m @ drop (length (nm_wire m)) buf)"
  by (cases m) (simp_all add: encode_fulls)

lemma nm_from_bytes_wire:
  "nm_ok m \<Longrightarrow> nm_from_bytes (nm_wire m @ rest) = Inr m"
  by (cases m)
    (simp_all add: nm_from_bytes_def header_decode_bytes ok_types decode_fulls)

text \<open>What \<open>from_bytes\<close> returns carries the header it dispatched on.\<close>

lemma nm_from_bytes_header:
  assumes "nm_from_bytes buf = Inr m"
  shows "header_decode buf = Inr (nm_header m)"
proof -
  obtain h where "header_decode buf = Inr h"
    using assms by (auto simp: nm_from_bytes_def and_then_Inr_iff)
  with assms show ?thesis
    by (auto simp: nm_from_bytes_def and_then_Inr_iff dest: decode_headers
        split: message_type.splits)
qed

lemma nm_from_bytes_truncated:
  assumes "nm_ok m" "n < length (nm_wire m)"
  shows "\<exists>k l. nm_from_bytes (take n (nm_wire m)) = Inl (BufferTooShort k l)"
proof (cases "n < HEADER_SIZE")
  case True
  then have "length (take n (nm_wire m)) < HEADER_SIZE"
    using assms(2) by simp
  then show ?thesis
    by (simp add: nm_from_bytes_def header_decode_short)
next
  case False
  obtain b where b: "nm_wire m = header_bytes (nm_header m) @ b"
    by (cases m) simp_all
  with False have h: "header_decode (take n (nm_wire m)) = Inr (nm_header m)"
    by (simp add: header_decode_bytes)
  show ?thesis
    using assms h
    by (cases m) (auto simp: nm_from_bytes_def ok_types dest!: decode_truncs)
qed

end
