(* ===== verification/Wire_Properties.thy ===== *)
theory Wire_Properties
  imports Normalized_Message
begin

text \<open>
  The properties of the message codec of \<open>crates/connector-core\<close> as a whole, stated for
  \<open>NormalizedMessage\<close>, with one message as the concrete instance.
\<close>

section \<open>Short buffers\<close>

lemma nm_wire_header: "\<exists>b. nm_wire m = header_bytes (nm_header m) @ b"
  by (cases m) simp_all

lemmas encode_no_rooms =
  InstrumentDefinition_codec.encode_no_room [unfolded full_defs append_Nil2]
  TradingStatus_codec.encode_no_room [unfolded full_defs append_Nil2]
  BookSnapshot_codec.encode_no_room [unfolded full_defs append_Nil2]
  BookDelta_codec.encode_no_room [unfolded full_defs append_Nil2]
  BestBidOffer_codec.encode_no_room [unfolded full_defs append_Nil2]
  Trade_codec.encode_no_room [unfolded full_defs append_Nil2]
  MarkPrice_codec.encode_no_room [unfolded full_defs append_Nil2]
  FundingRate_codec.encode_no_room [unfolded full_defs append_Nil2]
  Liquidation_codec.encode_no_room [unfolded full_defs append_Nil2]
  OpenInterest_codec.encode_no_room [unfolded full_defs append_Nil2]
  AccountUpdate_codec.encode_no_room [unfolded full_defs append_Nil2]
  OrderUpdate_codec.encode_no_room [unfolded full_defs append_Nil2]
  Heartbeat_codec.encode_no_room [unfolded full_defs append_Nil2]
  FeedStatus_codec.encode_no_room [unfolded full_defs append_Nil2]
  GapDetected_codec.encode_no_room [unfolded full_defs append_Nil2]
  BookStale_codec.encode_no_room [unfolded full_defs append_Nil2]
  BookRecovered_codec.encode_no_room [unfolded full_defs append_Nil2]

lemma nm_no_room:
  "nm_ok m \<Longrightarrow> length buf < length (nm_wire m) \<Longrightarrow>
   \<exists>k n buf'. nm_encode_into m buf = (Inl (BufferTooShort k n), buf') \<and> length buf' = length buf"
  by (cases m) (use encode_no_rooms in \<open>simp_all del: length_append\<close>)

section \<open>An instance\<close>

definition sample_gap :: GapDetected where
  "sample_gap =
     \<lparr>gd_header = \<lparr>mh_schema_version = 1, mh_message_type = MT_GapDetected,
        mh_venue_id = BinanceSpot, mh_market_type = Spot, mh_instrument_id = 7,
        mh_connection_id = 0, mh_instance_id = 1, mh_sequence_number = 42,
        mh_exchange_event_ts = 0, mh_exchange_tx_ts = 0, mh_local_recv_ts = 5,
        mh_local_publish_ts = 6\<rparr>,
      gd_symbol = ''BTCUSDT'', gd_expected_update_id = 100, gd_received_update_id = 103\<rparr>"

lemma sample_gap_ok: "nm_ok (NM_GapDetected sample_gap)"
  by (auto simp: sample_gap_def GapDetected_ok_def str_ok_def u16_MAX_def intro!: str_utf8_ascii)

lemma sample_gap_length: "length (nm_wire (NM_GapDetected sample_gap)) = 81"
  by (simp add: sample_gap_def GapDetected_wire_def str_wire_def HEADER_SIZE_56)

section \<open>Properties\<close>


text \<open>C12: A well-formed message that \<open>encode_into\<close> accepts is returned by \<open>from_bytes\<close> from
  the bytes written, from the whole buffer as well; the rest of the buffer is untouched.\<close>

theorem message_round_trip:
  assumes "nm_ok m" "nm_encode_into m buf = (Inr n, buf')"
  shows "nm_from_bytes (take n buf') = Inr m \<and> nm_from_bytes buf' = Inr m \<and>
    length buf' = length buf \<and> drop n buf' = drop n buf"
proof -
  have room: "length (nm_wire m) \<le> length buf"
    using nm_no_room [OF assms(1), of buf] assms(2) by (cases "length buf < length (nm_wire m)") auto
  then have "n = length (nm_wire m)" "buf' = nm_wire m @ drop n buf"
    using nm_encode_wire [OF assms(1) room] assms(2) by auto
  with room nm_from_bytes_wire [OF assms(1)] nm_from_bytes_wire [OF assms(1), of "[]"]
  show ?thesis by simp
qed

theorem message_round_trip_witness:
  "nm_from_bytes (snd (nm_encode_into (NM_GapDetected sample_gap) (replicate 100 0))) =
     Inr (NM_GapDetected sample_gap)"
proof -
  have "nm_encode_into (NM_GapDetected sample_gap) (replicate 100 0) =
      (Inr 81, nm_wire (NM_GapDetected sample_gap) @ replicate 19 0)"
    using nm_encode_wire [OF sample_gap_ok, of "replicate 100 0"] sample_gap_length
    by (simp del: nm_encode_into.simps nm_wire.simps)
  from message_round_trip [OF sample_gap_ok this] this show ?thesis by simp
qed

text \<open>A buffer that is too small for a well-formed message gives \<open>BufferTooShort\<close>, never
  a partial success.\<close>

theorem message_no_room:
  assumes "nm_ok m" "length buf < length (nm_wire m)"
  shows "\<exists>needed have_len buf'. nm_encode_into m buf = (Inl (BufferTooShort needed have_len), buf')"
  using nm_no_room [OF assms] by blast

theorem message_no_room_witness:
  "\<exists>k n buf'. nm_encode_into (NM_GapDetected sample_gap) (replicate 80 0) =
     (Inl (BufferTooShort k n), buf')"
  by (rule message_no_room [OF sample_gap_ok]) (simp add: sample_gap_length del: nm_wire.simps)

text \<open>Every proper prefix of a well-formed message is refused with \<open>BufferTooShort\<close>.\<close>

theorem message_truncated:
  assumes "nm_ok m" "n < length (nm_wire m)"
  shows "\<exists>needed have_len. nm_from_bytes (take n (nm_wire m)) = Inl (BufferTooShort needed have_len)"
  using nm_from_bytes_truncated [OF assms] by simp

theorem message_truncated_witness:
  "\<exists>k l. nm_from_bytes (take 80 (nm_wire (NM_GapDetected sample_gap))) = Inl (BufferTooShort k l)"
  by (rule message_truncated [OF sample_gap_ok]) (simp add: sample_gap_length del: nm_wire.simps)

text \<open>Whatever \<open>from_bytes\<close> returns carries exactly the header that stands in the bytes,
  so a message is never dispatched to a variant of another type.\<close>

theorem message_header_agrees:
  assumes "nm_from_bytes buf = Inr m"
  shows "header_decode buf = Inr (nm_header m)"
  by (rule nm_from_bytes_header [OF assms])

theorem message_header_agrees_witness:
  "header_decode (nm_wire (NM_GapDetected sample_gap)) = Inr (gd_header sample_gap)"
  using message_header_agrees [of "nm_wire (NM_GapDetected sample_gap)" "NM_GapDetected sample_gap"]
    nm_from_bytes_wire [OF sample_gap_ok, of "[]"] by simp

text \<open>\<open>from_bytes\<close> does not dispatch \<open>BookChecksum\<close>: any buffer with that type byte in a
  valid header is refused as an unknown message type.\<close>

theorem checksum_not_dispatched:
  assumes "header_decode buf = Inr h" "mh_message_type h = MT_BookChecksum"
  shows "nm_from_bytes buf = Inl (UnknownMessageType (message_type_u8 MT_BookChecksum))"
  using assms by (simp add: nm_from_bytes_def)

theorem checksum_not_dispatched_witness:
  "nm_from_bytes (header_bytes ((gd_header sample_gap)\<lparr>mh_message_type := MT_BookChecksum\<rparr>)) =
     Inl (UnknownMessageType (message_type_u8 MT_BookChecksum))"
  by (rule checksum_not_dispatched [where h = "(gd_header sample_gap)\<lparr>mh_message_type := MT_BookChecksum\<rparr>"])
    (use header_decode_bytes [of "(gd_header sample_gap)\<lparr>mh_message_type := MT_BookChecksum\<rparr>" "[]"]
      in simp_all)

end
