(* ===== verification/Order_Types.thy ===== *)
theory Order_Types
  imports Core_Types "HOL-Library.Char_ord" "HOL-Library.List_Lexorder"
begin

text \<open>
  The types of the order gateway: \<open>crates/order-gateway/src/types.rs\<close> and \<open>error.rs\<close>.
  The text of a \<open>JournalCorrupt\<close> reason is kept as a constructor with the value it prints.
\<close>

section \<open>Enumerations\<close>

datatype order_side = Buy | Sell

fun order_side_u8 :: "order_side \<Rightarrow> u8" where
  "order_side_u8 Buy = 0"
| "order_side_u8 Sell = 1"

definition order_side_try_from :: "u8 \<Rightarrow> u8 + order_side" where
  "order_side_try_from v = (if v = 0 then Inr Buy else if v = 1 then Inr Sell else Inl v)"

datatype order_type = Limit | Market

fun order_type_u8 :: "order_type \<Rightarrow> u8" where
  "order_type_u8 Limit = 0"
| "order_type_u8 Market = 1"

definition order_type_try_from :: "u8 \<Rightarrow> u8 + order_type" where
  "order_type_try_from v = (if v = 0 then Inr Limit else if v = 1 then Inr Market else Inl v)"

datatype time_in_force = GoodTillCancel | ImmediateOrCancel | FillOrKill

fun time_in_force_u8 :: "time_in_force \<Rightarrow> u8" where
  "time_in_force_u8 GoodTillCancel = 0"
| "time_in_force_u8 ImmediateOrCancel = 1"
| "time_in_force_u8 FillOrKill = 2"

definition time_in_force_try_from :: "u8 \<Rightarrow> u8 + time_in_force" where
  "time_in_force_try_from v =
     (if v = 0 then Inr GoodTillCancel else if v = 1 then Inr ImmediateOrCancel
      else if v = 2 then Inr FillOrKill else Inl v)"

datatype order_status =
    OS_Pending | OS_New | OS_PartiallyFilled | OS_Filled
  | OS_Cancelling | OS_Cancelled | OS_Rejected | OS_Expired

fun os_is_terminal :: "order_status \<Rightarrow> bool" where
  "os_is_terminal OS_Filled = True"
| "os_is_terminal OS_Cancelled = True"
| "os_is_terminal OS_Rejected = True"
| "os_is_terminal OS_Expired = True"
| "os_is_terminal _ = False"

interpretation side: wire_enum order_side_u8 order_side_try_from
proof
  show "order_side_try_from (order_side_u8 x) = Inr x" for x
    by (cases x) (simp_all add: order_side_try_from_def)
  show "order_side_try_from v = Inr x \<Longrightarrow> order_side_u8 x = v" for v x
    by (auto simp: order_side_try_from_def split: if_splits)
qed

interpretation otype: wire_enum order_type_u8 order_type_try_from
proof
  show "order_type_try_from (order_type_u8 x) = Inr x" for x
    by (cases x) (simp_all add: order_type_try_from_def)
  show "order_type_try_from v = Inr x \<Longrightarrow> order_type_u8 x = v" for v x
    by (auto simp: order_type_try_from_def split: if_splits)
qed

interpretation tif: wire_enum time_in_force_u8 time_in_force_try_from
proof
  show "time_in_force_try_from (time_in_force_u8 x) = Inr x" for x
    by (cases x) (simp_all add: time_in_force_try_from_def)
  show "time_in_force_try_from v = Inr x \<Longrightarrow> time_in_force_u8 x = v" for v x
    by (auto simp: time_in_force_try_from_def split: if_splits)
qed

section \<open>Client order ids\<close>

text \<open>
  The newtype of \<open>cloid.rs\<close>, with the derived order: that of the bytes of the string.
\<close>

datatype client_order_id = ClientOrderId (cloid_str: string)

instantiation client_order_id :: linorder
begin

definition less_eq_client_order_id :: "client_order_id \<Rightarrow> client_order_id \<Rightarrow> bool" where
  "less_eq_client_order_id a b \<longleftrightarrow> cloid_str a \<le> cloid_str b"
definition less_client_order_id :: "client_order_id \<Rightarrow> client_order_id \<Rightarrow> bool" where
  "less_client_order_id a b \<longleftrightarrow> cloid_str a < cloid_str b"

instance
  by standard
    (auto simp: less_eq_client_order_id_def less_client_order_id_def intro: client_order_id.expand)

end

section \<open>Orders\<close>

record order_request =
  orq_symbol :: string
  orq_side :: order_side
  orq_order_type :: order_type
  orq_qty :: i64
  orq_limit_price :: "i64 option"
  orq_time_in_force :: time_in_force

record pending_order =
  po_cloid :: client_order_id
  po_request :: order_request
  po_status :: order_status
  po_exchange_id :: "u64 option"
  po_filled_qty :: i64
  po_submitted_ns :: i64
  po_last_updated_ns :: i64

definition po_unfilled_qty :: "pending_order \<Rightarrow> i64" where
  "po_unfilled_qty o' = max (orq_qty (po_request o') - po_filled_qty o') 0"

section \<open>Errors\<close>

datatype io_error = IoError (io_kind: string)

datatype corrupt_reason =
    InvalidUtf8
  | PayloadPastBuffer nat
  | UnknownEntryTag u8
  | BadSide u8
  | BadOrderType u8
  | BadTif u8

datatype gateway_error =
    OrderNotFound string
  | InvalidTransition string order_status order_status
  | Io io_error
  | JournalCorrupt nat corrupt_reason
  | GwBufferTooShort nat nat

end
