(* ===== verification/Machine.thy ===== *)
theory Machine
  imports Order_Types
begin

text \<open>
  The order state machine of \<open>crates/order-gateway/src/machine.rs\<close>: the per-order machine
  \<open>OrderSm\<close> with its three handlers and the engine that owns all of them.
\<close>

section \<open>Types\<close>

definition DEFAULT_UNKNOWN_TIMEOUT_NS :: i64 where
  "DEFAULT_UNKNOWN_TIMEOUT_NS = 5000000000"

datatype sm_status =
    SM_Pending | SM_New | SM_PartiallyFilled | SM_UnknownStatus
  | SM_Filled | SM_Cancelled | SM_Rejected | SM_Expired

fun sm_is_terminal :: "sm_status \<Rightarrow> bool" where
  "sm_is_terminal SM_Filled = True"
| "sm_is_terminal SM_Cancelled = True"
| "sm_is_terminal SM_Rejected = True"
| "sm_is_terminal SM_Expired = True"
| "sm_is_terminal _ = False"

fun sm_is_live :: "sm_status \<Rightarrow> bool" where
  "sm_is_live SM_New = True"
| "sm_is_live SM_PartiallyFilled = True"
| "sm_is_live _ = False"

datatype status_check_outcome =
    SC_Live u64
  | SC_Filled u64 "(u64 \<times> i64 \<times> i64) list"
  | SC_Cancelled u64
  | SC_Rejected string
  | SC_Expired u64
  | SC_NotFound
  | SC_Error string

datatype sm_input =
    Acknowledged u64 i64
  | FillReceived u64 i64 i64 i64
  | CancelConfirmed i64
  | InRejected string i64
  | InExpired i64
  | StatusCheckResult status_check_outcome i64

datatype sm_action =
    ApplyAck u64
  | ApplyFill i64 i64
  | ApplyCancel
  | ApplyReject string
  | ApplyExpire
  | ScheduleStatusCheck
  | Ignored

datatype sm_error = OrderNotTracked string

record buffered_fill =
  bff_qty :: i64
  bff_price :: i64

record order_sm =
  sm_cloid :: client_order_id
  sm_status :: sm_status
  sm_total_qty :: i64
  sm_filled_qty :: i64
  sm_submitted_ns :: i64
  sm_buffered_fills :: "buffered_fill list"
  sm_seen_trade_ids :: "u64 set"

definition OrderSm_new :: "client_order_id \<Rightarrow> i64 \<Rightarrow> i64 \<Rightarrow> order_sm" where
  "OrderSm_new cloid total_qty submitted_ns =
     \<lparr>sm_cloid = cloid, sm_status = SM_Pending, sm_total_qty = total_qty, sm_filled_qty = 0,
      sm_submitted_ns = submitted_ns, sm_buffered_fills = [], sm_seen_trade_ids = {}\<rparr>"

section \<open>One order\<close>

text \<open>
  The loop over the taken buffer: every fill is counted and passed on. It occurs four
  times in the source with the same body.
\<close>

definition sm_flush :: "order_sm \<Rightarrow> sm_action list \<times> order_sm" where
  "sm_flush sm =
     (let fills = sm_buffered_fills sm in
      fold (\<lambda>f (actions, s).
          (actions @ [ApplyFill (bff_qty f) (bff_price f)],
           s\<lparr>sm_filled_qty := sm_filled_qty s + bff_qty f\<rparr>))
        fills ([], sm\<lparr>sm_buffered_fills := []\<rparr>))"

definition sm_settle :: "order_sm \<Rightarrow> order_sm" where
  "sm_settle sm =
     sm\<lparr>sm_status :=
        (if sm_total_qty sm \<le> sm_filled_qty sm then SM_Filled
         else if 0 < sm_filled_qty sm then SM_PartiallyFilled else SM_New)\<rparr>"

definition sm_acknowledge :: "u64 \<Rightarrow> order_sm \<Rightarrow> sm_action list \<times> order_sm" where
  "sm_acknowledge exchange_id sm =
     (let (actions, sm') = sm_flush (sm\<lparr>sm_status := SM_New\<rparr>)
      in (ApplyAck exchange_id # actions, sm_settle sm'))"

definition sm_buffer_fill :: "u64 \<Rightarrow> i64 \<Rightarrow> i64 \<Rightarrow> order_sm \<Rightarrow> sm_action list \<times> order_sm" where
  "sm_buffer_fill trade_id fill_qty fill_price sm =
     (if trade_id \<in> sm_seen_trade_ids sm then ([Ignored], sm)
      else ([], sm\<lparr>sm_seen_trade_ids := insert trade_id (sm_seen_trade_ids sm),
                  sm_buffered_fills := sm_buffered_fills sm @
                    [\<lparr>bff_qty = fill_qty, bff_price = fill_price\<rparr>]\<rparr>))"

definition process_pending :: "sm_input \<Rightarrow> order_sm \<Rightarrow> sm_action list \<times> order_sm" where
  "process_pending input sm =
     (case input of
        Acknowledged exchange_id _ \<Rightarrow> sm_acknowledge exchange_id sm
      | FillReceived trade_id fill_qty fill_price _ \<Rightarrow>
          sm_buffer_fill trade_id fill_qty fill_price sm
      | InRejected reason _ \<Rightarrow> ([ApplyReject reason], sm\<lparr>sm_status := SM_Rejected\<rparr>)
      | CancelConfirmed _ \<Rightarrow> ([ApplyCancel], sm\<lparr>sm_status := SM_Cancelled\<rparr>)
      | _ \<Rightarrow> ([Ignored], sm))"

definition process_live :: "sm_input \<Rightarrow> order_sm \<Rightarrow> sm_action list \<times> order_sm" where
  "process_live input sm =
     (case input of
        FillReceived trade_id fill_qty fill_price _ \<Rightarrow>
          if trade_id \<in> sm_seen_trade_ids sm then ([Ignored], sm)
          else
            let sm1 = sm\<lparr>sm_seen_trade_ids := insert trade_id (sm_seen_trade_ids sm),
                         sm_filled_qty := sm_filled_qty sm + fill_qty\<rparr>
            in ([ApplyFill fill_qty fill_price],
                sm1\<lparr>sm_status := (if sm_total_qty sm1 \<le> sm_filled_qty sm1 then SM_Filled
                                   else SM_PartiallyFilled)\<rparr>)
      | CancelConfirmed _ \<Rightarrow> ([ApplyCancel], sm\<lparr>sm_status := SM_Cancelled\<rparr>)
      | InExpired _ \<Rightarrow> ([ApplyExpire], sm\<lparr>sm_status := SM_Expired\<rparr>)
      | InRejected reason _ \<Rightarrow> ([ApplyReject reason], sm\<lparr>sm_status := SM_Rejected\<rparr>)
      | Acknowledged _ _ \<Rightarrow> ([Ignored], sm)
      | _ \<Rightarrow> ([Ignored], sm))"

text \<open>The fills of a REST answer, without those already seen on the stream.\<close>

fun sm_rest_fills :: "(u64 \<times> i64 \<times> i64) list \<Rightarrow> order_sm \<Rightarrow> sm_action list \<times> order_sm" where
  "sm_rest_fills [] sm = ([], sm)"
| "sm_rest_fills ((trade_id, fill_qty, fill_price) # fills) sm =
     (if trade_id \<notin> sm_seen_trade_ids sm then
        let (actions, sm') = sm_rest_fills fills
              (sm\<lparr>sm_seen_trade_ids := insert trade_id (sm_seen_trade_ids sm),
                  sm_filled_qty := sm_filled_qty sm + fill_qty\<rparr>)
        in (ApplyFill fill_qty fill_price # actions, sm')
      else sm_rest_fills fills sm)"

definition resolve_from_check ::
  "status_check_outcome \<Rightarrow> order_sm \<Rightarrow> sm_action list \<times> order_sm" where
  "resolve_from_check outcome sm =
     (case outcome of
        SC_Live exchange_id \<Rightarrow> sm_acknowledge exchange_id sm
      | SC_Filled exchange_id fills \<Rightarrow>
          let (rest_actions, sm1) = sm_rest_fills fills sm;
              (flushed, sm2) = sm_flush sm1
          in (ApplyAck exchange_id # rest_actions @ flushed, sm2\<lparr>sm_status := SM_Filled\<rparr>)
      | SC_Cancelled _ \<Rightarrow> ([ApplyCancel], sm\<lparr>sm_status := SM_Cancelled\<rparr>)
      | SC_Rejected reason \<Rightarrow> ([ApplyReject reason], sm\<lparr>sm_status := SM_Rejected\<rparr>)
      | SC_Expired _ \<Rightarrow> ([ApplyExpire], sm\<lparr>sm_status := SM_Expired\<rparr>)
      | SC_NotFound \<Rightarrow>
          ([ApplyReject ''order not found by REST status check''], sm\<lparr>sm_status := SM_Rejected\<rparr>)
      | SC_Error _ \<Rightarrow> ([ScheduleStatusCheck], sm))"

definition process_unknown :: "sm_input \<Rightarrow> order_sm \<Rightarrow> sm_action list \<times> order_sm" where
  "process_unknown input sm =
     (case input of
        Acknowledged exchange_id _ \<Rightarrow> sm_acknowledge exchange_id sm
      | FillReceived trade_id fill_qty fill_price _ \<Rightarrow>
          sm_buffer_fill trade_id fill_qty fill_price sm
      | CancelConfirmed _ \<Rightarrow> ([ApplyCancel], sm\<lparr>sm_status := SM_Cancelled\<rparr>)
      | StatusCheckResult outcome _ \<Rightarrow> resolve_from_check outcome sm
      | _ \<Rightarrow> ([Ignored], sm))"

definition process_input :: "sm_input \<Rightarrow> order_sm \<Rightarrow> sm_action list \<times> order_sm" where
  "process_input input sm =
     (if sm_is_terminal (sm_status sm) then ([Ignored], sm)
      else
        (case sm_status sm of
           SM_Pending \<Rightarrow> process_pending input sm
         | SM_New \<Rightarrow> process_live input sm
         | SM_PartiallyFilled \<Rightarrow> process_live input sm
         | SM_UnknownStatus \<Rightarrow> process_unknown input sm
         | _ \<Rightarrow> ([Ignored], sm)))"

section \<open>The engine\<close>

record sm_engine =
  eng_orders :: "(client_order_id, order_sm) hash_map"
  eng_timeout_ns :: i64

definition eng_with_timeout_ns :: "i64 \<Rightarrow> sm_engine" where
  "eng_with_timeout_ns timeout_ns = \<lparr>eng_orders = [], eng_timeout_ns = timeout_ns\<rparr>"

definition eng_new :: sm_engine where
  "eng_new = eng_with_timeout_ns DEFAULT_UNKNOWN_TIMEOUT_NS"

definition eng_track :: "client_order_id \<Rightarrow> i64 \<Rightarrow> i64 \<Rightarrow> sm_engine \<Rightarrow> sm_engine" where
  "eng_track cloid total_qty submitted_ns e =
     e\<lparr>eng_orders := AList.update cloid (OrderSm_new cloid total_qty submitted_ns) (eng_orders e)\<rparr>"

definition eng_untrack :: "client_order_id \<Rightarrow> sm_engine \<Rightarrow> sm_engine" where
  "eng_untrack cloid e = e\<lparr>eng_orders := AList.delete cloid (eng_orders e)\<rparr>"

definition eng_process ::
  "client_order_id \<Rightarrow> sm_input \<Rightarrow> sm_engine \<Rightarrow> (sm_error + sm_action list) \<times> sm_engine" where
  "eng_process cloid input e =
     (case map_of (eng_orders e) cloid of
        None \<Rightarrow> (Inl (OrderNotTracked (cloid_str cloid)), e)
      | Some sm \<Rightarrow>
          let orders = AList.delete cloid (eng_orders e);
              (actions, sm') = process_input input sm
          in (Inr actions,
              e\<lparr>eng_orders := (if \<not> sm_is_terminal (sm_status sm')
                 then AList.update (sm_cloid sm') sm' orders else orders)\<rparr>))"

definition sm_timed_out :: "i64 \<Rightarrow> i64 \<Rightarrow> order_sm \<Rightarrow> bool" where
  "sm_timed_out timeout_ns now_ns sm \<longleftrightarrow>
     sm_status sm = SM_Pending \<and>
     timeout_ns < i64_saturating_sub now_ns (sm_submitted_ns sm)"

definition eng_tick :: "i64 \<Rightarrow> sm_engine \<Rightarrow> (client_order_id \<times> sm_action) list \<times> sm_engine" where
  "eng_tick now_ns e =
     (map (\<lambda>(_, sm). (sm_cloid sm, ScheduleStatusCheck))
        (filter (\<lambda>(_, sm). sm_timed_out (eng_timeout_ns e) now_ns sm) (eng_orders e)),
      e\<lparr>eng_orders := map (\<lambda>(c, sm).
         (c, if sm_timed_out (eng_timeout_ns e) now_ns sm
             then sm\<lparr>sm_status := SM_UnknownStatus\<rparr> else sm)) (eng_orders e)\<rparr>)"

definition eng_status :: "client_order_id \<Rightarrow> sm_engine \<Rightarrow> sm_status option" where
  "eng_status cloid e = map_option sm_status (map_of (eng_orders e) cloid)"

definition eng_is_tracked :: "client_order_id \<Rightarrow> sm_engine \<Rightarrow> bool" where
  "eng_is_tracked cloid e \<longleftrightarrow> map_of (eng_orders e) cloid \<noteq> None"

definition eng_order_count :: "sm_engine \<Rightarrow> nat" where
  "eng_order_count e = length (eng_orders e)"

section \<open>Fills, once and in order\<close>

fun fills_of :: "sm_action list \<Rightarrow> buffered_fill list" where
  "fills_of [] = []"
| "fills_of (ApplyFill q p # as) = \<lparr>bff_qty = q, bff_price = p\<rparr> # fills_of as"
| "fills_of (_ # as) = fills_of as"

definition fills_qty :: "buffered_fill list \<Rightarrow> i64" where
  "fills_qty fs = sum_list (map bff_qty fs)"

text \<open>The fills of an input sequence whose trade id was not seen before, in their order.\<close>

fun first_fills :: "u64 set \<Rightarrow> sm_input list \<Rightarrow> buffered_fill list" where
  "first_fills seen [] = []"
| "first_fills seen (FillReceived t q p _ # is) =
     (if t \<in> seen then first_fills seen is
      else \<lparr>bff_qty = q, bff_price = p\<rparr> # first_fills (insert t seen) is)"
| "first_fills seen (_ # is) = first_fills seen is"

fun sm_run :: "sm_input list \<Rightarrow> order_sm \<Rightarrow> sm_action list \<times> order_sm" where
  "sm_run [] sm = ([], sm)"
| "sm_run (i # is) sm =
     (let (a, sm1) = process_input i sm; (as, sm2) = sm_run is sm1 in (a @ as, sm2))"

lemma fills_of_append [simp]: "fills_of (as @ bs) = fills_of as @ fills_of bs"
  by (induction as rule: fills_of.induct) auto

lemma fills_qty_simps [simp]:
  "fills_qty [] = 0" "fills_qty (f # fs) = bff_qty f + fills_qty fs"
  "fills_qty (fs @ gs) = fills_qty fs + fills_qty gs"
  by (simp_all add: fills_qty_def)

lemma buffered_fill_eta [simp]: "\<lparr>bff_qty = bff_qty f, bff_price = bff_price f\<rparr> = f"
  by (cases f) simp

lemma sm_flush_eq:
  "sm_flush sm =
     (map (\<lambda>f. ApplyFill (bff_qty f) (bff_price f)) (sm_buffered_fills sm),
      sm\<lparr>sm_buffered_fills := [], sm_filled_qty := sm_filled_qty sm + fills_qty (sm_buffered_fills sm)\<rparr>)"
proof -
  have "fold (\<lambda>f (actions, s). (actions @ [ApplyFill (bff_qty f) (bff_price f)],
           s\<lparr>sm_filled_qty := sm_filled_qty s + bff_qty f\<rparr>)) fs (as, s) =
      (as @ map (\<lambda>f. ApplyFill (bff_qty f) (bff_price f)) fs,
       s\<lparr>sm_filled_qty := sm_filled_qty s + fills_qty fs\<rparr>)" for fs as and s :: order_sm
    by (induction fs arbitrary: as s) (simp_all add: add.assoc)
  then show ?thesis by (simp add: sm_flush_def Let_def)
qed

lemma fills_of_map [simp]: "fills_of (map (\<lambda>f. ApplyFill (bff_qty f) (bff_price f)) fs) = fs"
  by (induction fs) simp_all

lemma sm_acknowledge_eq:
  "sm_acknowledge x sm =
     (ApplyAck x # map (\<lambda>f. ApplyFill (bff_qty f) (bff_price f)) (sm_buffered_fills sm),
      sm_settle (sm\<lparr>sm_status := SM_New, sm_buffered_fills := [],
        sm_filled_qty := sm_filled_qty sm + fills_qty (sm_buffered_fills sm)\<rparr>))"
  by (simp add: sm_acknowledge_def sm_flush_eq)

text \<open>What holds of a machine while its order is not terminal.\<close>

definition sm_inv :: "order_sm \<Rightarrow> bool" where
  "sm_inv sm \<longleftrightarrow>
     (sm_is_live (sm_status sm) \<longrightarrow>
        sm_buffered_fills sm = [] \<and> sm_filled_qty sm < sm_total_qty sm) \<and>
     (sm_status sm \<in> {SM_Pending, SM_UnknownStatus} \<longrightarrow> sm_filled_qty sm = 0)"

lemma sm_settle_status:
  "sm_status (sm_settle sm) =
     (if sm_total_qty sm \<le> sm_filled_qty sm then SM_Filled
      else if 0 < sm_filled_qty sm then SM_PartiallyFilled else SM_New)"
  by (simp add: sm_settle_def)

lemma sm_settle_other [simp]:
  "sm_buffered_fills (sm_settle sm) = sm_buffered_fills sm"
  "sm_filled_qty (sm_settle sm) = sm_filled_qty sm"
  "sm_total_qty (sm_settle sm) = sm_total_qty sm"
  "sm_seen_trade_ids (sm_settle sm) = sm_seen_trade_ids sm"
  "sm_cloid (sm_settle sm) = sm_cloid sm"
  by (simp_all add: sm_settle_def)

lemmas sm_step_defs = process_input_def process_pending_def process_live_def process_unknown_def
  resolve_from_check_def sm_acknowledge_eq sm_buffer_fill_def

lemma sm_inv_new: "sm_inv (OrderSm_new c q t)"
  by (simp add: sm_inv_def OrderSm_new_def)

text \<open>A step that leaves the order live: what was seen, passed on, buffered and counted.\<close>

lemma sm_step:
  assumes "sm_inv sm" "process_input i sm = (as, sm')" "\<not> sm_is_terminal (sm_status sm')"
  shows "\<not> sm_is_terminal (sm_status sm) \<and> sm_inv sm' \<and>
    sm_buffered_fills sm @ first_fills (sm_seen_trade_ids sm) [i] =
      fills_of as @ sm_buffered_fills sm' \<and>
    (\<forall>is. first_fills (sm_seen_trade_ids sm) (i # is) =
       first_fills (sm_seen_trade_ids sm) [i] @ first_fills (sm_seen_trade_ids sm') is) \<and>
    sm_filled_qty sm' = sm_filled_qty sm + fills_qty (fills_of as) \<and>
    sm_total_qty sm' = sm_total_qty sm"
proof -
  consider (waiting) "sm_status sm \<in> {SM_Pending, SM_UnknownStatus}" | (live) "sm_is_live (sm_status sm)"
    | (dead) "sm_is_terminal (sm_status sm)"
    by (cases "sm_status sm") auto
  then show ?thesis
  proof cases
    case waiting
    then have "\<not> sm_is_terminal (sm_status sm)" by auto
    moreover have "process_pending i sm = (as, sm') \<or> process_unknown i sm = (as, sm')"
      using waiting assms(2) by (auto simp: process_input_def)
    ultimately show ?thesis
      using waiting assms(1,3)
      by (cases i)
        (auto simp: process_pending_def process_unknown_def resolve_from_check_def
          sm_acknowledge_eq sm_buffer_fill_def sm_inv_def sm_settle_status
          split: if_splits status_check_outcome.splits prod.splits)
  next
    case live
    then have "process_live i sm = (as, sm')" "\<not> sm_is_terminal (sm_status sm)"
      using assms(2) by (cases "sm_status sm"; simp add: process_input_def)+
    with live assms(1,3) show ?thesis
      by (cases i) (auto simp: process_live_def sm_inv_def Let_def split: if_splits)
  next
    case dead
    with assms show ?thesis by (auto simp: process_input_def)
  qed
qed

lemma terminal_stays: "sm_is_terminal (sm_status sm) \<Longrightarrow> process_input i sm = ([Ignored], sm)"
  by (simp add: process_input_def)

lemma terminal_run_stays: "sm_is_terminal (sm_status sm) \<Longrightarrow> snd (sm_run is sm) = sm"
  by (induction "is") (simp_all add: terminal_stays case_prod_beta Let_def)

text \<open>
  A run that leaves the order live: what was passed on and what is still buffered are the
  distinct fills received, in their order, and the filled quantity is what was passed on.
\<close>

lemma sm_run_fills:
  assumes "sm_inv sm" "sm_run is sm = (as, sm')" "\<not> sm_is_terminal (sm_status sm')"
  shows "sm_inv sm' \<and>
    sm_buffered_fills sm @ first_fills (sm_seen_trade_ids sm) is = fills_of as @ sm_buffered_fills sm' \<and>
    sm_filled_qty sm' = sm_filled_qty sm + fills_qty (fills_of as) \<and>
    sm_total_qty sm' = sm_total_qty sm"
  using assms
proof (induction "is" arbitrary: sm as)
  case (Cons i "is")
  obtain a sm1 where s: "process_input i sm = (a, sm1)" by (cases "process_input i sm")
  obtain b where r: "sm_run is sm1 = (b, sm')" "as = a @ b"
    using Cons.prems(2) s by (auto split: prod.splits)
  have "\<not> sm_is_terminal (sm_status sm1)"
    using terminal_run_stays [of sm1 "is"] r(1) Cons.prems(3) by auto
  note step = sm_step [OF Cons.prems(1) s this]
  have "sm_inv sm1" using step by blast
  note rest = Cons.IH [OF this r(1) Cons.prems(3)]
  have "sm_buffered_fills sm @ first_fills (sm_seen_trade_ids sm) (i # is) =
      (sm_buffered_fills sm @ first_fills (sm_seen_trade_ids sm) [i]) @
      first_fills (sm_seen_trade_ids sm1) is"
    unfolding append_assoc using step by metis
  also have "\<dots> = fills_of a @ sm_buffered_fills sm1 @ first_fills (sm_seen_trade_ids sm1) is"
    using step by (metis append_assoc)
  also have "\<dots> = fills_of as @ sm_buffered_fills sm'"
    using rest by (simp only: r(2) fills_of_append append_assoc)
  finally have fills: "sm_buffered_fills sm @ first_fills (sm_seen_trade_ids sm) (i # is) =
      fills_of as @ sm_buffered_fills sm'" .
  have qty: "sm_filled_qty sm' = sm_filled_qty sm + fills_qty (fills_of as)"
    using step rest unfolding r(2) fills_of_append fills_qty_simps by (metis add.assoc)
  show ?case using step rest fills qty by metis
qed simp

section \<open>Engine\<close>

text \<open>A tracked order is filed under its own id and is not terminal.\<close>

definition eng_wf :: "sm_engine \<Rightarrow> bool" where
  "eng_wf e \<longleftrightarrow> hm_wf (eng_orders e) \<and>
     (\<forall>c sm. map_of (eng_orders e) c = Some sm \<longrightarrow>
        sm_cloid sm = c \<and> \<not> sm_is_terminal (sm_status sm))"

lemma sm_flush_cloid [simp]: "sm_cloid (snd (sm_flush sm)) = sm_cloid sm"
  by (simp add: sm_flush_eq)

lemma sm_rest_fills_cloid [simp]: "sm_cloid (snd (sm_rest_fills fs sm)) = sm_cloid sm"
  by (induction fs sm rule: sm_rest_fills.induct) (simp_all add: case_prod_beta Let_def)

lemma process_input_cloid: "sm_cloid (snd (process_input i sm)) = sm_cloid sm"
  by (auto simp: process_input_def process_pending_def process_live_def process_unknown_def
      resolve_from_check_def sm_acknowledge_eq sm_buffer_fill_def case_prod_beta Let_def
      split: sm_status.splits sm_input.splits status_check_outcome.splits)

lemma eng_wf_process: "eng_wf e \<Longrightarrow> eng_wf (snd (eng_process c i e))"
  using process_input_cloid
  by (auto simp: eng_wf_def eng_process_def case_prod_beta Let_def split: option.splits if_splits)

lemma map_of_tick:
  "map_of (eng_orders (snd (eng_tick now e))) c =
     map_option (\<lambda>sm. if sm_timed_out (eng_timeout_ns e) now sm
       then sm\<lparr>sm_status := SM_UnknownStatus\<rparr> else sm) (map_of (eng_orders e) c)"
  by (simp add: eng_tick_def map_of_map_snd)

lemma eng_wf_tick: "eng_wf e \<Longrightarrow> eng_wf (snd (eng_tick now e))"
proof -
  assume wf: "eng_wf e"
  have "map fst (eng_orders (snd (eng_tick now e))) = map fst (eng_orders e)"
    by (simp add: eng_tick_def comp_def case_prod_beta)
  with wf show ?thesis
    by (auto simp: eng_wf_def hm_wf_def map_of_tick split: if_splits)
qed

lemma eng_wf_track: "eng_wf e \<Longrightarrow> eng_wf (eng_track c q t e)"
  by (simp add: eng_wf_def eng_track_def OrderSm_new_def)

lemma eng_wf_untrack: "eng_wf e \<Longrightarrow> eng_wf (eng_untrack c e)"
  by (simp add: eng_wf_def eng_untrack_def)

text \<open>A tick reports exactly the orders it moves to \<open>UnknownStatus\<close>.\<close>

lemma tick_reports:
  assumes "eng_wf e"
  shows "(c, a) \<in> set (fst (eng_tick now e)) \<longleftrightarrow> a = ScheduleStatusCheck \<and>
    (\<exists>sm. map_of (eng_orders e) c = Some sm \<and> sm_timed_out (eng_timeout_ns e) now sm)"
proof -
  have d: "distinct (map fst (eng_orders e))" using assms by (simp add: eng_wf_def hm_wf_def)
  then have m: "map_of (eng_orders e) k = Some sm \<longleftrightarrow> (k, sm) \<in> set (eng_orders e)" for k sm
    by simp
  then have id: "(k, sm) \<in> set (eng_orders e) \<Longrightarrow> sm_cloid sm = k" for k sm
    using assms by (auto simp: eng_wf_def)
  show ?thesis
    unfolding m by (auto simp: eng_tick_def image_iff dest: id)
qed

end
