(* ===== verification/Cloid.thy ===== *)
theory Cloid
  imports Order_Types
begin

text \<open>
  Client order ids: \<open>crates/order-gateway/src/cloid.rs\<close>. The formatter
  \<open>cc-{instance:04x}-{counter:016x}\<close>, the two parsers and the generator. The lemmas show
  that a parser reads back what was formatted and that the string order of ids is the
  order of (instance, counter).
\<close>

section \<open>Hexadecimal text\<close>

definition hex_char :: "nat \<Rightarrow> char" where
  "hex_char d = char_of (if d < 10 then 48 + d else 87 + d)"

fun hex_str :: "nat \<Rightarrow> string" where
  "hex_str n = (if n < 16 then [hex_char n] else hex_str (n div 16) @ [hex_char (n mod 16)])"

declare hex_str.simps [simp del]

text \<open>\<open>{:0wx}\<close>: at least \<open>w\<close> digits, zeros in front.\<close>

definition fmt_hex :: "nat \<Rightarrow> nat \<Rightarrow> string" where
  "fmt_hex w n = replicate (w - length (hex_str n)) CHR ''0'' @ hex_str n"

text \<open>\<open>char::to_digit(16)\<close>.\<close>

definition hex_digit :: "char \<Rightarrow> nat option" where
  "hex_digit c =
     (let k = of_char c :: nat in
      if 48 \<le> k \<and> k \<le> 57 then Some (k - 48)
      else if 97 \<le> k \<and> k \<le> 102 then Some (k - 87)
      else if 65 \<le> k \<and> k \<le> 70 then Some (k - 55) else None)"

fun parse_digits :: "nat \<Rightarrow> nat \<Rightarrow> string \<Rightarrow> nat option" where
  "parse_digits limit acc [] = Some acc"
| "parse_digits limit acc (c # cs) =
     (case hex_digit c of
        None \<Rightarrow> None
      | Some d \<Rightarrow> if acc * 16 + d < limit then parse_digits limit (acc * 16 + d) cs else None)"

text \<open>
  \<open>from_str_radix(s, 16)\<close> of an unsigned type with \<open>limit\<close> values: a plus sign may stand
  in front, an empty digit string, a foreign character or an overflow is an error.
\<close>

definition from_str_radix16 :: "nat \<Rightarrow> string \<Rightarrow> nat option" where
  "from_str_radix16 limit s =
     (let digits = (case s of c # cs \<Rightarrow> if c = CHR ''+'' then cs else s | [] \<Rightarrow> [])
      in if digits = [] then None else parse_digits limit 0 digits)"

text \<open>\<open>splitn(n, sep)\<close>.\<close>

fun splitn :: "nat \<Rightarrow> char \<Rightarrow> string \<Rightarrow> string list" where
  "splitn 0 sep s = []"
| "splitn (Suc 0) sep s = [s]"
| "splitn (Suc (Suc n)) sep s =
     (case dropWhile (\<lambda>c. c \<noteq> sep) s of
        [] \<Rightarrow> [s]
      | _ # rest \<Rightarrow> takeWhile (\<lambda>c. c \<noteq> sep) s # splitn (Suc n) sep rest)"

section \<open>Ids\<close>

definition PREFIX :: string where "PREFIX = ''cc''"

definition parse_counter :: "client_order_id \<Rightarrow> u64 option" where
  "parse_counter c =
     (case splitn 3 CHR ''-'' (cloid_str c) of
        prefix # _ # ctr # _ \<Rightarrow>
          if prefix \<noteq> PREFIX then None else map_option word_of_nat (from_str_radix16 (2 ^ 64) ctr)
      | _ \<Rightarrow> None)"

definition parse_instance :: "client_order_id \<Rightarrow> u32 option" where
  "parse_instance c =
     (case splitn 3 CHR ''-'' (cloid_str c) of
        prefix # inst # _ \<Rightarrow>
          if prefix \<noteq> PREFIX then None else map_option word_of_nat (from_str_radix16 (2 ^ 32) inst)
      | _ \<Rightarrow> None)"

section \<open>Generator\<close>

record cloid_generator =
  cg_instance_id :: u32
  cg_counter :: u64

definition cg_new :: "u32 \<Rightarrow> cloid_generator" where
  "cg_new instance_id = \<lparr>cg_instance_id = instance_id, cg_counter = 0\<rparr>"

definition u64_saturating_add :: "u64 \<Rightarrow> u64 \<Rightarrow> u64" where
  "u64_saturating_add a b = word_of_nat (min (2 ^ 64 - 1) (unat a + unat b))"

definition cg_with_start_after :: "u32 \<Rightarrow> u64 \<Rightarrow> cloid_generator" where
  "cg_with_start_after instance_id last_counter =
     \<lparr>cg_instance_id = instance_id, cg_counter = u64_saturating_add last_counter 1\<rparr>"

definition format_cloid :: "u32 \<Rightarrow> u64 \<Rightarrow> client_order_id" where
  "format_cloid inst ctr =
     ClientOrderId (PREFIX @ ''-'' @ fmt_hex 4 (unat inst) @ ''-'' @ fmt_hex 16 (unat ctr))"

definition cg_generate :: "cloid_generator \<Rightarrow> client_order_id \<times> cloid_generator" where
  "cg_generate g =
     (format_cloid (cg_instance_id g) (cg_counter g), g\<lparr>cg_counter := cg_counter g + 1\<rparr>)"

section \<open>Digits\<close>

lemma hex_char_0 [simp]: "hex_char 0 = CHR ''0''"
  by code_simp

lemma hex_digit_char [simp]: "d < 16 \<Longrightarrow> hex_digit (hex_char d) = Some d"
proof -
  assume "d < 16"
  then have "(of_char (hex_char d) :: nat) = (if d < 10 then 48 + d else 87 + d)"
    by (simp add: hex_char_def)
  with \<open>d < 16\<close> show ?thesis by (simp add: hex_digit_def Let_def)
qed

lemma of_char_hex [simp]:
  "d < 16 \<Longrightarrow> (of_char (hex_char d) :: nat) = (if d < 10 then 48 + d else 87 + d)"
  by (simp add: hex_char_def)

lemma hex_char_less: "d < 16 \<Longrightarrow> e < 16 \<Longrightarrow> hex_char d < hex_char e \<longleftrightarrow> d < e"
  by (auto simp: less_char_def)

lemma hex_char_inj: "d < 16 \<Longrightarrow> e < 16 \<Longrightarrow> hex_char d = hex_char e \<longleftrightarrow> d = e"
  by (metis hex_digit_char option.inject)

lemma hex_char_neq: "d < 16 \<Longrightarrow> hex_char d \<noteq> CHR ''-'' \<and> hex_char d \<noteq> CHR ''+''"
proof -
  assume "d < 16"
  then have "hex_digit (hex_char d) = Some d" by simp
  moreover have "hex_digit CHR ''-'' = None" "hex_digit CHR ''+'' = None"
    by (simp_all add: hex_digit_def)
  ultimately show ?thesis by (metis option.distinct(1))
qed

text \<open>The digits of a number at a fixed width: what the formatter writes when they fit.\<close>

fun fixed_hex :: "nat \<Rightarrow> nat \<Rightarrow> string" where
  "fixed_hex 0 n = []"
| "fixed_hex (Suc w) n = fixed_hex w (n div 16) @ [hex_char (n mod 16)]"

lemma length_fixed_hex [simp]: "length (fixed_hex w n) = w"
  by (induction w arbitrary: n) auto

lemma fixed_hex_0: "fixed_hex w 0 = replicate w CHR ''0''"
proof (induction w)
  case (Suc w)
  then show ?case by (simp add: replicate_append_same)
qed simp

lemma fmt_hex_fixed: "n < 16 ^ w \<Longrightarrow> 0 < w \<Longrightarrow> fmt_hex w n = fixed_hex w n"
proof (induction w arbitrary: n)
  case (Suc w)
  show ?case
  proof (cases "n < 16")
    case True
    then show ?thesis by (simp add: fmt_hex_def hex_str.simps [of n] fixed_hex_0)
  next
    case False
    with Suc.prems(1) have w: "0 < w" by (cases w) auto
    have "n div 16 < 16 ^ w" using Suc.prems(1) by (simp add: less_mult_imp_div_less mult.commute)
    from Suc.IH [OF this w] False show ?thesis
      by (simp add: fmt_hex_def hex_str.simps [of n])
  qed
qed simp

lemma hex_str_chars: "\<forall>c \<in> set (hex_str n). \<exists>d < 16. c = hex_char d"
proof (induction n rule: hex_str.induct)
  case (1 n)
  show ?case
  proof (cases "n < 16")
    case True
    then show ?thesis by (auto simp: hex_str.simps [of n])
  next
    case False
    then have "hex_str n = hex_str (n div 16) @ [hex_char (n mod 16)]"
      by (simp add: hex_str.simps [of n])
    moreover have "\<exists>d < 16. hex_char (n mod 16) = hex_char d"
      by (rule exI [of _ "n mod 16"]) simp
    ultimately show ?thesis using 1 [OF False] by simp
  qed
qed

lemma fmt_hex_chars: "c \<in> set (fmt_hex w n) \<Longrightarrow> \<exists>d < 16. c = hex_char d"
proof -
  assume "c \<in> set (fmt_hex w n)"
  then consider "c = hex_char 0" | "c \<in> set (hex_str n)"
    by (auto simp: fmt_hex_def split: if_splits)
  then show "\<exists>d < 16. c = hex_char d"
  proof cases
    case 1
    then show ?thesis by (intro exI [of _ 0]) simp
  next
    case 2
    then show ?thesis using hex_str_chars [of n] by blast
  qed
qed

lemma fmt_hex_char_props:
  assumes "c \<in> set (fmt_hex w n)"
  shows "c \<noteq> CHR ''-''" "c \<noteq> CHR ''+''" "(of_char c :: nat) < 128"
  using fmt_hex_chars [OF assms] hex_char_neq of_char_hex by auto

lemma hex_str_nonempty [simp]: "hex_str n \<noteq> []"
  by (simp add: hex_str.simps)

lemma parse_digits_append:
  "parse_digits l a (s @ t) = (case parse_digits l a s of None \<Rightarrow> None | Some b \<Rightarrow> parse_digits l b t)"
  by (induction s arbitrary: a) (auto split: option.splits)

lemma parse_digits_zeros: "0 < l \<Longrightarrow> parse_digits l 0 (replicate k CHR ''0'') = Some 0"
  by (induction k) (simp_all add: hex_digit_def)

lemma parse_hex_str: "n < l \<Longrightarrow> parse_digits l 0 (hex_str n) = Some n"
proof (induction n rule: hex_str.induct)
  case (1 n)
  then show ?case by (simp add: hex_str.simps [of n] parse_digits_append)
qed

lemma from_str_fmt_hex:
  assumes "n < l"
  shows "from_str_radix16 l (fmt_hex w n) = Some n"
proof -
  have ne: "fmt_hex w n \<noteq> []" by (simp add: fmt_hex_def)
  then obtain c cs where s: "fmt_hex w n = c # cs" by (cases "fmt_hex w n") auto
  then have "c \<noteq> CHR ''+''" by (metis fmt_hex_char_props(2) list.set_intros(1))
  moreover have "parse_digits l 0 (fmt_hex w n) = Some n"
    using assms by (simp add: fmt_hex_def parse_digits_append parse_digits_zeros parse_hex_str)
  ultimately show ?thesis by (simp add: from_str_radix16_def s)
qed

section \<open>Reading an id back\<close>

lemma split_cloid:
  "splitn 3 CHR ''-'' (cloid_str (format_cloid i c)) =
     [PREFIX, fmt_hex 4 (unat i), fmt_hex 16 (unat c)]"
proof -
  have "CHR ''-'' \<notin> set (fmt_hex 4 (unat i))"
    using fmt_hex_char_props(1) by blast
  then have a: "\<And>x. x \<in> set (fmt_hex 4 (unat i)) \<Longrightarrow> x \<noteq> CHR ''-''" by blast
  then have "takeWhile (\<lambda>c. c \<noteq> CHR ''-'') (fmt_hex 4 (unat i) @ CHR ''-'' # r) = fmt_hex 4 (unat i)"
      "dropWhile (\<lambda>c. c \<noteq> CHR ''-'') (fmt_hex 4 (unat i) @ CHR ''-'' # r) = CHR ''-'' # r" for r
    by (subst takeWhile_append2 dropWhile_append2; simp)+
  then show ?thesis
    by (simp add: format_cloid_def PREFIX_def numeral_3_eq_3)
qed

lemma parse_counter_format [simp]: "parse_counter (format_cloid i c) = Some c"
proof -
  have "unat c < 2 ^ 64" using unsigned_less [of c] by simp
  then show ?thesis by (simp add: parse_counter_def split_cloid from_str_fmt_hex)
qed

lemma parse_instance_format [simp]: "parse_instance (format_cloid i c) = Some i"
proof -
  have "unat i < 2 ^ 32" using unsigned_less [of i] by simp
  then show ?thesis by (simp add: parse_instance_def split_cloid from_str_fmt_hex)
qed

lemma format_cloid_inj: "format_cloid i c = format_cloid j d \<longleftrightarrow> i = j \<and> c = d"
  by (metis option.inject parse_counter_format parse_instance_format)

section \<open>Order of ids\<close>

lemma append_less_same_length:
  "length s = length t \<Longrightarrow> s @ u < t @ v \<longleftrightarrow> s < t \<or> s = t \<and> u < v" for s t u v :: string
  by (induction s t rule: list_induct2) auto

lemma digit_less: "m < n \<longleftrightarrow> m div 16 < n div 16 \<or> m div 16 = n div 16 \<and> m mod 16 < n mod 16"
  for m n :: nat
proof -
  have "16 * a + b < 16 * c + d \<longleftrightarrow> a < c \<or> a = c \<and> b < d" if "b < 16" "d < 16" for a b c d :: nat
    using that by (cases a c rule: linorder_cases) auto
  from this [of "m mod 16" "n mod 16" "m div 16" "n div 16"] show ?thesis by simp
qed

lemma digit_eq: "m = n \<longleftrightarrow> m div 16 = n div 16 \<and> m mod 16 = n mod 16" for m n :: nat
  by (metis div_mult_mod_eq)

lemma fixed_hex_inj: "m < 16 ^ w \<Longrightarrow> n < 16 ^ w \<Longrightarrow> fixed_hex w m = fixed_hex w n \<longleftrightarrow> m = n"
proof (induction w arbitrary: m n)
  case (Suc w)
  then have d: "m div 16 < 16 ^ w" "n div 16 < 16 ^ w"
    by (simp_all add: less_mult_imp_div_less mult.commute)
  have "hex_char (m mod 16) = hex_char (n mod 16) \<longleftrightarrow> m mod 16 = n mod 16"
    by (rule hex_char_inj) simp_all
  then show ?case
    by (simp only: fixed_hex.simps append1_eq_conv Suc.IH [OF d] digit_eq [of m n])
qed simp

lemma fixed_hex_less: "m < 16 ^ w \<Longrightarrow> n < 16 ^ w \<Longrightarrow> fixed_hex w m < fixed_hex w n \<longleftrightarrow> m < n"
proof (induction w arbitrary: m n)
  case (Suc w)
  then have d: "m div 16 < 16 ^ w" "n div 16 < 16 ^ w"
    by (simp_all add: less_mult_imp_div_less mult.commute)
  have c: "[hex_char (m mod 16)] < [hex_char (n mod 16)] \<longleftrightarrow> m mod 16 < n mod 16"
    by (simp add: hex_char_less)
  show ?case
    unfolding digit_less [of m n]
    by (simp only: fixed_hex.simps append_less_same_length length_fixed_hex Suc.IH [OF d]
        fixed_hex_inj [OF d] c)
qed simp

text \<open>
  Four digits hold an instance id below \<open>65536\<close>; then the order of the strings is the
  order of the pairs.
\<close>

lemma format_cloid_less:
  assumes "unat i < 65536" "unat j < 65536"
  shows "format_cloid i c < format_cloid j d \<longleftrightarrow> i < j \<or> i = j \<and> c < d"
proof -
  have c: "unat c < 16 ^ 16" "unat d < 16 ^ 16"
    using unsigned_less [of c] unsigned_less [of d] by simp_all
  have i: "unat i < 16 ^ 4" "unat j < 16 ^ 4" using assms by simp_all
  have f: "fmt_hex 4 (unat i) = fixed_hex 4 (unat i)" "fmt_hex 4 (unat j) = fixed_hex 4 (unat j)"
      "fmt_hex 16 (unat c) = fixed_hex 16 (unat c)" "fmt_hex 16 (unat d) = fixed_hex 16 (unat d)"
    by (rule fmt_hex_fixed, fact, simp)+
  have "format_cloid i c < format_cloid j d \<longleftrightarrow>
      fixed_hex 4 (unat i) @ ''-'' @ fixed_hex 16 (unat c) <
      fixed_hex 4 (unat j) @ ''-'' @ fixed_hex 16 (unat d)"
    by (simp add: less_client_order_id_def format_cloid_def f PREFIX_def)
  also have "\<dots> \<longleftrightarrow> i < j \<or> i = j \<and> c < d"
    by (subst append_less_same_length)
      (simp_all add: fixed_hex_less [OF i] fixed_hex_less [OF c] fixed_hex_inj [OF i]
        word_less_nat_alt word_unat_eq_iff)
  finally show ?thesis .
qed

lemma length_format_cloid:
  assumes "unat i < 65536"
  shows "length (cloid_str (format_cloid i c)) = 24"
proof -
  have c: "unat c < 16 ^ 16" using unsigned_less [of c] by simp
  have i: "unat i < 16 ^ 4" using assms by simp
  have "fmt_hex 4 (unat i) = fixed_hex 4 (unat i)" "fmt_hex 16 (unat c) = fixed_hex 16 (unat c)"
    by (rule fmt_hex_fixed, fact, simp)+
  then show ?thesis by (simp add: format_cloid_def PREFIX_def)
qed

lemma length_hex_str: "n < 16 ^ w \<Longrightarrow> 0 < w \<Longrightarrow> length (hex_str n) \<le> w"
  using fmt_hex_fixed [of n w] length_fixed_hex [of w n]
  by (metis fmt_hex_def length_append le_add2)

lemma length_format_cloid_le: "length (cloid_str (format_cloid i c)) \<le> 28"
proof -
  have "unat c < 16 ^ 16" "unat i < 16 ^ 8"
    using unsigned_less [of c] unsigned_less [of i] by simp_all
  from this [THEN length_hex_str] show ?thesis by (simp add: format_cloid_def fmt_hex_def PREFIX_def)
qed

text \<open>An id is ASCII, so its bytes are valid UTF-8.\<close>

lemma format_cloid_utf8: "str_utf8 (cloid_str (format_cloid i c))"
proof (rule str_utf8_ascii, intro ballI)
  fix x
  assume "x \<in> set (cloid_str (format_cloid i c))"
  then have "x \<in> set ''cc-'' \<or> x \<in> set (fmt_hex 4 (unat i)) \<or> x \<in> set (fmt_hex 16 (unat c))"
    by (auto simp: format_cloid_def PREFIX_def)
  then show "(of_char x :: nat) < 128"
    using fmt_hex_char_props(3) by auto
qed

end
