(* ===== verification/Journal.thy ===== *)
theory Journal
  imports Cloid
begin

text \<open>
  The append-only order journal of \<open>crates/order-gateway/src/journal.rs\<close>: entries, their
  record format, the decoder of a whole file and the two writers. The locale
  \<open>journal_field\<close> is the contract of one field of a payload.

  The lengths in front of strings and payloads are written with \<open>as u8\<close> and \<open>as u16\<close>:
  they wrap, so an oversized entry is encoded, but not as one that decodes to itself.
\<close>

section \<open>Entries\<close>

datatype entry_tag =
  ET_Requested | ET_Acknowledged | ET_Filled | ET_Cancelled | ET_Rejected | ET_Expired

fun entry_tag_u8 :: "entry_tag \<Rightarrow> u8" where
  "entry_tag_u8 ET_Requested = 1"
| "entry_tag_u8 ET_Acknowledged = 2"
| "entry_tag_u8 ET_Filled = 3"
| "entry_tag_u8 ET_Cancelled = 4"
| "entry_tag_u8 ET_Rejected = 5"
| "entry_tag_u8 ET_Expired = 6"

definition entry_tag_try_from :: "u8 \<Rightarrow> u8 + entry_tag" where
  "entry_tag_try_from v =
     (if v = 1 then Inr ET_Requested else if v = 2 then Inr ET_Acknowledged
      else if v = 3 then Inr ET_Filled else if v = 4 then Inr ET_Cancelled
      else if v = 5 then Inr ET_Rejected else if v = 6 then Inr ET_Expired else Inl v)"

interpretation etag: wire_enum entry_tag_u8 entry_tag_try_from
proof
  show "entry_tag_try_from (entry_tag_u8 x) = Inr x" for x
    by (cases x) (simp_all add: entry_tag_try_from_def)
  show "entry_tag_try_from v = Inr x \<Longrightarrow> entry_tag_u8 x = v" for v x
    by (auto simp: entry_tag_try_from_def split: if_splits)
qed

datatype journal_entry =
    OrderRequested (je_timestamp_ns: i64) (je_cloid: client_order_id) order_request
  | OrderAcknowledged (je_timestamp_ns: i64) (je_cloid: client_order_id) u64
  | OrderFilled (je_timestamp_ns: i64) (je_cloid: client_order_id) i64 i64 bool
  | OrderCancelled (je_timestamp_ns: i64) (je_cloid: client_order_id)
  | OrderRejected (je_timestamp_ns: i64) (je_cloid: client_order_id) string
  | OrderExpired (je_timestamp_ns: i64) (je_cloid: client_order_id)

section \<open>Encoder\<close>

text \<open>The encoder is its growing buffer; every operation appends to it.\<close>

type_synonym jput = "u8 list \<Rightarrow> u8 list"

definition jput_u8 :: "u8 \<Rightarrow> jput" where
  "jput_u8 v buf = buf @ [v]"

definition jput_i64 :: "i64 \<Rightarrow> jput" where
  "jput_i64 v buf = buf @ le_bytes 8 (i64_word v)"

definition jput_u64 :: "u64 \<Rightarrow> jput" where
  "jput_u64 v buf = buf @ le_bytes 8 v"

definition jput_u16 :: "u16 \<Rightarrow> jput" where
  "jput_u16 v buf = buf @ le_bytes 2 v"

definition jput_bool :: "bool \<Rightarrow> jput" where
  "jput_bool v = jput_u8 (bool_u8 v)"

definition jput_str_u8 :: "string \<Rightarrow> jput" where
  "jput_str_u8 s buf = jput_u8 (word_of_nat (length s)) buf @ str_bytes s"

definition jput_str_u16 :: "string \<Rightarrow> jput" where
  "jput_str_u16 s buf = jput_u16 (word_of_nat (length s)) buf @ str_bytes s"

definition jput_limit :: "i64 option \<Rightarrow> jput" where
  "jput_limit limit buf =
     (case limit of None \<Rightarrow> jput_u8 0 buf | Some p \<Rightarrow> jput_i64 p (jput_u8 1 buf))"

definition jput_all :: "jput list \<Rightarrow> u8 list" where
  "jput_all ps = fold (\<lambda>p buf. p buf) ps []"

fun entry_payload :: "journal_entry \<Rightarrow> entry_tag \<times> u8 list" where
  "entry_payload (OrderRequested _ cloid request) =
     (ET_Requested, jput_all
       [jput_str_u8 (cloid_str cloid), jput_str_u8 (orq_symbol request),
        jput_u8 (order_side_u8 (orq_side request)),
        jput_u8 (order_type_u8 (orq_order_type request)),
        jput_u8 (time_in_force_u8 (orq_time_in_force request)),
        jput_i64 (orq_qty request), jput_limit (orq_limit_price request)])"
| "entry_payload (OrderAcknowledged _ cloid exchange_id) =
     (ET_Acknowledged, jput_all [jput_str_u8 (cloid_str cloid), jput_u64 exchange_id])"
| "entry_payload (OrderFilled _ cloid fill_qty fill_price is_final) =
     (ET_Filled, jput_all
       [jput_str_u8 (cloid_str cloid), jput_i64 fill_qty, jput_i64 fill_price, jput_bool is_final])"
| "entry_payload (OrderCancelled _ cloid) =
     (ET_Cancelled, jput_all [jput_str_u8 (cloid_str cloid)])"
| "entry_payload (OrderRejected _ cloid reason) =
     (ET_Rejected, jput_all [jput_str_u8 (cloid_str cloid), jput_str_u16 reason])"
| "entry_payload (OrderExpired _ cloid) =
     (ET_Expired, jput_all [jput_str_u8 (cloid_str cloid)])"

definition encode_entry :: "journal_entry \<Rightarrow> u8 list" where
  "encode_entry entry =
     (let (tag, payload) = entry_payload entry;
          payload_len = (word_of_nat (length payload) :: u16)
      in [entry_tag_u8 tag] @ le_bytes 8 (i64_word (je_timestamp_ns entry)) @
         le_bytes 2 payload_len @ payload)"

section \<open>Decoder\<close>

record jdecoder =
  jd_buf :: "u8 list"
  jd_pos :: nat

type_synonym 'a jget = "jdecoder \<Rightarrow> gateway_error + 'a \<times> jdecoder"

definition jd_need :: "nat \<Rightarrow> jdecoder \<Rightarrow> gateway_error + unit" where
  "jd_need n d =
     (if length (jd_buf d) - jd_pos d < n
      then Inl (GwBufferTooShort (jd_pos d + n) (length (jd_buf d))) else Inr ())"

definition jd_slice :: "nat \<Rightarrow> jdecoder \<Rightarrow> u8 list" where
  "jd_slice n d = take n (drop (jd_pos d) (jd_buf d))"

definition jd_advance :: "nat \<Rightarrow> jdecoder \<Rightarrow> jdecoder" where
  "jd_advance n d = d\<lparr>jd_pos := jd_pos d + n\<rparr>"

definition jget_then :: "'a jget \<Rightarrow> ('a \<Rightarrow> 'b jget) \<Rightarrow> 'b jget" where
  "jget_then g f d = and_then (g d) (\<lambda>(x, d'). f x d')"

definition jget_ret :: "'a \<Rightarrow> 'a jget" where
  "jget_ret x d = Inr (x, d)"

definition jget_u8 :: "u8 jget" where
  "jget_u8 d = and_then (jd_need 1 d) (\<lambda>_. Inr (jd_buf d ! jd_pos d, jd_advance 1 d))"

definition jget_i64 :: "i64 jget" where
  "jget_i64 d = and_then (jd_need 8 d) (\<lambda>_. Inr (I64 (le_val (jd_slice 8 d)), jd_advance 8 d))"

definition jget_u64 :: "u64 jget" where
  "jget_u64 d = and_then (jd_need 8 d) (\<lambda>_. Inr (le_val (jd_slice 8 d), jd_advance 8 d))"

definition jget_u16 :: "u16 jget" where
  "jget_u16 d = and_then (jd_need 2 d) (\<lambda>_. Inr (le_val (jd_slice 2 d), jd_advance 2 d))"

definition jget_bool :: "bool jget" where
  "jget_bool = jget_then jget_u8 (\<lambda>b. jget_ret (b \<noteq> 0))"

text \<open>The body the two string readers share, once the length is read.\<close>

definition jget_utf8 :: "nat \<Rightarrow> string jget" where
  "jget_utf8 len d =
     and_then (jd_need len d) (\<lambda>_.
       if utf8_valid (jd_slice len d) then Inr (bytes_str (jd_slice len d), jd_advance len d)
       else Inl (JournalCorrupt (jd_pos d) InvalidUtf8))"

definition jget_str_u8 :: "string jget" where
  "jget_str_u8 = jget_then jget_u8 (\<lambda>len. jget_utf8 (unat len))"

definition jget_str_u16 :: "string jget" where
  "jget_str_u16 = jget_then jget_u16 (\<lambda>len. jget_utf8 (unat len))"

definition jget_cloid :: "client_order_id jget" where
  "jget_cloid = jget_then jget_str_u8 (\<lambda>s. jget_ret (ClientOrderId s))"

text \<open>A byte that must be a variant, with the error text the code attaches.\<close>

definition jget_enum ::
  "(u8 \<Rightarrow> u8 + 'a) \<Rightarrow> nat \<Rightarrow> (u8 \<Rightarrow> corrupt_reason) \<Rightarrow> 'a jget" where
  "jget_enum try_from offset bad =
     jget_then jget_u8 (\<lambda>b d. and_then (map_err (\<lambda>v. JournalCorrupt offset (bad v)) (try_from b))
       (\<lambda>x. Inr (x, d)))"

definition jget_limit :: "i64 option jget" where
  "jget_limit = jget_then jget_u8 (\<lambda>b.
     if b \<noteq> 0 then jget_then jget_i64 (\<lambda>p. jget_ret (Some p)) else jget_ret None)"

text \<open>The payload of an entry; \<open>offset\<close> is where its record starts, for the error text.\<close>

fun decode_payload :: "entry_tag \<Rightarrow> nat \<Rightarrow> i64 \<Rightarrow> journal_entry jget" where
  "decode_payload ET_Requested offset ts =
     jget_then jget_cloid (\<lambda>cloid.
     jget_then jget_str_u8 (\<lambda>symbol.
     jget_then (jget_enum order_side_try_from offset BadSide) (\<lambda>side.
     jget_then (jget_enum order_type_try_from offset BadOrderType) (\<lambda>order_type.
     jget_then (jget_enum time_in_force_try_from offset BadTif) (\<lambda>tif.
     jget_then jget_i64 (\<lambda>qty.
     jget_then jget_limit (\<lambda>limit_price.
     jget_ret (OrderRequested ts cloid
       \<lparr>orq_symbol = symbol, orq_side = side, orq_order_type = order_type, orq_qty = qty,
        orq_limit_price = limit_price, orq_time_in_force = tif\<rparr>))))))))"
| "decode_payload ET_Acknowledged offset ts =
     jget_then jget_cloid (\<lambda>cloid. jget_then jget_u64 (\<lambda>exchange_id.
     jget_ret (OrderAcknowledged ts cloid exchange_id)))"
| "decode_payload ET_Filled offset ts =
     jget_then jget_cloid (\<lambda>cloid. jget_then jget_i64 (\<lambda>fill_qty.
     jget_then jget_i64 (\<lambda>fill_price. jget_then jget_bool (\<lambda>is_final.
     jget_ret (OrderFilled ts cloid fill_qty fill_price is_final)))))"
| "decode_payload ET_Cancelled offset ts =
     jget_then jget_cloid (\<lambda>cloid. jget_ret (OrderCancelled ts cloid))"
| "decode_payload ET_Rejected offset ts =
     jget_then jget_cloid (\<lambda>cloid. jget_then jget_str_u16 (\<lambda>reason.
     jget_ret (OrderRejected ts cloid reason)))"
| "decode_payload ET_Expired offset ts =
     jget_then jget_cloid (\<lambda>cloid. jget_ret (OrderExpired ts cloid))"

definition decode_one :: "u8 list \<Rightarrow> nat \<Rightarrow> gateway_error + journal_entry \<times> nat" where
  "decode_one buf offset =
     and_then (jget_u8 \<lparr>jd_buf = buf, jd_pos = offset\<rparr>) (\<lambda>(tag_byte, d1).
     and_then (jget_i64 d1) (\<lambda>(timestamp_ns, d2).
     and_then (jget_u16 d2) (\<lambda>(len, d3).
       let payload_len = unat len; payload_start = jd_pos d3 in
       and_then (map_err (\<lambda>_. JournalCorrupt offset (PayloadPastBuffer payload_len))
                   (jd_need payload_len d3)) (\<lambda>_.
       let payload_end = payload_start + payload_len;
           payload = take payload_len (drop payload_start buf) in
       and_then (map_err (\<lambda>v. JournalCorrupt offset (UnknownEntryTag v))
                   (entry_tag_try_from tag_byte)) (\<lambda>tag.
       and_then (decode_payload tag offset timestamp_ns \<lparr>jd_buf = payload, jd_pos = 0\<rparr>)
         (\<lambda>(entry, _). Inr (entry, payload_end)))))))"

lemma decode_one_advances:
  "decode_one buf pos = Inr (e, next) \<Longrightarrow> pos < next"
  by (auto simp: decode_one_def and_then_Inr_iff jget_u8_def jget_i64_def jget_u16_def
      jd_advance_def Let_def)

function decode_from :: "u8 list \<Rightarrow> nat \<Rightarrow> gateway_error + journal_entry list" where
  "decode_from buf pos =
     (if pos < length buf then
        and_then (decode_one buf pos) (\<lambda>(entry, next).
        and_then (decode_from buf next) (\<lambda>entries. Inr (entry # entries)))
      else Inr [])"
  by pat_completeness auto
termination
  by (relation "measure (\<lambda>(buf, pos). length buf - pos)")
    (auto dest: decode_one_advances)

declare decode_from.simps [simp del]

definition decode_all :: "u8 list \<Rightarrow> gateway_error + journal_entry list" where
  "decode_all buf = decode_from buf 0"

section \<open>Writers\<close>

text \<open>
  The file writer is the bytes that reached the file and those still in the \<open>BufWriter\<close>.
  What the operating system does with one \<open>write_all\<close> and \<open>flush\<close> is a parameter:
  everything reaches the file, or an error stops after some bytes and some more stay in
  the buffer.
\<close>

datatype journal_writer =
    JW_File (jw_disk: "u8 list") (jw_pending: "u8 list")
  | JW_Memory (jw_mem: "u8 list")

datatype io_outcome = IoDone | IoFailed io_error nat nat

record journal =
  j_writer :: journal_writer

definition journal_in_memory :: journal where
  "journal_in_memory = \<lparr>j_writer = JW_Memory []\<rparr>"

definition journal_append ::
  "io_outcome \<Rightarrow> journal_entry \<Rightarrow> journal \<Rightarrow> (gateway_error + unit) \<times> journal" where
  "journal_append io entry j =
     (let bytes = encode_entry entry in
      case j_writer j of
        JW_Memory buf \<Rightarrow> (Inr (), j\<lparr>j_writer := JW_Memory (buf @ bytes)\<rparr>)
      | JW_File disk pending \<Rightarrow>
          (case io of
             IoDone \<Rightarrow> (Inr (), j\<lparr>j_writer := JW_File (disk @ pending @ bytes) []\<rparr>)
           | IoFailed e n k \<Rightarrow>
               (Inl (Io e),
                j\<lparr>j_writer := JW_File (disk @ take n (pending @ bytes))
                    (take k (drop n (pending @ bytes)))\<rparr>)))"

text \<open>
  \<open>Journal::open\<close>: the file's bytes where it exists (or the error of reading it), then
  the result of opening it for appending.
\<close>

definition journal_open ::
  "(io_error + u8 list) option \<Rightarrow> io_error option \<Rightarrow> gateway_error + journal_entry list \<times> journal" where
  "journal_open file open_error =
     and_then (case file of
         None \<Rightarrow> Inr ([], [])
       | Some r \<Rightarrow> and_then (map_err Io r) (\<lambda>bytes.
           and_then (decode_all bytes) (\<lambda>entries. Inr (entries, bytes))))
       (\<lambda>(recovered, bytes).
          case open_error of
            Some e \<Rightarrow> Inl (Io e)
          | None \<Rightarrow> Inr (recovered, \<lparr>j_writer = JW_File bytes []\<rparr>))"

text \<open>\<open>read_all_in_memory\<close>, which panics on a file journal.\<close>

definition read_all_in_memory :: "journal \<Rightarrow> (gateway_error + journal_entry list) option" where
  "read_all_in_memory j =
     (case j_writer j of JW_Memory buf \<Rightarrow> Some (decode_all buf) | JW_File _ _ \<Rightarrow> None)"

end
