(* ===== verification/Journal_Roundtrip.thy ===== *)
theory Journal_Roundtrip
  imports Journal
begin

text \<open>
  The record format of the journal read back: field by field through the locale
  \<open>journal_field\<close>, entry by entry, and a whole journal, intact or torn.
\<close>

section \<open>Fields\<close>

definition jreads :: "'a jget \<Rightarrow> u8 list \<Rightarrow> 'a \<Rightarrow> bool" where
  "jreads g bs v \<longleftrightarrow>
     (\<forall>pre rest. g \<lparr>jd_buf = pre @ bs @ rest, jd_pos = length pre\<rparr> =
        Inr (v, \<lparr>jd_buf = pre @ bs @ rest, jd_pos = length pre + length bs\<rparr>))"

definition jshort :: "'a jget \<Rightarrow> u8 list \<Rightarrow> bool" where
  "jshort g bs \<longleftrightarrow>
     (\<forall>pre k. k < length bs \<longrightarrow>
        (\<exists>n h. g \<lparr>jd_buf = pre @ take k bs, jd_pos = length pre\<rparr> = Inl (GwBufferTooShort n h)))"

named_theorems jreads_intros "what the reader of a field returns on its bytes"

lemma jreads_then:
  "jreads g bs v \<Longrightarrow> jreads (f v) cs w \<Longrightarrow> jreads (jget_then g f) (bs @ cs) w"
  unfolding jreads_def jget_then_def
proof (intro allI)
  fix pre rest
  assume g: "\<forall>pre rest. g \<lparr>jd_buf = pre @ bs @ rest, jd_pos = length pre\<rparr> =
      Inr (v, \<lparr>jd_buf = pre @ bs @ rest, jd_pos = length pre + length bs\<rparr>)"
    and f: "\<forall>pre rest. f v \<lparr>jd_buf = pre @ cs @ rest, jd_pos = length pre\<rparr> =
      Inr (w, \<lparr>jd_buf = pre @ cs @ rest, jd_pos = length pre + length cs\<rparr>)"
  show "and_then (g \<lparr>jd_buf = pre @ (bs @ cs) @ rest, jd_pos = length pre\<rparr>) (\<lambda>(x, d'). f x d') =
      Inr (w, \<lparr>jd_buf = pre @ (bs @ cs) @ rest, jd_pos = length pre + length (bs @ cs)\<rparr>)"
    using g [rule_format, of pre "cs @ rest"] f [rule_format, of "pre @ bs" rest]
    by (simp add: add.assoc)
qed

lemma jreads_ret: "v = w \<Longrightarrow> jreads (jget_ret v) [] w"
  by (simp add: jreads_def jget_ret_def)

lemma jreads_then_ret: "jreads g bs v \<Longrightarrow> f v = jget_ret w \<Longrightarrow> jreads (jget_then g f) bs w"
  using jreads_then [of g bs v f "[]" w] jreads_ret [of w w] by simp

lemma jreads_slice: "length bs = n \<Longrightarrow> jd_slice n \<lparr>jd_buf = pre @ bs @ rest, jd_pos = length pre\<rparr> = bs"
  by (simp add: jd_slice_def)

lemma jreads_u8: "jreads jget_u8 [v] v"
  by (simp add: jreads_def jget_u8_def jd_need_def jd_advance_def nth_append)

lemma jreads_enum:
  "try_from b = Inr x \<Longrightarrow> jreads (jget_enum try_from off bad) [b] x"
  unfolding jget_enum_def
  by (rule jreads_then_ret [OF jreads_u8]) (simp add: fun_eq_iff jget_ret_def)

lemma jreads_utf8:
  "str_utf8 s \<Longrightarrow> length s = n \<Longrightarrow> jreads (jget_utf8 n) (str_bytes s) s"
  by (simp add: jreads_def jget_utf8_def jd_need_def jd_advance_def jd_slice_def str_utf8_def)

lemma jshort_then: "jshort g bs \<Longrightarrow> jreads g bs v \<Longrightarrow> jshort (f v) cs \<Longrightarrow> jshort (jget_then g f) (bs @ cs)"
  unfolding jshort_def
proof (intro allI impI)
  fix pre k
  assume g: "\<forall>pre k. k < length bs \<longrightarrow> (\<exists>n h. g \<lparr>jd_buf = pre @ take k bs, jd_pos = length pre\<rparr> =
      Inl (GwBufferTooShort n h))"
    and f: "\<forall>pre k. k < length cs \<longrightarrow> (\<exists>n h. f v \<lparr>jd_buf = pre @ take k cs, jd_pos = length pre\<rparr> =
      Inl (GwBufferTooShort n h))"
    and r: "jreads g bs v" and k: "k < length (bs @ cs)"
  show "\<exists>n h. jget_then g f \<lparr>jd_buf = pre @ take k (bs @ cs), jd_pos = length pre\<rparr> =
      Inl (GwBufferTooShort n h)"
  proof (cases "k < length bs")
    case True
    with g [rule_format, of k pre] show ?thesis by (auto simp: jget_then_def)
  next
    case False
    then have "k - length bs < length cs" using k by simp
    from f [rule_format, OF this, of "pre @ bs"] False r [unfolded jreads_def, rule_format, of pre]
    show ?thesis by (auto simp: jget_then_def)
  qed
qed

lemma jshort_first: "jshort g bs \<Longrightarrow> jshort (jget_then g f) bs"
  unfolding jshort_def jget_then_def by (metis and_then_simps(1))

lemma jshort_utf8: "length s = n \<Longrightarrow> jshort (jget_utf8 n) (str_bytes s)"
  by (simp add: jshort_def jget_utf8_def jd_need_def)

lemma jshort_u8: "jshort jget_u8 [v]"
  by (simp add: jshort_def jget_u8_def jd_need_def)

text \<open>
  The contract of a field: the writer appends the field's bytes, the reader returns the
  value from them and wants more on any proper prefix.
\<close>

locale journal_field =
  fixes put :: "'a \<Rightarrow> jput"
    and get :: "'a jget"
    and bytes :: "'a \<Rightarrow> u8 list"
    and ok :: "'a \<Rightarrow> bool"
  assumes put_appends: "put v buf = buf @ bytes v"
    and get_reads: "ok v \<Longrightarrow> jreads get (bytes v) v"
    and get_short: "ok v \<Longrightarrow> jshort get (bytes v)"
begin

lemma put_get:
  "ok v \<Longrightarrow> get \<lparr>jd_buf = put v buf @ rest, jd_pos = length buf\<rparr> =
     Inr (v, \<lparr>jd_buf = put v buf @ rest, jd_pos = length (put v buf)\<rparr>)"
  using get_reads by (simp add: put_appends jreads_def)

lemma bytes_unambiguous:
  assumes "ok v" "ok w" "bytes v @ xs = bytes w @ ys"
  shows "v = w \<and> xs = ys"
proof -
  have "get \<lparr>jd_buf = bytes v @ xs, jd_pos = 0\<rparr> =
      Inr (v, \<lparr>jd_buf = bytes v @ xs, jd_pos = length (bytes v)\<rparr>)"
    using get_reads [OF assms(1)] unfolding jreads_def by (metis append_Nil list.size(3) add_0)
  moreover have "get \<lparr>jd_buf = bytes w @ ys, jd_pos = 0\<rparr> =
      Inr (w, \<lparr>jd_buf = bytes w @ ys, jd_pos = length (bytes w)\<rparr>)"
    using get_reads [OF assms(2)] unfolding jreads_def by (metis append_Nil list.size(3) add_0)
  ultimately show ?thesis using assms(3) by auto
qed

end

lemma le_len_u16: "LENGTH(16) = 8 * 2" "LENGTH(64) = 8 * 8" by simp_all

interpretation ju8: journal_field jput_u8 jget_u8 "\<lambda>v. [v]" "\<lambda>_. True"
  by unfold_locales (simp_all add: jput_u8_def jreads_u8 jshort_u8)

interpretation ji64: journal_field jput_i64 jget_i64 "\<lambda>v. le_bytes 8 (i64_word v)" "\<lambda>_. True"
  by unfold_locales
    (simp_all add: jput_i64_def jreads_def jshort_def jget_i64_def jd_need_def jd_slice_def
      jd_advance_def)

interpretation ju64: journal_field jput_u64 jget_u64 "\<lambda>v. le_bytes 8 v" "\<lambda>_. True"
  by unfold_locales
    (simp_all add: jput_u64_def jreads_def jshort_def jget_u64_def jd_need_def jd_slice_def
      jd_advance_def)

interpretation ju16: journal_field jput_u16 jget_u16 "\<lambda>v. le_bytes 2 v" "\<lambda>_. True"
  by unfold_locales
    (simp_all add: jput_u16_def jreads_def jshort_def jget_u16_def jd_need_def jd_slice_def
      jd_advance_def)

lemma jreads_bool: "jreads jget_bool [bool_u8 b] b"
  unfolding jget_bool_def by (rule jreads_then_ret [OF jreads_u8]) (simp add: bool_u8_def)

interpretation jbool: journal_field jput_bool jget_bool "\<lambda>b. [bool_u8 b]" "\<lambda>_. True"
proof
  show "jshort jget_bool [bool_u8 v]" for v
    by (simp add: jshort_def jget_bool_def jget_then_def jget_u8_def jd_need_def)
qed (simp_all add: jput_bool_def jput_u8_def jreads_bool)

definition str_u8_bytes :: "string \<Rightarrow> u8 list" where
  "str_u8_bytes s = [word_of_nat (length s)] @ str_bytes s"

definition str_u16_bytes :: "string \<Rightarrow> u8 list" where
  "str_u16_bytes s = le_bytes 2 (word_of_nat (length s) :: u16) @ str_bytes s"

interpretation jstr8: journal_field jput_str_u8 jget_str_u8 str_u8_bytes
  "\<lambda>s. str_utf8 s \<and> length s \<le> 255"
proof
  fix s
  show "jput_str_u8 s buf = buf @ str_u8_bytes s" for buf
    by (simp add: jput_str_u8_def jput_u8_def str_u8_bytes_def)
  assume ok: "str_utf8 s \<and> length s \<le> 255"
  then have len: "unat (word_of_nat (length s) :: u8) = length s"
    by (simp add: unat_of_nat)
  show "jreads jget_str_u8 (str_u8_bytes s) s"
    unfolding jget_str_u8_def str_u8_bytes_def
    by (rule jreads_then [OF jreads_u8]) (simp add: len jreads_utf8 ok)
  show "jshort jget_str_u8 (str_u8_bytes s)"
    unfolding jget_str_u8_def str_u8_bytes_def
    by (rule jshort_then [OF jshort_u8 jreads_u8]) (simp add: len jshort_utf8)
qed

interpretation jstr16: journal_field jput_str_u16 jget_str_u16 str_u16_bytes
  "\<lambda>s. str_utf8 s \<and> length s \<le> 65535"
proof
  fix s
  show "jput_str_u16 s buf = buf @ str_u16_bytes s" for buf
    by (simp add: jput_str_u16_def jput_u16_def str_u16_bytes_def)
  assume ok: "str_utf8 s \<and> length s \<le> 65535"
  then have len: "unat (word_of_nat (length s) :: u16) = length s"
    by (simp add: unat_of_nat)
  show "jreads jget_str_u16 (str_u16_bytes s) s"
    unfolding jget_str_u16_def str_u16_bytes_def
    by (rule jreads_then [OF ju16.get_reads [OF TrueI]]) (simp add: len jreads_utf8 ok)
  show "jshort jget_str_u16 (str_u16_bytes s)"
    unfolding jget_str_u16_def str_u16_bytes_def
    by (rule jshort_then [OF ju16.get_short [OF TrueI] ju16.get_reads [OF TrueI]])
      (simp add: len jshort_utf8)
qed

definition limit_bytes :: "i64 option \<Rightarrow> u8 list" where
  "limit_bytes l = (case l of None \<Rightarrow> [0] | Some p \<Rightarrow> [1] @ le_bytes 8 (i64_word p))"

lemma jreads_limit: "jreads jget_limit (limit_bytes l) l"
proof (cases l)
  case None
  then show ?thesis
    unfolding jget_limit_def limit_bytes_def by (simp add: jreads_then_ret [OF jreads_u8])
next
  case (Some p)
  have "jreads jget_limit ([1] @ le_bytes 8 (i64_word p)) (Some p)"
    unfolding jget_limit_def
    by (rule jreads_then [OF jreads_u8])
      (simp, rule jreads_then_ret [OF ji64.get_reads [OF TrueI]], simp)
  with Some show ?thesis by (simp add: limit_bytes_def)
qed

interpretation jlimit: journal_field jput_limit jget_limit limit_bytes "\<lambda>_. True"
proof
  show "jput_limit l buf = buf @ limit_bytes l" for l buf
    by (simp add: jput_limit_def limit_bytes_def jput_u8_def jput_i64_def split: option.splits)
  show "jshort jget_limit (limit_bytes l)" for l
  proof (cases l)
    case None
    then show ?thesis
      by (simp add: jshort_def jget_limit_def jget_then_def jget_u8_def jd_need_def limit_bytes_def)
  next
    case (Some p)
    have "jshort (jget_then jget_i64 (\<lambda>p. jget_ret (Some p))) (le_bytes 8 (i64_word p))"
      by (rule jshort_first [OF ji64.get_short [OF TrueI]])
    then have "jshort jget_limit ([1] @ le_bytes 8 (i64_word p))"
      unfolding jget_limit_def by (intro jshort_then [OF jshort_u8 jreads_u8]) simp
    with Some show ?thesis by (simp add: limit_bytes_def)
  qed
qed (rule jreads_limit)

lemma jreads_cloid:
  "str_utf8 (cloid_str c) \<and> length (cloid_str c) \<le> 255 \<Longrightarrow>
   jreads jget_cloid (str_u8_bytes (cloid_str c)) c"
  unfolding jget_cloid_def by (rule jreads_then_ret [OF jstr8.get_reads]) simp_all

lemmas jput_appends = ju8.put_appends ji64.put_appends ju64.put_appends ju16.put_appends
  jbool.put_appends jstr8.put_appends jstr16.put_appends jlimit.put_appends

section \<open>Entries\<close>

text \<open>An entry whose lengths fit their prefixes and whose strings are UTF-8.\<close>

definition cloid_ok :: "client_order_id \<Rightarrow> bool" where
  "cloid_ok c \<longleftrightarrow> str_utf8 (cloid_str c) \<and> length (cloid_str c) \<le> 255"

fun entry_strings_ok :: "journal_entry \<Rightarrow> bool" where
  "entry_strings_ok (OrderRequested _ _ r) = (str_utf8 (orq_symbol r) \<and> length (orq_symbol r) \<le> 255)"
| "entry_strings_ok (OrderRejected _ _ reason) = (str_utf8 reason \<and> length reason \<le> 65535)"
| "entry_strings_ok _ = True"

definition entry_ok :: "journal_entry \<Rightarrow> bool" where
  "entry_ok e \<longleftrightarrow> cloid_ok (je_cloid e) \<and> entry_strings_ok e \<and> length (snd (entry_payload e)) \<le> 65535"

lemma jreads_payload:
  assumes "cloid_ok (je_cloid e)" "entry_strings_ok e"
  shows "jreads (decode_payload (fst (entry_payload e)) off (je_timestamp_ns e)) (snd (entry_payload e)) e"
proof (cases e)
  case (OrderRequested t c r)
  let ?bs = "str_u8_bytes (cloid_str c) @ str_u8_bytes (orq_symbol r) @
      [order_side_u8 (orq_side r)] @ [order_type_u8 (orq_order_type r)] @
      [time_in_force_u8 (orq_time_in_force r)] @ le_bytes 8 (i64_word (orq_qty r)) @
      limit_bytes (orq_limit_price r)"
  have c: "jreads jget_cloid (str_u8_bytes (cloid_str c)) c"
    using assms OrderRequested by (simp add: cloid_ok_def jreads_cloid)
  have s: "jreads jget_str_u8 (str_u8_bytes (orq_symbol r)) (orq_symbol r)"
    using assms OrderRequested by (simp add: jstr8.get_reads)
  have en: "jreads (jget_enum order_side_try_from off BadSide) [order_side_u8 (orq_side r)] (orq_side r)"
      "jreads (jget_enum order_type_try_from off BadOrderType)
        [order_type_u8 (orq_order_type r)] (orq_order_type r)"
      "jreads (jget_enum time_in_force_try_from off BadTif)
        [time_in_force_u8 (orq_time_in_force r)] (orq_time_in_force r)"
    by (simp_all add: jreads_enum)
  have "jreads (decode_payload ET_Requested off t) ?bs e"
    unfolding decode_payload.simps
    by (rule jreads_then [OF c], rule jreads_then [OF s],
        rule jreads_then [OF en(1)],
        rule jreads_then [OF en(2)],
        rule jreads_then [OF en(3)],
        rule jreads_then [OF ji64.get_reads [OF TrueI]],
        rule jreads_then_ret [OF jreads_limit])
      (cases r, simp add: OrderRequested)
  then show ?thesis
    using OrderRequested by (simp add: jput_all_def jput_appends)
next
  case (OrderAcknowledged t c x)
  then show ?thesis
    using assms
    by (simp add: jput_all_def jput_appends cloid_ok_def jreads_then [OF jreads_cloid]
        jreads_then_ret [OF ju64.get_reads])
next
  case (OrderFilled t c q p f)
  then show ?thesis
    using assms
    by (simp add: jput_all_def jput_appends cloid_ok_def jreads_then [OF jreads_cloid]
        jreads_then [OF ji64.get_reads] jreads_then_ret [OF jreads_bool])
next
  case (OrderCancelled t c)
  then show ?thesis
    using assms by (simp add: jput_all_def jput_appends cloid_ok_def jreads_then_ret [OF jreads_cloid])
next
  case (OrderRejected t c s)
  then show ?thesis
    using assms
    by (simp add: jput_all_def jput_appends cloid_ok_def jreads_then [OF jreads_cloid]
        jreads_then_ret [OF jstr16.get_reads])
next
  case (OrderExpired t c)
  then show ?thesis
    using assms by (simp add: jput_all_def jput_appends cloid_ok_def jreads_then_ret [OF jreads_cloid])
qed

lemma encode_entry_length: "length (encode_entry e) = 11 + length (snd (entry_payload e))"
  by (simp add: encode_entry_def case_prod_beta Let_def)

lemma entry_tag_payload: "entry_payload e = (fst (entry_payload e), snd (entry_payload e))"
  by simp

text \<open>The fixed part of a record, in front of anything.\<close>

lemma record_head:
  fixes tag :: entry_tag and ts :: i64 and n :: u16
  defines "h \<equiv> [entry_tag_u8 tag] @ le_bytes 8 (i64_word ts) @ le_bytes 2 n"
  shows "jget_u8 \<lparr>jd_buf = pre @ h @ rest, jd_pos = length pre\<rparr> =
      Inr (entry_tag_u8 tag, \<lparr>jd_buf = pre @ h @ rest, jd_pos = length pre + 1\<rparr>)"
    and "jget_i64 \<lparr>jd_buf = pre @ h @ rest, jd_pos = length pre + 1\<rparr> =
      Inr (ts, \<lparr>jd_buf = pre @ h @ rest, jd_pos = length pre + 9\<rparr>)"
    and "jget_u16 \<lparr>jd_buf = pre @ h @ rest, jd_pos = length pre + 9\<rparr> =
      Inr (n, \<lparr>jd_buf = pre @ h @ rest, jd_pos = length pre + 11\<rparr>)"
proof -
  show "jget_u8 \<lparr>jd_buf = pre @ h @ rest, jd_pos = length pre\<rparr> =
      Inr (entry_tag_u8 tag, \<lparr>jd_buf = pre @ h @ rest, jd_pos = length pre + 1\<rparr>)"
    using jreads_u8 [of "entry_tag_u8 tag"] by (simp add: jreads_def h_def)
  show "jget_i64 \<lparr>jd_buf = pre @ h @ rest, jd_pos = length pre + 1\<rparr> =
      Inr (ts, \<lparr>jd_buf = pre @ h @ rest, jd_pos = length pre + 9\<rparr>)"
    using ji64.get_reads [OF TrueI, of ts, unfolded jreads_def, rule_format,
        of "pre @ [entry_tag_u8 tag]" "le_bytes 2 n @ rest"]
    by (simp add: h_def)
  show "jget_u16 \<lparr>jd_buf = pre @ h @ rest, jd_pos = length pre + 9\<rparr> =
      Inr (n, \<lparr>jd_buf = pre @ h @ rest, jd_pos = length pre + 11\<rparr>)"
    using ju16.get_reads [OF TrueI, of n, unfolded jreads_def, rule_format,
        of "pre @ [entry_tag_u8 tag] @ le_bytes 8 (i64_word ts)" rest]
    by (simp add: h_def)
qed

theorem decode_one_entry:
  assumes ok: "entry_ok e"
  shows "decode_one (pre @ encode_entry e @ rest) (length pre) =
    Inr (e, length pre + length (encode_entry e))"
proof -
  let ?p = "snd (entry_payload e)" and ?t = "fst (entry_payload e)"
  let ?h = "[entry_tag_u8 ?t] @ le_bytes 8 (i64_word (je_timestamp_ns e)) @
      le_bytes 2 (word_of_nat (length ?p) :: u16)"
  have enc: "encode_entry e = ?h @ ?p"
    by (simp add: encode_entry_def case_prod_beta Let_def)
  have len: "unat (word_of_nat (length ?p) :: u16) = length ?p"
    using ok by (simp add: entry_ok_def unat_of_nat)
  have pay: "decode_payload ?t off (je_timestamp_ns e) \<lparr>jd_buf = ?p, jd_pos = 0\<rparr> =
      Inr (e, \<lparr>jd_buf = ?p, jd_pos = length ?p\<rparr>)" for off
    using jreads_payload [of e off, unfolded jreads_def, rule_format, of "[]" "[]"] ok
    by (simp add: entry_ok_def)
  show ?thesis
    unfolding enc decode_one_def append_assoc
    using record_head [of pre ?t "je_timestamp_ns e" "word_of_nat (length ?p)" "?p @ rest"]
    by (simp add: len jd_need_def Let_def pay)
qed

section \<open>Whole journals\<close>

lemma decode_from_entries:
  assumes "\<forall>e \<in> set es. entry_ok e"
  shows "decode_from (pre @ concat (map encode_entry es) @ rest) (length pre) =
    and_then (decode_from (pre @ concat (map encode_entry es) @ rest)
        (length pre + length (concat (map encode_entry es)))) (\<lambda>r. Inr (es @ r))"
  using assms
proof (induction es arbitrary: pre)
  case Nil
  then show ?case by (cases "decode_from (pre @ rest) (length pre)") simp_all
next
  case (Cons e es)
  let ?buf = "pre @ concat (map encode_entry (e # es)) @ rest"
  have one: "decode_one ?buf (length pre) = Inr (e, length pre + length (encode_entry e))"
    using decode_one_entry [of e pre "concat (map encode_entry es) @ rest"] Cons.prems by simp
  have "decode_from ?buf (length pre) = and_then (decode_from ?buf (length (pre @ encode_entry e)))
      (\<lambda>r. Inr (e # r))"
    using encode_entry_length [of e] one by (subst decode_from.simps) simp
  also have "\<dots> = and_then (and_then (decode_from ?buf (length pre +
      length (concat (map encode_entry (e # es))))) (\<lambda>r. Inr (es @ r))) (\<lambda>r. Inr (e # r))"
    using Cons.IH [of "pre @ encode_entry e"] Cons.prems by (simp add: add.assoc)
  also have "\<dots> = and_then (decode_from ?buf (length pre +
      length (concat (map encode_entry (e # es))))) (\<lambda>r. Inr ((e # es) @ r))"
    by (simp add: and_then_def split: sum.splits)
  finally show ?case .
qed

lemma decode_from_end: "decode_from buf (length buf) = Inr []"
  by (simp add: decode_from.simps)

lemma decode_all_entries:
  assumes "\<forall>e \<in> set es. entry_ok e"
  shows "decode_all (concat (map encode_entry es)) = Inr es"
  using decode_from_entries [OF assms, of "[]" "[]"] decode_from_end
  by (simp add: decode_all_def)

text \<open>A record cut short is an error, wherever the cut is.\<close>

lemma decode_one_torn:
  assumes "k < length (encode_entry e)" "length (snd (entry_payload e)) \<le> 65535"
  shows "\<exists>err. decode_one (pre @ take k (encode_entry e)) (length pre) = Inl err"
proof -
  let ?p = "snd (entry_payload e)" and ?t = "fst (entry_payload e)"
  let ?n = "word_of_nat (length ?p) :: u16"
  let ?h = "[entry_tag_u8 ?t] @ le_bytes 8 (i64_word (je_timestamp_ns e)) @ le_bytes 2 ?n"
  have enc: "encode_entry e = ?h @ ?p"
    by (simp add: encode_entry_def case_prod_beta Let_def)
  have len: "unat ?n = length ?p"
    using assms(2) by (simp add: unat_of_nat)
  show ?thesis
  proof (cases "k < 11")
    case True
    let ?g = "jget_then jget_u8 (\<lambda>b. jget_then jget_i64 (\<lambda>t. jget_then jget_u16 (\<lambda>n. jget_ret (b, t, n))))"
    have "jshort ?g ?h"
      by (intro jshort_then [OF jshort_u8 jreads_u8]
          jshort_then [OF ji64.get_short ji64.get_reads] jshort_first [OF ju16.get_short] TrueI)
    moreover have "take k (encode_entry e) = take k ?h"
      unfolding enc by (subst take_append) (use True in simp)
    ultimately obtain n h where
      "?g \<lparr>jd_buf = pre @ take k (encode_entry e), jd_pos = length pre\<rparr> = Inl (GwBufferTooShort n h)"
      using True unfolding jshort_def by fastforce
    then show ?thesis
      unfolding jget_then_def decode_one_def jget_ret_def
      by (auto simp: and_then_def split: sum.splits)
  next
    case False
    then have t: "take k (encode_entry e) = ?h @ take (k - 11) ?p"
      unfolding enc by (subst take_append) (use False in simp)
    have "k - 11 < length ?p" using assms(1) False by (simp add: encode_entry_length)
    then show ?thesis
      unfolding t decode_one_def
      using record_head [of pre ?t "je_timestamp_ns e" ?n "take (k - 11) ?p"]
      by (simp add: len jd_need_def Let_def)
  qed
qed

lemma decode_all_torn:
  assumes "\<forall>e \<in> set es. entry_ok e" "0 < k" "k < length (encode_entry e)"
    and "length (snd (entry_payload e)) \<le> 65535"
  shows "\<exists>err. decode_all (concat (map encode_entry es) @ take k (encode_entry e)) = Inl err"
proof -
  let ?buf = "concat (map encode_entry es) @ take k (encode_entry e)"
  obtain err where "decode_one ?buf (length (concat (map encode_entry es))) = Inl err"
    using decode_one_torn [OF assms(3,4)] by blast
  then have "decode_from ?buf (length (concat (map encode_entry es))) = Inl err"
    using assms(2,3) by (subst decode_from.simps) simp
  then show ?thesis
    using decode_from_entries [OF assms(1), of "[]" "take k (encode_entry e)"]
    by (simp add: decode_all_def)
qed

end
