(* ===== verification/Gateway.thy ===== *)
theory Gateway
  imports Journal_Roundtrip
begin

text \<open>
  \<open>OrderGateway\<close> of \<open>crates/order-gateway/src/gateway.rs\<close>: every public operation, the
  replay of a journal and \<open>open\<close>. An operation takes what the operating system does with
  its journal write and returns its result with the new gateway, so an I/O error shows
  which state it leaves behind.
\<close>

section \<open>State\<close>

record order_gateway =
  gw_instance_id :: u32
  gw_cloid_gen :: cloid_generator
  gw_journal :: journal
  gw_orders :: "(client_order_id, pending_order) hash_map"

type_synonym gw_result = "(gateway_error + unit) \<times> order_gateway"

definition gw_in_memory :: "u32 \<Rightarrow> order_gateway" where
  "gw_in_memory instance_id =
     \<lparr>gw_instance_id = instance_id, gw_cloid_gen = cg_new instance_id,
      gw_journal = journal_in_memory, gw_orders = []\<rparr>"

text \<open>The state of the gateway while its order entry is updated in place.\<close>

definition gw_set_order :: "client_order_id \<Rightarrow> pending_order \<Rightarrow> order_gateway \<Rightarrow> order_gateway" where
  "gw_set_order cloid order g = g\<lparr>gw_orders := AList.update cloid order (gw_orders g)\<rparr>"

definition gw_append :: "io_outcome \<Rightarrow> journal_entry \<Rightarrow> order_gateway \<Rightarrow> gw_result" where
  "gw_append io entry g =
     (let (r, j) = journal_append io entry (gw_journal g) in (r, g\<lparr>gw_journal := j\<rparr>))"

definition new_order :: "client_order_id \<Rightarrow> order_request \<Rightarrow> i64 \<Rightarrow> pending_order" where
  "new_order cloid request now_ns =
     \<lparr>po_cloid = cloid, po_request = request, po_status = OS_Pending, po_exchange_id = None,
      po_filled_qty = 0, po_submitted_ns = now_ns, po_last_updated_ns = now_ns\<rparr>"

section \<open>Operations\<close>

definition gw_enqueue ::
  "io_outcome \<Rightarrow> order_request \<Rightarrow> i64 \<Rightarrow> order_gateway \<Rightarrow>
   (gateway_error + client_order_id) \<times> order_gateway" where
  "gw_enqueue io request now_ns g =
     (let (cloid, gen) = cg_generate (gw_cloid_gen g);
          g1 = g\<lparr>gw_cloid_gen := gen\<rparr>
      in case gw_append io (OrderRequested now_ns cloid request) g1 of
           (Inl e, g2) \<Rightarrow> (Inl e, g2)
         | (Inr _, g2) \<Rightarrow> (Inr cloid, gw_set_order cloid (new_order cloid request now_ns) g2))"

definition require_non_terminal ::
  "client_order_id \<Rightarrow> order_status \<Rightarrow> order_gateway \<Rightarrow> gateway_error + unit" where
  "require_non_terminal cloid target g =
     (case map_of (gw_orders g) cloid of
        None \<Rightarrow> Inl (OrderNotFound (cloid_str cloid))
      | Some order \<Rightarrow>
          if os_is_terminal (po_status order)
          then Inl (InvalidTransition (cloid_str cloid) (po_status order) target) else Inr ())"

definition gw_on_ack ::
  "io_outcome \<Rightarrow> client_order_id \<Rightarrow> u64 \<Rightarrow> i64 \<Rightarrow> order_gateway \<Rightarrow> gw_result" where
  "gw_on_ack io cloid exchange_id now_ns g =
     (case map_of (gw_orders g) cloid of
        None \<Rightarrow> (Inl (OrderNotFound (cloid_str cloid)), g)
      | Some order \<Rightarrow>
          if po_status order = OS_New then (Inr (), g)
          else
            (case require_non_terminal cloid OS_New g of
               Inl e \<Rightarrow> (Inl e, g)
             | Inr _ \<Rightarrow>
                 gw_append io (OrderAcknowledged now_ns cloid exchange_id)
                   (gw_set_order cloid
                     (order\<lparr>po_exchange_id := Some exchange_id, po_status := OS_New,
                        po_last_updated_ns := now_ns\<rparr>) g)))"

definition gw_on_fill ::
  "io_outcome \<Rightarrow> client_order_id \<Rightarrow> i64 \<Rightarrow> i64 \<Rightarrow> i64 \<Rightarrow> order_gateway \<Rightarrow> gw_result" where
  "gw_on_fill io cloid fill_qty fill_price now_ns g =
     (case map_of (gw_orders g) cloid of
        None \<Rightarrow> (Inl (OrderNotFound (cloid_str cloid)), g)
      | Some order \<Rightarrow>
          if os_is_terminal (po_status order)
          then (Inl (InvalidTransition (cloid_str cloid) (po_status order) OS_PartiallyFilled), g)
          else
            let filled = po_filled_qty order + fill_qty;
                fully_filled = (orq_qty (po_request order) \<le> filled)
            in gw_append io (OrderFilled now_ns cloid fill_qty fill_price fully_filled)
                 (gw_set_order cloid
                   (order\<lparr>po_filled_qty := filled, po_last_updated_ns := now_ns,
                      po_status := (if fully_filled then OS_Filled else OS_PartiallyFilled)\<rparr>) g))"

definition gw_on_cancel ::
  "io_outcome \<Rightarrow> client_order_id \<Rightarrow> i64 \<Rightarrow> order_gateway \<Rightarrow> gw_result" where
  "gw_on_cancel io cloid now_ns g =
     (case map_of (gw_orders g) cloid of
        None \<Rightarrow> (Inl (OrderNotFound (cloid_str cloid)), g)
      | Some order \<Rightarrow>
          if po_status order = OS_Cancelled then (Inr (), g)
          else if os_is_terminal (po_status order)
          then (Inl (InvalidTransition (cloid_str cloid) (po_status order) OS_Cancelled), g)
          else gw_append io (OrderCancelled now_ns cloid)
            (gw_set_order cloid
              (order\<lparr>po_status := OS_Cancelled, po_last_updated_ns := now_ns\<rparr>) g))"

definition gw_on_reject ::
  "io_outcome \<Rightarrow> client_order_id \<Rightarrow> string \<Rightarrow> i64 \<Rightarrow> order_gateway \<Rightarrow> gw_result" where
  "gw_on_reject io cloid reason now_ns g =
     (case map_of (gw_orders g) cloid of
        None \<Rightarrow> (Inl (OrderNotFound (cloid_str cloid)), g)
      | Some order \<Rightarrow>
          if os_is_terminal (po_status order)
          then (Inl (InvalidTransition (cloid_str cloid) (po_status order) OS_Rejected), g)
          else gw_append io (OrderRejected now_ns cloid reason)
            (gw_set_order cloid
              (order\<lparr>po_status := OS_Rejected, po_last_updated_ns := now_ns\<rparr>) g))"

definition gw_on_expire ::
  "io_outcome \<Rightarrow> client_order_id \<Rightarrow> i64 \<Rightarrow> order_gateway \<Rightarrow> gw_result" where
  "gw_on_expire io cloid now_ns g =
     (case map_of (gw_orders g) cloid of
        None \<Rightarrow> (Inl (OrderNotFound (cloid_str cloid)), g)
      | Some order \<Rightarrow>
          if os_is_terminal (po_status order)
          then (Inl (InvalidTransition (cloid_str cloid) (po_status order) OS_Expired), g)
          else gw_append io (OrderExpired now_ns cloid)
            (gw_set_order cloid
              (order\<lparr>po_status := OS_Expired, po_last_updated_ns := now_ns\<rparr>) g))"

definition gw_get_order :: "client_order_id \<Rightarrow> order_gateway \<Rightarrow> pending_order option" where
  "gw_get_order cloid g = map_of (gw_orders g) cloid"

definition gw_non_terminal_orders :: "order_gateway \<Rightarrow> pending_order list" where
  "gw_non_terminal_orders g =
     filter (\<lambda>o'. \<not> os_is_terminal (po_status o')) (map snd (gw_orders g))"

definition gw_pending_count :: "order_gateway \<Rightarrow> nat" where
  "gw_pending_count g =
     length (filter (\<lambda>o'. \<not> os_is_terminal (po_status o')) (map snd (gw_orders g)))"

definition gw_order_count :: "order_gateway \<Rightarrow> nat" where
  "gw_order_count g = length (gw_orders g)"

section \<open>Replay\<close>

type_synonym replay_state = "u64 option \<times> (client_order_id, pending_order) hash_map"

text \<open>The update of a live order in place; others, and unknown ids, are left alone.\<close>

definition update_live ::
  "client_order_id \<Rightarrow> (pending_order \<Rightarrow> pending_order) \<Rightarrow>
   (client_order_id, pending_order) hash_map \<Rightarrow> (client_order_id, pending_order) hash_map" where
  "update_live cloid f orders =
     (case map_of orders cloid of
        None \<Rightarrow> orders
      | Some o' \<Rightarrow>
          if \<not> os_is_terminal (po_status o') then AList.update cloid (f o') orders else orders)"

fun replay_entry :: "journal_entry \<Rightarrow> replay_state \<Rightarrow> replay_state" where
  "replay_entry (OrderRequested ts cloid request) (mx, orders) =
     ((case parse_counter cloid of
         None \<Rightarrow> mx
       | Some ctr \<Rightarrow> Some (case mx of None \<Rightarrow> ctr | Some m \<Rightarrow> max m ctr)),
      AList.update cloid (new_order cloid request ts) orders)"
| "replay_entry (OrderAcknowledged ts cloid exchange_id) (mx, orders) =
     (mx, update_live cloid
        (\<lambda>o'. o'\<lparr>po_status := OS_New, po_exchange_id := Some exchange_id,
           po_last_updated_ns := ts\<rparr>) orders)"
| "replay_entry (OrderFilled ts cloid fill_qty _ is_final) (mx, orders) =
     (mx, update_live cloid
        (\<lambda>o'. o'\<lparr>po_filled_qty := po_filled_qty o' + fill_qty, po_last_updated_ns := ts,
           po_status := (if is_final then OS_Filled else OS_PartiallyFilled)\<rparr>) orders)"
| "replay_entry (OrderCancelled ts cloid) (mx, orders) =
     (mx, update_live cloid
        (\<lambda>o'. o'\<lparr>po_status := OS_Cancelled, po_last_updated_ns := ts\<rparr>) orders)"
| "replay_entry (OrderRejected ts cloid _) (mx, orders) =
     (mx, update_live cloid
        (\<lambda>o'. o'\<lparr>po_status := OS_Rejected, po_last_updated_ns := ts\<rparr>) orders)"
| "replay_entry (OrderExpired ts cloid) (mx, orders) =
     (mx, update_live cloid
        (\<lambda>o'. o'\<lparr>po_status := OS_Expired, po_last_updated_ns := ts\<rparr>) orders)"

definition gw_replay_journal :: "journal_entry list \<Rightarrow> order_gateway \<Rightarrow> order_gateway" where
  "gw_replay_journal entries g =
     (let (max_counter, orders) = fold replay_entry entries (None, gw_orders g);
          g' = g\<lparr>gw_orders := orders\<rparr>
      in case max_counter of
           None \<Rightarrow> g'
         | Some mx \<Rightarrow> g'\<lparr>gw_cloid_gen := cg_with_start_after (gw_instance_id g') mx\<rparr>)"

definition gw_open ::
  "u32 \<Rightarrow> (io_error + u8 list) option \<Rightarrow> io_error option \<Rightarrow> gateway_error + order_gateway" where
  "gw_open instance_id file open_error =
     and_then (journal_open file open_error) (\<lambda>(recovered, j). Inr
       (gw_replay_journal recovered
         \<lparr>gw_instance_id = instance_id, gw_cloid_gen = cg_new instance_id,
          gw_journal = j, gw_orders = []\<rparr>))"

section \<open>Runs\<close>

text \<open>Everything a caller can do with a gateway, and a run of calls.\<close>

datatype gw_call =
    CallEnqueue order_request i64
  | CallAck client_order_id u64 i64
  | CallFill client_order_id i64 i64 i64
  | CallCancel client_order_id i64
  | CallReject client_order_id string i64
  | CallExpire client_order_id i64

fun gw_do :: "io_outcome \<Rightarrow> gw_call \<Rightarrow> order_gateway \<Rightarrow> order_gateway" where
  "gw_do io (CallEnqueue r t) g = snd (gw_enqueue io r t g)"
| "gw_do io (CallAck c x t) g = snd (gw_on_ack io c x t g)"
| "gw_do io (CallFill c q p t) g = snd (gw_on_fill io c q p t g)"
| "gw_do io (CallCancel c t) g = snd (gw_on_cancel io c t g)"
| "gw_do io (CallReject c s t) g = snd (gw_on_reject io c s t g)"
| "gw_do io (CallExpire c t) g = snd (gw_on_expire io c t g)"

definition gw_run :: "gw_call list \<Rightarrow> order_gateway \<Rightarrow> order_gateway" where
  "gw_run calls g = fold (gw_do IoDone) calls g"

text \<open>A call whose strings fit the record format (and are UTF-8, as Rust strings are).\<close>

fun call_ok :: "gw_call \<Rightarrow> bool" where
  "call_ok (CallEnqueue r _) = (str_utf8 (orq_symbol r) \<and> length (orq_symbol r) \<le> 255)"
| "call_ok (CallReject _ s _) = (str_utf8 s \<and> length s \<le> 65000)"
| "call_ok _ = True"

text \<open>A gateway on an empty journal file.\<close>

definition gw_fresh :: "u32 \<Rightarrow> order_gateway" where
  "gw_fresh instance_id =
     \<lparr>gw_instance_id = instance_id, gw_cloid_gen = cg_new instance_id,
      gw_journal = \<lparr>j_writer = JW_File [] []\<rparr>, gw_orders = []\<rparr>"

end
