(* ===== verification/Gateway_Recovery.thy ===== *)
theory Gateway_Recovery
  imports Gateway
begin

text \<open>
  The write-ahead property of the gateway: after any run of calls whose journal writes
  succeed, opening a gateway on the journal file gives the state the run left. The
  invariant \<open>logged\<close> ties the file, the entries, the orders and the id generator together.
\<close>

section \<open>Sizes\<close>

lemma jput_all_simps [simp]:
  "jput_all ps = fold (\<lambda>p buf. p buf) ps []"
  by (simp add: jput_all_def)

lemma length_bytes [simp]:
  "length (str_u8_bytes s) = length s + 1" "length (str_u16_bytes s) = length s + 2"
  by (simp_all add: str_u8_bytes_def str_u16_bytes_def)

lemma length_limit_bytes: "length (limit_bytes l) \<le> 9"
  by (simp add: limit_bytes_def split: option.splits)

text \<open>An entry about an id of the generator, with short enough strings, is well sized.\<close>

fun entry_small :: "journal_entry \<Rightarrow> bool" where
  "entry_small (OrderRequested _ _ r) = (str_utf8 (orq_symbol r) \<and> length (orq_symbol r) \<le> 255)"
| "entry_small (OrderRejected _ _ s) = (str_utf8 s \<and> length s \<le> 65000)"
| "entry_small _ = True"

lemma entry_ok_small:
  assumes "je_cloid e = format_cloid i c" "entry_small e"
  shows "entry_ok e"
proof -
  have len: "length (cloid_str (format_cloid i c)) \<le> 28" by (rule length_format_cloid_le)
  then have "cloid_ok (je_cloid e)"
    using assms(1) by (simp add: cloid_ok_def format_cloid_utf8)
  moreover have "entry_strings_ok e" using assms(2) by (cases e) auto
  moreover have "length (snd (entry_payload e)) \<le> 65535"
    using assms len
  proof (cases e)
    case (OrderRequested t cl r)
    with assms len length_limit_bytes [of "orq_limit_price r"] show ?thesis
      by (simp add: jput_appends)
  qed (simp_all add: jput_appends)
  ultimately show ?thesis by (simp add: entry_ok_def)
qed

section \<open>The invariant\<close>

definition counter_after :: "u64 option \<Rightarrow> u64 \<Rightarrow> bool" where
  "counter_after mx ctr = (case mx of None \<Rightarrow> ctr = 0 | Some m \<Rightarrow> unat ctr = unat m + 1)"

definition own_ids :: "order_gateway \<Rightarrow> bool" where
  "own_ids g \<longleftrightarrow>
     (\<forall>c o'. map_of (gw_orders g) c = Some o' \<longrightarrow> (\<exists>k. c = format_cloid (gw_instance_id g) k))"

definition logged :: "journal_entry list \<Rightarrow> order_gateway \<Rightarrow> bool" where
  "logged es g \<longleftrightarrow>
     gw_journal g = \<lparr>j_writer = JW_File (concat (map encode_entry es)) []\<rparr> \<and>
     (\<forall>e \<in> set es. entry_ok e) \<and>
     (\<exists>mx. fold replay_entry es (None, []) = (mx, gw_orders g) \<and>
        counter_after mx (cg_counter (gw_cloid_gen g))) \<and>
     cg_instance_id (gw_cloid_gen g) = gw_instance_id g \<and> own_ids g"

lemma logged_fresh: "logged [] (gw_fresh i)"
  by (simp add: logged_def gw_fresh_def counter_after_def cg_new_def own_ids_def)

lemma append_file:
  "gw_journal g = \<lparr>j_writer = JW_File d []\<rparr> \<Longrightarrow>
   gw_append IoDone e g =
     (Inr (), g\<lparr>gw_journal := \<lparr>j_writer = JW_File (d @ encode_entry e) []\<rparr>\<rparr>)"
  by (simp add: gw_append_def journal_append_def Let_def)

text \<open>An order changed in place and the entry that says so.\<close>

lemma logged_change:
  assumes "logged es g" "map_of (gw_orders g) c = Some o1" "\<not> os_is_terminal (po_status o1)"
    and "je_cloid e = c" "entry_small e"
    and replay: "\<And>mx os. replay_entry e (mx, os) = (mx, update_live c f os)"
    and o2: "o2 = f o1"
  shows "\<exists>es'. logged es' (snd (gw_append IoDone e (gw_set_order c o2 g)))"
proof -
  have own: "own_ids g" using assms(1) by (simp add: logged_def)
  then obtain k where k: "c = format_cloid (gw_instance_id g) k"
    using assms(2) by (auto simp: own_ids_def)
  have "entry_ok e" using entry_ok_small assms(4,5) k by blast
  moreover have "own_ids (gw_set_order c o2 g)"
    using own k by (auto simp: own_ids_def gw_set_order_def)
  moreover have "replay_entry e (mx, gw_orders g) = (mx, AList.update c o2 (gw_orders g))" for mx
    using assms(2,3) by (simp add: replay update_live_def o2)
  ultimately have "logged (es @ [e]) (snd (gw_append IoDone e (gw_set_order c o2 g)))"
    using assms(1) by (auto simp: logged_def append_file gw_set_order_def own_ids_def)
  then show ?thesis by blast
qed

lemma logged_enqueue:
  assumes l: "logged es g" and "str_utf8 (orq_symbol r)" "length (orq_symbol r) \<le> 255"
    and ctr: "unat (cg_counter (gw_cloid_gen g)) + 1 < 2 ^ 64"
  shows "\<exists>e. logged (es @ [e]) (snd (gw_enqueue IoDone r t g))"
proof -
  let ?k = "cg_counter (gw_cloid_gen g)" and ?i = "gw_instance_id g"
  let ?c = "format_cloid ?i ?k"
  let ?e = "OrderRequested t ?c r"
  obtain mx where mx: "fold replay_entry es (None, []) = (mx, gw_orders g)" "counter_after mx ?k"
    using l by (auto simp: logged_def)
  have k1: "unat (?k + 1) = unat ?k + 1"
    using ctr by (simp add: unat_word_ariths)
  have "(case mx of None \<Rightarrow> ?k | Some m \<Rightarrow> max m ?k) = ?k"
    using mx(2) by (auto simp: counter_after_def max_def word_le_nat_alt split: option.splits)
  moreover have "entry_ok ?e"
    by (rule entry_ok_small) (use assms in simp_all)
  moreover have inst: "cg_instance_id (gw_cloid_gen g) = ?i" using l by (simp add: logged_def)
  ultimately have "logged (es @ [?e]) (snd (gw_enqueue IoDone r t g))"
    using l mx k1
    by (auto simp: logged_def gw_enqueue_def cg_generate_def Let_def gw_append_def
        journal_append_def gw_set_order_def counter_after_def own_ids_def split: option.splits)
  then show ?thesis by blast
qed

lemma counter_step:
  "cg_counter (gw_cloid_gen (gw_do io call g)) =
     (case call of CallEnqueue _ _ \<Rightarrow> cg_counter (gw_cloid_gen g) + 1
      | _ \<Rightarrow> cg_counter (gw_cloid_gen g))"
  by (cases call)
    (auto simp: gw_enqueue_def gw_on_ack_def gw_on_fill_def gw_on_cancel_def gw_on_reject_def
      gw_on_expire_def gw_append_def gw_set_order_def cg_generate_def require_non_terminal_def
      Let_def split: option.splits prod.splits sum.splits)

lemma counter_step_le:
  "unat (cg_counter (gw_cloid_gen (gw_do io call g))) \<le> unat (cg_counter (gw_cloid_gen g)) + 1"
  using unat_word_ariths(1) [of "cg_counter (gw_cloid_gen g)" 1]
  by (simp add: counter_step split: gw_call.splits)

text \<open>Every call keeps the invariant, with one more entry or with none.\<close>

lemma logged_step:
  assumes l: "logged es g" and ok: "call_ok call"
    and ctr: "unat (cg_counter (gw_cloid_gen g)) + 1 < 2 ^ 64"
  shows "\<exists>es'. logged es' (gw_do IoDone call g)"
proof (cases call)
  case (CallEnqueue r t)
  then show ?thesis using logged_enqueue [OF l _ _ ctr] ok by auto
next
  case (CallAck c x t)
  have ch: "map_of (gw_orders g) c = Some o1 \<Longrightarrow> \<not> os_is_terminal (po_status o1) \<Longrightarrow>
      \<exists>es'. logged es' (snd (gw_append IoDone (OrderAcknowledged t c x)
        (gw_set_order c (o1\<lparr>po_exchange_id := Some x, po_status := OS_New, po_last_updated_ns := t\<rparr>) g)))"
    (is "_ \<Longrightarrow> _ \<Longrightarrow> ?goal o1") for o1
  proof -
    define f :: "pending_order \<Rightarrow> pending_order" where
      "f = (\<lambda>o'. o'\<lparr>po_status := OS_New, po_exchange_id := Some x, po_last_updated_ns := t\<rparr>)"
    have o2: "o1\<lparr>po_exchange_id := Some x, po_status := OS_New, po_last_updated_ns := t\<rparr> = f o1"
      unfolding f_def by (cases o1) simp
    assume "map_of (gw_orders g) c = Some o1" "\<not> os_is_terminal (po_status o1)"
    then show "?goal o1"
      by (rule logged_change [OF l, where f = f]) (simp_all only: o2, simp_all add: f_def)
  qed
  show ?thesis
    using l ch CallAck by (auto simp: gw_on_ack_def require_non_terminal_def split: option.splits)
next
  case (CallFill c q p t)
  have ch: "map_of (gw_orders g) c = Some o1 \<Longrightarrow> \<not> os_is_terminal (po_status o1) \<Longrightarrow>
      \<exists>es'. logged es' (snd (gw_append IoDone (OrderFilled t c q p b)
        (gw_set_order c (o1\<lparr>po_filled_qty := po_filled_qty o1 + q, po_last_updated_ns := t,
           po_status := (if b then OS_Filled else OS_PartiallyFilled)\<rparr>) g)))" for o1 b
    by (rule logged_change [OF l, where f =
        "\<lambda>o'. o'\<lparr>po_filled_qty := po_filled_qty o' + q, po_last_updated_ns := t,
           po_status := (if b then OS_Filled else OS_PartiallyFilled)\<rparr>"]) (use ok CallFill in simp_all)
  show ?thesis
    using l ch CallFill by (auto simp: gw_on_fill_def Let_def split: option.splits)
next
  case (CallCancel c t)
  have ch: "map_of (gw_orders g) c = Some o1 \<Longrightarrow> \<not> os_is_terminal (po_status o1) \<Longrightarrow>
      \<exists>es'. logged es' (snd (gw_append IoDone (OrderCancelled t c)
        (gw_set_order c (o1\<lparr>po_status := OS_Cancelled, po_last_updated_ns := t\<rparr>) g)))" for o1
    by (rule logged_change [OF l, where f =
        "\<lambda>o'. o'\<lparr>po_status := OS_Cancelled, po_last_updated_ns := t\<rparr>"]) (use ok CallCancel in simp_all)
  show ?thesis
    using l ch CallCancel by (auto simp: gw_on_cancel_def split: option.splits)
next
  case (CallReject c s t)
  have ch: "map_of (gw_orders g) c = Some o1 \<Longrightarrow> \<not> os_is_terminal (po_status o1) \<Longrightarrow>
      \<exists>es'. logged es' (snd (gw_append IoDone (OrderRejected t c s)
        (gw_set_order c (o1\<lparr>po_status := OS_Rejected, po_last_updated_ns := t\<rparr>) g)))" for o1
    by (rule logged_change [OF l, where f =
        "\<lambda>o'. o'\<lparr>po_status := OS_Rejected, po_last_updated_ns := t\<rparr>"]) (use ok CallReject in simp_all)
  show ?thesis
    using l ch CallReject by (auto simp: gw_on_reject_def split: option.splits)
next
  case (CallExpire c t)
  have ch: "map_of (gw_orders g) c = Some o1 \<Longrightarrow> \<not> os_is_terminal (po_status o1) \<Longrightarrow>
      \<exists>es'. logged es' (snd (gw_append IoDone (OrderExpired t c)
        (gw_set_order c (o1\<lparr>po_status := OS_Expired, po_last_updated_ns := t\<rparr>) g)))" for o1
    by (rule logged_change [OF l, where f =
        "\<lambda>o'. o'\<lparr>po_status := OS_Expired, po_last_updated_ns := t\<rparr>"]) (use ok CallExpire in simp_all)
  show ?thesis
    using l ch CallExpire by (auto simp: gw_on_expire_def split: option.splits)
qed

lemma logged_run:
  assumes "logged es g" "\<forall>call \<in> set calls. call_ok call"
    and "unat (cg_counter (gw_cloid_gen g)) + length calls < 2 ^ 64"
  shows "\<exists>es'. logged es' (gw_run calls g)"
  using assms
proof (induction calls arbitrary: es g)
  case (Cons call calls)
  obtain es1 where l: "logged es1 (gw_do IoDone call g)"
    using logged_step [OF Cons.prems(1)] Cons.prems(2,3) by auto
  have "\<exists>es'. logged es' (gw_run calls (gw_do IoDone call g))"
    using Cons.prems(2,3) counter_step_le [of IoDone call g] by (intro Cons.IH [OF l]) auto
  then show ?case by (simp add: gw_run_def)
qed (auto simp: gw_run_def)

lemma instance_step [simp]: "gw_instance_id (gw_do io call g) = gw_instance_id g"
  by (cases call)
    (auto simp: gw_enqueue_def gw_on_ack_def gw_on_fill_def gw_on_cancel_def gw_on_reject_def
      gw_on_expire_def gw_append_def gw_set_order_def cg_generate_def require_non_terminal_def
      Let_def split: option.splits prod.splits sum.splits)

lemma instance_run [simp]: "gw_instance_id (gw_run calls g) = gw_instance_id g"
  unfolding gw_run_def by (induction calls arbitrary: g) simp_all

section \<open>Opening the file again\<close>

lemma saturating_succ: "unat c = unat m + 1 \<Longrightarrow> u64_saturating_add m 1 = c"
proof -
  assume c: "unat c = unat m + 1"
  have "unat c < 2 ^ 64" using unsigned_less [of c] by simp
  then have "min (2 ^ 64 - 1) (unat m + unat (1 :: u64)) = unat c"
    using c by simp
  then show ?thesis unfolding u64_saturating_add_def by simp
qed

lemma open_logged:
  assumes "logged es g"
  shows "gw_open (gw_instance_id g) (Some (Inr (jw_disk (j_writer (gw_journal g))))) None = Inr g"
proof -
  let ?d = "concat (map encode_entry es)"
  obtain mx where mx: "fold replay_entry es (None, []) = (mx, gw_orders g)"
      "counter_after mx (cg_counter (gw_cloid_gen g))"
    using assms by (auto simp: logged_def)
  have j: "gw_journal g = \<lparr>j_writer = JW_File ?d []\<rparr>" using assms by (simp add: logged_def)
  have dec: "decode_all ?d = Inr es"
    using assms by (intro decode_all_entries) (simp add: logged_def)
  have gen: "gw_cloid_gen g = (case mx of None \<Rightarrow> cg_new (gw_instance_id g)
      | Some m \<Rightarrow> cg_with_start_after (gw_instance_id g) m)"
    using mx(2) assms
    by (cases "gw_cloid_gen g")
      (auto simp: logged_def counter_after_def cg_new_def cg_with_start_after_def saturating_succ
        split: option.splits)
  have "gw_replay_journal es \<lparr>gw_instance_id = gw_instance_id g,
      gw_cloid_gen = cg_new (gw_instance_id g), gw_journal = gw_journal g, gw_orders = []\<rparr> = g"
    using mx(1) gen by (simp add: gw_replay_journal_def split: option.splits)
  then show ?thesis
    by (simp add: gw_open_def journal_open_def dec j)
qed

theorem open_after_run:
  assumes "\<forall>call \<in> set calls. call_ok call" "length calls < 2 ^ 64"
  shows "gw_open i (Some (Inr (jw_disk (j_writer (gw_journal (gw_run calls (gw_fresh i)))))))
     None = Inr (gw_run calls (gw_fresh i))"
proof -
  have "unat (cg_counter (gw_cloid_gen (gw_fresh i))) = 0"
    by (simp add: gw_fresh_def cg_new_def)
  then obtain es where "logged es (gw_run calls (gw_fresh i))"
    using logged_run [OF logged_fresh assms(1), of i] assms(2) by auto
  from open_logged [OF this] show ?thesis by (simp add: gw_fresh_def)
qed

end
