(* ===== verification/Gateway_Lifecycle.thy ===== *)
theory Gateway_Lifecycle
  imports Gateway_Recovery
begin

text \<open>
  The life of an order in the gateway, whatever the journal writes do: ids are issued once,
  a terminal order never changes again, quantities and status agree.
\<close>

lemmas gw_op_defs = gw_enqueue_def gw_on_ack_def gw_on_fill_def gw_on_cancel_def
  gw_on_reject_def gw_on_expire_def gw_append_def gw_set_order_def require_non_terminal_def
  cg_generate_def

text \<open>Calls with the outcome of their journal writes.\<close>

definition gw_run_io :: "(io_outcome \<times> gw_call) list \<Rightarrow> order_gateway \<Rightarrow> order_gateway" where
  "gw_run_io calls g = fold (\<lambda>(io, call). gw_do io call) calls g"

lemma gw_run_io_simps [simp]:
  "gw_run_io [] g = g"
  "gw_run_io ((io, call) # calls) g = gw_run_io calls (gw_do io call g)"
  by (simp_all add: gw_run_io_def)

section \<open>Issued ids\<close>

text \<open>Every tracked order has an id the generator has issued, and carries it.\<close>

definition issued :: "order_gateway \<Rightarrow> bool" where
  "issued g \<longleftrightarrow>
     cg_instance_id (gw_cloid_gen g) = gw_instance_id g \<and>
     (\<forall>c o'. map_of (gw_orders g) c = Some o' \<longrightarrow> po_cloid o' = c \<and>
        (\<exists>k < cg_counter (gw_cloid_gen g). c = format_cloid (gw_instance_id g) k))"

lemma issued_fresh: "issued (gw_fresh i)" "issued (gw_in_memory i)"
  by (simp_all add: issued_def gw_fresh_def gw_in_memory_def cg_new_def)

text \<open>The entry of one id before and after a call.\<close>

lemma gw_do_entry:
  "map_of (gw_orders (gw_do io call g)) c = map_of (gw_orders g) c \<or>
   (\<exists>o1 o2. map_of (gw_orders g) c = Some o1 \<and> \<not> os_is_terminal (po_status o1) \<and>
      map_of (gw_orders (gw_do io call g)) c = Some o2 \<and> po_cloid o2 = po_cloid o1 \<and>
      po_request o2 = po_request o1) \<or>
   (\<exists>r t. call = CallEnqueue r t \<and>
      c = format_cloid (cg_instance_id (gw_cloid_gen g)) (cg_counter (gw_cloid_gen g)) \<and>
      map_of (gw_orders (gw_do io call g)) c = Some (new_order c r t))"
  by (cases call)
    (auto simp: gw_op_defs Let_def split: option.splits prod.splits sum.splits if_splits)

lemma generator_instance_step:
  "cg_instance_id (gw_cloid_gen (gw_do io call g)) = cg_instance_id (gw_cloid_gen g)"
  by (cases call)
    (auto simp: gw_op_defs Let_def split: option.splits prod.splits sum.splits)

lemma u64_less_succ: "unat (k :: u64) + 1 < 2 ^ 64 \<Longrightarrow> j \<le> k \<longleftrightarrow> j < k + 1"
  by (simp add: word_less_nat_alt word_le_nat_alt unat_word_ariths) auto

lemma issued_step:
  assumes i: "issued g" and ctr: "unat (cg_counter (gw_cloid_gen g)) + 1 < 2 ^ 64"
  shows "issued (gw_do io call g)"
  unfolding issued_def
proof (intro conjI allI impI)
  show "cg_instance_id (gw_cloid_gen (gw_do io call g)) = gw_instance_id (gw_do io call g)"
    using i by (simp add: generator_instance_step issued_def)
  fix c o2
  assume o2: "map_of (gw_orders (gw_do io call g)) c = Some o2"
  let ?k = "cg_counter (gw_cloid_gen g)"
  have up: "j < cg_counter (gw_cloid_gen (gw_do io call g))" if "j < ?k" for j
    using that ctr u64_less_succ [OF ctr, of j]
    by (auto simp: counter_step split: gw_call.splits)
  consider o1 where "map_of (gw_orders g) c = Some o1" "po_cloid o2 = po_cloid o1"
    | r t where "call = CallEnqueue r t" "c = format_cloid (gw_instance_id g) ?k" "po_cloid o2 = c"
    using gw_do_entry [of io call g c] unfolding o2
  proof (elim disjE exE conjE)
    assume "Some o2 = map_of (gw_orders g) c"
    then show thesis using that(1) [of o2] by simp
  next
    fix o1 o3
    assume "map_of (gw_orders g) c = Some o1" "Some o2 = Some o3" "po_cloid o3 = po_cloid o1"
    then show thesis using that(1) [of o1] by simp
  next
    fix r t
    assume "call = CallEnqueue r t" "Some o2 = Some (new_order c r t)"
      "c = format_cloid (cg_instance_id (gw_cloid_gen g)) ?k"
    then show thesis using that(2) [of r t] i by (simp add: issued_def new_order_def)
  qed
  then have "po_cloid o2 = c \<and>
      (\<exists>k < cg_counter (gw_cloid_gen (gw_do io call g)). c = format_cloid (gw_instance_id g) k)"
  proof cases
    case 1
    with i up show ?thesis unfolding issued_def by metis
  next
    case 2
    then have "?k < cg_counter (gw_cloid_gen (gw_do io call g))"
      using u64_less_succ [OF ctr, of ?k] counter_step [of io call g] by simp
    with 2 show ?thesis by blast
  qed
  then show "po_cloid o2 = c"
    "\<exists>k < cg_counter (gw_cloid_gen (gw_do io call g)). c = format_cloid (gw_instance_id (gw_do io call g)) k"
    by simp_all
qed

lemma issued_run:
  assumes "issued g" "unat (cg_counter (gw_cloid_gen g)) + length calls < 2 ^ 64"
  shows "issued (gw_run_io calls g)"
  using assms
proof (induction calls arbitrary: g)
  case (Cons a calls)
  obtain io call where a: "a = (io, call)" by (cases a)
  have "issued (gw_do io call g)" using Cons.prems by (intro issued_step) auto
  moreover have "unat (cg_counter (gw_cloid_gen (gw_do io call g))) + length calls < 2 ^ 64"
    using Cons.prems(2) counter_step_le [of io call g] by simp
  ultimately show ?case using Cons.IH a by simp
qed simp

text \<open>An id that is about to be issued belongs to no tracked order.\<close>

lemma issued_next_unused:
  assumes "issued g"
  shows "map_of (gw_orders g)
    (format_cloid (cg_instance_id (gw_cloid_gen g)) (cg_counter (gw_cloid_gen g))) = None"
proof (rule ccontr)
  let ?k = "cg_counter (gw_cloid_gen g)"
  assume "\<not> ?thesis"
  then obtain o' where "map_of (gw_orders g)
      (format_cloid (cg_instance_id (gw_cloid_gen g)) ?k) = Some o'" by auto
  with assms obtain k where "k < ?k" "format_cloid (gw_instance_id g) ?k = format_cloid (gw_instance_id g) k"
    unfolding issued_def by metis
  then show False by (simp add: format_cloid_inj)
qed

section \<open>Terminal orders\<close>

lemma terminal_step:
  assumes "issued g" "map_of (gw_orders g) c = Some o1" "os_is_terminal (po_status o1)"
  shows "map_of (gw_orders (gw_do io call g)) c = Some o1"
  using gw_do_entry [of io call g c] issued_next_unused [OF assms(1)] assms(2,3) by auto

lemma terminal_run:
  assumes "issued g" "map_of (gw_orders g) c = Some o1" "os_is_terminal (po_status o1)"
    and "unat (cg_counter (gw_cloid_gen g)) + length calls < 2 ^ 64"
  shows "map_of (gw_orders (gw_run_io calls g)) c = Some o1"
  using assms
proof (induction calls arbitrary: g)
  case (Cons a calls)
  obtain io call where a: "a = (io, call)" by (cases a)
  have "issued (gw_do io call g)" using Cons.prems by (intro issued_step) auto
  moreover have "map_of (gw_orders (gw_do io call g)) c = Some o1"
    using Cons.prems terminal_step by blast
  moreover have "unat (cg_counter (gw_cloid_gen (gw_do io call g))) + length calls < 2 ^ 64"
    using Cons.prems(4) counter_step_le [of io call g] by simp
  ultimately show ?case using Cons.IH Cons.prems(3) a by simp
qed simp

section \<open>Quantities\<close>

text \<open>
  The status agrees with the filled quantity: \<open>Filled\<close> means at least the requested
  quantity, \<open>PartiallyFilled\<close> less, \<open>Pending\<close> nothing.
\<close>

definition order_consistent :: "pending_order \<Rightarrow> bool" where
  "order_consistent o' \<longleftrightarrow>
     (po_status o' = OS_Filled \<longrightarrow> orq_qty (po_request o') \<le> po_filled_qty o') \<and>
     (po_status o' = OS_PartiallyFilled \<longrightarrow> po_filled_qty o' < orq_qty (po_request o')) \<and>
     (po_status o' = OS_Pending \<longrightarrow> po_filled_qty o' = 0) \<and>
     po_status o' \<noteq> OS_Cancelling"

definition orders_consistent :: "order_gateway \<Rightarrow> bool" where
  "orders_consistent g \<longleftrightarrow> (\<forall>c o'. map_of (gw_orders g) c = Some o' \<longrightarrow> order_consistent o')"

lemma orders_consistent_step: "orders_consistent g \<Longrightarrow> orders_consistent (gw_do io call g)"
  by (cases call)
    (auto simp: gw_op_defs orders_consistent_def order_consistent_def new_order_def Let_def
      split: option.splits prod.splits sum.splits if_splits)

lemma orders_consistent_run: "orders_consistent g \<Longrightarrow> orders_consistent (gw_run_io calls g)"
proof (induction calls arbitrary: g)
  case (Cons a calls)
  then show ?case by (cases a) (simp add: orders_consistent_step)
qed simp

end
