(* ===== verification/Machine_Gateway.thy ===== *)
theory Machine_Gateway
  imports Machine Gateway_Lifecycle
begin

text \<open>
  The state machine on top of the gateway: the dispatch of actions that the header of
  \<open>crates/order-gateway/src/machine.rs\<close> prescribes, and a simulation between the two views
  of an order. If the exchange never fills more than was asked for, no dispatched action
  is refused and the two stay in step, whatever the order of the events.
\<close>

section \<open>Dispatch\<close>

fun dispatch_action ::
  "io_outcome \<Rightarrow> client_order_id \<Rightarrow> i64 \<Rightarrow> sm_action \<Rightarrow> order_gateway \<Rightarrow> gw_result" where
  "dispatch_action io c now (ApplyAck exchange_id) g = gw_on_ack io c exchange_id now g"
| "dispatch_action io c now (ApplyFill fill_qty fill_price) g =
     gw_on_fill io c fill_qty fill_price now g"
| "dispatch_action io c now ApplyCancel g = gw_on_cancel io c now g"
| "dispatch_action io c now (ApplyReject reason) g = gw_on_reject io c reason now g"
| "dispatch_action io c now ApplyExpire g = gw_on_expire io c now g"
| "dispatch_action io c now ScheduleStatusCheck g = (Inr (), g)"
| "dispatch_action io c now Ignored g = (Inr (), g)"

text \<open>Each action in turn, with \<open>?\<close> after each.\<close>

fun dispatch_all ::
  "io_outcome \<Rightarrow> client_order_id \<Rightarrow> i64 \<Rightarrow> sm_action list \<Rightarrow> order_gateway \<Rightarrow> gw_result" where
  "dispatch_all io c now [] g = (Inr (), g)"
| "dispatch_all io c now (a # as) g =
     (case dispatch_action io c now a g of
        (Inl e, g') \<Rightarrow> (Inl e, g')
      | (Inr _, g') \<Rightarrow> dispatch_all io c now as g')"

fun input_now :: "sm_input \<Rightarrow> i64" where
  "input_now (Acknowledged _ t) = t"
| "input_now (FillReceived _ _ _ t) = t"
| "input_now (CancelConfirmed t) = t"
| "input_now (InRejected _ t) = t"
| "input_now (InExpired t) = t"
| "input_now (StatusCheckResult _ t) = t"

text \<open>A sequence of events of one order, each processed and dispatched.\<close>

fun drive :: "client_order_id \<Rightarrow> sm_input list \<Rightarrow> order_sm \<Rightarrow> order_gateway \<Rightarrow>
    (gateway_error + unit) \<times> order_sm \<times> order_gateway" where
  "drive c [] sm g = (Inr (), sm, g)"
| "drive c (i # is) sm g =
     (let (as, sm') = process_input i sm in
      case dispatch_all IoDone c (input_now i) as g of
        (Inl e, g') \<Rightarrow> (Inl e, sm', g')
      | (Inr _, g') \<Rightarrow> drive c is sm' g')"

section \<open>The simulation relation\<close>

fun gw_status_of :: "sm_status \<Rightarrow> order_status" where
  "gw_status_of SM_Pending = OS_Pending"
| "gw_status_of SM_UnknownStatus = OS_Pending"
| "gw_status_of SM_New = OS_New"
| "gw_status_of SM_PartiallyFilled = OS_PartiallyFilled"
| "gw_status_of SM_Filled = OS_Filled"
| "gw_status_of SM_Cancelled = OS_Cancelled"
| "gw_status_of SM_Rejected = OS_Rejected"
| "gw_status_of SM_Expired = OS_Expired"

definition in_step :: "order_sm \<Rightarrow> pending_order \<Rightarrow> bool" where
  "in_step sm o' \<longleftrightarrow>
     po_status o' = gw_status_of (sm_status sm) \<and> po_filled_qty o' = sm_filled_qty sm \<and>
     orq_qty (po_request o') = sm_total_qty sm"

definition fills_val :: "buffered_fill list \<Rightarrow> int" where
  "fills_val fs = sum_list (map (\<lambda>f. i64_val (bff_qty f)) fs)"

definition fills_pos :: "buffered_fill list \<Rightarrow> bool" where
  "fills_pos fs \<longleftrightarrow> (\<forall>f \<in> set fs. 0 < i64_val (bff_qty f))"

lemma fills_val_simps [simp]:
  "fills_val [] = 0" "fills_val (f # fs) = i64_val (bff_qty f) + fills_val fs"
  "fills_val (fs @ gs) = fills_val fs + fills_val gs"
  by (simp_all add: fills_val_def)

lemma fills_pos_simps [simp]:
  "fills_pos []" "fills_pos (f # fs) \<longleftrightarrow> 0 < i64_val (bff_qty f) \<and> fills_pos fs"
  "fills_pos (fs @ gs) \<longleftrightarrow> fills_pos fs \<and> fills_pos gs"
  by (auto simp: fills_pos_def)

lemma fills_val_nonneg: "fills_pos fs \<Longrightarrow> 0 \<le> fills_val fs"
  by (induction fs) auto

lemma fills_val_pos: "fills_pos fs \<Longrightarrow> fs \<noteq> [] \<Longrightarrow> 0 < fills_val fs"
  by (cases fs) (auto dest: fills_val_nonneg)

text \<open>What is filled and buffered stays within the order's quantity.\<close>

definition sm_budget :: "order_sm \<Rightarrow> bool" where
  "sm_budget sm \<longleftrightarrow>
     0 < i64_val (sm_total_qty sm) \<and> 0 \<le> i64_val (sm_filled_qty sm) \<and>
     fills_pos (sm_buffered_fills sm) \<and>
     i64_val (sm_filled_qty sm) + fills_val (sm_buffered_fills sm) \<le> i64_val (sm_total_qty sm)"

text \<open>
  What the exchange guarantees of an event: a new fill is positive and does not overfill,
  and an order reported as filled comes with the fills that complete it.
\<close>

fun input_ok :: "order_sm \<Rightarrow> sm_input \<Rightarrow> bool" where
  "input_ok sm (FillReceived t q p _) =
     (t \<in> sm_seen_trade_ids sm \<or>
      0 < i64_val q \<and> i64_val (sm_filled_qty sm) + fills_val (sm_buffered_fills sm) + i64_val q
        \<le> i64_val (sm_total_qty sm))"
| "input_ok sm (StatusCheckResult (SC_Filled _ fills) _) =
     (let new = fills_of (fst (sm_rest_fills fills sm)) in
      fills_pos new \<and> i64_val (sm_filled_qty sm) + fills_val new + fills_val (sm_buffered_fills sm)
        = i64_val (sm_total_qty sm))"
| "input_ok _ _ = True"

fun inputs_ok :: "sm_input list \<Rightarrow> order_sm \<Rightarrow> bool" where
  "inputs_ok [] sm = True"
| "inputs_ok (i # is) sm =
     ((sm_is_terminal (sm_status sm) \<or> input_ok sm i) \<and> inputs_ok is (snd (process_input i sm)))"

section \<open>Dispatched fills\<close>

text \<open>An order changed in place, and the journal entry written.\<close>

lemma append_set_order:
  obtains g' where "gw_append IoDone e (gw_set_order c o2 g) = (Inr (), g')"
    "map_of (gw_orders g') c = Some o2"
proof (rule that)
  show "gw_append IoDone e (gw_set_order c o2 g) =
      (Inr (), snd (gw_append IoDone e (gw_set_order c o2 g)))"
    by (auto simp: gw_append_def journal_append_def Let_def split: journal_writer.splits)
  show "map_of (gw_orders (snd (gw_append IoDone e (gw_set_order c o2 g)))) c = Some o2"
    by (simp add: gw_append_def gw_set_order_def case_prod_beta Let_def)
qed

lemma i64_val_fills:
  "0 \<le> i64_val a \<Longrightarrow> fills_pos fs \<Longrightarrow> i64_val a + fills_val fs < 2 ^ 63 \<Longrightarrow>
   i64_val (a + fills_qty fs) = i64_val a + fills_val fs"
proof (induction fs arbitrary: a)
  case (Cons f fs)
  have nn: "0 \<le> fills_val fs" using Cons.prems(2) by (simp add: fills_val_nonneg)
  have "i64_val (a + bff_qty f) = i64_val a + i64_val (bff_qty f)"
    using Cons.prems nn by (intro i64_val_add) auto
  with Cons show ?case by (simp add: add.assoc [symmetric])
qed simp

text \<open>Fills within the quantity are all accepted, and the last one decides the status.\<close>

lemma dispatch_fills:
  assumes "map_of (gw_orders g) c = Some o1" "\<not> os_is_terminal (po_status o1)"
    and "0 \<le> i64_val (po_filled_qty o1)" "fills_pos fs"
    and "i64_val (po_filled_qty o1) + fills_val fs \<le> i64_val (orq_qty (po_request o1))"
  shows "\<exists>g' o2. dispatch_all IoDone c now (map (\<lambda>f. ApplyFill (bff_qty f) (bff_price f)) fs) g =
      (Inr (), g') \<and> map_of (gw_orders g') c = Some o2 \<and> po_request o2 = po_request o1 \<and>
    po_filled_qty o2 = po_filled_qty o1 + fills_qty fs \<and>
    po_status o2 = (if fs = [] then po_status o1
      else if orq_qty (po_request o1) \<le> po_filled_qty o1 + fills_qty fs then OS_Filled
      else OS_PartiallyFilled)"
  using assms
proof (induction fs arbitrary: g o1)
  case (Cons f fs)
  let ?q = "orq_qty (po_request o1)" and ?f = "po_filled_qty o1 + bff_qty f"
  let ?o = "o1\<lparr>po_filled_qty := ?f, po_last_updated_ns := now,
      po_status := (if ?q \<le> ?f then OS_Filled else OS_PartiallyFilled)\<rparr>"
  obtain g1 where g1: "gw_on_fill IoDone c (bff_qty f) (bff_price f) now g = (Inr (), g1)"
      "map_of (gw_orders g1) c = Some ?o"
    using Cons.prems(1,2)
      append_set_order [of "OrderFilled now c (bff_qty f) (bff_price f) (?q \<le> ?f)" c ?o g]
    by (auto simp: gw_on_fill_def Let_def)
  have nn: "0 \<le> fills_val fs" using Cons.prems(4) by (simp add: fills_val_nonneg)
  have val: "i64_val ?f = i64_val (po_filled_qty o1) + i64_val (bff_qty f)"
    using Cons.prems nn i64_val_bounds [of ?q] by (intro i64_val_add) auto
  show ?case
  proof (cases "fs = []")
    case True
    with g1 show ?thesis by simp
  next
    case False
    then have "0 < fills_val fs" using Cons.prems(4) by (simp add: fills_val_pos)
    then have "\<not> ?q \<le> ?f" using Cons.prems(5) val by (simp add: less_eq_i64_def)
    then have "\<not> os_is_terminal (po_status ?o)" by simp
    from Cons.IH [OF g1(2) this] val Cons.prems False g1(1) show ?thesis
      by (auto simp: add.assoc)
  qed
qed simp

section \<open>Single calls\<close>

lemma on_ack_pending:
  assumes "map_of (gw_orders g) c = Some o1" "po_status o1 = OS_Pending"
  obtains g' where "gw_on_ack IoDone c x now g = (Inr (), g')"
    "map_of (gw_orders g') c = Some (o1\<lparr>po_exchange_id := Some x, po_status := OS_New,
       po_last_updated_ns := now\<rparr>)"
  using assms append_set_order [of "OrderAcknowledged now c x" c "o1\<lparr>po_exchange_id := Some x,
      po_status := OS_New, po_last_updated_ns := now\<rparr>" g]
  by (auto simp: gw_on_ack_def require_non_terminal_def)

lemma on_end:
  assumes "map_of (gw_orders g) c = Some o1" "\<not> os_is_terminal (po_status o1)"
  shows "\<exists>g'. gw_on_cancel IoDone c now g = (Inr (), g') \<and>
      map_of (gw_orders g') c = Some (o1\<lparr>po_status := OS_Cancelled, po_last_updated_ns := now\<rparr>)"
    and "\<exists>g'. gw_on_reject IoDone c s now g = (Inr (), g') \<and>
      map_of (gw_orders g') c = Some (o1\<lparr>po_status := OS_Rejected, po_last_updated_ns := now\<rparr>)"
    and "\<exists>g'. gw_on_expire IoDone c now g = (Inr (), g') \<and>
      map_of (gw_orders g') c = Some (o1\<lparr>po_status := OS_Expired, po_last_updated_ns := now\<rparr>)"
proof -
  obtain g' where "gw_append IoDone (OrderCancelled now c)
      (gw_set_order c (o1\<lparr>po_status := OS_Cancelled, po_last_updated_ns := now\<rparr>) g) = (Inr (), g')"
    "map_of (gw_orders g') c = Some (o1\<lparr>po_status := OS_Cancelled, po_last_updated_ns := now\<rparr>)"
    by (rule append_set_order)
  then show "\<exists>g'. gw_on_cancel IoDone c now g = (Inr (), g') \<and>
      map_of (gw_orders g') c = Some (o1\<lparr>po_status := OS_Cancelled, po_last_updated_ns := now\<rparr>)"
    using assms by (cases "po_status o1") (simp_all add: gw_on_cancel_def)
  obtain g' where "gw_append IoDone (OrderRejected now c s)
      (gw_set_order c (o1\<lparr>po_status := OS_Rejected, po_last_updated_ns := now\<rparr>) g) = (Inr (), g')"
    "map_of (gw_orders g') c = Some (o1\<lparr>po_status := OS_Rejected, po_last_updated_ns := now\<rparr>)"
    by (rule append_set_order)
  then show "\<exists>g'. gw_on_reject IoDone c s now g = (Inr (), g') \<and>
      map_of (gw_orders g') c = Some (o1\<lparr>po_status := OS_Rejected, po_last_updated_ns := now\<rparr>)"
    using assms by (simp add: gw_on_reject_def)
  obtain g' where "gw_append IoDone (OrderExpired now c)
      (gw_set_order c (o1\<lparr>po_status := OS_Expired, po_last_updated_ns := now\<rparr>) g) = (Inr (), g')"
    "map_of (gw_orders g') c = Some (o1\<lparr>po_status := OS_Expired, po_last_updated_ns := now\<rparr>)"
    by (rule append_set_order)
  then show "\<exists>g'. gw_on_expire IoDone c now g = (Inr (), g') \<and>
      map_of (gw_orders g') c = Some (o1\<lparr>po_status := OS_Expired, po_last_updated_ns := now\<rparr>)"
    using assms by (simp add: gw_on_expire_def)
qed

section \<open>One event\<close>

definition tied :: "client_order_id \<Rightarrow> order_sm \<Rightarrow> order_gateway \<Rightarrow> bool" where
  "tied c sm g \<longleftrightarrow>
     sm_inv sm \<and> sm_budget sm \<and> (\<exists>o'. map_of (gw_orders g) c = Some o' \<and> in_step sm o')"

text \<open>An acknowledgement followed by fills that stay within the quantity.\<close>

lemma tied_ack_fills:
  assumes t: "tied c sm g" and w: "sm_status sm \<in> {SM_Pending, SM_UnknownStatus}"
    and fs: "fills_pos fs" "i64_val (sm_filled_qty sm) + fills_val fs \<le> i64_val (sm_total_qty sm)"
    and sm': "sm_buffered_fills sm' = []" "sm_total_qty sm' = sm_total_qty sm"
      "sm_filled_qty sm' = sm_filled_qty sm + fills_qty fs"
      "sm_status sm' = sm_status (sm_settle sm')"
  shows "\<exists>g'. dispatch_all IoDone c now
      (ApplyAck x # map (\<lambda>f. ApplyFill (bff_qty f) (bff_price f)) fs) g = (Inr (), g') \<and> tied c sm' g'"
proof -
  obtain o1 where o1: "map_of (gw_orders g) c = Some o1" "in_step sm o1"
    using t by (auto simp: tied_def)
  have st: "po_status o1 = OS_Pending" using o1(2) w by (auto simp: in_step_def)
  let ?o = "o1\<lparr>po_exchange_id := Some x, po_status := OS_New, po_last_updated_ns := now\<rparr>"
  obtain g1 where g1: "gw_on_ack IoDone c x now g = (Inr (), g1)" "map_of (gw_orders g1) c = Some ?o"
    using on_ack_pending [OF o1(1) st] .
  have zero: "sm_filled_qty sm = 0" using t w by (auto simp: tied_def sm_inv_def)
  have q: "po_filled_qty ?o = 0" "orq_qty (po_request ?o) = sm_total_qty sm"
    using o1(2) zero by (simp_all add: in_step_def)
  have le: "fills_val fs \<le> i64_val (sm_total_qty sm)" using fs(2) zero by simp
  obtain g2 o2 where g2: "dispatch_all IoDone c now
        (map (\<lambda>f. ApplyFill (bff_qty f) (bff_price f)) fs) g1 = (Inr (), g2)"
      "map_of (gw_orders g2) c = Some o2" "po_request o2 = po_request ?o"
      "po_filled_qty o2 = fills_qty fs"
      "po_status o2 = (if fs = [] then OS_New
        else if sm_total_qty sm \<le> fills_qty fs then OS_Filled else OS_PartiallyFilled)"
    using dispatch_fills [OF g1(2), of fs now] fs(1) le q by auto
  have val: "i64_val (fills_qty fs) = fills_val fs"
    using i64_val_fills [of 0 fs] fs(1) le i64_val_bounds [of "sm_total_qty sm"] by simp
  have "fs \<noteq> [] \<Longrightarrow> 0 < fills_qty fs"
    using fills_val_pos [OF fs(1)] val by (simp add: less_i64_def)
  moreover have "0 < sm_total_qty sm" using t by (simp add: tied_def sm_budget_def less_i64_def)
  ultimately have "in_step sm' o2"
    using g2 q sm' zero by (auto simp: in_step_def sm_settle_status not_le)
  moreover have "sm_budget sm'"
    using t sm' zero val le fills_val_nonneg [OF fs(1)] by (simp add: tied_def sm_budget_def)
  moreover have "sm_inv sm'"
    using sm' zero by (auto simp: sm_inv_def sm_settle_status)
  ultimately show ?thesis using g1(1) g2(1,2) by (simp add: tied_def)
qed

lemma tied_ack:
  assumes "tied c sm g" "sm_status sm \<in> {SM_Pending, SM_UnknownStatus}" "sm_acknowledge x sm = (as, sm')"
  shows "\<exists>g'. dispatch_all IoDone c now as g = (Inr (), g') \<and> tied c sm' g'"
proof -
  have as: "as = ApplyAck x # map (\<lambda>f. ApplyFill (bff_qty f) (bff_price f)) (sm_buffered_fills sm)"
    "sm' = sm_settle (sm\<lparr>sm_status := SM_New, sm_buffered_fills := [],
        sm_filled_qty := sm_filled_qty sm + fills_qty (sm_buffered_fills sm)\<rparr>)"
    using assms(3) by (simp_all add: sm_acknowledge_eq)
  show ?thesis
    unfolding as(1)
    by (rule tied_ack_fills [OF assms(1,2)])
      (use assms(1) in \<open>auto simp: as(2) tied_def sm_budget_def sm_settle_def\<close>)
qed

lemma sm_rest_fills_eq:
  "sm_rest_fills fills sm = (as, sm') \<Longrightarrow>
   as = map (\<lambda>f. ApplyFill (bff_qty f) (bff_price f)) (fills_of as) \<and>
   sm_buffered_fills sm' = sm_buffered_fills sm \<and> sm_total_qty sm' = sm_total_qty sm \<and>
   sm_filled_qty sm' = sm_filled_qty sm + fills_qty (fills_of as)"
proof (induction fills sm arbitrary: as sm' rule: sm_rest_fills.induct)
  case (2 t q p fills sm)
  then show ?case
    by (auto simp: Let_def add.assoc split: prod.splits if_splits)
qed simp

lemma tied_filled:
  assumes "tied c sm g" "sm_status sm \<in> {SM_Pending, SM_UnknownStatus}"
    and "input_ok sm (StatusCheckResult (SC_Filled x fills) t)"
    and "resolve_from_check (SC_Filled x fills) sm = (as, sm')"
  shows "\<exists>g'. dispatch_all IoDone c now as g = (Inr (), g') \<and> tied c sm' g'"
proof -
  obtain rest sm1 where r: "sm_rest_fills fills sm = (rest, sm1)" by (cases "sm_rest_fills fills sm")
  let ?fs = "fills_of rest @ sm_buffered_fills sm"
  note req = sm_rest_fills_eq [OF r]
  have as: "as = ApplyAck x # map (\<lambda>f. ApplyFill (bff_qty f) (bff_price f)) ?fs"
    using assms(4) req by (simp add: resolve_from_check_def r sm_flush_eq)
  have sm': "sm' = sm1\<lparr>sm_buffered_fills := [],
      sm_filled_qty := sm_filled_qty sm + fills_qty ?fs, sm_status := SM_Filled\<rparr>"
    using assms(4) req by (auto simp: resolve_from_check_def r sm_flush_eq add.assoc)
  have ok: "fills_pos ?fs" "i64_val (sm_filled_qty sm) + fills_val ?fs = i64_val (sm_total_qty sm)"
    using assms(1,3) by (simp_all add: r tied_def sm_budget_def add.assoc Let_def)
  have "i64_val (sm_filled_qty sm + fills_qty ?fs) = i64_val (sm_filled_qty sm) + fills_val ?fs"
    using ok assms(1) i64_val_bounds [of "sm_total_qty sm"]
    by (intro i64_val_fills) (auto simp: tied_def sm_budget_def)
  then have full: "sm_total_qty sm \<le> sm_filled_qty sm + fills_qty ?fs"
    using ok(2) by (simp add: less_eq_i64_def)
  show ?thesis
    unfolding as
    by (rule tied_ack_fills [OF assms(1,2) ok(1)])
      (use ok(2) req full in \<open>simp_all add: sm' sm_settle_status\<close>)
qed

text \<open>The three ways an order ends by itself.\<close>

lemma tied_end:
  assumes "tied c sm g" "\<not> sm_is_terminal (sm_status sm)"
  shows "\<exists>g'. dispatch_all IoDone c now [ApplyCancel] g = (Inr (), g') \<and>
      tied c (sm\<lparr>sm_status := SM_Cancelled\<rparr>) g'"
    and "\<exists>g'. dispatch_all IoDone c now [ApplyReject s] g = (Inr (), g') \<and>
      tied c (sm\<lparr>sm_status := SM_Rejected\<rparr>) g'"
    and "\<exists>g'. dispatch_all IoDone c now [ApplyExpire] g = (Inr (), g') \<and>
      tied c (sm\<lparr>sm_status := SM_Expired\<rparr>) g'"
proof -
  obtain o1 where o1: "map_of (gw_orders g) c = Some o1" "in_step sm o1"
    using assms(1) by (auto simp: tied_def)
  have "\<not> os_is_terminal (po_status o1)"
    using o1(2) assms(2) by (cases "sm_status sm") (auto simp: in_step_def)
  note ends = on_end [OF o1(1) this]
  have inv: "sm_inv (sm\<lparr>sm_status := st\<rparr>)" "sm_budget (sm\<lparr>sm_status := st\<rparr>)"
    if "sm_is_terminal st" for st
    using assms(1) that by (cases st; simp add: tied_def sm_inv_def sm_budget_def)+
  show "\<exists>g'. dispatch_all IoDone c now [ApplyCancel] g = (Inr (), g') \<and>
      tied c (sm\<lparr>sm_status := SM_Cancelled\<rparr>) g'"
    using ends(1) [of now] inv [of SM_Cancelled] o1(2) by (fastforce simp: tied_def in_step_def)
  show "\<exists>g'. dispatch_all IoDone c now [ApplyReject s] g = (Inr (), g') \<and>
      tied c (sm\<lparr>sm_status := SM_Rejected\<rparr>) g'"
    using ends(2) [of s now] inv [of SM_Rejected] o1(2) by (fastforce simp: tied_def in_step_def)
  show "\<exists>g'. dispatch_all IoDone c now [ApplyExpire] g = (Inr (), g') \<and>
      tied c (sm\<lparr>sm_status := SM_Expired\<rparr>) g'"
    using ends(3) [of now] inv [of SM_Expired] o1(2) by (fastforce simp: tied_def in_step_def)
qed

text \<open>Any event the exchange may send to an order that is not terminal.\<close>

lemma tied_unchanged: "tied c sm g \<Longrightarrow> \<exists>g'. dispatch_all IoDone c now [Ignored] g = (Inr (), g') \<and> tied c sm g'"
  by simp

lemma tied_waiting:
  assumes t: "tied c sm g" and w: "sm_status sm \<in> {SM_Pending, SM_UnknownStatus}"
    and ok: "input_ok sm i" and p: "process_pending i sm = (as, sm') \<or> process_unknown i sm = (as, sm')"
  shows "\<exists>g'. dispatch_all IoDone c now as g = (Inr (), g') \<and> tied c sm' g'"
proof -
  have nt: "\<not> sm_is_terminal (sm_status sm)" using w by auto
  note ends = tied_end [OF t nt]
  show ?thesis
  proof (cases i)
    case (Acknowledged x ts)
    with p have "sm_acknowledge x sm = (as, sm')"
      by (auto simp: process_pending_def process_unknown_def)
    then show ?thesis by (rule tied_ack [OF t w])
  next
    case (FillReceived tr q pr ts)
    with p have "sm_buffer_fill tr q pr sm = (as, sm')"
      by (auto simp: process_pending_def process_unknown_def)
    with t w ok FillReceived show ?thesis
      by (auto simp: sm_buffer_fill_def tied_def in_step_def sm_inv_def sm_budget_def split: if_splits)
  next
    case (CancelConfirmed ts)
    with p ends(1) show ?thesis by (auto simp: process_pending_def process_unknown_def)
  next
    case (InRejected s ts)
    with p ends(2) t show ?thesis by (auto simp: process_pending_def process_unknown_def)
  next
    case (InExpired ts)
    with p t show ?thesis by (auto simp: process_pending_def process_unknown_def)
  next
    case (StatusCheckResult r ts)
    with p have "as = [Ignored] \<and> sm' = sm \<or> resolve_from_check r sm = (as, sm')"
      by (auto simp: process_pending_def process_unknown_def)
    then show ?thesis
    proof
      assume "as = [Ignored] \<and> sm' = sm"
      with t show ?thesis by simp
    next
      assume res: "resolve_from_check r sm = (as, sm')"
      show ?thesis
      proof (cases r)
        case (SC_Live x)
        with res have "sm_acknowledge x sm = (as, sm')" by (simp add: resolve_from_check_def)
        then show ?thesis by (rule tied_ack [OF t w])
      next
        case (SC_Filled x fills)
        with res ok StatusCheckResult show ?thesis using tied_filled [OF t w, of x fills ts] by simp
      qed (use res ends t in \<open>auto simp: resolve_from_check_def\<close>)
    qed
  qed
qed

lemma tied_live:
  assumes t: "tied c sm g" and l: "sm_is_live (sm_status sm)"
    and ok: "input_ok sm i" and p: "process_live i sm = (as, sm')"
  shows "\<exists>g'. dispatch_all IoDone c now as g = (Inr (), g') \<and> tied c sm' g'"
proof -
  have nt: "\<not> sm_is_terminal (sm_status sm)" using l by (cases "sm_status sm") auto
  note ends = tied_end [OF t nt]
  show ?thesis
  proof (cases i)
    case (FillReceived tr q pr ts)
    show ?thesis
    proof (cases "tr \<in> sm_seen_trade_ids sm")
      case True
      with FillReceived p have "as = [Ignored]" "sm' = sm" by (simp_all add: process_live_def)
      with t show ?thesis by simp
    next
      case False
      let ?f = "sm_filled_qty sm + q"
      obtain o1 where o1: "map_of (gw_orders g) c = Some o1" "in_step sm o1"
        using t by (auto simp: tied_def)
      have nt1: "\<not> os_is_terminal (po_status o1)"
        using o1(2) l by (cases "sm_status sm") (auto simp: in_step_def)
      have buf: "sm_buffered_fills sm = []" using t l by (simp add: tied_def sm_inv_def)
      have q: "0 < i64_val q" "i64_val (sm_filled_qty sm) + i64_val q \<le> i64_val (sm_total_qty sm)"
        using ok False FillReceived buf by simp_all
      have nn: "0 \<le> i64_val (sm_filled_qty sm)" using t by (simp add: tied_def sm_budget_def)
      have val: "i64_val ?f = i64_val (sm_filled_qty sm) + i64_val q"
        using q nn i64_val_bounds [of "sm_total_qty sm"] by (intro i64_val_add) auto
      obtain g2 o2 where g2: "dispatch_all IoDone c now [ApplyFill q pr] g = (Inr (), g2)"
          "map_of (gw_orders g2) c = Some o2" "po_request o2 = po_request o1"
          "po_filled_qty o2 = ?f"
          "po_status o2 = (if sm_total_qty sm \<le> ?f then OS_Filled else OS_PartiallyFilled)"
        using dispatch_fills [OF o1(1) nt1, of "[\<lparr>bff_qty = q, bff_price = pr\<rparr>]" now] o1(2) q nn
        by (auto simp: in_step_def)
      have sm': "as = [ApplyFill q pr]"
          "sm' = sm\<lparr>sm_seen_trade_ids := insert tr (sm_seen_trade_ids sm), sm_filled_qty := ?f,
             sm_status := (if sm_total_qty sm \<le> ?f then SM_Filled else SM_PartiallyFilled)\<rparr>"
        using p FillReceived False by (simp_all add: process_live_def)
      have "in_step sm' o2" using g2 o1(2) sm' by (simp add: in_step_def)
      moreover have "sm_inv sm'" using sm' buf by (auto simp: sm_inv_def)
      moreover have "sm_budget sm'" using t sm' buf q nn val by (simp add: tied_def sm_budget_def)
      ultimately show ?thesis using g2(1,2) sm'(1) by (simp add: tied_def)
    qed
  qed (use p t ends in \<open>auto simp: process_live_def\<close>)
qed

theorem tied_step:
  assumes "tied c sm g" "sm_is_terminal (sm_status sm) \<or> input_ok sm i"
    and "process_input i sm = (as, sm')"
  shows "\<exists>g'. dispatch_all IoDone c now as g = (Inr (), g') \<and> tied c sm' g'"
proof -
  consider (waiting) "sm_status sm \<in> {SM_Pending, SM_UnknownStatus}" | (live) "sm_is_live (sm_status sm)"
    | (dead) "sm_is_terminal (sm_status sm)"
    by (cases "sm_status sm") auto
  then show ?thesis
  proof cases
    case waiting
    then have "input_ok sm i" "process_pending i sm = (as, sm') \<or> process_unknown i sm = (as, sm')"
      using assms(2,3) by (auto simp: process_input_def)
    then show ?thesis by (rule tied_waiting [OF assms(1) waiting])
  next
    case live
    then have "input_ok sm i" "process_live i sm = (as, sm')"
      using assms(2,3) by (cases "sm_status sm"; simp add: process_input_def)+
    then show ?thesis by (rule tied_live [OF assms(1) live])
  next
    case dead
    with assms show ?thesis by (auto simp: process_input_def)
  qed
qed

theorem drive_tied:
  assumes "tied c sm g" "inputs_ok is sm"
  shows "\<exists>sm' g'. drive c is sm g = (Inr (), sm', g') \<and> tied c sm' g' \<and> sm' = snd (sm_run is sm)"
  using assms
proof (induction "is" arbitrary: sm g)
  case (Cons i "is")
  obtain as sm1 where p: "process_input i sm = (as, sm1)" by (cases "process_input i sm")
  obtain g1 where g1: "dispatch_all IoDone c (input_now i) as g = (Inr (), g1)" "tied c sm1 g1"
    using tied_step [OF Cons.prems(1) _ p] Cons.prems(2) by auto
  have "inputs_ok is sm1" using Cons.prems(2) p by simp
  from Cons.IH [OF g1(2) this] p g1(1) show ?case by (auto split: prod.splits)
qed simp

end
