(* ===== verification/Machine_Order.thy ===== *)
theory Machine_Order
  imports Machine_Gateway
begin

text \<open>
  Fills may overtake the acknowledgement: the buffered run and the run in the expected
  order lead the machine to the same state and the caller to the same actions.
\<close>

fun is_fill :: "sm_input \<Rightarrow> bool" where
  "is_fill (FillReceived _ _ _ _) = True"
| "is_fill _ = False"

fun fill_ids :: "sm_input list \<Rightarrow> u64 set" where
  "fill_ids [] = {}"
| "fill_ids (FillReceived t _ _ _ # is) = insert t (fill_ids is)"
| "fill_ids (_ # is) = fill_ids is"

definition apply_fills :: "buffered_fill list \<Rightarrow> sm_action list" where
  "apply_fills fs = map (\<lambda>f. ApplyFill (bff_qty f) (bff_price f)) fs"

definition effective :: "sm_action list \<Rightarrow> sm_action list" where
  "effective as = filter (\<lambda>a. a \<noteq> Ignored) as"

lemma effective_simps [simp]:
  "effective [] = []" "effective (as @ bs) = effective as @ effective bs"
  "effective (a # as) = (if a = Ignored then effective as else a # effective as)"
  "effective (apply_fills fs) = apply_fills fs"
  by (auto simp: effective_def apply_fills_def)

lemma no_new_fills: "first_fills seen is = [] \<Longrightarrow> \<forall>i \<in> set is. is_fill i \<Longrightarrow> fill_ids is \<subseteq> seen"
  by (induction seen "is" rule: first_fills.induct) (auto split: if_splits)

lemma sm_run_append:
  "sm_run (is @ js) sm =
     (let (as, sm1) = sm_run is sm; (bs, sm2) = sm_run js sm1 in (as @ bs, sm2))"
  by (induction "is" arbitrary: sm) (auto simp: Let_def split: prod.splits)

lemma terminal_run_effective:
  "sm_is_terminal (sm_status sm) \<Longrightarrow> effective (fst (sm_run is sm)) = []"
  by (induction "is") (simp_all add: terminal_stays case_prod_beta Let_def)

lemma order_sm_id: "sm\<lparr>sm_seen_trade_ids := sm_seen_trade_ids sm\<rparr> = sm"
  by simp

text \<open>Fills of an order that waits for its acknowledgement are kept, not passed on.\<close>

lemma waiting_fills:
  assumes "sm_status sm = SM_Pending" "\<forall>i \<in> set is. is_fill i"
  shows "effective (fst (sm_run is sm)) = [] \<and>
    snd (sm_run is sm) = sm\<lparr>sm_seen_trade_ids := sm_seen_trade_ids sm \<union> fill_ids is,
      sm_buffered_fills := sm_buffered_fills sm @ first_fills (sm_seen_trade_ids sm) is\<rparr>"
  using assms
proof (induction "is" arbitrary: sm)
  case (Cons i "is")
  then obtain t q p ts where i: "i = FillReceived t q p ts" by (cases i) auto
  let ?sm = "snd (process_input i sm)"
  have st: "sm_status ?sm = SM_Pending"
    using Cons.prems(1) by (simp add: process_input_def process_pending_def i sm_buffer_fill_def)
  have "\<forall>i \<in> set is. is_fill i" using Cons.prems(2) by simp
  note IH = Cons.IH [OF st this]
  show ?case
  proof (cases "t \<in> sm_seen_trade_ids sm")
    case True
    then have "process_input i sm = ([Ignored], sm)"
      using Cons.prems(1) by (simp add: process_input_def process_pending_def i sm_buffer_fill_def)
    with IH True show ?thesis
      by (simp add: i case_prod_beta Let_def insert_absorb Un_insert_right)
  next
    case False
    then have "process_input i sm = ([], sm\<lparr>sm_seen_trade_ids := insert t (sm_seen_trade_ids sm),
        sm_buffered_fills := sm_buffered_fills sm @ [\<lparr>bff_qty = q, bff_price = p\<rparr>]\<rparr>)"
      using Cons.prems(1) by (simp add: process_input_def process_pending_def i sm_buffer_fill_def)
    with IH False show ?thesis
      by (simp add: i case_prod_beta Let_def Un_insert_right)
  qed
qed (simp add: effective_def)

text \<open>Fills of a live order within its quantity are passed on one by one.\<close>

lemma live_fills:
  assumes "sm_is_live (sm_status sm)" "\<forall>i \<in> set is. is_fill i"
    and "0 \<le> i64_val (sm_filled_qty sm)" "i64_val (sm_filled_qty sm) < i64_val (sm_total_qty sm)"
    and "fills_pos (first_fills (sm_seen_trade_ids sm) is)"
    and "i64_val (sm_filled_qty sm) + fills_val (first_fills (sm_seen_trade_ids sm) is)
      \<le> i64_val (sm_total_qty sm)"
  shows "effective (fst (sm_run is sm)) = apply_fills (first_fills (sm_seen_trade_ids sm) is) \<and>
    snd (sm_run is sm) = sm\<lparr>sm_seen_trade_ids := sm_seen_trade_ids sm \<union> fill_ids is,
      sm_filled_qty := sm_filled_qty sm + fills_qty (first_fills (sm_seen_trade_ids sm) is),
      sm_status := (if first_fills (sm_seen_trade_ids sm) is = [] then sm_status sm
        else if sm_total_qty sm \<le> sm_filled_qty sm + fills_qty (first_fills (sm_seen_trade_ids sm) is)
        then SM_Filled else SM_PartiallyFilled)\<rparr>"
  using assms
proof (induction "is" arbitrary: sm)
  case Nil
  then show ?case by (simp add: apply_fills_def)
next
  case (Cons i "is")
  then obtain t q p ts where i: "i = FillReceived t q p ts" by (cases i) auto
  have fills: "\<forall>i \<in> set is. is_fill i" using Cons.prems(2) by simp
  have pr: "process_input i sm = process_live i sm"
    using Cons.prems(1) by (cases "sm_status sm") (simp_all add: process_input_def)
  have ids: "fill_ids (i # is) = insert t (fill_ids is)" by (simp add: i)
  have r: "sm_run (i # is) sm = (a @ fst (sm_run is s1), snd (sm_run is s1))"
    if "process_input i sm = (a, s1)" for a s1
    using that by (simp add: case_prod_beta Let_def)
  show ?case
  proof (cases "t \<in> sm_seen_trade_ids sm")
    case True
    then have p1: "process_input i sm = ([Ignored], sm)" unfolding pr by (simp add: process_live_def i)
    have all: "first_fills (sm_seen_trade_ids sm) (i # is) = first_fills (sm_seen_trade_ids sm) is"
      using True by (simp add: i)
    have un: "sm_seen_trade_ids sm \<union> insert t (fill_ids is) = sm_seen_trade_ids sm \<union> fill_ids is"
      using True by auto
    show ?thesis
      unfolding r [OF p1] all ids un
      using Cons.IH [OF Cons.prems(1) fills Cons.prems(3,4)] Cons.prems(5,6) by (simp add: all)
  next
    case False
    let ?seen = "insert t (sm_seen_trade_ids sm)" and ?f = "sm_filled_qty sm + q"
    let ?rest = "first_fills ?seen is"
    let ?sm = "sm\<lparr>sm_seen_trade_ids := ?seen, sm_filled_qty := ?f,
        sm_status := (if sm_total_qty sm \<le> ?f then SM_Filled else SM_PartiallyFilled)\<rparr>"
    have p1: "process_input i sm = ([ApplyFill q p], ?sm)"
      using False unfolding pr by (simp add: process_live_def i)
    have all: "first_fills (sm_seen_trade_ids sm) (i # is) = \<lparr>bff_qty = q, bff_price = p\<rparr> # ?rest"
      using False by (simp add: i)
    have q: "0 < i64_val q" "fills_pos ?rest"
        "i64_val (sm_filled_qty sm) + i64_val q + fills_val ?rest \<le> i64_val (sm_total_qty sm)"
      using Cons.prems(5,6) by (simp_all add: all)
    have val: "i64_val ?f = i64_val (sm_filled_qty sm) + i64_val q"
      using q fills_val_nonneg [OF q(2)] Cons.prems(3) i64_val_bounds [of "sm_total_qty sm"]
      by (intro i64_val_add) auto
    show ?thesis
    proof (cases "sm_total_qty sm \<le> ?f")
      case True
      then have "fills_val ?rest \<le> 0" using q(3) val by (simp add: less_eq_i64_def)
      then have none: "?rest = []" using fills_val_pos [OF q(2)] by fastforce
      have "sm_is_terminal (sm_status ?sm)" using True by simp
      with terminal_run_stays [OF this] terminal_run_effective [OF this]
      have "effective (fst (sm_run is ?sm)) = []" "snd (sm_run is ?sm) = ?sm" by blast+
      moreover have "sm_seen_trade_ids sm \<union> insert t (fill_ids is) = ?seen"
        using no_new_fills [OF none fills] by auto
      ultimately show ?thesis
        unfolding r [OF p1] all ids using True none by (simp add: apply_fills_def)
    next
      case F: False
      then have "i64_val ?f < i64_val (sm_total_qty sm)" by (simp add: less_eq_i64_def)
      moreover have "0 \<le> i64_val ?f" using val q Cons.prems(3) by simp
      ultimately have IH: "effective (fst (sm_run is ?sm)) = apply_fills ?rest \<and>
          snd (sm_run is ?sm) = ?sm\<lparr>sm_seen_trade_ids := ?seen \<union> fill_ids is,
            sm_filled_qty := ?f + fills_qty ?rest,
            sm_status := (if ?rest = [] then SM_PartiallyFilled
              else if sm_total_qty sm \<le> ?f + fills_qty ?rest then SM_Filled else SM_PartiallyFilled)\<rparr>"
        using Cons.IH [of ?sm] fills q val F by simp
      show ?thesis
        unfolding r [OF p1] all ids using IH F by (simp add: apply_fills_def add.assoc)
    qed
  qed
qed

theorem late_ack_same:
  fixes sm :: order_sm
  assumes "sm = OrderSm_new c qty ts" "\<forall>i \<in> set is. is_fill i" "0 < i64_val qty"
    and "fills_pos (first_fills {} is)" "fills_val (first_fills {} is) \<le> i64_val qty"
  shows "effective (fst (sm_run (is @ [Acknowledged x t]) sm)) =
      effective (fst (sm_run (Acknowledged x t # is) sm)) \<and>
    snd (sm_run (is @ [Acknowledged x t]) sm) = snd (sm_run (Acknowledged x t # is) sm)"
proof -
  let ?F = "first_fills {} is"
  have sm: "sm_status sm = SM_Pending" "sm_filled_qty sm = 0" "sm_seen_trade_ids sm = {}"
      "sm_buffered_fills sm = []" "sm_total_qty sm = qty"
    using assms(1) by (simp_all add: OrderSm_new_def)
  have val: "i64_val (fills_qty ?F) = fills_val ?F"
    using i64_val_fills [of 0 ?F] assms(4,5) i64_val_bounds [of qty] by simp
  then have pos: "?F \<noteq> [] \<Longrightarrow> 0 < fills_qty ?F"
    using fills_val_pos [OF assms(4)] by (simp add: less_i64_def)
  have q0: "\<not> qty \<le> 0" using assms(3) by (simp add: less_eq_i64_def)
  let ?w = "sm\<lparr>sm_seen_trade_ids := fill_ids is, sm_buffered_fills := ?F\<rparr>"
  have w: "effective (fst (sm_run is sm)) = []" "snd (sm_run is sm) = ?w"
    using waiting_fills [OF sm(1) assms(2)] by (simp_all add: sm)
  have late: "effective (fst (sm_run (is @ [Acknowledged x t]) sm)) = ApplyAck x # apply_fills ?F"
      "snd (sm_run (is @ [Acknowledged x t]) sm) =
        sm_settle (?w\<lparr>sm_status := SM_New, sm_buffered_fills := [], sm_filled_qty := fills_qty ?F\<rparr>)"
    using w sm
    by (simp_all add: sm_run_append case_prod_beta Let_def process_input_def process_pending_def
        sm_acknowledge_eq apply_fills_def [symmetric])
  have ack: "process_input (Acknowledged x t) sm = ([ApplyAck x], sm\<lparr>sm_status := SM_New\<rparr>)"
    using q0 sm
    by (simp add: process_input_def process_pending_def sm_acknowledge_eq sm_settle_def)
  have "effective (fst (sm_run is (sm\<lparr>sm_status := SM_New\<rparr>))) = apply_fills ?F \<and>
      snd (sm_run is (sm\<lparr>sm_status := SM_New\<rparr>)) = sm\<lparr>sm_seen_trade_ids := fill_ids is,
        sm_filled_qty := fills_qty ?F, sm_status := (if ?F = [] then SM_New
          else if qty \<le> fills_qty ?F then SM_Filled else SM_PartiallyFilled)\<rparr>"
    using live_fills [of "sm\<lparr>sm_status := SM_New\<rparr>" "is"] assms sm by simp
  then have early: "effective (fst (sm_run (Acknowledged x t # is) sm)) = ApplyAck x # apply_fills ?F"
      "snd (sm_run (Acknowledged x t # is) sm) = sm\<lparr>sm_seen_trade_ids := fill_ids is,
        sm_filled_qty := fills_qty ?F, sm_status := (if ?F = [] then SM_New
          else if qty \<le> fills_qty ?F then SM_Filled else SM_PartiallyFilled)\<rparr>"
    by (simp_all add: ack case_prod_beta Let_def)
  show ?thesis
    unfolding late early using sm pos q0 by (cases "?F = []") (simp_all add: sm_settle_def)
qed

end
