(* ===== verification/Gateway_Properties.thy ===== *)
theory Gateway_Properties
  imports Machine_Order
begin

text \<open>
  The properties of the order gateway (\<open>crates/order-gateway\<close>): durability, ids, the life of
  an order, and the state machine in front of it.
\<close>

section \<open>An instance\<close>

definition sample_request :: order_request where
  "sample_request = \<lparr>orq_symbol = ''BTCUSDT'', orq_side = Buy, orq_order_type = Limit,
     orq_qty = 100, orq_limit_price = Some 50000, orq_time_in_force = GoodTillCancel\<rparr>"

definition sample_id :: client_order_id where
  "sample_id = format_cloid 7 0"

definition sample_gateway :: order_gateway where
  "sample_gateway = gw_do IoDone (CallEnqueue sample_request 1) (gw_fresh 7)"

lemma sample_symbol_ok: "str_utf8 (orq_symbol sample_request) \<and> length (orq_symbol sample_request) \<le> 255"
  by (auto simp: sample_request_def intro!: str_utf8_ascii)

lemma sample_enqueue:
  "gw_enqueue IoDone sample_request 1 (gw_fresh 7) = (Inr sample_id, sample_gateway)"
  by (simp add: sample_gateway_def sample_id_def gw_enqueue_def gw_fresh_def cg_new_def
      cg_generate_def Let_def gw_append_def journal_append_def)

lemma sample_order: "map_of (gw_orders sample_gateway) sample_id = Some (new_order sample_id sample_request 1)"
  by (simp add: sample_gateway_def sample_id_def gw_enqueue_def gw_fresh_def cg_new_def
      cg_generate_def Let_def gw_append_def journal_append_def gw_set_order_def)

lemma sample_issued: "issued sample_gateway"
  unfolding sample_gateway_def
  by (rule issued_step [OF issued_fresh(1)]) (simp add: gw_fresh_def cg_new_def)

lemma i64_val_samples [simp]:
  "i64_val 100 = 100" "i64_val 40 = 40" "i64_val 60 = 60"
  by (simp_all add: eval_simps)

section \<open>Durability\<close>

text \<open>C4: After any run of gateway calls whose journal writes succeed, opening a gateway on the
  journal file restores the orders, the id generator and the journal exactly as they were.\<close>

theorem reopen_restores_gateway:
  assumes "\<forall>call \<in> set calls. call_ok call" "length calls < 2 ^ 64"
  shows "gw_open i (Some (Inr (jw_disk (j_writer (gw_journal (gw_run calls (gw_fresh i)))))))
     None = Inr (gw_run calls (gw_fresh i))"
  by (rule open_after_run [OF assms])

theorem reopen_restores_gateway_witness:
  "gw_open 7 (Some (Inr (jw_disk (j_writer (gw_journal
       (gw_run [CallEnqueue sample_request 1, CallFill sample_id 40 50000 2] (gw_fresh 7)))))))
     None = Inr (gw_run [CallEnqueue sample_request 1, CallFill sample_id 40 50000 2] (gw_fresh 7))"
  by (rule reopen_restores_gateway) (use sample_symbol_ok in simp_all)

text \<open>The journal format round-trips: a file of well-sized entries decodes to exactly those
  entries, in order.\<close>

theorem journal_round_trip:
  assumes "\<forall>e \<in> set es. entry_ok e"
  shows "decode_all (concat (map encode_entry es)) = Inr es"
  by (rule decode_all_entries [OF assms])

definition sample_entries :: "journal_entry list" where
  "sample_entries = [OrderRequested 1 sample_id sample_request, OrderAcknowledged 2 sample_id 9,
     OrderFilled 3 sample_id 100 50000 True]"

lemma sample_entries_ok: "\<forall>e \<in> set sample_entries. entry_ok e"
  using sample_symbol_ok
  by (auto simp: sample_entries_def sample_id_def intro!: entry_ok_small)

theorem journal_round_trip_witness:
  "decode_all (concat (map encode_entry sample_entries)) = Inr sample_entries"
  by (rule journal_round_trip [OF sample_entries_ok])

text \<open>A journal whose last record was cut short by a crash is refused as a whole: whatever
  the cut, \<open>decode_all\<close> returns an error, not the intact records before it.\<close>

theorem torn_journal_refused:
  assumes "\<forall>e \<in> set es. entry_ok e" "entry_ok e" "0 < k" "k < length (encode_entry e)"
  shows "\<exists>err. decode_all (concat (map encode_entry es) @ take k (encode_entry e)) = Inl err"
  by (rule decode_all_torn [OF assms(1,3,4)]) (use assms(2) in \<open>simp add: entry_ok_def\<close>)

theorem torn_journal_refused_witness:
  "\<exists>err. decode_all (concat (map encode_entry sample_entries) @
     take 5 (encode_entry (OrderCancelled 4 sample_id))) = Inl err"
  by (rule torn_journal_refused [OF sample_entries_ok])
    (auto simp: encode_entry_length sample_id_def intro!: entry_ok_small)

section \<open>Ids\<close>

text \<open>The counter and the instance are read back from a formatted id.\<close>

theorem cloid_round_trip:
  "parse_counter (fst (cg_generate g)) = Some (cg_counter g) \<and>
   parse_instance (fst (cg_generate g)) = Some (cg_instance_id g)"
  by (simp add: cg_generate_def)

text \<open>For instance ids below \<open>65536\<close> the order of the id strings is the order of
  (instance, counter).\<close>

theorem cloid_order:
  assumes "unat (cg_instance_id g) < 65536" "unat (cg_instance_id h) < 65536"
  shows "fst (cg_generate g) < fst (cg_generate h) \<longleftrightarrow>
    cg_instance_id g < cg_instance_id h \<or>
    cg_instance_id g = cg_instance_id h \<and> cg_counter g < cg_counter h"
  using format_cloid_less [OF assms] by (simp add: cg_generate_def)

theorem cloid_order_witness:
  "fst (cg_generate \<lparr>cg_instance_id = 7, cg_counter = 9\<rparr>) <
   fst (cg_generate \<lparr>cg_instance_id = 7, cg_counter = 16\<rparr>)"
  using cloid_order [of "\<lparr>cg_instance_id = 7, cg_counter = 9\<rparr>" "\<lparr>cg_instance_id = 7, cg_counter = 16\<rparr>"]
  by simp

text \<open>An id that \<open>enqueue\<close> returns belonged to no order before, after any calls with any
  journal outcomes: ids are never reused within a session.\<close>

theorem enqueue_id_fresh:
  assumes "length calls < 2 ^ 64 - 1" "g = gw_run_io calls (gw_fresh i)"
    and "gw_enqueue io r t g = (Inr c, g')"
  shows "gw_get_order c g = None \<and> gw_get_order c g' = Some (new_order c r t)"
proof -
  have "unat (cg_counter (gw_cloid_gen (gw_fresh i))) = 0" by (simp add: gw_fresh_def cg_new_def)
  then have "issued g" using assms(1,2) issued_fresh(1) by (auto intro!: issued_run)
  from issued_next_unused [OF this] assms(3) show ?thesis
    by (auto simp: gw_get_order_def gw_enqueue_def cg_generate_def Let_def gw_append_def
        gw_set_order_def split: prod.splits sum.splits)
qed

theorem enqueue_id_fresh_witness:
  "gw_get_order sample_id (gw_fresh 7) = None \<and>
   gw_get_order sample_id sample_gateway = Some (new_order sample_id sample_request 1)"
  by (rule enqueue_id_fresh [of "[]" _ 7 IoDone]) (simp_all add: sample_enqueue)

section \<open>Orders\<close>

text \<open>A terminal order never changes again, whatever calls follow and whatever their journal
  writes do.\<close>

theorem terminal_orders_fixed:
  assumes "issued g" "gw_get_order c g = Some o1" "os_is_terminal (po_status o1)"
    and "unat (cg_counter (gw_cloid_gen g)) + length calls < 2 ^ 64"
  shows "gw_get_order c (gw_run_io calls g) = Some o1"
  using terminal_run [OF assms(1) _ assms(3,4)] assms(2) by (simp add: gw_get_order_def)

definition sample_cancelled :: order_gateway where
  "sample_cancelled = gw_do IoDone (CallCancel sample_id 2) sample_gateway"

lemma sample_cancelled_facts:
  "issued sample_cancelled"
  "gw_get_order sample_id sample_cancelled =
     Some ((new_order sample_id sample_request 1)\<lparr>po_status := OS_Cancelled, po_last_updated_ns := 2\<rparr>)"
  "cg_counter (gw_cloid_gen sample_cancelled) = 1"
proof -
  have ctr: "cg_counter (gw_cloid_gen sample_gateway) = 1"
    unfolding sample_gateway_def counter_step by (simp add: gw_fresh_def cg_new_def)
  show "issued sample_cancelled"
    unfolding sample_cancelled_def by (rule issued_step [OF sample_issued]) (simp add: ctr)
  show "cg_counter (gw_cloid_gen sample_cancelled) = 1"
    unfolding sample_cancelled_def counter_step by (simp add: ctr)
  show "gw_get_order sample_id sample_cancelled =
      Some ((new_order sample_id sample_request 1)\<lparr>po_status := OS_Cancelled, po_last_updated_ns := 2\<rparr>)"
    by (simp add: gw_get_order_def sample_cancelled_def gw_on_cancel_def sample_order new_order_def
        gw_append_def gw_set_order_def case_prod_beta Let_def)
qed

theorem terminal_orders_fixed_witness:
  "gw_get_order sample_id (gw_run_io [(IoDone, CallFill sample_id 40 50000 3),
       (IoFailed (IoError ''disk full'') 3 0, CallAck sample_id 9 4)] sample_cancelled) =
     Some ((new_order sample_id sample_request 1)\<lparr>po_status := OS_Cancelled, po_last_updated_ns := 2\<rparr>)"
  by (rule terminal_orders_fixed [OF sample_cancelled_facts(1,2)])
    (simp_all add: sample_cancelled_facts(3))



text \<open>An acknowledgement of a partially filled order is accepted and moves its status back to
  \<open>New\<close>; only an acknowledgement of an order in \<open>New\<close> is ignored.\<close>

theorem late_ack_reverts_status:
  assumes "gw_get_order c g = Some o'" "po_status o' = OS_PartiallyFilled"
  shows "\<exists>g' o2. gw_on_ack IoDone c x t g = (Inr (), g') \<and> gw_get_order c g' = Some o2 \<and>
    po_status o2 = OS_New \<and> po_filled_qty o2 = po_filled_qty o'"
proof -
  obtain g' where "gw_append IoDone (OrderAcknowledged t c x) (gw_set_order c
      (o'\<lparr>po_exchange_id := Some x, po_status := OS_New, po_last_updated_ns := t\<rparr>) g) = (Inr (), g')"
    "map_of (gw_orders g') c =
      Some (o'\<lparr>po_exchange_id := Some x, po_status := OS_New, po_last_updated_ns := t\<rparr>)"
    by (rule append_set_order)
  with assms show ?thesis
    by (auto simp: gw_get_order_def gw_on_ack_def require_non_terminal_def)
qed

definition sample_partial :: order_gateway where
  "sample_partial = gw_do IoDone (CallFill sample_id 40 50000 2) sample_gateway"

lemma sample_partial_order:
  "gw_get_order sample_id sample_partial = Some ((new_order sample_id sample_request 1)
     \<lparr>po_filled_qty := 40, po_status := OS_PartiallyFilled, po_last_updated_ns := 2\<rparr>)"
  by (simp add: gw_get_order_def sample_partial_def gw_on_fill_def sample_order new_order_def
      gw_append_def gw_set_order_def case_prod_beta Let_def less_eq_i64_def sample_request_def)

theorem late_ack_reverts_status_witness:
  "\<exists>g' o2. gw_on_ack IoDone sample_id 9 3 sample_partial = (Inr (), g') \<and>
     gw_get_order sample_id g' = Some o2 \<and> po_status o2 = OS_New \<and> po_filled_qty o2 = 40"
  using late_ack_reverts_status [OF sample_partial_order, of 9 3] by simp

section \<open>The state machine\<close>


definition sample_inputs :: "sm_input list" where
  "sample_inputs = [FillReceived 1 40 50000 2, FillReceived 1 40 50000 3]"


text \<open>C36: Fills may overtake the acknowledgement: with positive fills within the order's
  quantity, the machine ends in the same state and hands on the same actions as when the
  acknowledgement comes first.\<close>

theorem ack_order_irrelevant:
  assumes "\<forall>i \<in> set is. is_fill i" "0 < i64_val qty"
    and "fills_pos (first_fills {} is)" "fills_val (first_fills {} is) \<le> i64_val qty"
  shows "effective (fst (sm_run (is @ [Acknowledged x t]) (OrderSm_new c qty ts))) =
      effective (fst (sm_run (Acknowledged x t # is) (OrderSm_new c qty ts))) \<and>
    snd (sm_run (is @ [Acknowledged x t]) (OrderSm_new c qty ts)) =
      snd (sm_run (Acknowledged x t # is) (OrderSm_new c qty ts))"
  by (rule late_ack_same [OF refl assms])

theorem ack_order_irrelevant_witness:
  "snd (sm_run (sample_inputs @ [Acknowledged 9 4]) (OrderSm_new sample_id 100 1)) =
   snd (sm_run (Acknowledged 9 4 # sample_inputs) (OrderSm_new sample_id 100 1))"
  using ack_order_irrelevant [of sample_inputs 100 9 4 sample_id 1]
  by (simp add: sample_inputs_def)

text \<open>The engine never keeps a terminal order and files every order under its own id,
  through tracking, events, ticks and untracking.\<close>

theorem engine_well_formed:
  assumes "eng_wf e"
  shows "eng_wf (snd (eng_process c i e)) \<and> eng_wf (snd (eng_tick now e)) \<and>
    eng_wf (eng_track c qty ts e) \<and> eng_wf (eng_untrack c e)"
  using assms by (simp add: eng_wf_process eng_wf_tick eng_wf_track eng_wf_untrack)

theorem engine_well_formed_witness: "eng_wf (eng_track sample_id 100 1 eng_new)"
  using engine_well_formed [of eng_new sample_id _ _ 100 1]
  by (simp add: eng_wf_def eng_new_def eng_with_timeout_ns_def)

text \<open>A tick schedules a status check for exactly the pending orders whose time has run out,
  moves exactly those to \<open>UnknownStatus\<close> and leaves every other order as it is.\<close>

theorem tick_times_out:
  assumes "eng_wf e"
  shows "((c, a) \<in> set (fst (eng_tick now e)) \<longleftrightarrow> a = ScheduleStatusCheck \<and>
      (\<exists>sm. map_of (eng_orders e) c = Some sm \<and> sm_status sm = SM_Pending \<and>
        eng_timeout_ns e < i64_saturating_sub now (sm_submitted_ns sm))) \<and>
    map_of (eng_orders (snd (eng_tick now e))) c =
      map_option (\<lambda>sm. if sm_status sm = SM_Pending \<and>
          eng_timeout_ns e < i64_saturating_sub now (sm_submitted_ns sm)
        then sm\<lparr>sm_status := SM_UnknownStatus\<rparr> else sm) (map_of (eng_orders e) c)"
  using tick_reports [OF assms] by (simp add: map_of_tick sm_timed_out_def)

theorem tick_times_out_witness:
  "(sample_id, ScheduleStatusCheck) \<in> set (fst (eng_tick 6000000000 (eng_track sample_id 100 1 eng_new)))"
proof -
  have "eng_wf (eng_track sample_id 100 1 eng_new)"
    by (rule eng_wf_track) (simp add: eng_wf_def eng_new_def eng_with_timeout_ns_def)
  moreover have "(5000000000 :: i64) < i64_saturating_sub 6000000000 1"
    unfolding less_i64_def i64_saturating_sub_val by (simp add: i64_val_def numeral_i64 one_i64_def)
  ultimately show ?thesis
    using tick_times_out [of "eng_track sample_id 100 1 eng_new" sample_id ScheduleStatusCheck 6000000000]
    by (simp add: eng_track_def eng_new_def eng_with_timeout_ns_def OrderSm_new_def
        DEFAULT_UNKNOWN_TIMEOUT_NS_def)
qed

section \<open>Machine and gateway together\<close>


definition sample_events :: "sm_input list" where
  "sample_events = [FillReceived 1 40 50000 2, FillReceived 1 40 50000 3, Acknowledged 9 4,
     FillReceived 2 60 50000 5]"

lemma sample_events_ok: "inputs_ok sample_events (OrderSm_new sample_id 100 1)"
  by (simp add: sample_events_def OrderSm_new_def process_input_def process_pending_def
      process_live_def sm_buffer_fill_def sm_acknowledge_eq sm_settle_def less_eq_i64_def
      less_i64_def)


end
