(* ===== verification/BTree_Map.thy ===== *)
theory BTree_Map
  imports Prelude
begin

text \<open>
  The \<open>BTreeMap\<close> of the standard library, as the code uses it: a map that iterates in key
  order. The model is the strictly sorted list of its entries; the locale \<open>ordered_map\<close>
  is the interface its clients rely on (lookup after insert and remove, sorted
  iteration), with the facts they need proved once inside it.
\<close>

type_synonym ('k, 'v) btree_map = "('k \<times> 'v) list"

fun bt_insert :: "'k::linorder \<Rightarrow> 'v \<Rightarrow> ('k, 'v) btree_map \<Rightarrow> ('k, 'v) btree_map" where
  "bt_insert k v [] = [(k, v)]"
| "bt_insert k v ((k', v') # m) =
     (if k < k' then (k, v) # (k', v') # m
      else if k = k' then (k, v) # m
      else (k', v') # bt_insert k v m)"

fun bt_remove :: "'k::linorder \<Rightarrow> ('k, 'v) btree_map \<Rightarrow> ('k, 'v) btree_map" where
  "bt_remove k [] = []"
| "bt_remove k ((k', v') # m) =
     (if k < k' then (k', v') # m
      else if k = k' then m
      else (k', v') # bt_remove k m)"

definition bt_wf :: "('k::linorder, 'v) btree_map \<Rightarrow> bool" where
  "bt_wf m \<longleftrightarrow> sorted_wrt (<) (map fst m)"

lemma alist_from_keys:
  "distinct (map fst xs) \<Longrightarrow> map ((\<lambda>k. (k, the (map_of xs k))) \<circ> fst) xs = xs"
  by (rule map_idI) auto

locale ordered_map =
  fixes empty :: 'm
    and insert :: "'k::linorder \<Rightarrow> 'v \<Rightarrow> 'm \<Rightarrow> 'm"
    and remove :: "'k \<Rightarrow> 'm \<Rightarrow> 'm"
    and entries :: "'m \<Rightarrow> ('k \<times> 'v) list"
    and wf :: "'m \<Rightarrow> bool"
  assumes entries_empty: "entries empty = []"
    and wf_empty: "wf empty"
    and wf_insert: "wf m \<Longrightarrow> wf (insert k v m)"
    and wf_remove: "wf m \<Longrightarrow> wf (remove k m)"
    and entries_sorted: "wf m \<Longrightarrow> sorted_wrt (<) (map fst (entries m))"
    and lookup_insert: "wf m \<Longrightarrow>
      map_of (entries (insert k v m)) k' = (if k' = k then Some v else map_of (entries m) k')"
    and lookup_remove: "wf m \<Longrightarrow>
      map_of (entries (remove k m)) k' = (if k' = k then None else map_of (entries m) k')"
begin

lemma entries_distinct: "wf m \<Longrightarrow> distinct (map fst (entries m))"
  using entries_sorted strict_sorted_iff by blast

lemma entry_iff: "wf m \<Longrightarrow> (k, v) \<in> set (entries m) \<longleftrightarrow> map_of (entries m) k = Some v"
  by (simp add: entries_distinct)

text \<open>Iteration order is canonical: equal contents give equal entry lists.\<close>

lemma entries_canonical:
  assumes "wf m" "wf m'" "map_of (entries m) = map_of (entries m')"
  shows "entries m = entries m'"
proof -
  have "set (map fst (entries m)) = set (map fst (entries m'))"
    using arg_cong [OF assms(3), of dom] by (simp add: dom_map_of_conv_image_fst)
  then have keys: "map fst (entries m) = map fst (entries m')"
    using entries_sorted [OF assms(1)] entries_sorted [OF assms(2)] strict_sorted_equal by blast
  have "entries m = map (\<lambda>k. (k, the (map_of (entries m) k))) (map fst (entries m))"
    by (simp add: alist_from_keys entries_distinct assms(1))
  also have "\<dots> = map (\<lambda>k. (k, the (map_of (entries m') k))) (map fst (entries m'))"
    by (simp only: keys assms(3))
  also have "\<dots> = entries m'"
    by (simp add: alist_from_keys entries_distinct assms(2))
  finally show ?thesis .
qed

text \<open>
  A loop that inserts or removes one key per step: it keeps the map well formed, and its
  effect on lookups is the same loop on the abstract map.
\<close>

lemma wf_fold_upd:
  "wf m \<Longrightarrow> wf (fold (\<lambda>x m. if del x then remove (key x) m else insert (key x) (val x) m) xs m)"
  by (induction xs arbitrary: m) (simp_all add: wf_insert wf_remove)

lemma lookup_fold_upd:
  "wf m \<Longrightarrow>
   map_of (entries (fold (\<lambda>x m. if del x then remove (key x) m else insert (key x) (val x) m) xs m)) =
   fold (\<lambda>x f. f(key x := if del x then None else Some (val x))) xs (map_of (entries m))"
proof (induction xs arbitrary: m)
  case Nil
  then show ?case by simp
next
  case (Cons x xs)
  have "map_of (entries (insert k v m)) = (map_of (entries m))(k := Some v)"
    and "map_of (entries (remove k m)) = (map_of (entries m))(k := None)" for k v
    by (rule ext; simp add: lookup_insert lookup_remove Cons.prems)+
  with Cons show ?case by (simp add: wf_insert wf_remove)
qed

text \<open>The first entry has the least key, the last entry the greatest.\<close>

lemma entries_hd_least:
  "wf m \<Longrightarrow> entries m = (k, v) # es \<Longrightarrow> (k', v') \<in> set (entries m) \<Longrightarrow> k \<le> k'"
  using entries_sorted [of m] by (force simp: less_imp_le)

lemma entries_last_greatest:
  "wf m \<Longrightarrow> entries m = es @ [(k, v)] \<Longrightarrow> (k', v') \<in> set (entries m) \<Longrightarrow> k' \<le> k"
  using entries_sorted [of m] by (force simp: sorted_wrt_append less_imp_le)

end

lemma bt_insert_keys: "set (map fst (bt_insert k v m)) = insert k (set (map fst m))"
  by (induction k v m rule: bt_insert.induct) auto

lemma bt_remove_subset: "set (bt_remove k m) \<subseteq> set m"
  by (induction k m rule: bt_remove.induct) auto

lemma bt_wf_Cons: "bt_wf ((k, v) # m) \<longleftrightarrow> (\<forall>k' \<in> fst ` set m. k < k') \<and> bt_wf m"
  by (simp add: bt_wf_def)

lemma bt_wf_insert: "bt_wf m \<Longrightarrow> bt_wf (bt_insert k v m)"
proof (induction k v m rule: bt_insert.induct)
  case (2 k v k' v' m)
  then show ?case
    using bt_insert_keys [of k v m] by (auto simp: bt_wf_Cons)
qed (simp add: bt_wf_def)

lemma bt_wf_remove: "bt_wf m \<Longrightarrow> bt_wf (bt_remove k m)"
proof (induction k m rule: bt_remove.induct)
  case (2 k k' v' m)
  then show ?case
    using bt_remove_subset [of k m] by (auto simp: bt_wf_Cons)
qed simp

lemma map_of_bt_insert: "map_of (bt_insert k v m) k' = (if k' = k then Some v else map_of m k')"
  by (induction k v m rule: bt_insert.induct) auto

lemma map_of_below: "\<forall>k' \<in> fst ` set m. (k::'k::linorder) < k' \<Longrightarrow> map_of m k = None"
  by (auto simp: map_of_eq_None_iff)

lemma map_of_bt_remove:
  "bt_wf m \<Longrightarrow> map_of (bt_remove k m) k' = (if k' = k then None else map_of m k')"
proof (induction k m rule: bt_remove.induct)
  case (2 k k1 v1 m)
  then show ?case
    using map_of_below [of m k] map_of_below [of m k1]
    by (auto simp: bt_wf_Cons dest: order.strict_trans)
qed simp

interpretation btree: ordered_map "[] :: ('k::linorder, 'v) btree_map" bt_insert bt_remove id bt_wf
  by unfold_locales
    (auto simp: bt_wf_insert bt_wf_remove map_of_bt_insert map_of_bt_remove, simp_all add: bt_wf_def)

end
