(* ===== verification/Order_Book.thy ===== *)
theory Order_Book
  imports BTree_Map Messages
begin

text \<open>
  The single-symbol book of \<open>crates/order-book/src/lib.rs\<close>: two \<open>BTreeMap\<close>s from price to
  quantity, the last update id and the staleness flag, with every operation of
  \<open>OrderBook\<close>. The abstract view of a side is its lookup function; the lemmas relate
  each operation to it.
\<close>

section \<open>State and operations\<close>

record order_book =
  ob_bids :: "(i64, i64) btree_map"
  ob_asks :: "(i64, i64) btree_map"
  ob_symbol :: string
  ob_last_update_id :: u64
  ob_stale :: bool
  ob_stale_reason :: "book_stale_reason option"

definition OrderBook_new :: "string \<Rightarrow> order_book" where
  "OrderBook_new symbol =
     \<lparr>ob_bids = [], ob_asks = [], ob_symbol = symbol, ob_last_update_id = 0,
      ob_stale = False, ob_stale_reason = None\<rparr>"

definition bid_depth :: "order_book \<Rightarrow> nat" where
  "bid_depth b = length (ob_bids b)"

definition ask_depth :: "order_book \<Rightarrow> nat" where
  "ask_depth b = length (ob_asks b)"

definition book_is_empty :: "order_book \<Rightarrow> bool" where
  "book_is_empty b \<longleftrightarrow> ob_bids b = [] \<and> ob_asks b = []"

definition level_of :: "i64 \<times> i64 \<Rightarrow> price_level" where
  "level_of e = \<lparr>pl_price = fst e, pl_qty = snd e\<rparr>"

text \<open>\<open>iter().next_back()\<close> and \<open>iter().next()\<close>.\<close>

definition best_bid :: "order_book \<Rightarrow> price_level option" where
  "best_bid b = (case rev (ob_bids b) of [] \<Rightarrow> None | e # _ \<Rightarrow> Some (level_of e))"

definition best_ask :: "order_book \<Rightarrow> price_level option" where
  "best_ask b = (case ob_asks b of [] \<Rightarrow> None | e # _ \<Rightarrow> Some (level_of e))"

definition book_bids :: "order_book \<Rightarrow> price_level list" where
  "book_bids b = map level_of (rev (ob_bids b))"

definition book_asks :: "order_book \<Rightarrow> price_level list" where
  "book_asks b = map level_of (ob_asks b)"

definition mark_stale :: "book_stale_reason \<Rightarrow> order_book \<Rightarrow> order_book" where
  "mark_stale reason b = b\<lparr>ob_stale := True, ob_stale_reason := Some reason\<rparr>"

definition mark_recovered :: "order_book \<Rightarrow> order_book" where
  "mark_recovered b = b\<lparr>ob_stale := False, ob_stale_reason := None\<rparr>"

definition snapshot_side :: "price_level list \<Rightarrow> (i64, i64) btree_map" where
  "snapshot_side ls =
     fold (\<lambda>lvl m. if 0 < pl_qty lvl then bt_insert (pl_price lvl) (pl_qty lvl) m else m) ls []"

definition apply_snapshot :: "BookSnapshot \<Rightarrow> order_book \<Rightarrow> order_book" where
  "apply_snapshot snap b =
     b\<lparr>ob_bids := snapshot_side (bs_bids snap), ob_asks := snapshot_side (bs_asks snap),
       ob_last_update_id := bs_update_id snap\<rparr>"

definition apply_levels :: "(i64, i64) btree_map \<Rightarrow> price_level list \<Rightarrow> (i64, i64) btree_map" where
  "apply_levels side levels =
     fold (\<lambda>lvl side. if pl_qty lvl = 0 then bt_remove (pl_price lvl) side
                      else bt_insert (pl_price lvl) (pl_qty lvl) side) levels side"

definition apply_delta :: "BookDelta \<Rightarrow> order_book \<Rightarrow> order_book" where
  "apply_delta delta b =
     b\<lparr>ob_bids := apply_levels (ob_bids b) (bd_bids delta),
       ob_asks := apply_levels (ob_asks b) (bd_asks delta),
       ob_last_update_id := bd_final_update_id delta\<rparr>"

section \<open>Checksum\<close>

definition FNV_OFFSET :: u64 where "FNV_OFFSET = 14695981039346656037"
definition FNV_PRIME :: u64 where "FNV_PRIME = 1099511628211"

definition fnv_byte :: "u8 \<Rightarrow> u64 \<Rightarrow> u64" where
  "fnv_byte b h = (h XOR ucast b) * FNV_PRIME"

definition fnv_feed :: "u8 list \<Rightarrow> u64 \<Rightarrow> u64" where
  "fnv_feed bytes h = fold fnv_byte bytes h"

definition feed_entry :: "i64 \<times> i64 \<Rightarrow> u64 \<Rightarrow> u64" where
  "feed_entry e h =
     fnv_feed (le_bytes 8 (i64_word (snd e))) (fnv_feed (le_bytes 8 (i64_word (fst e))) h)"

definition book_checksum :: "order_book \<Rightarrow> u64" where
  "book_checksum b =
     (let h0 = fnv_feed (le_bytes 8 (ob_last_update_id b)) FNV_OFFSET;
          h1 = fold feed_entry (rev (ob_bids b)) h0
      in fold feed_entry (ob_asks b) h1)"

section \<open>Invariant\<close>

text \<open>
  Both sides iterate in strict price order and no level has quantity zero. Quantities are
  positive where every applied level has a non-negative one.
\<close>

definition side_wf :: "(i64, i64) btree_map \<Rightarrow> bool" where
  "side_wf m \<longleftrightarrow> bt_wf m \<and> (\<forall>e \<in> set m. snd e \<noteq> 0)"

definition side_positive :: "(i64, i64) btree_map \<Rightarrow> bool" where
  "side_positive m \<longleftrightarrow> (\<forall>e \<in> set m. 0 < snd e)"

definition book_wf :: "order_book \<Rightarrow> bool" where
  "book_wf b \<longleftrightarrow> side_wf (ob_bids b) \<and> side_wf (ob_asks b)"

definition book_positive :: "order_book \<Rightarrow> bool" where
  "book_positive b \<longleftrightarrow> side_positive (ob_bids b) \<and> side_positive (ob_asks b)"

definition levels_nonneg :: "price_level list \<Rightarrow> bool" where
  "levels_nonneg ls \<longleftrightarrow> (\<forall>l \<in> set ls. 0 \<le> pl_qty l)"

lemma set_bt_insert_subset: "set (bt_insert k v m) \<subseteq> insert (k, v) (set m)"
  by (induction k v m rule: bt_insert.induct) auto

lemma apply_levels_Nil [simp]: "apply_levels m [] = m"
  by (simp add: apply_levels_def)

lemma apply_levels_Cons [simp]:
  "apply_levels m (l # ls) =
     apply_levels (if pl_qty l = 0 then bt_remove (pl_price l) m
                   else bt_insert (pl_price l) (pl_qty l) m) ls"
  by (simp add: apply_levels_def)

lemma apply_levels_append: "apply_levels m (ls @ ls') = apply_levels (apply_levels m ls) ls'"
  by (simp add: apply_levels_def)

lemma apply_levels_wf: "side_wf m \<Longrightarrow> side_wf (apply_levels m ls)"
proof (induction ls arbitrary: m)
  case (Cons l ls)
  have "side_wf (bt_remove (pl_price l) m)"
    using Cons.prems bt_remove_subset [of "pl_price l" m] by (auto simp: side_wf_def bt_wf_remove)
  moreover have "pl_qty l \<noteq> 0 \<Longrightarrow> side_wf (bt_insert (pl_price l) (pl_qty l) m)"
    using Cons.prems set_bt_insert_subset [of "pl_price l" "pl_qty l" m]
    by (force simp: side_wf_def bt_wf_insert)
  ultimately show ?case using Cons.IH by simp
qed simp

lemma apply_levels_positive:
  "side_positive m \<Longrightarrow> levels_nonneg ls \<Longrightarrow> side_positive (apply_levels m ls)"
proof (induction ls arbitrary: m)
  case (Cons l ls)
  have "side_positive (bt_remove (pl_price l) m)"
    using Cons.prems bt_remove_subset [of "pl_price l" m] by (auto simp: side_positive_def)
  moreover have "pl_qty l \<noteq> 0 \<Longrightarrow> side_positive (bt_insert (pl_price l) (pl_qty l) m)"
    using Cons.prems set_bt_insert_subset [of "pl_price l" "pl_qty l" m]
    by (force simp: side_positive_def levels_nonneg_def)
  moreover have "levels_nonneg ls"
    using Cons.prems by (simp add: levels_nonneg_def)
  ultimately show ?case using Cons.IH by simp
qed simp

text \<open>A snapshot side is what the positive levels of the snapshot leave in an empty side.\<close>

lemma snapshot_side_levels:
  "snapshot_side ls = apply_levels [] (filter (\<lambda>l. 0 < pl_qty l) ls)"
proof -
  have "fold (\<lambda>lvl m. if 0 < pl_qty lvl then bt_insert (pl_price lvl) (pl_qty lvl) m else m) ls m =
      apply_levels m (filter (\<lambda>l. 0 < pl_qty l) ls)" for m
    by (induction ls arbitrary: m) auto
  then show ?thesis by (simp add: snapshot_side_def)
qed

lemma snapshot_side_wf [simp]: "side_wf (snapshot_side ls)"
  unfolding snapshot_side_levels by (rule apply_levels_wf) (simp add: side_wf_def bt_wf_def)

lemma snapshot_side_positive [simp]: "side_positive (snapshot_side ls)"
  unfolding snapshot_side_levels
  by (rule apply_levels_positive) (auto simp: side_positive_def levels_nonneg_def)

lemma book_wf_new [simp]: "book_wf (OrderBook_new s)"
  by (simp add: book_wf_def OrderBook_new_def side_wf_def bt_wf_def)

lemma book_wf_snapshot [simp]: "book_wf (apply_snapshot snap b)"
  by (simp add: book_wf_def apply_snapshot_def)

lemma book_wf_delta: "book_wf b \<Longrightarrow> book_wf (apply_delta d b)"
  by (simp add: book_wf_def apply_delta_def apply_levels_wf)

lemma book_wf_marks [simp]:
  "book_wf (mark_stale r b) = book_wf b" "book_wf (mark_recovered b) = book_wf b"
  by (simp_all add: book_wf_def mark_stale_def mark_recovered_def)

lemma book_positive_snapshot [simp]: "book_positive (apply_snapshot snap b)"
  by (simp add: book_positive_def apply_snapshot_def)

lemma book_positive_delta:
  "book_positive b \<Longrightarrow> levels_nonneg (bd_bids d) \<Longrightarrow> levels_nonneg (bd_asks d) \<Longrightarrow>
   book_positive (apply_delta d b)"
  by (simp add: book_positive_def apply_delta_def apply_levels_positive)

section \<open>Abstract view\<close>

text \<open>
  A side as a partial function from prices to quantities, and the effect of a list of
  levels on it: the last level for a price decides, quantity zero removes the price.
\<close>

type_synonym abs_side = "i64 \<rightharpoonup> i64"

definition set_level :: "price_level \<Rightarrow> abs_side \<Rightarrow> abs_side" where
  "set_level l f = f(pl_price l := if pl_qty l = 0 then None else Some (pl_qty l))"

definition set_levels :: "price_level list \<Rightarrow> abs_side \<Rightarrow> abs_side" where
  "set_levels ls f = fold set_level ls f"

lemma set_levels_simps [simp]:
  "set_levels [] f = f" "set_levels (l # ls) f = set_levels ls (set_level l f)"
  "set_levels (ls @ ls') f = set_levels ls' (set_levels ls f)"
  by (simp_all add: set_levels_def)

lemma apply_levels_abs:
  assumes "bt_wf m"
  shows "map_of (apply_levels m ls) = set_levels ls (map_of m)"
  using btree.lookup_fold_upd [of m "\<lambda>l. pl_qty l = 0" pl_price pl_qty ls] assms
  by (simp add: apply_levels_def set_levels_def set_level_def [abs_def])

lemma set_levels_lookup:
  "set_levels ls f p =
     (case find (\<lambda>l. pl_price l = p) (rev ls) of
        None \<Rightarrow> f p
      | Some l \<Rightarrow> if pl_qty l = 0 then None else Some (pl_qty l))"
proof (induction ls rule: rev_induct)
  case (snoc l ls)
  then show ?case by (simp add: set_level_def)
qed simp

text \<open>Setting a list of levels twice in a row changes nothing the second time.\<close>

lemma set_levels_idem: "set_levels ls (set_levels ls f) = set_levels ls f"
  by (rule ext) (simp add: set_levels_lookup split: option.splits)

lemma book_wf_sides [simp]: "book_wf b \<Longrightarrow> bt_wf (ob_bids b)" "book_wf b \<Longrightarrow> bt_wf (ob_asks b)"
  by (simp_all add: book_wf_def side_wf_def)

lemma apply_delta_abs:
  assumes "book_wf b"
  shows "map_of (ob_bids (apply_delta d b)) = set_levels (bd_bids d) (map_of (ob_bids b))"
    and "map_of (ob_asks (apply_delta d b)) = set_levels (bd_asks d) (map_of (ob_asks b))"
  using assms by (simp_all add: apply_delta_def apply_levels_abs)

section \<open>Best levels\<close>

lemma best_bid_Some_iff: "best_bid b = Some l \<longleftrightarrow> (\<exists>es. ob_bids b = es @ [(pl_price l, pl_qty l)])"
  by (cases "ob_bids b" rule: rev_cases) (auto simp: best_bid_def level_of_def)

lemma best_ask_Some_iff: "best_ask b = Some l \<longleftrightarrow> (\<exists>es. ob_asks b = (pl_price l, pl_qty l) # es)"
  by (cases "ob_asks b") (auto simp: best_ask_def level_of_def)

section \<open>What the checksum sees\<close>

text \<open>The byte stream that is hashed, and the hash as one pass over it.\<close>

definition entry_bytes :: "i64 \<times> i64 \<Rightarrow> u8 list" where
  "entry_bytes e = le_bytes 8 (i64_word (fst e)) @ le_bytes 8 (i64_word (snd e))"

definition book_stream :: "order_book \<Rightarrow> u8 list" where
  "book_stream b =
     le_bytes 8 (ob_last_update_id b) @ concat (map entry_bytes (rev (ob_bids b))) @
     concat (map entry_bytes (ob_asks b))"

lemma fold_feed_entry: "fold feed_entry es h = fnv_feed (concat (map entry_bytes es)) h"
  by (induction es arbitrary: h) (simp_all add: fnv_feed_def feed_entry_def entry_bytes_def)

lemma checksum_stream: "book_checksum b = fnv_feed (book_stream b) FNV_OFFSET"
  unfolding book_checksum_def Let_def fold_feed_entry by (simp add: book_stream_def fnv_feed_def)

text \<open>The prime is odd, so each step of the hash is invertible: no state is merged.\<close>

lemma fnv_prime_inverse: "FNV_PRIME * 14886173955864302971 = 1"
  by (simp add: FNV_PRIME_def)

lemma fnv_mult_inj: "x * FNV_PRIME = y * FNV_PRIME \<longleftrightarrow> x = y"
proof
  assume "x * FNV_PRIME = y * FNV_PRIME"
  then have "x * FNV_PRIME * 14886173955864302971 = y * FNV_PRIME * 14886173955864302971"
    by (rule arg_cong)
  then show "x = y"
    by (simp only: mult.assoc fnv_prime_inverse mult_1_right)
qed simp

lemma xor_cancel: "x XOR w = y XOR w \<longleftrightarrow> x = (y :: u64)"
proof
  assume "x XOR w = y XOR w"
  then have "(x XOR w) XOR w = (y XOR w) XOR w"
    by (rule arg_cong)
  then show "x = y" by (simp add: xor.assoc)
qed simp

lemma ucast_byte_inj: "(ucast b :: u64) = ucast c \<longleftrightarrow> b = (c :: u8)"
proof
  have down: "ucast (ucast x :: u64) = x" for x :: u8
    by (rule bit_word_eqI) (simp add: bit_simps)
  assume "(ucast b :: u64) = ucast c"
  then have "(ucast (ucast b :: u64) :: u8) = ucast (ucast c :: u64)"
    by (rule arg_cong)
  then show "b = c" by (simp only: down)
qed simp

lemma fnv_byte_inj: "fnv_byte b h = fnv_byte b h' \<longleftrightarrow> h = h'"
  by (simp add: fnv_byte_def fnv_mult_inj xor_cancel)

lemma fnv_byte_inj_byte: "fnv_byte b h = fnv_byte c h \<longleftrightarrow> b = c"
proof -
  have "h XOR ucast b = ucast b XOR h" "h XOR ucast c = ucast c XOR h"
    by (simp_all only: xor.commute)
  then show ?thesis
    by (simp only: fnv_byte_def fnv_mult_inj xor_cancel ucast_byte_inj)
qed

lemma fnv_feed_inj: "fnv_feed bs h = fnv_feed bs h' \<longleftrightarrow> h = h'"
  by (induction bs arbitrary: h h') (simp_all add: fnv_feed_def fnv_byte_inj)

lemma fnv_feed_append: "fnv_feed (bs @ cs) h = fnv_feed cs (fnv_feed bs h)"
  by (simp add: fnv_feed_def)

lemma fnv_single_byte:
  "fnv_feed (xs @ a # ys) h = fnv_feed (xs @ b # ys) h \<longleftrightarrow> a = b"
proof -
  have "fnv_feed (x # ys) g = fnv_feed ys (fnv_byte x g)" for x g
    by (simp add: fnv_feed_def)
  then show ?thesis
    by (simp only: fnv_feed_append fnv_feed_inj fnv_byte_inj_byte)
qed

text \<open>The checksum is a function of the content.\<close>

lemma checksum_same_content:
  assumes "book_wf b" "book_wf b'" "map_of (ob_bids b) = map_of (ob_bids b')"
    and "map_of (ob_asks b) = map_of (ob_asks b')" "ob_last_update_id b = ob_last_update_id b'"
  shows "book_checksum b = book_checksum b'"
proof -
  have "ob_bids b = ob_bids b'" "ob_asks b = ob_asks b'"
    using btree.entries_canonical [of "ob_bids b" "ob_bids b'"]
      btree.entries_canonical [of "ob_asks b" "ob_asks b'"] assms by simp_all
  with assms(5) show ?thesis by (simp add: book_checksum_def)
qed

end
