(* ===== verification/Sequence.thy ===== *)
theory Sequence
  imports Messages
begin

text \<open>
  The depth-update sequence validators: \<open>SequenceValidator\<close> of
  \<open>crates/binance-spot-adapter/src/sequence.rs\<close> (\<open>sv_\<close>) and \<open>FuturesSequenceValidator\<close> of
  \<open>crates/binance-futures-adapter/src/sequence.rs\<close> (\<open>fv_\<close>). The locale
  \<open>depth_validator\<close> is what the recovery procedure relies on: which deltas are applied,
  that a gap stops everything until the next snapshot, and that an applied delta joins
  on to the position reached so far. Both validators are interpretations of it.
\<close>

section \<open>Spot\<close>

datatype sv_state =
    SV_AwaitingSnapshot
  | SV_Bridging (sv_snapshot_id: u64)
  | SV_Active (sv_last_final: u64)
  | SV_Stale (sv_last_valid: u64)

datatype sv_result =
    SV_Apply
  | SV_Discard
  | SV_Gap (sv_expected: u64) (sv_actual: u64) (sv_gap_last_valid: u64)
  | SV_Buffering

record sequence_validator =
  sv_state :: sv_state

definition sv_new :: sequence_validator where
  "sv_new = \<lparr>sv_state = SV_AwaitingSnapshot\<rparr>"

definition sv_on_snapshot :: "u64 \<Rightarrow> sequence_validator \<Rightarrow> sequence_validator" where
  "sv_on_snapshot last_update_id v = v\<lparr>sv_state := SV_Bridging last_update_id\<rparr>"

definition sv_validate :: "u64 \<Rightarrow> u64 \<Rightarrow> sequence_validator \<Rightarrow> sv_result \<times> sequence_validator" where
  "sv_validate first final v =
     (case sv_state v of
        SV_AwaitingSnapshot \<Rightarrow> (SV_Buffering, v)
      | SV_Bridging snapshot_id \<Rightarrow>
          if final \<le> snapshot_id then (SV_Discard, v)
          else if first \<le> snapshot_id + 1 then (SV_Apply, v\<lparr>sv_state := SV_Active final\<rparr>)
          else (SV_Gap (snapshot_id + 1) first snapshot_id, v\<lparr>sv_state := SV_Stale snapshot_id\<rparr>)
      | SV_Active last_final \<Rightarrow>
          let expected = last_final + 1 in
          if first = expected then (SV_Apply, v\<lparr>sv_state := SV_Active final\<rparr>)
          else if first > expected then
            (SV_Gap expected first last_final, v\<lparr>sv_state := SV_Stale last_final\<rparr>)
          else (SV_Discard, v)
      | SV_Stale _ \<Rightarrow> (SV_Buffering, v))"

definition sv_last_valid_id :: "sequence_validator \<Rightarrow> u64 option" where
  "sv_last_valid_id v =
     (case sv_state v of
        SV_AwaitingSnapshot \<Rightarrow> None
      | SV_Bridging snapshot_id \<Rightarrow> Some snapshot_id
      | SV_Active last_final \<Rightarrow> Some last_final
      | SV_Stale last_valid \<Rightarrow> Some last_valid)"

definition sv_reset :: "sequence_validator \<Rightarrow> sequence_validator" where
  "sv_reset v = v\<lparr>sv_state := SV_AwaitingSnapshot\<rparr>"

section \<open>Futures\<close>

datatype fv_state =
    FV_AwaitingSnapshot
  | FV_Bridging (fv_snapshot_id: u64)
  | FV_Active (fv_last_final: u64)
  | FV_Stale (fv_last_valid: u64)

datatype fv_result =
    FV_Apply
  | FV_Discard
  | FV_Gap (fv_expected_pu: u64) (fv_actual_pu: u64) (fv_gap_last_valid: u64)
  | FV_Buffering

record futures_validator =
  fv_state :: fv_state

definition fv_new :: futures_validator where
  "fv_new = \<lparr>fv_state = FV_AwaitingSnapshot\<rparr>"

definition fv_on_snapshot :: "u64 \<Rightarrow> futures_validator \<Rightarrow> futures_validator" where
  "fv_on_snapshot last_update_id v = v\<lparr>fv_state := FV_Bridging last_update_id\<rparr>"

definition fv_validate ::
  "u64 \<Rightarrow> u64 \<Rightarrow> u64 \<Rightarrow> futures_validator \<Rightarrow> fv_result \<times> futures_validator" where
  "fv_validate first final prev_final v =
     (case fv_state v of
        FV_AwaitingSnapshot \<Rightarrow> (FV_Buffering, v)
      | FV_Bridging snapshot_id \<Rightarrow>
          if final \<le> snapshot_id then (FV_Discard, v)
          else if first \<le> snapshot_id + 1 then (FV_Apply, v\<lparr>fv_state := FV_Active final\<rparr>)
          else (FV_Gap snapshot_id prev_final snapshot_id, v\<lparr>fv_state := FV_Stale snapshot_id\<rparr>)
      | FV_Active last_final \<Rightarrow>
          if prev_final = last_final then (FV_Apply, v\<lparr>fv_state := FV_Active final\<rparr>)
          else if prev_final < last_final then (FV_Discard, v)
          else (FV_Gap last_final prev_final last_final, v\<lparr>fv_state := FV_Stale last_final\<rparr>)
      | FV_Stale _ \<Rightarrow> (FV_Buffering, v))"

definition fv_last_valid_id :: "futures_validator \<Rightarrow> u64 option" where
  "fv_last_valid_id v =
     (case fv_state v of
        FV_AwaitingSnapshot \<Rightarrow> None
      | FV_Bridging snapshot_id \<Rightarrow> Some snapshot_id
      | FV_Active last_final \<Rightarrow> Some last_final
      | FV_Stale last_valid \<Rightarrow> Some last_valid)"

definition fv_reset :: "futures_validator \<Rightarrow> futures_validator" where
  "fv_reset v = v\<lparr>fv_state := FV_AwaitingSnapshot\<rparr>"

section \<open>The contract\<close>

text \<open>The four kinds of answer, without the payload of a gap.\<close>

datatype verdict = Apply | Discard | Gap | Buffering

fun sv_kind :: "sv_result \<Rightarrow> verdict" where
  "sv_kind SV_Apply = Apply"
| "sv_kind SV_Discard = Discard"
| "sv_kind (SV_Gap _ _ _) = Gap"
| "sv_kind SV_Buffering = Buffering"

fun fv_kind :: "fv_result \<Rightarrow> verdict" where
  "fv_kind FV_Apply = Apply"
| "fv_kind FV_Discard = Discard"
| "fv_kind (FV_Gap _ _ _) = Gap"
| "fv_kind FV_Buffering = Buffering"

text \<open>
  \<open>check d\<close> answers for a delta, \<open>live\<close> says that a snapshot has been applied and no gap
  seen since, \<open>position\<close> is the last update id covered. \<open>ev_ok\<close> is what the exchange
  guarantees of a single event and \<open>lo d\<close> the first update id the event covers.
\<close>

locale depth_validator =
  fixes check :: "BookDelta \<Rightarrow> 'st \<Rightarrow> 'res \<times> 'st"
    and kind :: "'res \<Rightarrow> verdict"
    and on_snapshot :: "u64 \<Rightarrow> 'st \<Rightarrow> 'st"
    and live :: "'st \<Rightarrow> bool"
    and position :: "'st \<Rightarrow> u64 option"
    and ev_ok :: "BookDelta \<Rightarrow> bool"
    and lo :: "BookDelta \<Rightarrow> nat"
  assumes snapshot_live: "live (on_snapshot s st)"
    and snapshot_position: "position (on_snapshot s st) = Some s"
    and live_position: "live st \<Longrightarrow> \<exists>p. position st = Some p"
    and apply_live: "check d st = (r, st') \<Longrightarrow> kind r = Apply \<Longrightarrow> live st \<and> live st'"
    and apply_position:
      "check d st = (r, st') \<Longrightarrow> kind r = Apply \<Longrightarrow> position st' = Some (bd_final_update_id d)"
    and apply_joins: "check d st = (r, st') \<Longrightarrow> kind r = Apply \<Longrightarrow> ev_ok d \<Longrightarrow>
      position st = Some p \<Longrightarrow> lo d \<le> unat p + 1 \<and> unat p \<le> unat (bd_final_update_id d)"
    and discard_state: "check d st = (r, st') \<Longrightarrow> kind r = Discard \<Longrightarrow> st' = st"
    and discard_live: "check d st = (r, st') \<Longrightarrow> kind r = Discard \<Longrightarrow> live st"
    and gap_stops: "check d st = (r, st') \<Longrightarrow> kind r = Gap \<Longrightarrow>
      live st \<and> \<not> live st' \<and> position st' = position st"
    and stopped_buffers: "\<not> live st \<Longrightarrow> check d st = (r, st') \<Longrightarrow> kind r = Buffering \<and> st' = st"
    and live_no_buffering: "live st \<Longrightarrow> check d st = (r, st') \<Longrightarrow> kind r \<noteq> Buffering"
begin

text \<open>The deltas of a stream that are applied, and the state behind the stream.\<close>

fun accepted :: "BookDelta list \<Rightarrow> 'st \<Rightarrow> BookDelta list" where
  "accepted [] st = []"
| "accepted (d # ds) st =
     (let (r, st') = check d st in
      if kind r = Apply then d # accepted ds st' else accepted ds st')"

fun run :: "BookDelta list \<Rightarrow> 'st \<Rightarrow> 'st" where
  "run [] st = st"
| "run (d # ds) st = run ds (snd (check d st))"

text \<open>A chain from \<open>p\<close>: every delta starts at most one id behind and never moves back.\<close>

fun chain :: "nat \<Rightarrow> BookDelta list \<Rightarrow> bool" where
  "chain p [] = True"
| "chain p (d # ds) =
     (lo d \<le> p + 1 \<and> p \<le> unat (bd_final_update_id d) \<and> chain (unat (bd_final_update_id d)) ds)"

lemma stopped_accepts_nothing: "\<not> live st \<Longrightarrow> accepted ds st = [] \<and> run ds st = st"
proof (induction ds)
  case (Cons d ds)
  obtain r st' where "check d st = (r, st')" by (cases "check d st")
  with Cons stopped_buffers [OF Cons.prems] show ?case by auto
qed simp

lemma accepted_chain:
  assumes "\<forall>d \<in> set ds. ev_ok d" "live st" "position st = Some p"
  shows "chain (unat p) (accepted ds st)"
  using assms
proof (induction ds arbitrary: st p)
  case (Cons d ds)
  obtain r st' where c: "check d st = (r, st')" by (cases "check d st")
  show ?case
  proof (cases "kind r")
    case Apply
    with Cons c apply_live [OF c] apply_position [OF c] apply_joins [OF c] show ?thesis by simp
  next
    case Discard
    with Cons c discard_state [OF c] show ?thesis by simp
  next
    case Gap
    with Cons c gap_stops [OF c] show ?thesis by (simp add: stopped_accepts_nothing)
  next
    case Buffering
    with Cons c live_no_buffering show ?thesis by blast
  qed
qed simp

text \<open>While live, the position is the last accepted final id (or where it started).\<close>

lemma position_run:
  assumes "position st = Some p"
  shows "position (run ds st) = Some (last (p # map bd_final_update_id (accepted ds st)))"
  using assms
proof (induction ds arbitrary: st p)
  case (Cons d ds)
  obtain r st' where c: "check d st = (r, st')" by (cases "check d st")
  show ?case
  proof (cases "kind r")
    case Apply
    with Cons c apply_position [OF c] show ?thesis by simp
  next
    case Discard
    with Cons c discard_state [OF c] show ?thesis by simp
  next
    case Gap
    with Cons c gap_stops [OF c] show ?thesis by simp
  next
    case Buffering
    with c stopped_buffers [of st d r st'] live_no_buffering [of st d r st'] have "st' = st" by blast
    with Cons c Buffering show ?thesis by simp
  qed
qed simp

end

section \<open>The validators satisfy it\<close>

definition sv_check :: "BookDelta \<Rightarrow> sequence_validator \<Rightarrow> sv_result \<times> sequence_validator" where
  "sv_check d v = sv_validate (bd_first_update_id d) (bd_final_update_id d) v"

definition fv_check :: "BookDelta \<Rightarrow> futures_validator \<Rightarrow> fv_result \<times> futures_validator" where
  "fv_check d v =
     fv_validate (bd_first_update_id d) (bd_final_update_id d) (bd_prev_update_id d) v"

fun sv_live_state :: "sv_state \<Rightarrow> bool" where
  "sv_live_state (SV_Bridging _) = True"
| "sv_live_state (SV_Active _) = True"
| "sv_live_state _ = False"

fun fv_live_state :: "fv_state \<Rightarrow> bool" where
  "fv_live_state (FV_Bridging _) = True"
| "fv_live_state (FV_Active _) = True"
| "fv_live_state _ = False"

definition sv_live :: "sequence_validator \<Rightarrow> bool" where
  "sv_live v = sv_live_state (sv_state v)"

definition fv_live :: "futures_validator \<Rightarrow> bool" where
  "fv_live v = fv_live_state (fv_state v)"

text \<open>
  What Binance documents of one event: on Spot \<open>1 \<le> U \<le> u\<close>, covering \<open>U .. u\<close>; on
  Futures \<open>pu < U \<le> u\<close>, covering everything after \<open>pu\<close> up to \<open>u\<close>.
\<close>

definition sv_ev_ok :: "BookDelta \<Rightarrow> bool" where
  "sv_ev_ok d \<longleftrightarrow> 1 \<le> bd_first_update_id d \<and> bd_first_update_id d \<le> bd_final_update_id d"

definition fv_ev_ok :: "BookDelta \<Rightarrow> bool" where
  "fv_ev_ok d \<longleftrightarrow>
     bd_prev_update_id d < bd_first_update_id d \<and> bd_first_update_id d \<le> bd_final_update_id d"

definition sv_lo :: "BookDelta \<Rightarrow> nat" where
  "sv_lo d = unat (bd_first_update_id d)"

definition fv_lo :: "BookDelta \<Rightarrow> nat" where
  "fv_lo d = unat (bd_prev_update_id d) + 1"

lemma unat_succ_le: "a \<le> b + 1 \<Longrightarrow> unat (a :: u64) \<le> unat b + 1"
proof -
  have "unat (b + 1) \<le> unat b + 1"
    by (simp add: unat_word_ariths)
  then show "a \<le> b + 1 \<Longrightarrow> unat a \<le> unat b + 1"
    by (simp add: word_le_nat_alt)
qed

lemma unat_succ_eq: "1 \<le> (b :: u64) + 1 \<Longrightarrow> unat (b + 1) = unat b + 1"
  by (cases "1 + b = 0") (simp_all add: unatSuc add.commute)

lemmas sv_defs = sv_check_def sv_validate_def sv_live_def sv_last_valid_id_def sv_on_snapshot_def

lemmas fv_defs = fv_check_def fv_validate_def fv_live_def fv_last_valid_id_def fv_on_snapshot_def

interpretation sv: depth_validator sv_check sv_kind sv_on_snapshot sv_live sv_last_valid_id
  sv_ev_ok sv_lo
proof
  fix d v r v' p
  assume c: "sv_check d v = (r, v')"
  assume k: "sv_kind r = Apply" and ok: "sv_ev_ok d" and p: "sv_last_valid_id v = Some p"
  show "sv_lo d \<le> unat p + 1 \<and> unat p \<le> unat (bd_final_update_id d)"
  proof (cases "sv_state v")
    case (SV_Bridging s)
    with c k p have "bd_first_update_id d \<le> p + 1" "p < bd_final_update_id d"
      by (auto simp: sv_defs split: if_splits)
    then show ?thesis
      using unat_succ_le by (auto simp: sv_lo_def word_less_nat_alt)
  next
    case (SV_Active l)
    with c k p have "bd_first_update_id d = p + 1"
      by (auto simp: sv_defs Let_def split: if_splits)
    then have "unat (bd_first_update_id d) = unat p + 1"
      using ok by (simp add: sv_ev_ok_def unat_succ_eq)
    then show ?thesis
      using ok by (simp add: sv_lo_def sv_ev_ok_def word_le_nat_alt)
  qed (use c k in \<open>auto simp: sv_defs\<close>)
qed (auto simp: sv_defs Let_def split: sv_state.splits if_splits)

interpretation fv: depth_validator fv_check fv_kind fv_on_snapshot fv_live fv_last_valid_id
  fv_ev_ok fv_lo
proof
  fix d v r v' p
  assume c: "fv_check d v = (r, v')"
  assume k: "fv_kind r = Apply" and ok: "fv_ev_ok d" and p: "fv_last_valid_id v = Some p"
  show "fv_lo d \<le> unat p + 1 \<and> unat p \<le> unat (bd_final_update_id d)"
  proof (cases "fv_state v")
    case (FV_Bridging s)
    with c k p have "bd_first_update_id d \<le> p + 1" "p < bd_final_update_id d"
      by (auto simp: fv_defs split: if_splits)
    then show ?thesis
      using unat_succ_le [of "bd_first_update_id d" p] ok
      by (auto simp: fv_lo_def fv_ev_ok_def word_less_nat_alt)
  next
    case (FV_Active l)
    with c k p have "bd_prev_update_id d = p"
      by (auto simp: fv_defs split: if_splits)
    then show ?thesis
      using ok by (auto simp: fv_lo_def fv_ev_ok_def word_le_nat_alt word_less_nat_alt)
  qed (use c k in \<open>auto simp: fv_defs\<close>)
qed (auto simp: fv_defs split: fv_state.splits if_splits)

end
