(* ===== verification/Exchange_Spec.thy ===== *)
theory Exchange_Spec
  imports Order_Book Sequence
begin

text \<open>
  The abstract specification of a recovered book: the exchange's own book. A history
  gives, for every update id, the level changes the exchange made at that id; the book at
  id \<open>n\<close> is what the changes \<open>1 .. n\<close> leave. Nothing here is code: it says what the
  order book of the adapters has to equal.
\<close>

type_synonym history = "nat \<Rightarrow> price_level list"

definition exch_side :: "history \<Rightarrow> nat \<Rightarrow> abs_side" where
  "exch_side h n = set_levels (concat (map h [1..<Suc n])) Map.empty"

text \<open>A list of levels carries the net effect of the changes \<open>lo .. hi\<close>.\<close>

definition covers :: "history \<Rightarrow> nat \<Rightarrow> nat \<Rightarrow> price_level list \<Rightarrow> bool" where
  "covers h lo hi ls \<longleftrightarrow> (\<forall>f. set_levels ls f = set_levels (concat (map h [lo..<Suc hi])) f)"

definition event_faithful :: "history \<Rightarrow> history \<Rightarrow> (BookDelta \<Rightarrow> nat) \<Rightarrow> BookDelta \<Rightarrow> bool" where
  "event_faithful hb ha lo d \<longleftrightarrow>
     covers hb (lo d) (unat (bd_final_update_id d)) (bd_bids d) \<and>
     covers ha (lo d) (unat (bd_final_update_id d)) (bd_asks d)"

definition snapshot_faithful :: "history \<Rightarrow> history \<Rightarrow> BookSnapshot \<Rightarrow> bool" where
  "snapshot_faithful hb ha snap \<longleftrightarrow>
     map_of (snapshot_side (bs_bids snap)) = exch_side hb (unat (bs_update_id snap)) \<and>
     map_of (snapshot_side (bs_asks snap)) = exch_side ha (unat (bs_update_id snap))"

text \<open>The book of the adapter is the exchange's book at its own last update id.\<close>

definition book_exact :: "history \<Rightarrow> history \<Rightarrow> order_book \<Rightarrow> bool" where
  "book_exact hb ha b \<longleftrightarrow>
     book_wf b \<and>
     map_of (ob_bids b) = exch_side hb (unat (ob_last_update_id b)) \<and>
     map_of (ob_asks b) = exch_side ha (unat (ob_last_update_id b))"

text \<open>
  Levels carry absolute quantities, so applying an event again, or an event that overlaps
  the changes the book already has, leads to the same book.
\<close>

lemma exch_side_extend:
  assumes "1 \<le> lo" "lo \<le> p + 1" "p \<le> hi" "covers h lo hi ls"
  shows "set_levels ls (exch_side h p) = exch_side h hi"
proof -
  let ?L = "\<lambda>a b. concat (map h [a..<b])"
  have lo_p: "[1..<Suc p] = [1..<lo] @ [lo..<Suc p]"
    using assms(1,2) upt_add_eq_append [of 1 lo "Suc p - lo"] by simp
  have lo_hi: "[lo..<Suc hi] = [lo..<Suc p] @ [Suc p..<Suc hi]"
    using assms(2,3) upt_add_eq_append [of lo "Suc p" "hi - p"] by simp
  have p_hi: "[1..<Suc hi] = [1..<Suc p] @ [Suc p..<Suc hi]"
    using assms(3) upt_add_eq_append [of 1 "Suc p" "hi - p"] by simp
  have "set_levels ls (exch_side h p) = set_levels (?L lo (Suc hi)) (exch_side h p)"
    using assms(4) by (simp only: covers_def)
  also have "\<dots> = set_levels (?L (Suc p) (Suc hi)) (set_levels (?L lo (Suc p)) (exch_side h p))"
    by (simp only: lo_hi map_append concat_append set_levels_simps)
  also have "set_levels (?L lo (Suc p)) (exch_side h p) = exch_side h p"
    by (simp only: exch_side_def lo_p map_append concat_append set_levels_simps set_levels_idem)
  also have "set_levels (?L (Suc p) (Suc hi)) (exch_side h p) = exch_side h hi"
    by (simp only: exch_side_def p_hi map_append concat_append set_levels_simps)
  finally show ?thesis .
qed

lemma book_exact_delta:
  assumes "book_exact hb ha b" "event_faithful hb ha lo d" "1 \<le> lo d"
    and "lo d \<le> unat (ob_last_update_id b) + 1"
    and "unat (ob_last_update_id b) \<le> unat (bd_final_update_id d)"
  shows "book_exact hb ha (apply_delta d b)"
proof -
  have wf: "book_wf b" using assms(1) by (simp add: book_exact_def)
  have last: "ob_last_update_id (apply_delta d b) = bd_final_update_id d"
    by (simp add: apply_delta_def)
  show ?thesis
    using assms wf
    by (simp add: book_exact_def book_wf_delta last apply_delta_abs event_faithful_def
        exch_side_extend)
qed

lemma book_exact_snapshot: "snapshot_faithful hb ha snap \<Longrightarrow> book_exact hb ha (apply_snapshot snap b)"
  by (simp add: book_exact_def snapshot_faithful_def apply_snapshot_def book_wf_def)

lemma book_exact_marks [simp]:
  "book_exact hb ha (mark_stale r b) = book_exact hb ha b"
  "book_exact hb ha (mark_recovered b) = book_exact hb ha b"
  by (simp_all add: book_exact_def mark_stale_def mark_recovered_def book_wf_def)

text \<open>Applying what a contiguity check lets through keeps the book exact.\<close>

context depth_validator
begin

lemma chain_exact:
  assumes "chain (unat (ob_last_update_id b)) ds" "book_exact hb ha b"
    and "\<forall>d \<in> set ds. event_faithful hb ha lo d \<and> 1 \<le> lo d"
  shows "book_exact hb ha (fold apply_delta ds b)"
  using assms
proof (induction ds arbitrary: b)
  case (Cons d ds)
  have "book_exact hb ha (apply_delta d b)"
    using Cons.prems by (auto intro: book_exact_delta)
  moreover have "ob_last_update_id (apply_delta d b) = bd_final_update_id d"
    by (simp add: apply_delta_def)
  ultimately show ?case using Cons by simp
qed simp

lemma accepted_subset: "set (accepted ds st) \<subseteq> set ds"
  by (induction ds arbitrary: st) (auto simp: Let_def split: prod.splits if_splits)

lemma fold_last_update_id:
  "ob_last_update_id (fold apply_delta ds b) =
     last (ob_last_update_id b # map bd_final_update_id ds)"
  by (induction ds arbitrary: b) (simp_all add: apply_delta_def)

text \<open>The validator is at the book's id and the book is the exchange's.\<close>

definition synced :: "history \<Rightarrow> history \<Rightarrow> 'st \<Rightarrow> order_book \<Rightarrow> bool" where
  "synced hb ha st b \<longleftrightarrow> position st = Some (ob_last_update_id b) \<and> book_exact hb ha b"

theorem accepted_synced:
  assumes "live st" "synced hb ha st b"
    and "\<forall>d \<in> set ds. ev_ok d \<and> event_faithful hb ha lo d \<and> 1 \<le> lo d"
  shows "synced hb ha (run ds st) (fold apply_delta (accepted ds st) b)"
proof -
  have p: "position st = Some (ob_last_update_id b)" and e: "book_exact hb ha b"
    using assms(2) by (simp_all add: synced_def)
  have "chain (unat (ob_last_update_id b)) (accepted ds st)"
    using assms(1,3) p by (auto intro: accepted_chain)
  moreover have "\<forall>d \<in> set (accepted ds st). event_faithful hb ha lo d \<and> 1 \<le> lo d"
    using assms(3) accepted_subset by blast
  ultimately show ?thesis
    using e position_run [OF p] by (simp add: synced_def chain_exact fold_last_update_id)
qed

end

end
