(* ===== verification/Recovery_Buffer.thy ===== *)
theory Recovery_Buffer
  imports Messages
begin

text \<open>
  The per-symbol buffer of depth deltas kept while a book is stale:
  \<open>crates/binance-spot-adapter/src/recovery_buffer.rs\<close> and, line for line the same
  logic, \<open>crates/binance-futures-adapter/src/recovery_buffer.rs\<close>. Three limits, checked
  in the order age, count, bytes. The locale \<open>event_buffer\<close> is what the recovery
  procedure needs of a buffer.
\<close>

section \<open>State and operations\<close>

definition MAX_EVENTS :: nat where "MAX_EVENTS = 2048"
definition MAX_BYTES :: nat where "MAX_BYTES = 4 * 1024 * 1024"
definition MAX_AGE_NS :: i64 where "MAX_AGE_NS = 10000000000"

record buffered_delta =
  bfd_delta :: BookDelta
  bfd_recv_ts :: i64
  bfd_encoded_size :: nat

datatype overflow_reason = Age | EventCount | ByteSize

datatype push_result = Accepted | Overflow overflow_reason

record recovery_buffer =
  rb_events :: "buffered_delta list"
  rb_total_bytes :: nat
  rb_max_events :: nat
  rb_max_bytes :: nat
  rb_max_age_ns :: i64

definition rb_with_limits :: "nat \<Rightarrow> nat \<Rightarrow> i64 \<Rightarrow> recovery_buffer" where
  "rb_with_limits max_events max_bytes max_age_ns =
     \<lparr>rb_events = [], rb_total_bytes = 0, rb_max_events = max_events,
      rb_max_bytes = max_bytes, rb_max_age_ns = max_age_ns\<rparr>"

definition rb_new :: recovery_buffer where
  "rb_new = rb_with_limits MAX_EVENTS MAX_BYTES MAX_AGE_NS"

definition usize_saturating_add :: "nat \<Rightarrow> nat \<Rightarrow> nat" where
  "usize_saturating_add a b = min (2 ^ 64 - 1) (a + b)"

definition rb_too_old :: "i64 \<Rightarrow> recovery_buffer \<Rightarrow> bool" where
  "rb_too_old recv_ts b =
     (case rb_events b of
        [] \<Rightarrow> False
      | oldest # _ \<Rightarrow> rb_max_age_ns b < i64_saturating_sub recv_ts (bfd_recv_ts oldest))"

definition rb_push ::
  "BookDelta \<Rightarrow> i64 \<Rightarrow> nat \<Rightarrow> recovery_buffer \<Rightarrow> push_result \<times> recovery_buffer" where
  "rb_push delta recv_ts encoded_size b =
     (if rb_too_old recv_ts b then (Overflow Age, b)
      else if rb_max_events b \<le> length (rb_events b) then (Overflow EventCount, b)
      else if rb_max_bytes b < usize_saturating_add (rb_total_bytes b) encoded_size
        then (Overflow ByteSize, b)
      else (Accepted,
        b\<lparr>rb_total_bytes := rb_total_bytes b + encoded_size,
          rb_events := rb_events b @
            [\<lparr>bfd_delta = delta, bfd_recv_ts = recv_ts, bfd_encoded_size = encoded_size\<rparr>]\<rparr>))"

definition rb_drain_after :: "u64 \<Rightarrow> recovery_buffer \<Rightarrow> buffered_delta list \<times> recovery_buffer" where
  "rb_drain_after snapshot_id b =
     (filter (\<lambda>e. snapshot_id < bd_final_update_id (bfd_delta e)) (rb_events b),
      b\<lparr>rb_events := [], rb_total_bytes := 0\<rparr>)"

definition rb_clear :: "recovery_buffer \<Rightarrow> recovery_buffer" where
  "rb_clear b = b\<lparr>rb_events := [], rb_total_bytes := 0\<rparr>"

definition rb_oldest_recv_ts :: "recovery_buffer \<Rightarrow> i64 option" where
  "rb_oldest_recv_ts b = (case rb_events b of [] \<Rightarrow> None | e # _ \<Rightarrow> Some (bfd_recv_ts e))"

section \<open>Invariant\<close>

text \<open>
  The byte counter is the sum of the buffered sizes, count and bytes are within their
  limits, and nothing buffered is younger than the oldest event by more than the age limit.
\<close>

definition rb_sizes :: "recovery_buffer \<Rightarrow> nat list" where
  "rb_sizes b = map bfd_encoded_size (rb_events b)"

definition rb_fresh :: "recovery_buffer \<Rightarrow> bool" where
  "rb_fresh b =
     (case rb_events b of
        [] \<Rightarrow> True
      | oldest # rest \<Rightarrow>
          \<forall>e \<in> set rest. i64_saturating_sub (bfd_recv_ts e) (bfd_recv_ts oldest) \<le> rb_max_age_ns b)"

definition rb_wf :: "recovery_buffer \<Rightarrow> bool" where
  "rb_wf b \<longleftrightarrow>
     rb_total_bytes b = sum_list (rb_sizes b) \<and> length (rb_events b) \<le> rb_max_events b \<and>
     rb_total_bytes b \<le> rb_max_bytes b \<and> rb_fresh b \<and> rb_max_bytes b < 2 ^ 64 - 1"

lemma rb_wf_clear: "rb_wf b \<Longrightarrow> rb_wf (rb_clear b)"
  by (simp add: rb_wf_def rb_clear_def rb_sizes_def rb_fresh_def)

lemma rb_wf_drain: "rb_wf b \<Longrightarrow> rb_wf (snd (rb_drain_after s b))"
  by (simp add: rb_wf_def rb_drain_after_def rb_sizes_def rb_fresh_def)

lemma rb_wf_new: "rb_wf rb_new"
  by (simp add: rb_wf_def rb_new_def rb_with_limits_def rb_sizes_def rb_fresh_def MAX_BYTES_def)

lemma rb_wf_push:
  assumes wf: "rb_wf b"
  shows "rb_wf (snd (rb_push d t n b))"
proof (cases "fst (rb_push d t n b) = Accepted")
  case True
  then have fits: "\<not> rb_too_old t b" "length (rb_events b) < rb_max_events b"
      "usize_saturating_add (rb_total_bytes b) n \<le> rb_max_bytes b"
    by (auto simp: rb_push_def split: if_splits)
  then have bytes: "rb_total_bytes b + n \<le> rb_max_bytes b"
    using wf by (simp add: rb_wf_def usize_saturating_add_def min_def split: if_splits)
  let ?e = "\<lparr>bfd_delta = d, bfd_recv_ts = t, bfd_encoded_size = n\<rparr>"
  let ?b = "b\<lparr>rb_total_bytes := rb_total_bytes b + n, rb_events := rb_events b @ [?e]\<rparr>"
  have push: "snd (rb_push d t n b) = ?b"
    using True by (auto simp: rb_push_def split: if_splits)
  have "rb_fresh ?b"
    using wf fits(1)
    by (cases "rb_events b") (auto simp: rb_wf_def rb_fresh_def rb_too_old_def not_less)
  then show ?thesis
    using wf bytes fits unfolding push by (simp add: rb_wf_def rb_sizes_def)
next
  case False
  then have "snd (rb_push d t n b) = b"
    by (auto simp: rb_push_def split: if_splits)
  with wf show ?thesis by simp
qed

section \<open>The contract of an event buffer\<close>

locale event_buffer =
  fixes contents :: "'b \<Rightarrow> 'e list"
    and put :: "'e \<Rightarrow> 'b \<Rightarrow> bool \<times> 'b"
    and take_all :: "'b \<Rightarrow> 'e list \<times> 'b"
    and inv :: "'b \<Rightarrow> bool"
  assumes put_accepted: "put e b = (True, b') \<Longrightarrow> contents b' = contents b @ [e]"
    and put_refused: "put e b = (False, b') \<Longrightarrow> b' = b"
    and put_inv: "inv b \<Longrightarrow> inv (snd (put e b))"
    and take_empties: "contents (snd (take_all b)) = []"
    and take_inv: "inv b \<Longrightarrow> inv (snd (take_all b))"
begin

fun put_run :: "'e list \<Rightarrow> 'b \<Rightarrow> 'e list \<times> 'b" where
  "put_run [] b = ([], b)"
| "put_run (e # es) b =
     (let (ok, b') = put e b; (acc, b'') = put_run es b'
      in (if ok then e # acc else acc, b''))"

text \<open>A run of pushes appends exactly the accepted events, in order, and keeps the limits.\<close>

lemma put_run_contents: "put_run es b = (acc, b') \<Longrightarrow> contents b' = contents b @ acc"
proof (induction es arbitrary: b acc)
  case (Cons e es)
  obtain ok b1 where p: "put e b = (ok, b1)" by (cases "put e b")
  obtain acc1 where r: "put_run es b1 = (acc1, b')" "acc = (if ok then e # acc1 else acc1)"
    using Cons.prems p by (auto split: prod.splits)
  show ?case
    using Cons.IH [OF r(1)] r(2) put_accepted [of e b b1] put_refused [of e b b1] p
    by (cases ok) auto
qed simp

lemma put_run_inv: "inv b \<Longrightarrow> inv (snd (put_run es b))"
proof (induction es arbitrary: b)
  case (Cons e es)
  then show ?case using put_inv [of b e] by (auto split: prod.splits) (metis snd_conv)
qed simp

end

definition rb_put :: "buffered_delta \<Rightarrow> recovery_buffer \<Rightarrow> bool \<times> recovery_buffer" where
  "rb_put e b =
     (let (r, b') = rb_push (bfd_delta e) (bfd_recv_ts e) (bfd_encoded_size e) b
      in (r = Accepted, b'))"

interpretation rb: event_buffer rb_events rb_put "rb_drain_after s" rb_wf for s
proof
  fix e b b'
  show "rb_put e b = (True, b') \<Longrightarrow> rb_events b' = rb_events b @ [e]"
    by (auto simp: rb_put_def rb_push_def split: if_splits)
  show "rb_put e b = (False, b') \<Longrightarrow> b' = b"
    by (auto simp: rb_put_def rb_push_def split: if_splits)
  show "rb_wf b \<Longrightarrow> rb_wf (snd (rb_put e b))"
    using rb_wf_push by (simp add: rb_put_def case_prod_beta Let_def)
  show "rb_wf b \<Longrightarrow> rb_wf (snd (rb_drain_after s b))"
    by (rule rb_wf_drain)
  show "rb_events (snd (rb_drain_after s b)) = []"
    by (simp add: rb_drain_after_def)
qed

end
