(* ===== verification/Recovery.thy ===== *)
theory Recovery
  imports Exchange_Spec Recovery_Buffer
begin

text \<open>
  The recovery procedure: \<open>crates/binance-spot-adapter/src/recovery.rs\<close> and
  \<open>crates/binance-futures-adapter/src/recovery.rs\<close>. A REST snapshot replaces the book, the
  validator restarts from it and the buffered deltas are replayed. The locale
  \<open>recovery_replay\<close> extends the validator contract by the replay loop; the two adapters
  interpret it, and the exactness of the recovered book is proved once.
\<close>

record recovery_outcome =
  ro_snapshot_id :: u64
  ro_replayed :: nat
  ro_discarded :: nat

section \<open>spot\<close>

datatype 'e spot_recovery_error = SpotSnapshotFetch 'e | SpotGapInReplay u64 u64

text \<open>The loop over the drained candidates: counters, early return on a gap.\<close>

fun spot_replay ::
  "buffered_delta list \<Rightarrow> order_book \<Rightarrow> sequence_validator \<Rightarrow> nat \<Rightarrow> nat \<Rightarrow>
   ('e spot_recovery_error + nat \<times> nat) \<times> order_book \<times> sequence_validator" where
  "spot_replay [] book v replayed discarded = (Inr (replayed, discarded), book, v)"
| "spot_replay (e # es) book v replayed discarded =
     (case sv_validate (bd_first_update_id (bfd_delta e)) (bd_final_update_id (bfd_delta e)) v of
        (SV_Apply, v') \<Rightarrow>
          spot_replay es (apply_delta (bfd_delta e) book) v' (replayed + 1) discarded
      | (SV_Discard, v') \<Rightarrow> spot_replay es book v' replayed (discarded + 1)
      | (SV_Gap expected actual _, v') \<Rightarrow> (Inl (SpotGapInReplay expected actual), book, v')
      | (SV_Buffering, v') \<Rightarrow> spot_replay es book v' replayed (discarded + 1))"

definition apply_spot_snapshot ::
  "BookSnapshot \<Rightarrow> order_book \<Rightarrow> sequence_validator \<Rightarrow> recovery_buffer \<Rightarrow>
   ('e spot_recovery_error + recovery_outcome) \<times> order_book \<times> sequence_validator \<times> recovery_buffer" where
  "apply_spot_snapshot snapshot book validator buf =
     (let snapshot_id = bs_update_id snapshot;
          book1 = apply_snapshot snapshot book;
          validator1 = sv_on_snapshot snapshot_id validator;
          (candidates, buf1) = rb_drain_after snapshot_id buf
      in case spot_replay candidates book1 validator1 0 0 of
           (Inl err, book2, validator2) \<Rightarrow> (Inl err, book2, validator2, buf1)
         | (Inr (replayed, discarded), book2, validator2) \<Rightarrow>
             (Inr \<lparr>ro_snapshot_id = snapshot_id, ro_replayed = replayed, ro_discarded = discarded\<rparr>,
              mark_recovered book2, validator2, buf1))"

text \<open>The async wrapper, with the answer of the REST client as its argument.\<close>

definition run_spot_recovery ::
  "'e + BookSnapshot \<Rightarrow> order_book \<Rightarrow> sequence_validator \<Rightarrow> recovery_buffer \<Rightarrow>
   ('e spot_recovery_error + recovery_outcome) \<times> order_book \<times> sequence_validator \<times> recovery_buffer" where
  "run_spot_recovery fetched book validator buf =
     (case fetched of
        Inl err \<Rightarrow> (Inl (SpotSnapshotFetch err), book, validator, buf)
      | Inr snapshot \<Rightarrow> apply_spot_snapshot snapshot book validator buf)"

section \<open>futures\<close>

datatype 'e futures_recovery_error = FuturesSnapshotFetch 'e | FuturesGapInReplay u64 u64

text \<open>The loop over the drained candidates: counters, early return on a gap.\<close>

fun futures_replay ::
  "buffered_delta list \<Rightarrow> order_book \<Rightarrow> futures_validator \<Rightarrow> nat \<Rightarrow> nat \<Rightarrow>
   ('e futures_recovery_error + nat \<times> nat) \<times> order_book \<times> futures_validator" where
  "futures_replay [] book v replayed discarded = (Inr (replayed, discarded), book, v)"
| "futures_replay (e # es) book v replayed discarded =
     (case fv_validate (bd_first_update_id (bfd_delta e)) (bd_final_update_id (bfd_delta e))
             (bd_prev_update_id (bfd_delta e)) v of
        (FV_Apply, v') \<Rightarrow>
          futures_replay es (apply_delta (bfd_delta e) book) v' (replayed + 1) discarded
      | (FV_Discard, v') \<Rightarrow> futures_replay es book v' replayed (discarded + 1)
      | (FV_Gap expected_pu actual_pu _, v') \<Rightarrow> (Inl (FuturesGapInReplay expected_pu actual_pu), book, v')
      | (FV_Buffering, v') \<Rightarrow> futures_replay es book v' replayed (discarded + 1))"

definition apply_futures_snapshot ::
  "BookSnapshot \<Rightarrow> order_book \<Rightarrow> futures_validator \<Rightarrow> recovery_buffer \<Rightarrow>
   ('e futures_recovery_error + recovery_outcome) \<times> order_book \<times> futures_validator \<times> recovery_buffer" where
  "apply_futures_snapshot snapshot book validator buf =
     (let snapshot_id = bs_update_id snapshot;
          book1 = apply_snapshot snapshot book;
          validator1 = fv_on_snapshot snapshot_id validator;
          (candidates, buf1) = rb_drain_after snapshot_id buf
      in case futures_replay candidates book1 validator1 0 0 of
           (Inl err, book2, validator2) \<Rightarrow> (Inl err, book2, validator2, buf1)
         | (Inr (replayed, discarded), book2, validator2) \<Rightarrow>
             (Inr \<lparr>ro_snapshot_id = snapshot_id, ro_replayed = replayed, ro_discarded = discarded\<rparr>,
              mark_recovered book2, validator2, buf1))"

text \<open>The async wrapper, with the answer of the REST client as its argument.\<close>

definition run_futures_recovery ::
  "'e + BookSnapshot \<Rightarrow> order_book \<Rightarrow> futures_validator \<Rightarrow> recovery_buffer \<Rightarrow>
   ('e futures_recovery_error + recovery_outcome) \<times> order_book \<times> futures_validator \<times> recovery_buffer" where
  "run_futures_recovery fetched book validator buf =
     (case fetched of
        Inl err \<Rightarrow> (Inl (FuturesSnapshotFetch err), book, validator, buf)
      | Inr snapshot \<Rightarrow> apply_futures_snapshot snapshot book validator buf)"

section \<open>The contract of a replay loop\<close>

locale recovery_replay = depth_validator check kind on_snapshot live position ev_ok lo
  for check :: "BookDelta \<Rightarrow> 'st \<Rightarrow> 'res \<times> 'st"
    and kind on_snapshot live position ev_ok lo +
  fixes replay :: "buffered_delta list \<Rightarrow> order_book \<Rightarrow> 'st \<Rightarrow> nat \<Rightarrow> nat \<Rightarrow>
      ('err + nat \<times> nat) \<times> order_book \<times> 'st"
    and gap_error :: "'res \<Rightarrow> 'err"
  assumes lo_pos: "ev_ok d \<Longrightarrow> 1 \<le> lo d"
    and replay_Nil: "replay [] b st n k = (Inr (n, k), b, st)"
    and replay_Cons: "check (bfd_delta e) st = (r, st') \<Longrightarrow> replay (e # es) b st n k =
      (case kind r of
         Apply \<Rightarrow> replay es (apply_delta (bfd_delta e) b) st' (n + 1) k
       | Discard \<Rightarrow> replay es b st' n (k + 1)
       | Gap \<Rightarrow> (Inl (gap_error r), b, st')
       | Buffering \<Rightarrow> replay es b st' n (k + 1))"
begin

text \<open>
  From a live validator the loop applies exactly the accepted deltas, in order; it
  returns an error exactly when the validator has stopped at a gap.
\<close>

lemma replay_effect:
  assumes "live st" "replay es b st n k = (res, b', st')"
  shows "b' = fold apply_delta (accepted (map bfd_delta es) st) b \<and>
    st' = run (map bfd_delta es) st \<and> (live st' \<longleftrightarrow> \<not> isl res)"
  using assms
proof (induction es arbitrary: b st n k)
  case Nil
  then show ?case by (auto simp: replay_Nil)
next
  case (Cons e es)
  obtain r s where c: "check (bfd_delta e) st = (r, s)" by (cases "check (bfd_delta e) st")
  show ?case
  proof (cases "kind r")
    case Apply
    with Cons.prems c have "replay es (apply_delta (bfd_delta e) b) s (n + 1) k = (res, b', st')"
      by (simp add: replay_Cons)
    with Cons.IH apply_live [OF c Apply] have
      "b' = fold apply_delta (accepted (map bfd_delta es) s) (apply_delta (bfd_delta e) b) \<and>
       st' = run (map bfd_delta es) s \<and> (live st' \<longleftrightarrow> \<not> isl res)"
      by blast
    moreover have "accepted (map bfd_delta (e # es)) st =
        bfd_delta e # accepted (map bfd_delta es) s" "run (map bfd_delta (e # es)) st =
        run (map bfd_delta es) s"
      using Apply c by simp_all
    ultimately show ?thesis by (metis fold_simps(2))
  next
    case Discard
    with Cons.prems c have "replay es b s n (k + 1) = (res, b', st')"
      by (simp add: replay_Cons)
    with Cons.IH Cons.prems(1) discard_state [OF c Discard] have
      "b' = fold apply_delta (accepted (map bfd_delta es) s) b \<and>
       st' = run (map bfd_delta es) s \<and> (live st' \<longleftrightarrow> \<not> isl res)"
      by blast
    moreover have "accepted (map bfd_delta (e # es)) st = accepted (map bfd_delta es) s"
        "run (map bfd_delta (e # es)) st = run (map bfd_delta es) s"
      using Discard c by simp_all
    ultimately show ?thesis by metis
  next
    case Gap
    with Cons c gap_stops [OF c] stopped_accepts_nothing [of s "map bfd_delta es"]
    show ?thesis by (auto simp: replay_Cons)
  next
    case Buffering
    with Cons.prems(1) c show ?thesis using live_no_buffering by blast
  qed
qed

text \<open>Every candidate is counted once.\<close>

lemma replay_counts:
  "replay es b st n k = (Inr (n', k'), b', st') \<Longrightarrow> n' + k' = n + k + length es"
proof (induction es arbitrary: b st n k)
  case Nil
  then show ?case by (simp add: replay_Nil)
next
  case (Cons e es)
  obtain r s where c: "check (bfd_delta e) st = (r, s)" by (cases "check (bfd_delta e) st")
  then show ?case
    using Cons by (auto simp: replay_Cons split: verdict.splits dest!: Cons.IH)
qed

theorem replay_synced:
  assumes "live st" "synced hb ha st b" "replay es b st n k = (res, b', st')"
    and "\<forall>e \<in> set es. ev_ok (bfd_delta e) \<and> event_faithful hb ha lo (bfd_delta e)"
  shows "synced hb ha st' b'"
proof -
  have "\<forall>d \<in> set (map bfd_delta es). ev_ok d \<and> event_faithful hb ha lo d \<and> 1 \<le> lo d"
    using assms(4) lo_pos by auto
  from accepted_synced [OF assms(1,2) this] replay_effect [OF assms(1,3)] show ?thesis by simp
qed

end

definition sv_gap_error :: "sv_result \<Rightarrow> 'e spot_recovery_error" where
  "sv_gap_error r = SpotGapInReplay (sv_expected r) (sv_actual r)"

definition fv_gap_error :: "fv_result \<Rightarrow> 'e futures_recovery_error" where
  "fv_gap_error r = FuturesGapInReplay (fv_expected_pu r) (fv_actual_pu r)"

interpretation spot: recovery_replay sv_check sv_kind sv_on_snapshot sv_live sv_last_valid_id
  sv_ev_ok sv_lo spot_replay sv_gap_error
proof
  show "sv_ev_ok d \<Longrightarrow> 1 \<le> sv_lo d" for d
    by (simp add: sv_ev_ok_def sv_lo_def word_le_nat_alt)
  fix e :: buffered_delta and es r and v v' :: sequence_validator and b n k
  assume "sv_check (bfd_delta e) v = (r, v')"
  then show "spot_replay (e # es) b v n k =
      (case sv_kind r of
         Apply \<Rightarrow> spot_replay es (apply_delta (bfd_delta e) b) v' (n + 1) k
       | Discard \<Rightarrow> spot_replay es b v' n (k + 1)
       | Gap \<Rightarrow> (Inl (sv_gap_error r), b, v')
       | Buffering \<Rightarrow> spot_replay es b v' n (k + 1))"
    by (cases r) (simp_all add: sv_check_def sv_gap_error_def)
qed simp

interpretation futures: recovery_replay fv_check fv_kind fv_on_snapshot fv_live fv_last_valid_id
  fv_ev_ok fv_lo futures_replay fv_gap_error
proof
  show "fv_ev_ok d \<Longrightarrow> 1 \<le> fv_lo d" for d
    by (simp add: fv_lo_def)
  fix e :: buffered_delta and es r and v v' :: futures_validator and b n k
  assume "fv_check (bfd_delta e) v = (r, v')"
  then show "futures_replay (e # es) b v n k =
      (case fv_kind r of
         Apply \<Rightarrow> futures_replay es (apply_delta (bfd_delta e) b) v' (n + 1) k
       | Discard \<Rightarrow> futures_replay es b v' n (k + 1)
       | Gap \<Rightarrow> (Inl (fv_gap_error r), b, v')
       | Buffering \<Rightarrow> futures_replay es b v' n (k + 1))"
    by (cases r) (simp_all add: fv_check_def fv_gap_error_def)
qed simp

section \<open>The recovered book\<close>

lemma apply_spot_snapshot_replay:
  assumes "apply_spot_snapshot snap book v buf = (res, book', v', buf')"
  obtains r book2 where
    "spot_replay (fst (rb_drain_after (bs_update_id snap) buf)) (apply_snapshot snap book)
       (sv_on_snapshot (bs_update_id snap) v) 0 0 = (r, book2, v')"
    "book' = (case r of Inl _ \<Rightarrow> book2 | Inr _ \<Rightarrow> mark_recovered book2)"
    "(\<exists>e. res = Inl e \<and> r = Inl e) \<or>
     (\<exists>n k. r = Inr (n, k) \<and> res = Inr \<lparr>ro_snapshot_id = bs_update_id snap, ro_replayed = n, ro_discarded = k\<rparr>)"
    "rb_events buf' = []"
  using assms
  by (auto simp: apply_spot_snapshot_def Let_def rb_drain_after_def split: prod.splits sum.splits)

lemma apply_futures_snapshot_replay:
  assumes "apply_futures_snapshot snap book v buf = (res, book', v', buf')"
  obtains r book2 where
    "futures_replay (fst (rb_drain_after (bs_update_id snap) buf)) (apply_snapshot snap book)
       (fv_on_snapshot (bs_update_id snap) v) 0 0 = (r, book2, v')"
    "book' = (case r of Inl _ \<Rightarrow> book2 | Inr _ \<Rightarrow> mark_recovered book2)"
    "(\<exists>e. res = Inl e \<and> r = Inl e) \<or>
     (\<exists>n k. r = Inr (n, k) \<and> res = Inr \<lparr>ro_snapshot_id = bs_update_id snap, ro_replayed = n, ro_discarded = k\<rparr>)"
    "rb_events buf' = []"
  using assms
  by (auto simp: apply_futures_snapshot_def Let_def rb_drain_after_def split: prod.splits sum.splits)

lemma snapshot_synced_spot:
  "snapshot_faithful hb ha snap \<Longrightarrow>
   sv.synced hb ha (sv_on_snapshot (bs_update_id snap) v) (apply_snapshot snap b)"
  using book_exact_snapshot [of hb ha snap b]
  by (simp add: sv.synced_def sv.snapshot_position apply_snapshot_def)

lemma snapshot_synced_futures:
  "snapshot_faithful hb ha snap \<Longrightarrow>
   fv.synced hb ha (fv_on_snapshot (bs_update_id snap) v) (apply_snapshot snap b)"
  using book_exact_snapshot [of hb ha snap b]
  by (simp add: fv.synced_def fv.snapshot_position apply_snapshot_def)

text \<open>Everything that is drained was buffered.\<close>

lemma drained_subset: "set (fst (rb_drain_after s buf)) \<subseteq> set (rb_events buf)"
  by (auto simp: rb_drain_after_def)

end
