(* ===== verification/Circuit_Breaker.thy ===== *)
theory Circuit_Breaker
  imports Prelude
begin

text \<open>
  The consecutive-failure circuit breaker of
  \<open>crates/binance-spot-adapter/src/circuit_breaker.rs\<close> (and its Futures copy):
  \<open>check\<close> gates every recovery attempt, the outcome is recorded afterwards.
\<close>

section \<open>State and operations\<close>

definition MAX_ATTEMPTS :: u32 where "MAX_ATTEMPTS = 5"
definition COOLDOWN_NS :: i64 where "COOLDOWN_NS = 30000000000"

datatype circuit_state = Closed | Open (retry_after_ns: i64)

record circuit_breaker =
  cb_failures :: u32
  cb_max_attempts :: u32
  cb_cooldown_ns :: i64
  cb_open_until :: "i64 option"

definition cb_with_limits :: "u32 \<Rightarrow> i64 \<Rightarrow> circuit_breaker" where
  "cb_with_limits max_attempts cooldown_ns =
     \<lparr>cb_failures = 0, cb_max_attempts = max_attempts, cb_cooldown_ns = cooldown_ns,
      cb_open_until = None\<rparr>"

definition cb_new :: circuit_breaker where
  "cb_new = cb_with_limits MAX_ATTEMPTS COOLDOWN_NS"

definition cb_check :: "i64 \<Rightarrow> circuit_breaker \<Rightarrow> circuit_state \<times> circuit_breaker" where
  "cb_check now_ns c =
     (case cb_open_until c of
        Some until \<Rightarrow>
          if now_ns < until then (Open until, c)
          else (Closed, c\<lparr>cb_failures := 0, cb_open_until := None\<rparr>)
      | None \<Rightarrow> (Closed, c))"

definition cb_record_success :: "circuit_breaker \<Rightarrow> circuit_breaker" where
  "cb_record_success c = c\<lparr>cb_failures := 0, cb_open_until := None\<rparr>"

definition cb_record_failure :: "i64 \<Rightarrow> circuit_breaker \<Rightarrow> bool \<times> circuit_breaker" where
  "cb_record_failure now_ns c =
     (if cb_open_until c \<noteq> None then (False, c)
      else
        let c' = c\<lparr>cb_failures := cb_failures c + 1\<rparr> in
        if cb_max_attempts c' \<le> cb_failures c'
        then (True, c'\<lparr>cb_open_until := Some (now_ns + cb_cooldown_ns c')\<rparr>)
        else (False, c'))"

section \<open>Steps and invariant\<close>

text \<open>Everything a caller can do with a breaker, with the clock it passes.\<close>

datatype cb_event = CbCheck i64 | CbSuccess | CbFailure i64

fun cb_step :: "cb_event \<Rightarrow> circuit_breaker \<Rightarrow> circuit_breaker" where
  "cb_step (CbCheck t) c = snd (cb_check t c)"
| "cb_step CbSuccess c = cb_record_success c"
| "cb_step (CbFailure t) c = snd (cb_record_failure t c)"

inductive cb_reachable :: "u32 \<Rightarrow> i64 \<Rightarrow> circuit_breaker \<Rightarrow> bool" for m k where
  cb_start: "cb_reachable m k (cb_with_limits m k)"
| cb_next: "cb_reachable m k c \<Longrightarrow> cb_reachable m k (cb_step e c)"

text \<open>While closed the counter is below the limit; it is open exactly at the limit.\<close>

definition cb_wf :: "circuit_breaker \<Rightarrow> bool" where
  "cb_wf c \<longleftrightarrow>
     (if cb_open_until c = None then cb_failures c < cb_max_attempts c
      else cb_failures c = cb_max_attempts c)"

lemma cb_succ_cases: "a < b \<Longrightarrow> a + 1 = b \<or> a + 1 < b" for a b :: u32
  using inc_le [of a b] by auto

lemma cb_wf_failure:
  "cb_wf c \<Longrightarrow> 0 < cb_max_attempts c \<Longrightarrow> cb_wf (snd (cb_record_failure t c))"
  using cb_succ_cases [of "cb_failures c" "cb_max_attempts c"]
  by (auto simp: cb_wf_def cb_record_failure_def Let_def)

lemma cb_wf_step: "cb_wf c \<Longrightarrow> 0 < cb_max_attempts c \<Longrightarrow> cb_wf (cb_step e c)"
proof (cases e)
  case (CbFailure t)
  assume "cb_wf c" "0 < cb_max_attempts c"
  then show ?thesis using CbFailure cb_wf_failure by simp
qed (auto simp: cb_wf_def cb_check_def cb_record_success_def split: option.splits)

lemma cb_step_limits [simp]:
  "cb_max_attempts (cb_step e c) = cb_max_attempts c" "cb_cooldown_ns (cb_step e c) = cb_cooldown_ns c"
  by (cases e; auto simp: cb_check_def cb_record_success_def cb_record_failure_def Let_def
      split: option.splits)+

lemma cb_reachable_limits:
  "cb_reachable m k c \<Longrightarrow> cb_max_attempts c = m \<and> cb_cooldown_ns c = k"
  by (induction rule: cb_reachable.induct) (simp_all add: cb_with_limits_def)

lemma cb_reachable_wf: "cb_reachable m k c \<Longrightarrow> 0 < m \<Longrightarrow> cb_wf c"
proof (induction rule: cb_reachable.induct)
  case cb_start
  then show ?case by (simp add: cb_wf_def cb_with_limits_def)
next
  case (cb_next c e)
  then show ?case using cb_reachable_limits cb_wf_step by metis
qed

text \<open>Failures recorded one after the other at the given times.\<close>

fun cb_fail_run :: "i64 list \<Rightarrow> circuit_breaker \<Rightarrow> bool list \<times> circuit_breaker" where
  "cb_fail_run [] c = ([], c)"
| "cb_fail_run (t # ts) c =
     (let (opened, c') = cb_record_failure t c; (rest, c'') = cb_fail_run ts c'
      in (opened # rest, c''))"

end
