(* ===== verification/Bbo_Validator.thy ===== *)
theory Bbo_Validator
  imports Prelude
begin

text \<open>
  Top-of-book validation of \<open>crates/binance-spot-adapter/src/bbo_validator.rs\<close>: a timer
  that starts at the first disagreement between the book and the BBO stream and is
  cancelled by the first agreement.
\<close>

definition DEGRADE_NS :: i64 where "DEGRADE_NS = 250000000"
definition STALE_NS :: i64 where "STALE_NS = 1000000000"

datatype bbo_check_result = BboOk | Degrade (degrade_mismatch_ns: i64) | MarkStale (stale_mismatch_ns: i64)

record bbo_validator =
  bv_mismatch_since :: "i64 option"
  bv_degrade_ns :: i64
  bv_stale_ns :: i64

definition bv_with_thresholds :: "i64 \<Rightarrow> i64 \<Rightarrow> bbo_validator" where
  "bv_with_thresholds degrade_ns stale_ns =
     \<lparr>bv_mismatch_since = None, bv_degrade_ns = degrade_ns, bv_stale_ns = stale_ns\<rparr>"

definition bv_new :: bbo_validator where
  "bv_new = bv_with_thresholds DEGRADE_NS STALE_NS"

definition bv_clear :: "bbo_validator \<Rightarrow> bbo_validator" where
  "bv_clear v = v\<lparr>bv_mismatch_since := None\<rparr>"

definition bv_check ::
  "i64 \<Rightarrow> i64 option \<Rightarrow> i64 option \<Rightarrow> i64 \<Rightarrow> i64 \<Rightarrow> bbo_validator \<Rightarrow> bbo_check_result \<times> bbo_validator" where
  "bv_check now_ns book_bid_price book_ask_price bbo_bid_price bbo_ask_price v =
     (case (book_bid_price, book_ask_price) of
        (Some bb, Some ba) \<Rightarrow>
          if bb = bbo_bid_price \<and> ba = bbo_ask_price then (BboOk, v\<lparr>bv_mismatch_since := None\<rparr>)
          else
            let since = (case bv_mismatch_since v of Some t \<Rightarrow> t | None \<Rightarrow> now_ns);
                v' = v\<lparr>bv_mismatch_since := Some since\<rparr>;
                duration_ns = i64_saturating_sub now_ns since
            in if bv_stale_ns v' \<le> duration_ns then (MarkStale duration_ns, v')
               else if bv_degrade_ns v' \<le> duration_ns then (Degrade duration_ns, v')
               else (BboOk, v')
      | _ \<Rightarrow> (BboOk, v\<lparr>bv_mismatch_since := None\<rparr>))"

section \<open>Runs\<close>

text \<open>One BBO event: the time, the book's best prices and those of the stream.\<close>

record bbo_event =
  be_now :: i64
  be_book_bid :: "i64 option"
  be_book_ask :: "i64 option"
  be_bid :: i64
  be_ask :: i64

definition be_mismatch :: "bbo_event \<Rightarrow> bool" where
  "be_mismatch e \<longleftrightarrow>
     (\<exists>bb ba. be_book_bid e = Some bb \<and> be_book_ask e = Some ba \<and>
        \<not> (bb = be_bid e \<and> ba = be_ask e))"

definition bv_event :: "bbo_event \<Rightarrow> bbo_validator \<Rightarrow> bbo_check_result \<times> bbo_validator" where
  "bv_event e = bv_check (be_now e) (be_book_bid e) (be_book_ask e) (be_bid e) (be_ask e)"

definition bv_run :: "bbo_event list \<Rightarrow> bbo_validator \<Rightarrow> bbo_validator" where
  "bv_run es v = fold (\<lambda>e v. snd (bv_event e v)) es v"

text \<open>The time of the first event of the unbroken run of mismatches that ends the list.\<close>

definition mismatch_start :: "bbo_event list \<Rightarrow> i64 option" where
  "mismatch_start es =
     (case takeWhile be_mismatch (rev es) of [] \<Rightarrow> None | m # ms \<Rightarrow> Some (be_now (last (m # ms))))"

lemma bv_event_state:
  "snd (bv_event e v) =
     v\<lparr>bv_mismatch_since :=
        (if be_mismatch e
         then Some (case bv_mismatch_since v of Some t \<Rightarrow> t | None \<Rightarrow> be_now e) else None)\<rparr>"
  by (auto simp: bv_event_def bv_check_def be_mismatch_def Let_def split: option.splits)

lemma bv_run_snoc: "bv_run (es @ [e]) v = snd (bv_event e (bv_run es v))"
  by (simp add: bv_run_def)

lemma mismatch_start_snoc:
  "mismatch_start (es @ [e]) =
     (if be_mismatch e
      then Some (case mismatch_start es of Some t \<Rightarrow> t | None \<Rightarrow> be_now e) else None)"
  by (auto simp: mismatch_start_def split: list.splits)

text \<open>From a cleared validator the timer always shows where the current mismatch began.\<close>

lemma bv_run_since:
  "bv_mismatch_since v = None \<Longrightarrow>
   bv_run es v = v\<lparr>bv_mismatch_since := mismatch_start es\<rparr>"
proof (induction es rule: rev_induct)
  case Nil
  then show ?case by (simp add: bv_run_def mismatch_start_def)
next
  case (snoc e es)
  then show ?case by (simp add: bv_run_snoc bv_event_state mismatch_start_snoc)
qed

end
