(* ===== verification/Shard_Engine.thy ===== *)
theory Shard_Engine
  imports Recovery Circuit_Breaker Bbo_Validator
begin

text \<open>
  The per-symbol state bundles and the shard registries: \<open>symbol_state.rs\<close> and
  \<open>shard_engine.rs\<close> of both adapters. A registry is a hash map from symbol names to
  bundles; the locale \<open>symbol_registry\<close> is what its users rely on, and both engines
  interpret it. \<open>get_mut\<close> hands out a bundle to be changed in place: it is an update of
  the entry by a function.
\<close>

section \<open>Spot\<close>

record symbol_state =
  ss_inst :: InstrumentDefinition
  ss_book :: order_book
  ss_validator :: sequence_validator
  ss_recovery_buf :: recovery_buffer
  ss_circuit :: circuit_breaker
  ss_bbo_validator :: bbo_validator
  ss_feed_state :: feed_state

definition SymbolState_new :: "InstrumentDefinition \<Rightarrow> symbol_state" where
  "SymbolState_new inst =
     \<lparr>ss_inst = inst, ss_book = OrderBook_new (id_symbol inst), ss_validator = sv_new,
      ss_recovery_buf = rb_new, ss_circuit = cb_new, ss_bbo_validator = bv_new,
      ss_feed_state = FS_Connecting\<rparr>"

definition ss_symbol :: "symbol_state \<Rightarrow> string" where
  "ss_symbol s = id_symbol (ss_inst s)"

definition ss_is_stale :: "symbol_state \<Rightarrow> bool" where
  "ss_is_stale s = ob_stale (ss_book s)"

record shard_engine =
  se_shard_id :: u32
  se_symbols :: "(string, symbol_state) hash_map"

definition ShardEngine_new :: "u32 \<Rightarrow> shard_engine" where
  "ShardEngine_new shard_id = \<lparr>se_shard_id = shard_id, se_symbols = []\<rparr>"

definition se_add_symbol :: "InstrumentDefinition \<Rightarrow> shard_engine \<Rightarrow> shard_engine" where
  "se_add_symbol inst e =
     (case map_of (se_symbols e) (id_symbol inst) of
        Some _ \<Rightarrow> e
      | None \<Rightarrow>
          e\<lparr>se_symbols := AList.update (id_symbol inst) (SymbolState_new inst) (se_symbols e)\<rparr>)"

definition se_get :: "string \<Rightarrow> shard_engine \<Rightarrow> symbol_state option" where
  "se_get symbol e = map_of (se_symbols e) symbol"

definition se_get_mut ::
  "string \<Rightarrow> (symbol_state \<Rightarrow> symbol_state) \<Rightarrow> shard_engine \<Rightarrow> shard_engine" where
  "se_get_mut symbol f e =
     (case map_of (se_symbols e) symbol of
        None \<Rightarrow> e
      | Some s \<Rightarrow> e\<lparr>se_symbols := AList.update symbol (f s) (se_symbols e)\<rparr>)"

definition se_contains_symbol :: "string \<Rightarrow> shard_engine \<Rightarrow> bool" where
  "se_contains_symbol symbol e \<longleftrightarrow> map_of (se_symbols e) symbol \<noteq> None"

definition se_remove_symbol :: "string \<Rightarrow> shard_engine \<Rightarrow> symbol_state option \<times> shard_engine" where
  "se_remove_symbol symbol e =
     (map_of (se_symbols e) symbol, e\<lparr>se_symbols := AList.delete symbol (se_symbols e)\<rparr>)"

definition se_symbol_count :: "shard_engine \<Rightarrow> nat" where
  "se_symbol_count e = length (se_symbols e)"

definition se_is_empty :: "shard_engine \<Rightarrow> bool" where
  "se_is_empty e \<longleftrightarrow> se_symbols e = []"

definition se_symbol_names :: "shard_engine \<Rightarrow> string list" where
  "se_symbol_names e = map fst (se_symbols e)"

section \<open>Futures\<close>

text \<open>The same bundle without the BBO validator.\<close>

record futures_symbol_state =
  fss_inst :: InstrumentDefinition
  fss_book :: order_book
  fss_validator :: futures_validator
  fss_recovery_buf :: recovery_buffer
  fss_circuit :: circuit_breaker
  fss_feed_state :: feed_state

definition FuturesSymbolState_new :: "InstrumentDefinition \<Rightarrow> futures_symbol_state" where
  "FuturesSymbolState_new inst =
     \<lparr>fss_inst = inst, fss_book = OrderBook_new (id_symbol inst), fss_validator = fv_new,
      fss_recovery_buf = rb_new, fss_circuit = cb_new, fss_feed_state = FS_Connecting\<rparr>"

definition fss_symbol :: "futures_symbol_state \<Rightarrow> string" where
  "fss_symbol s = id_symbol (fss_inst s)"

definition fss_is_stale :: "futures_symbol_state \<Rightarrow> bool" where
  "fss_is_stale s = ob_stale (fss_book s)"

record futures_shard_engine =
  fse_shard_id :: u32
  fse_symbols :: "(string, futures_symbol_state) hash_map"

definition FuturesShardEngine_new :: "u32 \<Rightarrow> futures_shard_engine" where
  "FuturesShardEngine_new shard_id = \<lparr>fse_shard_id = shard_id, fse_symbols = []\<rparr>"

definition fse_add_symbol :: "InstrumentDefinition \<Rightarrow> futures_shard_engine \<Rightarrow> futures_shard_engine" where
  "fse_add_symbol inst e =
     (case map_of (fse_symbols e) (id_symbol inst) of
        Some _ \<Rightarrow> e
      | None \<Rightarrow>
          e\<lparr>fse_symbols :=
              AList.update (id_symbol inst) (FuturesSymbolState_new inst) (fse_symbols e)\<rparr>)"

definition fse_get :: "string \<Rightarrow> futures_shard_engine \<Rightarrow> futures_symbol_state option" where
  "fse_get symbol e = map_of (fse_symbols e) symbol"

definition fse_get_mut ::
  "string \<Rightarrow> (futures_symbol_state \<Rightarrow> futures_symbol_state) \<Rightarrow> futures_shard_engine \<Rightarrow>
   futures_shard_engine" where
  "fse_get_mut symbol f e =
     (case map_of (fse_symbols e) symbol of
        None \<Rightarrow> e
      | Some s \<Rightarrow> e\<lparr>fse_symbols := AList.update symbol (f s) (fse_symbols e)\<rparr>)"

definition fse_contains_symbol :: "string \<Rightarrow> futures_shard_engine \<Rightarrow> bool" where
  "fse_contains_symbol symbol e \<longleftrightarrow> map_of (fse_symbols e) symbol \<noteq> None"

definition fse_remove_symbol ::
  "string \<Rightarrow> futures_shard_engine \<Rightarrow> futures_symbol_state option \<times> futures_shard_engine" where
  "fse_remove_symbol symbol e =
     (map_of (fse_symbols e) symbol, e\<lparr>fse_symbols := AList.delete symbol (fse_symbols e)\<rparr>)"

definition fse_symbol_count :: "futures_shard_engine \<Rightarrow> nat" where
  "fse_symbol_count e = length (fse_symbols e)"

definition fse_is_empty :: "futures_shard_engine \<Rightarrow> bool" where
  "fse_is_empty e \<longleftrightarrow> fse_symbols e = []"

definition fse_symbol_names :: "futures_shard_engine \<Rightarrow> string list" where
  "fse_symbol_names e = map fst (fse_symbols e)"

section \<open>The contract of a registry\<close>

text \<open>
  \<open>add\<close> keeps what is registered and starts a new symbol from its initial state; a change
  in place and a removal touch only their own symbol.
\<close>

locale symbol_registry =
  fixes empty :: 'r
    and add :: "'i \<Rightarrow> 'r \<Rightarrow> 'r"
    and lookup :: "string \<Rightarrow> 'r \<Rightarrow> 's option"
    and change :: "string \<Rightarrow> ('s \<Rightarrow> 's) \<Rightarrow> 'r \<Rightarrow> 'r"
    and remove :: "string \<Rightarrow> 'r \<Rightarrow> 's option \<times> 'r"
    and name_of :: "'i \<Rightarrow> string"
    and initial :: "'i \<Rightarrow> 's"
  assumes lookup_empty: "lookup k empty = None"
    and lookup_add: "lookup k (add i r) =
      (if k = name_of i \<and> lookup k r = None then Some (initial i) else lookup k r)"
    and lookup_change: "lookup k (change k' f r) =
      (if k = k' then map_option f (lookup k r) else lookup k r)"
    and remove_result: "fst (remove k r) = lookup k r"
    and lookup_remove: "lookup k (snd (remove k' r)) = (if k = k' then None else lookup k r)"
begin

text \<open>What every bundle satisfies, if the initial ones do and every change keeps it.\<close>

definition all_states :: "(string \<Rightarrow> 's \<Rightarrow> bool) \<Rightarrow> 'r \<Rightarrow> bool" where
  "all_states P r \<longleftrightarrow> (\<forall>k s. lookup k r = Some s \<longrightarrow> P k s)"

lemma all_states_empty: "all_states P empty"
  by (simp add: all_states_def lookup_empty)

lemma all_states_add: "all_states P r \<Longrightarrow> P (name_of i) (initial i) \<Longrightarrow> all_states P (add i r)"
  by (auto simp: all_states_def lookup_add)

lemma all_states_change:
  "all_states P r \<Longrightarrow> (\<And>s. P k s \<Longrightarrow> P k (f s)) \<Longrightarrow> all_states P (change k f r)"
  by (auto simp: all_states_def lookup_change split: if_splits)

lemma all_states_remove: "all_states P r \<Longrightarrow> all_states P (snd (remove k r))"
  by (auto simp: all_states_def lookup_remove split: if_splits)

text \<open>The first definition of a symbol is the one that stays.\<close>

lemma fold_add_first:
  "lookup k (fold add is r) =
     (case lookup k r of
        Some s \<Rightarrow> Some s
      | None \<Rightarrow> map_option initial (find (\<lambda>i. name_of i = k) is))"
proof (induction "is" arbitrary: r)
  case (Cons i "is")
  show ?case by (cases "lookup k r") (auto simp: Cons.IH lookup_add)
qed (simp split: option.splits)

end

interpretation se: symbol_registry "ShardEngine_new n" se_add_symbol se_get se_get_mut
  se_remove_symbol id_symbol SymbolState_new for n
  by unfold_locales
    (auto simp: se_get_def se_add_symbol_def se_get_mut_def se_remove_symbol_def
      ShardEngine_new_def split: option.splits)

interpretation fse: symbol_registry "FuturesShardEngine_new n" fse_add_symbol fse_get fse_get_mut
  fse_remove_symbol id_symbol FuturesSymbolState_new for n
  by unfold_locales
    (auto simp: fse_get_def fse_add_symbol_def fse_get_mut_def fse_remove_symbol_def
      FuturesShardEngine_new_def split: option.splits)

text \<open>The names of a registry stay distinct, so the count is the number of symbols.\<close>

lemma se_wf_add: "hm_wf (se_symbols e) \<Longrightarrow> hm_wf (se_symbols (se_add_symbol i e))"
  by (simp add: se_add_symbol_def split: option.splits)

lemma fse_wf_add: "hm_wf (fse_symbols e) \<Longrightarrow> hm_wf (fse_symbols (fse_add_symbol i e))"
  by (simp add: fse_add_symbol_def split: option.splits)

end
