(* ===== verification/Snapshot_Validator.thy ===== *)
theory Snapshot_Validator
  imports Order_Book
begin

text \<open>
  Periodic comparison of the book with a fresh REST snapshot:
  \<open>check_snapshot\<close> of \<open>crates/binance-spot-adapter/src/snapshot_validator.rs\<close>.
\<close>

definition CHECK_LEVELS :: nat where "CHECK_LEVELS = 5"
definition MAX_MISMATCHED :: nat where "MAX_MISMATCHED = 0"
definition PRICE_TOLERANCE :: i64 where "PRICE_TOLERANCE = 0"

record snapshot_config =
  sc_check_levels :: nat
  sc_max_mismatched :: nat
  sc_price_tolerance :: i64

definition sc_default :: snapshot_config where
  "sc_default = \<lparr>sc_check_levels = CHECK_LEVELS, sc_max_mismatched = MAX_MISMATCHED,
     sc_price_tolerance = PRICE_TOLERANCE\<rparr>"

datatype snapshot_check_result =
    Compatible
  | Incompatible (bid_mismatches: nat) (ask_mismatches: nat) (snapshot_id: u64)

text \<open>\<open>i64::abs\<close>: the least value has no positive counterpart and is returned as it is.\<close>

definition i64_abs :: "i64 \<Rightarrow> i64" where
  "i64_abs x = (if x < 0 then - x else x)"

definition count_price_mismatches ::
  "price_level list \<Rightarrow> price_level list \<Rightarrow> nat \<Rightarrow> i64 \<Rightarrow> nat" where
  "count_price_mismatches book_levels snap_levels check_levels price_tolerance =
     length (filter (\<lambda>(b, s). price_tolerance < i64_abs (pl_price b - pl_price s))
       (zip (take check_levels book_levels) (take check_levels snap_levels)))"

definition check_snapshot ::
  "price_level list \<Rightarrow> price_level list \<Rightarrow> BookSnapshot \<Rightarrow> snapshot_config \<Rightarrow> snapshot_check_result" where
  "check_snapshot bids asks snapshot cfg =
     (let bid_mismatches = count_price_mismatches bids (bs_bids snapshot)
            (sc_check_levels cfg) (sc_price_tolerance cfg);
          ask_mismatches = count_price_mismatches asks (bs_asks snapshot)
            (sc_check_levels cfg) (sc_price_tolerance cfg)
      in if sc_max_mismatched cfg < bid_mismatches \<or> sc_max_mismatched cfg < ask_mismatches
         then Incompatible bid_mismatches ask_mismatches (bs_update_id snapshot)
         else Compatible)"

lemma i64_abs_diff_0: "i64_abs (a - b) \<le> 0 \<longleftrightarrow> a = b \<or> a - b = I64 (2 ^ 63)"
proof -
  have neg: "\<not> - x \<le> 0" if "x < 0" "x \<noteq> I64 (2 ^ 63)" for x :: i64
  proof -
    have lt: "i64_val x < 0" using that(1) by (simp add: less_i64_def)
    have "i64_val x \<noteq> - (2 ^ 63)"
    proof
      assume "i64_val x = - (2 ^ 63)"
      then have "x = i64_of_int (- (2 ^ 63))" by (metis i64_of_int_val)
      also have "\<dots> = I64 (2 ^ 63)" by (simp add: i64_of_int_def)
      finally show False using that(2) by simp
    qed
    with i64_val_bounds [of x] have "- (2 ^ 63) \<le> - i64_val x" "- i64_val x < 2 ^ 63"
      using lt by linarith+
    moreover have "- x = i64_of_int (- i64_val x)"
      by (cases x) (simp add: i64_of_int_def uminus_i64_def i64_val_def)
    ultimately have "i64_val (- x) = - i64_val x" by (simp add: i64_val_of_int)
    with lt show ?thesis by (simp add: less_eq_i64_def)
  qed
  have "- I64 (2 ^ 63) \<le> 0" by (simp add: eval_simps)
  moreover have "I64 (2 ^ 63) < 0" by (simp add: eval_simps)
  ultimately have "i64_abs x \<le> 0 \<longleftrightarrow> x = 0 \<or> x = I64 (2 ^ 63)" for x
    using neg [of x] by (auto simp: i64_abs_def not_less)
  from this [of "a - b"] show ?thesis by simp
qed

text \<open>With tolerance zero and no overflow, a pair matches when the prices are equal.\<close>

definition no_extreme_gap :: "price_level list \<Rightarrow> price_level list \<Rightarrow> bool" where
  "no_extreme_gap bl sl \<longleftrightarrow>
     list_all2 (\<lambda>b s. pl_price b - pl_price s \<noteq> I64 (2 ^ 63))
       (take (min (length bl) (length sl)) bl) (take (min (length bl) (length sl)) sl)"

lemma count_Nil [simp]:
  "count_price_mismatches [] sl n t = 0" "count_price_mismatches bl [] n t = 0"
  "count_price_mismatches bl sl 0 t = 0"
  by (simp_all add: count_price_mismatches_def)

lemma count_Cons [simp]:
  "count_price_mismatches (b # bl) (s # sl) (Suc n) t =
     (if t < i64_abs (pl_price b - pl_price s) then 1 else 0) + count_price_mismatches bl sl n t"
  by (simp add: count_price_mismatches_def)

fun prices_agree :: "nat \<Rightarrow> price_level list \<Rightarrow> price_level list \<Rightarrow> bool" where
  "prices_agree (Suc n) (b # bl) (s # sl) = (pl_price b = pl_price s \<and> prices_agree n bl sl)"
| "prices_agree _ _ _ = True"

lemma count_mismatches_0:
  "no_extreme_gap bl sl \<Longrightarrow> count_price_mismatches bl sl n 0 = 0 \<longleftrightarrow> prices_agree n bl sl"
proof (induction n bl sl rule: prices_agree.induct)
  case (1 n b bl s sl)
  then show ?case
    using i64_abs_diff_0 [of "pl_price b" "pl_price s"]
    by (auto simp: no_extreme_gap_def not_less)
qed simp_all

lemma count_same: "0 \<le> t \<Longrightarrow> count_price_mismatches bl bl n t = 0"
proof (induction bl arbitrary: n)
  case (Cons b bl)
  then show ?case by (cases n) (simp_all add: i64_abs_def)
qed simp

end
