(* ===== verification/Market_Properties.thy ===== *)
theory Market_Properties
  imports Shard_Engine Snapshot_Validator
begin

text \<open>
  The properties of the market-data side: the order book, the sequence validators, the
  recovery procedure and the guards around it. The exactness properties compare the book
  with the exchange's own book (theory \<open>Exchange_Spec\<close>).
\<close>

section \<open>Instances\<close>

definition sample_header :: message_header where
  "sample_header = \<lparr>mh_schema_version = 1, mh_message_type = MT_BookDelta,
     mh_venue_id = BinanceSpot, mh_market_type = Spot, mh_instrument_id = 7,
     mh_connection_id = 0, mh_instance_id = 1, mh_sequence_number = 42,
     mh_exchange_event_ts = 0, mh_exchange_tx_ts = 0, mh_local_recv_ts = 5,
     mh_local_publish_ts = 6\<rparr>"

definition lvl :: "i64 \<Rightarrow> i64 \<Rightarrow> price_level" where
  "lvl p q = \<lparr>pl_price = p, pl_qty = q\<rparr>"

text \<open>The exchange sets bid 10 at update 2, replaces it by bid 11 at update 3.\<close>

definition sample_history :: history where
  "sample_history n = (if n = 2 then [lvl 10 5] else if n = 3 then [lvl 10 0, lvl 11 7] else [])"

definition no_history :: history where
  "no_history n = []"

definition sample_snapshot :: BookSnapshot where
  "sample_snapshot = \<lparr>bs_header = sample_header\<lparr>mh_message_type := MT_BookSnapshot\<rparr>,
     bs_symbol = ''BTCUSDT'', bs_price_scale = 2, bs_qty_scale = 5, bs_update_id = 2,
     bs_bids = [lvl 10 5], bs_asks = []\<rparr>"

definition sample_delta :: BookDelta where
  "sample_delta = \<lparr>bd_header = sample_header, bd_symbol = ''BTCUSDT'', bd_price_scale = 2,
     bd_qty_scale = 5, bd_first_update_id = 3,
     bd_final_update_id = 3, bd_prev_update_id = 2, bd_bids = [lvl 10 0, lvl 11 7], bd_asks = []\<rparr>"

definition sample_buffer :: recovery_buffer where
  "sample_buffer = snd (rb_push sample_delta 1 100 rb_new)"

lemma lvl_simps [simp]: "pl_price (lvl p q) = p" "pl_qty (lvl p q) = q"
  by (simp_all add: lvl_def)

lemma i64_sample_facts [simp]:
  "(0 :: i64) < 5" "(10 :: i64) \<noteq> 11" "(11 :: i64) \<noteq> 10" "(5 :: i64) \<noteq> 0" "(7 :: i64) \<noteq> 0"
  "(10 :: i64) < 11" "\<not> (11 :: i64) < 10" "(0 :: i64) < 7"
  by (simp_all add: eval_simps)

lemma sample_ids: "[1..<Suc 2] = [1, 2]" "[3..<Suc 3] = [3]"
  by (simp_all add: upt_rec)

lemma no_history_concat [simp]: "concat (map no_history ns) = []"
  by (induction ns) (simp_all add: no_history_def)

lemma exch_no_history [simp]: "exch_side no_history n = Map.empty"
  by (simp only: exch_side_def no_history_concat set_levels_simps)

lemma sample_snapshot_faithful: "snapshot_faithful sample_history no_history sample_snapshot"
proof -
  have "exch_side sample_history 2 = set_level (lvl 10 5) Map.empty"
    unfolding exch_side_def sample_ids by (simp add: sample_history_def)
  then show ?thesis
    by (simp add: snapshot_faithful_def sample_snapshot_def snapshot_side_def set_level_def)
qed

lemma sample_delta_faithful:
  "event_faithful sample_history no_history sv_lo sample_delta"
  "event_faithful sample_history no_history fv_lo sample_delta"
proof -
  have "covers sample_history 3 3 [lvl 10 0, lvl 11 7]" "covers no_history 3 3 []"
    unfolding covers_def sample_ids no_history_concat by (simp_all add: sample_history_def)
  moreover have "sv_lo sample_delta = 3" "fv_lo sample_delta = 3"
      "unat (bd_final_update_id sample_delta) = 3"
    by (simp_all add: sv_lo_def fv_lo_def sample_delta_def)
  ultimately show "event_faithful sample_history no_history sv_lo sample_delta"
      "event_faithful sample_history no_history fv_lo sample_delta"
    by (simp_all add: event_faithful_def) (simp_all add: sample_delta_def)
qed

lemma sample_delta_ok: "sv_ev_ok sample_delta" "fv_ev_ok sample_delta"
  by (simp_all add: sv_ev_ok_def fv_ev_ok_def sample_delta_def)

lemma sample_buffer_events:
  "rb_events sample_buffer = [\<lparr>bfd_delta = sample_delta, bfd_recv_ts = 1, bfd_encoded_size = 100\<rparr>]"
  by (simp add: sample_buffer_def rb_push_def rb_new_def rb_with_limits_def rb_too_old_def
      MAX_EVENTS_def MAX_BYTES_def usize_saturating_add_def)

section \<open>Recovery\<close>

text \<open>C2: Spot recovery is exact. If the snapshot and the buffered deltas are what the exchange
  published, then after the recovery, complete or stopped at a gap, the book is the exchange's
  own book at the book's update id, the validator stands at that id and the buffer is empty.
  It reports an error exactly when the validator stopped at a gap; otherwise the book is
  marked recovered and every buffered delta newer than the snapshot was counted once.\<close>

theorem spot_recovery_exact:
  assumes rec: "apply_spot_snapshot snap book v buf = (res, book', v', buf')"
    and snap: "snapshot_faithful hb ha snap"
    and evs: "\<forall>e \<in> set (rb_events buf). sv_ev_ok (bfd_delta e) \<and> event_faithful hb ha sv_lo (bfd_delta e)"
  shows "book_exact hb ha book' \<and> sv_last_valid_id v' = Some (ob_last_update_id book') \<and>
    rb_events buf' = [] \<and> (isl res \<longleftrightarrow> \<not> sv_live v') \<and>
    (\<forall>out. res = Inr out \<longrightarrow> \<not> ob_stale book' \<and> ro_replayed out + ro_discarded out =
       length (filter (\<lambda>e. bs_update_id snap < bd_final_update_id (bfd_delta e)) (rb_events buf)))"
proof -
  let ?id = "bs_update_id snap"
  let ?es = "fst (rb_drain_after ?id buf)" and ?v = "sv_on_snapshot ?id v"
  obtain r book2 where r: "spot_replay ?es (apply_snapshot snap book) ?v 0 0 = (r, book2, v')"
    and book': "book' = (case r of Inl _ \<Rightarrow> book2 | Inr _ \<Rightarrow> mark_recovered book2)"
    and res: "(\<exists>e. res = Inl e \<and> r = Inl e) \<or> (\<exists>n k. r = Inr (n, k) \<and>
      res = Inr \<lparr>ro_snapshot_id = ?id, ro_replayed = n, ro_discarded = k\<rparr>)"
    and empty: "rb_events buf' = []"
    by (rule apply_spot_snapshot_replay [OF rec])
  have "\<forall>e \<in> set ?es. sv_ev_ok (bfd_delta e) \<and> event_faithful hb ha sv_lo (bfd_delta e)"
    using evs drained_subset by blast
  from spot.replay_synced [OF sv.snapshot_live snapshot_synced_spot [OF snap] r this]
  have sync: "sv.synced hb ha v' book2" .
  have live: "sv_live v' \<longleftrightarrow> \<not> isl r"
    using spot.replay_effect [OF sv.snapshot_live r] by blast
  have counts: "r = Inr (n, k) \<Longrightarrow> n + k = length ?es" for n k
    using spot.replay_counts [of ?es "apply_snapshot snap book" ?v 0 0 n k book2 v'] r by simp
  have "ob_last_update_id book' = ob_last_update_id book2" "book_exact hb ha book' = book_exact hb ha book2"
    using book' by (simp_all add: mark_recovered_def split: sum.splits) (auto simp: mark_recovered_def [symmetric])
  then show ?thesis
    using sync live res counts empty book'
    by (auto simp: sv.synced_def rb_drain_after_def mark_recovered_def)
qed

theorem spot_recovery_exact_witness:
  "\<exists>res book' v' buf'.
     apply_spot_snapshot sample_snapshot (OrderBook_new ''BTCUSDT'') sv_new sample_buffer =
       (res :: unit spot_recovery_error + recovery_outcome, book', v', buf') \<and>
     book_exact sample_history no_history book'"
proof -
  obtain res :: "unit spot_recovery_error + recovery_outcome" and book' v' buf' where
    r: "apply_spot_snapshot sample_snapshot (OrderBook_new ''BTCUSDT'') sv_new sample_buffer =
      (res, book', v', buf')"
    by (cases "apply_spot_snapshot sample_snapshot (OrderBook_new ''BTCUSDT'') sv_new sample_buffer
      :: (unit spot_recovery_error + recovery_outcome) \<times> _")
  have "\<forall>e \<in> set (rb_events sample_buffer). sv_ev_ok (bfd_delta e) \<and>
      event_faithful sample_history no_history sv_lo (bfd_delta e)"
    by (simp add: sample_buffer_events sample_delta_ok sample_delta_faithful)
  from spot_recovery_exact [OF r sample_snapshot_faithful this] r show ?thesis by blast
qed

text \<open>C6: Futures recovery is exact, in the same sense, with continuity by \<open>pu\<close>.\<close>

theorem futures_recovery_exact:
  assumes rec: "apply_futures_snapshot snap book v buf = (res, book', v', buf')"
    and snap: "snapshot_faithful hb ha snap"
    and evs: "\<forall>e \<in> set (rb_events buf). fv_ev_ok (bfd_delta e) \<and> event_faithful hb ha fv_lo (bfd_delta e)"
  shows "book_exact hb ha book' \<and> fv_last_valid_id v' = Some (ob_last_update_id book') \<and>
    rb_events buf' = [] \<and> (isl res \<longleftrightarrow> \<not> fv_live v') \<and>
    (\<forall>out. res = Inr out \<longrightarrow> \<not> ob_stale book' \<and> ro_replayed out + ro_discarded out =
       length (filter (\<lambda>e. bs_update_id snap < bd_final_update_id (bfd_delta e)) (rb_events buf)))"
proof -
  let ?id = "bs_update_id snap"
  let ?es = "fst (rb_drain_after ?id buf)" and ?v = "fv_on_snapshot ?id v"
  obtain r book2 where r: "futures_replay ?es (apply_snapshot snap book) ?v 0 0 = (r, book2, v')"
    and book': "book' = (case r of Inl _ \<Rightarrow> book2 | Inr _ \<Rightarrow> mark_recovered book2)"
    and res: "(\<exists>e. res = Inl e \<and> r = Inl e) \<or> (\<exists>n k. r = Inr (n, k) \<and>
      res = Inr \<lparr>ro_snapshot_id = ?id, ro_replayed = n, ro_discarded = k\<rparr>)"
    and empty: "rb_events buf' = []"
    by (rule apply_futures_snapshot_replay [OF rec])
  have "\<forall>e \<in> set ?es. fv_ev_ok (bfd_delta e) \<and> event_faithful hb ha fv_lo (bfd_delta e)"
    using evs drained_subset by blast
  from futures.replay_synced [OF fv.snapshot_live snapshot_synced_futures [OF snap] r this]
  have sync: "fv.synced hb ha v' book2" .
  have live: "fv_live v' \<longleftrightarrow> \<not> isl r"
    using futures.replay_effect [OF fv.snapshot_live r] by blast
  have counts: "r = Inr (n, k) \<Longrightarrow> n + k = length ?es" for n k
    using futures.replay_counts [of ?es "apply_snapshot snap book" ?v 0 0 n k book2 v'] r by simp
  have "ob_last_update_id book' = ob_last_update_id book2" "book_exact hb ha book' = book_exact hb ha book2"
    using book' by (simp_all add: mark_recovered_def split: sum.splits) (auto simp: mark_recovered_def [symmetric])
  then show ?thesis
    using sync live res counts empty book'
    by (auto simp: fv.synced_def rb_drain_after_def mark_recovered_def)
qed

theorem futures_recovery_exact_witness:
  "\<exists>res book' v' buf'.
     apply_futures_snapshot sample_snapshot (OrderBook_new ''BTCUSDT'') fv_new sample_buffer =
       (res :: unit futures_recovery_error + recovery_outcome, book', v', buf') \<and>
     book_exact sample_history no_history book'"
proof -
  obtain res :: "unit futures_recovery_error + recovery_outcome" and book' v' buf' where
    r: "apply_futures_snapshot sample_snapshot (OrderBook_new ''BTCUSDT'') fv_new sample_buffer =
      (res, book', v', buf')"
    by (cases "apply_futures_snapshot sample_snapshot (OrderBook_new ''BTCUSDT'') fv_new sample_buffer
      :: (unit futures_recovery_error + recovery_outcome) \<times> _")
  have "\<forall>e \<in> set (rb_events sample_buffer). fv_ev_ok (bfd_delta e) \<and>
      event_faithful sample_history no_history fv_lo (bfd_delta e)"
    by (simp add: sample_buffer_events sample_delta_ok sample_delta_faithful)
  from futures_recovery_exact [OF r sample_snapshot_faithful this] r show ?thesis by blast
qed

text \<open>C10: Live phase, Spot: from a live validator that stands at the id of an exact book, applying
  exactly the deltas it accepts keeps the book exact and the validator at its id, for any
  stream of deltas the exchange published, with gaps, repeats and reorderings.\<close>

theorem spot_stream_exact:
  assumes "sv_live v" "sv_last_valid_id v = Some (ob_last_update_id b)" "book_exact hb ha b"
    and "\<forall>d \<in> set ds. sv_ev_ok d \<and> event_faithful hb ha sv_lo d"
  shows "book_exact hb ha (fold apply_delta (sv.accepted ds v) b) \<and>
    sv_last_valid_id (sv.run ds v) = Some (ob_last_update_id (fold apply_delta (sv.accepted ds v) b))"
proof -
  have "\<forall>d \<in> set ds. sv_ev_ok d \<and> event_faithful hb ha sv_lo d \<and> 1 \<le> sv_lo d"
    using assms(4) spot.lo_pos by blast
  from sv.accepted_synced [OF assms(1) _ this, of b] assms(2,3) show ?thesis
    by (simp add: sv.synced_def)
qed

theorem spot_stream_exact_witness:
  "book_exact sample_history no_history
     (fold apply_delta (sv.accepted [sample_delta, sample_delta] (sv_on_snapshot 2 sv_new))
       (apply_snapshot sample_snapshot (OrderBook_new ''BTCUSDT'')))"
  using spot_stream_exact [of "sv_on_snapshot 2 sv_new"
      "apply_snapshot sample_snapshot (OrderBook_new ''BTCUSDT'')" sample_history no_history
      "[sample_delta, sample_delta]"] snapshot_synced_spot [OF sample_snapshot_faithful]
  by (simp add: sv.snapshot_live sv.snapshot_position sample_delta_ok sample_delta_faithful
      book_exact_snapshot [OF sample_snapshot_faithful])
    (simp add: apply_snapshot_def sample_snapshot_def)

text \<open>C11: Live phase, Futures.\<close>

theorem futures_stream_exact:
  assumes "fv_live v" "fv_last_valid_id v = Some (ob_last_update_id b)" "book_exact hb ha b"
    and "\<forall>d \<in> set ds. fv_ev_ok d \<and> event_faithful hb ha fv_lo d"
  shows "book_exact hb ha (fold apply_delta (fv.accepted ds v) b) \<and>
    fv_last_valid_id (fv.run ds v) = Some (ob_last_update_id (fold apply_delta (fv.accepted ds v) b))"
proof -
  have "\<forall>d \<in> set ds. fv_ev_ok d \<and> event_faithful hb ha fv_lo d \<and> 1 \<le> fv_lo d"
    using assms(4) futures.lo_pos by blast
  from fv.accepted_synced [OF assms(1) _ this, of b] assms(2,3) show ?thesis
    by (simp add: fv.synced_def)
qed

theorem futures_stream_exact_witness:
  "book_exact sample_history no_history
     (fold apply_delta (fv.accepted [sample_delta, sample_delta] (fv_on_snapshot 2 fv_new))
       (apply_snapshot sample_snapshot (OrderBook_new ''BTCUSDT'')))"
  using futures_stream_exact [of "fv_on_snapshot 2 fv_new"
      "apply_snapshot sample_snapshot (OrderBook_new ''BTCUSDT'')" sample_history no_history
      "[sample_delta, sample_delta]"]
  by (simp add: fv.snapshot_live fv.snapshot_position sample_delta_ok sample_delta_faithful
      book_exact_snapshot [OF sample_snapshot_faithful])
    (simp add: apply_snapshot_def sample_snapshot_def)

section \<open>Sequence validators\<close>

lemma sv_check_active:
  "sv_check d \<lparr>sv_state = SV_Active p\<rparr> =
     (if bd_first_update_id d = p + 1 then (SV_Apply, \<lparr>sv_state = SV_Active (bd_final_update_id d)\<rparr>)
      else if p + 1 < bd_first_update_id d
        then (SV_Gap (p + 1) (bd_first_update_id d) p, \<lparr>sv_state = SV_Stale p\<rparr>)
      else (SV_Discard, \<lparr>sv_state = SV_Active p\<rparr>))"
  by (simp add: sv_check_def sv_validate_def Let_def)

lemma fv_check_active:
  "fv_check d \<lparr>fv_state = FV_Active p\<rparr> =
     (if bd_prev_update_id d = p then (FV_Apply, \<lparr>fv_state = FV_Active (bd_final_update_id d)\<rparr>)
      else if bd_prev_update_id d < p then (FV_Discard, \<lparr>fv_state = FV_Active p\<rparr>)
      else (FV_Gap p (bd_prev_update_id d) p, \<lparr>fv_state = FV_Stale p\<rparr>))"
  by (simp add: fv_check_def fv_validate_def)

text \<open>A gap stops a validator: every later delta is only buffered, nothing is applied and the
  position stays, until the next snapshot, on Spot and on Futures.\<close>

theorem gap_stops_until_snapshot:
  "(sv_check d v = (SV_Gap expected actual last_valid, v') \<longrightarrow>
      sv.accepted ds v' = [] \<and> sv.run ds v' = v' \<and> sv_last_valid_id v' = Some last_valid) \<and>
   (fv_check d w = (FV_Gap expected actual last_valid, w') \<longrightarrow>
      fv.accepted ds w' = [] \<and> fv.run ds w' = w' \<and> fv_last_valid_id w' = Some last_valid)"
proof (intro conjI impI)
  assume c: "sv_check d v = (SV_Gap expected actual last_valid, v')"
  have "\<not> sv_live v'" using sv.gap_stops [OF c] by simp
  from sv.stopped_accepts_nothing [OF this]
  show "sv.accepted ds v' = []" "sv.run ds v' = v'" by blast+
  show "sv_last_valid_id v' = Some last_valid"
    using c by (auto simp: sv_defs Let_def split: sv_state.splits if_splits)
next
  assume c: "fv_check d w = (FV_Gap expected actual last_valid, w')"
  have "\<not> fv_live w'" using fv.gap_stops [OF c] by simp
  from fv.stopped_accepts_nothing [OF this]
  show "fv.accepted ds w' = []" "fv.run ds w' = w'" by blast+
  show "fv_last_valid_id w' = Some last_valid"
    using c by (auto simp: fv_defs split: fv_state.splits if_splits)
qed

definition sample_late_delta :: BookDelta where
  "sample_late_delta = sample_delta\<lparr>bd_first_update_id := 9, bd_final_update_id := 9,
     bd_prev_update_id := 8\<rparr>"

theorem gap_stops_until_snapshot_witness:
  "sv.accepted [sample_delta] \<lparr>sv_state = SV_Stale 2\<rparr> = [] \<and>
   fv.accepted [sample_delta] \<lparr>fv_state = FV_Stale 2\<rparr> = []"
proof -
  have "sv_check sample_late_delta (sv_on_snapshot 2 sv_new) = (SV_Gap 3 9 2, \<lparr>sv_state = SV_Stale 2\<rparr>)"
    "fv_check sample_late_delta (fv_on_snapshot 2 fv_new) = (FV_Gap 2 8 2, \<lparr>fv_state = FV_Stale 2\<rparr>)"
    by (simp_all add: sv_defs fv_defs sv_new_def fv_new_def sample_late_delta_def)
  then show ?thesis
    using gap_stops_until_snapshot [of sample_late_delta "sv_on_snapshot 2 sv_new" 3 9 2
        "\<lparr>sv_state = SV_Stale 2\<rparr>" "[sample_delta]" "fv_on_snapshot 2 fv_new"
        "\<lparr>fv_state = FV_Stale 2\<rparr>"]
      gap_stops_until_snapshot [of sample_late_delta "sv_on_snapshot 2 sv_new" 2 8 2
        "\<lparr>sv_state = SV_Stale 2\<rparr>" "[sample_delta]" "fv_on_snapshot 2 fv_new"
        "\<lparr>fv_state = FV_Stale 2\<rparr>"] by blast
qed

text \<open>Spot continuity: once the validator is active, the deltas it accepts from any stream are
  contiguous; each starts right after the one before it ends.\<close>

fun contiguous :: "u64 \<Rightarrow> BookDelta list \<Rightarrow> bool" where
  "contiguous p [] = True"
| "contiguous p (d # ds) = (bd_first_update_id d = p + 1 \<and> contiguous (bd_final_update_id d) ds)"

theorem spot_accepts_contiguous:
  "contiguous p (sv.accepted ds \<lparr>sv_state = SV_Active p\<rparr>)"
proof (induction ds arbitrary: p)
  case (Cons d ds)
  have stale: "sv.accepted ds \<lparr>sv_state = SV_Stale p\<rparr> = []"
    by (rule conjunct1 [OF sv.stopped_accepts_nothing]) (simp add: sv_live_def)
  show ?case
    using Cons [of p] Cons [of "bd_final_update_id d"] stale by (simp add: sv_check_active)
qed simp

text \<open>Futures continuity: once active, every accepted delta names the final id of the one
  before it as its \<open>pu\<close>.\<close>

fun linked :: "u64 \<Rightarrow> BookDelta list \<Rightarrow> bool" where
  "linked p [] = True"
| "linked p (d # ds) = (bd_prev_update_id d = p \<and> linked (bd_final_update_id d) ds)"

theorem futures_accepts_linked:
  "linked p (fv.accepted ds \<lparr>fv_state = FV_Active p\<rparr>)"
proof (induction ds arbitrary: p)
  case (Cons d ds)
  have stale: "fv.accepted ds \<lparr>fv_state = FV_Stale p\<rparr> = []"
    by (rule conjunct1 [OF fv.stopped_accepts_nothing]) (simp add: fv_live_def)
  show ?case
    using Cons [of p] Cons [of "bd_final_update_id d"] stale by (simp add: fv_check_active)
qed simp

section \<open>Order book\<close>

text \<open>The book stays well formed: after any snapshot, and after any delta on a well-formed
  book, both sides are in strict price order without a zero quantity. A snapshot leaves only
  positive quantities, and so does a delta without negative ones.\<close>

theorem book_well_formed:
  "book_wf (apply_snapshot snap b) \<and> book_positive (apply_snapshot snap b) \<and>
   (book_wf b \<longrightarrow> book_wf (apply_delta d b)) \<and>
   (book_positive b \<and> levels_nonneg (bd_bids d) \<and> levels_nonneg (bd_asks d) \<longrightarrow>
      book_positive (apply_delta d b))"
  by (simp add: book_wf_delta book_positive_delta)

theorem book_well_formed_witness:
  "book_wf (apply_delta sample_delta (apply_snapshot sample_snapshot (OrderBook_new ''X''))) \<and>
   book_positive (apply_delta sample_delta (apply_snapshot sample_snapshot (OrderBook_new ''X'')))"
proof -
  have "levels_nonneg (bd_bids sample_delta)" "levels_nonneg (bd_asks sample_delta)"
    by (simp_all add: levels_nonneg_def sample_delta_def less_imp_le)
  then show ?thesis
    using book_well_formed [of sample_snapshot "OrderBook_new ''X''" sample_delta]
      book_well_formed [of sample_snapshot "apply_snapshot sample_snapshot (OrderBook_new ''X'')" sample_delta]
    by blast
qed

text \<open>A delta has the effect the protocol gives it: the last level of the delta for a price
  decides, quantity zero removes the price, every other price keeps its quantity.\<close>

theorem delta_effect:
  assumes "book_wf b"
  shows "map_of (ob_bids (apply_delta d b)) p =
      (case find (\<lambda>l. pl_price l = p) (rev (bd_bids d)) of
         None \<Rightarrow> map_of (ob_bids b) p
       | Some l \<Rightarrow> if pl_qty l = 0 then None else Some (pl_qty l)) \<and>
    map_of (ob_asks (apply_delta d b)) p =
      (case find (\<lambda>l. pl_price l = p) (rev (bd_asks d)) of
         None \<Rightarrow> map_of (ob_asks b) p
       | Some l \<Rightarrow> if pl_qty l = 0 then None else Some (pl_qty l)) \<and>
    ob_last_update_id (apply_delta d b) = bd_final_update_id d"
  using apply_delta_abs [OF assms] by (simp add: set_levels_lookup) (simp add: apply_delta_def)

theorem delta_effect_witness:
  "map_of (ob_bids (apply_delta sample_delta (apply_snapshot sample_snapshot (OrderBook_new ''X'')))) 11
     = Some 7"
  using delta_effect [of "apply_snapshot sample_snapshot (OrderBook_new ''X'')" sample_delta 11]
  by (simp add: sample_delta_def)

text \<open>The best bid is the greatest bid price of the book and the best ask the least ask price,
  each with its quantity; a side has no best level exactly when it is empty.\<close>

theorem best_levels:
  assumes "book_wf b"
  shows "(best_bid b = None \<longleftrightarrow> ob_bids b = []) \<and> (best_ask b = None \<longleftrightarrow> ob_asks b = []) \<and>
    (\<forall>l. best_bid b = Some l \<longrightarrow> map_of (ob_bids b) (pl_price l) = Some (pl_qty l) \<and>
       (\<forall>p q. map_of (ob_bids b) p = Some q \<longrightarrow> p \<le> pl_price l)) \<and>
    (\<forall>l. best_ask b = Some l \<longrightarrow> map_of (ob_asks b) (pl_price l) = Some (pl_qty l) \<and>
       (\<forall>p q. map_of (ob_asks b) p = Some q \<longrightarrow> pl_price l \<le> p))"
proof (intro conjI allI impI)
  have wf: "bt_wf (ob_bids b)" "bt_wf (ob_asks b)" using assms by simp_all
  show "best_bid b = None \<longleftrightarrow> ob_bids b = []"
    by (cases "ob_bids b" rule: rev_cases) (simp_all add: best_bid_def)
  show "best_ask b = None \<longleftrightarrow> ob_asks b = []"
    by (cases "ob_asks b") (simp_all add: best_ask_def)
  {
    fix l assume "best_bid b = Some l"
    then obtain es where es: "ob_bids b = es @ [(pl_price l, pl_qty l)]"
      by (auto simp: best_bid_Some_iff)
    have d: "distinct (map fst (ob_bids b))" using wf(1) strict_sorted_iff by (auto simp: bt_wf_def)
    show "map_of (ob_bids b) (pl_price l) = Some (pl_qty l)"
      using map_of_eq_Some_iff [OF d] es by simp
    fix p q assume "map_of (ob_bids b) p = Some q"
    then have "(p, q) \<in> set (ob_bids b)" by (rule map_of_SomeD)
    with btree.entries_last_greatest [of "ob_bids b" es "pl_price l" "pl_qty l" p q] wf es
    show "p \<le> pl_price l" by simp
  }
  {
    fix l assume "best_ask b = Some l"
    then obtain es where es: "ob_asks b = (pl_price l, pl_qty l) # es"
      by (auto simp: best_ask_Some_iff)
    then show "map_of (ob_asks b) (pl_price l) = Some (pl_qty l)" by simp
    fix p q assume "map_of (ob_asks b) p = Some q"
    then have "(p, q) \<in> set (ob_asks b)" by (rule map_of_SomeD)
    with btree.entries_hd_least [of "ob_asks b" "pl_price l" "pl_qty l" es p q] wf es
    show "pl_price l \<le> p" by simp
  }
qed

theorem best_levels_witness:
  "best_bid (apply_snapshot sample_snapshot (OrderBook_new ''X'')) = Some (lvl 10 5) \<and>
   map_of (ob_bids (apply_snapshot sample_snapshot (OrderBook_new ''X''))) 10 = Some 5"
proof -
  have b: "best_bid (apply_snapshot sample_snapshot (OrderBook_new ''X'')) = Some (lvl 10 5)"
    by (simp add: best_bid_def apply_snapshot_def sample_snapshot_def snapshot_side_def level_of_def
        lvl_def)
  with best_levels [of "apply_snapshot sample_snapshot (OrderBook_new ''X'')"] show ?thesis
    by force
qed

text \<open>The checksum depends on the content alone: two well-formed books with the same levels and
  update id have the same checksum, however they were built up.\<close>

theorem checksum_canonical:
  assumes "book_wf b" "book_wf b'" "map_of (ob_bids b) = map_of (ob_bids b')"
    and "map_of (ob_asks b) = map_of (ob_asks b')" "ob_last_update_id b = ob_last_update_id b'"
  shows "book_checksum b = book_checksum b'"
  by (rule checksum_same_content [OF assms])

theorem checksum_canonical_witness:
  "book_checksum (apply_snapshot sample_snapshot (OrderBook_new ''A'')) =
   book_checksum (apply_snapshot sample_snapshot (mark_stale BSR_SequenceGap (OrderBook_new ''B'')))"
  by (rule checksum_canonical) (simp_all, simp_all add: apply_snapshot_def)

text \<open>Two books whose hashed byte streams differ in exactly one byte never have the same
  checksum: a single changed byte of a price, a quantity or the update id is always noticed.\<close>

theorem checksum_detects_byte:
  assumes "book_stream b = xs @ a # ys" "book_stream b' = xs @ a' # ys" "a \<noteq> a'"
  shows "book_checksum b \<noteq> book_checksum b'"
  using assms by (simp add: checksum_stream fnv_single_byte)

theorem checksum_detects_byte_witness:
  "book_checksum (OrderBook_new ''X'') \<noteq> book_checksum ((OrderBook_new ''X'')\<lparr>ob_last_update_id := 1\<rparr>)"
  by (rule checksum_detects_byte [of _ "[]" 0 "replicate 7 0" _ 1])
    (simp_all add: book_stream_def OrderBook_new_def eval_nat_numeral)

section \<open>Guards\<close>

text \<open>C40: The recovery buffer never exceeds its limits: whatever is pushed, count, bytes and age
  stay within them, and the buffer holds what it held before followed by the accepted pushes,
  in order.\<close>

theorem buffer_within_limits:
  assumes "rb_wf b" "rb.put_run es b = (acc, b')"
  shows "rb_wf b' \<and> rb_events b' = rb_events b @ acc \<and> length (rb_events b') \<le> rb_max_events b' \<and>
    sum_list (map bfd_encoded_size (rb_events b')) \<le> rb_max_bytes b'"
  using rb.put_run_contents [OF assms(2)] rb.put_run_inv [OF assms(1), of es] assms(2)
  by (simp add: rb_wf_def rb_sizes_def)

theorem buffer_within_limits_witness: "rb_wf (snd (rb.put_run (rb_events sample_buffer) rb_new))"
  using buffer_within_limits [OF rb_wf_new, of "rb_events sample_buffer"]
  by (cases "rb.put_run (rb_events sample_buffer) rb_new") simp

lemma fail_run_opens:
  "cb_open_until c = None \<Longrightarrow> ts \<noteq> [] \<Longrightarrow>
   unat (cb_failures c) + length ts = unat (cb_max_attempts c) \<Longrightarrow>
   fst (cb_fail_run ts c) = replicate (length ts - 1) False @ [True] \<and>
   cb_open_until (snd (cb_fail_run ts c)) = Some (last ts + cb_cooldown_ns c)"
proof (induction ts arbitrary: c)
  case (Cons t ts)
  have lt: "unat (cb_failures c) + length (t # ts) < 2 ^ 32"
    using Cons.prems(3) unsigned_less [of "cb_max_attempts c"] by simp
  then have succ: "unat (cb_failures c + 1) = unat (cb_failures c) + 1"
    by (simp add: unat_word_ariths)
  show ?case
  proof (cases "ts = []")
    case True
    then have "cb_max_attempts c \<le> cb_failures c + 1"
      using Cons.prems(3) succ by (simp add: word_le_nat_alt)
    with True Cons.prems(1) show ?thesis by (simp add: cb_record_failure_def Let_def)
  next
    case False
    then have no: "\<not> cb_max_attempts c \<le> cb_failures c + 1"
      using Cons.prems(3) succ by (cases ts) (simp_all add: word_le_nat_alt)
    let ?c = "c\<lparr>cb_failures := cb_failures c + 1\<rparr>"
    have r: "cb_record_failure t c = (False, ?c)"
      using no Cons.prems(1) by (simp add: cb_record_failure_def Let_def)
    have "fst (cb_fail_run ts ?c) = replicate (length ts - 1) False @ [True] \<and>
        cb_open_until (snd (cb_fail_run ts ?c)) = Some (last ts + cb_cooldown_ns c)"
      using Cons.IH [of ?c] Cons.prems False succ by simp
    with False show ?thesis by (cases ts) (simp_all add: r case_prod_beta Let_def)
  qed
qed simp

text \<open>The circuit breaker opens at exactly the configured number of consecutive failures: of
  that many failures on a new breaker only the last one opens it, until its time plus the
  cooldown.\<close>

theorem breaker_opens_at_limit:
  assumes "0 < m" "length ts = unat m"
  shows "fst (cb_fail_run ts (cb_with_limits m k)) = replicate (unat m - 1) False @ [True] \<and>
    cb_open_until (snd (cb_fail_run ts (cb_with_limits m k))) = Some (last ts + k)"
proof -
  have "ts \<noteq> []" using assms by (auto simp: word_less_nat_alt)
  then show ?thesis
    using fail_run_opens [of "cb_with_limits m k" ts] assms(2) by (simp add: cb_with_limits_def)
qed

theorem breaker_opens_at_limit_witness:
  "fst (cb_fail_run [1, 2, 3, 4, 5] cb_new) = [False, False, False, False, True]"
proof -
  have "replicate (unat MAX_ATTEMPTS - 1) False = [False, False, False, False]"
  proof -
    have "unat MAX_ATTEMPTS - 1 = 4" by (simp add: MAX_ATTEMPTS_def)
    then show ?thesis by (simp only:) (simp add: eval_nat_numeral)
  qed
  moreover have "0 < MAX_ATTEMPTS" "length [1, 2, 3, 4, 5 :: i64] = unat MAX_ATTEMPTS"
    by (simp_all add: MAX_ATTEMPTS_def)
  ultimately show ?thesis
    using breaker_opens_at_limit [of MAX_ATTEMPTS "[1, 2, 3, 4, 5]" COOLDOWN_NS]
    by (simp add: cb_new_def del: cb_fail_run.simps)
qed

text \<open>Whatever is done with a breaker, it is closed exactly while fewer failures than the limit
  have been recorded since it last closed; once open, it refuses every attempt before the
  deadline, admits the first one at or after it, and failures meanwhile do not extend it.\<close>

theorem breaker_states:
  assumes "cb_reachable m k c" "0 < m"
  shows "(cb_open_until c = None \<longleftrightarrow> cb_failures c < m) \<and>
    (\<forall>deadline now. cb_open_until c = Some deadline \<longrightarrow>
       fst (cb_check now c) = (if now < deadline then Open deadline else Closed) \<and>
       snd (cb_record_failure now c) = c)"
proof -
  have "cb_wf c" "cb_max_attempts c = m"
    using cb_reachable_wf [OF assms] cb_reachable_limits [OF assms(1)] by simp_all
  then show ?thesis
    by (auto simp: cb_wf_def cb_check_def cb_record_failure_def split: if_splits)
qed

theorem breaker_states_witness:
  "cb_open_until (cb_with_limits 5 10) = None \<longleftrightarrow> cb_failures (cb_with_limits 5 10) < 5"
  using breaker_states [OF cb_start [of 5 10]] by simp

text \<open>The BBO verdict depends only on how long the current unbroken mismatch has lasted: from a
  cleared validator, after any events, an agreeing or incomplete event is \<open>Ok\<close>, a mismatch is
  judged by the time since the first event of the mismatch it belongs to.\<close>

theorem bbo_verdict:
  assumes "bv_mismatch_since v = None"
  shows "fst (bv_event e (bv_run es v)) =
    (if \<not> be_mismatch e then BboOk
     else let duration = i64_saturating_sub (be_now e) (the (mismatch_start (es @ [e]))) in
       if bv_stale_ns v \<le> duration then MarkStale duration
       else if bv_degrade_ns v \<le> duration then Degrade duration else BboOk)"
  unfolding bv_run_since [OF assms] mismatch_start_snoc
  by (auto simp: bv_event_def bv_check_def be_mismatch_def Let_def split: option.splits)

theorem bbo_verdict_witness:
  "fst (bv_event \<lparr>be_now = 5, be_book_bid = Some 1, be_book_ask = Some 2, be_bid = 1, be_ask = 3\<rparr>
     (bv_run [] (bv_with_thresholds 10 20))) = BboOk"
proof -
  have "i64_saturating_sub 5 5 = 0" by (simp add: i64_saturating_sub_def i64_of_int_def zero_i64_def)
  moreover have "\<not> (20 :: i64) \<le> 0" "\<not> (10 :: i64) \<le> 0" by (simp_all add: eval_simps)
  ultimately show ?thesis
    using bbo_verdict [of "bv_with_thresholds 10 20" "\<lparr>be_now = 5, be_book_bid = Some 1,
        be_book_ask = Some 2, be_bid = 1, be_ask = 3\<rparr>" "[]"]
    by (simp add: bv_with_thresholds_def be_mismatch_def mismatch_start_def Let_def)
qed

text \<open>With the default configuration a snapshot is compatible with the book exactly when the
  prices of the top five levels that both have agree, side by side (unless two prices are
  \<open>2^63\<close> apart, where \<open>abs\<close> overflows).\<close>

theorem snapshot_compatible:
  assumes "no_extreme_gap bids (bs_bids snap)" "no_extreme_gap asks (bs_asks snap)"
  shows "check_snapshot bids asks snap sc_default = Compatible \<longleftrightarrow>
    prices_agree 5 bids (bs_bids snap) \<and> prices_agree 5 asks (bs_asks snap)"
  using count_mismatches_0 [OF assms(1), of 5] count_mismatches_0 [OF assms(2), of 5]
  by (auto simp: check_snapshot_def sc_default_def CHECK_LEVELS_def MAX_MISMATCHED_def
      PRICE_TOLERANCE_def Let_def)

theorem snapshot_compatible_witness:
  "check_snapshot [lvl 11 5] [] sample_snapshot sc_default \<noteq> Compatible"
proof -
  have "no_extreme_gap [lvl 11 5] (bs_bids sample_snapshot)" "no_extreme_gap [] (bs_asks sample_snapshot)"
    by (simp_all add: no_extreme_gap_def sample_snapshot_def eval_simps)
  from snapshot_compatible [OF this] show ?thesis
    by (simp add: sample_snapshot_def numeral_eq_Suc)
qed

section \<open>Registries\<close>

text \<open>A shard keeps the first definition of every symbol: after any sequence of additions the
  state of a symbol is the initial state of the first definition given for it, and a symbol
  never defined is unknown, on Spot and on Futures.\<close>

theorem registry_first_wins:
  "se_get k (fold se_add_symbol insts (ShardEngine_new n)) =
     map_option SymbolState_new (find (\<lambda>i. id_symbol i = k) insts) \<and>
   fse_get k (fold fse_add_symbol insts (FuturesShardEngine_new n)) =
     map_option FuturesSymbolState_new (find (\<lambda>i. id_symbol i = k) insts)"
  by (simp add: se.fold_add_first fse.fold_add_first se.lookup_empty fse.lookup_empty)

end
