(* ===== verification/Decimal.thy ===== *)
theory Decimal
  imports Prelude
begin

text \<open>
  Decimal text, as four places of the sources read it. First the pieces of Rust's standard
  library they use (\<open>str::trim\<close>, \<open>str::find\<close>, slices at byte positions, \<open>parse::<i64>\<close>), then
  the scaling routine that both market-data adapters contain
  (\<open>parse_scaled\<close> of \<open>binance-spot-adapter/src/normalizer.rs\<close> and of
  \<open>binance-futures-adapter/src/normalizer.rs\<close>), with the error type as a parameter.
  The lemmas relate a digit string to the number it denotes.
\<close>

section \<open>Rust strings\<close>

text \<open>The UTF-8 encodings of the characters with the property \<open>White_Space\<close>.\<close>

definition ws_encodings :: "string list" where
  "ws_encodings = map (map (char_of :: nat \<Rightarrow> char))
     ([[9], [10], [11], [12], [13], [32], [0xC2, 0x85], [0xC2, 0xA0], [0xE1, 0x9A, 0x80]] @
      map (\<lambda>b. [0xE2, 0x80, b])
        [0x80, 0x81, 0x82, 0x83, 0x84, 0x85, 0x86, 0x87, 0x88, 0x89, 0x8A, 0xA8, 0xA9, 0xAF] @
      [[0xE2, 0x81, 0x9F], [0xE3, 0x80, 0x80]])"

function strip_prefixes :: "string list \<Rightarrow> string \<Rightarrow> string" where
  "strip_prefixes ws s =
     (case List.find (\<lambda>w. w \<noteq> [] \<and> take (length w) s = w) ws of
        None \<Rightarrow> s
      | Some w \<Rightarrow> strip_prefixes ws (drop (length w) s))"
  by pat_completeness auto
termination
  by (relation "measure (\<lambda>(ws, s). length s)")
    (auto simp: find_Some_iff simp del: length_drop, metis drop_all length_drop
      diff_less length_greater_0_conv take_Nil)

declare strip_prefixes.simps [simp del]

definition str_trim :: "string \<Rightarrow> string" where
  "str_trim s = rev (strip_prefixes (map rev ws_encodings) (rev (strip_prefixes ws_encodings s)))"

text \<open>The parts before and after the first dot; without a dot the second part is empty.\<close>

definition split_dot :: "string \<Rightarrow> string \<times> string" where
  "split_dot s = (takeWhile (\<lambda>c. c \<noteq> CHR ''.'') s, drop 1 (dropWhile (\<lambda>c. c \<noteq> CHR ''.'') s))"

definition str_cont :: "char \<Rightarrow> bool" where
  "str_cont c \<longleftrightarrow> 0x80 \<le> (of_char c :: nat) \<and> (of_char c :: nat) < 0xC0"

definition char_count :: "string \<Rightarrow> nat" where
  "char_count s = length (filter (\<lambda>c. \<not> str_cont c) s)"

text \<open>\<open>&s[..n]\<close>: a panic (None) outside the string or inside a character.\<close>

definition str_slice_to :: "nat \<Rightarrow> string \<Rightarrow> string option" where
  "str_slice_to n s =
     (if n = length s \<or> n < length s \<and> \<not> str_cont (s ! n) then Some (take n s) else None)"

text \<open>\<open>{:0<n}\<close>: zeros behind the text up to \<open>n\<close> characters.\<close>

definition pad_zeros :: "nat \<Rightarrow> string \<Rightarrow> string" where
  "pad_zeros n s = s @ replicate (n - char_count s) CHR ''0''"

text \<open>\<open>str::split\<close> at a character: the segments between its occurrences.\<close>

fun str_split :: "char \<Rightarrow> string \<Rightarrow> string list" where
  "str_split sep [] = [[]]"
| "str_split sep (c # cs) =
     (if c = sep then [] # str_split sep cs
      else case str_split sep cs of [] \<Rightarrow> [[c]] | w # ws \<Rightarrow> (c # w) # ws)"

lemma str_split_append:
  "sep \<notin> set a \<Longrightarrow> str_split sep (a @ sep # b) = a # str_split sep b"
  by (induction a) auto

lemma str_split_single: "sep \<notin> set a \<Longrightarrow> str_split sep a = [a]"
  by (induction a) auto

text \<open>\<open>{}\<close> of an unsigned integer.\<close>

fun dec_str :: "nat \<Rightarrow> string" where
  "dec_str n = (if n < 10 then [char_of (48 + n)] else dec_str (n div 10) @ [char_of (48 + n mod 10)])"

declare dec_str.simps [simp del]

text \<open>
  \<open>str::to_lowercase\<close> on ASCII text, the alphabet of exchange symbols; every other byte is
  kept, so beyond ASCII the function is not Rust's.
\<close>

definition char_lower :: "char \<Rightarrow> char" where
  "char_lower c = (let k = of_char c :: nat in if 65 \<le> k \<and> k \<le> 90 then char_of (k + 32) else c)"

definition str_lowercase :: "string \<Rightarrow> string" where
  "str_lowercase s = map char_lower s"

section \<open>\<open>parse::<i64>\<close>\<close>

datatype parse_int_error = PIE_Empty | PIE_InvalidDigit | PIE_PosOverflow | PIE_NegOverflow

definition dec_digit :: "char \<Rightarrow> nat option" where
  "dec_digit c = (let k = of_char c :: nat in if 48 \<le> k \<and> k \<le> 57 then Some (k - 48) else None)"

fun parse_pos :: "int \<Rightarrow> string \<Rightarrow> parse_int_error + int" where
  "parse_pos acc [] = Inr acc"
| "parse_pos acc (c # cs) =
     (case dec_digit c of
        None \<Rightarrow> Inl PIE_InvalidDigit
      | Some d \<Rightarrow>
          if 2 ^ 63 \<le> acc * 10 + int d then Inl PIE_PosOverflow
          else parse_pos (acc * 10 + int d) cs)"

fun parse_neg :: "int \<Rightarrow> string \<Rightarrow> parse_int_error + int" where
  "parse_neg acc [] = Inr acc"
| "parse_neg acc (c # cs) =
     (case dec_digit c of
        None \<Rightarrow> Inl PIE_InvalidDigit
      | Some d \<Rightarrow>
          if acc * 10 - int d < - (2 ^ 63) then Inl PIE_NegOverflow
          else parse_neg (acc * 10 - int d) cs)"

definition parse_i64 :: "string \<Rightarrow> parse_int_error + i64" where
  "parse_i64 s =
     (case s of
        [] \<Rightarrow> Inl PIE_Empty
      | c # cs \<Rightarrow>
          if cs = [] \<and> (c = CHR ''+'' \<or> c = CHR ''-'') then Inl PIE_InvalidDigit
          else map_sum id i64_of_int
            (if c = CHR ''+'' then parse_pos 0 cs
             else if c = CHR ''-'' then parse_neg 0 cs
             else parse_pos 0 s))"

section \<open>The scaling routine of the adapters\<close>

definition adapter_parse_scaled ::
  "(string \<Rightarrow> u32 \<Rightarrow> parse_int_error \<Rightarrow> 'e) \<Rightarrow> 'e \<Rightarrow> string \<Rightarrow> u32 \<Rightarrow> 'e + i64" where
  "adapter_parse_scaled invalid panic text scale =
     (let s = str_trim text; (int_s, frac_s) = split_dot s; n = unat scale in
      and_then (if int_s = [] then Inr 0 else map_err (invalid s scale) (parse_i64 int_s)) (\<lambda>int_val.
      and_then (if n = 0 then Inr 0
                else case str_slice_to n (pad_zeros n frac_s) of
                    None \<Rightarrow> Inl panic
                  | Some padded \<Rightarrow> map_err (invalid s scale) (parse_i64 padded)) (\<lambda>frac_val.
      Inr (int_val * 10 ^ n + frac_val))))"

section \<open>Digit strings\<close>

definition is_digit :: "char \<Rightarrow> bool" where
  "is_digit c \<longleftrightarrow> 48 \<le> (of_char c :: nat) \<and> (of_char c :: nat) \<le> 57"

definition digit_val :: "char \<Rightarrow> nat" where
  "digit_val c = of_char c - 48"

definition digits_val :: "string \<Rightarrow> nat" where
  "digits_val s = fold (\<lambda>c acc. acc * 10 + digit_val c) s 0"

abbreviation all_digits :: "string \<Rightarrow> bool" where
  "all_digits s \<equiv> list_all is_digit s"

lemma dec_digit_digit: "is_digit c \<Longrightarrow> dec_digit c = Some (digit_val c)"
  by (simp add: dec_digit_def is_digit_def digit_val_def Let_def)

lemma fold_digits: "fold (\<lambda>c acc. acc * 10 + digit_val c) s a = a * 10 ^ length s + digits_val s"
proof (induction s arbitrary: a)
  case Nil
  then show ?case by (simp add: digits_val_def)
next
  case (Cons c cs)
  have "digits_val (c # cs) = digit_val c * 10 ^ length cs + digits_val cs"
    unfolding digits_val_def using Cons [of "digit_val c"] by (simp add: digits_val_def)
  moreover have "fold (\<lambda>c acc. acc * 10 + digit_val c) (c # cs) a =
      (a * 10 + digit_val c) * 10 ^ length cs + digits_val cs"
    by (simp only: fold_simps Cons)
  ultimately show ?case by (simp add: algebra_simps)
qed

lemma digits_val_simps [simp]:
  "digits_val [] = 0"
  "digits_val (c # cs) = digit_val c * 10 ^ length cs + digits_val cs"
  "digits_val (s @ t) = digits_val s * 10 ^ length t + digits_val t"
  using fold_digits [of cs "digit_val c"] fold_digits [of t "digits_val s"]
  by (simp_all add: digits_val_def)

lemma digit_val_less: "is_digit c \<Longrightarrow> digit_val c < 10"
  by (auto simp: is_digit_def digit_val_def)

lemma digits_val_less: "all_digits s \<Longrightarrow> digits_val s < 10 ^ length s"
proof (induction s)
  case (Cons c cs)
  then have "digit_val c * 10 ^ length cs + digits_val cs < (digit_val c + 1) * 10 ^ length cs"
    by simp
  also have "\<dots> \<le> 10 * 10 ^ length cs"
    using digit_val_less [of c] Cons.prems by (intro mult_right_mono) auto
  finally show ?case by simp
qed simp

lemma digits_val_zeros [simp]: "digits_val (replicate n CHR ''0'') = 0"
  by (induction n) (simp_all add: digit_val_def)

lemma all_digits_zeros [simp]: "all_digits (replicate n CHR ''0'')"
  by (induction n) (simp_all add: is_digit_def)

lemma parse_pos_digits:
  "all_digits s \<Longrightarrow> acc < 2 ^ 63 \<Longrightarrow> parse_pos (int acc) s =
     (let v = acc * 10 ^ length s + digits_val s
      in if v < 2 ^ 63 then Inr (int v) else Inl PIE_PosOverflow)"
proof (induction s arbitrary: acc)
  case (Cons c cs)
  let ?a = "acc * 10 + digit_val c"
  have cast: "int acc * 10 + int (digit_val c) = int ?a" by simp
  have v: "acc * 10 ^ length (c # cs) + digits_val (c # cs) = ?a * 10 ^ length cs + digits_val cs"
    by (simp add: algebra_simps)
  have big: "?a \<le> ?a * 10 ^ length cs + digits_val cs" by (simp add: trans_le_add1)
  have lim: "2 ^ 63 \<le> int ?a \<longleftrightarrow> \<not> ?a < 2 ^ 63"
    by (metis not_less of_nat_less_iff of_nat_numeral of_nat_power)
  from Cons.prems have "all_digits cs" "is_digit c" by auto
  then show ?case
    unfolding v parse_pos.simps dec_digit_digit [OF \<open>is_digit c\<close>] option.case cast lim
    using Cons.IH [OF \<open>all_digits cs\<close>, of ?a] big by (auto simp: Let_def)
qed (auto simp: Let_def)

lemma digit_not_sign: "is_digit c \<Longrightarrow> c \<noteq> CHR ''+'' \<and> c \<noteq> CHR ''-'' \<and> c \<noteq> CHR ''.''"
  by (auto simp: is_digit_def)

lemma parse_i64_digits:
  assumes "all_digits s" "s \<noteq> []"
  shows "parse_i64 s =
    (if digits_val s < 2 ^ 63 then Inr (i64_of_int (int (digits_val s))) else Inl PIE_PosOverflow)"
proof -
  obtain c cs where s: "s = c # cs" using assms(2) by (cases s) auto
  have "c \<noteq> CHR ''+''" "c \<noteq> CHR ''-''" using assms(1) digit_not_sign [of c] by (auto simp: s)
  then have "parse_i64 s = map_sum id i64_of_int (parse_pos 0 s)"
    by (simp add: parse_i64_def s)
  also have "parse_pos 0 s =
      (if digits_val s < 2 ^ 63 then Inr (int (digits_val s)) else Inl PIE_PosOverflow)"
    using parse_pos_digits [OF assms(1), of 0] by (simp add: Let_def)
  finally show ?thesis by simp
qed

lemma parse_i64_small:
  "all_digits s \<Longrightarrow> s \<noteq> [] \<Longrightarrow> digits_val s < 2 ^ 63 \<Longrightarrow>
   parse_i64 s = Inr (i64_of_int (int (digits_val s)))"
  by (simp add: parse_i64_digits)

section \<open>Plain text\<close>

text \<open>Graphic ASCII text has nothing to trim and no character boundary inside a character.\<close>

definition plain :: "char \<Rightarrow> bool" where
  "plain c \<longleftrightarrow> 32 < (of_char c :: nat) \<and> (of_char c :: nat) < 128"

lemma plain_simps [simp]: "plain CHR ''.''" "plain CHR ''-''" "is_digit c \<Longrightarrow> plain c"
  by (auto simp: plain_def is_digit_def)

lemma all_digits_plain: "all_digits s \<Longrightarrow> list_all plain s"
  by (auto simp: list_all_iff)

lemma strip_prefixes_same:
  assumes "list_all plain s" "\<forall>w \<in> set ws. w = [] \<or> \<not> plain (hd w)"
  shows "strip_prefixes ws s = s"
proof -
  have "\<not> (w \<noteq> [] \<and> take (length w) s = w)" if "w \<in> set ws" for w
  proof (cases "w = [] \<or> s = []")
    case True
    then show ?thesis by auto
  next
    case False
    then have "take (length w) s = w \<longrightarrow> hd w = hd s" by (metis hd_take length_greater_0_conv)
    moreover have "plain (hd s)" using False assms(1) by (cases s) auto
    ultimately show ?thesis using assms(2) that False by auto
  qed
  then have "List.find (\<lambda>w. w \<noteq> [] \<and> take (length w) s = w) ws = None"
    by (simp add: find_None_iff)
  then show ?thesis by (simp add: strip_prefixes.simps)
qed

lemma ws_not_plain:
  "\<forall>w \<in> set ws_encodings. w = [] \<or> \<not> plain (hd w)"
  "\<forall>w \<in> set (map rev ws_encodings). w = [] \<or> \<not> plain (hd w)"
  by (simp_all add: ws_encodings_def plain_def)

lemma str_trim_plain: "list_all plain s \<Longrightarrow> str_trim s = s"
  unfolding str_trim_def
  by (subst strip_prefixes_same [OF _ ws_not_plain(1)], assumption,
      subst strip_prefixes_same [OF _ ws_not_plain(2)]) (simp_all add: list_all_rev)

lemma digits_no_dot: "all_digits s \<Longrightarrow> \<forall>c \<in> set s. c \<noteq> CHR ''.''"
  using digit_not_sign by (auto simp: list_all_iff)

lemma split_dot_digits:
  "all_digits s \<Longrightarrow> split_dot (s @ CHR ''.'' # f) = (s, f)"
  "all_digits s \<Longrightarrow> split_dot s = (s, [])"
proof -
  assume a: "all_digits s"
  let ?P = "\<lambda>c. c \<noteq> CHR ''.''"
  have all: "\<And>c. c \<in> set s \<Longrightarrow> ?P c" using digits_no_dot [OF a] by blast
  have "takeWhile ?P (s @ CHR ''.'' # f) = s" "dropWhile ?P (s @ CHR ''.'' # f) = CHR ''.'' # f"
    by (simp_all add: takeWhile_append2 dropWhile_append2 all)
  then show "split_dot (s @ CHR ''.'' # f) = (s, f)" by (simp add: split_dot_def)
  have "takeWhile ?P s = s" "dropWhile ?P s = []"
    using all by (simp_all add: takeWhile_eq_all_conv dropWhile_eq_Nil_conv)
  then show "split_dot s = (s, [])" by (simp only: split_dot_def drop_Nil)
qed

lemma str_cont_digit: "is_digit c \<Longrightarrow> \<not> str_cont c"
  by (auto simp: str_cont_def is_digit_def)

lemma char_count_digits: "all_digits s \<Longrightarrow> char_count s = length s"
  by (induction s) (simp_all add: char_count_def str_cont_digit)

lemma str_slice_to_digits:
  "all_digits s \<Longrightarrow> n \<le> length s \<Longrightarrow> str_slice_to n s = Some (take n s)"
  by (auto simp: str_slice_to_def list_all_length str_cont_digit)

section \<open>The scaled value of a decimal\<close>

lemma i64_of_int_mult: "i64_of_int (a * b) = i64_of_int a * i64_of_int b"
  by (simp add: i64_of_int_def times_i64_def)

lemma i64_of_int_pow10: "i64_of_int (10 ^ n) = 10 ^ n"
proof (induction n)
  case 0
  then show ?case by (simp add: i64_of_int_def one_i64_def)
next
  case (Suc n)
  have "i64_of_int 10 = 10" by (simp add: i64_of_int_def numeral_i64)
  with Suc show ?case by (simp add: i64_of_int_mult)
qed

text \<open>The decimal \<open>i.f\<close> in units of \<open>10^-n\<close>, further digits cut off.\<close>

definition decimal_scaled :: "string \<Rightarrow> string \<Rightarrow> nat \<Rightarrow> nat" where
  "decimal_scaled i f n = digits_val (i @ f) * 10 ^ n div 10 ^ length f"

lemma frac_digits_scaled:
  assumes "all_digits f"
  shows "digits_val (take n (f @ replicate (n - length f) CHR ''0'')) =
    digits_val f * 10 ^ n div 10 ^ length f"
proof (cases "n \<le> length f")
  case True
  let ?k = "length f - n"
  have "digits_val f = digits_val (take n f) * 10 ^ ?k + digits_val (drop n f)"
    using digits_val_simps(3) [of "take n f" "drop n f"] by simp
  moreover have "digits_val (drop n f) < 10 ^ ?k"
    using digits_val_less [of "drop n f"] assms by (auto simp: list_all_iff dest: in_set_dropD)
  ultimately have "digits_val f div 10 ^ ?k = digits_val (take n f)" by simp
  moreover have "digits_val f * 10 ^ n div 10 ^ length f = digits_val f div 10 ^ ?k"
  proof -
    have "(10 :: nat) ^ length f = 10 ^ ?k * 10 ^ n"
      using True by (simp flip: power_add)
    then show ?thesis by simp
  qed
  ultimately show ?thesis using True by simp
next
  case False
  then have "(10 :: nat) ^ n = 10 ^ length f * 10 ^ (n - length f)"
    by (simp flip: power_add)
  then have "digits_val f * 10 ^ n div 10 ^ length f = digits_val f * 10 ^ (n - length f)"
    by (simp add: mult.left_commute)
  then show ?thesis using False by simp
qed

lemma decimal_scaled_split:
  "decimal_scaled i f n = digits_val i * 10 ^ n + digits_val f * 10 ^ n div 10 ^ length f"
proof -
  have "digits_val (i @ f) * 10 ^ n =
      digits_val f * 10 ^ n + (digits_val i * 10 ^ n) * 10 ^ length f"
    by (simp add: algebra_simps)
  then show ?thesis by (simp add: decimal_scaled_def)
qed

lemma frac_digits_bound:
  assumes "all_digits f" "n \<le> 18"
  shows "digits_val (take n (f @ replicate (n - length f) CHR ''0'')) < 2 ^ 63"
proof -
  have "digits_val (take n (f @ replicate (n - length f) CHR ''0'')) <
      10 ^ length (take n (f @ replicate (n - length f) CHR ''0''))"
    using assms(1) by (intro digits_val_less) (auto simp: list_all_iff is_digit_def dest: in_set_takeD)
  also have "\<dots> \<le> 10 ^ 18"
    using assms(2) by (intro power_increasing) auto
  finally show ?thesis by simp
qed

lemma scaled_sum:
  "i64_of_int (int (digits_val i)) * 10 ^ n +
     i64_of_int (int (digits_val f * 10 ^ n div 10 ^ length f)) =
   i64_of_int (int (decimal_scaled i f n))"
proof -
  have "int (decimal_scaled i f n) =
      int (digits_val i) * 10 ^ n + int (digits_val f * 10 ^ n div 10 ^ length f)"
    by (simp add: decimal_scaled_split)
  then show ?thesis by (simp only: i64_of_int_add i64_of_int_mult i64_of_int_pow10)
qed

text \<open>The padded fraction of the adapters.\<close>

lemma padded_fraction:
  assumes "all_digits f" "n \<le> 18" "0 < n"
  shows "str_slice_to n (pad_zeros n f) = Some (take n (f @ replicate (n - length f) CHR ''0''))"
    and "parse_i64 (take n (f @ replicate (n - length f) CHR ''0'')) =
      Inr (i64_of_int (int (digits_val f * 10 ^ n div 10 ^ length f)))"
proof -
  let ?p = "f @ replicate (n - length f) CHR ''0''"
  have p: "pad_zeros n f = ?p" "all_digits ?p" "n \<le> length ?p"
    using assms(1) by (simp_all add: pad_zeros_def char_count_digits)
  then show "str_slice_to n (pad_zeros n f) = Some (take n ?p)"
    by (simp only: str_slice_to_digits)
  have "all_digits (take n ?p)" "take n ?p \<noteq> []"
    using p assms(3) by (auto simp: list_all_iff dest: in_set_takeD)
  then have "parse_i64 (take n ?p) = Inr (i64_of_int (int (digits_val (take n ?p))))"
    using parse_i64_small frac_digits_bound [OF assms(1,2)] by blast
  then show "parse_i64 (take n ?p) =
      Inr (i64_of_int (int (digits_val f * 10 ^ n div 10 ^ length f)))"
    by (simp only: frac_digits_scaled [OF assms(1), of n])
qed

lemma i64_of_int_0 [simp]: "i64_of_int 0 = 0"
  by (simp add: i64_of_int_def zero_i64_def)

lemma parse_int_part:
  "all_digits i \<Longrightarrow> digits_val i < 2 ^ 63 \<Longrightarrow>
   (if i = [] then Inr 0 else map_err g (parse_i64 i)) = Inr (i64_of_int (int (digits_val i)))"
  by (auto simp: parse_i64_digits i64_of_int_def zero_i64_def)

lemma adapter_parse_scaled_decimal:
  assumes "all_digits i" "all_digits f" "digits_val i < 2 ^ 63" "unat scale \<le> 18"
  shows "adapter_parse_scaled invalid panic (i @ CHR ''.'' # f) scale =
      Inr (i64_of_int (int (decimal_scaled i f (unat scale))))"
    and "adapter_parse_scaled invalid panic i scale =
      Inr (i64_of_int (int (decimal_scaled i [] (unat scale))))"
proof -
  have main: "adapter_parse_scaled invalid panic t scale =
      Inr (i64_of_int (int (decimal_scaled i g (unat scale))))"
    if t: "str_trim t = t" "split_dot t = (i, g)" "all_digits g" for t g
  proof (cases "unat scale = 0")
    case True
    then show ?thesis
      using digits_val_less [OF t(3)]
      by (simp add: adapter_parse_scaled_def t decimal_scaled_split parse_int_part [OF assms(1,3)])
  next
    case False
    then show ?thesis
      using padded_fraction [OF t(3) assms(4)]
      by (simp add: adapter_parse_scaled_def t parse_int_part [OF assms(1,3)] scaled_sum)
  qed
  have plain: "list_all plain i" "list_all plain (i @ CHR ''.'' # f)"
    using assms(1,2) by (simp_all add: all_digits_plain)
  show "adapter_parse_scaled invalid panic (i @ CHR ''.'' # f) scale =
      Inr (i64_of_int (int (decimal_scaled i f (unat scale))))"
    using main [OF str_trim_plain [OF plain(2)] split_dot_digits(1) [OF assms(1)] assms(2)] .
  show "adapter_parse_scaled invalid panic i scale =
      Inr (i64_of_int (int (decimal_scaled i [] (unat scale))))"
    using main [OF str_trim_plain [OF plain(1)] split_dot_digits(2) [OF assms(1)]] by simp
qed

section \<open>Negative decimals\<close>

lemma parse_neg_digits:
  "all_digits s \<Longrightarrow> acc * 10 ^ length s + digits_val s < 2 ^ 63 \<Longrightarrow>
   parse_neg (- int acc) s = Inr (- int (acc * 10 ^ length s + digits_val s))"
proof (induction s arbitrary: acc)
  case (Cons c cs)
  let ?a = "acc * 10 + digit_val c"
  have v: "acc * 10 ^ length (c # cs) + digits_val (c # cs) = ?a * 10 ^ length cs + digits_val cs"
    by (simp add: algebra_simps)
  have "?a \<le> ?a * 10 ^ length cs + digits_val cs" by (simp add: trans_le_add1)
  with Cons.prems(2) have "?a < 2 ^ 63" unfolding v by simp
  then have lim: "\<not> - int acc * 10 - int (digit_val c) < - (2 ^ 63)" by simp
  have cast: "- int acc * 10 - int (digit_val c) = - int ?a" by simp
  from Cons.prems have d: "all_digits cs" "is_digit c" by auto
  show ?case
    unfolding v parse_neg.simps dec_digit_digit [OF d(2)] option.case if_not_P [OF lim]
    unfolding cast using Cons.IH [OF d(1), of ?a] Cons.prems(2) [unfolded v] by simp
qed simp

lemma parse_i64_neg:
  assumes "all_digits i" "i \<noteq> []" "digits_val i < 2 ^ 63"
  shows "parse_i64 (CHR ''-'' # i) = Inr (i64_of_int (- int (digits_val i)))"
  using parse_neg_digits [OF assms(1), of 0] assms(2,3) by (simp add: parse_i64_def)

lemma split_dot_neg:
  "all_digits i \<Longrightarrow> split_dot (CHR ''-'' # i @ CHR ''.'' # f) = (CHR ''-'' # i, f)"
  using split_dot_digits(1) [of i f] by (simp add: split_dot_def)

lemma plain_neg:
  "all_digits i \<Longrightarrow> all_digits f \<Longrightarrow> str_trim (CHR ''-'' # i @ CHR ''.'' # f) = CHR ''-'' # i @ CHR ''.'' # f"
  by (intro str_trim_plain) (simp add: all_digits_plain)

text \<open>What \<open>-i.f\<close> becomes: the fraction is added to the negative integer part.\<close>

definition sign_lost :: "string \<Rightarrow> string \<Rightarrow> nat \<Rightarrow> int" where
  "sign_lost i f n = int (digits_val f * 10 ^ n div 10 ^ length f) - int (digits_val i * 10 ^ n)"

lemma sign_lost_sum:
  "i64_of_int (- int (digits_val i)) * 10 ^ n +
     i64_of_int (int (digits_val f * 10 ^ n div 10 ^ length f)) = i64_of_int (sign_lost i f n)"
proof -
  have "sign_lost i f n =
      - int (digits_val i) * 10 ^ n + int (digits_val f * 10 ^ n div 10 ^ length f)"
    by (simp add: sign_lost_def)
  then show ?thesis by (simp only: i64_of_int_add i64_of_int_mult i64_of_int_pow10)
qed

lemma adapter_parse_scaled_neg:
  assumes "all_digits i" "i \<noteq> []" "all_digits f" "digits_val i < 2 ^ 63" "0 < unat n" "unat n \<le> 18"
  shows "adapter_parse_scaled invalid panic (CHR ''-'' # i @ CHR ''.'' # f) n =
      Inr (i64_of_int (sign_lost i f (unat n)))"
  using padded_fraction [OF assms(3,6,5)] assms(5) sign_lost_sum [of i "unat n" f]
  by (simp add: adapter_parse_scaled_def plain_neg [OF assms(1,3)] split_dot_neg [OF assms(1)]
      parse_i64_neg [OF assms(1,2,4)])

end
