(* ===== verification/Sbe_Frames.thy ===== *)
theory Sbe_Frames
  imports Sbe
begin

text \<open>
  The layout of the SBE schema as a specification, and the proof that the decoders of theory
  \<open>Sbe\<close> read it: a frame is the 8-byte header, the root block, the groups and the symbol; the
  root block and the group entries may carry extension bytes of a later schema version.
\<close>

section \<open>Reading at a position\<close>

definition sbe_at :: "u8 list \<Rightarrow> nat \<Rightarrow> u8 list \<Rightarrow> bool" where
  "sbe_at buf pos bs \<longleftrightarrow> (\<exists>pre post. buf = pre @ bs @ post \<and> length pre = pos)"

definition sreads :: "nat \<Rightarrow> 'a sget \<Rightarrow> u8 list \<Rightarrow> 'a \<Rightarrow> bool" where
  "sreads p g bs v \<longleftrightarrow>
     (\<forall>buf. sbe_at buf p bs \<longrightarrow>
        g \<lparr>cur_buf = buf, cur_pos = p\<rparr> = Inr (v, \<lparr>cur_buf = buf, cur_pos = p + length bs\<rparr>))"

lemma sbe_at_append:
  "sbe_at buf p (a @ b) \<Longrightarrow> sbe_at buf p a"
  "sbe_at buf p (a @ b) \<Longrightarrow> sbe_at buf (p + length a) b"
proof -
  assume "sbe_at buf p (a @ b)"
  then obtain pre post where b: "buf = pre @ (a @ b) @ post" "length pre = p"
    by (auto simp: sbe_at_def)
  have "buf = pre @ a @ (b @ post)" "buf = (pre @ a) @ b @ post" using b by simp_all
  with b(2) show "sbe_at buf p a" "sbe_at buf (p + length a) b"
    unfolding sbe_at_def by (blast, metis length_append)
qed

lemma sbe_at_slice:
  "sbe_at buf p bs \<Longrightarrow> sbe_slice buf p (length bs) = bs"
  "sbe_at buf p bs \<Longrightarrow> p + length bs \<le> length buf"
  by (auto simp: sbe_at_def sbe_slice_def)

lemma sreads_then:
  assumes "sreads p g a x" "sreads (p + length a) (k x) b y"
  shows "sreads p (sget_then g k) (a @ b) y"
  using assms sbe_at_append [of _ p a b]
  by (auto simp: sreads_def sget_then_def add.assoc)

lemma sreads_ret: "sreads p (sget_ret v) [] v"
  by (simp add: sreads_def sget_ret_def)

lemma sreads_ret_eq: "v = w \<Longrightarrow> sreads p (sget_ret v) [] w"
  by (simp add: sreads_ret)

lemma sreads_take: "length bs = n \<Longrightarrow> sreads p (cur_take n) bs bs"
  by (auto simp: sreads_def cur_take_def cur_need_def Let_def sbe_at_slice
      dest: sbe_at_slice(2))

lemma sreads_map:
  assumes "sreads p g bs x" "f x = y"
  shows "sreads p (sget_then g (\<lambda>b. sget_ret (f b))) bs y"
  using sreads_then [OF assms(1), of "\<lambda>b. sget_ret (f b)" "[]" y] assms(2) sreads_ret [of _ y] by simp

lemma sreads_u8: "sreads p read_u8 [b] b"
  unfolding read_u8_def by (rule sreads_map [OF sreads_take]) simp_all

lemma sreads_u16: "sreads p read_u16_le (le_bytes 2 w) w"
  unfolding read_u16_le_def by (rule sreads_map [OF sreads_take]) simp_all

lemma sreads_i64: "sreads p read_i64_le (le_bytes 8 (i64_word x)) x"
  unfolding read_i64_le_def by (rule sreads_map [OF sreads_take]) simp_all

lemma sreads_decimal: "sreads p read_decimal64 (le_bytes 8 (i64_word (mantissa d))) d"
  unfolding read_decimal64_def by (rule sreads_map [OF sreads_i64]) simp

lemma sreads_skip: "q = p + length bs \<Longrightarrow> sreads p (skip_to q) bs ()"
  by (auto simp: sreads_def skip_to_def cur_need_def Let_def dest: sbe_at_slice(2))

section \<open>Layout\<close>

definition sbe_str :: "string \<Rightarrow> u8 list" where
  "sbe_str s = le_bytes 2 (word_of_nat (length s) :: u16) @ str_bytes s"

definition sbe_i64 :: "i64 \<Rightarrow> u8 list" where
  "sbe_i64 x = le_bytes 8 (i64_word x)"

definition sbe_dec :: "decimal64 \<Rightarrow> u8 list" where
  "sbe_dec d = le_bytes 8 (i64_word (mantissa d))"

definition sbe_entry :: "u8 list \<Rightarrow> depth_level \<Rightarrow> u8 list" where
  "sbe_entry ext l = sbe_dec (dl_price l) @ sbe_dec (dl_quantity l) @ ext"

definition sbe_group :: "u8 list \<Rightarrow> depth_level list \<Rightarrow> u8 list" where
  "sbe_group ext ls =
     (le_bytes 2 (word_of_nat (16 + length ext) :: u16) @ [word_of_nat (length ls)]) @
     concat (map (sbe_entry ext) ls)"

fun sbe_root :: "sbe_message \<Rightarrow> u8 list" where
  "sbe_root (SM_Trade e) = sbe_i64 (te_event_time e) @ sbe_i64 (te_transact_time e) @
     sbe_i64 (te_trade_id e) @ sbe_dec (te_price e) @ sbe_dec (te_quantity e) @
     sbe_i64 (te_buyer_order_id e) @ sbe_i64 (te_seller_order_id e) @
     [sbe_aggressor_as_u8 (te_aggressor_side e)] @ [bool_u8 (te_is_buyer_market_maker e)]"
| "sbe_root (SM_Bbo e) = sbe_i64 (be_event_time e) @ sbe_i64 (be_transact_time e) @
     sbe_dec (be_best_bid_price e) @ sbe_dec (be_best_bid_qty e) @
     sbe_dec (be_best_ask_price e) @ sbe_dec (be_best_ask_qty e)"
| "sbe_root (SM_DepthSnapshot e) = sbe_i64 (ds_event_time e) @ sbe_i64 (ds_last_update_id e)"
| "sbe_root (SM_DepthDiff e) = sbe_i64 (dd_event_time e) @ sbe_i64 (dd_transact_time e) @
     sbe_i64 (dd_first_update_id e) @ sbe_i64 (dd_final_update_id e) @
     sbe_i64 (dd_prev_final_update_id e)"

fun sbe_groups :: "u8 list \<Rightarrow> sbe_message \<Rightarrow> u8 list" where
  "sbe_groups ext (SM_DepthSnapshot e) = sbe_group ext (ds_bids e) @ sbe_group ext (ds_asks e)"
| "sbe_groups ext (SM_DepthDiff e) = sbe_group ext (dd_bids e) @ sbe_group ext (dd_asks e)"
| "sbe_groups ext _ = []"

fun sbe_symbol :: "sbe_message \<Rightarrow> string" where
  "sbe_symbol (SM_Trade e) = te_symbol e"
| "sbe_symbol (SM_Bbo e) = be_symbol e"
| "sbe_symbol (SM_DepthSnapshot e) = ds_symbol e"
| "sbe_symbol (SM_DepthDiff e) = dd_symbol e"

fun sbe_template :: "sbe_message \<Rightarrow> template_id" where
  "sbe_template (SM_Trade e) = TradesStream"
| "sbe_template (SM_Bbo e) = BestBidAsk"
| "sbe_template (SM_DepthSnapshot e) = DepthSnapshot"
| "sbe_template (SM_DepthDiff e) = DepthDiff"

fun sbe_levels :: "sbe_message \<Rightarrow> depth_level list list" where
  "sbe_levels (SM_DepthSnapshot e) = [ds_bids e, ds_asks e]"
| "sbe_levels (SM_DepthDiff e) = [dd_bids e, dd_asks e]"
| "sbe_levels _ = []"

text \<open>A frame with \<open>root_ext\<close> behind the root block's fields and \<open>ext\<close> behind every entry's.\<close>

definition sbe_header_bytes :: "u16 \<Rightarrow> u16 \<Rightarrow> u16 \<Rightarrow> u8 list" where
  "sbe_header_bytes block template version =
     le_bytes 2 block @ le_bytes 2 template @ le_bytes 2 SPOT_SCHEMA_ID @ le_bytes 2 version"

definition sbe_frame :: "u16 \<Rightarrow> u8 list \<Rightarrow> u8 list \<Rightarrow> sbe_message \<Rightarrow> u8 list" where
  "sbe_frame version root_ext ext m =
     sbe_header_bytes (word_of_nat (length (sbe_root m @ root_ext)))
       (template_as_u16 (sbe_template m)) version @
     sbe_root m @ root_ext @ sbe_groups ext m @ sbe_str (sbe_symbol m)"

definition sbe_fits :: "u8 list \<Rightarrow> u8 list \<Rightarrow> sbe_message \<Rightarrow> bool" where
  "sbe_fits root_ext ext m \<longleftrightarrow>
     length (sbe_root m @ root_ext) < 2 ^ 16 \<and> 16 + length ext < 2 ^ 16 \<and>
     (\<forall>ls \<in> set (sbe_levels m). length ls < 256) \<and>
     str_utf8 (sbe_symbol m) \<and> length (sbe_symbol m) < 2 ^ 16"

section \<open>Strings and groups\<close>

lemma sreads_var_string:
  assumes "str_utf8 s" "length s < 2 ^ 16"
  shows "sreads p read_var_string (sbe_str s) s"
proof -
  have len: "unat (word_of_nat (length s) :: u16) = length s"
    using assms(2) by (simp add: unat_of_nat)
  have "sreads q (sget_then (cur_take (length s)) (\<lambda>bs.
      if utf8_valid bs then sget_ret (bytes_str bs) else (\<lambda>_. Inl SbeInvalidUtf8))) (str_bytes s @ []) s" for q
    by (rule sreads_then [OF sreads_take])
      (use assms(1) in \<open>simp_all add: str_utf8_def sreads_ret\<close>)
  then show ?thesis
    unfolding read_var_string_def sbe_str_def
    by (intro sreads_then [OF sreads_u16]) (simp add: len)
qed

lemma length_sbe_entry [simp]: "length (sbe_entry ext l) = 16 + length ext"
  by (simp add: sbe_entry_def sbe_dec_def)

lemma depth_level_eta [simp]: "\<lparr>dl_price = dl_price l, dl_quantity = dl_quantity l\<rparr> = l"
  by (cases l) simp

lemma sreads_here: "sreads p (f p) bs v \<Longrightarrow> sreads p (\<lambda>c. f (cur_pos c) c) bs v"
  by (simp add: sreads_def)

lemma sreads_entries:
  assumes "unat w = 16 + length ext"
  shows "sreads p (read_depth_entries w (length ls)) (concat (map (sbe_entry ext) ls)) ls"
proof (induction ls arbitrary: p)
  case Nil
  then show ?case by (simp add: sreads_ret)
next
  case (Cons l ls)
  let ?f = "\<lambda>q. sget_then read_decimal64 (\<lambda>price. sget_then read_decimal64 (\<lambda>quantity.
      sget_then (skip_to (q + unat w)) (\<lambda>_.
      sget_then (read_depth_entries w (length ls)) (\<lambda>levels.
      sget_ret (\<lparr>dl_price = price, dl_quantity = quantity\<rparr> # levels)))))"
  have "sreads p (?f p)
      (sbe_dec (dl_price l) @ sbe_dec (dl_quantity l) @ ext @ concat (map (sbe_entry ext) ls) @ [])
      (l # ls)"
    unfolding sbe_dec_def
    by (intro sreads_then [OF sreads_decimal] sreads_then [OF sreads_skip] sreads_then [OF Cons.IH])
      (simp_all add: assms sreads_ret)
  from sreads_here [of p ?f, OF this] show ?case
    by (simp only: length_Cons read_depth_entries.simps Let_def list.map concat.simps
        sbe_entry_def [of ext l]
        append_assoc append_Nil2)
qed

lemma sreads_group:
  assumes "16 + length ext < 2 ^ 16" "length ls < 256"
    and "sreads (p + length (sbe_group ext ls)) (k ls) b y"
  shows "sreads p (sget_then read_group_header (\<lambda>(entry_len, count).
      sget_then (read_depth_levels entry_len count) k)) (sbe_group ext ls @ b) y"
proof -
  let ?w = "word_of_nat (16 + length ext) :: u16" and ?n = "word_of_nat (length ls) :: u8"
  have w: "unat ?w = 16 + length ext" "unat ?n = length ls"
    using assms(1,2) by (simp_all add: unat_of_nat del: of_nat_add)
  have h: "sreads p read_group_header ((le_bytes 2 ?w @ [?n])) (?w, ?n)"
    unfolding read_group_header_def
    by (rule sreads_then [OF sreads_u16], rule sreads_map [OF sreads_u8]) simp
  have e: "sreads q (read_depth_levels ?w ?n) (concat (map (sbe_entry ext) ls)) ls" for q
    using sreads_entries [OF w(1)] by (simp add: read_depth_levels_def w(2))
  have "sreads p (sget_then read_group_header (\<lambda>(entry_len, count).
      sget_then (read_depth_levels entry_len count) k))
      ((le_bytes 2 ?w @ [?n]) @ (concat (map (sbe_entry ext) ls) @ b)) y"
    by (rule sreads_then [OF h], simp only: prod.case, rule sreads_then [OF e])
      (use assms(3) in \<open>simp add: sbe_group_def eval_nat_numeral\<close>)
  then show ?thesis by (simp only: sbe_group_def append_assoc)
qed

section \<open>Frames\<close>

lemma sbe_run_reads:
  assumes "sreads 8 g bs v" "length h = 8"
  shows "sbe_run g (h @ bs @ rest) = Inr v"
proof -
  have "sbe_at (h @ bs @ rest) 8 bs" using assms(2) by (auto simp: sbe_at_def)
  with assms(1) show ?thesis by (simp add: sreads_def sbe_run_def cur_new_def SBE_HEADER_SIZE_def)
qed

lemma length_sbe_header_bytes [simp]: "length (sbe_header_bytes b t v) = 8"
  by (simp add: sbe_header_bytes_def)

lemma sbe_header_decode_bytes:
  "sbe_header_decode (sbe_header_bytes b t v @ r) =
     Inr \<lparr>sh_block_length = b, sh_template_id = t, sh_schema_id = SPOT_SCHEMA_ID, sh_version = v\<rparr>"
proof -
  have two: "le_bytes 2 w = [ucast w, ucast (drop_bit 8 w)]" for w :: u16
    by (simp add: eval_nat_numeral)
  have joined: "le_val [ucast w, ucast (drop_bit 8 w)] = w" for w :: u16
    using le_val_le_bytes [of 2 w] by (simp add: two)
  show ?thesis
    by (simp add: sbe_header_decode_def sbe_header_bytes_def SBE_HEADER_SIZE_def sbe_slice_def two
        joined del: le_val.simps)
qed

lemmas sreads_nums = sreads_i64 [folded sbe_i64_def] sreads_decimal [folded sbe_dec_def]

lemma length_sbe_num [simp]: "length (sbe_i64 x) = 8" "length (sbe_dec d) = 8"
  by (simp_all add: sbe_i64_def sbe_dec_def)

lemma sbe_aggressor_round: "sbe_aggressor_from_u8 (sbe_aggressor_as_u8 a) = a"
  by (cases a) (simp_all add: sbe_aggressor_from_u8_def)

lemma sbe_body_reads:
  assumes "sbe_fits root_ext ext m"
    and h: "unat (sh_block_length hdr) = length (sbe_root m @ root_ext)"
    and buf: "buf = h @ (sbe_root m @ root_ext @ sbe_groups ext m @ sbe_str (sbe_symbol m)) @ rest"
    and len: "length h = 8"
  shows "m = SM_Trade e1 \<Longrightarrow> decode_trade_body buf hdr = Inr e1"
    and "m = SM_Bbo e2 \<Longrightarrow> decode_bbo_body buf hdr = Inr e2"
    and "m = SM_DepthSnapshot e3 \<Longrightarrow> decode_depth_snapshot_body buf hdr = Inr e3"
    and "m = SM_DepthDiff e4 \<Longrightarrow> decode_depth_diff_body buf hdr = Inr e4"
proof -
  note fits = assms(1) [unfolded sbe_fits_def]
  have str: "sreads q read_var_string (sbe_str (sbe_symbol m)) (sbe_symbol m)" for q
    by (rule sreads_var_string) (use fits in simp_all)
  note seq = sreads_then [OF sreads_nums(1)] sreads_then [OF sreads_nums(2)] sreads_then [OF sreads_u8]
    sreads_then [OF sreads_skip]
  show "decode_trade_body buf hdr = Inr e1" if m: "m = SM_Trade e1"
    unfolding decode_trade_body_def buf
    by (rule sbe_run_reads [OF _ len], subst append_Nil2 [of "sbe_str _", symmetric],
        simp only: m sbe_root.simps sbe_groups.simps append_assoc append_Nil,
        (rule seq)+, simp add: SBE_HEADER_SIZE_def h m, rule sreads_then [OF str [unfolded m]],
        rule sreads_ret_eq, cases e1) (simp add: m sbe_aggressor_round bool_u8_def)
  show "decode_bbo_body buf hdr = Inr e2" if m: "m = SM_Bbo e2"
    unfolding decode_bbo_body_def buf
    by (rule sbe_run_reads [OF _ len], subst append_Nil2 [of "sbe_str _", symmetric],
        simp only: m sbe_root.simps sbe_groups.simps append_assoc append_Nil,
        (rule seq)+, simp add: SBE_HEADER_SIZE_def h m, rule sreads_then [OF str [unfolded m]],
        rule sreads_ret_eq, cases e2) (simp add: m)
  show "decode_depth_snapshot_body buf hdr = Inr e3" if m: "m = SM_DepthSnapshot e3"
    unfolding decode_depth_snapshot_body_def buf
    by (rule sbe_run_reads [OF _ len], subst append_Nil2 [of "sbe_str _", symmetric],
        simp only: m sbe_root.simps sbe_groups.simps append_assoc append_Nil,
        (rule seq)+, simp add: SBE_HEADER_SIZE_def h m, rule sreads_group,
        (use fits in \<open>simp_all add: m\<close>)[2], rule sreads_group,
        (use fits in \<open>simp_all add: m\<close>)[2], rule sreads_then [OF str [unfolded m]],
        rule sreads_ret_eq, cases e3) (simp add: m)
  show "decode_depth_diff_body buf hdr = Inr e4" if m: "m = SM_DepthDiff e4"
    unfolding decode_depth_diff_body_def buf
    by (rule sbe_run_reads [OF _ len], subst append_Nil2 [of "sbe_str _", symmetric],
        simp only: m sbe_root.simps sbe_groups.simps append_assoc append_Nil,
        (rule seq)+, simp add: SBE_HEADER_SIZE_def h m, rule sreads_group,
        (use fits in \<open>simp_all add: m\<close>)[2], rule sreads_group,
        (use fits in \<open>simp_all add: m\<close>)[2], rule sreads_then [OF str [unfolded m]],
        rule sreads_ret_eq, cases e4) (simp add: m)
qed

lemma sbe_decode_frame:
  assumes "sbe_fits root_ext ext m" "version \<le> SPOT_SCHEMA_VERSION_MAX"
  shows "sbe_decode_message (sbe_frame version root_ext ext m @ rest) = Inr m"
proof -
  let ?hdr = "\<lparr>sh_block_length = word_of_nat (length (sbe_root m @ root_ext)),
    sh_template_id = template_as_u16 (sbe_template m), sh_schema_id = SPOT_SCHEMA_ID,
    sh_version = version\<rparr>"
  let ?buf = "sbe_frame version root_ext ext m @ rest"
  have dec: "sbe_header_decode ?buf = Inr ?hdr" "validate_schema ?hdr = Inr ()"
    using assms(2) by (simp_all add: sbe_frame_def sbe_header_decode_bytes validate_schema_def not_less)
  have buf: "?buf = sbe_header_bytes (word_of_nat (length (sbe_root m @ root_ext)))
      (template_as_u16 (sbe_template m)) version @
      (sbe_root m @ root_ext @ sbe_groups ext m @ sbe_str (sbe_symbol m)) @ rest"
    by (simp add: sbe_frame_def)
  have "unat (sh_block_length ?hdr) = length (sbe_root m @ root_ext)"
    using assms(1) by (simp add: sbe_fits_def unat_of_nat del: length_append)
  note body = sbe_body_reads [OF assms(1) this _ length_sbe_header_bytes, of ?buf, OF buf]
  have t: "template_from_u16 (template_as_u16 t) = Inr t" for t
    by (cases t) (simp_all add: template_from_u16_def)
  have "sbe_decode_message ?buf =
      (case sbe_template m of
         TradesStream \<Rightarrow> map_sum id SM_Trade (decode_trade_body ?buf ?hdr)
       | BestBidAsk \<Rightarrow> map_sum id SM_Bbo (decode_bbo_body ?buf ?hdr)
       | DepthSnapshot \<Rightarrow> map_sum id SM_DepthSnapshot (decode_depth_snapshot_body ?buf ?hdr)
       | DepthDiff \<Rightarrow> map_sum id SM_DepthDiff (decode_depth_diff_body ?buf ?hdr))"
    by (simp only: sbe_decode_message_def dec t and_then_simps sbe_header.simps)
  with body show ?thesis by (cases m) simp_all
qed

end
