(* ===== verification/Protocol_Json.thy ===== *)
theory Protocol_Json
  imports Decimal
begin

text \<open>
  The JSON feeds: \<open>crates/protocol-json/src/spot.rs\<close> and \<open>futures.rs\<close> (event structs, the
  dispatch on the stream name) and the subscriptions that produce those stream names,
  \<open>stream.rs\<close> of both adapters. The JSON reader \<open>serde_json\<close> is third-party: a record of its
  answers is an argument of the two parsers.
\<close>

datatype 'j json_error = Parse 'j

section \<open>Spot events\<close>

record SpotBookTicker =
  sbt_update_id :: u64
  sbt_symbol :: string
  sbt_bid_price :: string
  sbt_bid_qty :: string
  sbt_ask_price :: string
  sbt_ask_qty :: string

record SpotDepthUpdate =
  sdu_event_time_ms :: i64
  sdu_symbol :: string
  sdu_first_update_id :: u64
  sdu_last_update_id :: u64
  sdu_bids :: "(string \<times> string) list"
  sdu_asks :: "(string \<times> string) list"

record SpotTrade =
  stt_event_time_ms :: i64
  stt_symbol :: string
  stt_trade_id :: u64
  stt_price :: string
  stt_qty :: string
  stt_trade_time_ms :: i64
  stt_is_buyer_maker :: bool

datatype spot_event =
    SE_BookTicker SpotBookTicker
  | SE_DepthUpdate SpotDepthUpdate
  | SE_Trade SpotTrade
  | SE_Unknown string

datatype spot_stream_kind = SK_BookTicker | SK_DepthUpdate | SK_Trade | SK_Unknown

text \<open>\<open>split('@').nth(1).unwrap_or("")\<close>.\<close>

definition kind_segment :: "string \<Rightarrow> string" where
  "kind_segment stream = (case str_split CHR ''@'' stream of _ # kind # _ \<Rightarrow> kind | _ \<Rightarrow> [])"

definition spot_stream_kind :: "string \<Rightarrow> spot_stream_kind" where
  "spot_stream_kind stream =
     (let kind = kind_segment stream in
      if kind = ''bookTicker'' then SK_BookTicker
      else if kind = ''depth'' then SK_DepthUpdate
      else if kind = ''trade'' then SK_Trade
      else SK_Unknown)"

record 'j spot_json =
  sj_wrapper :: "u8 list \<Rightarrow> 'j + string \<times> string"
  sj_book_ticker :: "string \<Rightarrow> 'j + SpotBookTicker"
  sj_depth_update :: "string \<Rightarrow> 'j + SpotDepthUpdate"
  sj_trade :: "string \<Rightarrow> 'j + SpotTrade"

definition parse_spot_message :: "'j spot_json \<Rightarrow> u8 list \<Rightarrow> 'j json_error + spot_event" where
  "parse_spot_message json bytes =
     and_then (map_err Parse (sj_wrapper json bytes)) (\<lambda>(stream, data).
     case spot_stream_kind stream of
       SK_BookTicker \<Rightarrow> and_then (map_err Parse (sj_book_ticker json data)) (\<lambda>m. Inr (SE_BookTicker m))
     | SK_DepthUpdate \<Rightarrow> and_then (map_err Parse (sj_depth_update json data)) (\<lambda>m. Inr (SE_DepthUpdate m))
     | SK_Trade \<Rightarrow> and_then (map_err Parse (sj_trade json data)) (\<lambda>m. Inr (SE_Trade m))
     | SK_Unknown \<Rightarrow> Inr (SE_Unknown stream))"

section \<open>Futures events\<close>

record FuturesBookTicker =
  fbt_update_id :: u64
  fbt_symbol :: string
  fbt_bid_price :: string
  fbt_bid_qty :: string
  fbt_ask_price :: string
  fbt_ask_qty :: string

record FuturesDepthUpdate =
  fdu_event_time_ms :: i64
  fdu_transaction_time_ms :: i64
  fdu_symbol :: string
  fdu_first_update_id :: u64
  fdu_last_update_id :: u64
  fdu_prev_final_update_id :: u64
  fdu_bids :: "(string \<times> string) list"
  fdu_asks :: "(string \<times> string) list"

record FuturesAggTrade =
  fat_event_time_ms :: i64
  fat_symbol :: string
  fat_agg_trade_id :: u64
  fat_price :: string
  fat_qty :: string
  fat_first_trade_id :: u64
  fat_last_trade_id :: u64
  fat_trade_time_ms :: i64
  fat_is_buyer_maker :: bool

record FuturesMarkPrice =
  fmp_event_time_ms :: i64
  fmp_symbol :: string
  fmp_mark_price :: string
  fmp_index_price :: string
  fmp_funding_rate :: string
  fmp_next_funding_time_ms :: i64

record FuturesLiquidationOrder =
  flo_symbol :: string
  flo_side :: string
  flo_qty :: string
  flo_price :: string
  flo_avg_price :: string
  flo_last_filled_qty :: string
  flo_trade_time_ms :: i64

record FuturesForceOrder =
  ffo_event_time_ms :: i64
  ffo_order :: FuturesLiquidationOrder

datatype futures_event =
    FE_BookTicker FuturesBookTicker
  | FE_DepthUpdate FuturesDepthUpdate
  | FE_AggTrade FuturesAggTrade
  | FE_MarkPrice FuturesMarkPrice
  | FE_ForceOrder FuturesForceOrder
  | FE_Unknown string

datatype futures_stream_kind =
  FK_BookTicker | FK_DepthUpdate | FK_AggTrade | FK_MarkPrice | FK_ForceOrder | FK_Unknown

definition futures_stream_kind_of :: "string \<Rightarrow> futures_stream_kind" where
  "futures_stream_kind_of stream =
     (let kind = kind_segment stream in
      if kind = ''bookTicker'' then FK_BookTicker
      else if kind = ''depth'' then FK_DepthUpdate
      else if kind = ''aggTrade'' then FK_AggTrade
      else if kind = ''markPrice'' then FK_MarkPrice
      else if kind = ''forceOrder'' then FK_ForceOrder
      else FK_Unknown)"

record 'j futures_json =
  fj_wrapper :: "u8 list \<Rightarrow> 'j + string \<times> string"
  fj_book_ticker :: "string \<Rightarrow> 'j + FuturesBookTicker"
  fj_depth_update :: "string \<Rightarrow> 'j + FuturesDepthUpdate"
  fj_agg_trade :: "string \<Rightarrow> 'j + FuturesAggTrade"
  fj_mark_price :: "string \<Rightarrow> 'j + FuturesMarkPrice"
  fj_force_order :: "string \<Rightarrow> 'j + FuturesForceOrder"

definition parse_futures_message ::
  "'j futures_json \<Rightarrow> u8 list \<Rightarrow> 'j json_error + futures_event" where
  "parse_futures_message json bytes =
     and_then (map_err Parse (fj_wrapper json bytes)) (\<lambda>(stream, data).
     case futures_stream_kind_of stream of
       FK_BookTicker \<Rightarrow> and_then (map_err Parse (fj_book_ticker json data)) (\<lambda>m. Inr (FE_BookTicker m))
     | FK_DepthUpdate \<Rightarrow> and_then (map_err Parse (fj_depth_update json data)) (\<lambda>m. Inr (FE_DepthUpdate m))
     | FK_AggTrade \<Rightarrow> and_then (map_err Parse (fj_agg_trade json data)) (\<lambda>m. Inr (FE_AggTrade m))
     | FK_MarkPrice \<Rightarrow> and_then (map_err Parse (fj_mark_price json data)) (\<lambda>m. Inr (FE_MarkPrice m))
     | FK_ForceOrder \<Rightarrow> and_then (map_err Parse (fj_force_order json data)) (\<lambda>m. Inr (FE_ForceOrder m))
     | FK_Unknown \<Rightarrow> Inr (FE_Unknown stream))"

section \<open>Subscriptions\<close>

definition SPOT_WS_BASE :: string where "SPOT_WS_BASE = ''wss://stream.binance.com:443''"
definition FUTURES_WS_BASE :: string where "FUTURES_WS_BASE = ''wss://fstream.binance.com:443''"

datatype spot_stream = SS_BookTicker | SS_Depth u16 | SS_Trade | SS_AggTrade

fun spot_stream_name :: "spot_stream \<Rightarrow> string \<Rightarrow> string" where
  "spot_stream_name SS_BookTicker symbol = str_lowercase symbol @ ''@bookTicker''"
| "spot_stream_name (SS_Depth update_speed_ms) symbol =
     str_lowercase symbol @ ''@depth@'' @ dec_str (unat update_speed_ms) @ ''ms''"
| "spot_stream_name SS_Trade symbol = str_lowercase symbol @ ''@trade''"
| "spot_stream_name SS_AggTrade symbol = str_lowercase symbol @ ''@aggTrade''"

datatype futures_stream =
  FS_BookTicker | FS_Depth u16 | FS_AggTrade | FS_MarkPrice u16 | FS_ForceOrder

fun futures_stream_name :: "futures_stream \<Rightarrow> string \<Rightarrow> string" where
  "futures_stream_name FS_BookTicker symbol = str_lowercase symbol @ ''@bookTicker''"
| "futures_stream_name (FS_Depth update_speed_ms) symbol =
     str_lowercase symbol @ ''@depth@'' @ dec_str (unat update_speed_ms) @ ''ms''"
| "futures_stream_name FS_AggTrade symbol = str_lowercase symbol @ ''@aggTrade''"
| "futures_stream_name (FS_MarkPrice update_interval_secs) symbol =
     (if update_interval_secs = 1 then str_lowercase symbol @ ''@markPrice@1s''
      else str_lowercase symbol @ ''@markPrice'')"
| "futures_stream_name FS_ForceOrder symbol = str_lowercase symbol @ ''@forceOrder''"

fun str_join :: "string \<Rightarrow> string list \<Rightarrow> string" where
  "str_join sep [] = []"
| "str_join sep [s] = s"
| "str_join sep (s # t # ss) = s @ sep @ str_join sep (t # ss)"

definition spot_build_url :: "string \<Rightarrow> string list \<Rightarrow> string" where
  "spot_build_url base_url streams = base_url @ ''/stream?streams='' @ str_join ''/'' streams"

definition futures_build_url :: "string \<Rightarrow> string list \<Rightarrow> string" where
  "futures_build_url base_url streams = base_url @ ''/stream?streams='' @ str_join ''/'' streams"

section \<open>Every subscription is recognised\<close>

lemma char_lower_at:
  assumes "char_lower c = CHR ''@''"
  shows "c = CHR ''@''"
proof (cases "65 \<le> (of_char c :: nat) \<and> (of_char c :: nat) \<le> 90")
  case True
  then have "(of_char (char_lower c) :: nat) \<noteq> of_char CHR ''@''"
    by (simp add: char_lower_def Let_def)
  with assms show ?thesis by simp
next
  case False
  then have "char_lower c = c" by (auto simp: char_lower_def Let_def)
  with assms show ?thesis by simp
qed

lemma lowercase_no_at:
  assumes "CHR ''@'' \<notin> set symbol"
  shows "CHR ''@'' \<notin> set (str_lowercase symbol)"
proof
  assume "CHR ''@'' \<in> set (str_lowercase symbol)"
  then obtain c where "c \<in> set symbol" "CHR ''@'' = char_lower c"
    unfolding str_lowercase_def set_map by blast
  with char_lower_at [of c] assms show False by simp
qed

lemma kind_segment_name:
  assumes "CHR ''@'' \<notin> set symbol" "CHR ''@'' \<notin> set k"
  shows "kind_segment (str_lowercase symbol @ CHR ''@'' # k) = k"
    and "kind_segment (str_lowercase symbol @ CHR ''@'' # k @ CHR ''@'' # r) = k"
  using assms lowercase_no_at
  by (simp_all add: kind_segment_def str_split_append str_split_single)

fun spot_kind_of :: "spot_stream \<Rightarrow> spot_stream_kind" where
  "spot_kind_of SS_BookTicker = SK_BookTicker"
| "spot_kind_of (SS_Depth _) = SK_DepthUpdate"
| "spot_kind_of SS_Trade = SK_Trade"
| "spot_kind_of SS_AggTrade = SK_Unknown"

fun futures_kind_of :: "futures_stream \<Rightarrow> futures_stream_kind" where
  "futures_kind_of FS_BookTicker = FK_BookTicker"
| "futures_kind_of (FS_Depth _) = FK_DepthUpdate"
| "futures_kind_of FS_AggTrade = FK_AggTrade"
| "futures_kind_of (FS_MarkPrice _) = FK_MarkPrice"
| "futures_kind_of FS_ForceOrder = FK_ForceOrder"

lemma spot_stream_kind_name:
  assumes "CHR ''@'' \<notin> set symbol"
  shows "spot_stream_kind (spot_stream_name s symbol) = spot_kind_of s"
proof (cases s)
  case (SS_Depth ms)
  then show ?thesis
    using kind_segment_name(2) [OF assms, of "''depth''" "dec_str (unat ms) @ ''ms''"]
    by (simp add: spot_stream_kind_def)
qed (use kind_segment_name(1) [OF assms] in \<open>simp_all add: spot_stream_kind_def\<close>)

lemma futures_stream_kind_name:
  assumes "CHR ''@'' \<notin> set symbol"
  shows "futures_stream_kind_of (futures_stream_name s symbol) = futures_kind_of s"
proof (cases s)
  case (FS_Depth ms)
  then show ?thesis
    using kind_segment_name(2) [OF assms, of "''depth''" "dec_str (unat ms) @ ''ms''"]
    by (simp add: futures_stream_kind_of_def)
next
  case (FS_MarkPrice n)
  then show ?thesis
    using kind_segment_name(2) [OF assms, of "''markPrice''" "''1s''"]
      kind_segment_name(1) [OF assms, of "''markPrice''"]
    by (simp add: futures_stream_kind_of_def)
qed (use kind_segment_name(1) [OF assms] in \<open>simp_all add: futures_stream_kind_of_def\<close>)

end
