(* ===== verification/Spot_Normalizer.thy ===== *)
theory Spot_Normalizer
  imports Protocol_Json Normalized_Message
begin

text \<open>
  From exchange events to normalized messages: \<open>normalizer.rs\<close> of both adapters. A call takes
  the sequence counter of the connection and returns it advanced. The scaling routine is
  \<open>adapter_parse_scaled\<close> of theory \<open>Decimal\<close>, which the two files share word for word; a slice
  inside a UTF-8 character, where Rust panics, is the error \<open>Panic\<close>.
\<close>

section \<open>Spot\<close>

record normalize_ctx =
  nc_venue_id :: venue_id
  nc_market_type :: market_type
  nc_instance_id :: u32
  nc_connection_id :: u32

datatype normalize_error =
    InvalidDecimal string u32 parse_int_error
  | UnknownSide string
  | Panic

definition make_header ::
  "message_type \<Rightarrow> InstrumentDefinition \<Rightarrow> normalize_ctx \<Rightarrow> u64 \<Rightarrow> i64 \<Rightarrow> i64 \<Rightarrow> message_header" where
  "make_header msg_type inst ctx seq exchange_event_ts recv_ts =
     \<lparr>mh_schema_version = SCHEMA_VERSION, mh_message_type = msg_type,
      mh_venue_id = nc_venue_id ctx, mh_market_type = nc_market_type ctx,
      mh_instrument_id = mh_instrument_id (id_header inst),
      mh_connection_id = nc_connection_id ctx, mh_instance_id = nc_instance_id ctx,
      mh_sequence_number = seq, mh_exchange_event_ts = exchange_event_ts,
      mh_exchange_tx_ts = TS_NONE, mh_local_recv_ts = recv_ts, mh_local_publish_ts = TS_NONE\<rparr>"

definition take_seq :: "u64 \<Rightarrow> u64 \<times> u64" where
  "take_seq seq = (seq, seq + 1)"

definition i64_saturating_mul :: "i64 \<Rightarrow> i64 \<Rightarrow> i64" where
  "i64_saturating_mul a b = i64_of_int (max (- (2 ^ 63)) (min (2 ^ 63 - 1) (i64_val a * i64_val b)))"

definition ms_to_ns :: "i64 \<Rightarrow> i64" where
  "ms_to_ns ms = i64_saturating_mul ms 1000000"

definition parse_scaled :: "string \<Rightarrow> u32 \<Rightarrow> normalize_error + i64" where
  "parse_scaled s scale = adapter_parse_scaled InvalidDecimal Panic s scale"

definition parse_levels :: "(string \<times> string) list \<Rightarrow> u32 \<Rightarrow> u32 \<Rightarrow> normalize_error + price_level list" where
  "parse_levels levels p q =
     collect_results (\<lambda>(price, qty).
       and_then (parse_scaled price p) (\<lambda>pr.
       and_then (parse_scaled qty q) (\<lambda>qt. Inr \<lparr>pl_price = pr, pl_qty = qt\<rparr>))) levels"

definition normalize_book_ticker ::
  "SpotBookTicker \<Rightarrow> InstrumentDefinition \<Rightarrow> normalize_ctx \<Rightarrow> u64 \<Rightarrow> i64 \<Rightarrow> normalize_error + BestBidOffer" where
  "normalize_book_ticker bt inst ctx seq recv_ts =
     (let p = id_price_scale inst; q = id_qty_scale inst in
      and_then (parse_scaled (sbt_bid_price bt) p) (\<lambda>bid_price.
      and_then (parse_scaled (sbt_bid_qty bt) q) (\<lambda>bid_qty.
      and_then (parse_scaled (sbt_ask_price bt) p) (\<lambda>ask_price.
      and_then (parse_scaled (sbt_ask_qty bt) q) (\<lambda>ask_qty.
      Inr \<lparr>bbo_header = make_header MT_BestBidOffer inst ctx seq TS_NONE recv_ts,
           bbo_symbol = id_symbol inst, bbo_price_scale = ucast p, bbo_qty_scale = ucast q,
           bbo_bid_price = bid_price, bbo_bid_qty = bid_qty,
           bbo_ask_price = ask_price, bbo_ask_qty = ask_qty,
           bbo_update_id = sbt_update_id bt\<rparr>)))))"

definition normalize_depth_update ::
  "SpotDepthUpdate \<Rightarrow> InstrumentDefinition \<Rightarrow> normalize_ctx \<Rightarrow> u64 \<Rightarrow> i64 \<Rightarrow> normalize_error + BookDelta" where
  "normalize_depth_update du inst ctx seq recv_ts =
     (let p = id_price_scale inst; q = id_qty_scale inst in
      and_then (parse_levels (sdu_bids du) p q) (\<lambda>bids.
      and_then (parse_levels (sdu_asks du) p q) (\<lambda>asks.
      Inr \<lparr>bd_header = make_header MT_BookDelta inst ctx seq (ms_to_ns (sdu_event_time_ms du)) recv_ts,
           bd_symbol = id_symbol inst, bd_price_scale = ucast p, bd_qty_scale = ucast q,
           bd_first_update_id = sdu_first_update_id du, bd_final_update_id = sdu_last_update_id du,
           bd_prev_update_id = UPDATE_ID_NONE, bd_bids = bids, bd_asks = asks\<rparr>)))"

definition normalize_trade ::
  "SpotTrade \<Rightarrow> InstrumentDefinition \<Rightarrow> normalize_ctx \<Rightarrow> u64 \<Rightarrow> i64 \<Rightarrow> normalize_error + Trade" where
  "normalize_trade t inst ctx seq recv_ts =
     (let aggressor_side = (if stt_is_buyer_maker t then Aggr_Sell else Aggr_Buy) in
      and_then (parse_scaled (stt_price t) (id_price_scale inst)) (\<lambda>price.
      and_then (parse_scaled (stt_qty t) (id_qty_scale inst)) (\<lambda>qty.
      Inr \<lparr>tr_header = make_header MT_Trade inst ctx seq (ms_to_ns (stt_event_time_ms t)) recv_ts,
           tr_symbol = id_symbol inst, tr_price_scale = ucast (id_price_scale inst),
           tr_qty_scale = ucast (id_qty_scale inst), tr_trade_id = stt_trade_id t,
           tr_price = price, tr_qty = qty, tr_trade_ts = ms_to_ns (stt_trade_time_ms t),
           tr_is_buyer_maker = stt_is_buyer_maker t, tr_aggressor_side = aggressor_side\<rparr>)))"

definition normalize_spot_event ::
  "spot_event \<Rightarrow> InstrumentDefinition \<Rightarrow> normalize_ctx \<Rightarrow> i64 \<Rightarrow> u64 \<Rightarrow>
   (normalize_error + normalized_message option) \<times> u64" where
  "normalize_spot_event event inst ctx recv_ts seq =
     (case event of
        SE_BookTicker bt \<Rightarrow>
          let (n, seq') = take_seq seq in
          (and_then (normalize_book_ticker bt inst ctx n recv_ts)
             (\<lambda>msg. Inr (Some (NM_BestBidOffer msg))), seq')
      | SE_DepthUpdate du \<Rightarrow>
          let (n, seq') = take_seq seq in
          (and_then (normalize_depth_update du inst ctx n recv_ts)
             (\<lambda>msg. Inr (Some (NM_BookDelta msg))), seq')
      | SE_Trade t \<Rightarrow>
          let (n, seq') = take_seq seq in
          (and_then (normalize_trade t inst ctx n recv_ts)
             (\<lambda>msg. Inr (Some (NM_Trade msg))), seq')
      | SE_Unknown _ \<Rightarrow> (Inr None, seq))"

section \<open>What the normalizer produces\<close>

lemma parse_levels_length: "parse_levels ls p q = Inr out \<Longrightarrow> length out = length ls"
proof -
  have "collect_results f xs = Inr ys \<Longrightarrow> length ys = length xs" for f and xs :: "(string \<times> string) list" and ys
    by (induction xs arbitrary: ys) (auto simp: and_then_Inr_iff)
  then show "parse_levels ls p q = Inr out \<Longrightarrow> length out = length ls"
    by (simp add: parse_levels_def)
qed

text \<open>The header of every message produced, and the counter behind it.\<close>

lemma normalize_spot_header:
  assumes "normalize_spot_event event inst ctx recv_ts seq = (Inr (Some m), seq')"
  shows "mh_sequence_number (nm_header m) = seq \<and> seq' = seq + 1 \<and>
    mh_instrument_id (nm_header m) = mh_instrument_id (id_header inst) \<and>
    mh_venue_id (nm_header m) = nc_venue_id ctx \<and> mh_local_recv_ts (nm_header m) = recv_ts"
  using assms
  by (auto simp: normalize_spot_event_def take_seq_def Let_def and_then_Inr_iff make_header_def
      normalize_book_ticker_def normalize_depth_update_def normalize_trade_def
      split: spot_event.splits)

text \<open>An event of the instrument that fits the wire format.\<close>

fun spot_event_small :: "spot_event \<Rightarrow> bool" where
  "spot_event_small (SE_DepthUpdate du) \<longleftrightarrow>
     length (sdu_bids du) \<le> u32_MAX \<and> length (sdu_asks du) \<le> u32_MAX"
| "spot_event_small _ \<longleftrightarrow> True"

lemma normalize_spot_ok:
  assumes "normalize_spot_event event inst ctx recv_ts seq = (Inr (Some m), seq')"
    and "str_ok (id_symbol inst)" "spot_event_small event"
  shows "nm_ok m"
  using assms parse_levels_length
  by (auto simp: normalize_spot_event_def take_seq_def Let_def and_then_Inr_iff make_header_def
      normalize_book_ticker_def normalize_depth_update_def normalize_trade_def
      BestBidOffer_ok_def BookDelta_ok_def Trade_ok_def levels_ok_def
      split: spot_event.splits)

end
