(* ===== verification/Sbe_Normalizer.thy ===== *)
theory Sbe_Normalizer
  imports Sbe_Frames Spot_Normalizer
begin

text \<open>
  The binary feed in the Spot adapter: \<open>binance-spot-adapter/src/sbe_normalizer.rs\<close> and
  \<open>feed.rs\<close>. The last section relates the binary feed to the JSON feed: events that carry the
  same numbers are normalized to the same levels.
\<close>

definition sbe_make_header ::
  "message_type \<Rightarrow> InstrumentDefinition \<Rightarrow> normalize_ctx \<Rightarrow> u64 \<Rightarrow> i64 \<Rightarrow> i64 \<Rightarrow> message_header" where
  "sbe_make_header msg_type inst ctx seq exchange_event_ts recv_ts =
     \<lparr>mh_schema_version = SCHEMA_VERSION, mh_message_type = msg_type,
      mh_venue_id = nc_venue_id ctx, mh_market_type = nc_market_type ctx,
      mh_instrument_id = mh_instrument_id (id_header inst),
      mh_connection_id = nc_connection_id ctx, mh_instance_id = nc_instance_id ctx,
      mh_sequence_number = seq, mh_exchange_event_ts = exchange_event_ts,
      mh_exchange_tx_ts = TS_NONE, mh_local_recv_ts = recv_ts, mh_local_publish_ts = TS_NONE\<rparr>"

definition sbe_take_seq :: "u64 \<Rightarrow> u64 \<times> u64" where
  "sbe_take_seq seq = (seq, seq + 1)"

definition us_to_ns :: "i64 \<Rightarrow> i64" where
  "us_to_ns us = i64_saturating_mul us 1000"

fun sbe_aggressor_to_core :: "sbe_aggressor \<Rightarrow> aggressor_side" where
  "sbe_aggressor_to_core SbeBuy = Aggr_Buy"
| "sbe_aggressor_to_core SbeSell = Aggr_Sell"
| "sbe_aggressor_to_core SbeUnknown = Aggr_Unknown"

definition sbe_normalize_trade ::
  "TradeEvent \<Rightarrow> InstrumentDefinition \<Rightarrow> normalize_ctx \<Rightarrow> u64 \<Rightarrow> i64 \<Rightarrow> normalized_message" where
  "sbe_normalize_trade ev inst ctx seq recv_ts =
     (let aggressor_side = sbe_aggressor_to_core (te_aggressor_side ev) in
      NM_Trade \<lparr>tr_header = sbe_make_header MT_Trade inst ctx seq (us_to_ns (te_event_time ev)) recv_ts,
        tr_symbol = id_symbol inst, tr_price_scale = ucast (id_price_scale inst),
        tr_qty_scale = ucast (id_qty_scale inst), tr_trade_id = i64_word (te_trade_id ev),
        tr_price = to_scaled (te_price ev) (id_price_scale inst),
        tr_qty = to_scaled (te_quantity ev) (id_qty_scale inst),
        tr_trade_ts = us_to_ns (te_transact_time ev),
        tr_is_buyer_maker = te_is_buyer_market_maker ev, tr_aggressor_side = aggressor_side\<rparr>)"

definition sbe_normalize_bbo ::
  "BboEvent \<Rightarrow> InstrumentDefinition \<Rightarrow> normalize_ctx \<Rightarrow> u64 \<Rightarrow> i64 \<Rightarrow> normalized_message" where
  "sbe_normalize_bbo ev inst ctx seq recv_ts =
     NM_BestBidOffer
       \<lparr>bbo_header = sbe_make_header MT_BestBidOffer inst ctx seq (us_to_ns (be_event_time ev)) recv_ts,
        bbo_symbol = id_symbol inst, bbo_price_scale = ucast (id_price_scale inst),
        bbo_qty_scale = ucast (id_qty_scale inst),
        bbo_bid_price = to_scaled (be_best_bid_price ev) (id_price_scale inst),
        bbo_bid_qty = to_scaled (be_best_bid_qty ev) (id_qty_scale inst),
        bbo_ask_price = to_scaled (be_best_ask_price ev) (id_price_scale inst),
        bbo_ask_qty = to_scaled (be_best_ask_qty ev) (id_qty_scale inst),
        bbo_update_id = UPDATE_ID_NONE\<rparr>"

definition sbe_level :: "u32 \<Rightarrow> u32 \<Rightarrow> depth_level \<Rightarrow> price_level" where
  "sbe_level p q lvl = \<lparr>pl_price = to_scaled (dl_price lvl) p, pl_qty = to_scaled (dl_quantity lvl) q\<rparr>"

definition sbe_normalize_depth_diff ::
  "DepthDiffEvent \<Rightarrow> InstrumentDefinition \<Rightarrow> normalize_ctx \<Rightarrow> u64 \<Rightarrow> i64 \<Rightarrow> normalized_message" where
  "sbe_normalize_depth_diff ev inst ctx seq recv_ts =
     (let p = id_price_scale inst; q = id_qty_scale inst in
      NM_BookDelta \<lparr>bd_header = sbe_make_header MT_BookDelta inst ctx seq (us_to_ns (dd_event_time ev)) recv_ts,
        bd_symbol = id_symbol inst, bd_price_scale = ucast p, bd_qty_scale = ucast q,
        bd_first_update_id = i64_word (dd_first_update_id ev),
        bd_final_update_id = i64_word (dd_final_update_id ev),
        bd_prev_update_id = i64_word (dd_prev_final_update_id ev),
        bd_bids = map (sbe_level p q) (dd_bids ev), bd_asks = map (sbe_level p q) (dd_asks ev)\<rparr>)"

definition normalize_sbe_message ::
  "sbe_message \<Rightarrow> InstrumentDefinition \<Rightarrow> normalize_ctx \<Rightarrow> i64 \<Rightarrow> u64 \<Rightarrow>
   normalized_message option \<times> u64" where
  "normalize_sbe_message msg inst ctx recv_ts seq =
     (case msg of
        SM_Trade ev \<Rightarrow>
          let (n, seq') = sbe_take_seq seq in (Some (sbe_normalize_trade ev inst ctx n recv_ts), seq')
      | SM_Bbo ev \<Rightarrow>
          let (n, seq') = sbe_take_seq seq in (Some (sbe_normalize_bbo ev inst ctx n recv_ts), seq')
      | SM_DepthDiff ev \<Rightarrow>
          let (n, seq') = sbe_take_seq seq in (Some (sbe_normalize_depth_diff ev inst ctx n recv_ts), seq')
      | SM_DepthSnapshot _ \<Rightarrow> (None, seq))"

section \<open>Feed\<close>

record raw_frame =
  rf_payload :: "u8 list"
  rf_recv_ts :: i64
  rf_is_binary :: bool

datatype feed_kind = FeedSbe | FeedJson

datatype decoded_frame = DF_Sbe sbe_message | DF_Json spot_event

fun df_feed_kind :: "decoded_frame \<Rightarrow> feed_kind" where
  "df_feed_kind (DF_Sbe _) = FeedSbe"
| "df_feed_kind (DF_Json _) = FeedJson"

datatype 'j feed_error = BothFailed sbe_error "'j json_error" | FeedJsonError "'j json_error"

definition decode_binary_frame :: "'j spot_json \<Rightarrow> u8 list \<Rightarrow> 'j feed_error + decoded_frame" where
  "decode_binary_frame json payload =
     (case sbe_decode_message payload of
        Inr msg \<Rightarrow> Inr (DF_Sbe msg)
      | Inl sbe_err \<Rightarrow>
          (case parse_spot_message json payload of
             Inr event \<Rightarrow> Inr (DF_Json event)
           | Inl json_err \<Rightarrow> Inl (BothFailed sbe_err json_err)))"

definition decode_raw_frame :: "'j spot_json \<Rightarrow> raw_frame \<Rightarrow> 'j feed_error + decoded_frame" where
  "decode_raw_frame json frame =
     (if rf_is_binary frame then decode_binary_frame json (rf_payload frame)
      else map_err FeedJsonError (and_then (parse_spot_message json (rf_payload frame)) (\<lambda>e. Inr (DF_Json e))))"

section \<open>Both feeds carry the same numbers\<close>

text \<open>A decimal text of at most eight places and the SBE number with its value.\<close>

definition same_number :: "string \<Rightarrow> decimal64 \<Rightarrow> bool" where
  "same_number text d \<longleftrightarrow>
     (\<exists>i f. text = i @ CHR ''.'' # f \<and> all_digits i \<and> all_digits f \<and> length f \<le> 8 \<and>
        decimal_scaled i f 8 < 2 ^ 63 \<and> mantissa d = i64_of_int (int (decimal_scaled i f 8)))"

lemma decimal_scaled_coarser:
  assumes "length f \<le> 8" "n \<le> 8"
  shows "decimal_scaled i f n = decimal_scaled i f 8 div 10 ^ (8 - n)"
proof -
  let ?v = "digits_val (i @ f)" and ?l = "length f"
  have p: "(10 :: nat) ^ 8 = 10 ^ ?l * 10 ^ (8 - ?l)" "(10 :: nat) ^ 8 = 10 ^ n * 10 ^ (8 - n)"
    using assms by (simp_all flip: power_add)
  have "decimal_scaled i f 8 = ?v * 10 ^ (8 - ?l)"
    unfolding decimal_scaled_def p(1) by (simp add: mult.left_commute)
  then have "decimal_scaled i f 8 div 10 ^ (8 - n) =
      (?v * 10 ^ (8 - ?l) * 10 ^ n) div (10 ^ (8 - n) * 10 ^ n)"
    by simp
  also have "\<dots> = (?v * 10 ^ n * 10 ^ (8 - ?l)) div (10 ^ ?l * 10 ^ (8 - ?l))"
    using p by (simp add: mult.commute mult.left_commute)
  also have "\<dots> = decimal_scaled i f n"
    by (simp add: decimal_scaled_def)
  finally show ?thesis ..
qed

lemma decimal_scaled_int_part: "digits_val i \<le> decimal_scaled i f n"
  by (simp add: decimal_scaled_split trans_le_add1)

lemma i64_val_pow10: "k \<le> 18 \<Longrightarrow> i64_val (10 ^ k) = 10 ^ k"
proof -
  assume "k \<le> 18"
  then have "(10 :: int) ^ k \<le> 10 ^ 18" by (intro power_increasing) auto
  then have "(10 :: int) ^ k < 2 ^ 63" "- (2 ^ 63) \<le> (10 :: int) ^ k"
    by (simp_all add: order_trans [of _ 0])
  then have "i64_val (i64_of_int (10 ^ k)) = 10 ^ k"
    by (intro i64_val_of_int)
  then show ?thesis by (simp only: i64_of_int_pow10)
qed

lemma to_scaled_same:
  assumes "same_number text d" "unat scale \<le> 8"
  shows "parse_scaled text scale = Inr (to_scaled d scale)"
proof -
  obtain i f where t: "text = i @ CHR ''.'' # f" "all_digits i" "all_digits f" "length f \<le> 8"
    and small: "decimal_scaled i f 8 < 2 ^ 63"
    and m: "mantissa d = i64_of_int (int (decimal_scaled i f 8))"
    using assms(1) by (auto simp: same_number_def)
  let ?D = "decimal_scaled i f 8" and ?n = "unat scale"
  have val: "i64_val (mantissa d) = int ?D"
    using small by (simp add: m i64_val_of_int)
  have "to_scaled d scale = i64_of_int (int (?D div 10 ^ (8 - ?n)))"
  proof (cases "?n = 8")
    case True
    then show ?thesis by (simp add: to_scaled_def SCALE_def m)
  next
    case False
    then have "to_scaled d scale = i64_div (mantissa d) (10 ^ (8 - ?n))"
      using assms(2) by (simp add: to_scaled_def SCALE_def)
    also have "\<dots> = i64_of_int (int (?D div 10 ^ (8 - ?n)))"
      using i64_val_pow10 [of "8 - ?n"] by (simp add: i64_div_def val sgn_if zdiv_int)
    finally show ?thesis .
  qed
  also have "\<dots> = i64_of_int (int (decimal_scaled i f ?n))"
    using decimal_scaled_coarser [OF t(4) assms(2), of i] by simp
  finally have "to_scaled d scale = i64_of_int (int (decimal_scaled i f ?n))" .
  moreover have "digits_val i < 2 ^ 63"
    using decimal_scaled_int_part [of i f 8] small by linarith
  ultimately show ?thesis
    using adapter_parse_scaled_decimal(1) [OF t(2,3) _, of scale] assms(2)
    by (simp add: parse_scaled_def t(1))
qed

definition same_level :: "string \<times> string \<Rightarrow> depth_level \<Rightarrow> bool" where
  "same_level l d \<longleftrightarrow> same_number (fst l) (dl_price d) \<and> same_number (snd l) (dl_quantity d)"

lemma parse_levels_same:
  assumes "list_all2 same_level ls ds" "unat p \<le> 8" "unat q \<le> 8"
  shows "parse_levels ls p q = Inr (map (sbe_level p q) ds)"
  using assms(1)
proof (induction rule: list_all2_induct)
  case Nil
  then show ?case by (simp add: parse_levels_def)
next
  case (Cons l ls d ds)
  then have "parse_scaled (fst l) p = Inr (to_scaled (dl_price d) p)"
    "parse_scaled (snd l) q = Inr (to_scaled (dl_quantity d) q)"
    using to_scaled_same [OF _ assms(2)] to_scaled_same [OF _ assms(3)]
    by (auto simp: same_level_def)
  with Cons.IH show ?case
    by (simp add: parse_levels_def case_prod_beta sbe_level_def)
qed

text \<open>A JSON depth update and the SBE depth diff of the same event.\<close>

definition same_depth :: "SpotDepthUpdate \<Rightarrow> DepthDiffEvent \<Rightarrow> bool" where
  "same_depth du ev \<longleftrightarrow>
     list_all2 same_level (sdu_bids du) (dd_bids ev) \<and>
     list_all2 same_level (sdu_asks du) (dd_asks ev) \<and>
     i64_word (dd_first_update_id ev) = sdu_first_update_id du \<and>
     i64_word (dd_final_update_id ev) = sdu_last_update_id du \<and>
     i64_val (dd_event_time ev) = 1000 * i64_val (sdu_event_time_ms du)"

lemma us_to_ns_same:
  assumes "i64_val us = 1000 * i64_val ms"
  shows "us_to_ns us = ms_to_ns ms"
proof -
  have "i64_val 1000 = 1000" "i64_val 1000000 = 1000000"
    using i64_val_pow10 [of 3] i64_val_pow10 [of 6] by simp_all
  then have "i64_val us * i64_val 1000 = i64_val ms * i64_val 1000000" by (simp add: assms)
  then show ?thesis by (simp only: us_to_ns_def ms_to_ns_def i64_saturating_mul_def)
qed

lemma depth_feeds_same:
  assumes "same_depth du ev" "unat (id_price_scale inst) \<le> 8" "unat (id_qty_scale inst) \<le> 8"
  shows "\<exists>d. normalize_spot_event (SE_DepthUpdate du) inst ctx recv_ts seq =
      (Inr (Some (NM_BookDelta d)), seq + 1) \<and>
    normalize_sbe_message (SM_DepthDiff ev) inst ctx recv_ts seq =
      (Some (NM_BookDelta (d\<lparr>bd_prev_update_id := i64_word (dd_prev_final_update_id ev)\<rparr>)), seq + 1)"
proof -
  have ids: "i64_word (dd_first_update_id ev) = sdu_first_update_id du"
    "i64_word (dd_final_update_id ev) = sdu_last_update_id du"
    and time: "us_to_ns (dd_event_time ev) = ms_to_ns (sdu_event_time_ms du)"
    using assms(1) us_to_ns_same by (simp_all add: same_depth_def)
  have "parse_levels (sdu_bids du) (id_price_scale inst) (id_qty_scale inst) =
      Inr (map (sbe_level (id_price_scale inst) (id_qty_scale inst)) (dd_bids ev))"
    "parse_levels (sdu_asks du) (id_price_scale inst) (id_qty_scale inst) =
      Inr (map (sbe_level (id_price_scale inst) (id_qty_scale inst)) (dd_asks ev))"
    using assms by (simp_all add: same_depth_def parse_levels_same)
  then show ?thesis
    by (simp add: normalize_spot_event_def normalize_sbe_message_def take_seq_def sbe_take_seq_def
        normalize_depth_update_def sbe_normalize_depth_diff_def Let_def ids time make_header_def
        sbe_make_header_def)
qed

end
