(* ===== verification/Futures_Normalizer.thy ===== *)
theory Futures_Normalizer
  imports Spot_Normalizer
begin

text \<open>
  The USDT-M Futures normalizer: \<open>binance-futures-adapter/src/normalizer.rs\<close>. Its error type,
  context and helpers are written in that file as in the Spot one; the model shares their
  types and keeps the functions of the file apart.
\<close>

definition futures_make_header ::
  "message_type \<Rightarrow> InstrumentDefinition \<Rightarrow> normalize_ctx \<Rightarrow> u64 \<Rightarrow> i64 \<Rightarrow> i64 \<Rightarrow> message_header" where
  "futures_make_header msg_type inst ctx seq exchange_event_ts recv_ts =
     \<lparr>mh_schema_version = SCHEMA_VERSION, mh_message_type = msg_type,
      mh_venue_id = nc_venue_id ctx, mh_market_type = nc_market_type ctx,
      mh_instrument_id = mh_instrument_id (id_header inst),
      mh_connection_id = nc_connection_id ctx, mh_instance_id = nc_instance_id ctx,
      mh_sequence_number = seq, mh_exchange_event_ts = exchange_event_ts,
      mh_exchange_tx_ts = TS_NONE, mh_local_recv_ts = recv_ts, mh_local_publish_ts = TS_NONE\<rparr>"

definition futures_take_seq :: "u64 \<Rightarrow> u64 \<times> u64" where
  "futures_take_seq seq = (seq, seq + 1)"

definition futures_ms_to_ns :: "i64 \<Rightarrow> i64" where
  "futures_ms_to_ns ms = i64_saturating_mul ms 1000000"

definition futures_parse_scaled :: "string \<Rightarrow> u32 \<Rightarrow> normalize_error + i64" where
  "futures_parse_scaled s scale = adapter_parse_scaled InvalidDecimal Panic s scale"

definition futures_parse_levels ::
  "(string \<times> string) list \<Rightarrow> u32 \<Rightarrow> u32 \<Rightarrow> normalize_error + price_level list" where
  "futures_parse_levels levels p q =
     collect_results (\<lambda>(price, qty).
       and_then (futures_parse_scaled price p) (\<lambda>pr.
       and_then (futures_parse_scaled qty q) (\<lambda>qt. Inr \<lparr>pl_price = pr, pl_qty = qt\<rparr>))) levels"

definition futures_book_ticker ::
  "FuturesBookTicker \<Rightarrow> InstrumentDefinition \<Rightarrow> normalize_ctx \<Rightarrow> u64 \<Rightarrow> i64 \<Rightarrow> normalize_error + BestBidOffer" where
  "futures_book_ticker bt inst ctx seq recv_ts =
     (let p = id_price_scale inst; q = id_qty_scale inst in
      and_then (futures_parse_scaled (fbt_bid_price bt) p) (\<lambda>bid_price.
      and_then (futures_parse_scaled (fbt_bid_qty bt) q) (\<lambda>bid_qty.
      and_then (futures_parse_scaled (fbt_ask_price bt) p) (\<lambda>ask_price.
      and_then (futures_parse_scaled (fbt_ask_qty bt) q) (\<lambda>ask_qty.
      Inr \<lparr>bbo_header = futures_make_header MT_BestBidOffer inst ctx seq TS_NONE recv_ts,
           bbo_symbol = id_symbol inst, bbo_price_scale = ucast p, bbo_qty_scale = ucast q,
           bbo_bid_price = bid_price, bbo_bid_qty = bid_qty,
           bbo_ask_price = ask_price, bbo_ask_qty = ask_qty,
           bbo_update_id = fbt_update_id bt\<rparr>)))))"

definition futures_depth_update ::
  "FuturesDepthUpdate \<Rightarrow> InstrumentDefinition \<Rightarrow> normalize_ctx \<Rightarrow> u64 \<Rightarrow> i64 \<Rightarrow> normalize_error + BookDelta" where
  "futures_depth_update du inst ctx seq recv_ts =
     (let p = id_price_scale inst; q = id_qty_scale inst in
      and_then (futures_parse_levels (fdu_bids du) p q) (\<lambda>bids.
      and_then (futures_parse_levels (fdu_asks du) p q) (\<lambda>asks.
      Inr \<lparr>bd_header = futures_make_header MT_BookDelta inst ctx seq
             (futures_ms_to_ns (fdu_event_time_ms du)) recv_ts,
           bd_symbol = id_symbol inst, bd_price_scale = ucast p, bd_qty_scale = ucast q,
           bd_first_update_id = fdu_first_update_id du, bd_final_update_id = fdu_last_update_id du,
           bd_prev_update_id = fdu_prev_final_update_id du, bd_bids = bids, bd_asks = asks\<rparr>)))"

definition futures_agg_trade ::
  "FuturesAggTrade \<Rightarrow> InstrumentDefinition \<Rightarrow> normalize_ctx \<Rightarrow> u64 \<Rightarrow> i64 \<Rightarrow> normalize_error + Trade" where
  "futures_agg_trade at inst ctx seq recv_ts =
     (let aggressor_side = (if fat_is_buyer_maker at then Aggr_Sell else Aggr_Buy) in
      and_then (futures_parse_scaled (fat_price at) (id_price_scale inst)) (\<lambda>price.
      and_then (futures_parse_scaled (fat_qty at) (id_qty_scale inst)) (\<lambda>qty.
      Inr \<lparr>tr_header = futures_make_header MT_Trade inst ctx seq
             (futures_ms_to_ns (fat_event_time_ms at)) recv_ts,
           tr_symbol = id_symbol inst, tr_price_scale = ucast (id_price_scale inst),
           tr_qty_scale = ucast (id_qty_scale inst), tr_trade_id = fat_agg_trade_id at,
           tr_price = price, tr_qty = qty, tr_trade_ts = futures_ms_to_ns (fat_trade_time_ms at),
           tr_is_buyer_maker = fat_is_buyer_maker at, tr_aggressor_side = aggressor_side\<rparr>)))"

text \<open>
  A mark price and, when its field is not empty, a funding rate in units of \<open>10^-9\<close>. The
  counter is taken when a header is built, so before the parse that may fail.
\<close>

definition futures_mark_price ::
  "FuturesMarkPrice \<Rightarrow> InstrumentDefinition \<Rightarrow> normalize_ctx \<Rightarrow> i64 \<Rightarrow> u64 \<Rightarrow>
   (normalize_error + normalized_message list) \<times> u64" where
  "futures_mark_price mp inst ctx recv_ts seq =
     (let p = id_price_scale inst in
      case (if fmp_index_price mp = [] then Inr 0 else futures_parse_scaled (fmp_index_price mp) p) of
        Inl e \<Rightarrow> (Inl e, seq)
      | Inr index_price \<Rightarrow>
          let (n, seq1) = futures_take_seq seq in
          (case futures_parse_scaled (fmp_mark_price mp) p of
             Inl e \<Rightarrow> (Inl e, seq1)
           | Inr mark_price \<Rightarrow>
               let mark = \<lparr>mp_header = futures_make_header MT_MarkPrice inst ctx n
                              (futures_ms_to_ns (fmp_event_time_ms mp)) recv_ts,
                            mp_symbol = id_symbol inst, mp_price_scale = ucast p,
                            mp_mark_price = mark_price, mp_index_price = index_price\<rparr> in
               if fmp_funding_rate mp \<noteq> [] then
                 let (n2, seq2) = futures_take_seq seq1 in
                 (case futures_parse_scaled (fmp_funding_rate mp) 9 of
                    Inl e \<Rightarrow> (Inl e, seq2)
                  | Inr funding_rate \<Rightarrow>
                      (Inr [NM_MarkPrice mark, NM_FundingRate
                         \<lparr>fr_header = futures_make_header MT_FundingRate inst ctx n2
                            (futures_ms_to_ns (fmp_event_time_ms mp)) recv_ts,
                          fr_symbol = id_symbol inst, fr_funding_rate_scale = 9,
                          fr_funding_rate = funding_rate,
                          fr_next_funding_time = futures_ms_to_ns (fmp_next_funding_time_ms mp)\<rparr>],
                       seq2))
               else (Inr [NM_MarkPrice mark], seq1)))"

definition futures_force_order ::
  "FuturesForceOrder \<Rightarrow> InstrumentDefinition \<Rightarrow> normalize_ctx \<Rightarrow> u64 \<Rightarrow> i64 \<Rightarrow> normalize_error + Liquidation" where
  "futures_force_order fo inst ctx seq recv_ts =
     (let ord = ffo_order fo; p = id_price_scale inst; q = id_qty_scale inst in
      and_then (if flo_side ord = ''BUY'' then Inr Aggr_Buy
                else if flo_side ord = ''SELL'' then Inr Aggr_Sell
                else Inl (UnknownSide (flo_side ord))) (\<lambda>side.
      and_then (futures_parse_scaled (flo_price ord) p) (\<lambda>price.
      and_then (futures_parse_scaled (flo_qty ord) q) (\<lambda>qty.
      and_then (futures_parse_scaled (flo_avg_price ord) p) (\<lambda>avg_price.
      and_then (futures_parse_scaled (flo_last_filled_qty ord) q) (\<lambda>last_filled_qty.
      Inr \<lparr>lq_header = futures_make_header MT_Liquidation inst ctx seq
             (futures_ms_to_ns (ffo_event_time_ms fo)) recv_ts,
           lq_symbol = id_symbol inst, lq_price_scale = ucast p, lq_qty_scale = ucast q,
           lq_side = side, lq_price = price, lq_qty = qty, lq_avg_price = avg_price,
           lq_last_filled_qty = last_filled_qty\<rparr>))))))"

definition normalize_futures_event ::
  "futures_event \<Rightarrow> InstrumentDefinition \<Rightarrow> normalize_ctx \<Rightarrow> i64 \<Rightarrow> u64 \<Rightarrow>
   (normalize_error + normalized_message list) \<times> u64" where
  "normalize_futures_event event inst ctx recv_ts seq =
     (case event of
        FE_BookTicker bt \<Rightarrow>
          let (n, seq') = futures_take_seq seq in
          (and_then (futures_book_ticker bt inst ctx n recv_ts) (\<lambda>msg. Inr [NM_BestBidOffer msg]), seq')
      | FE_DepthUpdate du \<Rightarrow>
          let (n, seq') = futures_take_seq seq in
          (and_then (futures_depth_update du inst ctx n recv_ts) (\<lambda>msg. Inr [NM_BookDelta msg]), seq')
      | FE_AggTrade at \<Rightarrow>
          let (n, seq') = futures_take_seq seq in
          (and_then (futures_agg_trade at inst ctx n recv_ts) (\<lambda>msg. Inr [NM_Trade msg]), seq')
      | FE_MarkPrice mp \<Rightarrow> futures_mark_price mp inst ctx recv_ts seq
      | FE_ForceOrder fo \<Rightarrow>
          let (n, seq') = futures_take_seq seq in
          (and_then (futures_force_order fo inst ctx n recv_ts) (\<lambda>msg. Inr [NM_Liquidation msg]), seq')
      | FE_Unknown _ \<Rightarrow> (Inr [], seq))"

lemma futures_parse_levels_length:
  "futures_parse_levels ls p q = Inr out \<Longrightarrow> length out = length ls"
  using parse_levels_length [of ls p q out]
  by (simp add: parse_levels_def futures_parse_levels_def parse_scaled_def futures_parse_scaled_def)

lemmas normalize_futures_defs = normalize_futures_event_def futures_take_seq_def Let_def
  futures_make_header_def futures_book_ticker_def futures_depth_update_def futures_agg_trade_def
  futures_mark_price_def futures_force_order_def

text \<open>The messages of one event carry consecutive sequence numbers from the counter on.\<close>

lemma normalize_futures_seqs:
  assumes "normalize_futures_event event inst ctx recv_ts seq = (Inr ms, seq')"
  shows "map (\<lambda>m. mh_sequence_number (nm_header m)) ms =
      map (\<lambda>k. seq + word_of_nat k) [0..<length ms] \<and> seq' = seq + word_of_nat (length ms)"
  using assms
  by (auto simp: normalize_futures_defs and_then_Inr_iff
      split: futures_event.splits sum.splits if_splits)

fun futures_event_small :: "futures_event \<Rightarrow> bool" where
  "futures_event_small (FE_DepthUpdate du) \<longleftrightarrow>
     length (fdu_bids du) \<le> u32_MAX \<and> length (fdu_asks du) \<le> u32_MAX"
| "futures_event_small _ \<longleftrightarrow> True"

lemma normalize_futures_ok:
  assumes "normalize_futures_event event inst ctx recv_ts seq = (Inr ms, seq')"
    and "str_ok (id_symbol inst)" "futures_event_small event"
  shows "\<forall>m \<in> set ms. nm_ok m"
  using assms futures_parse_levels_length
  by (auto simp: normalize_futures_defs and_then_Inr_iff BestBidOffer_ok_def BookDelta_ok_def
      Trade_ok_def MarkPrice_ok_def FundingRate_ok_def Liquidation_ok_def levels_ok_def
      split: futures_event.splits sum.splits if_splits)

end
