(* ===== verification/User_Stream.thy ===== *)
theory User_Stream
  imports Decimal Cloid
begin

text \<open>
  The user data stream of the order gateway: the raw events of \<open>order-gateway/src/user_stream.rs\<close>
  and their normalizer, \<open>normalizer.rs\<close>, with its decimal routine and the life of a listen key.
  The JSON reader is an argument, a slice inside a UTF-8 character the error \<open>NZ_Panic\<close>.
\<close>

section \<open>Raw events\<close>

record RawExecutionReport =
  rx_event_time_ms :: i64
  rx_symbol :: string
  rx_client_order_id :: string
  rx_side_raw :: string
  rx_order_type_raw :: string
  rx_time_in_force_raw :: string
  rx_order_qty_raw :: string
  rx_order_price_raw :: string
  rx_exec_type_raw :: string
  rx_order_status_raw :: string
  rx_reject_reason_raw :: string
  rx_exchange_order_id :: u64
  rx_last_fill_qty_raw :: string
  rx_cum_fill_qty_raw :: string
  rx_last_fill_price_raw :: string
  rx_transaction_time_ms :: i64
  rx_trade_id :: i64
  rx_commission_raw :: string
  rx_commission_asset :: "string option"
  rx_is_maker :: bool

record RawAssetBalance =
  rab_asset :: string
  rab_free :: string
  rab_locked :: string

record RawBalancePosition =
  rbp_event_time_ms :: i64
  rbp_last_update_ms :: i64
  rbp_balances :: "RawAssetBalance list"

record RawBalanceUpdate =
  rbu_event_time_ms :: i64
  rbu_asset :: string
  rbu_delta_raw :: string
  rbu_clear_time_ms :: i64

datatype raw_user_event =
    ExecutionReport RawExecutionReport
  | OutboundAccountPosition RawBalancePosition
  | BalanceUpdate RawBalanceUpdate
  | RawUnknown string

record 'j user_json =
  uj_event_type :: "u8 list \<Rightarrow> 'j + string"
  uj_execution_report :: "u8 list \<Rightarrow> 'j + RawExecutionReport"
  uj_account_position :: "u8 list \<Rightarrow> 'j + RawBalancePosition"
  uj_balance_update :: "u8 list \<Rightarrow> 'j + RawBalanceUpdate"

definition user_stream_parse :: "'j user_json \<Rightarrow> u8 list \<Rightarrow> 'j + raw_user_event" where
  "user_stream_parse json bytes =
     and_then (uj_event_type json bytes) (\<lambda>e.
     if e = ''executionReport''
       then and_then (uj_execution_report json bytes) (\<lambda>r. Inr (ExecutionReport r))
     else if e = ''outboundAccountPosition''
       then and_then (uj_account_position json bytes) (\<lambda>r. Inr (OutboundAccountPosition r))
     else if e = ''balanceUpdate''
       then and_then (uj_balance_update json bytes) (\<lambda>r. Inr (BalanceUpdate r))
     else Inr (RawUnknown e))"

section \<open>Decimals\<close>

definition BALANCE_SCALE :: i64 where "BALANCE_SCALE = 100000000"
definition LISTEN_KEY_RENEW_INTERVAL_NS :: i64 where
  "LISTEN_KEY_RENEW_INTERVAL_NS = 30 * 60 * 1000000000"
definition LISTEN_KEY_EXPIRY_NS :: i64 where
  "LISTEN_KEY_EXPIRY_NS = 60 * 60 * 1000000000"

datatype normalizer_error =
    NZ_UnknownSide string
  | NZ_UnknownOrderType string
  | NZ_UnknownTimeInForce string
  | NZ_InvalidDecimal string
  | NZ_Panic

text \<open>The loop \<open>while tmp > 1 { tmp /= 10; digits += 1 }\<close>.\<close>

function scale_digits :: "int \<Rightarrow> nat" where
  "scale_digits tmp = (if 1 < tmp then Suc (scale_digits (tmp div 10)) else 0)"
  by pat_completeness auto
termination
  by (relation "measure nat") auto

declare scale_digits.simps [simp del]

definition gateway_parse_scaled :: "string \<Rightarrow> i64 \<Rightarrow> normalizer_error + i64" where
  "gateway_parse_scaled decimal scale =
     (let s = str_trim decimal in
      if s = [] then Inl (NZ_InvalidDecimal decimal) else
      let (int_str, frac_str) = split_dot s in
      and_then (if int_str = [] then Inr 0
                else map_err (\<lambda>_. NZ_InvalidDecimal decimal) (parse_i64 int_str)) (\<lambda>int_val.
      let digits = scale_digits (i64_val scale) in
      and_then (if frac_str = [] then Inr 0 else
          let available = min (length frac_str) digits in
          (case str_slice_to available frac_str of
             None \<Rightarrow> Inl NZ_Panic
           | Some frac_s \<Rightarrow>
               map_err (\<lambda>_. NZ_InvalidDecimal decimal)
                 (parse_i64 (frac_s @ replicate (digits - available) CHR ''0'')))) (\<lambda>frac_val.
      Inr (int_val * scale + frac_val))))"

section \<open>Normalized events\<close>

datatype execution_type =
    EX_New | EX_Canceled | EX_Replaced | EX_Rejected | EX_Trade | EX_Expired
  | EX_TradePrevention | EX_Unknown string

definition execution_type_from_raw :: "string \<Rightarrow> execution_type" where
  "execution_type_from_raw s =
     (if s = ''NEW'' then EX_New
      else if s = ''CANCELED'' then EX_Canceled
      else if s = ''REPLACED'' then EX_Replaced
      else if s = ''REJECTED'' then EX_Rejected
      else if s = ''TRADE'' then EX_Trade
      else if s = ''EXPIRED'' then EX_Expired
      else if s = ''TRADE_PREVENTION'' then EX_TradePrevention
      else EX_Unknown s)"

record user_order_update =
  uo_exchange_id :: u64
  uo_cloid :: "client_order_id option"
  uo_raw_cloid :: string
  uo_symbol :: string
  uo_side :: order_side
  uo_order_type :: order_type
  uo_time_in_force :: time_in_force
  uo_exec_type :: execution_type
  uo_order_status_raw :: string
  uo_last_fill_qty :: i64
  uo_last_fill_price :: i64
  uo_cum_fill_qty :: i64
  uo_trade_id :: "u64 option"
  uo_reject_reason :: "string option"
  uo_is_maker :: bool
  uo_event_time_ns :: i64
  uo_transaction_time_ns :: i64

record asset_balance =
  ab_asset :: string
  ab_free_scaled :: i64
  ab_locked_scaled :: i64

record user_account_update =
  ua_balances :: "asset_balance list"
  ua_event_time_ns :: i64
  ua_last_update_ns :: i64

record balance_delta =
  bld_asset :: string
  bld_delta_scaled :: i64
  bld_event_time_ns :: i64
  bld_transaction_time_ns :: i64

datatype normalized_event =
    NE_OrderUpdate user_order_update
  | NE_AccountUpdate user_account_update
  | NE_BalanceDelta balance_delta
  | NE_Unknown string

record symbol_scales =
  sys_price_scale :: i64
  sys_qty_scale :: i64

record normalizer =
  nz_default_price_scale :: i64
  nz_default_qty_scale :: i64
  nz_symbol_scales :: "(string, symbol_scales) hash_map"

definition nz_new :: "i64 \<Rightarrow> i64 \<Rightarrow> normalizer" where
  "nz_new default_price_scale default_qty_scale =
     \<lparr>nz_default_price_scale = default_price_scale, nz_default_qty_scale = default_qty_scale,
      nz_symbol_scales = []\<rparr>"

definition nz_register_symbol :: "string \<Rightarrow> i64 \<Rightarrow> i64 \<Rightarrow> normalizer \<Rightarrow> normalizer" where
  "nz_register_symbol symbol price_scale qty_scale n =
     n\<lparr>nz_symbol_scales := AList.update symbol
         \<lparr>sys_price_scale = price_scale, sys_qty_scale = qty_scale\<rparr> (nz_symbol_scales n)\<rparr>"

definition nz_scales_for :: "string \<Rightarrow> normalizer \<Rightarrow> symbol_scales" where
  "nz_scales_for symbol n =
     (case map_of (nz_symbol_scales n) symbol of
        Some s \<Rightarrow> s
      | None \<Rightarrow> \<lparr>sys_price_scale = nz_default_price_scale n, sys_qty_scale = nz_default_qty_scale n\<rparr>)"

definition parse_side :: "string \<Rightarrow> normalizer_error + order_side" where
  "parse_side raw =
     (if raw = ''BUY'' then Inr Buy else if raw = ''SELL'' then Inr Sell else Inl (NZ_UnknownSide raw))"

definition parse_order_type :: "string \<Rightarrow> normalizer_error + order_type" where
  "parse_order_type raw =
     (if raw = ''LIMIT'' then Inr Limit else if raw = ''MARKET'' then Inr Market
      else Inl (NZ_UnknownOrderType raw))"

definition parse_tif :: "string \<Rightarrow> normalizer_error + time_in_force" where
  "parse_tif raw =
     (if raw = ''GTC'' then Inr GoodTillCancel else if raw = ''IOC'' then Inr ImmediateOrCancel
      else if raw = ''FOK'' then Inr FillOrKill else Inl (NZ_UnknownTimeInForce raw))"

text \<open>A client order id is ours when its counter can be read.\<close>

definition detect_cloid :: "string \<Rightarrow> client_order_id option" where
  "detect_cloid s =
     (let cand = ClientOrderId s in if parse_counter cand \<noteq> None then Some cand else None)"

definition parse_balance :: "RawAssetBalance \<Rightarrow> normalizer_error + asset_balance" where
  "parse_balance b =
     and_then (gateway_parse_scaled (rab_free b) BALANCE_SCALE) (\<lambda>free_scaled.
     and_then (gateway_parse_scaled (rab_locked b) BALANCE_SCALE) (\<lambda>locked_scaled.
     Inr \<lparr>ab_asset = rab_asset b, ab_free_scaled = free_scaled, ab_locked_scaled = locked_scaled\<rparr>))"

definition nz_normalize :: "normalizer \<Rightarrow> raw_user_event \<Rightarrow> normalizer_error + normalized_event" where
  "nz_normalize n event =
     (case event of
        ExecutionReport rep \<Rightarrow>
          let scales = nz_scales_for (rx_symbol rep) n in
          and_then (parse_side (rx_side_raw rep)) (\<lambda>side.
          and_then (parse_order_type (rx_order_type_raw rep)) (\<lambda>order_type.
          and_then (parse_tif (rx_time_in_force_raw rep)) (\<lambda>tif.
          and_then (gateway_parse_scaled (rx_last_fill_qty_raw rep) (sys_qty_scale scales)) (\<lambda>last_fill_qty.
          and_then (gateway_parse_scaled (rx_last_fill_price_raw rep) (sys_price_scale scales)) (\<lambda>last_fill_price.
          and_then (gateway_parse_scaled (rx_cum_fill_qty_raw rep) (sys_qty_scale scales)) (\<lambda>cum_fill_qty.
          Inr (NE_OrderUpdate
            \<lparr>uo_exchange_id = rx_exchange_order_id rep, uo_cloid = detect_cloid (rx_client_order_id rep),
             uo_raw_cloid = rx_client_order_id rep, uo_symbol = rx_symbol rep, uo_side = side,
             uo_order_type = order_type, uo_time_in_force = tif,
             uo_exec_type = execution_type_from_raw (rx_exec_type_raw rep),
             uo_order_status_raw = rx_order_status_raw rep, uo_last_fill_qty = last_fill_qty,
             uo_last_fill_price = last_fill_price, uo_cum_fill_qty = cum_fill_qty,
             uo_trade_id = (if 0 \<le> rx_trade_id rep then Some (i64_word (rx_trade_id rep)) else None),
             uo_reject_reason =
               (if rx_reject_reason_raw rep = [] \<or> rx_reject_reason_raw rep = ''NONE'' then None
                else Some (rx_reject_reason_raw rep)),
             uo_is_maker = rx_is_maker rep,
             uo_event_time_ns = rx_event_time_ms rep * 1000000,
             uo_transaction_time_ns = rx_transaction_time_ms rep * 1000000\<rparr>)))))))
      | OutboundAccountPosition pos \<Rightarrow>
          and_then (collect_results parse_balance (rbp_balances pos)) (\<lambda>balances.
          Inr (NE_AccountUpdate
            \<lparr>ua_balances = balances, ua_event_time_ns = rbp_event_time_ms pos * 1000000,
             ua_last_update_ns = rbp_last_update_ms pos * 1000000\<rparr>))
      | BalanceUpdate upd \<Rightarrow>
          and_then (gateway_parse_scaled (rbu_delta_raw upd) BALANCE_SCALE) (\<lambda>delta_scaled.
          Inr (NE_BalanceDelta
            \<lparr>bld_asset = rbu_asset upd, bld_delta_scaled = delta_scaled,
             bld_event_time_ns = rbu_event_time_ms upd * 1000000,
             bld_transaction_time_ns = rbu_clear_time_ms upd * 1000000\<rparr>))
      | RawUnknown event_type \<Rightarrow> Inr (NE_Unknown event_type))"

section \<open>Listen key\<close>

record listen_key =
  lk_key :: string
  lk_last_renewed_ns :: i64

definition lk_new :: "string \<Rightarrow> i64 \<Rightarrow> listen_key" where
  "lk_new key now_ns = \<lparr>lk_key = key, lk_last_renewed_ns = now_ns\<rparr>"

definition lk_needs_renewal :: "i64 \<Rightarrow> listen_key \<Rightarrow> bool" where
  "lk_needs_renewal now_ns k \<longleftrightarrow>
     LISTEN_KEY_RENEW_INTERVAL_NS \<le> i64_saturating_sub now_ns (lk_last_renewed_ns k)"

definition lk_is_expired :: "i64 \<Rightarrow> listen_key \<Rightarrow> bool" where
  "lk_is_expired now_ns k \<longleftrightarrow>
     LISTEN_KEY_EXPIRY_NS \<le> i64_saturating_sub now_ns (lk_last_renewed_ns k)"

definition lk_on_renewed :: "i64 \<Rightarrow> listen_key \<Rightarrow> listen_key" where
  "lk_on_renewed now_ns k = k\<lparr>lk_last_renewed_ns := now_ns\<rparr>"

definition lk_age_ns :: "i64 \<Rightarrow> listen_key \<Rightarrow> i64" where
  "lk_age_ns now_ns k = i64_saturating_sub now_ns (lk_last_renewed_ns k)"

section \<open>Decimal values\<close>

lemma scale_digits_pow10: "scale_digits (10 ^ n) = n"
proof (induction n)
  case (Suc n)
  have "(1 :: int) < 10 * 10 ^ n" using one_le_power [of "10 :: int" n] by linarith
  then show ?case using Suc by (subst scale_digits.simps) simp
qed (simp add: scale_digits.simps)

text \<open>For a scale \<open>10^n\<close> with \<open>0 < n\<close> the routine agrees with the adapters'.\<close>

lemma scale_digits_i64:
  assumes "n \<le> 18"
  shows "scale_digits (i64_val (10 ^ n)) = n"
proof -
  have "(10 :: int) ^ n \<le> 10 ^ 18" using assms by (intro power_increasing) auto
  then have "(10 :: int) ^ n < 2 ^ 63" "- (2 ^ 63) \<le> (10 :: int) ^ n"
    by (simp_all add: order_trans [of _ 0])
  then have "i64_val (i64_of_int (10 ^ n)) = 10 ^ n" by (intro i64_val_of_int)
  then show ?thesis by (simp only: scale_digits_pow10 flip: i64_of_int_pow10)
qed

lemma gateway_fraction:
  assumes "all_digits f" "0 < n" "n \<le> 18"
  shows "(if f = [] then Inr 0 else case str_slice_to (min (length f) n) f of
        None \<Rightarrow> Inl NZ_Panic
      | Some frac_s \<Rightarrow> map_err g (parse_i64 (frac_s @ replicate (n - min (length f) n) CHR ''0''))) =
      Inr (i64_of_int (int (digits_val f * 10 ^ n div 10 ^ length f)))"
proof (cases "f = []")
  case False
  let ?a = "min (length f) n"
  have "str_slice_to ?a f = Some (take ?a f)"
    by (rule str_slice_to_digits [OF assms(1)]) simp
  moreover have "take ?a f @ replicate (n - ?a) CHR ''0'' =
      take n (f @ replicate (n - length f) CHR ''0'')"
    by (cases "length f \<le> n") (simp_all add: min_def)
  ultimately show ?thesis
    using padded_fraction(2) [OF assms(1,3,2)] False by simp
qed simp

lemma gateway_parse_scaled_decimal:
  assumes "all_digits i" "all_digits f" "digits_val i < 2 ^ 63" "0 < n" "n \<le> 18"
  shows "gateway_parse_scaled (i @ CHR ''.'' # f) (i64_of_int (10 ^ n)) =
      Inr (i64_of_int (int (decimal_scaled i f n)))"
proof -
  let ?t = "i @ CHR ''.'' # f"
  have trim: "str_trim ?t = ?t" "?t \<noteq> []"
    using assms(1,2) by (simp_all add: str_trim_plain all_digits_plain)
  show ?thesis
    using scaled_sum [of i n f] parse_int_part [OF assms(1,3), of "\<lambda>_. NZ_InvalidDecimal ?t"]
    by (simp only: gateway_parse_scaled_def Let_def trim split_dot_digits(1) [OF assms(1)] prod.case
        scale_digits_i64 [OF assms(5)] gateway_fraction [OF assms(2,4,5)] and_then_simps if_False
        i64_of_int_pow10)
qed

lemma gateway_parse_scaled_neg:
  assumes "all_digits i" "i \<noteq> []" "all_digits f" "digits_val i < 2 ^ 63" "0 < n" "n \<le> 18"
  shows "gateway_parse_scaled (CHR ''-'' # i @ CHR ''.'' # f) (i64_of_int (10 ^ n)) =
      Inr (i64_of_int (sign_lost i f n))"
proof -
  have "CHR ''-'' # i @ CHR ''.'' # f \<noteq> []" "CHR ''-'' # i \<noteq> []" by simp_all
  then show ?thesis
    using sign_lost_sum [of i n f]
    by (simp only: gateway_parse_scaled_def Let_def plain_neg [OF assms(1,3)] split_dot_neg [OF assms(1)]
        prod.case scale_digits_i64 [OF assms(6)] gateway_fraction [OF assms(3,5,6)] and_then_simps
        if_False parse_i64_neg [OF assms(1,2,4)] map_err_simps i64_of_int_pow10)
qed

end
