(* ===== verification/Feed_Properties.thy ===== *)
theory Feed_Properties
  imports Sbe_Normalizer Futures_Normalizer User_Stream Wire_Properties
begin

text \<open>
  The properties of the feed side of both adapters: decimals, subscriptions, the binary and the
  JSON feed, and the way from an exchange event to the bytes on the wire.
\<close>

section \<open>Decimals\<close>

lemma sample_digits: "all_digits ''0''" "all_digits ''0001''" "all_digits ''65000''"
    "all_digits ''12345''" "digits_val ''0'' < 2 ^ 63" "digits_val ''65000'' < 2 ^ 63"
  by (simp_all add: is_digit_def digit_val_def)

section \<open>From event to wire\<close>

lemma encode_then_decode:
  assumes "nm_ok m" "length (nm_wire m) \<le> length buf"
  shows "\<exists>buf'. nm_encode_into m buf = (Inr (length (nm_wire m)), buf') \<and> nm_from_bytes buf' = Inr m"
  using nm_encode_wire [OF assms] nm_from_bytes_wire [OF assms(1)] by auto

text \<open>A message the Spot normalizer produces carries the connection's counter value, which
  advances by one, and the identity of the instrument and connection; written to any buffer with
  room, it is read back unchanged.\<close>

theorem spot_message_reaches_wire:
  assumes "normalize_spot_event event inst ctx recv_ts seq = (Inr (Some m), seq')"
    and "str_ok (id_symbol inst)" "spot_event_small event" "length (nm_wire m) \<le> length buf"
  shows "mh_sequence_number (nm_header m) = seq \<and> seq' = seq + 1 \<and>
    mh_instrument_id (nm_header m) = mh_instrument_id (id_header inst) \<and>
    mh_venue_id (nm_header m) = nc_venue_id ctx \<and> mh_local_recv_ts (nm_header m) = recv_ts \<and>
    (\<exists>buf'. nm_encode_into m buf = (Inr (length (nm_wire m)), buf') \<and> nm_from_bytes buf' = Inr m)"
  using normalize_spot_header [OF assms(1)]
    encode_then_decode [OF normalize_spot_ok [OF assms(1-3)] assms(4)] by blast

definition sample_inst_header :: message_header where
  "sample_inst_header = (gd_header sample_gap)\<lparr>mh_message_type := MT_InstrumentDefinition\<rparr>"

definition sample_inst :: InstrumentDefinition where
  "sample_inst =
     \<lparr>id_header = sample_inst_header, id_symbol = ''BTCUSDT'', id_base_asset = ''BTC'',
      id_quote_asset = ''USDT'', id_price_scale = 2, id_qty_scale = 5, id_tick_size = 1,
      id_step_size = 1, id_min_qty = 1, id_min_notional = 1000, id_contract_size = 1,
      id_is_trading = True\<rparr>"

definition sample_ctx :: normalize_ctx where
  "sample_ctx = \<lparr>nc_venue_id = BinanceSpot, nc_market_type = Spot, nc_instance_id = 1,
     nc_connection_id = 4\<rparr>"

definition sample_depth :: SpotDepthUpdate where
  "sample_depth =
     \<lparr>sdu_event_time_ms = 1000, sdu_symbol = ''BTCUSDT'', sdu_first_update_id = 7,
      sdu_last_update_id = 9, sdu_bids = [(''65000.12345'', ''0.0001'')], sdu_asks = []\<rparr>"

lemma sample_inst_symbol: "str_ok (id_symbol sample_inst)"
  by (auto simp: sample_inst_def str_ok_def u16_MAX_def intro!: str_utf8_ascii)

lemma sample_parsed:
  "parse_scaled ''65000.12345'' 2 = Inr 6500012" "parse_scaled ''0.0001'' 5 = Inr 10"
proof -
  have v: "decimal_scaled ''65000'' ''12345'' 2 = 6500012" "decimal_scaled ''0'' ''0001'' 5 = 10"
    by (simp_all add: decimal_scaled_def digit_val_def)
  show "parse_scaled ''65000.12345'' 2 = Inr 6500012" "parse_scaled ''0.0001'' 5 = Inr 10"
    using adapter_parse_scaled_decimal(1) [of "''65000''" "''12345''" 2 InvalidDecimal Panic]
      adapter_parse_scaled_decimal(1) [of "''0''" "''0001''" 5 InvalidDecimal Panic] sample_digits v
    by (simp_all add: parse_scaled_def i64_of_int_def numeral_i64)
qed

definition sample_delta :: BookDelta where
  "sample_delta =
     \<lparr>bd_header = make_header MT_BookDelta sample_inst sample_ctx 30 (ms_to_ns 1000) 99,
      bd_symbol = ''BTCUSDT'', bd_price_scale = 2, bd_qty_scale = 5, bd_first_update_id = 7,
      bd_final_update_id = 9, bd_prev_update_id = UPDATE_ID_NONE,
      bd_bids = [\<lparr>pl_price = 6500012, pl_qty = 10\<rparr>], bd_asks = []\<rparr>"

lemma sample_normalized:
  "normalize_spot_event (SE_DepthUpdate sample_depth) sample_inst sample_ctx 99 30 =
     (Inr (Some (NM_BookDelta sample_delta)), 31)"
  by (simp add: normalize_spot_event_def take_seq_def normalize_depth_update_def sample_depth_def
      sample_inst_def sample_delta_def parse_levels_def sample_parsed Let_def make_header_def)

theorem spot_message_reaches_wire_witness:
  "\<exists>buf'. nm_from_bytes buf' = Inr (NM_BookDelta sample_delta)"
proof -
  let ?m = "NM_BookDelta sample_delta"
  have "spot_event_small (SE_DepthUpdate sample_depth)" by (simp add: sample_depth_def u32_MAX_def)
  from spot_message_reaches_wire [OF sample_normalized sample_inst_symbol this,
      of "replicate (length (nm_wire ?m)) 0"]
  show ?thesis by auto
qed

text \<open>The messages of one Futures event carry consecutive sequence numbers from the counter
  on, and each of them, written to a buffer with room, is read back unchanged.\<close>

theorem futures_messages_reach_wire:
  assumes "normalize_futures_event event inst ctx recv_ts seq = (Inr ms, seq')"
    and "str_ok (id_symbol inst)" "futures_event_small event"
  shows "map (\<lambda>m. mh_sequence_number (nm_header m)) ms =
      map (\<lambda>k. seq + word_of_nat k) [0..<length ms] \<and> seq' = seq + word_of_nat (length ms) \<and>
    (\<forall>m \<in> set ms. \<forall>buf. length (nm_wire m) \<le> length buf \<longrightarrow>
       (\<exists>buf'. nm_encode_into m buf = (Inr (length (nm_wire m)), buf') \<and> nm_from_bytes buf' = Inr m))"
  using normalize_futures_seqs [OF assms(1)] normalize_futures_ok [OF assms] encode_then_decode
  by blast

definition sample_mark :: FuturesMarkPrice where
  "sample_mark =
     \<lparr>fmp_event_time_ms = 1000, fmp_symbol = ''BTCUSDT'', fmp_mark_price = ''65000.12345'',
      fmp_index_price = [], fmp_funding_rate = ''0.0001'', fmp_next_funding_time_ms = 2000\<rparr>"

lemma sample_mark_normalized:
  "\<exists>m f. normalize_futures_event (FE_MarkPrice sample_mark) sample_inst sample_ctx 99 30 =
     (Inr [NM_MarkPrice m, NM_FundingRate f], 32) \<and> fr_funding_rate f = 100000"
proof -
  have v: "decimal_scaled ''65000'' ''12345'' 2 = 6500012" "decimal_scaled ''0'' ''0001'' 9 = 100000"
    by (simp_all add: decimal_scaled_def digit_val_def)
  have "futures_parse_scaled ''65000.12345'' 2 = Inr 6500012" "futures_parse_scaled ''0.0001'' 9 = Inr 100000"
    using adapter_parse_scaled_decimal(1) [of "''65000''" "''12345''" 2 InvalidDecimal Panic]
      adapter_parse_scaled_decimal(1) [of "''0''" "''0001''" 9 InvalidDecimal Panic] sample_digits v
    by (simp_all add: futures_parse_scaled_def i64_of_int_def numeral_i64)
  then show ?thesis
    by (simp add: normalize_futures_event_def futures_mark_price_def sample_mark_def sample_inst_def
        futures_take_seq_def Let_def)
qed

theorem futures_messages_reach_wire_witness:
  "\<exists>m f. normalize_futures_event (FE_MarkPrice sample_mark) sample_inst sample_ctx 99 30 =
       (Inr [NM_MarkPrice m, NM_FundingRate f], 32) \<and>
     mh_sequence_number (mp_header m) = 30 \<and> mh_sequence_number (fr_header f) = 31"
proof -
  obtain m f where n: "normalize_futures_event (FE_MarkPrice sample_mark) sample_inst sample_ctx 99 30 =
      (Inr [NM_MarkPrice m, NM_FundingRate f], 32)"
    using sample_mark_normalized by blast
  from futures_messages_reach_wire [OF n sample_inst_symbol] n show ?thesis by auto
qed

text \<open>An event that fails to normalize still takes a sequence number: the counter advances by
  one for every Spot event of a known stream, whether or not a message comes of it.\<close>

theorem failed_event_takes_number:
  assumes "normalize_spot_event event inst ctx recv_ts seq = (r, seq')"
  shows "seq' = (case event of SE_Unknown _ \<Rightarrow> seq | _ \<Rightarrow> seq + 1) \<and>
    ((\<exists>e. r = Inl e) \<longrightarrow> seq' = seq + 1)"
  using assms
  by (auto simp: normalize_spot_event_def take_seq_def Let_def split: spot_event.splits)

theorem failed_event_takes_number_witness:
  "normalize_spot_event (SE_DepthUpdate (sample_depth\<lparr>sdu_bids := [(''x'', ''1'')]\<rparr>)) sample_inst
     sample_ctx 99 30 = (Inl (InvalidDecimal ''x'' 2 PIE_InvalidDigit), 31)"
proof -
  let ?e = "SE_DepthUpdate (sample_depth\<lparr>sdu_bids := [(''x'', ''1'')]\<rparr>)"
  have "split_dot ''x'' = (''x'', [])" by (simp add: split_dot_def)
  moreover have "str_trim ''x'' = ''x''" by (simp add: str_trim_plain plain_def)
  moreover have "parse_i64 ''x'' = Inl PIE_InvalidDigit" by (simp add: parse_i64_def dec_digit_def)
  ultimately have "parse_scaled ''x'' 2 = Inl (InvalidDecimal ''x'' 2 PIE_InvalidDigit)"
    by (simp add: parse_scaled_def adapter_parse_scaled_def)
  then have r: "fst (normalize_spot_event ?e sample_inst sample_ctx 99 30) =
      Inl (InvalidDecimal ''x'' 2 PIE_InvalidDigit)"
    by (simp add: normalize_spot_event_def take_seq_def normalize_depth_update_def sample_inst_def
        parse_levels_def Let_def)
  then have "snd (normalize_spot_event ?e sample_inst sample_ctx 99 30) = 30 + 1"
    using failed_event_takes_number [of ?e sample_inst sample_ctx 99 30] by (metis prod.collapse)
  with r show ?thesis by (simp add: prod_eq_iff)
qed

section \<open>The two Spot feeds\<close>

text \<open>C14: A frame laid out by the SBE schema, with extension bytes of a later version behind the
  root block and behind every group entry and any bytes behind the frame, decodes to its message.\<close>

theorem sbe_frame_decodes:
  assumes "sbe_fits root_ext ext m" "version \<le> SPOT_SCHEMA_VERSION_MAX"
  shows "sbe_decode_message (sbe_frame version root_ext ext m @ rest) = Inr m"
  by (rule sbe_decode_frame [OF assms])

definition sample_diff :: DepthDiffEvent where
  "sample_diff =
     \<lparr>dd_event_time = 1000000, dd_transact_time = 1000000, dd_first_update_id = 7,
      dd_final_update_id = 9, dd_prev_final_update_id = 6, dd_symbol = ''BTCUSDT'',
      dd_bids = [\<lparr>dl_price = \<lparr>mantissa = 6500012345000\<rparr>, dl_quantity = \<lparr>mantissa = 10000\<rparr>\<rparr>],
      dd_asks = []\<rparr>"

lemma sample_diff_fits: "length root_ext \<le> 100 \<Longrightarrow> length ext \<le> 100 \<Longrightarrow> sbe_fits root_ext ext (SM_DepthDiff sample_diff)"
  by (auto simp: sbe_fits_def sample_diff_def intro!: str_utf8_ascii)

theorem sbe_frame_decodes_witness:
  "sbe_decode_message (sbe_frame 0 [1, 2] [3] (SM_DepthDiff sample_diff) @ [4]) =
     Inr (SM_DepthDiff sample_diff)"
  by (rule sbe_frame_decodes) (simp_all add: sample_diff_fits)


text \<open>A reader that answers every text with the sample event.\<close>

definition sample_json :: "unit spot_json" where
  "sample_json =
     \<lparr>sj_wrapper = (\<lambda>_. Inr (''btcusdt@depth@100ms'', [])), sj_book_ticker = (\<lambda>_. Inl ()),
      sj_depth_update = (\<lambda>_. Inr sample_depth), sj_trade = (\<lambda>_. Inl ())\<rparr>"

lemma sample_json_depth: "parse_spot_message sample_json text = Inr (SE_DepthUpdate sample_depth)"
  by (simp add: parse_spot_message_def sample_json_def spot_stream_kind_def kind_segment_def)

lemma sample_same: "same_depth sample_depth sample_diff"
proof -
  have a: "''65000.12345'' = ''65000'' @ CHR ''.'' # ''12345''" "''0.0001'' = ''0'' @ CHR ''.'' # ''0001''" by simp_all
  have "same_number ''65000.12345'' \<lparr>mantissa = 6500012345000\<rparr>"
    unfolding same_number_def using a(1) sample_digits
    by (intro exI [of _ "''65000''"] exI [of _ "''12345''"])
      (simp add: decimal_scaled_def digit_val_def i64_of_int_def numeral_i64)
  moreover have "same_number ''0.0001'' \<lparr>mantissa = 10000\<rparr>"
    unfolding same_number_def using a(2) sample_digits
    by (intro exI [of _ "''0''"] exI [of _ "''0001''"])
      (simp add: decimal_scaled_def digit_val_def i64_of_int_def numeral_i64)
  ultimately show ?thesis
    by (simp add: same_depth_def same_level_def sample_depth_def sample_diff_def i64_val_def i64_word_def numeral_i64)
qed


text \<open>A frame of either stream is recognised for what it was subscribed as, with one
  exception: the Spot aggregate-trade stream can be subscribed to and every one of its frames is
  dropped as unknown.\<close>

theorem subscriptions_recognised:
  assumes "CHR ''@'' \<notin> set symbol"
  shows "spot_stream_kind (spot_stream_name s symbol) = spot_kind_of s \<and>
    futures_stream_kind_of (futures_stream_name fs symbol) = futures_kind_of fs \<and>
    (spot_stream_kind (spot_stream_name s symbol) = SK_Unknown \<longleftrightarrow> s = SS_AggTrade) \<and>
    futures_stream_kind_of (futures_stream_name fs symbol) \<noteq> FK_Unknown"
proof -
  have "spot_kind_of s = SK_Unknown \<longleftrightarrow> s = SS_AggTrade" by (cases s) simp_all
  moreover have "futures_kind_of fs \<noteq> FK_Unknown" by (cases fs) simp_all
  ultimately show ?thesis using spot_stream_kind_name [OF assms] futures_stream_kind_name [OF assms] by simp
qed

theorem subscriptions_recognised_witness:
  "spot_stream_kind (spot_stream_name (SS_Depth 100) ''BTCUSDT'') = SK_DepthUpdate \<and>
   spot_stream_kind (spot_stream_name SS_AggTrade ''BTCUSDT'') = SK_Unknown"
  using subscriptions_recognised [of "''BTCUSDT''" "SS_Depth 100"]
    subscriptions_recognised [of "''BTCUSDT''" SS_AggTrade] by simp

end
