(* ===== verification/Publication.thy ===== *)
theory Publication
  imports Prelude
begin

text \<open>
  The publishing side: \<open>aeron-publisher/src\<close> (publication.rs, backpressure.rs, heartbeat.rs,
  publisher.rs). A \<open>Publication\<close> is a state with an \<open>offer\<close> function, the argument of the code
  that is generic in it; the null and the channel publication are modelled, the Aeron client
  is third-party. Clocks are arguments.
\<close>

section \<open>Offers\<close>

datatype offer_result =
  OfferOk (offer_position: i64) | BackPressured | AdminAction | OfferClosed | MaxPositionExceeded

definition offer_is_ok :: "offer_result \<Rightarrow> bool" where
  "offer_is_ok r \<longleftrightarrow> (case r of OfferOk _ \<Rightarrow> True | _ \<Rightarrow> False)"

definition offer_should_retry :: "offer_result \<Rightarrow> bool" where
  "offer_should_retry r \<longleftrightarrow> r = BackPressured \<or> r = AdminAction"

type_synonym 'p offer = "u8 list \<Rightarrow> 'p \<Rightarrow> offer_result \<times> 'p"

record null_publication =
  np_messages_offered :: u64
  np_bytes_offered :: u64

definition null_default :: null_publication where
  "null_default = \<lparr>np_messages_offered = 0, np_bytes_offered = 0\<rparr>"

definition null_offer :: "null_publication offer" where
  "null_offer bytes p =
     (let p' = p\<lparr>np_messages_offered := np_messages_offered p + 1,
                 np_bytes_offered := np_bytes_offered p + word_of_nat (length bytes)\<rparr>
      in (OfferOk (I64 (np_bytes_offered p')), p'))"

text \<open>
  A bounded channel: the frames not yet received, its capacity (at least one; a rendezvous
  channel of capacity 0 is not modelled) and whether the receiver is still there.
\<close>

record channel_publication =
  cp_queue :: "u8 list list"
  cp_capacity :: nat
  cp_receiver_alive :: bool
  cp_position :: i64

definition channel_new :: "nat \<Rightarrow> channel_publication" where
  "channel_new capacity =
     \<lparr>cp_queue = [], cp_capacity = capacity, cp_receiver_alive = True, cp_position = 0\<rparr>"

definition channel_offer :: "channel_publication offer" where
  "channel_offer bytes p =
     (if \<not> cp_receiver_alive p then (OfferClosed, p)
      else if cp_capacity p \<le> length (cp_queue p) then (BackPressured, p)
      else
        let p' = p\<lparr>cp_queue := cp_queue p @ [bytes],
                   cp_position := cp_position p + I64 (word_of_nat (length bytes))\<rparr>
        in (OfferOk (cp_position p'), p'))"

section \<open>Back-pressure guard\<close>

datatype offer_outcome =
  OutAccepted i64 | OutRetrying | OutWarned | OutDegrade | OutRestart | OutClosed

definition out_is_accepted :: "offer_outcome \<Rightarrow> bool" where
  "out_is_accepted r \<longleftrightarrow> (case r of OutAccepted _ \<Rightarrow> True | _ \<Rightarrow> False)"

definition out_should_retry :: "offer_outcome \<Rightarrow> bool" where
  "out_should_retry r \<longleftrightarrow> r = OutRetrying \<or> r = OutWarned \<or> r = OutDegrade"

definition out_is_terminal :: "offer_outcome \<Rightarrow> bool" where
  "out_is_terminal r \<longleftrightarrow> r = OutRestart \<or> r = OutClosed"

definition DEFAULT_WARN_NS :: i64 where "DEFAULT_WARN_NS = 100000"
definition DEFAULT_DEGRADE_NS :: i64 where "DEFAULT_DEGRADE_NS = 1000000"
definition DEFAULT_RESTART_NS :: i64 where "DEFAULT_RESTART_NS = 10000000"

record backpressure_guard =
  bg_bp_start_ns :: "i64 option"
  bg_warned :: bool
  bg_warn_ns :: i64
  bg_degrade_ns :: i64
  bg_restart_ns :: i64

definition bg_with_thresholds :: "i64 \<Rightarrow> i64 \<Rightarrow> i64 \<Rightarrow> backpressure_guard" where
  "bg_with_thresholds warn_ns degrade_ns restart_ns =
     \<lparr>bg_bp_start_ns = None, bg_warned = False, bg_warn_ns = warn_ns,
      bg_degrade_ns = degrade_ns, bg_restart_ns = restart_ns\<rparr>"

definition bg_new :: backpressure_guard where
  "bg_new = bg_with_thresholds DEFAULT_WARN_NS DEFAULT_DEGRADE_NS DEFAULT_RESTART_NS"

definition bg_reset :: "backpressure_guard \<Rightarrow> backpressure_guard" where
  "bg_reset g = g\<lparr>bg_bp_start_ns := None, bg_warned := False\<rparr>"

definition bg_is_in_backpressure :: "backpressure_guard \<Rightarrow> bool" where
  "bg_is_in_backpressure g \<longleftrightarrow> bg_bp_start_ns g \<noteq> None"

definition bg_elapsed_ns :: "i64 \<Rightarrow> backpressure_guard \<Rightarrow> i64 option" where
  "bg_elapsed_ns now_ns g = map_option (i64_saturating_sub now_ns) (bg_bp_start_ns g)"

text \<open>\<open>try_offer_at\<close> once the publication has answered.\<close>

definition bg_on_result ::
  "offer_result \<Rightarrow> i64 \<Rightarrow> backpressure_guard \<Rightarrow> offer_outcome \<times> backpressure_guard" where
  "bg_on_result r now_ns g =
     (if r = BackPressured \<or> r = AdminAction then
        let start = (case bg_bp_start_ns g of None \<Rightarrow> now_ns | Some s \<Rightarrow> s);
            g1 = g\<lparr>bg_bp_start_ns := Some start\<rparr>;
            elapsed = i64_saturating_sub now_ns start in
        if bg_restart_ns g1 \<le> elapsed then (OutRestart, g1)
        else if bg_degrade_ns g1 \<le> elapsed then (OutDegrade, g1)
        else if bg_warn_ns g1 \<le> elapsed then (OutWarned, g1\<lparr>bg_warned := True\<rparr>)
        else (OutRetrying, g1)
      else
        (case r of
           OfferOk pos \<Rightarrow> (OutAccepted pos, bg_reset g)
         | _ \<Rightarrow> (OutClosed, bg_reset g)))"

definition try_offer_at ::
  "'p offer \<Rightarrow> u8 list \<Rightarrow> i64 \<Rightarrow> 'p \<Rightarrow> backpressure_guard \<Rightarrow>
   offer_outcome \<times> 'p \<times> backpressure_guard" where
  "try_offer_at offer bytes now_ns p g =
     (let (r, p') = offer bytes p; (out, g') = bg_on_result r now_ns g in (out, p', g'))"

section \<open>Heartbeats\<close>

definition HEARTBEAT_INTERVAL_NS :: i64 where "HEARTBEAT_INTERVAL_NS = 1000000000"

record heartbeater =
  hbt_interval_ns :: i64
  hbt_last_beat_ns :: i64

text \<open>None is the panic of the assertion \<open>interval_ns > 0\<close>.\<close>

definition hbt_with_interval_ns :: "i64 \<Rightarrow> heartbeater option" where
  "hbt_with_interval_ns interval_ns =
     (if 0 < interval_ns then Some \<lparr>hbt_interval_ns = interval_ns, hbt_last_beat_ns = 0\<rparr> else None)"

definition hbt_is_due :: "i64 \<Rightarrow> heartbeater \<Rightarrow> bool" where
  "hbt_is_due now_ns h \<longleftrightarrow> hbt_interval_ns h \<le> i64_saturating_sub now_ns (hbt_last_beat_ns h)"

definition hbt_record_beat :: "i64 \<Rightarrow> heartbeater \<Rightarrow> heartbeater" where
  "hbt_record_beat now_ns h = h\<lparr>hbt_last_beat_ns := now_ns\<rparr>"

definition hbt_next_due_in_ns :: "i64 \<Rightarrow> heartbeater \<Rightarrow> i64" where
  "hbt_next_due_in_ns now_ns h =
     (let elapsed = i64_saturating_sub now_ns (hbt_last_beat_ns h) in
      max (hbt_interval_ns h - elapsed) 0)"

section \<open>Sharded publisher\<close>

datatype publisher_error = UnknownShard u32 | AeronConnect string

record 'p sharded_publisher =
  sp_shards :: "(u32, 'p) hash_map"

definition sp_new :: "(u32 \<times> 'p) list \<Rightarrow> 'p sharded_publisher" where
  "sp_new shards = \<lparr>sp_shards = fold (\<lambda>(k, p) m. AList.update k p m) shards []\<rparr>"

definition sp_offer ::
  "'p offer \<Rightarrow> u32 \<Rightarrow> u8 list \<Rightarrow> 'p sharded_publisher \<Rightarrow>
   (publisher_error + offer_result) \<times> 'p sharded_publisher" where
  "sp_offer offer shard_id bytes sp =
     (case map_of (sp_shards sp) shard_id of
        None \<Rightarrow> (Inl (UnknownShard shard_id), sp)
      | Some p \<Rightarrow>
          let (r, p') = offer bytes p in (Inr r, sp\<lparr>sp_shards := AList.update shard_id p' (sp_shards sp)\<rparr>))"

definition sp_publication :: "u32 \<Rightarrow> 'p sharded_publisher \<Rightarrow> 'p option" where
  "sp_publication shard_id sp = map_of (sp_shards sp) shard_id"

definition sp_shard_ids :: "'p sharded_publisher \<Rightarrow> u32 list" where
  "sp_shard_ids sp = map fst (sp_shards sp)"

definition sp_shard_count :: "'p sharded_publisher \<Rightarrow> nat" where
  "sp_shard_count sp = length (sp_shards sp)"

definition sp_all_connected :: "('p \<Rightarrow> bool) \<Rightarrow> 'p sharded_publisher \<Rightarrow> bool" where
  "sp_all_connected is_connected sp \<longleftrightarrow> list_all (\<lambda>(_, p). is_connected p) (sp_shards sp)"

definition build_null :: "u32 list \<Rightarrow> null_publication sharded_publisher" where
  "build_null owned_shards = sp_new (map (\<lambda>i. (i, null_default)) owned_shards)"

text \<open>A stream id is an \<open>i32\<close>, here its bits; \<open>sint\<close> reads it.\<close>

definition shard_stream_id :: "u32 \<Rightarrow> u32" where
  "shard_stream_id shard_id = shard_id + 1"

definition ipc_channel :: string where "ipc_channel = ''aeron:ipc''"

definition udp_channel :: "string \<Rightarrow> string" where
  "udp_channel endpoint = ''aeron:udp?endpoint='' @ endpoint"

definition channel_from_config :: "bool \<Rightarrow> string option \<Rightarrow> string" where
  "channel_from_config ipc_enabled udp_endpoint =
     (if ipc_enabled then ipc_channel
      else case udp_endpoint of Some ep \<Rightarrow> udp_channel ep | None \<Rightarrow> ipc_channel)"

definition build_channel :: "u32 list \<Rightarrow> nat \<Rightarrow> channel_publication sharded_publisher" where
  "build_channel owned_shards channel_capacity =
     sp_new (map (\<lambda>i. (i, channel_new channel_capacity)) owned_shards)"

section \<open>Escalation\<close>

text \<open>The outcome that the policy gives a retryable answer after \<open>elapsed\<close>.\<close>

definition bg_policy :: "i64 \<Rightarrow> backpressure_guard \<Rightarrow> offer_outcome" where
  "bg_policy elapsed g =
     (if bg_restart_ns g \<le> elapsed then OutRestart
      else if bg_degrade_ns g \<le> elapsed then OutDegrade
      else if bg_warn_ns g \<le> elapsed then OutWarned else OutRetrying)"

fun bg_run :: "(offer_result \<times> i64) list \<Rightarrow> backpressure_guard \<Rightarrow> backpressure_guard" where
  "bg_run [] g = g"
| "bg_run ((r, t) # rs) g = bg_run rs (snd (bg_on_result r t g))"

text \<open>When the congestion that the answers end with began.\<close>

fun congested_since :: "(offer_result \<times> i64) list \<Rightarrow> i64 option \<Rightarrow> i64 option" where
  "congested_since [] start = start"
| "congested_since ((r, t) # rs) start =
     congested_since rs
       (if offer_should_retry r then Some (case start of None \<Rightarrow> t | Some s \<Rightarrow> s) else None)"

lemma bg_run_append: "bg_run (xs @ ys) g = bg_run ys (bg_run xs g)"
  by (induction xs arbitrary: g) auto

lemma bg_on_result_state:
  "bg_bp_start_ns (snd (bg_on_result r t g)) =
     (if offer_should_retry r then Some (case bg_bp_start_ns g of None \<Rightarrow> t | Some s \<Rightarrow> s) else None)"
  "bg_warn_ns (snd (bg_on_result r t g)) = bg_warn_ns g"
  "bg_degrade_ns (snd (bg_on_result r t g)) = bg_degrade_ns g"
  "bg_restart_ns (snd (bg_on_result r t g)) = bg_restart_ns g"
  by (auto simp: bg_on_result_def offer_should_retry_def bg_reset_def Let_def split: offer_result.splits)

lemma bg_run_state:
  "bg_bp_start_ns (bg_run rs g) = congested_since rs (bg_bp_start_ns g) \<and>
   bg_policy e (bg_run rs g) = bg_policy e g"
proof (induction rs arbitrary: g)
  case (Cons x rs)
  then show ?case by (cases x) (auto simp: bg_on_result_state bg_policy_def)
qed simp

lemma bg_on_result_outcome:
  "offer_should_retry r \<Longrightarrow>
   fst (bg_on_result r t g) =
     bg_policy (i64_saturating_sub t (case bg_bp_start_ns g of None \<Rightarrow> t | Some s \<Rightarrow> s)) g"
  by (auto simp: bg_on_result_def offer_should_retry_def bg_policy_def Let_def)

end
