(* ===== verification/Arbiter.thy ===== *)
theory Arbiter
  imports Publication Order_Book Normalized_Message
begin

text \<open>
  Cross-instance comparison of book checksums: \<open>crates/redundancy/src\<close> (publisher.rs,
  arbiter.rs). The publisher of an instance encodes a \<open>BookChecksum\<close> of its book; the arbiter
  pairs the checksums of the two instances for the same symbol and update id.
\<close>

section \<open>Checksum publisher\<close>

definition MAX_CHECKSUM_MSG_BYTES :: nat where "MAX_CHECKSUM_MSG_BYTES = 256"

record 'p checksum_publisher =
  csp_publication :: 'p
  csp_buf :: "u8 list"
  csp_published :: u64
  csp_failed :: u64

definition csp_new :: "'p \<Rightarrow> 'p checksum_publisher" where
  "csp_new publication =
     \<lparr>csp_publication = publication, csp_buf = replicate MAX_CHECKSUM_MSG_BYTES 0,
      csp_published = 0, csp_failed = 0\<rparr>"

definition checksum_message :: "order_book \<Rightarrow> message_header \<Rightarrow> BookChecksum" where
  "checksum_message book header =
     \<lparr>bc_header = header\<lparr>mh_message_type := MT_BookChecksum\<rparr>, bc_symbol = ob_symbol book,
      bc_update_id = ob_last_update_id book, bc_bid_depth = word_of_nat (bid_depth book),
      bc_ask_depth = word_of_nat (ask_depth book), bc_checksum = book_checksum book\<rparr>"

definition csp_publish ::
  "'p offer \<Rightarrow> order_book \<Rightarrow> message_header \<Rightarrow> 'p checksum_publisher \<Rightarrow>
   offer_result \<times> 'p checksum_publisher" where
  "csp_publish offer book header p =
     (case BookChecksum_encode_into (checksum_message book header) (csp_buf p) of
        (Inl e, buf) \<Rightarrow> (OfferClosed, p\<lparr>csp_buf := buf, csp_failed := csp_failed p + 1\<rparr>)
      | (Inr n, buf) \<Rightarrow>
          let (result, publication) = offer (take n buf) (csp_publication p);
              p' = p\<lparr>csp_buf := buf, csp_publication := publication\<rparr> in
          (result, if offer_is_ok result then p'\<lparr>csp_published := csp_published p' + 1\<rparr>
                   else p'\<lparr>csp_failed := csp_failed p' + 1\<rparr>))"

section \<open>Arbiter\<close>

definition DEFAULT_WINDOW :: nat where "DEFAULT_WINDOW = 64"

datatype arbiter_verdict =
    Matched string u64 u64
  | Diverged string u64 u64 u64
  | Pending
  | StaleVerdict

definition needs_failover :: "arbiter_verdict \<Rightarrow> bool" where
  "needs_failover v \<longleftrightarrow> (case v of Diverged _ _ _ _ \<Rightarrow> True | _ \<Rightarrow> False)"

record arbiter_entry =
  ae_update_id :: u64
  ae_active :: "u64 option"
  ae_passive :: "u64 option"

record checksum_arbiter =
  ca_window :: nat
  ca_symbols :: "(string, arbiter_entry list) hash_map"

text \<open>None is the panic of \<open>assert!(window > 0)\<close>.\<close>

definition ca_with_window :: "nat \<Rightarrow> checksum_arbiter option" where
  "ca_with_window window =
     (if 0 < window then Some \<lparr>ca_window = window, ca_symbols = []\<rparr> else None)"

definition ca_new :: "checksum_arbiter option" where
  "ca_new = ca_with_window DEFAULT_WINDOW"

definition record_checksum :: "instance_role \<Rightarrow> u64 \<Rightarrow> arbiter_entry \<Rightarrow> arbiter_entry" where
  "record_checksum role checksum e =
     (case role of
        Active \<Rightarrow> e\<lparr>ae_active := Some checksum\<rparr>
      | Passive \<Rightarrow> e\<lparr>ae_passive := Some checksum\<rparr>)"

fun update_first :: "('a \<Rightarrow> bool) \<Rightarrow> ('a \<Rightarrow> 'a) \<Rightarrow> 'a list \<Rightarrow> 'a list" where
  "update_first P f [] = []"
| "update_first P f (x # xs) = (if P x then f x # xs else x # update_first P f xs)"

definition entry_verdict :: "string \<Rightarrow> u64 \<Rightarrow> arbiter_entry \<Rightarrow> arbiter_verdict" where
  "entry_verdict symbol update_id e =
     (case (ae_active e, ae_passive e) of
        (Some a, Some p) \<Rightarrow>
          if a = p then Matched symbol update_id a else Diverged symbol update_id a p
      | _ \<Rightarrow> Pending)"

text \<open>
  The queue of one symbol. The third case of the result, None, is the panic of the
  \<open>unwrap\<close> after the entry has been stored.
\<close>

definition ingest_queue ::
  "nat \<Rightarrow> instance_role \<Rightarrow> string \<Rightarrow> u64 \<Rightarrow> u64 \<Rightarrow> arbiter_entry list \<Rightarrow>
   arbiter_verdict option \<times> arbiter_entry list" where
  "ingest_queue window role symbol update_id checksum queue =
     (if queue \<noteq> [] \<and> update_id < ae_update_id (hd queue) then (Some StaleVerdict, queue)
      else
        let q1 = (if \<exists>e \<in> set queue. ae_update_id e = update_id
                  then update_first (\<lambda>e. ae_update_id e = update_id) (record_checksum role checksum) queue
                  else
                    let entry = record_checksum role checksum
                          \<lparr>ae_update_id = update_id, ae_active = None, ae_passive = None\<rparr>;
                        q0 = queue @ [entry]
                    in if window < length q0 then tl q0 else q0)
        in (map_option (entry_verdict symbol update_id)
              (List.find (\<lambda>e. ae_update_id e = update_id) q1), q1))"

definition ca_ingest :: "BookChecksum \<Rightarrow> checksum_arbiter \<Rightarrow> arbiter_verdict option \<times> checksum_arbiter" where
  "ca_ingest msg ca =
     (let role = from_instance_id (mh_instance_id (bc_header msg));
          symbol = bc_symbol msg;
          queue = (case map_of (ca_symbols ca) symbol of None \<Rightarrow> [] | Some q \<Rightarrow> q);
          (verdict, queue') =
            ingest_queue (ca_window ca) role symbol (bc_update_id msg) (bc_checksum msg) queue
      in (verdict, ca\<lparr>ca_symbols := AList.update symbol queue' (ca_symbols ca)\<rparr>))"

definition ca_reset_symbol :: "string \<Rightarrow> checksum_arbiter \<Rightarrow> checksum_arbiter" where
  "ca_reset_symbol symbol ca = ca\<lparr>ca_symbols := AList.delete symbol (ca_symbols ca)\<rparr>"

definition ca_reset :: "checksum_arbiter \<Rightarrow> checksum_arbiter" where
  "ca_reset ca = ca\<lparr>ca_symbols := []\<rparr>"

definition ca_symbol_count :: "checksum_arbiter \<Rightarrow> nat" where
  "ca_symbol_count ca = length (ca_symbols ca)"

definition ca_pending_count :: "string \<Rightarrow> checksum_arbiter \<Rightarrow> nat" where
  "ca_pending_count symbol ca =
     (case map_of (ca_symbols ca) symbol of
        None \<Rightarrow> 0
      | Some q \<Rightarrow> length (filter (\<lambda>e. ae_active e = None \<or> ae_passive e = None) q))"

definition ca_entry_count :: "checksum_arbiter \<Rightarrow> nat" where
  "ca_entry_count ca = sum_list (map (\<lambda>(_, q). length q) (ca_symbols ca))"

text \<open>\<open>process\<close>, with the calls of the trigger as an output.\<close>

definition arbiter_process ::
  "BookChecksum \<Rightarrow> checksum_arbiter \<Rightarrow>
   arbiter_verdict option \<times> (string \<times> u64 \<times> u64 \<times> u64) list \<times> checksum_arbiter" where
  "arbiter_process msg ca =
     (let (verdict, ca') = ca_ingest msg ca in
      (verdict,
       (case verdict of
          Some (Diverged symbol update_id active_checksum passive_checksum) \<Rightarrow>
            [(symbol, update_id, active_checksum, passive_checksum)]
        | _ \<Rightarrow> []), ca'))"

section \<open>Invariant\<close>

text \<open>Side \<open>role\<close> reported \<open>cs\<close> for the update \<open>k\<close> of \<open>symbol\<close> in the history.\<close>

definition reports :: "BookChecksum list \<Rightarrow> instance_role \<Rightarrow> string \<Rightarrow> u64 \<Rightarrow> u64 \<Rightarrow> bool" where
  "reports ms role symbol k cs \<longleftrightarrow>
     (\<exists>m \<in> set ms. bc_symbol m = symbol \<and> bc_update_id m = k \<and> bc_checksum m = cs \<and>
        from_instance_id (mh_instance_id (bc_header m)) = role)"

lemma reports_snoc:
  "reports (ms @ [m]) role symbol k cs \<longleftrightarrow>
     reports ms role symbol k cs \<or>
     bc_symbol m = symbol \<and> bc_update_id m = k \<and> bc_checksum m = cs \<and>
       from_instance_id (mh_instance_id (bc_header m)) = role"
  by (auto simp: reports_def)

definition queue_ok :: "nat \<Rightarrow> BookChecksum list \<Rightarrow> string \<Rightarrow> arbiter_entry list \<Rightarrow> bool" where
  "queue_ok window ms symbol q \<longleftrightarrow>
     length q \<le> window \<and> distinct (map ae_update_id q) \<and>
     (\<forall>e \<in> set q. \<forall>cs. (ae_active e = Some cs \<longrightarrow> reports ms Active symbol (ae_update_id e) cs) \<and>
        (ae_passive e = Some cs \<longrightarrow> reports ms Passive symbol (ae_update_id e) cs))"

lemma queue_ok_mono: "queue_ok window ms symbol q \<Longrightarrow> queue_ok window (ms @ [m]) symbol q"
  by (auto simp: queue_ok_def reports_snoc)

definition ca_ok :: "BookChecksum list \<Rightarrow> checksum_arbiter \<Rightarrow> bool" where
  "ca_ok ms ca \<longleftrightarrow> 0 < ca_window ca \<and> hm_wf (ca_symbols ca) \<and>
     (\<forall>symbol q. map_of (ca_symbols ca) symbol = Some q \<longrightarrow> queue_ok (ca_window ca) ms symbol q)"

lemma update_first_ids:
  "\<forall>x. P x \<longrightarrow> g (f x) = g x \<Longrightarrow> map g (update_first P f xs) = map g xs"
  by (induction xs) auto

lemma set_update_first: "y \<in> set (update_first P f xs) \<Longrightarrow> y \<in> set xs \<or> (\<exists>x \<in> set xs. P x \<and> y = f x)"
  by (induction xs) (auto split: if_splits)

lemma update_first_keeps:
  "distinct (map g xs) \<Longrightarrow> \<forall>x. P x \<longleftrightarrow> g x = k \<Longrightarrow> \<forall>x. g (f x) = g x \<Longrightarrow>
   y \<in> set (update_first P f xs) \<Longrightarrow> g y \<noteq> k \<Longrightarrow> y \<in> set xs"
  by (induction xs) (auto split: if_splits)

lemma update_first_hit:
  "distinct (map g xs) \<Longrightarrow> \<forall>x. P x \<longleftrightarrow> g x = k \<Longrightarrow> \<forall>x. g (f x) = g x \<Longrightarrow>
   y \<in> set (update_first P f xs) \<Longrightarrow> g y = k \<Longrightarrow> \<exists>x \<in> set xs. g x = k \<and> y = f x"
proof (induction xs)
  case (Cons x xs)
  show ?case
  proof (cases "P x")
    case True
    then show ?thesis using Cons.prems by (auto simp: image_iff)
  next
    case False
    then show ?thesis using Cons by auto
  qed
qed simp

lemma record_checksum_id [simp]: "ae_update_id (record_checksum role cs e) = ae_update_id e"
  by (simp add: record_checksum_def split: instance_role.splits)

lemma find_Some_mem: "List.find P xs = Some x \<Longrightarrow> x \<in> set xs \<and> P x"
  by (auto simp: find_Some_iff)

lemma find_exists: "x \<in> set xs \<Longrightarrow> P x \<Longrightarrow> \<exists>y. List.find P xs = Some y"
  by (metis find_None_iff not_None_eq)

text \<open>One message: the queue after it, and the verdict read off that queue.\<close>

lemma ingest_queue_ok:
  assumes "queue_ok window ms symbol q" "0 < window"
    and m: "bc_symbol m = symbol" "bc_update_id m = u" "bc_checksum m = cs"
      "from_instance_id (mh_instance_id (bc_header m)) = role"
    and r: "ingest_queue window role symbol u cs q = (v, q')"
  shows "queue_ok window (ms @ [m]) symbol q'"
    and "v \<noteq> None"
    and "v = Some StaleVerdict \<or> (\<exists>e \<in> set q'. ae_update_id e = u \<and>
      (role = Active \<longrightarrow> ae_active e = Some cs) \<and> (role = Passive \<longrightarrow> ae_passive e = Some cs) \<and>
      v = Some (entry_verdict symbol u e))"
proof -
  let ?new = "record_checksum role cs \<lparr>ae_update_id = u, ae_active = None, ae_passive = None\<rparr>"
  let ?upd = "update_first (\<lambda>e. ae_update_id e = u) (record_checksum role cs) q"
  have rep: "reports (ms @ [m]) rl symbol k c \<longleftrightarrow>
      reports ms rl symbol k c \<or> k = u \<and> rl = role \<and> c = cs" for rl k c
    using m by (auto simp: reports_snoc)
  note ok = assms(1) [unfolded queue_ok_def]
  have stored: "queue_ok window (ms @ [m]) symbol q' \<and>
      (\<exists>e \<in> set q'. ae_update_id e = u \<and> (role = Active \<longrightarrow> ae_active e = Some cs) \<and>
        (role = Passive \<longrightarrow> ae_passive e = Some cs))"
    if fresh: "\<not> (q \<noteq> [] \<and> u < ae_update_id (hd q))"
  proof (cases "\<exists>e \<in> set q. ae_update_id e = u")
    case True
    then have q': "q' = ?upd" using r fresh by (simp add: ingest_queue_def Let_def)
    have ids: "map ae_update_id ?upd = map ae_update_id q" by (rule update_first_ids) simp
    have len: "length ?upd = length q" using arg_cong [OF ids, of length] by simp
    have ent: "\<exists>x \<in> set q. ae_update_id x = ae_update_id e \<and>
        (if ae_update_id e = u then e = record_checksum role cs x else e = x)" if "e \<in> set ?upd" for e
      using update_first_keeps [of ae_update_id q "\<lambda>e. ae_update_id e = u" u "record_checksum role cs" e]
        update_first_hit [of ae_update_id q "\<lambda>e. ae_update_id e = u" u "record_checksum role cs" e]
        ok that by (cases "ae_update_id e = u") auto
    have "queue_ok window (ms @ [m]) symbol ?upd"
      unfolding queue_ok_def ids len
    proof (intro conjI ballI allI)
      fix e c assume e: "e \<in> set ?upd"
      obtain x where x: "x \<in> set q" "ae_update_id x = ae_update_id e"
        "if ae_update_id e = u then e = record_checksum role cs x else e = x"
        using ent [OF e] by blast
      show "ae_active e = Some c \<longrightarrow> reports (ms @ [m]) Active symbol (ae_update_id e) c"
        "ae_passive e = Some c \<longrightarrow> reports (ms @ [m]) Passive symbol (ae_update_id e) c"
        using x ok by (auto simp: rep record_checksum_def split: instance_role.splits if_splits)
    qed (use ok in simp_all)
    moreover have "u \<in> set (map ae_update_id ?upd)"
      unfolding ids using True by auto
    then obtain e where e: "e \<in> set ?upd" "ae_update_id e = u" by auto
    obtain x where "e = record_checksum role cs x" using ent [OF e(1)] e(2) by auto
    then have "(role = Active \<longrightarrow> ae_active e = Some cs) \<and>
        (role = Passive \<longrightarrow> ae_passive e = Some cs)"
      by (simp add: record_checksum_def)
    ultimately show ?thesis using e q' by blast
  next
    case False
    let ?q0 = "q @ [?new]"
    have q': "q' = (if window < length ?q0 then tl ?q0 else ?q0)"
      using r fresh False by (simp add: ingest_queue_def Let_def)
    have sub: "set q' \<subseteq> set ?q0" using q' list.set_sel(2) [of ?q0] by (auto split: if_splits)
    have dist: "distinct (map ae_update_id ?q0)" using ok False by auto
    have "queue_ok window (ms @ [m]) symbol q'"
      unfolding queue_ok_def
    proof (intro conjI ballI allI)
      show "length q' \<le> window" using q' ok by auto
      show "distinct (map ae_update_id q')"
        using q' dist by (simp add: map_tl distinct_tl del: map_append)
      fix e c assume "e \<in> set q'"
      then have "e = ?new \<or> e \<in> set q \<and> ae_update_id e \<noteq> u" using sub False by auto
      then show "ae_active e = Some c \<longrightarrow> reports (ms @ [m]) Active symbol (ae_update_id e) c"
        "ae_passive e = Some c \<longrightarrow> reports (ms @ [m]) Passive symbol (ae_update_id e) c"
        using ok by (auto simp: rep record_checksum_def split: instance_role.splits)
    qed
    moreover have "?new \<in> set q'"
      using q' assms(2) by (cases q) auto
    moreover have "(role = Active \<longrightarrow> ae_active ?new = Some cs) \<and> (role = Passive \<longrightarrow> ae_passive ?new = Some cs)"
      by (auto simp: record_checksum_def)
    ultimately show ?thesis by (intro conjI bexI [of _ ?new]) simp_all
  qed
  show "queue_ok window (ms @ [m]) symbol q'"
    using stored r queue_ok_mono [OF assms(1)] by (cases "q \<noteq> [] \<and> u < ae_update_id (hd q)") (auto simp: ingest_queue_def)
  have found: "v = Some StaleVerdict \<or> (\<exists>e \<in> set q'. ae_update_id e = u \<and>
      (role = Active \<longrightarrow> ae_active e = Some cs) \<and> (role = Passive \<longrightarrow> ae_passive e = Some cs) \<and>
      v = Some (entry_verdict symbol u e))"
  proof (cases "q \<noteq> [] \<and> u < ae_update_id (hd q)")
    case True
    then show ?thesis using r by (simp add: ingest_queue_def)
  next
    case False
    from stored [OF False] obtain e where e: "queue_ok window (ms @ [m]) symbol q'" "e \<in> set q'"
      "ae_update_id e = u" "(role = Active \<longrightarrow> ae_active e = Some cs) \<and> (role = Passive \<longrightarrow> ae_passive e = Some cs)"
      by blast
    obtain y where y: "List.find (\<lambda>e. ae_update_id e = u) q' = Some y"
      using find_exists [of e q' "\<lambda>e. ae_update_id e = u"] e(2,3) by auto
    have yq: "y \<in> set q'" "ae_update_id y = u" using find_Some_mem [OF y] by blast+
    have "inj_on ae_update_id (set q')" using e(1) by (simp add: queue_ok_def distinct_map)
    then have "y = e" by (rule inj_onD) (simp_all add: yq e)
    moreover have "v = map_option (entry_verdict symbol u) (List.find (\<lambda>e. ae_update_id e = u) q')"
      using r False by (simp add: ingest_queue_def Let_def del: not_less) (elim conjE, hypsubst, rule refl)
    ultimately have "v = Some (entry_verdict symbol u e)" by (simp add: y)
    then show ?thesis using e(2-4) by blast
  qed
  then show "v = Some StaleVerdict \<or> (\<exists>e \<in> set q'. ae_update_id e = u \<and>
      (role = Active \<longrightarrow> ae_active e = Some cs) \<and> (role = Passive \<longrightarrow> ae_passive e = Some cs) \<and>
      v = Some (entry_verdict symbol u e))" .
  then show "v \<noteq> None" by auto
qed

text \<open>The arbiter loop: a history of messages, with the verdicts in order.\<close>

fun ca_run :: "BookChecksum list \<Rightarrow> checksum_arbiter \<Rightarrow> arbiter_verdict option list \<times> checksum_arbiter" where
  "ca_run [] ca = ([], ca)"
| "ca_run (m # ms) ca =
     (let (v, ca') = ca_ingest m ca; (vs, ca'') = ca_run ms ca' in (v # vs, ca''))"

lemma ca_new_ok: "ca_with_window w = Some ca \<Longrightarrow> ca_ok [] ca"
  by (auto simp: ca_with_window_def ca_ok_def split: if_splits)

lemma ca_ingest_ok:
  assumes ok: "ca_ok ms ca" and r: "ca_ingest m ca = (v, ca')"
  shows "ca_ok (ms @ [m]) ca'" and "v \<noteq> None"
    and "v \<noteq> Some StaleVerdict \<Longrightarrow>
      (\<exists>e. (from_instance_id (mh_instance_id (bc_header m)) = Active \<longrightarrow> ae_active e = Some (bc_checksum m)) \<and>
         (from_instance_id (mh_instance_id (bc_header m)) = Passive \<longrightarrow> ae_passive e = Some (bc_checksum m)) \<and>
         (\<forall>cs. (ae_active e = Some cs \<longrightarrow> reports (ms @ [m]) Active (bc_symbol m) (bc_update_id m) cs) \<and>
              (ae_passive e = Some cs \<longrightarrow> reports (ms @ [m]) Passive (bc_symbol m) (bc_update_id m) cs)) \<and>
         v = Some (entry_verdict (bc_symbol m) (bc_update_id m) e))"
proof -
  let ?role = "from_instance_id (mh_instance_id (bc_header m))"
  define q where "q = (case map_of (ca_symbols ca) (bc_symbol m) of None \<Rightarrow> [] | Some q \<Rightarrow> q)"
  obtain v' q' where iq: "ingest_queue (ca_window ca) ?role (bc_symbol m) (bc_update_id m) (bc_checksum m) q = (v', q')"
    by (rule prod.exhaust)
  have res: "v = v'" "ca' = ca\<lparr>ca_symbols := AList.update (bc_symbol m) q' (ca_symbols ca)\<rparr>"
    using r iq by (simp_all add: ca_ingest_def q_def)
  have qok: "queue_ok (ca_window ca) ms (bc_symbol m) q"
    using ok by (auto simp: ca_ok_def q_def queue_ok_def split: option.splits)
  have pos: "0 < ca_window ca" using ok by (simp add: ca_ok_def)
  note iok = ingest_queue_ok [OF qok pos refl refl refl refl iq]
  show "ca_ok (ms @ [m]) ca'"
    unfolding ca_ok_def
  proof (intro conjI allI impI)
    fix s qs assume "map_of (ca_symbols ca') s = Some qs"
    then have "s = bc_symbol m \<and> qs = q' \<or> map_of (ca_symbols ca) s = Some qs"
      by (auto simp: res update_conv split: if_splits)
    then show "queue_ok (ca_window ca') (ms @ [m]) s qs"
      using iok(1) ok queue_ok_mono by (auto simp: res ca_ok_def)
  qed (use ok in \<open>simp_all add: res ca_ok_def\<close>)
  show "v \<noteq> None" using iok(2) res by simp
  assume fresh: "v \<noteq> Some StaleVerdict"
  with iok(3) res(1) obtain e where e: "e \<in> set q'" "ae_update_id e = bc_update_id m"
    "?role = Active \<longrightarrow> ae_active e = Some (bc_checksum m)"
    "?role = Passive \<longrightarrow> ae_passive e = Some (bc_checksum m)"
    "v = Some (entry_verdict (bc_symbol m) (bc_update_id m) e)" by blast
  have "\<forall>cs. (ae_active e = Some cs \<longrightarrow> reports (ms @ [m]) Active (bc_symbol m) (bc_update_id m) cs) \<and>
              (ae_passive e = Some cs \<longrightarrow> reports (ms @ [m]) Passive (bc_symbol m) (bc_update_id m) cs)"
    using iok(1) e(1,2) by (auto simp: queue_ok_def)
  with e(3-5) show "\<exists>e. (?role = Active \<longrightarrow> ae_active e = Some (bc_checksum m)) \<and>
         (?role = Passive \<longrightarrow> ae_passive e = Some (bc_checksum m)) \<and>
         (\<forall>cs. (ae_active e = Some cs \<longrightarrow> reports (ms @ [m]) Active (bc_symbol m) (bc_update_id m) cs) \<and>
              (ae_passive e = Some cs \<longrightarrow> reports (ms @ [m]) Passive (bc_symbol m) (bc_update_id m) cs)) \<and>
         v = Some (entry_verdict (bc_symbol m) (bc_update_id m) e)" by blast
qed

text \<open>The verdicts that compare are read off checksums both sides reported.\<close>

lemma ca_ingest_sound:
  assumes "ca_ok ms ca" and "ca_ingest m ca = (v, ca')"
  shows "v = Some (Diverged symbol k a p) \<Longrightarrow>
      a \<noteq> p \<and> reports (ms @ [m]) Active symbol k a \<and> reports (ms @ [m]) Passive symbol k p"
    and "v = Some (Matched symbol k a) \<Longrightarrow>
      reports (ms @ [m]) Active symbol k a \<and> reports (ms @ [m]) Passive symbol k a"
proof -
  note spec = ca_ingest_ok(3) [OF assms]
  { assume v: "v = Some (Diverged symbol k a p)"
    with spec show "a \<noteq> p \<and> reports (ms @ [m]) Active symbol k a \<and> reports (ms @ [m]) Passive symbol k p"
      by (fastforce simp: entry_verdict_def split: option.splits if_splits) }
  { assume v: "v = Some (Matched symbol k a)"
    with spec show "reports (ms @ [m]) Active symbol k a \<and> reports (ms @ [m]) Passive symbol k a"
      by (fastforce simp: entry_verdict_def split: option.splits if_splits) }
qed

definition verdict_backed :: "BookChecksum list \<Rightarrow> arbiter_verdict option \<Rightarrow> bool" where
  "verdict_backed ms v \<longleftrightarrow>
     (case v of
        None \<Rightarrow> False
      | Some (Matched symbol k a) \<Rightarrow> reports ms Active symbol k a \<and> reports ms Passive symbol k a
      | Some (Diverged symbol k a p) \<Rightarrow>
          a \<noteq> p \<and> reports ms Active symbol k a \<and> reports ms Passive symbol k p
      | Some Pending \<Rightarrow> True
      | Some StaleVerdict \<Rightarrow> True)"

lemma reports_append: "reports ms role symbol k cs \<Longrightarrow> reports (ms @ ms') role symbol k cs"
  by (auto simp: reports_def)

lemma verdict_backed_append: "verdict_backed ms v \<Longrightarrow> verdict_backed (ms @ ms') v"
  by (auto simp: verdict_backed_def reports_append split: option.splits arbiter_verdict.splits)

lemma ca_ingest_backed:
  assumes "ca_ok ms ca" and "ca_ingest m ca = (v, ca')"
  shows "verdict_backed (ms @ [m]) v"
proof (cases v)
  case None
  then show ?thesis using ca_ingest_ok(2) [OF assms] by simp
next
  case (Some w)
  then show ?thesis
    using ca_ingest_sound [OF assms]
    by (cases w) (simp_all add: verdict_backed_def)
qed

lemma ca_run_ok:
  "ca_run ms ca = (vs, ca') \<Longrightarrow> ca_ok hist ca \<Longrightarrow>
     ca_ok (hist @ ms) ca' \<and> list_all (verdict_backed (hist @ ms)) vs"
proof (induction ms arbitrary: ca hist vs)
  case (Cons m ms)
  obtain v ca1 where i: "ca_ingest m ca = (v, ca1)" by (rule prod.exhaust)
  obtain vs' ca2 where rr: "ca_run ms ca1 = (vs', ca2)" by (rule prod.exhaust)
  have res: "vs = v # vs'" "ca' = ca2" using Cons.prems(1) i rr by simp_all
  have "ca_ok (hist @ [m]) ca1" by (rule ca_ingest_ok(1) [OF Cons.prems(2) i])
  from Cons.IH [OF rr [folded res(2)] this] 
  have "ca_ok (hist @ m # ms) ca'" "list_all (verdict_backed (hist @ m # ms)) vs'" by simp_all
  moreover have "verdict_backed (hist @ m # ms) v"
    using verdict_backed_append [OF ca_ingest_backed [OF Cons.prems(2) i], of ms] by simp
  ultimately show ?case by (simp add: res)
qed simp

lemma ca_run_window: "ca_window (snd (ca_run ms ca)) = ca_window ca"
  by (induction ms arbitrary: ca) (simp_all add: ca_ingest_def Let_def case_prod_beta)

lemma ca_ok_entries:
  assumes "ca_ok ms ca"
  shows "ca_entry_count ca \<le> ca_symbol_count ca * ca_window ca"
proof -
  have "\<forall>(s, q) \<in> set m. length q \<le> w \<Longrightarrow> sum_list (map (\<lambda>(_, q). length q) m) \<le> length m * w"
    for m :: "(string, arbiter_entry list) hash_map" and w
    by (induction m) auto
  moreover have "length q \<le> ca_window ca" if "(s, q) \<in> set (ca_symbols ca)" for s q
    using assms that by (auto simp: ca_ok_def queue_ok_def hm_wf_def)
  ultimately show ?thesis by (auto simp: ca_entry_count_def ca_symbol_count_def)
qed

end
