(* ===== verification/Config.thy ===== *)
theory Config
  imports Core_Types
begin

text \<open>
  Configuration and sharding: \<open>connector-config/src\<close> (lib.rs, sharding.rs). The loader reads
  files and the environment with a third-party crate and is not modelled; its result is a
  \<open>ConnectorConfig\<close>. None stands
  for a panic: a failed assertion or a remainder by zero.
\<close>

section \<open>Shard of a symbol\<close>

definition FNV32_BASIS :: u32 where "FNV32_BASIS = 2166136261"
definition FNV32_PRIME :: u32 where "FNV32_PRIME = 16777619"

definition fnv32_byte :: "u8 \<Rightarrow> u32 \<Rightarrow> u32" where
  "fnv32_byte b h = (h XOR ucast b) * FNV32_PRIME"

definition shard_for_symbol :: "venue_id \<Rightarrow> market_type \<Rightarrow> string \<Rightarrow> u32 \<Rightarrow> u32 option" where
  "shard_for_symbol venue market symbol total_shards =
     (if total_shards = 0 then None
      else
        let h1 = fnv32_byte (venue_id_u8 venue) FNV32_BASIS;
            h2 = fnv32_byte (market_type_u8 market) h1
        in Some (fold fnv32_byte (str_bytes symbol) h2 mod total_shards))"

section \<open>Configuration\<close>

datatype config_error =
    ConfigLoad string
  | ZeroInstances
  | InvalidInstanceId u32 u32
  | UnknownVenue string
  | UnknownMarket string
  | ZeroShards
  | InsufficientShards u32 u32
  | InvalidMtu u32
  | InvalidTermLength u64

text \<open>The defaults of absent fields (module \<open>defaults\<close>).\<close>

definition dflt_total_logical_shards :: u32 where "dflt_total_logical_shards = 16"
definition dflt_media_driver_dir :: string where "dflt_media_driver_dir = ''/dev/shm/aeron''"
definition dflt_ipc_enabled :: bool where "dflt_ipc_enabled = True"
definition dflt_mtu :: u32 where "dflt_mtu = 1408"
definition dflt_term_length_mib :: u64 where "dflt_term_length_mib = 64"
definition dflt_connect_retry_delay_ms :: u64 where "dflt_connect_retry_delay_ms = 1000"
definition dflt_ping_interval_secs :: u32 where "dflt_ping_interval_secs = 20"
definition dflt_max_streams_per_connection :: u32 where "dflt_max_streams_per_connection = 1024"
definition dflt_reconnect_delay_ms :: u64 where "dflt_reconnect_delay_ms = 500"
definition dflt_forced_reconnect_secs :: u64 where "dflt_forced_reconnect_secs = 86400"
definition dflt_spot_base_url :: string where "dflt_spot_base_url = ''https://api.binance.com''"
definition dflt_futures_base_url :: string where "dflt_futures_base_url = ''https://fapi.binance.com''"
definition dflt_futures_ws_url :: string where "dflt_futures_ws_url = ''wss://fstream.binance.com:443''"
definition dflt_timeout_ms :: u64 where "dflt_timeout_ms = 5000"
definition dflt_max_retries :: u32 where "dflt_max_retries = 3"
definition dflt_open_interest_poll_secs :: u64 where "dflt_open_interest_poll_secs = 60"
definition dflt_max_buffered_events :: u32 where "dflt_max_buffered_events = 2048"
definition dflt_max_buffered_bytes :: u64 where "dflt_max_buffered_bytes = 4 * 1024 * 1024"
definition dflt_max_buffer_age_secs :: u32 where "dflt_max_buffer_age_secs = 10"
definition dflt_max_recovery_attempts :: u32 where "dflt_max_recovery_attempts = 5"
definition dflt_circuit_break_cooldown_secs :: u32 where "dflt_circuit_break_cooldown_secs = 30"
definition dflt_prometheus_port :: u16 where "dflt_prometheus_port = 9090"

text \<open>
  The sections. A field with a serde default reaches the section from the optional value in the
  file: the functions \<open>_read\<close> below put the default in its place.
\<close>

record InstanceConfig =
  ic_id :: u32
  ic_total :: u32
  ic_venue :: string
  ic_market :: string

record ShardingConfig =
  shc_total_logical_shards :: u32

record SymbolConfig =
  syc_universe :: "string list"

record AeronConfig =
  ac_media_driver_dir :: string
  ac_ipc_enabled :: bool
  ac_udp_endpoint :: "string option"
  ac_mtu :: u32
  ac_term_length_mib :: u64
  ac_archive_enabled :: bool
  ac_connect_retry_delay_ms :: u64

record WebSocketConfig =
  wsc_url :: string
  wsc_futures_url :: string
  wsc_api_key :: "string option"
  wsc_ping_interval_secs :: u32
  wsc_max_streams_per_connection :: u32
  wsc_reconnect_delay_ms :: u64
  wsc_forced_reconnect_secs :: u64

record RestConfig =
  rec_spot_base_url :: string
  rec_futures_base_url :: string
  rec_timeout_ms :: u64
  rec_max_retries :: u32
  rec_open_interest_poll_secs :: u64

record RecoveryConfig =
  ryc_max_buffered_events :: u32
  ryc_max_buffered_bytes :: u64
  ryc_max_buffer_age_secs :: u32
  ryc_max_recovery_attempts :: u32
  ryc_circuit_break_cooldown_secs :: u32

record MetricsConfig =
  mtc_prometheus_port :: u16

record ConnectorConfig =
  cc_instance :: InstanceConfig
  cc_sharding :: ShardingConfig
  cc_symbols :: SymbolConfig
  cc_aeron :: AeronConfig
  cc_websocket :: WebSocketConfig
  cc_rest :: RestConfig
  cc_recovery :: RecoveryConfig
  cc_metrics :: MetricsConfig

definition or_default :: "'a \<Rightarrow> 'a option \<Rightarrow> 'a" where
  "or_default d v = (case v of None \<Rightarrow> d | Some x \<Rightarrow> x)"

definition ShardingConfig_read :: "u32 option \<Rightarrow> ShardingConfig" where
  "ShardingConfig_read shards =
     \<lparr>shc_total_logical_shards = or_default dflt_total_logical_shards shards\<rparr>"

definition SymbolConfig_read :: "string list option \<Rightarrow> SymbolConfig" where
  "SymbolConfig_read universe = \<lparr>syc_universe = or_default [] universe\<rparr>"

definition AeronConfig_read ::
  "string option \<Rightarrow> bool option \<Rightarrow> string option \<Rightarrow> u32 option \<Rightarrow> u64 option \<Rightarrow> bool option \<Rightarrow>
   u64 option \<Rightarrow> AeronConfig" where
  "AeronConfig_read dir ipc udp mtu term_len archive retry =
     \<lparr>ac_media_driver_dir = or_default dflt_media_driver_dir dir,
      ac_ipc_enabled = or_default dflt_ipc_enabled ipc, ac_udp_endpoint = udp,
      ac_mtu = or_default dflt_mtu mtu,
      ac_term_length_mib = or_default dflt_term_length_mib term_len,
      ac_archive_enabled = or_default False archive,
      ac_connect_retry_delay_ms = or_default dflt_connect_retry_delay_ms retry\<rparr>"

definition WebSocketConfig_read ::
  "string \<Rightarrow> string option \<Rightarrow> string option \<Rightarrow> u32 option \<Rightarrow> u32 option \<Rightarrow> u64 option \<Rightarrow>
   u64 option \<Rightarrow> WebSocketConfig" where
  "WebSocketConfig_read url futures_url api_key ping streams delay forced =
     \<lparr>wsc_url = url, wsc_futures_url = or_default dflt_futures_ws_url futures_url,
      wsc_api_key = api_key, wsc_ping_interval_secs = or_default dflt_ping_interval_secs ping,
      wsc_max_streams_per_connection = or_default dflt_max_streams_per_connection streams,
      wsc_reconnect_delay_ms = or_default dflt_reconnect_delay_ms delay,
      wsc_forced_reconnect_secs = or_default dflt_forced_reconnect_secs forced\<rparr>"

definition RestConfig_read ::
  "string option \<Rightarrow> string option \<Rightarrow> u64 option \<Rightarrow> u32 option \<Rightarrow> u64 option \<Rightarrow> RestConfig" where
  "RestConfig_read spot futures timeout retries poll =
     \<lparr>rec_spot_base_url = or_default dflt_spot_base_url spot,
      rec_futures_base_url = or_default dflt_futures_base_url futures,
      rec_timeout_ms = or_default dflt_timeout_ms timeout,
      rec_max_retries = or_default dflt_max_retries retries,
      rec_open_interest_poll_secs = or_default dflt_open_interest_poll_secs poll\<rparr>"

definition RecoveryConfig_read ::
  "u32 option \<Rightarrow> u64 option \<Rightarrow> u32 option \<Rightarrow> u32 option \<Rightarrow> u32 option \<Rightarrow> RecoveryConfig" where
  "RecoveryConfig_read events bytes age attempts cooldown =
     \<lparr>ryc_max_buffered_events = or_default dflt_max_buffered_events events,
      ryc_max_buffered_bytes = or_default dflt_max_buffered_bytes bytes,
      ryc_max_buffer_age_secs = or_default dflt_max_buffer_age_secs age,
      ryc_max_recovery_attempts = or_default dflt_max_recovery_attempts attempts,
      ryc_circuit_break_cooldown_secs = or_default dflt_circuit_break_cooldown_secs cooldown\<rparr>"

definition MetricsConfig_read :: "u16 option \<Rightarrow> MetricsConfig" where
  "MetricsConfig_read port = \<lparr>mtc_prometheus_port = or_default dflt_prometheus_port port\<rparr>"

definition cc_venue_id :: "ConnectorConfig \<Rightarrow> config_error + venue_id" where
  "cc_venue_id cfg =
     (let v = ic_venue (cc_instance cfg) in
      if v = ''binance_spot'' then Inr BinanceSpot
      else if v = ''binance_futures'' then Inr BinanceFutures
      else Inl (UnknownVenue v))"

definition cc_market_type :: "ConnectorConfig \<Rightarrow> config_error + market_type" where
  "cc_market_type cfg =
     (let m = ic_market (cc_instance cfg) in
      if m = ''spot'' then Inr Spot
      else if m = ''usdm_futures'' then Inr UsdmFutures
      else Inl (UnknownMarket m))"

text \<open>\<open>a % b\<close> on \<open>u32\<close>.\<close>

definition u32_rem :: "u32 \<Rightarrow> u32 \<Rightarrow> u32 option" where
  "u32_rem a b = (if b = 0 then None else Some (a mod b))"

definition owned_shards :: "ConnectorConfig \<Rightarrow> u32 list option" where
  "owned_shards cfg =
     (let total = shc_total_logical_shards (cc_sharding cfg);
          n = ic_total (cc_instance cfg)
      in if total \<noteq> 0 \<and> n = 0 then None
         else Some (filter (\<lambda>s. u32_rem s n = Some (ic_id (cc_instance cfg)))
                (map word_of_nat [0..<unat total])))"

definition shard_for :: "ConnectorConfig \<Rightarrow> venue_id \<Rightarrow> market_type \<Rightarrow> string \<Rightarrow> u32 option" where
  "shard_for cfg venue market symbol =
     shard_for_symbol venue market symbol (shc_total_logical_shards (cc_sharding cfg))"

definition owns_symbol :: "ConnectorConfig \<Rightarrow> venue_id \<Rightarrow> market_type \<Rightarrow> string \<Rightarrow> bool option" where
  "owns_symbol cfg venue market symbol =
     Option.bind (shard_for cfg venue market symbol) (\<lambda>s.
     map_option (\<lambda>r. r = ic_id (cc_instance cfg)) (u32_rem s (ic_total (cc_instance cfg))))"

fun filter_owned_symbols ::
  "ConnectorConfig \<Rightarrow> venue_id \<Rightarrow> market_type \<Rightarrow> string list \<Rightarrow> string list option" where
  "filter_owned_symbols cfg venue market [] = Some []"
| "filter_owned_symbols cfg venue market (s # symbols) =
     Option.bind (owns_symbol cfg venue market s) (\<lambda>own.
     map_option (\<lambda>rest. if own then s # rest else rest)
       (filter_owned_symbols cfg venue market symbols))"

definition u64_is_power_of_two :: "u64 \<Rightarrow> bool" where
  "u64_is_power_of_two x \<longleftrightarrow> unat x \<in> set (map (\<lambda>k. 2 ^ k) [0..<64])"

definition cc_validate :: "ConnectorConfig \<Rightarrow> config_error + unit" where
  "cc_validate cfg =
     (let inst = cc_instance cfg; shards = shc_total_logical_shards (cc_sharding cfg);
          mtu = ac_mtu (cc_aeron cfg); term_len = ac_term_length_mib (cc_aeron cfg) in
      if ic_total inst = 0 then Inl ZeroInstances
      else if ic_total inst \<le> ic_id inst then Inl (InvalidInstanceId (ic_id inst) (ic_total inst))
      else
        and_then (cc_venue_id cfg) (\<lambda>_.
        and_then (cc_market_type cfg) (\<lambda>_.
        if shards = 0 then Inl ZeroShards
        else if shards < ic_total inst then Inl (InsufficientShards shards (ic_total inst))
        else if \<not> (576 \<le> mtu \<and> mtu \<le> 65535) then Inl (InvalidMtu mtu)
        else if term_len = 0 \<or> \<not> u64_is_power_of_two term_len then Inl (InvalidTermLength term_len)
        else Inr ())))"

text \<open>\<open>load\<close>: what the file and the environment give, then \<open>validate\<close>.\<close>

definition cc_load :: "string + ConnectorConfig \<Rightarrow> config_error + ConnectorConfig" where
  "cc_load read = and_then (map_err ConfigLoad read) (\<lambda>cfg. and_then (cc_validate cfg) (\<lambda>_. Inr cfg))"

lemma cc_load_valid: "cc_load read = Inr cfg \<Longrightarrow> cc_validate cfg = Inr ()"
  by (auto simp: cc_load_def and_then_Inr_iff)

section \<open>Ownership\<close>

lemma cc_validate_ids:
  "cc_validate cfg = Inr () \<Longrightarrow>
   0 < ic_total (cc_instance cfg) \<and> ic_id (cc_instance cfg) < ic_total (cc_instance cfg) \<and>
   0 < shc_total_logical_shards (cc_sharding cfg) \<and>
   ic_total (cc_instance cfg) \<le> shc_total_logical_shards (cc_sharding cfg)"
  by (auto simp: cc_validate_def Let_def and_then_Inr_iff not_le not_less word_gt_0
      split: if_splits)

text \<open>The deployment: the same configuration with every instance id.\<close>

definition with_instance :: "u32 \<Rightarrow> ConnectorConfig \<Rightarrow> ConnectorConfig" where
  "with_instance i cfg = cfg\<lparr>cc_instance := (cc_instance cfg)\<lparr>ic_id := i\<rparr>\<rparr>"

text \<open>The instance that owns a symbol under a validated configuration.\<close>

definition symbol_owner :: "ConnectorConfig \<Rightarrow> venue_id \<Rightarrow> market_type \<Rightarrow> string \<Rightarrow> u32" where
  "symbol_owner cfg venue market symbol =
     the (shard_for cfg venue market symbol) mod ic_total (cc_instance cfg)"

lemma shard_for_less:
  assumes "0 < shc_total_logical_shards (cc_sharding cfg)"
  shows "\<exists>s. shard_for cfg venue market symbol = Some s \<and> s < shc_total_logical_shards (cc_sharding cfg)"
  using assms by (auto simp: shard_for_def shard_for_symbol_def Let_def word_mod_less_divisor)

lemma owns_symbol_owner:
  assumes "0 < shc_total_logical_shards (cc_sharding cfg)" "0 < ic_total (cc_instance cfg)"
  shows "owns_symbol (with_instance i cfg) venue market symbol =
    Some (i = symbol_owner cfg venue market symbol)"
proof -
  obtain s where "shard_for cfg venue market symbol = Some s"
    using shard_for_less [OF assms(1)] by blast
  moreover have "shard_for (with_instance i cfg) venue market symbol = shard_for cfg venue market symbol"
    by (simp add: shard_for_def with_instance_def)
  ultimately show ?thesis
    using assms(2) by (auto simp: owns_symbol_def u32_rem_def symbol_owner_def with_instance_def)
qed

lemma filter_owned_symbols_owner:
  assumes "0 < shc_total_logical_shards (cc_sharding cfg)" "0 < ic_total (cc_instance cfg)"
  shows "filter_owned_symbols (with_instance i cfg) venue market symbols =
    Some (filter (\<lambda>s. i = symbol_owner cfg venue market s) symbols)"
  by (induction symbols) (simp_all add: owns_symbol_owner [OF assms])

lemma owned_shards_eq:
  assumes "0 < ic_total (cc_instance cfg)"
  shows "\<exists>ss. owned_shards (with_instance i cfg) = Some ss \<and>
    set ss = {s. s < shc_total_logical_shards (cc_sharding cfg) \<and> s mod ic_total (cc_instance cfg) = i}"
proof -
  let ?t = "shc_total_logical_shards (cc_sharding cfg)"
  have "s \<in> word_of_nat ` {0..<unat ?t} \<longleftrightarrow> s < ?t" for s
  proof
    assume "s < ?t"
    then have "unat s < unat ?t" by (simp add: word_less_nat_alt)
    then show "s \<in> word_of_nat ` {0..<unat ?t}"
      by (intro image_eqI [of _ _ "unat s"]) simp_all
  qed (auto simp: word_less_nat_alt unat_of_nat intro: le_less_trans [OF mod_less_eq_dividend])
  then show ?thesis
    using assms by (auto simp: owned_shards_def with_instance_def u32_rem_def Let_def)
qed

end
