(* ===== verification/Reconciler.thy ===== *)
theory Reconciler
  imports User_Stream Machine
begin

text \<open>
  REST reconciliation: \<open>order-gateway/src/reconciler.rs\<close>. The raw REST types, the scheduler of
  the reconciliation triggers, and the comparison of the exchange's answers with what the
  gateway tracks. The set of tracked ids is a list, in the order the hash set is iterated.
\<close>

definition DEFAULT_PERIODIC_INTERVAL_NS :: i64 where
  "DEFAULT_PERIODIC_INTERVAL_NS = 60 * 1000000000"

section \<open>REST types\<close>

record RawRestOrder =
  rro_symbol :: string
  rro_order_id :: u64
  rro_client_order_id :: string
  rro_orig_qty :: string
  rro_executed_qty :: string
  rro_status :: string
  rro_time_in_force :: string
  rro_order_type :: string
  rro_side :: string
  rro_created_ms :: i64
  rro_update_time :: i64

record RawRestTrade =
  rrt_symbol :: string
  rrt_id :: u64
  rrt_order_id :: u64
  rrt_price :: string
  rrt_qty :: string
  rrt_time_ms :: i64
  rrt_is_buyer :: bool
  rrt_is_maker :: bool

record RawRestBalance =
  rrb_asset :: string
  rrb_free :: string
  rrb_locked :: string

record RawRestAccount =
  rra_update_time :: i64
  rra_balances :: "RawRestBalance list"

datatype rest_order_status =
    RS_New | RS_PartiallyFilled | RS_Filled | RS_Canceled | RS_PendingCancel
  | RS_Rejected | RS_Expired | RS_ExpiredInMatch | RS_Unknown string

definition rest_status_from_raw :: "string \<Rightarrow> rest_order_status" where
  "rest_status_from_raw s =
     (if s = ''NEW'' then RS_New
      else if s = ''PARTIALLY_FILLED'' then RS_PartiallyFilled
      else if s = ''FILLED'' then RS_Filled
      else if s = ''CANCELED'' then RS_Canceled
      else if s = ''PENDING_CANCEL'' then RS_PendingCancel
      else if s = ''REJECTED'' then RS_Rejected
      else if s = ''EXPIRED'' then RS_Expired
      else if s = ''EXPIRED_IN_MATCH'' then RS_ExpiredInMatch
      else RS_Unknown s)"

definition rest_status_is_live :: "rest_order_status \<Rightarrow> bool" where
  "rest_status_is_live s \<longleftrightarrow> s \<in> {RS_New, RS_PartiallyFilled, RS_PendingCancel}"

definition rest_status_is_terminal :: "rest_order_status \<Rightarrow> bool" where
  "rest_status_is_terminal s \<longleftrightarrow>
     s \<in> {RS_Filled, RS_Canceled, RS_Rejected, RS_Expired, RS_ExpiredInMatch}"

record reconcile_order =
  rco_exchange_id :: u64
  rco_cloid :: "client_order_id option"
  rco_raw_cloid :: string
  rco_symbol :: string
  rco_status :: rest_order_status
  rco_orig_qty :: i64
  rco_executed_qty :: i64
  rco_created_ns :: i64
  rco_updated_ns :: i64

record reconcile_fill =
  rcf_trade_id :: u64
  rcf_exchange_order_id :: u64
  rcf_symbol :: string
  rcf_qty :: i64
  rcf_price :: i64
  rcf_time_ns :: i64

datatype reconcile_action =
    OrderStillLive client_order_id u64
  | UnexpectedOrder reconcile_order
  | OrderVanished client_order_id

section \<open>Scheduler\<close>

datatype reconcile_request = RQ_Startup | RQ_Reconnect | RQ_Periodic

record reconciliation_scheduler =
  rs_periodic_interval_ns :: i64
  rs_startup_pending :: bool
  rs_reconnect_pending :: bool
  rs_next_periodic_ns :: "i64 option"

definition rs_new :: "i64 \<Rightarrow> reconciliation_scheduler" where
  "rs_new periodic_interval_ns =
     \<lparr>rs_periodic_interval_ns = periodic_interval_ns, rs_startup_pending = False,
      rs_reconnect_pending = False, rs_next_periodic_ns = None\<rparr>"

definition rs_on_startup :: "i64 \<Rightarrow> reconciliation_scheduler \<Rightarrow> reconciliation_scheduler" where
  "rs_on_startup now_ns s =
     s\<lparr>rs_startup_pending := True, rs_next_periodic_ns := Some (now_ns + rs_periodic_interval_ns s)\<rparr>"

definition rs_on_reconnect :: "i64 \<Rightarrow> reconciliation_scheduler \<Rightarrow> reconciliation_scheduler" where
  "rs_on_reconnect now_ns s =
     (let s1 = s\<lparr>rs_reconnect_pending := True\<rparr> in
      if rs_next_periodic_ns s1 = None
      then s1\<lparr>rs_next_periodic_ns := Some (now_ns + rs_periodic_interval_ns s1)\<rparr> else s1)"

definition rs_tick :: "i64 \<Rightarrow> reconciliation_scheduler \<Rightarrow> reconcile_request list" where
  "rs_tick now_ns s =
     (if rs_startup_pending s then [RQ_Startup] else []) @
     (if rs_reconnect_pending s then [RQ_Reconnect] else []) @
     (case rs_next_periodic_ns s of
        None \<Rightarrow> []
      | Some due_ns \<Rightarrow> if due_ns \<le> now_ns then [RQ_Periodic] else [])"

definition rs_on_completed ::
  "reconcile_request \<Rightarrow> i64 \<Rightarrow> reconciliation_scheduler \<Rightarrow> reconciliation_scheduler" where
  "rs_on_completed kind now_ns s =
     (case kind of
        RQ_Startup \<Rightarrow> s\<lparr>rs_startup_pending := False\<rparr>
      | RQ_Reconnect \<Rightarrow> s\<lparr>rs_reconnect_pending := False\<rparr>
      | RQ_Periodic \<Rightarrow> s\<lparr>rs_next_periodic_ns := Some (now_ns + rs_periodic_interval_ns s)\<rparr>)"

section \<open>Reconciler\<close>

record reconciler =
  rc_default_price_scale :: i64
  rc_default_qty_scale :: i64
  rc_symbol_scales :: "(string, symbol_scales) hash_map"

definition rc_new :: "i64 \<Rightarrow> i64 \<Rightarrow> reconciler" where
  "rc_new default_price_scale default_qty_scale =
     \<lparr>rc_default_price_scale = default_price_scale, rc_default_qty_scale = default_qty_scale,
      rc_symbol_scales = []\<rparr>"

definition rc_register_symbol :: "string \<Rightarrow> i64 \<Rightarrow> i64 \<Rightarrow> reconciler \<Rightarrow> reconciler" where
  "rc_register_symbol symbol price_scale qty_scale r =
     r\<lparr>rc_symbol_scales := AList.update symbol
         \<lparr>sys_price_scale = price_scale, sys_qty_scale = qty_scale\<rparr> (rc_symbol_scales r)\<rparr>"

definition rc_scales_for :: "string \<Rightarrow> reconciler \<Rightarrow> symbol_scales" where
  "rc_scales_for symbol r =
     (case map_of (rc_symbol_scales r) symbol of
        Some s \<Rightarrow> s
      | None \<Rightarrow> \<lparr>sys_price_scale = rc_default_price_scale r, sys_qty_scale = rc_default_qty_scale r\<rparr>)"

definition normalize_order :: "reconciler \<Rightarrow> RawRestOrder \<Rightarrow> normalizer_error + reconcile_order" where
  "normalize_order r raw =
     (let scales = rc_scales_for (rro_symbol raw) r;
          cand = ClientOrderId (rro_client_order_id raw);
          cloid = (if parse_counter cand \<noteq> None then Some cand else None) in
      and_then (gateway_parse_scaled (rro_orig_qty raw) (sys_qty_scale scales)) (\<lambda>orig_qty.
      and_then (gateway_parse_scaled (rro_executed_qty raw) (sys_qty_scale scales)) (\<lambda>executed_qty.
      Inr \<lparr>rco_exchange_id = rro_order_id raw, rco_cloid = cloid,
           rco_raw_cloid = rro_client_order_id raw, rco_symbol = rro_symbol raw,
           rco_status = rest_status_from_raw (rro_status raw),
           rco_orig_qty = orig_qty, rco_executed_qty = executed_qty,
           rco_created_ns = rro_created_ms raw * 1000000,
           rco_updated_ns = rro_update_time raw * 1000000\<rparr>)))"

text \<open>The loop over the exchange's orders, with the actions and the ids seen so far.\<close>

fun reconcile_loop ::
  "reconciler \<Rightarrow> client_order_id list \<Rightarrow> RawRestOrder list \<Rightarrow>
   reconcile_action list \<Rightarrow> client_order_id set \<Rightarrow>
   normalizer_error + reconcile_action list \<times> client_order_id set" where
  "reconcile_loop r tracked [] actions seen = Inr (actions, seen)"
| "reconcile_loop r tracked (raw # raws) actions seen =
     and_then (normalize_order r raw) (\<lambda>order.
     case rco_cloid order of
       Some cloid \<Rightarrow>
         if cloid \<in> set tracked
         then reconcile_loop r tracked raws
                (actions @ [OrderStillLive cloid (rco_exchange_id order)]) (insert cloid seen)
         else reconcile_loop r tracked raws (actions @ [UnexpectedOrder order]) seen
     | None \<Rightarrow> reconcile_loop r tracked raws (actions @ [UnexpectedOrder order]) seen)"

definition reconcile_open_orders ::
  "reconciler \<Rightarrow> RawRestOrder list \<Rightarrow> client_order_id list \<Rightarrow> normalizer_error + reconcile_action list" where
  "reconcile_open_orders r raw_orders tracked =
     and_then (reconcile_loop r tracked raw_orders [] {}) (\<lambda>(actions, seen).
     Inr (actions @ map OrderVanished (filter (\<lambda>c. c \<notin> seen) tracked)))"

definition parse_fills :: "reconciler \<Rightarrow> RawRestTrade list \<Rightarrow> normalizer_error + (u64 \<times> i64 \<times> i64) list" where
  "parse_fills r raw_trades =
     collect_results (\<lambda>t.
       let scales = rc_scales_for (rrt_symbol t) r in
       and_then (gateway_parse_scaled (rrt_qty t) (sys_qty_scale scales)) (\<lambda>qty.
       and_then (gateway_parse_scaled (rrt_price t) (sys_price_scale scales)) (\<lambda>price.
       Inr (rrt_id t, qty, price)))) raw_trades"

definition reconcile_order_status ::
  "reconciler \<Rightarrow> RawRestOrder \<Rightarrow> RawRestTrade list option \<Rightarrow> normalizer_error + status_check_outcome" where
  "reconcile_order_status r raw_order raw_trades =
     (let exchange_id = rro_order_id raw_order in
      case rest_status_from_raw (rro_status raw_order) of
        RS_New \<Rightarrow> Inr (SC_Live exchange_id)
      | RS_PartiallyFilled \<Rightarrow> Inr (SC_Live exchange_id)
      | RS_PendingCancel \<Rightarrow> Inr (SC_Live exchange_id)
      | RS_Filled \<Rightarrow>
          and_then (case raw_trades of Some trades \<Rightarrow> parse_fills r trades | None \<Rightarrow> Inr []) (\<lambda>fills.
          Inr (SC_Filled exchange_id fills))
      | RS_Canceled \<Rightarrow> Inr (SC_Cancelled exchange_id)
      | RS_Rejected \<Rightarrow> Inr (SC_Rejected ''order rejected by exchange (reason unavailable from REST)'')
      | RS_Expired \<Rightarrow> Inr (SC_Expired exchange_id)
      | RS_ExpiredInMatch \<Rightarrow> Inr (SC_Expired exchange_id)
      | RS_Unknown s \<Rightarrow> Inr (SC_Error (''unrecognised REST order status: '' @ s)))"

definition reconcile_account :: "RawRestAccount \<Rightarrow> normalizer_error + asset_balance list" where
  "reconcile_account raw =
     collect_results (\<lambda>b.
       and_then (gateway_parse_scaled (rrb_free b) BALANCE_SCALE) (\<lambda>free_scaled.
       and_then (gateway_parse_scaled (rrb_locked b) BALANCE_SCALE) (\<lambda>locked_scaled.
       Inr \<lparr>ab_asset = rrb_asset b, ab_free_scaled = free_scaled, ab_locked_scaled = locked_scaled\<rparr>)))
       (rra_balances raw)"

definition reconcile_trades :: "reconciler \<Rightarrow> RawRestTrade list \<Rightarrow> normalizer_error + reconcile_fill list" where
  "reconcile_trades r raw_trades =
     collect_results (\<lambda>t.
       let scales = rc_scales_for (rrt_symbol t) r in
       and_then (gateway_parse_scaled (rrt_qty t) (sys_qty_scale scales)) (\<lambda>qty.
       and_then (gateway_parse_scaled (rrt_price t) (sys_price_scale scales)) (\<lambda>price.
       Inr \<lparr>rcf_trade_id = rrt_id t, rcf_exchange_order_id = rrt_order_id t,
            rcf_symbol = rrt_symbol t, rcf_qty = qty, rcf_price = price,
            rcf_time_ns = rrt_time_ms t * 1000000\<rparr>))) raw_trades"

section \<open>What the open-order comparison returns\<close>

text \<open>The action for one order of the exchange.\<close>

definition order_action :: "client_order_id list \<Rightarrow> reconcile_order \<Rightarrow> reconcile_action" where
  "order_action tracked order =
     (case rco_cloid order of
        Some cloid \<Rightarrow> if cloid \<in> set tracked then OrderStillLive cloid (rco_exchange_id order)
                      else UnexpectedOrder order
      | None \<Rightarrow> UnexpectedOrder order)"

definition known_cloids :: "client_order_id list \<Rightarrow> reconcile_order list \<Rightarrow> client_order_id set" where
  "known_cloids tracked orders = {c \<in> set tracked. \<exists>x \<in> set orders. rco_cloid x = Some c}"

lemma known_cloids_Cons:
  "known_cloids tracked (x # orders) =
     (case rco_cloid x of
        Some c \<Rightarrow> if c \<in> set tracked then insert c (known_cloids tracked orders) else known_cloids tracked orders
      | None \<Rightarrow> known_cloids tracked orders)"
  by (auto simp: known_cloids_def split: option.splits)

lemma reconcile_loop_eq:
  "reconcile_loop r tracked raws actions seen =
     and_then (collect_results (normalize_order r) raws) (\<lambda>orders.
     Inr (actions @ map (order_action tracked) orders, seen \<union> known_cloids tracked orders))"
proof (induction raws arbitrary: actions seen)
  case Nil
  then show ?case by (simp add: known_cloids_def)
next
  case (Cons raw raws)
  show ?case
  proof (cases "normalize_order r raw")
    case (Inr x)
    then show ?thesis
      by (cases "collect_results (normalize_order r) raws")
        (auto simp: Cons.IH order_action_def known_cloids_Cons split: option.splits)
  qed simp
qed

lemma reconcile_open_orders_eq:
  "reconcile_open_orders r raws tracked =
     and_then (collect_results (normalize_order r) raws) (\<lambda>orders.
     Inr (map (order_action tracked) orders @
       map OrderVanished (filter (\<lambda>c. c \<notin> known_cloids tracked orders) tracked)))"
  by (cases "collect_results (normalize_order r) raws")
    (simp_all add: reconcile_open_orders_def reconcile_loop_eq)

lemma collect_results_all2:
  "collect_results f xs = Inr ys \<longleftrightarrow> list_all2 (\<lambda>x y. f x = Inr y) xs ys"
  by (induction xs arbitrary: ys) (auto simp: and_then_Inr_iff list_all2_Cons1)

text \<open>An order of the exchange carries the id \<open>c\<close> of ours exactly when the raw text is that id.\<close>

lemma normalize_order_cloid:
  "normalize_order r raw = Inr x \<Longrightarrow> parse_counter c \<noteq> None \<Longrightarrow>
   rco_cloid x = Some c \<longleftrightarrow> rro_client_order_id raw = cloid_str c"
  by (cases c) (auto simp: normalize_order_def Let_def and_then_Inr_iff split: if_splits)

lemma reconcile_complete:
  assumes "reconcile_open_orders r raws tracked = Inr actions"
    and "c \<in> set tracked" "parse_counter c \<noteq> None"
  shows "OrderVanished c \<in> set actions \<longleftrightarrow> cloid_str c \<notin> rro_client_order_id ` set raws"
    and "OrderStillLive c x \<in> set actions \<longleftrightarrow>
      (\<exists>raw \<in> set raws. rro_client_order_id raw = cloid_str c \<and> rro_order_id raw = x)"
proof -
  obtain orders where o': "list_all2 (\<lambda>x y. normalize_order r x = Inr y) raws orders"
    and a: "actions = map (order_action tracked) orders @
      map OrderVanished (filter (\<lambda>c. c \<notin> known_cloids tracked orders) tracked)"
    using assms(1) by (auto simp: reconcile_open_orders_eq and_then_Inr_iff collect_results_all2)
  have ids: "(\<exists>x \<in> set orders. rco_cloid x = Some c \<and> P (rco_exchange_id x)) \<longleftrightarrow>
      (\<exists>raw \<in> set raws. rro_client_order_id raw = cloid_str c \<and> P (rro_order_id raw))" for P
    using o'
  proof (induction rule: list_all2_induct)
    case (Cons raw raws x orders)
    then have "rco_exchange_id x = rro_order_id raw"
      by (auto simp: normalize_order_def Let_def and_then_Inr_iff)
    with Cons normalize_order_cloid [OF _ assms(3), of r raw x] show ?case by auto
  qed simp
  have "OrderVanished c \<in> set actions \<longleftrightarrow> c \<notin> known_cloids tracked orders"
    using assms(2) by (auto simp: a order_action_def split: option.splits if_splits)
  also have "\<dots> \<longleftrightarrow> cloid_str c \<notin> rro_client_order_id ` set raws"
    using ids [of "\<lambda>_. True"] assms(2)
    by (simp add: known_cloids_def image_iff eq_commute [of "cloid_str c"])
  finally show "OrderVanished c \<in> set actions \<longleftrightarrow> cloid_str c \<notin> rro_client_order_id ` set raws" .
  have "OrderStillLive c x \<in> set actions \<longleftrightarrow>
      (\<exists>y \<in> set orders. rco_cloid y = Some c \<and> rco_exchange_id y = x)"
    using assms(2) by (auto simp: a order_action_def split: option.splits if_splits)
      (auto simp: image_iff split: option.splits intro: rev_bexI)
  then show "OrderStillLive c x \<in> set actions \<longleftrightarrow>
      (\<exists>raw \<in> set raws. rro_client_order_id raw = cloid_str c \<and> rro_order_id raw = x)"
    using ids [of "\<lambda>y. y = x"] by simp
qed

end
