(* ===== verification/Operations_Properties.thy ===== *)
theory Operations_Properties
  imports Arbiter Config Reconciler Machine_Gateway
begin

text \<open>
  The properties of the parts that run around feed and gateway: reconciliation with the exchange
  over REST, back-pressure on publications, the split of the symbols among the instances, and the
  cross-instance checksum arbiter.
\<close>

section \<open>Reconciliation\<close>

text \<open>C19: For the ids the gateway generates, the open-order comparison is complete and exact: a
  tracked order is reported vanished exactly when the exchange no longer lists its id, and still
  live, with the exchange's id, exactly when it does.\<close>

theorem open_orders_reconciled:
  assumes "reconcile_open_orders r raws (map (format_cloid inst) counters) = Inr actions"
    and "k \<in> set counters"
  shows "(OrderVanished (format_cloid inst k) \<in> set actions \<longleftrightarrow>
      cloid_str (format_cloid inst k) \<notin> rro_client_order_id ` set raws) \<and>
    (OrderStillLive (format_cloid inst k) x \<in> set actions \<longleftrightarrow>
      (\<exists>raw \<in> set raws. rro_client_order_id raw = cloid_str (format_cloid inst k) \<and> rro_order_id raw = x))"
  using reconcile_complete [OF assms(1), of "format_cloid inst k"] assms(2) by simp

theorem open_orders_reconciled_witness:
  "OrderVanished (format_cloid 1 5) \<in> set (projr (reconcile_open_orders (rc_new 100 100) [] [format_cloid 1 5]))"
  using open_orders_reconciled [of "rc_new 100 100" "[]" 1 "[5]" "[OrderVanished (format_cloid 1 5)]" 5]
  by (simp add: reconcile_open_orders_def)

text \<open>A reconnect stays due at every tick, through periodic and start-up runs that complete
  meanwhile, until a reconnect reconciliation is reported completed.\<close>

theorem reconnect_due_until_completed:
  assumes "RQ_Reconnect \<notin> fst ` set runs"
  shows "RQ_Reconnect \<in> set (rs_tick t (fold (\<lambda>(kind, at). rs_on_completed kind at) runs (rs_on_reconnect now s))) \<and>
    RQ_Reconnect \<notin> set (rs_tick t (rs_on_completed RQ_Reconnect t'
      (fold (\<lambda>(kind, at). rs_on_completed kind at) runs (rs_on_reconnect now s))))"
proof -
  have "rs_reconnect_pending (fold (\<lambda>(kind, at). rs_on_completed kind at) runs s') = rs_reconnect_pending s'"
    if "RQ_Reconnect \<notin> fst ` set runs" for runs s'
    using that by (induction runs arbitrary: s')
      (auto simp: rs_on_completed_def split: reconcile_request.splits)
  from this [OF assms] show ?thesis
    by (auto simp: rs_tick_def rs_on_reconnect_def rs_on_completed_def Let_def split: option.splits)
qed

theorem reconnect_due_until_completed_witness:
  "rs_tick 10 (rs_on_completed RQ_Startup 5 (rs_on_reconnect 0 (rs_on_startup 0 (rs_new 100)))) = [RQ_Reconnect]"
proof -
  let ?s = "rs_on_completed RQ_Startup 5 (rs_on_reconnect 0 (rs_on_startup 0 (rs_new 100)))"
  have "RQ_Reconnect \<in> set (rs_tick 10 ?s)"
    using reconnect_due_until_completed [of "[(RQ_Startup, 5)]" 10 0 "rs_on_startup 0 (rs_new 100)" 0] by simp
  moreover have "rs_tick 10 ?s = [RQ_Reconnect] \<or> rs_tick 10 ?s = []"
    by (simp add: rs_tick_def rs_on_reconnect_def rs_on_completed_def rs_on_startup_def rs_new_def
        Let_def less_eq_i64_def i64_val_def plus_i64_def numeral_i64 zero_i64_def)
  ultimately show ?thesis by auto
qed

text \<open>A filled order whose trades were not fetched closes without a fill: the outcome the
  reconciler derives moves the order state machine to Filled while the actions for the gateway
  hold the acknowledgement and the buffered fills alone.\<close>

theorem filled_without_trades:
  assumes "rest_status_from_raw (rro_status raw) = RS_Filled" "sm_status sm = SM_UnknownStatus"
  shows "\<exists>outcome actions sm'. reconcile_order_status r raw None = Inr outcome \<and>
    process_input (StatusCheckResult outcome t) sm = (actions, sm') \<and>
    sm_status sm' = SM_Filled \<and> fills_of actions = fills_of (fst (sm_flush sm))"
  using assms
  by (simp add: reconcile_order_status_def process_input_def process_unknown_def
      resolve_from_check_def Let_def case_prod_beta)

theorem filled_without_trades_witness:
  "\<exists>outcome actions sm'.
     reconcile_order_status (rc_new 100 100)
       \<lparr>rro_symbol = ''BTCUSDT'', rro_order_id = 77, rro_client_order_id = ''cc'', rro_orig_qty = ''1'',
        rro_executed_qty = ''1'', rro_status = ''FILLED'', rro_time_in_force = ''GTC'',
        rro_order_type = ''LIMIT'', rro_side = ''BUY'', rro_created_ms = 0, rro_update_time = 0\<rparr> None = Inr outcome \<and>
     process_input (StatusCheckResult outcome 0)
       ((OrderSm_new (format_cloid 1 5) 10 0)\<lparr>sm_status := SM_UnknownStatus\<rparr>) = (actions, sm') \<and>
     sm_status sm' = SM_Filled \<and> fills_of actions = []"
  using filled_without_trades [of "\<lparr>rro_symbol = ''BTCUSDT'', rro_order_id = 77, rro_client_order_id = ''cc'',
      rro_orig_qty = ''1'', rro_executed_qty = ''1'', rro_status = ''FILLED'', rro_time_in_force = ''GTC'',
      rro_order_type = ''LIMIT'', rro_side = ''BUY'', rro_created_ms = 0, rro_update_time = 0\<rparr>"
      "(OrderSm_new (format_cloid 1 5) 10 0)\<lparr>sm_status := SM_UnknownStatus\<rparr>" "rc_new 100 100" 0]
  by (simp add: rest_status_from_raw_def OrderSm_new_def sm_flush_def)

section \<open>Back-pressure\<close>

text \<open>C35: What a congested offer is answered depends only on how long the unbroken congestion has
  lasted: after any history of answers the guard compares the time since the first retryable
  answer of the current streak with the three thresholds, and an accepted offer starts afresh.\<close>

theorem backpressure_escalation:
  assumes "offer_should_retry r"
  shows "fst (bg_on_result r t (bg_run history (bg_with_thresholds warn degrade restart))) =
    (let elapsed = i64_saturating_sub t
           (case congested_since history None of None \<Rightarrow> t | Some since \<Rightarrow> since)
     in if restart \<le> elapsed then OutRestart
        else if degrade \<le> elapsed then OutDegrade
        else if warn \<le> elapsed then OutWarned else OutRetrying) \<and>
    congested_since (history @ [(OfferOk pos, t)]) None = None"
proof -
  have "congested_since (history @ [(OfferOk pos, t)]) start = None" for start
    by (induction history arbitrary: start) (auto simp: offer_should_retry_def)
  then show ?thesis
    using bg_run_state [of history "bg_with_thresholds warn degrade restart"]
    by (simp add: bg_on_result_outcome [OF assms] Let_def bg_policy_def bg_with_thresholds_def)
qed

theorem backpressure_escalation_witness:
  "fst (bg_on_result BackPressured 1500
     (bg_run [(BackPressured, 100), (OfferOk 7, 200), (AdminAction, 300)] (bg_with_thresholds 100 1000 10000))) =
   OutDegrade"
proof -
  have v: "i64_saturating_sub 1500 300 = (1200 :: i64)" by (simp add: i64_saturating_sub_def eval_simps)
  have le: "\<not> (10000 :: i64) \<le> 1200" "(1000 :: i64) \<le> 1200" by (simp_all add: eval_simps)
  show ?thesis using backpressure_escalation [of BackPressured 1500
      "[(BackPressured, 100), (OfferOk 7, 200), (AdminAction, 300)]" 100 1000 10000 0]
    by (simp add: offer_should_retry_def Let_def v le)
qed

section \<open>Sharding\<close>

text \<open>C16: Under a loaded configuration every symbol is owned by exactly one instance id below
  the instance count, no ownership question panics, the owner holds the symbol's shard, and the
  instances' shares of a symbol list are what the owner function selects.\<close>

theorem symbol_owned_once:
  assumes "cc_load read = Inr cfg"
  shows "\<exists>i < ic_total (cc_instance cfg).
    (\<forall>j. owns_symbol (with_instance j cfg) venue market symbol = Some (j = i)) \<and>
    (\<exists>shards s. owned_shards (with_instance i cfg) = Some shards \<and>
       shard_for cfg venue market symbol = Some s \<and> s \<in> set shards) \<and>
    (\<forall>j. symbol \<in> set symbols \<longrightarrow>
       (\<exists>mine. filter_owned_symbols (with_instance j cfg) venue market symbols = Some mine \<and>
          (symbol \<in> set mine \<longleftrightarrow> j = i)))"
proof (intro exI [of _ "symbol_owner cfg venue market symbol"] conjI allI impI)
  let ?i = "symbol_owner cfg venue market symbol"
  note ids = cc_validate_ids [OF cc_load_valid [OF assms]]
  obtain s where s: "shard_for cfg venue market symbol = Some s" "s < shc_total_logical_shards (cc_sharding cfg)"
    using shard_for_less ids by blast
  show "?i < ic_total (cc_instance cfg)" using ids by (simp add: symbol_owner_def word_mod_less_divisor)
  show "owns_symbol (with_instance j cfg) venue market symbol = Some (j = ?i)" for j
    by (rule owns_symbol_owner) (use ids in simp_all)
  show "\<exists>shards s. owned_shards (with_instance ?i cfg) = Some shards \<and>
       shard_for cfg venue market symbol = Some s \<and> s \<in> set shards"
    using owned_shards_eq [of cfg ?i] ids s by (auto simp: symbol_owner_def)
  show "\<exists>mine. filter_owned_symbols (with_instance j cfg) venue market symbols = Some mine \<and>
          (symbol \<in> set mine \<longleftrightarrow> j = ?i)" if "symbol \<in> set symbols" for j
    using filter_owned_symbols_owner [of cfg j venue market symbols] ids that by auto
qed

definition sample_config :: ConnectorConfig where
  "sample_config =
     \<lparr>cc_instance = \<lparr>ic_id = 1, ic_total = 3, ic_venue = ''binance_spot'', ic_market = ''spot''\<rparr>,
      cc_sharding = ShardingConfig_read None, cc_symbols = SymbolConfig_read None,
      cc_aeron = AeronConfig_read None None None None None None None,
      cc_websocket = WebSocketConfig_read [] None None None None None None,
      cc_rest = RestConfig_read None None None None None,
      cc_recovery = RecoveryConfig_read None None None None None,
      cc_metrics = MetricsConfig_read None\<rparr>"

theorem symbol_owned_once_witness:
  "\<exists>i < 3. owns_symbol (with_instance i sample_config) BinanceSpot Spot ''BTCUSDT'' = Some True"
proof -
  have p: "u64_is_power_of_two 64" by (simp add: u64_is_power_of_two_def upt_rec)
  have "cc_load (Inr sample_config) = Inr sample_config"
    by (simp add: cc_load_def cc_validate_def sample_config_def cc_venue_id_def cc_market_type_def
        Let_def p word_le_nat_alt ShardingConfig_read_def AeronConfig_read_def or_default_def
        dflt_total_logical_shards_def dflt_mtu_def dflt_term_length_mib_def)
  from symbol_owned_once [OF this, of BinanceSpot Spot "''BTCUSDT''" "[]"]
  obtain i where "i < ic_total (cc_instance sample_config)"
    "\<forall>j. owns_symbol (with_instance j sample_config) BinanceSpot Spot ''BTCUSDT'' = Some (j = i)" by blast
  then show ?thesis by (intro exI [of _ i]) (simp add: sample_config_def)
qed

section \<open>Checksum arbiter\<close>

text \<open>The arbiter never panics, and every comparing verdict is backed by the messages: a match
  or a divergence for an update of a symbol is reported only when both sides sent those checksums
  for it, and a divergence only for different ones. Each symbol keeps at most a window of entries.\<close>

theorem arbiter_verdicts_backed:
  assumes "ca_with_window window = Some ca" "ca_run ms ca = (verdicts, ca')"
  shows "list_all (verdict_backed ms) verdicts \<and> None \<notin> set verdicts \<and>
    ca_entry_count ca' \<le> ca_symbol_count ca' * window"
proof -
  have ok: "ca_ok ms ca'" "list_all (verdict_backed ms) verdicts"
    using ca_run_ok [OF assms(2) ca_new_ok [OF assms(1)]] by simp_all
  have "ca_window ca' = window"
    using assms ca_run_window [of ms ca] by (auto simp: ca_with_window_def split: if_splits)
  with ca_ok_entries [OF ok(1)] ok(2) show ?thesis
    by (auto simp: list_all_iff verdict_backed_def)
qed

definition sample_checksum :: "u32 \<Rightarrow> u64 \<Rightarrow> u64 \<Rightarrow> BookChecksum" where
  "sample_checksum instance update_id checksum =
     \<lparr>bc_header = \<lparr>mh_schema_version = 1, mh_message_type = MT_BookChecksum,
        mh_venue_id = BinanceSpot, mh_market_type = Spot, mh_instrument_id = 1,
        mh_connection_id = 0, mh_instance_id = instance, mh_sequence_number = 0,
        mh_exchange_event_ts = 0, mh_exchange_tx_ts = 0, mh_local_recv_ts = 0,
        mh_local_publish_ts = 0\<rparr>,
      bc_symbol = ''BTCUSDT'', bc_update_id = update_id, bc_bid_depth = 1, bc_ask_depth = 1,
      bc_checksum = checksum\<rparr>"

definition sample_arbiter :: checksum_arbiter where
  "sample_arbiter = \<lparr>ca_window = 64, ca_symbols = []\<rparr>"

lemmas arbiter_eval = ca_ingest_def ingest_queue_def record_checksum_def entry_verdict_def
  sample_checksum_def sample_arbiter_def from_instance_id_def Let_def

lemma sample_arbiter_new: "ca_with_window 64 = Some sample_arbiter"
  by (simp add: ca_with_window_def sample_arbiter_def)

theorem arbiter_verdicts_backed_witness:
  "verdict_backed [sample_checksum 0 5 10, sample_checksum 1 5 11] (Some (Diverged ''BTCUSDT'' 5 10 11))"
  using arbiter_verdicts_backed [OF sample_arbiter_new,
      of "[sample_checksum 0 5 10, sample_checksum 1 5 11]" "[Some Pending, Some (Diverged ''BTCUSDT'' 5 10 11)]"]
  by (simp add: arbiter_eval)

text \<open>C15: No false alarm: when all checksum messages were made from well-formed books, and books of
  one symbol at one update id have the same levels, no history makes the arbiter report a
  divergence.\<close>

theorem healthy_instances_never_diverge:
  assumes "ca_with_window window = Some ca"
    and "ca_run (map (\<lambda>(b, h). checksum_message b h) books) ca = (verdicts, ca')"
    and "\<forall>(b, h) \<in> set books. book_wf b"
    and "\<forall>(b, h) \<in> set books. \<forall>(b', h') \<in> set books.
      ob_symbol b = ob_symbol b' \<and> ob_last_update_id b = ob_last_update_id b' \<longrightarrow>
      map_of (ob_bids b) = map_of (ob_bids b') \<and> map_of (ob_asks b) = map_of (ob_asks b')"
  shows "Some (Diverged symbol k a p) \<notin> set verdicts"
proof
  let ?ms = "map (\<lambda>(b, h). checksum_message b h) books"
  assume "Some (Diverged symbol k a p) \<in> set verdicts"
  then have "verdict_backed ?ms (Some (Diverged symbol k a p))"
    using ca_run_ok [OF assms(2) ca_new_ok [OF assms(1)]] by (simp add: list_all_iff)
  then have "a \<noteq> p" "reports ?ms Active symbol k a" "reports ?ms Passive symbol k p"
    by (simp_all add: verdict_backed_def)
  then obtain b h b' h' where b: "(b, h) \<in> set books" "(b', h') \<in> set books"
    "ob_symbol b = ob_symbol b'" "ob_last_update_id b = ob_last_update_id b'"
    "book_checksum b = a" "book_checksum b' = p"
    by (auto simp: reports_def checksum_message_def)
  then have "book_wf b" "book_wf b'" "map_of (ob_bids b) = map_of (ob_bids b')"
    "map_of (ob_asks b) = map_of (ob_asks b')" using assms(3,4) by fast+
  with b \<open>a \<noteq> p\<close> show False using checksum_same_content [of b b'] by simp
qed

theorem healthy_instances_never_diverge_witness:
  "Some (Diverged ''X'' 0 1 2) \<notin> set (fst (ca_run
     [checksum_message (OrderBook_new ''X'') (bc_header (sample_checksum 0 0 0)),
      checksum_message (OrderBook_new ''X'') (bc_header (sample_checksum 1 0 0))] sample_arbiter))"
  using healthy_instances_never_diverge [OF sample_arbiter_new,
      of "[(OrderBook_new ''X'', bc_header (sample_checksum 0 0 0)),
        (OrderBook_new ''X'', bc_header (sample_checksum 1 0 0))]" _ _ "''X''" 0 1 2]
  by (simp add: prod_eq_iff)

text \<open>A checksum that arrives for an update below the first one received for its symbol is
  stale from both sides, although no entry was ever evicted: a divergence at that update goes
  unnoticed.\<close>

theorem reordered_divergence_missed:
  assumes "ca_with_window window = Some ca"
    and "bc_symbol m = bc_symbol m0" "bc_symbol m' = bc_symbol m0"
    and "bc_update_id m < bc_update_id m0" "bc_update_id m' = bc_update_id m"
  shows "fst (ca_run [m0, m, m'] ca) = [Some Pending, Some StaleVerdict, Some StaleVerdict]"
proof -
  let ?role = "from_instance_id (mh_instance_id (bc_header m0))"
  let ?e = "record_checksum ?role (bc_checksum m0)
    \<lparr>ae_update_id = bc_update_id m0, ae_active = None, ae_passive = None\<rparr>"
  let ?ca1 = "\<lparr>ca_window = window, ca_symbols = [(bc_symbol m0, [?e])]\<rparr>"
  have ca: "ca = \<lparr>ca_window = window, ca_symbols = []\<rparr>" "0 < window"
    using assms(1) by (auto simp: ca_with_window_def split: if_splits)
  have "ca_ingest m0 ca = (Some Pending, ?ca1)"
    using ca(2) by (cases ?role) (simp_all add: ca(1) ca_ingest_def ingest_queue_def
      record_checksum_def entry_verdict_def Let_def)
  moreover have "ca_ingest n ?ca1 = (Some StaleVerdict, ?ca1)"
    if "bc_symbol n = bc_symbol m0" "bc_update_id n < bc_update_id m0" for n
    using that by (simp add: ca_ingest_def ingest_queue_def Let_def)
  ultimately show ?thesis using assms(2-5) by simp
qed

theorem reordered_divergence_missed_witness:
  "fst (ca_run [sample_checksum 0 6 1, sample_checksum 0 5 10, sample_checksum 1 5 11] sample_arbiter) =
     [Some Pending, Some StaleVerdict, Some StaleVerdict]"
  by (rule reordered_divergence_missed [OF sample_arbiter_new]) (simp_all add: sample_checksum_def)

end
