(* ===== verification/Refdata.thy ===== *)
theory Refdata
  imports Decimal Normalized_Message Publication Config
begin

text \<open>
  Reference data: \<open>crates/refdata/src\<close> (error.rs, normalizer.rs, event.rs, registry.rs,
  publisher.rs, and the calls of lib.rs and open_interest.rs around the REST client). The JSON
  reader and the HTTP client are third-party: their answers are arguments, as is the clock.
\<close>

datatype 'h refdata_error =
    RD_Http 'h
  | RD_Json string
  | RD_MissingFilter string string
  | RD_InvalidNumeric string string
  | RD_Panic

section \<open>Exchange information\<close>

record RawFilter =
  rfl_filter_type :: string
  rfl_tick_size :: "string option"
  rfl_step_size :: "string option"
  rfl_min_qty :: "string option"
  rfl_min_notional :: "string option"
  rfl_notional :: "string option"

record SymbolInfo =
  sin_symbol :: string
  sin_status :: string
  sin_base_asset :: string
  sin_quote_asset :: string
  sin_filters :: "RawFilter list"

definition derive_scale :: "string \<Rightarrow> u32" where
  "derive_scale s =
     (let dot = length (takeWhile (\<lambda>c. c \<noteq> CHR ''.'') s) in
      if dot < length s then word_of_nat (length s - dot - 1) else 0)"

text \<open>\<open>truncate(scale)\<close> and the loop that pads by bytes; None is the panic inside a character.\<close>

definition refdata_fraction :: "nat \<Rightarrow> string \<Rightarrow> string option" where
  "refdata_fraction n frac_str =
     (if length frac_str \<le> n then Some (frac_str @ replicate (n - length frac_str) CHR ''0'')
      else str_slice_to n frac_str)"

definition refdata_parse_scaled :: "string \<Rightarrow> u32 \<Rightarrow> 'h refdata_error + i64" where
  "refdata_parse_scaled text scale =
     (let s = str_trim text; (int_str, frac_str) = split_dot s; n = unat scale;
          err = (\<lambda>_. RD_InvalidNumeric s ''numeric'') in
      and_then (map_err err (parse_i64 int_str)) (\<lambda>int_part.
      and_then (case refdata_fraction n frac_str of
                  None \<Rightarrow> Inl RD_Panic
                | Some frac \<Rightarrow> if frac = [] then Inr 0 else map_err err (parse_i64 frac)) (\<lambda>frac_part.
      Inr (int_part * 10 ^ n + frac_part))))"

definition symbol_instrument_id :: "string \<Rightarrow> u32" where
  "symbol_instrument_id symbol = fold fnv32_byte (str_bytes symbol) FNV32_BASIS"

definition refdata_make_header ::
  "i64 \<Rightarrow> message_type \<Rightarrow> venue_id \<Rightarrow> market_type \<Rightarrow> u32 \<Rightarrow> u32 \<Rightarrow> u64 \<Rightarrow> message_header" where
  "refdata_make_header ts message_type venue_id market_type instrument_id instance_id seq =
     \<lparr>mh_schema_version = SCHEMA_VERSION, mh_message_type = message_type, mh_venue_id = venue_id,
      mh_market_type = market_type, mh_instrument_id = instrument_id, mh_connection_id = 0,
      mh_instance_id = instance_id, mh_sequence_number = seq, mh_exchange_event_ts = TS_NONE,
      mh_exchange_tx_ts = TS_NONE, mh_local_recv_ts = ts, mh_local_publish_ts = ts\<rparr>"

definition str_or :: "string option \<Rightarrow> string \<Rightarrow> string" where
  "str_or v d = (case v of None \<Rightarrow> d | Some x \<Rightarrow> x)"

definition filter_field :: "(RawFilter \<Rightarrow> string option) \<Rightarrow> RawFilter option \<Rightarrow> string option" where
  "filter_field field f = Option.bind f field"

definition normalize_symbol ::
  "i64 \<Rightarrow> SymbolInfo \<Rightarrow> venue_id \<Rightarrow> market_type \<Rightarrow> u32 \<Rightarrow> u64 \<Rightarrow> 'h refdata_error + InstrumentDefinition" where
  "normalize_symbol ts info venue_id market_type instance_id seq =
     (let price_filter = List.find (\<lambda>f. rfl_filter_type f = ''PRICE_FILTER'') (sin_filters info);
          lot_filter = List.find (\<lambda>f. rfl_filter_type f = ''LOT_SIZE'') (sin_filters info);
          notional_filter = List.find (\<lambda>f. rfl_filter_type f = ''NOTIONAL'' \<or>
            rfl_filter_type f = ''MIN_NOTIONAL'') (sin_filters info);
          tick_size_str = str_or (filter_field rfl_tick_size price_filter) ''0.00000001'';
          step_size_str = str_or (filter_field rfl_step_size lot_filter) ''0.00000001'';
          min_qty_str = str_or (filter_field rfl_min_qty lot_filter) ''0'';
          min_notional_str = str_or (filter_field
            (\<lambda>f. case rfl_min_notional f of None \<Rightarrow> rfl_notional f | Some v \<Rightarrow> Some v) notional_filter) ''0'';
          price_scale = derive_scale tick_size_str;
          qty_scale = derive_scale step_size_str in
      and_then (refdata_parse_scaled tick_size_str price_scale) (\<lambda>tick_size.
      and_then (refdata_parse_scaled step_size_str qty_scale) (\<lambda>step_size.
      and_then (refdata_parse_scaled min_qty_str qty_scale) (\<lambda>min_qty.
      and_then (refdata_parse_scaled min_notional_str price_scale) (\<lambda>min_notional.
      Inr \<lparr>id_header = refdata_make_header ts MT_InstrumentDefinition venue_id market_type
             (symbol_instrument_id (sin_symbol info)) instance_id seq,
           id_symbol = sin_symbol info, id_base_asset = sin_base_asset info,
           id_quote_asset = sin_quote_asset info, id_price_scale = price_scale,
           id_qty_scale = qty_scale, id_tick_size = tick_size, id_step_size = step_size,
           id_min_qty = min_qty, id_min_notional = min_notional,
           id_contract_size = (case market_type of UsdmFutures \<Rightarrow> 1 | Spot \<Rightarrow> 0),
           id_is_trading = (sin_status info = ''TRADING'')\<rparr>)))))"

text \<open>The loop of \<open>parse_exchange_info\<close> over the symbols; \<open>clock\<close> is read once per symbol.\<close>

fun normalize_symbols ::
  "i64 list \<Rightarrow> SymbolInfo list \<Rightarrow> venue_id \<Rightarrow> market_type \<Rightarrow> u32 \<Rightarrow> u64 \<Rightarrow>
   'h refdata_error + InstrumentDefinition list" where
  "normalize_symbols clock [] venue_id market_type instance_id seq = Inr []"
| "normalize_symbols clock (info # infos) venue_id market_type instance_id seq =
     and_then (normalize_symbol (case clock of [] \<Rightarrow> 0 | ts # _ \<Rightarrow> ts) info venue_id market_type instance_id seq) (\<lambda>def.
     and_then (normalize_symbols (tl clock) infos venue_id market_type instance_id (seq + 1)) (\<lambda>defs.
     Inr (def # defs)))"

definition parse_exchange_info ::
  "(u8 list \<Rightarrow> string + SymbolInfo list) \<Rightarrow> i64 list \<Rightarrow> u8 list \<Rightarrow> venue_id \<Rightarrow> market_type \<Rightarrow> u32 \<Rightarrow>
   u64 \<Rightarrow> 'h refdata_error + InstrumentDefinition list" where
  "parse_exchange_info json clock bytes venue_id market_type instance_id first_seq =
     and_then (map_err RD_Json (json bytes)) (\<lambda>symbols.
     normalize_symbols clock symbols venue_id market_type instance_id first_seq)"

definition exchange_info_path :: "venue_id \<Rightarrow> market_type \<Rightarrow> string" where
  "exchange_info_path venue_id market_type =
     (case (venue_id, market_type) of
        (BinanceSpot, Spot) \<Rightarrow> ''/api/v3/exchangeInfo''
      | (BinanceFutures, UsdmFutures) \<Rightarrow> ''/fapi/v1/exchangeInfo''
      | _ \<Rightarrow> ''/api/v3/exchangeInfo'')"

section \<open>Open interest and depth snapshots\<close>

record OpenInterestResponse =
  oir_symbol :: string
  oir_open_interest :: string
  oir_time_ms :: i64

definition normalize_open_interest ::
  "i64 \<Rightarrow> OpenInterestResponse \<Rightarrow> InstrumentDefinition \<Rightarrow> u64 \<Rightarrow> 'h refdata_error + OpenInterest" where
  "normalize_open_interest ts resp inst seq =
     and_then (refdata_parse_scaled (oir_open_interest resp) (id_qty_scale inst)) (\<lambda>open_interest.
     Inr \<lparr>oi_header =
            \<lparr>mh_schema_version = SCHEMA_VERSION, mh_message_type = MT_OpenInterest,
             mh_venue_id = mh_venue_id (id_header inst), mh_market_type = mh_market_type (id_header inst),
             mh_instrument_id = mh_instrument_id (id_header inst), mh_connection_id = 0,
             mh_instance_id = mh_instance_id (id_header inst), mh_sequence_number = seq,
             mh_exchange_event_ts = oir_time_ms resp * 1000000, mh_exchange_tx_ts = TS_NONE,
             mh_local_recv_ts = ts, mh_local_publish_ts = ts\<rparr>,
          oi_symbol = id_symbol inst, oi_qty_scale = ucast (id_qty_scale inst),
          oi_open_interest = open_interest\<rparr>)"

record DepthSnapshotResponse =
  dsr_last_update_id :: u64
  dsr_bids :: "(string \<times> string) list"
  dsr_asks :: "(string \<times> string) list"

definition parse_price_levels ::
  "(string \<times> string) list \<Rightarrow> u32 \<Rightarrow> u32 \<Rightarrow> 'h refdata_error + price_level list" where
  "parse_price_levels levels price_scale qty_scale =
     collect_results (\<lambda>(price_str, qty_str).
       and_then (refdata_parse_scaled price_str price_scale) (\<lambda>price.
       and_then (refdata_parse_scaled qty_str qty_scale) (\<lambda>qty.
       Inr \<lparr>pl_price = price, pl_qty = qty\<rparr>))) levels"

definition parse_depth_snapshot ::
  "(u8 list \<Rightarrow> string + DepthSnapshotResponse) \<Rightarrow> u8 list \<Rightarrow> InstrumentDefinition \<Rightarrow> i64 \<Rightarrow>
   'h refdata_error + BookSnapshot" where
  "parse_depth_snapshot json bytes inst recv_ts =
     and_then (map_err RD_Json (json bytes)) (\<lambda>resp.
     and_then (parse_price_levels (dsr_bids resp) (id_price_scale inst) (id_qty_scale inst)) (\<lambda>bids.
     and_then (parse_price_levels (dsr_asks resp) (id_price_scale inst) (id_qty_scale inst)) (\<lambda>asks.
     Inr \<lparr>bs_header =
            \<lparr>mh_schema_version = SCHEMA_VERSION, mh_message_type = MT_BookSnapshot,
             mh_venue_id = mh_venue_id (id_header inst), mh_market_type = mh_market_type (id_header inst),
             mh_instrument_id = mh_instrument_id (id_header inst), mh_connection_id = 0,
             mh_instance_id = mh_instance_id (id_header inst), mh_sequence_number = 0,
             mh_exchange_event_ts = TS_NONE, mh_exchange_tx_ts = TS_NONE,
             mh_local_recv_ts = recv_ts, mh_local_publish_ts = recv_ts\<rparr>,
          bs_symbol = id_symbol inst, bs_price_scale = ucast (id_price_scale inst),
          bs_qty_scale = ucast (id_qty_scale inst), bs_update_id = dsr_last_update_id resp,
          bs_bids = bids, bs_asks = asks\<rparr>)))"

section \<open>Events and registry\<close>

datatype refdata_event =
    RE_Added InstrumentDefinition TradingStatus
  | RE_Updated InstrumentDefinition InstrumentDefinition "TradingStatus option"

fun re_definition :: "refdata_event \<Rightarrow> InstrumentDefinition" where
  "re_definition (RE_Added def _) = def"
| "re_definition (RE_Updated _ new _) = new"

fun re_trading_status :: "refdata_event \<Rightarrow> TradingStatus option" where
  "re_trading_status (RE_Added _ status) = Some status"
| "re_trading_status (RE_Updated _ _ status) = status"

fun re_is_added :: "refdata_event \<Rightarrow> bool" where
  "re_is_added (RE_Added _ _) = True"
| "re_is_added (RE_Updated _ _ _) = False"

fun re_is_updated :: "refdata_event \<Rightarrow> bool" where
  "re_is_updated (RE_Added _ _) = False"
| "re_is_updated (RE_Updated _ _ _) = True"

fun re_trading_changed :: "refdata_event \<Rightarrow> bool" where
  "re_trading_changed (RE_Added _ _) = True"
| "re_trading_changed (RE_Updated old new _) = (id_is_trading old \<noteq> id_is_trading new)"

definition make_trading_status :: "InstrumentDefinition \<Rightarrow> u64 \<Rightarrow> TradingStatus" where
  "make_trading_status def seq =
     \<lparr>ts_header =
        \<lparr>mh_schema_version = SCHEMA_VERSION, mh_message_type = MT_TradingStatus,
         mh_venue_id = mh_venue_id (id_header def), mh_market_type = mh_market_type (id_header def),
         mh_instrument_id = mh_instrument_id (id_header def), mh_connection_id = 0,
         mh_instance_id = mh_instance_id (id_header def), mh_sequence_number = seq,
         mh_exchange_event_ts = TS_NONE, mh_exchange_tx_ts = TS_NONE,
         mh_local_recv_ts = TS_NONE, mh_local_publish_ts = TS_NONE\<rparr>,
      ts_symbol = id_symbol def, ts_is_trading = id_is_trading def\<rparr>"

definition business_fields_differ :: "InstrumentDefinition \<Rightarrow> InstrumentDefinition \<Rightarrow> bool" where
  "business_fields_differ a b \<longleftrightarrow>
     id_base_asset a \<noteq> id_base_asset b \<or> id_quote_asset a \<noteq> id_quote_asset b \<or>
     id_price_scale a \<noteq> id_price_scale b \<or> id_qty_scale a \<noteq> id_qty_scale b \<or>
     id_tick_size a \<noteq> id_tick_size b \<or> id_step_size a \<noteq> id_step_size b \<or>
     id_min_qty a \<noteq> id_min_qty b \<or> id_min_notional a \<noteq> id_min_notional b \<or>
     id_contract_size a \<noteq> id_contract_size b \<or> id_is_trading a \<noteq> id_is_trading b"

record instrument_registry =
  ir_instruments :: "(string, InstrumentDefinition) hash_map"
  ir_next_seq :: u64

definition ir_new :: instrument_registry where
  "ir_new = \<lparr>ir_instruments = [], ir_next_seq = 0\<rparr>"

definition ir_upsert ::
  "InstrumentDefinition \<Rightarrow> instrument_registry \<Rightarrow> refdata_event option \<times> instrument_registry" where
  "ir_upsert def r =
     (let seq = ir_next_seq r; r1 = r\<lparr>ir_next_seq := seq + 1\<rparr>;
          stored = r1\<lparr>ir_instruments := AList.update (id_symbol def) def (ir_instruments r1)\<rparr> in
      case map_of (ir_instruments r1) (id_symbol def) of
        None \<Rightarrow> (Some (RE_Added def (make_trading_status def seq)), stored)
      | Some prev \<Rightarrow>
          if business_fields_differ prev def then
            (Some (RE_Updated prev def
               (if id_is_trading prev \<noteq> id_is_trading def then Some (make_trading_status def seq)
                else None)), stored)
          else (None, r1))"

fun ir_apply_batch ::
  "InstrumentDefinition list \<Rightarrow> instrument_registry \<Rightarrow> refdata_event list \<times> instrument_registry" where
  "ir_apply_batch [] r = ([], r)"
| "ir_apply_batch (def # defs) r =
     (let (ev, r1) = ir_upsert def r; (evs, r2) = ir_apply_batch defs r1 in
      ((case ev of None \<Rightarrow> evs | Some e \<Rightarrow> e # evs), r2))"

definition ir_get :: "string \<Rightarrow> instrument_registry \<Rightarrow> InstrumentDefinition option" where
  "ir_get symbol r = map_of (ir_instruments r) symbol"

definition ir_len :: "instrument_registry \<Rightarrow> nat" where
  "ir_len r = length (ir_instruments r)"

definition ir_is_empty :: "instrument_registry \<Rightarrow> bool" where
  "ir_is_empty r \<longleftrightarrow> ir_instruments r = []"

section \<open>Publisher\<close>

datatype refdata_publish_error = RP_Encode core_error | RP_Aeron publisher_error

record 'p refdata_publisher =
  rp_publisher :: "'p sharded_publisher"
  rp_buf :: "u8 list"

definition rp_new :: "'p sharded_publisher \<Rightarrow> 'p refdata_publisher" where
  "rp_new publisher = \<lparr>rp_publisher = publisher, rp_buf = replicate 4096 0\<rparr>"

text \<open>One encoded message to one shard; the answer of the publication is not looked at.\<close>

definition rp_offer_encoded ::
  "'p offer \<Rightarrow> u32 \<Rightarrow> (u8 list \<Rightarrow> (core_error + nat) \<times> u8 list) \<Rightarrow> 'p refdata_publisher \<Rightarrow>
   (refdata_publish_error + unit) \<times> 'p refdata_publisher" where
  "rp_offer_encoded offer shard_id encode p =
     (case encode (rp_buf p) of
        (Inl e, buf) \<Rightarrow> (Inl (RP_Encode e), p\<lparr>rp_buf := buf\<rparr>)
      | (Inr n, buf) \<Rightarrow>
          let (r, sp) = sp_offer offer shard_id (take n buf) (rp_publisher p);
              p' = \<lparr>rp_publisher = sp, rp_buf = buf\<rparr> in
          (case r of Inl e \<Rightarrow> (Inl (RP_Aeron e), p') | Inr _ \<Rightarrow> (Inr (), p')))"

definition rp_offer_to_shard ::
  "'p offer \<Rightarrow> u32 \<Rightarrow> refdata_event \<Rightarrow> 'p refdata_publisher \<Rightarrow>
   (refdata_publish_error + u32) \<times> 'p refdata_publisher" where
  "rp_offer_to_shard offer shard_id event p =
     (case rp_offer_encoded offer shard_id (InstrumentDefinition_encode_into (re_definition event)) p of
        (Inl e, p1) \<Rightarrow> (Inl e, p1)
      | (Inr _, p1) \<Rightarrow>
          (case re_trading_status event of
             None \<Rightarrow> (Inr 1, p1)
           | Some ts \<Rightarrow>
               (case rp_offer_encoded offer shard_id (TradingStatus_encode_into ts) p1 of
                  (Inl e, p2) \<Rightarrow> (Inl e, p2)
                | (Inr _, p2) \<Rightarrow> (Inr 2, p2))))"

fun rp_broadcast_to ::
  "'p offer \<Rightarrow> u32 list \<Rightarrow> refdata_event \<Rightarrow> u32 \<Rightarrow> 'p refdata_publisher \<Rightarrow>
   (refdata_publish_error + u32) \<times> 'p refdata_publisher" where
  "rp_broadcast_to offer [] event sent p = (Inr sent, p)"
| "rp_broadcast_to offer (shard_id # shard_ids) event sent p =
     (case rp_offer_to_shard offer shard_id event p of
        (Inl e, p1) \<Rightarrow> (Inl e, p1)
      | (Inr n, p1) \<Rightarrow> rp_broadcast_to offer shard_ids event (sent + n) p1)"

definition rp_broadcast ::
  "'p offer \<Rightarrow> refdata_event \<Rightarrow> 'p refdata_publisher \<Rightarrow>
   (refdata_publish_error + u32) \<times> 'p refdata_publisher" where
  "rp_broadcast offer event p = rp_broadcast_to offer (sp_shard_ids (rp_publisher p)) event 0 p"

definition rp_shard_count :: "'p refdata_publisher \<Rightarrow> nat" where
  "rp_shard_count p = sp_shard_count (rp_publisher p)"

section \<open>Service and poller\<close>

record refdata_service =
  rds_registry :: instrument_registry
  rds_venue_id :: venue_id
  rds_market_type :: market_type
  rds_instance_id :: u32
  rds_next_seq :: u64

definition rds_new :: "venue_id \<Rightarrow> market_type \<Rightarrow> u32 \<Rightarrow> refdata_service" where
  "rds_new venue_id market_type instance_id =
     \<lparr>rds_registry = ir_new, rds_venue_id = venue_id, rds_market_type = market_type,
      rds_instance_id = instance_id, rds_next_seq = 0\<rparr>"

text \<open>\<open>refresh\<close>: \<open>fetch\<close> is the body of the answer or the HTTP error.\<close>

definition rds_refresh ::
  "(u8 list \<Rightarrow> string + SymbolInfo list) \<Rightarrow> i64 list \<Rightarrow> 'h + u8 list \<Rightarrow> refdata_service \<Rightarrow>
   ('h refdata_error + refdata_event list) \<times> refdata_service" where
  "rds_refresh json clock fetch s =
     (case and_then (map_err RD_Http fetch) (\<lambda>bytes.
        parse_exchange_info json clock bytes (rds_venue_id s) (rds_market_type s) (rds_instance_id s)
          (rds_next_seq s)) of
        Inl e \<Rightarrow> (Inl e, s)
      | Inr defs \<Rightarrow>
          let (events, registry) = ir_apply_batch defs (rds_registry s) in
          (Inr events, s\<lparr>rds_next_seq := rds_next_seq s + word_of_nat (length defs),
             rds_registry := registry\<rparr>))"

text \<open>The run loop over the ticks' answers: a failed refresh is logged and skipped, except the first.\<close>

fun rds_ticks ::
  "(u8 list \<Rightarrow> string + SymbolInfo list) \<Rightarrow> (i64 list \<times> ('h + u8 list)) list \<Rightarrow> refdata_service \<Rightarrow>
   refdata_event list \<times> refdata_service" where
  "rds_ticks json [] s = ([], s)"
| "rds_ticks json ((clock, fetch) # ticks) s =
     (let (r, s1) = rds_refresh json clock fetch s; (evs, s2) = rds_ticks json ticks s1 in
      ((case r of Inl _ \<Rightarrow> evs | Inr events \<Rightarrow> events @ evs), s2))"

definition rds_run ::
  "(u8 list \<Rightarrow> string + SymbolInfo list) \<Rightarrow> i64 list \<times> ('h + u8 list) \<Rightarrow>
   (i64 list \<times> ('h + u8 list)) list \<Rightarrow> refdata_service \<Rightarrow>
   ('h refdata_error + refdata_event list) \<times> refdata_service" where
  "rds_run json first ticks s =
     (case rds_refresh json (fst first) (snd first) s of
        (Inl e, s1) \<Rightarrow> (Inl e, s1)
      | (Inr events, s1) \<Rightarrow>
          let (evs, s2) = rds_ticks json ticks s1 in (Inr (events @ evs), s2))"

text \<open>\<open>poll_all\<close>, with the symbols paired with the answers of the REST client.\<close>

fun oi_poll_all ::
  "(InstrumentDefinition \<times> i64 \<times> ('h refdata_error + OpenInterestResponse)) list \<Rightarrow> u64 \<Rightarrow>
   OpenInterest list \<times> u64" where
  "oi_poll_all [] seq = ([], seq)"
| "oi_poll_all ((inst, ts, answer) # rest) seq =
     (case and_then answer (\<lambda>resp. normalize_open_interest ts resp inst seq) of
        Inl _ \<Rightarrow> oi_poll_all rest seq
      | Inr msg \<Rightarrow> let (msgs, seq') = oi_poll_all rest (seq + 1) in (msg # msgs, seq'))"

end
