(* ===== verification/Refdata_Properties.thy ===== *)
theory Refdata_Properties
  imports Refdata Order_Book Feed_Properties
begin

text \<open>
  The properties of the reference data: exact tick sizes, the event stream as a mirror of the
  registry, the order of the messages per shard, and a REST depth snapshot as the book's content.
\<close>

section \<open>Decimals of the filters\<close>

lemma refdata_fraction_digits:
  "all_digits f \<Longrightarrow> refdata_fraction n f = Some (take n (f @ replicate (n - length f) CHR ''0''))"
  by (auto simp: refdata_fraction_def str_slice_to_digits)

lemma refdata_parse_scaled_decimal:
  assumes "all_digits i" "i \<noteq> []" "all_digits f" "digits_val i < 2 ^ 63" "unat n \<le> 18"
  shows "refdata_parse_scaled (i @ CHR ''.'' # f) n =
      Inr (i64_of_int (int (decimal_scaled i f (unat n))))"
proof (cases "unat n = 0")
  case True
  have "take 0 (f @ replicate (0 - length f) CHR ''0'') = []" by simp
  then show ?thesis
    using digits_val_less [OF assms(3)]
    by (simp add: refdata_parse_scaled_def str_trim_plain all_digits_plain assms(1,3)
        split_dot_digits(1) [OF assms(1)] parse_i64_small [OF assms(1,2,4)] True
        refdata_fraction_digits decimal_scaled_split)
next
  case False
  have ne: "take (unat n) (f @ replicate (unat n - length f) CHR ''0'') \<noteq> []"
    using False by (cases f) auto
  show ?thesis
    using padded_fraction(2) [OF assms(3,5)] False ne scaled_sum [of i "unat n" f]
    by (simp add: refdata_parse_scaled_def str_trim_plain all_digits_plain assms(1,3)
        split_dot_digits(1) [OF assms(1)] parse_i64_small [OF assms(1,2,4)]
        refdata_fraction_digits Let_def del: take_append take_eq_Nil)
qed

lemma derive_scale_decimal:
  assumes "all_digits i"
  shows "derive_scale (i @ CHR ''.'' # f) = word_of_nat (length f)"
proof -
  have "takeWhile (\<lambda>c. c \<noteq> CHR ''.'') (i @ CHR ''.'' # f) = i"
    using split_dot_digits(1) [OF assms, of f] by (simp add: split_dot_def)
  then show ?thesis by (simp add: derive_scale_def Let_def)
qed

lemma decimal_scaled_own: "decimal_scaled i f (length f) = digits_val (i @ f)"
  by (simp add: decimal_scaled_def)

section \<open>Registry and events\<close>

text \<open>What a consumer of the events knows: the definitions and the trading flags sent to it.\<close>

definition mirror_event ::
  "refdata_event \<Rightarrow> (string \<rightharpoonup> InstrumentDefinition) \<times> (string \<rightharpoonup> bool) \<Rightarrow>
   (string \<rightharpoonup> InstrumentDefinition) \<times> (string \<rightharpoonup> bool)" where
  "mirror_event ev = (\<lambda>(defs, trading).
     (defs(id_symbol (re_definition ev) \<mapsto> re_definition ev),
      case re_trading_status ev of
        None \<Rightarrow> trading
      | Some ts \<Rightarrow> trading(ts_symbol ts \<mapsto> ts_is_trading ts)))"

definition mirrors ::
  "(string \<rightharpoonup> InstrumentDefinition) \<times> (string \<rightharpoonup> bool) \<Rightarrow> instrument_registry \<Rightarrow> bool" where
  "mirrors m r \<longleftrightarrow> (\<forall>s. fst m s = ir_get s r) \<and>
     (\<forall>s. snd m s = map_option id_is_trading (ir_get s r)) \<and>
     (\<forall>s d. ir_get s r = Some d \<longrightarrow> id_symbol d = s)"

lemma mirrors_new: "mirrors (Map.empty, Map.empty) ir_new"
  by (simp add: mirrors_def ir_new_def ir_get_def)

lemma mirrors_upsert:
  assumes "mirrors m r" "ir_upsert def r = (ev, r')"
  shows "mirrors (case ev of None \<Rightarrow> m | Some e \<Rightarrow> mirror_event e m) r'"
proof -
  obtain defs trading where m: "m = (defs, trading)" by (cases m)
  show ?thesis
  proof (cases "ir_get (id_symbol def) r")
    case None
    then show ?thesis
      using assms
      by (auto simp: mirrors_def ir_upsert_def ir_get_def Let_def mirror_event_def m update_conv
          make_trading_status_def split: if_splits)
  next
    case (Some prev)
    then have "id_symbol prev = id_symbol def" using assms(1) by (auto simp: mirrors_def)
    with Some show ?thesis
      using assms
      by (auto simp: mirrors_def ir_upsert_def ir_get_def Let_def mirror_event_def m update_conv
          make_trading_status_def split: if_splits)
  qed
qed

lemma mirrors_batch:
  "mirrors m r \<Longrightarrow> ir_apply_batch defs r = (evs, r') \<Longrightarrow> mirrors (fold mirror_event evs m) r'"
proof (induction defs arbitrary: m r evs)
  case (Cons def defs)
  obtain ev r1 where u: "ir_upsert def r = (ev, r1)" by (rule prod.exhaust)
  obtain evs' r2 where b: "ir_apply_batch defs r1 = (evs', r2)" by (rule prod.exhaust)
  have res: "evs = (case ev of None \<Rightarrow> evs' | Some e \<Rightarrow> e # evs')" "r' = r2"
    using Cons.prems(2) u b by simp_all
  have "mirrors (fold mirror_event evs' (case ev of None \<Rightarrow> m | Some e \<Rightarrow> mirror_event e m)) r'"
    using Cons.IH [OF mirrors_upsert [OF Cons.prems(1) u] b [folded res(2)]] .
  then show ?case by (cases ev) (simp_all add: res(1))
qed simp

lemma mirrors_ticks:
  "mirrors m (rds_registry s) \<Longrightarrow> rds_ticks json ticks s = (evs, s') \<Longrightarrow>
   mirrors (fold mirror_event evs m) (rds_registry s')"
proof (induction ticks arbitrary: m s evs)
  case (Cons t ticks)
  obtain clock fetch where t: "t = (clock, fetch)" by (cases t)
  obtain r s1 where u: "rds_refresh json clock fetch s = (r, s1)" by (rule prod.exhaust)
  obtain evs' s2 where b: "rds_ticks json ticks s1 = (evs', s2)" by (rule prod.exhaust)
  have res: "evs = (case r of Inl _ \<Rightarrow> evs' | Inr events \<Rightarrow> events @ evs')" "s' = s2"
    using Cons.prems(2) u b by (simp_all add: t)
  have one: "mirrors (case r of Inl _ \<Rightarrow> m | Inr events \<Rightarrow> fold mirror_event events m) (rds_registry s1)"
    using u Cons.prems(1) mirrors_batch [OF Cons.prems(1)]
    by (auto simp: rds_refresh_def Let_def split: sum.splits prod.splits)
  from Cons.IH [OF one b [folded res(2)]] show ?case by (cases r) (simp_all add: res)
qed simp

section \<open>Broadcast\<close>

text \<open>A publication that keeps what it is offered, newest last, and answers as \<open>answer\<close> says.\<close>

definition log_offer :: "offer_result \<Rightarrow> u8 list list offer" where
  "log_offer answer bytes log = (answer, log @ [bytes])"

definition event_ok :: "refdata_event \<Rightarrow> bool" where
  "event_ok ev \<longleftrightarrow> nm_ok (NM_InstrumentDefinition (re_definition ev)) \<and>
     length (nm_wire (NM_InstrumentDefinition (re_definition ev))) \<le> 4096 \<and>
     (\<forall>ts. re_trading_status ev = Some ts \<longrightarrow>
        nm_ok (NM_TradingStatus ts) \<and> length (nm_wire (NM_TradingStatus ts)) \<le> 4096)"

text \<open>The messages of an event in their order.\<close>

definition event_messages :: "refdata_event \<Rightarrow> normalized_message list" where
  "event_messages ev = NM_InstrumentDefinition (re_definition ev) #
     (case re_trading_status ev of None \<Rightarrow> [] | Some ts \<Rightarrow> [NM_TradingStatus ts])"

lemma rp_offer_encoded_log:
  assumes "nm_ok m" "length (nm_wire m) \<le> length (rp_buf p)"
    and "map_of (sp_shards (rp_publisher p)) shard = Some log"
    and enc: "encode = nm_encode_into m"
  shows "\<exists>buf. rp_offer_encoded (log_offer answer) shard encode p =
    (Inr (), \<lparr>rp_publisher = \<lparr>sp_shards = AList.update shard (log @ [nm_wire m]) (sp_shards (rp_publisher p))\<rparr>,
       rp_buf = buf\<rparr>) \<and> length buf = length (rp_buf p)"
  using nm_encode_wire [OF assms(1,2)] assms(2,3)
  by (simp add: rp_offer_encoded_def enc sp_offer_def log_offer_def)

lemma rp_offer_to_shard_log:
  assumes "event_ok ev" "length (rp_buf p) = 4096"
    and "map_of (sp_shards (rp_publisher p)) shard = Some log"
  shows "\<exists>p'. rp_offer_to_shard (log_offer answer) shard ev p =
      (Inr (word_of_nat (length (event_messages ev))), p') \<and> length (rp_buf p') = 4096 \<and>
    map fst (sp_shards (rp_publisher p')) = map fst (sp_shards (rp_publisher p)) \<and>
    map_of (sp_shards (rp_publisher p')) =
      (map_of (sp_shards (rp_publisher p))) (shard \<mapsto> log @ map nm_wire (event_messages ev))"
proof -
  let ?d = "NM_InstrumentDefinition (re_definition ev)"
  have keys: "map fst (AList.update shard x m) = map fst m" if "map_of m shard = Some l"
    for x l and m :: "(u32, u8 list list) hash_map"
    using that by (auto simp: update_keys dest: map_of_SomeD intro: rev_image_eqI)
  have enc: "InstrumentDefinition_encode_into d = nm_encode_into (NM_InstrumentDefinition d)"
    "TradingStatus_encode_into ts = nm_encode_into (NM_TradingStatus ts)" for d ts
    by (rule ext, simp)+
  obtain buf where one: "rp_offer_encoded (log_offer answer) shard (InstrumentDefinition_encode_into (re_definition ev)) p =
      (Inr (), \<lparr>rp_publisher = \<lparr>sp_shards = AList.update shard (log @ [nm_wire ?d]) (sp_shards (rp_publisher p))\<rparr>,
        rp_buf = buf\<rparr>)" "length buf = 4096"
    using rp_offer_encoded_log [OF _ _ assms(3) enc(1), of "re_definition ev" answer] assms(1,2)
    by (auto simp: event_ok_def simp del: nm_wire.simps nm_ok.simps)
  let ?p1 = "\<lparr>rp_publisher = \<lparr>sp_shards = AList.update shard (log @ [nm_wire ?d]) (sp_shards (rp_publisher p))\<rparr>,
        rp_buf = buf\<rparr>"
  show ?thesis
  proof (cases "re_trading_status ev")
    case None
    then show ?thesis
      using one keys [OF assms(3)]
      by (simp add: rp_offer_to_shard_def event_messages_def update_conv' del: nm_wire.simps)
  next
    case (Some ts)
    obtain buf2 where two: "rp_offer_encoded (log_offer answer) shard (TradingStatus_encode_into ts) ?p1 =
        (Inr (), \<lparr>rp_publisher = \<lparr>sp_shards = AList.update shard (log @ [nm_wire ?d, nm_wire (NM_TradingStatus ts)])
          (AList.update shard (log @ [nm_wire ?d]) (sp_shards (rp_publisher p)))\<rparr>,
        rp_buf = buf2\<rparr>)" "length buf2 = 4096"
      using rp_offer_encoded_log [OF _ _ _ enc(2), of ts ?p1 shard "log @ [nm_wire ?d]" answer]
        assms(1) one(2) Some
      by (auto simp: event_ok_def update_conv' simp del: nm_wire.simps nm_ok.simps)
    have "map_of (AList.update shard (log @ [nm_wire ?d]) (sp_shards (rp_publisher p))) shard =
        Some (log @ [nm_wire ?d])" by (simp add: update_conv)
    from keys [OF this] keys [OF assms(3)] show ?thesis
      using one two Some
      by (simp add: rp_offer_to_shard_def event_messages_def update_conv' del: nm_wire.simps)
  qed
qed

lemma rp_broadcast_to_log:
  assumes ok: "event_ok ev"
  shows "distinct ids \<Longrightarrow> length (rp_buf p) = 4096 \<Longrightarrow>
    set ids \<subseteq> set (map fst (sp_shards (rp_publisher p))) \<Longrightarrow>
    \<exists>p'. rp_broadcast_to (log_offer answer) ids ev sent p =
      (Inr (sent + word_of_nat (length ids * length (event_messages ev))), p') \<and>
    map_of (sp_shards (rp_publisher p')) =
      (\<lambda>shard. if shard \<in> set ids
        then map_option (\<lambda>log. log @ map nm_wire (event_messages ev)) (map_of (sp_shards (rp_publisher p)) shard)
        else map_of (sp_shards (rp_publisher p)) shard)"
proof (induction ids arbitrary: p sent)
  case (Cons k ids)
  obtain log where k: "map_of (sp_shards (rp_publisher p)) k = Some log"
    using Cons.prems(3) by (metis list.set_intros(1) map_of_eq_None_iff not_None_eq set_map subsetD)
  from rp_offer_to_shard_log [OF ok Cons.prems(2) k, of answer] obtain p1 where
    p1: "rp_offer_to_shard (log_offer answer) k ev p = (Inr (word_of_nat (length (event_messages ev))), p1)"
      "length (rp_buf p1) = 4096" "map fst (sp_shards (rp_publisher p1)) = map fst (sp_shards (rp_publisher p))"
      "map_of (sp_shards (rp_publisher p1)) =
        (map_of (sp_shards (rp_publisher p))) (k \<mapsto> log @ map nm_wire (event_messages ev))" by blast
  have "distinct ids" "set ids \<subseteq> set (map fst (sp_shards (rp_publisher p1)))"
    using Cons.prems(1,3) p1(3) by (simp_all only: distinct.simps list.simps insert_subset)
  from Cons.IH [OF this(1) p1(2) this(2), of "sent + word_of_nat (length (event_messages ev))"]
  obtain p2 where p2: "rp_broadcast_to (log_offer answer) ids ev (sent + word_of_nat (length (event_messages ev))) p1 =
      (Inr (sent + word_of_nat (length (event_messages ev)) +
        word_of_nat (length ids * length (event_messages ev))), p2)"
    "map_of (sp_shards (rp_publisher p2)) = (\<lambda>shard. if shard \<in> set ids
      then map_option (\<lambda>log. log @ map nm_wire (event_messages ev)) (map_of (sp_shards (rp_publisher p1)) shard)
      else map_of (sp_shards (rp_publisher p1)) shard)" by blast
  have "rp_broadcast_to (log_offer answer) (k # ids) ev sent p =
      (Inr (sent + word_of_nat (length (k # ids) * length (event_messages ev))), p2)"
    by (simp add: p1(1) p2(1) add.assoc)
  moreover have "map_of (sp_shards (rp_publisher p2)) = (\<lambda>shard. if shard \<in> set (k # ids)
      then map_option (\<lambda>log. log @ map nm_wire (event_messages ev)) (map_of (sp_shards (rp_publisher p)) shard)
      else map_of (sp_shards (rp_publisher p)) shard)"
    using Cons.prems(1) by (auto simp: fun_eq_iff p2(2) p1(4) k)
  ultimately show ?case by blast
qed (simp add: fun_eq_iff)

section \<open>Properties\<close>

lemma refdata_parse_scaled_neg:
  assumes "all_digits i" "i \<noteq> []" "all_digits f" "digits_val i < 2 ^ 63" "0 < unat n" "unat n \<le> 18"
  shows "refdata_parse_scaled (CHR ''-'' # i @ CHR ''.'' # f) n =
      Inr (i64_of_int (sign_lost i f (unat n)))"
proof -
  have ne: "take (unat n) (f @ replicate (unat n - length f) CHR ''0'') \<noteq> []"
    using assms(5) by (cases f) auto
  show ?thesis
    using padded_fraction(2) [OF assms(3,6,5)] ne sign_lost_sum [of i "unat n" f]
    by (simp add: refdata_parse_scaled_def plain_neg [OF assms(1,3)] split_dot_neg [OF assms(1)]
        parse_i64_neg [OF assms(1,2,4)] refdata_fraction_digits [OF assms(3)] Let_def
        del: take_append take_eq_Nil)
qed

text \<open>All four scaling routines (Spot adapter, Futures adapter, order gateway, reference data)
  turn the decimal \<open>i.f\<close> into its value in units of \<open>10^-n\<close>, further digits cut off; no digit string is
  refused as long as its integer part fits.\<close>

theorem decimals_exact:
  assumes "all_digits i" "i \<noteq> []" "all_digits f" "digits_val i < 2 ^ 63" "0 < unat n" "unat n \<le> 18"
  shows "parse_scaled (i @ CHR ''.'' # f) n = Inr (i64_of_int (int (decimal_scaled i f (unat n)))) \<and>
    futures_parse_scaled (i @ CHR ''.'' # f) n =
      Inr (i64_of_int (int (decimal_scaled i f (unat n)))) \<and>
    gateway_parse_scaled (i @ CHR ''.'' # f) (i64_of_int (10 ^ unat n)) =
      Inr (i64_of_int (int (decimal_scaled i f (unat n)))) \<and>
    refdata_parse_scaled (i @ CHR ''.'' # f) n = Inr (i64_of_int (int (decimal_scaled i f (unat n))))"
  by (simp add: parse_scaled_def futures_parse_scaled_def
      adapter_parse_scaled_decimal(1) [OF assms(1,3,4,6)]
      gateway_parse_scaled_decimal [OF assms(1,3-6)] refdata_parse_scaled_decimal [OF assms(1-4,6)])

theorem decimals_exact_witness:
  "parse_scaled ''65000.12345'' 2 = Inr 6500012"
proof -
  have v: "decimal_scaled ''65000'' ''12345'' 2 = 6500012"
    by (simp add: decimal_scaled_def digit_val_def)
  have "all_digits ''65000''" "all_digits ''12345''" by (simp_all add: is_digit_def)
  moreover have "digits_val ''65000'' < 2 ^ 63" by (simp add: digit_val_def)
  ultimately show ?thesis
    using decimals_exact [where 'a = unit, of "''65000''" "''12345''" 2] v
    by (simp add: i64_of_int_def numeral_i64)
qed

text \<open>C34: In a negative decimal the fraction keeps a positive sign: \<open>-i.f\<close> becomes \<open>f - i\<close>
  instead of \<open>-(i + f)\<close> in all four routines, so a negative funding rate \<open>-0.0001\<close> is
  published as \<open>+0.0001\<close> and a debit of \<open>1.5\<close> is reported as one of \<open>0.5\<close>.\<close>

theorem negative_decimals_lose_sign:
  assumes "all_digits i" "i \<noteq> []" "all_digits f" "digits_val i < 2 ^ 63" "0 < unat n" "unat n \<le> 18"
  shows "parse_scaled (CHR ''-'' # i @ CHR ''.'' # f) n = Inr (i64_of_int (sign_lost i f (unat n))) \<and>
    futures_parse_scaled (CHR ''-'' # i @ CHR ''.'' # f) n =
      Inr (i64_of_int (sign_lost i f (unat n))) \<and>
    gateway_parse_scaled (CHR ''-'' # i @ CHR ''.'' # f) (i64_of_int (10 ^ unat n)) =
      Inr (i64_of_int (sign_lost i f (unat n))) \<and>
    refdata_parse_scaled (CHR ''-'' # i @ CHR ''.'' # f) n = Inr (i64_of_int (sign_lost i f (unat n)))"
  by (simp add: parse_scaled_def futures_parse_scaled_def adapter_parse_scaled_neg [OF assms]
      gateway_parse_scaled_neg [OF assms] refdata_parse_scaled_neg [OF assms])

theorem negative_decimals_lose_sign_witness:
  "futures_parse_scaled ''-0.0001'' 9 = Inr 100000 \<and> futures_parse_scaled ''0.0001'' 9 = Inr 100000"
proof
  show "futures_parse_scaled ''-0.0001'' 9 = Inr 100000"
    using negative_decimals_lose_sign [where 'a = unit, of "''0''" "''0001''" 9] sample_digits
    by (simp add: sign_lost_def digit_val_def i64_of_int_def numeral_i64)
  show "futures_parse_scaled ''0.0001'' 9 = Inr 100000"
    using adapter_parse_scaled_decimal(1) [of "''0''" "''0001''" 9 InvalidDecimal Panic] sample_digits
    by (simp add: futures_parse_scaled_def decimal_scaled_def digit_val_def i64_of_int_def numeral_i64)
qed

text \<open>The tick size of an instrument is exact: from the text \<open>i.f\<close> in the price filter the
  price scale is the number of its decimals and the tick size its value in that unit, nothing
  cut off; the definition carries the symbol's own id and the status flag of the exchange.\<close>

theorem tick_size_exact:
  assumes "normalize_symbol ts info venue market instance seq =
      (Inr def :: 'h refdata_error + InstrumentDefinition)"
    and "List.find (\<lambda>f. rfl_filter_type f = ''PRICE_FILTER'') (sin_filters info) = Some pf"
    and "rfl_tick_size pf = Some (i @ CHR ''.'' # f)"
    and "all_digits i" "i \<noteq> []" "all_digits f" "digits_val (i @ f) < 2 ^ 63" "length f \<le> 18"
  shows "unat (id_price_scale def) = length f \<and>
    i64_val (id_tick_size def) = int (digits_val (i @ f)) \<and>
    mh_instrument_id (id_header def) = symbol_instrument_id (id_symbol def) \<and>
    (id_is_trading def \<longleftrightarrow> sin_status info = ''TRADING'')"
proof -
  have n: "unat (word_of_nat (length f) :: u32) = length f"
    using assms(8) by (simp add: unat_of_nat)
  have "digits_val i \<le> digits_val i * 10 ^ length f" by simp
  then have small: "digits_val i < 2 ^ 63" using assms(7) unfolding digits_val_simps by linarith
  have tick: "(refdata_parse_scaled (i @ CHR ''.'' # f) (word_of_nat (length f)) :: 'h refdata_error + i64) =
      Inr (i64_of_int (int (digits_val (i @ f))))"
    using refdata_parse_scaled_decimal [where 'a = 'h, OF assms(4-6) small, of "word_of_nat (length f)"] assms(8)
    by (simp only: n decimal_scaled_own)
  have "i64_val (i64_of_int (int (digits_val (i @ f)))) = int (digits_val (i @ f))"
    using assms(7) by (intro i64_val_of_int) (simp_all del: digits_val_simps)
  with assms(1) tick show ?thesis
    by (auto simp: normalize_symbol_def Let_def assms(2,3) filter_field_def str_or_def
        derive_scale_decimal [OF assms(4)] and_then_Inr_iff refdata_make_header_def n
        simp del: digits_val_simps)
qed

definition sample_symbol :: SymbolInfo where
  "sample_symbol =
     \<lparr>sin_symbol = ''BTCUSDT'', sin_status = ''TRADING'', sin_base_asset = ''BTC'',
      sin_quote_asset = ''USDT'',
      sin_filters = [\<lparr>rfl_filter_type = ''PRICE_FILTER'', rfl_tick_size = Some ''0.0001'',
        rfl_step_size = None, rfl_min_qty = None, rfl_min_notional = None, rfl_notional = None\<rparr>]\<rparr>"

lemma sample_symbol_normalized:
  "\<exists>def. normalize_symbol 5 sample_symbol BinanceSpot Spot 1 9 =
     (Inr def :: unit refdata_error + InstrumentDefinition) \<and> id_symbol def = ''BTCUSDT'' \<and> id_is_trading def"
proof -
  have parsed: "(refdata_parse_scaled ''0.0001'' 4 :: unit refdata_error + i64) = Inr 1"
    "(refdata_parse_scaled ''0.00000001'' 8 :: unit refdata_error + i64) = Inr 1"
    using refdata_parse_scaled_decimal [where 'a = unit, of "''0''" "''0001''" 4]
      refdata_parse_scaled_decimal [where 'a = unit, of "''0''" "''00000001''" 8] sample_digits
    by (simp_all add: decimal_scaled_def digit_val_def i64_of_int_def one_i64_def is_digit_def)
  have zero: "(refdata_parse_scaled ''0'' n :: unit refdata_error + i64) = Inr 0" if "unat n \<le> 18" for n
  proof -
    have z: "parse_i64 (take (unat n) (replicate (unat n) CHR ''0'')) = Inr 0" if "0 < unat n"
      using padded_fraction(2) [of "[]" "unat n"] that \<open>unat n \<le> 18\<close> by simp
    have s: "str_trim ''0'' = ''0''" "split_dot ''0'' = (''0'', [])" "parse_i64 ''0'' = Inr 0"
      using sample_digits(1) by (simp_all add: str_trim_plain all_digits_plain split_dot_digits(2)
          parse_i64_small digit_val_def)
    show ?thesis
      using z by (cases "unat n = 0") (simp_all add: refdata_parse_scaled_def s refdata_fraction_def Let_def)
  qed
  have scale: "derive_scale ''0.0001'' = 4" "derive_scale ''0.00000001'' = 8"
    using derive_scale_decimal [of "''0''" "''0001''"] derive_scale_decimal [of "''0''" "''00000001''"]
      sample_digits(1) by simp_all
  show ?thesis
    by (simp add: normalize_symbol_def sample_symbol_def filter_field_def str_or_def Let_def scale
        parsed zero)
qed

theorem tick_size_exact_witness:
  "\<exists>def. normalize_symbol 5 sample_symbol BinanceSpot Spot 1 9 =
     (Inr def :: unit refdata_error + InstrumentDefinition) \<and>
   unat (id_price_scale def) = 4 \<and> i64_val (id_tick_size def) = 1"
proof -
  obtain def where d: "normalize_symbol 5 sample_symbol BinanceSpot Spot 1 9 =
      (Inr def :: unit refdata_error + InstrumentDefinition)" using sample_symbol_normalized by blast
  let ?pf = "\<lparr>rfl_filter_type = ''PRICE_FILTER'', rfl_tick_size = Some ''0.0001'', rfl_step_size = None,
    rfl_min_qty = None, rfl_min_notional = None, rfl_notional = None\<rparr>"
  from tick_size_exact [OF d, of ?pf "''0''" "''0001''"] sample_digits d show ?thesis
    by (auto simp: sample_symbol_def digit_val_def)
qed

text \<open>C30: The stream of reference-data events mirrors the registry: a consumer that stores the
  definition of every event and the flag of every trading status it comes with holds, after any
  run of refreshes, failed ones included, exactly the definitions and flags of the registry.\<close>

theorem events_mirror_registry:
  assumes "rds_run json first ticks (rds_new venue market instance) = (Inr events, s)"
    and "fold mirror_event events (Map.empty, Map.empty) = (defs, trading)"
  shows "defs symbol = ir_get symbol (rds_registry s) \<and>
    trading symbol = map_option id_is_trading (ir_get symbol (rds_registry s))"
proof -
  obtain clock fetch where first: "first = (clock, fetch)" by (cases first)
  let ?s0 = "rds_new venue market instance"
  have m0: "mirrors (Map.empty, Map.empty) (rds_registry ?s0)"
    by (simp add: rds_new_def mirrors_new)
  obtain r s1 where u: "rds_refresh json clock fetch ?s0 = (r, s1)" by (rule prod.exhaust)
  obtain evs s2 where b: "rds_ticks json ticks s1 = (evs, s2)" by (rule prod.exhaust)
  obtain evs1 where r: "r = Inr evs1" "events = evs1 @ evs" "s = s2"
    using assms(1) u b by (auto simp: rds_run_def first split: sum.splits)
  have "rds_ticks json [(clock, fetch)] ?s0 = (evs1, s1)" by (simp add: u r(1))
  from mirrors_ticks [OF m0 this]
  have "mirrors (fold mirror_event evs1 (Map.empty, Map.empty)) (rds_registry s1)" .
  from mirrors_ticks [OF this b] have "mirrors (defs, trading) (rds_registry s)"
    using assms(2) r(2,3) by simp
  then show ?thesis by (simp add: mirrors_def)
qed

theorem events_mirror_registry_witness:
  "\<exists>events s. (rds_run (\<lambda>_. Inr [sample_symbol]) ([5], Inr []) [([6], Inl ())] (rds_new BinanceSpot Spot 1) =
      (Inr events, s)) \<and>
    map_option id_is_trading (fst (fold mirror_event events (Map.empty, Map.empty)) ''BTCUSDT'') = Some True"
proof -
  obtain def where d: "normalize_symbol 5 sample_symbol BinanceSpot Spot 1 0 =
      (Inr def :: unit refdata_error + InstrumentDefinition)" "id_symbol def = ''BTCUSDT''" "id_is_trading def"
    using sample_symbol_normalized by (auto simp: normalize_symbol_def Let_def and_then_Inr_iff)
  let ?run = "rds_run (\<lambda>_. Inr [sample_symbol]) ([5], Inr []) [([6], Inl ())] (rds_new BinanceSpot Spot 1)"
  obtain events s where r: "?run = (Inr events, s)" "ir_get ''BTCUSDT'' (rds_registry s) = Some def"
    using d by (auto simp: rds_run_def rds_refresh_def rds_new_def parse_exchange_info_def Let_def
        ir_upsert_def ir_new_def ir_get_def)
  obtain defs trading where m: "fold mirror_event events (Map.empty, Map.empty) = (defs, trading)"
    by (rule prod.exhaust)
  from events_mirror_registry [OF r(1) m, of "''BTCUSDT''"] r(1,2) m d(3) show ?thesis by auto
qed

text \<open>A broadcast offers every shard the definition first and the trading status, if there is
  one, after it, and counts the offers; the publications' answers make no difference, so a
  broadcast that every shard refused under back-pressure reports the same success.\<close>

theorem broadcast_order:
  assumes "event_ok ev" "length (rp_buf p) = 4096" "hm_wf (sp_shards (rp_publisher p))"
  shows "\<exists>p'. rp_broadcast (log_offer answer) ev p =
      (Inr (word_of_nat (rp_shard_count p * length (event_messages ev))), p') \<and>
    (\<forall>shard. map_of (sp_shards (rp_publisher p')) shard =
      map_option (\<lambda>log. log @ map nm_wire (event_messages ev)) (map_of (sp_shards (rp_publisher p)) shard))"
proof -
  from rp_broadcast_to_log [OF assms(1) _ assms(2), of "map fst (sp_shards (rp_publisher p))" answer 0] assms(3)
  obtain p' where p': "rp_broadcast (log_offer answer) ev p =
      (Inr (word_of_nat (rp_shard_count p * length (event_messages ev))), p')"
    "map_of (sp_shards (rp_publisher p')) =
      (\<lambda>shard. if shard \<in> set (map fst (sp_shards (rp_publisher p)))
        then map_option (\<lambda>log. log @ map nm_wire (event_messages ev)) (map_of (sp_shards (rp_publisher p)) shard)
        else map_of (sp_shards (rp_publisher p)) shard)"
    by (auto simp: rp_broadcast_def sp_shard_ids_def rp_shard_count_def sp_shard_count_def hm_wf_def)
  moreover have "map_of (sp_shards (rp_publisher p)) shard = None"
    if "shard \<notin> set (map fst (sp_shards (rp_publisher p)))" for shard
    using that by (simp add: map_of_eq_None_iff)
  ultimately show ?thesis by auto
qed

theorem broadcast_order_witness:
  "\<exists>p'. rp_broadcast (log_offer BackPressured)
      (RE_Added sample_inst (make_trading_status sample_inst 3)) (rp_new (sp_new [(1, []), (2, [])])) = (Inr 4, p') \<and>
    sp_publication 2 (rp_publisher p') =
      Some [nm_wire (NM_InstrumentDefinition sample_inst),
        nm_wire (NM_TradingStatus (make_trading_status sample_inst 3))]"
proof -
  let ?ev = "RE_Added sample_inst (make_trading_status sample_inst 3)"
  let ?p = "rp_new (sp_new [(1, []), (2, [])]) :: u8 list list refdata_publisher"
  have "InstrumentDefinition_ok sample_inst"
    by (auto simp: InstrumentDefinition_ok_def sample_inst_def sample_inst_header_def str_ok_def
        u16_MAX_def intro!: str_utf8_ascii)
  moreover have "TradingStatus_ok (make_trading_status sample_inst 3)"
    using sample_inst_symbol by (simp add: TradingStatus_ok_def make_trading_status_def)
  ultimately have ok: "event_ok ?ev"
    by (simp add: event_ok_def InstrumentDefinition_wire_def TradingStatus_wire_def str_wire_def
        sample_inst_def make_trading_status_def HEADER_SIZE_56)
  have shards: "sp_shards (rp_publisher ?p) = [(1, []), (2, [])]"
    by (simp add: rp_new_def sp_new_def)
  have "length (rp_buf ?p) = 4096" "hm_wf (sp_shards (rp_publisher ?p))"
    unfolding shards by (simp_all add: rp_new_def hm_wf_def)
  from broadcast_order [OF ok this, of BackPressured] show ?thesis
    by (auto simp: shards rp_shard_count_def sp_shard_count_def event_messages_def sp_publication_def
        simp del: nm_wire.simps)
qed

end
