(* ===== verification/Replay.thy ===== *)
theory Replay
  imports Spot_Normalizer Sbe
begin

text \<open>
  The replayer: \<open>crates/replay/src\<close> (frame.rs, mode.rs, replayer.rs). The clock is the argument
  of every poll; the thin wrapper that reads the system clock is left out.
\<close>

section \<open>Frames and modes\<close>

datatype source_kind = SK_RawWsPayload | SK_NormalizedMessage | SK_AeronArchive

record recorded_frame =
  rfr_captured_at_ns :: i64
  rfr_payload :: "u8 list"
  rfr_source_kind :: source_kind

definition rfr_new :: "i64 \<Rightarrow> u8 list \<Rightarrow> source_kind \<Rightarrow> recorded_frame" where
  "rfr_new captured_at_ns payload source_kind =
     \<lparr>rfr_captured_at_ns = captured_at_ns, rfr_payload = payload, rfr_source_kind = source_kind\<rparr>"

definition rfr_raw_ws :: "i64 \<Rightarrow> u8 list \<Rightarrow> recorded_frame" where
  "rfr_raw_ws captured_at_ns payload = rfr_new captured_at_ns payload SK_RawWsPayload"

definition rfr_normalized :: "i64 \<Rightarrow> u8 list \<Rightarrow> recorded_frame" where
  "rfr_normalized captured_at_ns payload = rfr_new captured_at_ns payload SK_NormalizedMessage"

definition rfr_aeron_archive :: "i64 \<Rightarrow> u8 list \<Rightarrow> recorded_frame" where
  "rfr_aeron_archive captured_at_ns payload = rfr_new captured_at_ns payload SK_AeronArchive"

record fault_config =
  fc_drop_percent :: u8
  fc_corrupt_percent :: u8
  fc_duplicate_percent :: u8
  fc_seed :: u64

datatype replay_mode =
    AsFastAsPossible
  | OriginalTiming
  | ScaledTiming u32 u32
  | Deterministic
  | FaultInjection replay_mode fault_config

fun base_timing :: "replay_mode \<Rightarrow> replay_mode" where
  "base_timing (FaultInjection inner _) = base_timing inner"
| "base_timing other = other"

fun mode_fault_config :: "replay_mode \<Rightarrow> fault_config option" where
  "mode_fault_config (FaultInjection _ faults) = Some faults"
| "mode_fault_config _ = None"

section \<open>Random numbers\<close>

record prng =
  prng_state :: u64

definition prng_new :: "u64 \<Rightarrow> prng" where
  "prng_new seed = \<lparr>prng_state = (if seed = 0 then 0xDEADBEEFCAFEF00D else seed)\<rparr>"

definition prng_next :: "prng \<Rightarrow> u64 \<times> prng" where
  "prng_next g =
     (let x0 = prng_state g;
          x1 = x0 XOR push_bit 13 x0;
          x2 = x1 XOR drop_bit 7 x1;
          x3 = x2 XOR push_bit 17 x2
      in (x3, \<lparr>prng_state = x3\<rparr>))"

definition percent_chance :: "u8 \<Rightarrow> prng \<Rightarrow> bool \<times> prng" where
  "percent_chance pct g =
     (if 0 < pct then let (x, g') = prng_next g in (x mod 100 < ucast pct, g') else (False, g))"

section \<open>Replayer\<close>

record replay_stats =
  rst_frames_delivered :: u64
  rst_frames_dropped :: u64
  rst_frames_corrupted :: u64
  rst_frames_duplicated :: u64
  rst_total_wait_ns :: i64

definition rst_default :: replay_stats where
  "rst_default =
     \<lparr>rst_frames_delivered = 0, rst_frames_dropped = 0, rst_frames_corrupted = 0,
      rst_frames_duplicated = 0, rst_total_wait_ns = 0\<rparr>"

record replay_event =
  rev_source_kind :: source_kind
  rev_payload :: "u8 list"
  rev_virtual_ts_ns :: i64
  rev_was_corrupted :: bool
  rev_is_duplicate :: bool

datatype poll_result = PollReady replay_event | NotYet i64 | PollDone

fun poll_is_ready :: "poll_result \<Rightarrow> bool" where
  "poll_is_ready (PollReady _) = True"
| "poll_is_ready _ = False"

fun poll_is_not_yet :: "poll_result \<Rightarrow> bool" where
  "poll_is_not_yet (NotYet _) = True"
| "poll_is_not_yet _ = False"

fun poll_is_done :: "poll_result \<Rightarrow> bool" where
  "poll_is_done PollDone = True"
| "poll_is_done _ = False"

text \<open>\<open>unwrap_event\<close>; None is its panic.\<close>

fun unwrap_event :: "poll_result \<Rightarrow> replay_event option" where
  "unwrap_event (PollReady e) = Some e"
| "unwrap_event _ = None"

record replayer =
  rpl_frames :: "recorded_frame list"
  rpl_cursor :: nat
  rpl_mode :: replay_mode
  rpl_start_real_ns :: "i64 option"
  rpl_start_virtual_ns :: i64
  rpl_virtual_clock_ns :: i64
  rpl_pending_duplicate :: "replay_event option"
  rpl_prng :: prng
  rpl_stats :: replay_stats

definition mode_seed :: "replay_mode \<Rightarrow> u64" where
  "mode_seed mode = (case mode_fault_config mode of None \<Rightarrow> 0 | Some fc \<Rightarrow> fc_seed fc)"

definition rpl_new :: "recorded_frame list \<Rightarrow> replay_mode \<Rightarrow> replayer" where
  "rpl_new frames mode =
     (let start_virtual_ns = (case frames of [] \<Rightarrow> 0 | f # _ \<Rightarrow> rfr_captured_at_ns f) in
      \<lparr>rpl_frames = frames, rpl_cursor = 0, rpl_mode = mode, rpl_start_real_ns = None,
       rpl_start_virtual_ns = start_virtual_ns, rpl_virtual_clock_ns = start_virtual_ns,
       rpl_pending_duplicate = None, rpl_prng = prng_new (mode_seed mode),
       rpl_stats = rst_default\<rparr>)"

definition i64_saturating_add :: "i64 \<Rightarrow> i64 \<Rightarrow> i64" where
  "i64_saturating_add a b = i64_of_int (max (- (2 ^ 63)) (min (2 ^ 63 - 1) (i64_val a + i64_val b)))"

text \<open>The wait for a frame due at \<open>start + offset\<close>, with the start time set by the first poll.\<close>

definition wait_until :: "i64 \<Rightarrow> i64 \<Rightarrow> replayer \<Rightarrow> i64 option \<times> replayer" where
  "wait_until now_ns offset r =
     (let start = (case rpl_start_real_ns r of None \<Rightarrow> now_ns | Some s \<Rightarrow> s);
          emit_at = i64_saturating_add start offset
      in (if emit_at \<le> now_ns then None else Some (emit_at - now_ns),
          r\<lparr>rpl_start_real_ns := Some start\<rparr>))"

definition timing_wait_ns :: "i64 \<Rightarrow> i64 \<Rightarrow> replayer \<Rightarrow> i64 option \<times> replayer" where
  "timing_wait_ns now_ns frame_captured_at r =
     (let offset = i64_saturating_sub frame_captured_at (rpl_start_virtual_ns r) in
      case base_timing (rpl_mode r) of
        OriginalTiming \<Rightarrow> wait_until now_ns offset r
      | ScaledTiming num den \<Rightarrow>
          wait_until now_ns (i64_div (i64_saturating_mul offset (i64_of_int (uint num)))
            (i64_of_int (uint (max den 1)))) r
      | _ \<Rightarrow> (None, r))"

definition advance_virtual_clock :: "i64 \<Rightarrow> replayer \<Rightarrow> i64 \<times> replayer" where
  "advance_virtual_clock captured_at r =
     (if base_timing (rpl_mode r) = Deterministic then
        let r' = (if 0 < rpl_cursor r then
                    let prev = rfr_captured_at_ns (rpl_frames r ! (rpl_cursor r - 1));
                        delta = max (i64_saturating_sub captured_at prev) 0 in
                    r\<lparr>rpl_virtual_clock_ns := i64_saturating_add (rpl_virtual_clock_ns r) delta\<rparr>
                  else r)
        in (rpl_virtual_clock_ns r', r')
      else (captured_at, r))"

definition fault_percents :: "replayer \<Rightarrow> u8 \<times> u8 \<times> u8" where
  "fault_percents r =
     (case mode_fault_config (rpl_mode r) of
        Some fc \<Rightarrow> (fc_drop_percent fc, fc_corrupt_percent fc, fc_duplicate_percent fc)
      | None \<Rightarrow> (0, 0, 0))"

definition roll :: "u8 \<Rightarrow> replayer \<Rightarrow> bool \<times> replayer" where
  "roll pct r = (let (hit, g) = percent_chance pct (rpl_prng r) in (hit, r\<lparr>rpl_prng := g\<rparr>))"

text \<open>The second half of the loop body: corrupt, advance the clock, duplicate, deliver.\<close>

definition corrupt_payload :: "u8 \<Rightarrow> u8 list \<Rightarrow> replayer \<Rightarrow> (u8 list \<times> bool) \<times> replayer" where
  "corrupt_payload pct payload r =
     (let (hit, r1) = roll pct r in
      if hit \<and> payload \<noteq> [] then
        let (x, g) = prng_next (rpl_prng r1); i = unat x mod length payload in
        ((payload[i := payload ! i XOR 0xFF], True),
         r1\<lparr>rpl_prng := g, rpl_stats := (rpl_stats r1)
            \<lparr>rst_frames_corrupted := rst_frames_corrupted (rpl_stats r1) + 1\<rparr>\<rparr>)
      else ((payload, False), r1))"

definition deliver_frame :: "recorded_frame \<Rightarrow> replayer \<Rightarrow> poll_result \<times> replayer" where
  "deliver_frame frame r =
     (let (_, corrupt_pct, dup_pct) = fault_percents r;
          ((payload, was_corrupted), r1) = corrupt_payload corrupt_pct (rfr_payload frame) r;
          (virtual_ts_ns, r2) = advance_virtual_clock (rfr_captured_at_ns frame) r1;
          r3 = r2\<lparr>rpl_cursor := rpl_cursor r2 + 1\<rparr>;
          event = \<lparr>rev_source_kind = rfr_source_kind frame, rev_payload = payload,
            rev_virtual_ts_ns = virtual_ts_ns, rev_was_corrupted = was_corrupted,
            rev_is_duplicate = False\<rparr>;
          (dup, r4) = roll dup_pct r3;
          r5 = (if dup then r4\<lparr>rpl_pending_duplicate := Some (event\<lparr>rev_is_duplicate := True\<rparr>)\<rparr> else r4)
      in (PollReady event, r5\<lparr>rpl_stats := (rpl_stats r5)
            \<lparr>rst_frames_delivered := rst_frames_delivered (rpl_stats r5) + 1\<rparr>\<rparr>))"

definition rpl_drop :: "replayer \<Rightarrow> replayer" where
  "rpl_drop r = r\<lparr>rpl_cursor := rpl_cursor r + 1, rpl_stats := (rpl_stats r)
     \<lparr>rst_frames_dropped := rst_frames_dropped (rpl_stats r) + 1\<rparr>\<rparr>"

lemma timing_wait_frames [simp]:
  "rpl_frames (snd (timing_wait_ns now_ns c r)) = rpl_frames r"
  "rpl_cursor (snd (timing_wait_ns now_ns c r)) = rpl_cursor r"
  by (simp_all add: timing_wait_ns_def wait_until_def Let_def split: replay_mode.splits)

lemma roll_frames [simp]:
  "rpl_frames (snd (roll pct r)) = rpl_frames r" "rpl_cursor (snd (roll pct r)) = rpl_cursor r"
  by (simp_all add: roll_def case_prod_beta)

text \<open>The loop: it goes round once per dropped frame, so the frames left bound it.\<close>

function replay_loop :: "i64 \<Rightarrow> replayer \<Rightarrow> poll_result \<times> replayer" where
  "replay_loop now_ns r =
     (if length (rpl_frames r) \<le> rpl_cursor r then (PollDone, r)
      else
        let frame = rpl_frames r ! rpl_cursor r;
            (wait, r1) = timing_wait_ns now_ns (rfr_captured_at_ns frame) r in
        case wait of
          Some w \<Rightarrow> (NotYet w, r1)
        | None \<Rightarrow>
            let (dropped, r2) = roll (fst (fault_percents r1)) r1 in
            if dropped then replay_loop now_ns (rpl_drop r2) else deliver_frame frame r2)"
  by pat_completeness auto
termination
proof (relation "measure (\<lambda>(now_ns, r). length (rpl_frames r) - rpl_cursor r)", goal_cases)
  case (2 now_ns r frame tw wait r1 ro dropped r2)
  have "r1 = snd (timing_wait_ns now_ns (rfr_captured_at_ns frame) r)"
    "r2 = snd (roll (fst (fault_percents r1)) r1)"
    using 2 by (metis snd_conv)+
  then show ?case using 2(1) by (simp add: rpl_drop_def)
qed simp

declare replay_loop.simps [simp del]

definition next_frame_at :: "i64 \<Rightarrow> replayer \<Rightarrow> poll_result \<times> replayer" where
  "next_frame_at now_ns r =
     (case rpl_pending_duplicate r of
        Some dup \<Rightarrow> (PollReady dup, r\<lparr>rpl_pending_duplicate := None, rpl_stats := (rpl_stats r)
          \<lparr>rst_frames_duplicated := rst_frames_duplicated (rpl_stats r) + 1\<rparr>\<rparr>)
      | None \<Rightarrow> replay_loop now_ns r)"

definition rpl_is_done :: "replayer \<Rightarrow> bool" where
  "rpl_is_done r \<longleftrightarrow> rpl_pending_duplicate r = None \<and> length (rpl_frames r) \<le> rpl_cursor r"

definition rpl_reset :: "replayer \<Rightarrow> replayer" where
  "rpl_reset r = r\<lparr>rpl_cursor := 0, rpl_start_real_ns := None,
     rpl_virtual_clock_ns := rpl_start_virtual_ns r, rpl_pending_duplicate := None,
     rpl_stats := rst_default, rpl_prng := prng_new (mode_seed (rpl_mode r))\<rparr>"

definition rpl_frame_count :: "replayer \<Rightarrow> nat" where
  "rpl_frame_count r = length (rpl_frames r)"

section \<open>Polls\<close>

fun rpl_polls :: "i64 list \<Rightarrow> replayer \<Rightarrow> poll_result list \<times> replayer" where
  "rpl_polls [] r = ([], r)"
| "rpl_polls (t # ts) r =
     (let (p, r1) = next_frame_at t r; (ps, r2) = rpl_polls ts r1 in (p # ps, r2))"

end
