(* ===== verification/Replay_Properties.thy ===== *)
theory Replay_Properties
  imports Replay "HOL-Library.Sublist"
begin

text \<open>
  The properties of the replayer: nothing is lost or invented, a reset reproduces the run, the
  timing gates neither release early nor hold a frame too long, and the virtual clock.
\<close>

section \<open>One frame\<close>

definition from_frame :: "recorded_frame \<Rightarrow> replay_event \<Rightarrow> bool" where
  "from_frame f e \<longleftrightarrow> rev_source_kind e = rfr_source_kind f \<and> \<not> rev_is_duplicate e \<and>
     (if rev_was_corrupted e
      then \<exists>i < length (rfr_payload f). rev_payload e = (rfr_payload f)[i := rfr_payload f ! i XOR 0xFF]
      else rev_payload e = rfr_payload f)"

text \<open>Rolling the dice touches the generator, corrupting also its counter, the clock only itself.\<close>

lemma roll_fields [simp]:
  "rpl_mode (snd (roll pct r)) = rpl_mode r"
  "rpl_start_real_ns (snd (roll pct r)) = rpl_start_real_ns r"
  "rpl_start_virtual_ns (snd (roll pct r)) = rpl_start_virtual_ns r"
  "rpl_pending_duplicate (snd (roll pct r)) = rpl_pending_duplicate r"
  "rpl_virtual_clock_ns (snd (roll pct r)) = rpl_virtual_clock_ns r"
  "rpl_stats (snd (roll pct r)) = rpl_stats r"
  by (simp_all add: roll_def case_prod_beta)

lemma corrupt_payload_fields [simp]:
  "rpl_frames (snd (corrupt_payload pct p r)) = rpl_frames r"
  "rpl_cursor (snd (corrupt_payload pct p r)) = rpl_cursor r"
  "rpl_mode (snd (corrupt_payload pct p r)) = rpl_mode r"
  "rpl_start_real_ns (snd (corrupt_payload pct p r)) = rpl_start_real_ns r"
  "rpl_start_virtual_ns (snd (corrupt_payload pct p r)) = rpl_start_virtual_ns r"
  "rpl_pending_duplicate (snd (corrupt_payload pct p r)) = rpl_pending_duplicate r"
  "rpl_virtual_clock_ns (snd (corrupt_payload pct p r)) = rpl_virtual_clock_ns r"
  "rst_frames_delivered (rpl_stats (snd (corrupt_payload pct p r))) = rst_frames_delivered (rpl_stats r)"
  "rst_frames_dropped (rpl_stats (snd (corrupt_payload pct p r))) = rst_frames_dropped (rpl_stats r)"
  "rst_frames_duplicated (rpl_stats (snd (corrupt_payload pct p r))) = rst_frames_duplicated (rpl_stats r)"
  by (simp_all add: corrupt_payload_def case_prod_beta Let_def)

lemma advance_fields [simp]:
  "rpl_frames (snd (advance_virtual_clock c r)) = rpl_frames r"
  "rpl_cursor (snd (advance_virtual_clock c r)) = rpl_cursor r"
  "rpl_mode (snd (advance_virtual_clock c r)) = rpl_mode r"
  "rpl_start_real_ns (snd (advance_virtual_clock c r)) = rpl_start_real_ns r"
  "rpl_start_virtual_ns (snd (advance_virtual_clock c r)) = rpl_start_virtual_ns r"
  "rpl_pending_duplicate (snd (advance_virtual_clock c r)) = rpl_pending_duplicate r"
  "rpl_stats (snd (advance_virtual_clock c r)) = rpl_stats r"
  "rpl_prng (snd (advance_virtual_clock c r)) = rpl_prng r"
  by (simp_all add: advance_virtual_clock_def Let_def)

lemma timing_fields [simp]:
  "rpl_mode (snd (timing_wait_ns now_ns c r)) = rpl_mode r"
  "rpl_start_virtual_ns (snd (timing_wait_ns now_ns c r)) = rpl_start_virtual_ns r"
  "rpl_pending_duplicate (snd (timing_wait_ns now_ns c r)) = rpl_pending_duplicate r"
  "rpl_stats (snd (timing_wait_ns now_ns c r)) = rpl_stats r"
  "rpl_prng (snd (timing_wait_ns now_ns c r)) = rpl_prng r"
  "rpl_virtual_clock_ns (snd (timing_wait_ns now_ns c r)) = rpl_virtual_clock_ns r"
  by (simp_all add: timing_wait_ns_def wait_until_def Let_def split: replay_mode.splits)

lemma corrupt_payload_bytes:
  assumes "fst (corrupt_payload pct p r) = (p', c)"
  shows "if c then \<exists>i < length p. p' = p[i := p ! i XOR 0xFF] else p' = p"
  using assms
  by (auto simp: corrupt_payload_def case_prod_beta Let_def split: if_splits
      intro!: exI [of _ "unat _ mod length p"])

text \<open>What delivering a frame does to the fields other than the generator and the clock.\<close>

lemma deliver_frame_spec:
  assumes "deliver_frame frame r = (p, r')" "rpl_pending_duplicate r = None"
  obtains e where "p = PollReady e" "from_frame frame e"
    "rpl_frames r' = rpl_frames r" "rpl_mode r' = rpl_mode r"
    "rpl_start_virtual_ns r' = rpl_start_virtual_ns r" "rpl_start_real_ns r' = rpl_start_real_ns r"
    "rpl_cursor r' = rpl_cursor r + 1"
    "rst_frames_delivered (rpl_stats r') = rst_frames_delivered (rpl_stats r) + 1"
    "rst_frames_dropped (rpl_stats r') = rst_frames_dropped (rpl_stats r)"
    "rst_frames_duplicated (rpl_stats r') = rst_frames_duplicated (rpl_stats r)"
    "rpl_pending_duplicate r' \<in> {None, Some (e\<lparr>rev_is_duplicate := True\<rparr>)}"
proof -
  let ?c = "fst (snd (fault_percents r))" and ?d = "snd (snd (fault_percents r))"
  let ?cp = "corrupt_payload ?c (rfr_payload frame) r"
  let ?ad = "advance_virtual_clock (rfr_captured_at_ns frame) (snd ?cp)"
  let ?e = "\<lparr>rev_source_kind = rfr_source_kind frame, rev_payload = fst (fst ?cp),
    rev_virtual_ts_ns = fst ?ad, rev_was_corrupted = snd (fst ?cp), rev_is_duplicate = False\<rparr>"
  let ?r3 = "(snd ?ad)\<lparr>rpl_cursor := rpl_cursor (snd ?ad) + 1\<rparr>"
  have "from_frame frame ?e"
    using corrupt_payload_bytes [of ?c "rfr_payload frame" r "fst (fst ?cp)" "snd (fst ?cp)"]
    by (simp add: from_frame_def)
  moreover have "p = PollReady ?e" "r' = (let r4 = snd (roll ?d ?r3);
      r5 = (if fst (roll ?d ?r3) then r4\<lparr>rpl_pending_duplicate := Some (?e\<lparr>rev_is_duplicate := True\<rparr>)\<rparr> else r4)
      in r5\<lparr>rpl_stats := (rpl_stats r5)\<lparr>rst_frames_delivered := rst_frames_delivered (rpl_stats r5) + 1\<rparr>\<rparr>)"
    using arg_cong [OF assms(1), of fst] arg_cong [OF assms(1), of snd]
    by (simp_all only: deliver_frame_def case_prod_beta Let_def fst_conv snd_conv)
  ultimately show ?thesis
    using assms(2) by (intro that [of ?e]) (simp_all add: Let_def)
qed

section \<open>One poll\<close>

definition same_recording :: "replayer \<Rightarrow> replayer \<Rightarrow> bool" where
  "same_recording r r' \<longleftrightarrow> rpl_frames r' = rpl_frames r \<and> rpl_mode r' = rpl_mode r \<and>
     rpl_start_virtual_ns r' = rpl_start_virtual_ns r"

text \<open>The outcome of the loop after \<open>k\<close> dropped frames.\<close>

definition loop_outcome :: "replayer \<Rightarrow> nat \<Rightarrow> poll_result \<Rightarrow> replayer \<Rightarrow> bool" where
  "loop_outcome r k p r' \<longleftrightarrow>
     same_recording r r' \<and> rpl_cursor r' \<le> length (rpl_frames r) \<and>
     rst_frames_dropped (rpl_stats r') = rst_frames_dropped (rpl_stats r) + word_of_nat k \<and>
     rst_frames_duplicated (rpl_stats r') = rst_frames_duplicated (rpl_stats r) \<and>
     (case p of
        PollReady e \<Rightarrow> rpl_cursor r' = rpl_cursor r + k + 1 \<and>
          from_frame (rpl_frames r ! (rpl_cursor r + k)) e \<and>
          rst_frames_delivered (rpl_stats r') = rst_frames_delivered (rpl_stats r) + 1 \<and>
          rpl_pending_duplicate r' \<in> {None, Some (e\<lparr>rev_is_duplicate := True\<rparr>)}
      | _ \<Rightarrow> rpl_cursor r' = rpl_cursor r + k \<and>
          rst_frames_delivered (rpl_stats r') = rst_frames_delivered (rpl_stats r) \<and>
          rpl_pending_duplicate r' = None)"

lemma loop_outcome_drop:
  assumes "loop_outcome (rpl_drop r) k p r'"
  shows "loop_outcome r (Suc k) p r'"
  using assms by (auto simp: loop_outcome_def rpl_drop_def same_recording_def split: poll_result.splits)

lemma loop_outcome_from:
  assumes "loop_outcome r1 k p r'" "same_recording r r1" "rpl_cursor r1 = rpl_cursor r" "rpl_stats r1 = rpl_stats r"
  shows "loop_outcome r k p r'"
  using assms by (cases p) (simp_all add: loop_outcome_def same_recording_def)

lemma replay_loop_spec:
  "replay_loop now r = (p, r') \<Longrightarrow> rpl_pending_duplicate r = None \<Longrightarrow>
   rpl_cursor r \<le> length (rpl_frames r) \<Longrightarrow> \<exists>k. loop_outcome r k p r'"
proof (induction now r rule: replay_loop.induct)
  case (1 now r)
  let ?f = "rpl_frames r ! rpl_cursor r"
  define w r1 where "w = fst (timing_wait_ns now (rfr_captured_at_ns ?f) r)"
    and r1: "r1 = snd (timing_wait_ns now (rfr_captured_at_ns ?f) r)"
  define d r2 where "d = fst (roll (fst (fault_percents r1)) r1)"
    and r2: "r2 = snd (roll (fst (fault_percents r1)) r1)"
  have pairs: "timing_wait_ns now (rfr_captured_at_ns ?f) r = (w, r1)"
    "roll (fst (fault_percents r1)) r1 = (d, r2)"
    by (simp_all add: w_def r1 d_def r2)
  have same: "same_recording r r1" "same_recording r r2" "rpl_stats r1 = rpl_stats r"
    "rpl_stats r2 = rpl_stats r" "rpl_cursor r1 = rpl_cursor r" "rpl_cursor r2 = rpl_cursor r"
    "rpl_pending_duplicate r1 = None" "rpl_pending_duplicate r2 = None"
    using 1(3) by (simp_all add: same_recording_def r1 r2)
  consider "length (rpl_frames r) \<le> rpl_cursor r"
    | (wait) x where "rpl_cursor r < length (rpl_frames r)" "w = Some x"
    | (dropped) "rpl_cursor r < length (rpl_frames r)" "w = None" d
    | (deliver) "rpl_cursor r < length (rpl_frames r)" "w = None" "\<not> d"
    using not_le by blast
  then show ?case
  proof cases
    case 1
    with "1.prems" have "p = PollDone" "r' = r" by (simp_all add: replay_loop.simps [of now r])
    with "1.prems"(2,3) show ?thesis
      by (auto simp: loop_outcome_def same_recording_def intro!: exI [of _ 0])
  next
    case wait
    with "1.prems"(1) have "p = NotYet x" "r' = r1"
      by (simp_all add: replay_loop.simps [of now r] pairs Let_def)
    with same "1.prems"(3) show ?thesis
      by (auto simp: loop_outcome_def same_recording_def intro!: exI [of _ 0])
  next
    case dropped
    with "1.prems"(1) have "replay_loop now (rpl_drop r2) = (p, r')"
      by (simp add: replay_loop.simps [of now r] pairs Let_def)
    moreover have "rpl_pending_duplicate (rpl_drop r2) = None"
      "rpl_cursor (rpl_drop r2) \<le> length (rpl_frames (rpl_drop r2))"
      using same dropped by (simp_all add: rpl_drop_def same_recording_def)
    ultimately obtain k where "loop_outcome (rpl_drop r2) k p r'"
      using "1.IH" [OF _ refl pairs(1) [symmetric] refl dropped(2) pairs(2) [symmetric] refl dropped(3)] dropped(1)
      by auto
    then have "loop_outcome r2 (Suc k) p r'" by (rule loop_outcome_drop)
    then show ?thesis using loop_outcome_from [OF _ same(2,6,4)] by blast
  next
    case deliver
    with "1.prems"(1) have "deliver_frame ?f r2 = (p, r')"
      by (simp add: replay_loop.simps [of now r] pairs Let_def)
    from deliver_frame_spec [OF this same(8)] obtain e where "p = PollReady e" "from_frame ?f e"
      "rpl_frames r' = rpl_frames r2" "rpl_mode r' = rpl_mode r2"
      "rpl_start_virtual_ns r' = rpl_start_virtual_ns r2" "rpl_cursor r' = rpl_cursor r2 + 1"
      "rst_frames_delivered (rpl_stats r') = rst_frames_delivered (rpl_stats r2) + 1"
      "rst_frames_dropped (rpl_stats r') = rst_frames_dropped (rpl_stats r2)"
      "rst_frames_duplicated (rpl_stats r') = rst_frames_duplicated (rpl_stats r2)"
      "rpl_pending_duplicate r' \<in> {None, Some (e\<lparr>rev_is_duplicate := True\<rparr>)}" by blast
    then have "loop_outcome r 0 p r'"
      using same deliver(1) by (auto simp: loop_outcome_def same_recording_def)
    then show ?thesis by blast
  qed
qed

section \<open>A run of polls\<close>

fun ready_events :: "poll_result list \<Rightarrow> replay_event list" where
  "ready_events [] = []"
| "ready_events (PollReady e # ps) = e # ready_events ps"
| "ready_events (_ # ps) = ready_events ps"

lemma ready_events_append: "ready_events (ps @ qs) = ready_events ps @ ready_events qs"
  by (induction ps rule: ready_events.induct) simp_all

definition originals :: "poll_result list \<Rightarrow> replay_event list" where
  "originals ps = filter (\<lambda>e. \<not> rev_is_duplicate e) (ready_events ps)"

definition duplicates :: "poll_result list \<Rightarrow> replay_event list" where
  "duplicates ps = filter rev_is_duplicate (ready_events ps)"

definition run_ok :: "recorded_frame list \<Rightarrow> poll_result list \<Rightarrow> replayer \<Rightarrow> bool" where
  "run_ok frames ps r \<longleftrightarrow>
     rpl_frames r = frames \<and> rpl_cursor r \<le> length frames \<and>
     (\<forall>e. rpl_pending_duplicate r = Some e \<longrightarrow> rev_is_duplicate e) \<and>
     (\<exists>fs. subseq fs (take (rpl_cursor r) frames) \<and> list_all2 from_frame fs (originals ps)) \<and>
     length (originals ps) \<le> rpl_cursor r \<and>
     rst_frames_delivered (rpl_stats r) = word_of_nat (length (originals ps)) \<and>
     rst_frames_dropped (rpl_stats r) = word_of_nat (rpl_cursor r - length (originals ps)) \<and>
     rst_frames_duplicated (rpl_stats r) = word_of_nat (length (duplicates ps))"

lemma run_ok_new: "run_ok frames [] (rpl_new frames mode)"
  by (simp add: run_ok_def rpl_new_def Let_def rst_default_def originals_def duplicates_def)

lemma subseq_take_frame:
  assumes "subseq fs (take c xs)" "c \<le> d" "d < length xs"
  shows "subseq (fs @ [xs ! d]) (take (d + 1) xs)"
proof -
  have "take d xs = take c xs @ take (d - c) (drop c xs)"
    using assms(2) take_add [of c "d - c" xs] by simp
  then have "subseq fs (take d xs)"
    using list_emb_append_mono [OF assms(1), of "[]" "take (d - c) (drop c xs)"] by simp
  then have "subseq (fs @ [xs ! d]) (take d xs @ [xs ! d])" by simp
  then show ?thesis using assms(3) by (simp add: take_Suc_conv_app_nth)
qed

lemma subseq_take_more:
  assumes "subseq fs (take c xs)" "c \<le> d"
  shows "subseq fs (take d xs)"
proof -
  have "take d xs = take c xs @ take (d - c) (drop c xs)"
    using assms(2) take_add [of c "d - c" xs] by simp
  then show ?thesis using list_emb_append_mono [OF assms(1), of "[]" "take (d - c) (drop c xs)"] by simp
qed

lemma run_ok_step:
  assumes ok: "run_ok frames ps r" and step: "next_frame_at t r = (p, r')"
  shows "run_ok frames (ps @ [p]) r'"
proof (cases "rpl_pending_duplicate r")
  case (Some e)
  then have "p = PollReady e" "r' = r\<lparr>rpl_pending_duplicate := None, rpl_stats := (rpl_stats r)
      \<lparr>rst_frames_duplicated := rst_frames_duplicated (rpl_stats r) + 1\<rparr>\<rparr>" "rev_is_duplicate e"
    using step ok by (simp_all add: next_frame_at_def run_ok_def)
  then show ?thesis
    using ok by (simp add: run_ok_def originals_def duplicates_def ready_events_append)
next
  case None
  have c: "rpl_cursor r \<le> length (rpl_frames r)" and fr: "rpl_frames r = frames"
    using ok by (simp_all add: run_ok_def)
  have "replay_loop t r = (p, r')" using step None by (simp add: next_frame_at_def)
  then obtain k where k: "loop_outcome r k p r'" using replay_loop_spec [OF _ None c] by blast
  obtain fs where fs: "subseq fs (take (rpl_cursor r) frames)" "list_all2 from_frame fs (originals ps)"
    using ok by (auto simp: run_ok_def)
  note old = ok [unfolded run_ok_def]
  let ?o = "length (originals ps)"
  have dropped: "(word_of_nat (rpl_cursor r - ?o) :: u64) + word_of_nat k = word_of_nat (rpl_cursor r + k - ?o)"
    using old by (simp flip: of_nat_add)
  show ?thesis
  proof (cases p)
    case (PollReady e)
    with k fr have e: "rpl_cursor r' = rpl_cursor r + k + 1" "from_frame (frames ! (rpl_cursor r + k)) e"
      "rpl_cursor r' \<le> length frames" "rpl_frames r' = frames"
      by (simp_all add: loop_outcome_def same_recording_def)
    have "subseq (fs @ [frames ! (rpl_cursor r + k)]) (take (rpl_cursor r') frames)"
      using subseq_take_frame [OF fs(1), of "rpl_cursor r + k"] e by simp
    moreover have "\<not> rev_is_duplicate e" using e(2) by (simp add: from_frame_def)
    then have "originals (ps @ [p]) = originals ps @ [e]" "duplicates (ps @ [p]) = duplicates ps"
      by (simp_all add: originals_def duplicates_def ready_events_append PollReady)
    moreover have "list_all2 from_frame (fs @ [frames ! (rpl_cursor r + k)]) (originals ps @ [e])"
      using fs(2) e(2) by (simp add: list_all2_appendI)
    ultimately show ?thesis
      using k old dropped e PollReady by (auto simp: run_ok_def loop_outcome_def)
  next
    case (NotYet w)
    with k fr fs old dropped subseq_take_more [OF fs(1), of "rpl_cursor r'"] show ?thesis
      by (auto simp: run_ok_def loop_outcome_def same_recording_def originals_def duplicates_def
          ready_events_append)
  next
    case PollDone
    with k fr fs old dropped subseq_take_more [OF fs(1), of "rpl_cursor r'"] show ?thesis
      by (auto simp: run_ok_def loop_outcome_def same_recording_def originals_def duplicates_def
          ready_events_append)
  qed
qed

lemma run_ok_polls:
  "rpl_polls ts r = (ps, r') \<Longrightarrow> run_ok frames hist r \<Longrightarrow> run_ok frames (hist @ ps) r'"
proof (induction ts arbitrary: r hist ps)
  case (Cons t ts)
  obtain p r1 where s: "next_frame_at t r = (p, r1)" by (rule prod.exhaust)
  obtain ps' r2 where rest: "rpl_polls ts r1 = (ps', r2)" by (rule prod.exhaust)
  have res: "ps = p # ps'" "r' = r2" using Cons.prems(1) s rest by simp_all
  show ?case
    using Cons.IH [OF rest [folded res(2)] run_ok_step [OF Cons.prems(2) s]] by (simp add: res(1))
qed simp

lemma polls_same_recording:
  "rpl_polls ts r = (ps, r') \<Longrightarrow> rpl_cursor r \<le> length (rpl_frames r) \<Longrightarrow>
   same_recording r r' \<and> rpl_cursor r' \<le> length (rpl_frames r)"
proof (induction ts arbitrary: r ps)
  case (Cons t ts)
  obtain p r1 where s: "next_frame_at t r = (p, r1)" by (rule prod.exhaust)
  obtain ps' r2 where rest: "rpl_polls ts r1 = (ps', r2)" by (rule prod.exhaust)
  have one: "same_recording r r1 \<and> rpl_cursor r1 \<le> length (rpl_frames r1)"
  proof (cases "rpl_pending_duplicate r")
    case None
    then have "replay_loop t r = (p, r1)" using s by (simp add: next_frame_at_def)
    from replay_loop_spec [OF this None Cons.prems(2)] show ?thesis
      by (auto simp: loop_outcome_def same_recording_def)
  next
    case (Some e)
    then show ?thesis using s Cons.prems(2) by (auto simp: next_frame_at_def same_recording_def)
  qed
  have "r' = r2" using Cons.prems(1) s rest by simp
  with Cons.IH [OF rest [folded this]] one show ?case by (auto simp: same_recording_def)
qed (simp add: same_recording_def)

text \<open>What is left to hand out bounds the polls of a mode that does not wait.\<close>

definition polls_left :: "replayer \<Rightarrow> nat" where
  "polls_left r = 2 * (length (rpl_frames r) - rpl_cursor r) + (if rpl_pending_duplicate r = None then 0 else 1)"

lemma polls_left_done: "polls_left r = 0 \<longleftrightarrow> rpl_is_done r"
  by (auto simp: polls_left_def rpl_is_done_def)

lemma replay_loop_outcomes:
  "replay_loop now r = (p, r') \<Longrightarrow> rpl_pending_duplicate r = None \<Longrightarrow>
   base_timing (rpl_mode r) \<in> {AsFastAsPossible, Deterministic} \<Longrightarrow> \<not> poll_is_ready p \<Longrightarrow> rpl_is_done r'"
proof (induction now r rule: replay_loop.induct)
  case (1 now r)
  let ?f = "rpl_frames r ! rpl_cursor r"
  have wait: "timing_wait_ns now (rfr_captured_at_ns ?f) r = (None, r)"
    using "1.prems"(3) by (auto simp: timing_wait_ns_def Let_def)
  obtain d r2 where roll: "roll (fst (fault_percents r)) r = (d, r2)" by (rule prod.exhaust)
  have r2: "rpl_mode r2 = rpl_mode r" "rpl_pending_duplicate r2 = None"
    using roll "1.prems"(2) arg_cong [OF roll, of snd] by (auto simp: roll_def case_prod_beta)
  consider "length (rpl_frames r) \<le> rpl_cursor r" | (dropped) "rpl_cursor r < length (rpl_frames r)" d
    | (deliver) "rpl_cursor r < length (rpl_frames r)" "\<not> d" using not_le by blast
  then show ?case
  proof cases
    case 1
    with "1.prems" show ?thesis by (auto simp: replay_loop.simps [of now r] rpl_is_done_def)
  next
    case dropped
    with "1.prems"(1) have "replay_loop now (rpl_drop r2) = (p, r')"
      by (simp add: replay_loop.simps [of now r] wait roll)
    with "1.IH" [OF _ refl wait [symmetric] refl refl roll [symmetric] refl dropped(2)] dropped(1) r2 "1.prems"(3,4)
    show ?thesis by (simp add: rpl_drop_def)
  next
    case deliver
    with "1.prems"(1) have "deliver_frame ?f r2 = (p, r')"
      by (simp add: replay_loop.simps [of now r] wait roll)
    from deliver_frame_spec [OF this r2(2)] obtain e where "p = PollReady e" by blast
    with "1.prems"(4) show ?thesis by simp
  qed
qed

lemma poll_progress:
  assumes "next_frame_at t r = (p, r')" "base_timing (rpl_mode r) \<in> {AsFastAsPossible, Deterministic}"
    and "rpl_cursor r \<le> length (rpl_frames r)"
  shows "same_recording r r' \<and> rpl_cursor r' \<le> length (rpl_frames r') \<and>
    (polls_left r' < polls_left r \<or> rpl_is_done r')"
proof (cases "rpl_pending_duplicate r")
  case (Some e)
  with assms show ?thesis by (auto simp: next_frame_at_def polls_left_def same_recording_def)
next
  case None
  then have loop: "replay_loop t r = (p, r')" using assms(1) by (simp add: next_frame_at_def)
  from replay_loop_spec [OF this None assms(3)] obtain k where k: "loop_outcome r k p r'" by blast
  then have "same_recording r r'" "rpl_cursor r' \<le> length (rpl_frames r')"
    by (simp_all add: loop_outcome_def same_recording_def)
  moreover have "polls_left r' < polls_left r" if "p = PollReady e" for e
    using k that None by (auto simp: loop_outcome_def polls_left_def same_recording_def)
  ultimately show ?thesis
    using replay_loop_outcomes [OF loop None assms(2)] by (cases p) auto
qed

lemma polls_reach_done:
  "rpl_polls ts r = (ps, r') \<Longrightarrow> base_timing (rpl_mode r) \<in> {AsFastAsPossible, Deterministic} \<Longrightarrow>
   rpl_cursor r \<le> length (rpl_frames r) \<Longrightarrow> polls_left r \<le> length ts \<Longrightarrow> rpl_is_done r'"
proof (induction ts arbitrary: r ps)
  case Nil
  then show ?case by (simp add: polls_left_done)
next
  case (Cons t ts)
  obtain p r1 where s: "next_frame_at t r = (p, r1)" by (rule prod.exhaust)
  obtain ps' r2 where rest: "rpl_polls ts r1 = (ps', r2)" by (rule prod.exhaust)
  have r': "r' = r2" using Cons.prems(1) s rest by simp
  from poll_progress [OF s Cons.prems(2,3)] have "polls_left r1 \<le> length ts"
    using Cons.prems(4) polls_left_done [of r1] by auto
  then show ?case
    using Cons.IH [OF rest [folded r']] poll_progress [OF s Cons.prems(2,3)] Cons.prems(2)
    by (simp add: same_recording_def)
qed

text \<open>The loop at a frame, with no dice to roll.\<close>

lemma i64_saturating_add_val:
  "i64_val (i64_saturating_add a b) = max (- (2 ^ 63)) (min (2 ^ 63 - 1) (i64_val a + i64_val b))"
  by (auto simp: i64_saturating_add_def intro!: i64_val_of_int)

lemma i64_val_diff:
  "- (2 ^ 63) \<le> i64_val a - i64_val b \<Longrightarrow> i64_val a - i64_val b < 2 ^ 63 \<Longrightarrow>
   i64_val (a - b) = i64_val a - i64_val b"
  by (metis add_diff_cancel_right' diff_add_cancel i64_of_int_add i64_of_int_val i64_val_of_int)

lemma roll_none [simp]: "roll 0 r = (False, r)"
  by (simp add: roll_def percent_chance_def)

lemma deliver_ready: "poll_is_ready (fst (deliver_frame f r))"
  by (simp add: deliver_frame_def case_prod_beta Let_def)

lemma replay_loop_at:
  assumes "rpl_cursor r < length (rpl_frames r)"
  shows "replay_loop t r =
    (case timing_wait_ns t (rfr_captured_at_ns (rpl_frames r ! rpl_cursor r)) r of
       (Some w, r1) \<Rightarrow> (NotYet w, r1)
     | (None, r1) \<Rightarrow>
         let (dropped, r2) = roll (fst (fault_percents r1)) r1 in
         if dropped then replay_loop t (rpl_drop r2)
         else deliver_frame (rpl_frames r ! rpl_cursor r) r2)"
  using assms by (simp add: replay_loop.simps [of t r] Let_def split: prod.splits option.splits)

text \<open>A faultless replay: the frame itself, at its recorded time.\<close>

definition event_of :: "recorded_frame \<Rightarrow> replay_event" where
  "event_of f =
     \<lparr>rev_source_kind = rfr_source_kind f, rev_payload = rfr_payload f,
      rev_virtual_ts_ns = rfr_captured_at_ns f, rev_was_corrupted = False, rev_is_duplicate = False\<rparr>"

definition times_ordered :: "recorded_frame list \<Rightarrow> bool" where
  "times_ordered frames \<longleftrightarrow>
     sorted (map (\<lambda>f. i64_val (rfr_captured_at_ns f)) frames) \<and>
     (\<forall>f \<in> set frames. 0 \<le> i64_val (rfr_captured_at_ns f))"

definition on_time :: "recorded_frame list \<Rightarrow> replayer \<Rightarrow> bool" where
  "on_time frames r \<longleftrightarrow> rpl_frames r = frames \<and> rpl_pending_duplicate r = None \<and>
     (rpl_mode r = AsFastAsPossible \<or> rpl_mode r = Deterministic) \<and>
     (rpl_mode r = Deterministic \<and> frames \<noteq> [] \<longrightarrow> rpl_virtual_clock_ns r = rfr_captured_at_ns (frames ! (rpl_cursor r - 1)))"

lemma on_time_new:
  "mode = AsFastAsPossible \<or> mode = Deterministic \<Longrightarrow> times_ordered frames \<Longrightarrow> on_time frames (rpl_new frames mode)"
  by (cases frames) (simp_all add: on_time_def rpl_new_def Let_def)

lemma clock_step:
  assumes "0 \<le> i64_val a" "i64_val a \<le> i64_val b"
  shows "i64_saturating_add a (max (i64_saturating_sub b a) 0) = b"
proof -
  have "i64_val (i64_saturating_sub b a) = i64_val b - i64_val a"
    using assms i64_val_bounds [of b] by (simp add: i64_saturating_sub_val)
  moreover from this have "0 \<le> i64_saturating_sub b a"
    using assms(2) by (simp add: less_eq_i64_def)
  then have "max (i64_saturating_sub b a) 0 = i64_saturating_sub b a" by (rule max_absorb1)
  ultimately show ?thesis
    using i64_val_bounds [of b] by (simp add: i64_saturating_add_def)
qed

lemma on_time_step:
  assumes "on_time frames r" "times_ordered frames" "rpl_cursor r < length frames"
  shows "\<exists>r'. next_frame_at t r = (PollReady (event_of (frames ! rpl_cursor r)), r') \<and>
    on_time frames r' \<and> rpl_cursor r' = rpl_cursor r + 1"
proof -
  let ?k = "rpl_cursor r" and ?f = "frames ! rpl_cursor r"
  have no: "fault_percents r = (0, 0, 0)" "timing_wait_ns t c r = (None, r)" for c
    using assms(1) by (auto simp: on_time_def fault_percents_def timing_wait_ns_def Let_def)
  have clock: "fst (advance_virtual_clock (rfr_captured_at_ns ?f) r) = rfr_captured_at_ns ?f"
  proof (cases "0 < ?k")
    case True
    then have "i64_val (rfr_captured_at_ns (frames ! (?k - 1))) \<le> i64_val (rfr_captured_at_ns ?f)"
      using assms(2,3) sorted_nth_mono [of "map (\<lambda>f. i64_val (rfr_captured_at_ns f)) frames" "?k - 1" ?k]
      by (simp add: times_ordered_def)
    moreover have "0 \<le> i64_val (rfr_captured_at_ns (frames ! (?k - 1)))"
      using assms(2,3) True by (simp add: times_ordered_def)
    ultimately show ?thesis
      using assms(1,3) clock_step True by (auto simp: advance_virtual_clock_def on_time_def Let_def)
  qed (use assms(1,3) in \<open>auto simp: advance_virtual_clock_def on_time_def Let_def\<close>)
  have corrupt: "corrupt_payload 0 p r = ((p, False), r)" for p
    by (simp add: corrupt_payload_def)
  obtain r' where d: "deliver_frame ?f r = (PollReady (event_of ?f), r')"
    "rpl_virtual_clock_ns r' = rpl_virtual_clock_ns (snd (advance_virtual_clock (rfr_captured_at_ns ?f) r))"
    "rpl_frames r' = rpl_frames r" "rpl_mode r' = rpl_mode r" "rpl_cursor r' = ?k + 1"
    "rpl_pending_duplicate r' = rpl_pending_duplicate r"
    by (simp add: deliver_frame_def no corrupt case_prod_beta Let_def clock event_of_def)
  have "rpl_mode r = Deterministic \<Longrightarrow> rpl_virtual_clock_ns r' = rfr_captured_at_ns ?f"
    using clock by (simp add: d(2) advance_virtual_clock_def Let_def split: if_splits)
  moreover have "next_frame_at t r = (PollReady (event_of ?f), r')"
    using assms(1,3) replay_loop_at [of r t] by (simp add: next_frame_at_def on_time_def no d(1))
  ultimately show ?thesis using assms(1) d(3-6) by (auto simp: on_time_def)
qed

lemma on_time_polls:
  "on_time frames r \<Longrightarrow> times_ordered frames \<Longrightarrow> rpl_cursor r \<le> length frames \<Longrightarrow>
   fst (rpl_polls ts r) =
     map (\<lambda>f. PollReady (event_of f)) (take (length ts) (drop (rpl_cursor r) frames)) @
     replicate (length ts - (length frames - rpl_cursor r)) PollDone"
proof (induction ts arbitrary: r)
  case (Cons t ts)
  show ?case
  proof (cases "rpl_cursor r < length frames")
    case True
    from on_time_step [OF Cons.prems(1,2) True, of t] obtain r' where
      r': "next_frame_at t r = (PollReady (event_of (frames ! rpl_cursor r)), r')"
        "on_time frames r'" "rpl_cursor r' = rpl_cursor r + 1" by blast
    have "drop (rpl_cursor r) frames = frames ! rpl_cursor r # drop (rpl_cursor r + 1) frames"
      using True by (simp add: Cons_nth_drop_Suc)
    with Cons.IH [OF r'(2) Cons.prems(2)] r'(1,3) True show ?thesis
      by (simp add: case_prod_beta)
  next
    case False
    then have c: "rpl_cursor r = length frames" using Cons.prems(3) by simp
    then have "next_frame_at t r = (PollDone, r)"
      using Cons.prems(1) by (simp add: next_frame_at_def on_time_def replay_loop.simps [of t r])
    with Cons.IH [OF Cons.prems(1-3)] c show ?thesis by (simp add: case_prod_beta)
  qed
qed simp

section \<open>Properties\<close>

definition sample_frames :: "recorded_frame list" where
  "sample_frames = [rfr_raw_ws 100 [1], rfr_raw_ws 200 [2, 3], rfr_normalized 300 []]"

lemma sample_ordered: "times_ordered sample_frames"
  by (simp add: times_ordered_def sample_frames_def rfr_raw_ws_def rfr_normalized_def rfr_new_def eval_simps)

lemma sample_polls:
  "fst (rpl_polls [0, 0, 0, 0] (rpl_new sample_frames Deterministic)) =
     map (\<lambda>f. PollReady (event_of f)) sample_frames @ [PollDone]"
proof -
  have "rpl_cursor (rpl_new sample_frames Deterministic) = 0" by (simp add: rpl_new_def Let_def)
  then show ?thesis
    using on_time_polls [OF on_time_new [OF _ sample_ordered] sample_ordered, of Deterministic "[0, 0, 0, 0]"]
    by (simp add: sample_frames_def)
qed



text \<open>A reset puts the replayer back into its initial state, so that the same polls give the
  same results again, faults included.\<close>

theorem reset_reproduces:
  assumes "rpl_polls ts (rpl_new frames mode) = (ps, r)"
  shows "rpl_reset r = rpl_new frames mode \<and> rpl_polls ts (rpl_reset r) = (ps, r)"
proof -
  have "rpl_cursor (rpl_new frames mode) \<le> length (rpl_frames (rpl_new frames mode))"
    by (simp add: rpl_new_def Let_def)
  from polls_same_recording [OF assms this] have "rpl_reset r = rpl_new frames mode"
    by (simp add: same_recording_def rpl_reset_def rpl_new_def Let_def)
  with assms show ?thesis by simp
qed

theorem reset_reproduces_witness:
  "rpl_reset (snd (rpl_polls [0, 50] (rpl_new sample_frames OriginalTiming))) = rpl_new sample_frames OriginalTiming"
  using reset_reproduces [OF prod.collapse [symmetric], of "[0, 50]" sample_frames OriginalTiming] by blast

text \<open>Under the original timing a frame is released exactly when as much time has passed since
  the first poll as lay between it and the first frame of the recording, and the wait announced
  to an earlier poll is exact: a poll after it gets the frame.\<close>

theorem original_timing_gate:
  assumes "rpl_mode r = OriginalTiming" "rpl_pending_duplicate r = None" "rpl_start_real_ns r = Some start"
    and "rpl_cursor r < length (rpl_frames r)"
    and "0 \<le> i64_val start" "0 \<le> i64_val now" "0 \<le> i64_val (rpl_start_virtual_ns r)"
    and "c = rfr_captured_at_ns (rpl_frames r ! rpl_cursor r)" "0 \<le> i64_val c"
    and "due = i64_val start + (i64_val c - i64_val (rpl_start_virtual_ns r))" "- (2 ^ 63) \<le> due" "due < 2 ^ 63"
  shows "(poll_is_ready (fst (next_frame_at now r)) \<longleftrightarrow> due \<le> i64_val now) \<and>
    (\<forall>w. fst (next_frame_at now r) = NotYet w \<longrightarrow>
       0 < i64_val w \<and> i64_val (now + w) = due \<and>
       poll_is_ready (fst (next_frame_at (now + w) (snd (next_frame_at now r)))))"
proof -
  let ?v = "rpl_start_virtual_ns r"
  have off: "i64_val (i64_saturating_sub c ?v) = i64_val c - i64_val ?v"
    using assms(7,9) i64_val_bounds [of c] i64_val_bounds [of ?v] by (simp add: i64_saturating_sub_val)
  have emit: "i64_val (i64_saturating_add start (i64_saturating_sub c ?v)) = due"
    using assms(10-12) by (simp add: i64_saturating_add_val off)
  have wait: "i64_val (i64_saturating_add start (i64_saturating_sub c ?v) - t) = due - i64_val t"
    if "0 \<le> i64_val t" "i64_val t < due" for t
    using that assms(12) by (simp add: i64_val_diff emit)
  have poll: "if due \<le> i64_val t then poll_is_ready (fst (next_frame_at t r))
      else next_frame_at t r = (NotYet (i64_saturating_add start (i64_saturating_sub c ?v) - t), r)" for t
    using assms(1-4) replay_loop_at [OF assms(4), of t]
    by (auto simp: next_frame_at_def timing_wait_ns_def wait_until_def assms(8) [symmetric]
        less_eq_i64_def emit fault_percents_def roll_none deliver_ready Let_def)
  show ?thesis
  proof (cases "due \<le> i64_val now")
    case True
    then show ?thesis using poll [of now] by (cases "fst (next_frame_at now r)") auto
  next
    case False
    let ?w = "i64_saturating_add start (i64_saturating_sub c ?v) - now"
    have w: "i64_val ?w = due - i64_val now" using wait [of now] False assms(6) by simp
    have "i64_val (now + ?w) = due"
      using w False assms(6,12) i64_val_add [of now ?w] by simp
    with poll [of now] poll [of "now + ?w"] False w show ?thesis by auto
  qed
qed

theorem original_timing_gate_witness:
  "poll_is_ready (fst (next_frame_at 1100 ((rpl_new sample_frames OriginalTiming)
     \<lparr>rpl_start_real_ns := Some 1000, rpl_cursor := 1\<rparr>)))"
proof -
  let ?r = "(rpl_new sample_frames OriginalTiming)\<lparr>rpl_start_real_ns := Some 1000, rpl_cursor := 1\<rparr>"
  have "i64_val 1000 = 1000" "i64_val 1100 = 1100" "i64_val 100 = 100" "i64_val 200 = 200"
    by (simp_all add: eval_simps)
  note v = this
  have "poll_is_ready (fst (next_frame_at 1100 ?r)) \<longleftrightarrow> 1100 \<le> i64_val 1100"
    by (rule original_timing_gate [of ?r 1000 1100 200 1100, THEN conjunct1])
      (simp_all add: v rpl_new_def Let_def sample_frames_def rfr_raw_ws_def rfr_new_def)
  then show ?thesis by (simp add: v)
qed

text \<open>Without faults, the two modes that do not wait replay the recording exactly: poll by
  poll every frame once, unchanged and at its recorded time, then nothing but \<open>Done\<close>.\<close>

theorem faultless_replay_exact:
  assumes "mode = AsFastAsPossible \<or> mode = Deterministic" "times_ordered frames"
  shows "fst (rpl_polls ts (rpl_new frames mode)) =
    map (\<lambda>f. PollReady (event_of f)) (take (length ts) frames) @
    replicate (length ts - length frames) PollDone"
proof -
  have "rpl_cursor (rpl_new frames mode) = 0" by (simp add: rpl_new_def Let_def)
  then show ?thesis using on_time_polls [OF on_time_new [OF assms] assms(2), of ts] by simp
qed

theorem faultless_replay_exact_witness:
  "fst (rpl_polls [0, 0, 0, 0] (rpl_new sample_frames AsFastAsPossible)) =
     map (\<lambda>f. PollReady (event_of f)) sample_frames @ [PollDone]"
  using faultless_replay_exact [OF _ sample_ordered, of AsFastAsPossible "[0, 0, 0, 0]"]
  by (simp add: sample_frames_def)

text \<open>A replay that does not wait ends: whatever faults are injected, two polls per frame of the
  recording bring it to its end.\<close>

theorem replay_finishes:
  assumes "base_timing mode \<in> {AsFastAsPossible, Deterministic}" "2 * length frames \<le> length ts"
  shows "rpl_is_done (snd (rpl_polls ts (rpl_new frames mode)))"
  by (rule polls_reach_done [OF prod.collapse [symmetric]])
    (use assms in \<open>simp_all add: rpl_new_def Let_def polls_left_def\<close>)

theorem replay_finishes_witness:
  "rpl_is_done (snd (rpl_polls (replicate 6 0) (rpl_new sample_frames (FaultInjection Deterministic
     \<lparr>fc_drop_percent = 20, fc_corrupt_percent = 10, fc_duplicate_percent = 100, fc_seed = 1\<rparr>))))"
  by (rule replay_finishes) (simp_all add: sample_frames_def)

text \<open>In deterministic mode a dropped frame slows the virtual clock: the frame after it is
  stamped as if the time between the dropped frame and its predecessor had not passed.\<close>

theorem dropped_frame_skews_clock:
  assumes "base_timing (rpl_mode r) = Deterministic" "rpl_pending_duplicate r = None"
    and "0 < rpl_cursor r" "rpl_cursor r + 1 < length (rpl_frames r)"
    and "roll (fst (fault_percents r)) r = (True, r2)"
    and "roll (fst (fault_percents r)) (rpl_drop r2) = (False, r3)"
    and "c0 = rfr_captured_at_ns (rpl_frames r ! rpl_cursor r)"
    and "c1 = rfr_captured_at_ns (rpl_frames r ! (rpl_cursor r + 1))"
  shows "\<exists>e r'. next_frame_at t r = (PollReady e, r') \<and>
    rev_virtual_ts_ns e = i64_saturating_add (rpl_virtual_clock_ns r) (max (i64_saturating_sub c1 c0) 0)"
proof -
  have r2: "rpl_frames r2 = rpl_frames r" "rpl_mode r2 = rpl_mode r" "rpl_cursor r2 = rpl_cursor r"
    "rpl_virtual_clock_ns r2 = rpl_virtual_clock_ns r"
    using arg_cong [OF assms(5), of snd] by (auto dest: sym)
  have r3: "rpl_frames r3 = rpl_frames r" "rpl_mode r3 = rpl_mode r" "rpl_cursor r3 = rpl_cursor r + 1"
    "rpl_virtual_clock_ns r3 = rpl_virtual_clock_ns r"
    using arg_cong [OF assms(6), of snd] r2 by (auto simp: rpl_drop_def dest: sym)
  have same: "timing_wait_ns t c r = (None, r)" "timing_wait_ns t c (rpl_drop r2) = (None, rpl_drop r2)"
    "fault_percents (rpl_drop r2) = fault_percents r" for c
    using assms(1) r2 by (simp_all add: timing_wait_ns_def fault_percents_def rpl_drop_def Let_def)
  have "next_frame_at t r = deliver_frame (rpl_frames r ! (rpl_cursor r + 1)) r3"
    using assms(2,4,5,6) r2 replay_loop_at [of r t] replay_loop_at [of "rpl_drop r2" t]
    by (simp add: next_frame_at_def same) (simp add: rpl_drop_def)
  then show ?thesis
    using assms(1,7,8) r3
    by (simp add: deliver_frame_def case_prod_beta Let_def advance_virtual_clock_def)
qed

definition sample_lossy :: replayer where
  "sample_lossy = (rpl_new sample_frames
       (FaultInjection Deterministic \<lparr>fc_drop_percent = 50, fc_corrupt_percent = 0,
          fc_duplicate_percent = 0, fc_seed = 1\<rparr>))
     \<lparr>rpl_cursor := 1, rpl_prng := snd (prng_next (prng_new 1))\<rparr>"

lemma sample_rolls:
  "prng_next (prng_new 1) = (1082269761, \<lparr>prng_state = 1082269761\<rparr>)"
  "prng_next \<lparr>prng_state = 1082269761\<rparr> = (1152992998833853505, \<lparr>prng_state = 1152992998833853505\<rparr>)"
  "prng_next \<lparr>prng_state = 1152992998833853505\<rparr> =
     (11177516664432764457, \<lparr>prng_state = 11177516664432764457\<rparr>)"
  by (simp_all add: prng_next_def prng_new_def)

theorem dropped_frame_skews_clock_witness:
  "\<exists>e r'. next_frame_at 0 sample_lossy = (PollReady e, r') \<and> rev_virtual_ts_ns e = 200"
proof -
  have f: "fault_percents sample_lossy = (50, 0, 0)" by (simp add: sample_lossy_def rpl_new_def fault_percents_def Let_def)
  obtain r2 where r2: "roll 50 sample_lossy = (True, r2)" "rpl_prng r2 = \<lparr>prng_state = 1152992998833853505\<rparr>"
    by (simp add: roll_def percent_chance_def sample_lossy_def sample_rolls)
  then have "\<exists>r3. roll 50 (rpl_drop r2) = (False, r3)"
    by (simp add: roll_def percent_chance_def rpl_drop_def sample_rolls)
  then obtain r3 where rolls: "roll (fst (fault_percents sample_lossy)) sample_lossy = (True, r2)"
    "roll (fst (fault_percents sample_lossy)) (rpl_drop r2) = (False, r3)" using r2(1) by (auto simp: f)
  from dropped_frame_skews_clock [OF _ _ _ _ rolls refl refl, of 0] show ?thesis
    by (simp add: sample_lossy_def rpl_new_def Let_def sample_frames_def rfr_raw_ws_def rfr_normalized_def
        rfr_new_def i64_saturating_add_def i64_saturating_sub_def eval_simps)
qed

end
