(* ===== verification/Harness.thy ===== *)
theory Harness
  imports Order_Book Decimal "HOL-Library.Char_ord" "HOL-Library.List_Lexorder"
begin

text \<open>
  The synthetic book harness, \<open>order-book/src/harness.rs\<close>: generated snapshots and deltas driven
  through a map of books, and the scan for violated invariants. The hash map of books is an
  association list, whose order stands for the unspecified iteration order.
\<close>

section \<open>Prices and quantities\<close>

definition MID_PRICE :: i64 where "MID_PRICE = 100000"
definition TICK_SIZE :: i64 where "TICK_SIZE = 100"
definition WIDE_BID_PRICE :: i64 where "WIDE_BID_PRICE = TICK_SIZE"
definition WIDE_ASK_PRICE :: i64 where "WIDE_ASK_PRICE = 1000000000"

record harness_prng =
  hp_state :: u64

definition hp_new :: "u64 \<Rightarrow> harness_prng" where
  "hp_new seed = \<lparr>hp_state = (if seed = 0 then 0xDEADBEEFCAFEF00D else seed)\<rparr>"

definition hp_next :: "harness_prng \<Rightarrow> u64 \<times> harness_prng" where
  "hp_next g =
     (let x1 = hp_state g XOR push_bit 13 (hp_state g);
          x2 = x1 XOR drop_bit 7 x1;
          x3 = x2 XOR push_bit 17 x2
      in (x3, g\<lparr>hp_state := x3\<rparr>))"

text \<open>A quantity in [1, 1000].\<close>

definition hp_qty :: "harness_prng \<Rightarrow> i64 \<times> harness_prng" where
  "hp_qty g = (let (x, g1) = hp_next g in (1 + I64 (x mod 1000), g1))"

definition bid_price_at :: "nat \<Rightarrow> i64" where
  "bid_price_at i = MID_PRICE - TICK_SIZE * (i64_of_int (int i) + 1)"

definition ask_price_at :: "nat \<Rightarrow> i64" where
  "ask_price_at i = MID_PRICE + TICK_SIZE * (i64_of_int (int i) + 1)"

text \<open>One level per index, each with the next quantity of the generator.\<close>

fun gen_levels :: "(nat \<Rightarrow> i64) \<Rightarrow> nat list \<Rightarrow> harness_prng \<Rightarrow> price_level list \<times> harness_prng" where
  "gen_levels price [] g = ([], g)"
| "gen_levels price (i # is) g =
     (let (q, g1) = hp_qty g; (ls, g2) = gen_levels price is g1 in
      (\<lparr>pl_price = price i, pl_qty = q\<rparr> # ls, g2))"

definition make_bid_levels :: "nat \<Rightarrow> harness_prng \<Rightarrow> price_level list \<times> harness_prng" where
  "make_bid_levels count g = gen_levels bid_price_at [0..<count] g"

definition make_ask_levels :: "nat \<Rightarrow> harness_prng \<Rightarrow> price_level list \<times> harness_prng" where
  "make_ask_levels count g = gen_levels ask_price_at [0..<count] g"

section \<open>Messages\<close>

definition harness_header :: "message_type \<Rightarrow> message_header" where
  "harness_header t =
     \<lparr>mh_schema_version = SCHEMA_VERSION, mh_message_type = t, mh_venue_id = BinanceSpot,
      mh_market_type = Spot, mh_instrument_id = 0, mh_connection_id = 0, mh_instance_id = 0,
      mh_sequence_number = 0, mh_exchange_event_ts = TS_NONE, mh_exchange_tx_ts = TS_NONE,
      mh_local_recv_ts = TS_NONE, mh_local_publish_ts = TS_NONE\<rparr>"

definition make_snapshot ::
  "string \<Rightarrow> u64 \<Rightarrow> price_level list \<Rightarrow> price_level list \<Rightarrow> BookSnapshot" where
  "make_snapshot symbol uid bids asks =
     \<lparr>bs_header = harness_header MT_BookSnapshot, bs_symbol = symbol, bs_price_scale = 2,
      bs_qty_scale = 3, bs_update_id = uid, bs_bids = bids, bs_asks = asks\<rparr>"

definition make_delta ::
  "string \<Rightarrow> u64 \<Rightarrow> price_level list \<Rightarrow> price_level list \<Rightarrow> BookDelta" where
  "make_delta symbol uid bids asks =
     \<lparr>bd_header = harness_header MT_BookDelta, bd_symbol = symbol, bd_price_scale = 2,
      bd_qty_scale = 3, bd_first_update_id = uid, bd_final_update_id = uid,
      bd_prev_update_id = UPDATE_ID_NONE, bd_bids = bids, bd_asks = asks\<rparr>"

section \<open>The harness\<close>

record harness_stats =
  hst_snapshots_applied :: u64
  hst_deltas_applied :: u64

definition hst_default :: harness_stats where
  "hst_default = \<lparr>hst_snapshots_applied = 0, hst_deltas_applied = 0\<rparr>"

record synthetic_harness =
  sh_books :: "(string, order_book) hash_map"
  sh_seq :: u64
  sh_prng :: harness_prng
  sh_stats :: harness_stats

definition sh_new :: "u64 \<Rightarrow> synthetic_harness" where
  "sh_new seed = \<lparr>sh_books = [], sh_seq = 0, sh_prng = hp_new seed, sh_stats = hst_default\<rparr>"

definition sh_next_seq :: "synthetic_harness \<Rightarrow> u64 \<times> synthetic_harness" where
  "sh_next_seq h = (let s = sh_seq h + 1 in (s, h\<lparr>sh_seq := s\<rparr>))"

definition sh_add_symbol :: "string \<Rightarrow> synthetic_harness \<Rightarrow> synthetic_harness" where
  "sh_add_symbol s h =
     (case map_of (sh_books h) s of
        Some _ \<Rightarrow> h
      | None \<Rightarrow> h\<lparr>sh_books := AList.update s (OrderBook_new s) (sh_books h)\<rparr>)"

text \<open>\<open>SYM{i:06}\<close>.\<close>

definition symbol_name :: "nat \<Rightarrow> string" where
  "symbol_name i = ''SYM'' @ replicate (6 - length (dec_str i)) CHR ''0'' @ dec_str i"

definition sh_add_symbol_count :: "nat \<Rightarrow> synthetic_harness \<Rightarrow> synthetic_harness" where
  "sh_add_symbol_count n h = fold (\<lambda>i. sh_add_symbol (symbol_name i)) [1..<n + 1] h"

definition sh_with_symbol_count :: "nat \<Rightarrow> u64 \<Rightarrow> synthetic_harness" where
  "sh_with_symbol_count n seed = sh_add_symbol_count n (sh_new seed)"

definition sh_with_symbols :: "string list \<Rightarrow> u64 \<Rightarrow> synthetic_harness" where
  "sh_with_symbols symbols seed = fold sh_add_symbol symbols (sh_new seed)"

text \<open>The end of every operation: a registered book takes the message and the event is counted.\<close>

definition sh_apply_snapshot :: "string \<Rightarrow> BookSnapshot \<Rightarrow> synthetic_harness \<Rightarrow> synthetic_harness" where
  "sh_apply_snapshot symbol snap h =
     (case map_of (sh_books h) symbol of
        None \<Rightarrow> h
      | Some b \<Rightarrow> h\<lparr>sh_books := AList.update symbol (apply_snapshot snap b) (sh_books h),
          sh_stats := (sh_stats h)
            \<lparr>hst_snapshots_applied := hst_snapshots_applied (sh_stats h) + 1\<rparr>\<rparr>)"

definition sh_apply_delta :: "string \<Rightarrow> BookDelta \<Rightarrow> synthetic_harness \<Rightarrow> synthetic_harness" where
  "sh_apply_delta symbol d h =
     (case map_of (sh_books h) symbol of
        None \<Rightarrow> h
      | Some b \<Rightarrow> h\<lparr>sh_books := AList.update symbol (apply_delta d b) (sh_books h),
          sh_stats := (sh_stats h)\<lparr>hst_deltas_applied := hst_deltas_applied (sh_stats h) + 1\<rparr>\<rparr>)"

definition sh_apply_snapshot_for ::
  "string \<Rightarrow> nat \<Rightarrow> nat \<Rightarrow> synthetic_harness \<Rightarrow> synthetic_harness" where
  "sh_apply_snapshot_for symbol bid_levels ask_levels h =
     (let (uid, h1) = sh_next_seq h;
          (bids, g1) = make_bid_levels bid_levels (sh_prng h1);
          (asks, g2) = make_ask_levels ask_levels g1
      in sh_apply_snapshot symbol (make_snapshot symbol uid bids asks) (h1\<lparr>sh_prng := g2\<rparr>))"

definition sh_apply_delta_for ::
  "string \<Rightarrow> nat \<Rightarrow> nat \<Rightarrow> synthetic_harness \<Rightarrow> synthetic_harness" where
  "sh_apply_delta_for symbol bid_levels ask_levels h =
     (let (uid, h1) = sh_next_seq h;
          (bids, g1) = make_bid_levels bid_levels (sh_prng h1);
          (asks, g2) = make_ask_levels ask_levels g1
      in sh_apply_delta symbol (make_delta symbol uid bids asks) (h1\<lparr>sh_prng := g2\<rparr>))"

definition sh_apply_zero_update :: "string \<Rightarrow> synthetic_harness \<Rightarrow> u64 \<times> synthetic_harness" where
  "sh_apply_zero_update symbol h =
     (let (uid, h1) = sh_next_seq h in
      (uid, sh_apply_delta symbol (make_delta symbol uid [] []) h1))"

definition sh_apply_wide_spread :: "string \<Rightarrow> synthetic_harness \<Rightarrow> synthetic_harness" where
  "sh_apply_wide_spread symbol h =
     (let (uid, h1) = sh_next_seq h;
          (q1, g1) = hp_qty (sh_prng h1);
          (q2, g2) = hp_qty g1
      in sh_apply_snapshot symbol
           (make_snapshot symbol uid [\<lparr>pl_price = WIDE_BID_PRICE, pl_qty = q1\<rparr>]
              [\<lparr>pl_price = WIDE_ASK_PRICE, pl_qty = q2\<rparr>]) (h1\<lparr>sh_prng := g2\<rparr>))"

definition sh_apply_empty_bid_side :: "string \<Rightarrow> synthetic_harness \<Rightarrow> synthetic_harness" where
  "sh_apply_empty_bid_side symbol h =
     (let (uid, h1) = sh_next_seq h; (asks, g1) = make_ask_levels 5 (sh_prng h1) in
      sh_apply_snapshot symbol (make_snapshot symbol uid [] asks) (h1\<lparr>sh_prng := g1\<rparr>))"

definition sh_apply_empty_ask_side :: "string \<Rightarrow> synthetic_harness \<Rightarrow> synthetic_harness" where
  "sh_apply_empty_ask_side symbol h =
     (let (uid, h1) = sh_next_seq h; (bids, g1) = make_bid_levels 5 (sh_prng h1) in
      sh_apply_snapshot symbol (make_snapshot symbol uid bids []) (h1\<lparr>sh_prng := g1\<rparr>))"

definition sh_apply_delisting :: "string \<Rightarrow> synthetic_harness \<Rightarrow> synthetic_harness" where
  "sh_apply_delisting symbol h =
     (let (uid, h1) = sh_next_seq h in
      sh_apply_snapshot symbol (make_snapshot symbol uid [] []) h1)"

definition sh_apply_large_batch :: "string \<Rightarrow> nat \<Rightarrow> synthetic_harness \<Rightarrow> synthetic_harness" where
  "sh_apply_large_batch symbol level_count h =
     (let (uid, h1) = sh_next_seq h;
          (bids, g1) = gen_levels bid_price_at [0..<level_count] (sh_prng h1);
          (asks, g2) = gen_levels ask_price_at [0..<level_count] g1
      in sh_apply_snapshot symbol (make_snapshot symbol uid bids asks) (h1\<lparr>sh_prng := g2\<rparr>))"

text \<open>Broadcasts visit the symbols in sorted order.\<close>

definition sh_broadcast_snapshot :: "nat \<Rightarrow> nat \<Rightarrow> synthetic_harness \<Rightarrow> synthetic_harness" where
  "sh_broadcast_snapshot bid_levels ask_levels h =
     fold (\<lambda>sym. sh_apply_snapshot_for sym bid_levels ask_levels) (sort (map fst (sh_books h))) h"

definition sh_broadcast_delta :: "nat \<Rightarrow> nat \<Rightarrow> synthetic_harness \<Rightarrow> synthetic_harness" where
  "sh_broadcast_delta bid_levels ask_levels h =
     fold (\<lambda>sym. sh_apply_delta_for sym bid_levels ask_levels) (sort (map fst (sh_books h))) h"

definition sh_broadcast_zero_update :: "synthetic_harness \<Rightarrow> synthetic_harness" where
  "sh_broadcast_zero_update h =
     fold (\<lambda>sym h. snd (sh_apply_zero_update sym h)) (sort (map fst (sh_books h))) h"

definition sh_book :: "string \<Rightarrow> synthetic_harness \<Rightarrow> order_book option" where
  "sh_book symbol h = map_of (sh_books h) symbol"

definition sh_symbol_count :: "synthetic_harness \<Rightarrow> nat" where
  "sh_symbol_count h = length (sh_books h)"

definition sh_current_seq :: "synthetic_harness \<Rightarrow> u64" where
  "sh_current_seq h = sh_seq h"

section \<open>The scan for violations\<close>

datatype invariant_violation =
    BidAskCrossed string i64 i64
  | NonPositiveQty string string i64 i64

definition iv_is_clean :: "invariant_violation list \<Rightarrow> bool" where
  "iv_is_clean vs \<longleftrightarrow> vs = []"

definition iv_count :: "invariant_violation list \<Rightarrow> nat" where
  "iv_count vs = length vs"

definition level_violations :: "string \<Rightarrow> string \<Rightarrow> price_level list \<Rightarrow> invariant_violation list" where
  "level_violations symbol side ls =
     map (\<lambda>l. NonPositiveQty symbol side (pl_price l) (pl_qty l)) (filter (\<lambda>l. pl_qty l \<le> 0) ls)"

definition book_violations :: "string \<Rightarrow> order_book \<Rightarrow> invariant_violation list" where
  "book_violations symbol b =
     (case (best_bid b, best_ask b) of
        (Some bb, Some ba) \<Rightarrow>
          if pl_price ba \<le> pl_price bb then [BidAskCrossed symbol (pl_price bb) (pl_price ba)] else []
      | _ \<Rightarrow> []) @
     level_violations symbol ''bid'' (book_bids b) @ level_violations symbol ''ask'' (book_asks b)"

definition sh_check_invariants :: "synthetic_harness \<Rightarrow> invariant_violation list" where
  "sh_check_invariants h = concat (map (\<lambda>(symbol, b). book_violations symbol b) (sh_books h))"

end
