(* ===== verification/Harness_Properties.thy ===== *)
theory Harness_Properties
  imports Harness
begin

text \<open>
  What the synthetic harness keeps: its books never cross and hold only positive quantities,
  whatever operations are run; a broadcast does not depend on the iteration order of the hash
  map; and a delta rewrites the levels of the snapshot before it.
\<close>

section \<open>Generated levels\<close>

lemma i64_of_int_diff: "i64_of_int (a - b) = i64_of_int a - i64_of_int b"
  by (simp add: i64_of_int_def minus_i64_def)

lemma i64_of_int_numeral: "i64_of_int (numeral k) = numeral k" "i64_of_int 1 = 1"
  by (simp_all add: i64_of_int_def numeral_i64 one_i64_def)

lemma price_at_val:
  assumes "i < 2 ^ 56"
  shows "i64_val (bid_price_at i) = 100000 - 100 * (int i + 1)"
    and "i64_val (ask_price_at i) = 100000 + 100 * (int i + 1)"
proof -
  have "bid_price_at i = i64_of_int (100000 - 100 * (int i + 1))"
    "ask_price_at i = i64_of_int (100000 + 100 * (int i + 1))"
    by (simp_all only: bid_price_at_def ask_price_at_def MID_PRICE_def TICK_SIZE_def
        i64_of_int_add i64_of_int_diff i64_of_int_mult i64_of_int_numeral)
  then show "i64_val (bid_price_at i) = 100000 - 100 * (int i + 1)"
    and "i64_val (ask_price_at i) = 100000 + 100 * (int i + 1)"
    using assms by (simp_all add: i64_val_of_int)
qed

lemma mid_val: "i64_val MID_PRICE = 100000" "i64_val WIDE_BID_PRICE = 100" "i64_val WIDE_ASK_PRICE = 1000000000"
  by (simp_all add: MID_PRICE_def WIDE_BID_PRICE_def TICK_SIZE_def WIDE_ASK_PRICE_def eval_simps)

lemma price_at_inj:
  "inj_on bid_price_at {..<2 ^ 56}" "inj_on ask_price_at {..<2 ^ 56}"
  by (rule inj_onI; drule arg_cong [of _ _ i64_val]; simp add: price_at_val)+

lemma hp_qty_positive: "0 < fst (hp_qty g)"
proof -
  let ?x = "fst (hp_next g) mod 1000"
  have small: "0 \<le> uint ?x" "uint ?x < 1000" by (simp_all add: uint_mod)
  have "i64_val (i64_of_int (uint ?x)) = uint ?x"
    using small i64_val_of_int [of "uint ?x"] order_trans [of "- (2 ^ 63)" 0 "uint ?x"] by simp
  then have "i64_val (I64 ?x) = uint ?x" by (simp add: i64_of_int_def)
  then have "i64_val (1 + I64 ?x) = 1 + uint ?x"
    using small i64_val_add [of 1 "I64 ?x"] by (simp add: eval_simps i64_val_def [symmetric])
  then have "0 < i64_val (1 + I64 ?x)" using small(1) by linarith
  then show ?thesis by (simp add: hp_qty_def case_prod_beta less_i64_def)
qed

definition levels_within :: "(i64 \<Rightarrow> bool) \<Rightarrow> price_level list \<Rightarrow> bool" where
  "levels_within P ls \<longleftrightarrow> (\<forall>l \<in> set ls. P (pl_price l) \<and> 0 < pl_qty l)"

lemma gen_levels_ok: "\<forall>i \<in> set is. P (price i) \<Longrightarrow> levels_within P (fst (gen_levels price is g))"
  by (induction "is" arbitrary: g) (auto simp: levels_within_def case_prod_beta hp_qty_positive)

lemma gen_levels_prices: "map pl_price (fst (gen_levels price is g)) = map price is"
  by (induction "is" arbitrary: g) (simp_all add: case_prod_beta)

lemma bid_levels_ok: "n \<le> 2 ^ 56 \<Longrightarrow> levels_within (\<lambda>p. p < MID_PRICE) (fst (make_bid_levels n g))"
  unfolding make_bid_levels_def by (rule gen_levels_ok) (simp add: less_i64_def price_at_val mid_val)

lemma ask_levels_ok: "n \<le> 2 ^ 56 \<Longrightarrow> levels_within (\<lambda>p. MID_PRICE < p) (fst (make_ask_levels n g))"
  unfolding make_ask_levels_def by (rule gen_levels_ok) (simp add: less_i64_def price_at_val mid_val)

section \<open>Books apart from the middle\<close>

definition side_ok :: "(i64 \<Rightarrow> bool) \<Rightarrow> (i64, i64) btree_map \<Rightarrow> bool" where
  "side_ok P m \<longleftrightarrow> (\<forall>e \<in> set m. P (fst e) \<and> 0 < snd e)"

lemma apply_levels_ok: "side_ok P m \<Longrightarrow> levels_within P ls \<Longrightarrow> side_ok P (apply_levels m ls)"
proof (induction ls arbitrary: m)
  case (Cons l ls)
  from Cons.prems have "side_ok P (bt_insert (pl_price l) (pl_qty l) m)"
    using set_bt_insert_subset [of "pl_price l" "pl_qty l" m] by (fastforce simp: side_ok_def levels_within_def)
  moreover have "levels_within P ls" "pl_qty l \<noteq> 0" using Cons.prems by (auto simp: levels_within_def)
  ultimately show ?case using Cons.IH by simp
qed simp

lemma snapshot_side_ok: "levels_within P ls \<Longrightarrow> side_ok P (snapshot_side ls)"
  unfolding snapshot_side_levels by (rule apply_levels_ok) (auto simp: side_ok_def levels_within_def)

definition harness_book_ok :: "order_book \<Rightarrow> bool" where
  "harness_book_ok b \<longleftrightarrow> side_ok (\<lambda>p. p < MID_PRICE) (ob_bids b) \<and> side_ok (\<lambda>p. MID_PRICE < p) (ob_asks b)"

definition harness_ok :: "synthetic_harness \<Rightarrow> bool" where
  "harness_ok h \<longleftrightarrow> hm_wf (sh_books h) \<and> (\<forall>s b. map_of (sh_books h) s = Some b \<longrightarrow> harness_book_ok b)"

lemma harness_ok_fields [simp]:
  "harness_ok (h\<lparr>sh_seq := s\<rparr>) = harness_ok h" "harness_ok (h\<lparr>sh_prng := g\<rparr>) = harness_ok h"
  "harness_ok (snd (sh_next_seq h)) = harness_ok h"
  by (simp_all add: harness_ok_def sh_next_seq_def Let_def)

lemma harness_ok_new: "harness_ok (sh_new seed)"
  by (simp add: harness_ok_def sh_new_def)

lemma harness_ok_add: "harness_ok h \<Longrightarrow> harness_ok (sh_add_symbol s h)"
  by (auto simp: harness_ok_def sh_add_symbol_def harness_book_ok_def OrderBook_new_def side_ok_def
      split: option.splits)

lemma harness_ok_snapshot:
  "harness_ok h \<Longrightarrow> levels_within (\<lambda>p. p < MID_PRICE) bids \<Longrightarrow> levels_within (\<lambda>p. MID_PRICE < p) asks \<Longrightarrow>
   harness_ok (sh_apply_snapshot s (make_snapshot s' uid bids asks) h)"
  by (auto simp: harness_ok_def sh_apply_snapshot_def harness_book_ok_def apply_snapshot_def
      make_snapshot_def snapshot_side_ok split: option.splits)

lemma harness_ok_delta:
  "harness_ok h \<Longrightarrow> levels_within (\<lambda>p. p < MID_PRICE) bids \<Longrightarrow> levels_within (\<lambda>p. MID_PRICE < p) asks \<Longrightarrow>
   harness_ok (sh_apply_delta s (make_delta s' uid bids asks) h)"
  by (auto simp: harness_ok_def sh_apply_delta_def harness_book_ok_def apply_delta_def
      make_delta_def apply_levels_ok split: option.splits)

lemma levels_within_Nil [simp]: "levels_within P []"
  by (simp add: levels_within_def)

lemma harness_ok_snapshot_for:
  "harness_ok h \<Longrightarrow> n \<le> 2 ^ 56 \<Longrightarrow> m \<le> 2 ^ 56 \<Longrightarrow> harness_ok (sh_apply_snapshot_for s n m h)"
  by (simp add: sh_apply_snapshot_for_def case_prod_beta Let_def harness_ok_snapshot bid_levels_ok ask_levels_ok)

lemma harness_ok_delta_for:
  "harness_ok h \<Longrightarrow> n \<le> 2 ^ 56 \<Longrightarrow> m \<le> 2 ^ 56 \<Longrightarrow> harness_ok (sh_apply_delta_for s n m h)"
  by (simp add: sh_apply_delta_for_def case_prod_beta Let_def harness_ok_delta bid_levels_ok ask_levels_ok)

lemma harness_ok_zero: "harness_ok h \<Longrightarrow> harness_ok (snd (sh_apply_zero_update s h))"
  by (simp add: sh_apply_zero_update_def case_prod_beta Let_def harness_ok_delta)

lemma harness_ok_fold: "harness_ok h \<Longrightarrow> (\<And>x h. harness_ok h \<Longrightarrow> harness_ok (f x h)) \<Longrightarrow> harness_ok (fold f xs h)"
  by (induction xs arbitrary: h) simp_all

section \<open>Runs of the harness\<close>

datatype harness_op =
    HO_AddSymbol string
  | HO_AddCount nat
  | HO_Snapshot string nat nat
  | HO_Delta string nat nat
  | HO_Zero string
  | HO_Wide string
  | HO_EmptyBids string
  | HO_EmptyAsks string
  | HO_Delist string
  | HO_Batch string nat
  | HO_AllSnapshot nat nat
  | HO_AllDelta nat nat
  | HO_AllZero

fun harness_step :: "harness_op \<Rightarrow> synthetic_harness \<Rightarrow> synthetic_harness" where
  "harness_step (HO_AddSymbol s) = sh_add_symbol s"
| "harness_step (HO_AddCount n) = sh_add_symbol_count n"
| "harness_step (HO_Snapshot s n m) = sh_apply_snapshot_for s n m"
| "harness_step (HO_Delta s n m) = sh_apply_delta_for s n m"
| "harness_step (HO_Zero s) = (\<lambda>h. snd (sh_apply_zero_update s h))"
| "harness_step (HO_Wide s) = sh_apply_wide_spread s"
| "harness_step (HO_EmptyBids s) = sh_apply_empty_bid_side s"
| "harness_step (HO_EmptyAsks s) = sh_apply_empty_ask_side s"
| "harness_step (HO_Delist s) = sh_apply_delisting s"
| "harness_step (HO_Batch s n) = sh_apply_large_batch s n"
| "harness_step (HO_AllSnapshot n m) = sh_broadcast_snapshot n m"
| "harness_step (HO_AllDelta n m) = sh_broadcast_delta n m"
| "harness_step HO_AllZero = sh_broadcast_zero_update"

text \<open>No operation asks for more levels than prices can be told apart without overflow.\<close>

fun op_bounded :: "harness_op \<Rightarrow> bool" where
  "op_bounded (HO_Snapshot s n m) = (n \<le> 2 ^ 56 \<and> m \<le> 2 ^ 56)"
| "op_bounded (HO_Delta s n m) = (n \<le> 2 ^ 56 \<and> m \<le> 2 ^ 56)"
| "op_bounded (HO_Batch s n) = (n \<le> 2 ^ 56)"
| "op_bounded (HO_AllSnapshot n m) = (n \<le> 2 ^ 56 \<and> m \<le> 2 ^ 56)"
| "op_bounded (HO_AllDelta n m) = (n \<le> 2 ^ 56 \<and> m \<le> 2 ^ 56)"
| "op_bounded _ = True"

lemma harness_ok_step: "harness_ok h \<Longrightarrow> op_bounded op \<Longrightarrow> harness_ok (harness_step op h)"
proof (cases op)
  case (HO_AddCount n)
  assume "harness_ok h"
  with HO_AddCount show ?thesis
    by (auto simp: sh_add_symbol_count_def intro: harness_ok_fold harness_ok_add)
next
  case (HO_Wide s)
  assume "harness_ok h"
  with HO_Wide show ?thesis
    by (auto simp: sh_apply_wide_spread_def case_prod_beta Let_def hp_qty_positive less_i64_def [of _ MID_PRICE]
        less_i64_def [of MID_PRICE] mid_val levels_within_def intro!: harness_ok_snapshot)
next
  case (HO_Batch s n)
  assume "harness_ok h" "op_bounded op"
  with HO_Batch bid_levels_ok [of n] ask_levels_ok [of n] show ?thesis
    by (simp add: sh_apply_large_batch_def case_prod_beta Let_def harness_ok_snapshot make_bid_levels_def
        make_ask_levels_def)
next
  case (HO_AllSnapshot n m)
  assume "harness_ok h" "op_bounded op"
  with HO_AllSnapshot show ?thesis
    by (auto simp: sh_broadcast_snapshot_def intro!: harness_ok_fold harness_ok_snapshot_for)
next
  case (HO_AllDelta n m)
  assume "harness_ok h" "op_bounded op"
  with HO_AllDelta show ?thesis
    by (auto simp: sh_broadcast_delta_def intro!: harness_ok_fold harness_ok_delta_for)
next
  case HO_AllZero
  assume "harness_ok h"
  with HO_AllZero show ?thesis
    by (auto simp: sh_broadcast_zero_update_def intro!: harness_ok_fold harness_ok_zero)
qed (simp_all add: harness_ok_add harness_ok_snapshot_for harness_ok_delta_for harness_ok_zero
  sh_apply_empty_bid_side_def sh_apply_empty_ask_side_def sh_apply_delisting_def case_prod_beta Let_def
  harness_ok_snapshot bid_levels_ok ask_levels_ok)

lemma harness_ok_run: "list_all op_bounded ops \<Longrightarrow> harness_ok h \<Longrightarrow> harness_ok (fold harness_step ops h)"
  by (induction ops arbitrary: h) (simp_all add: harness_ok_step)

lemma best_bid_entry: "best_bid b = Some l \<Longrightarrow> (pl_price l, pl_qty l) \<in> set (ob_bids b)"
  by (auto simp: best_bid_Some_iff)

lemma best_ask_entry: "best_ask b = Some l \<Longrightarrow> (pl_price l, pl_qty l) \<in> set (ob_asks b)"
  by (auto simp: best_ask_Some_iff)

lemma harness_book_clean:
  assumes "harness_book_ok b"
  shows "book_violations s b = []"
proof -
  have apart: "\<not> pl_price ba \<le> pl_price bb" if "best_bid b = Some bb" "best_ask b = Some ba" for bb ba
  proof -
    have "pl_price bb < MID_PRICE" "MID_PRICE < pl_price ba"
      using best_bid_entry [OF that(1)] best_ask_entry [OF that(2)] assms
      by (force simp: harness_book_ok_def side_ok_def)+
    then show ?thesis by simp
  qed
  have "filter (\<lambda>l. pl_qty l \<le> 0) (book_bids b) = []" "filter (\<lambda>l. pl_qty l \<le> 0) (book_asks b) = []"
    using assms by (auto simp: harness_book_ok_def side_ok_def filter_empty_conv book_bids_def book_asks_def
        level_of_def simp flip: not_less)
  then show ?thesis
    using apart by (simp add: book_violations_def level_violations_def split: option.splits)
qed

text \<open>C33: Whatever sequence of operations is run on the harness, on known or unknown symbols, its scan
  finds no violation: no book is crossed and no level has a quantity that is not positive.\<close>

theorem harness_stays_clean:
  assumes "list_all op_bounded ops"
  shows "iv_is_clean (sh_check_invariants (fold harness_step ops (sh_new seed)))"
proof -
  let ?h = "fold harness_step ops (sh_new seed)"
  have "harness_ok ?h" using harness_ok_run [OF assms harness_ok_new] .
  then have "harness_book_ok b" if "(s, b) \<in> set (sh_books ?h)" for s b
    using that by (metis harness_ok_def hm_wf_def map_of_eq_Some_iff)
  then show ?thesis
    by (auto simp: iv_is_clean_def sh_check_invariants_def harness_book_clean concat_eq_Nil_conv)
qed

theorem harness_stays_clean_witness:
  "iv_is_clean (sh_check_invariants (fold harness_step
     [HO_AddCount 2, HO_AllSnapshot 5 5, HO_Delta ''SYM000001'' 7 3, HO_Wide ''SYM000002'',
      HO_EmptyBids ''SYM000001'', HO_AllZero, HO_Delist ''UNKNOWN''] (sh_new 42)))"
  by (rule harness_stays_clean) simp

section \<open>Broadcasts\<close>

text \<open>Two harnesses that differ at most in the order of their hash map.\<close>

definition same_harness :: "synthetic_harness \<Rightarrow> synthetic_harness \<Rightarrow> bool" where
  "same_harness h h' \<longleftrightarrow> map_of (sh_books h) = map_of (sh_books h') \<and> sh_seq h = sh_seq h' \<and>
     sh_prng h = sh_prng h' \<and> sh_stats h = sh_stats h'"

lemma map_of_update_ext: "map_of m = map_of m' \<Longrightarrow> map_of (AList.update k v m) = map_of (AList.update k v m')"
  by (simp add: update_conv')

lemma same_apply_snapshot: "same_harness h h' \<Longrightarrow> same_harness (sh_apply_snapshot s snap h) (sh_apply_snapshot s snap h')"
  by (auto simp: same_harness_def sh_apply_snapshot_def update_conv' split: option.splits)

lemma same_apply_delta: "same_harness h h' \<Longrightarrow> same_harness (sh_apply_delta s d h) (sh_apply_delta s d h')"
  by (auto simp: same_harness_def sh_apply_delta_def update_conv' split: option.splits)

lemma same_fields:
  "same_harness h h' \<Longrightarrow> same_harness (h\<lparr>sh_seq := q\<rparr>) (h'\<lparr>sh_seq := q\<rparr>)"
  "same_harness h h' \<Longrightarrow> same_harness (h\<lparr>sh_prng := g\<rparr>) (h'\<lparr>sh_prng := g\<rparr>)"
  "same_harness h h' \<Longrightarrow> sh_seq h = sh_seq h'" "same_harness h h' \<Longrightarrow> sh_prng h = sh_prng h'"
  by (simp_all add: same_harness_def)

lemma same_snapshot_for:
  "same_harness h h' \<Longrightarrow> same_harness (sh_apply_snapshot_for s n m h) (sh_apply_snapshot_for s n m h')"
  by (simp add: sh_apply_snapshot_for_def sh_next_seq_def case_prod_beta Let_def same_fields same_apply_snapshot)

lemma same_delta_for:
  "same_harness h h' \<Longrightarrow> same_harness (sh_apply_delta_for s n m h) (sh_apply_delta_for s n m h')"
  by (simp add: sh_apply_delta_for_def sh_next_seq_def case_prod_beta Let_def same_fields same_apply_delta)

lemma same_fold:
  "same_harness h h' \<Longrightarrow> (\<And>x h h'. same_harness h h' \<Longrightarrow> same_harness (f x h) (f x h')) \<Longrightarrow>
   same_harness (fold f xs h) (fold f xs h')"
  by (induction xs arbitrary: h h') simp_all

lemma same_order:
  assumes "same_harness h h'" "hm_wf (sh_books h)" "hm_wf (sh_books h')"
  shows "sort (map fst (sh_books h)) = sort (map fst (sh_books h'))"
proof (rule sorted_distinct_set_unique)
  have "dom (map_of (sh_books h)) = dom (map_of (sh_books h'))"
    using assms(1) by (simp add: same_harness_def)
  then show "set (sort (map fst (sh_books h))) = set (sort (map fst (sh_books h')))"
    by (simp add: dom_map_of_conv_image_fst)
qed (use assms in \<open>simp_all add: hm_wf_def\<close>)

text \<open>A broadcast does not depend on the iteration order of the hash map: from harnesses with the
  same books, counter and generator it leads to the same books, counter and generator.\<close>

theorem broadcast_order_irrelevant:
  assumes "same_harness h h'" "hm_wf (sh_books h)" "hm_wf (sh_books h')"
  shows "same_harness (sh_broadcast_snapshot n m h) (sh_broadcast_snapshot n m h') \<and>
    same_harness (sh_broadcast_delta n m h) (sh_broadcast_delta n m h')"
  unfolding sh_broadcast_snapshot_def sh_broadcast_delta_def same_order [OF assms]
  using assms(1) by (intro conjI same_fold same_snapshot_for same_delta_for)

definition sample_harness :: "string list \<Rightarrow> synthetic_harness" where
  "sample_harness symbols = sh_with_symbols symbols 7"

theorem broadcast_order_irrelevant_witness:
  "same_harness (sh_broadcast_snapshot 3 3 (sample_harness [''A'', ''B'']))
     (sh_broadcast_snapshot 3 3 (sample_harness [''B'', ''A'']))"
proof (rule broadcast_order_irrelevant [THEN conjunct1])
  show "same_harness (sample_harness [''A'', ''B'']) (sample_harness [''B'', ''A''])"
    by (auto simp: same_harness_def sample_harness_def sh_with_symbols_def sh_new_def sh_add_symbol_def)
qed (simp_all add: sample_harness_def sh_with_symbols_def sh_new_def sh_add_symbol_def hm_wf_def)

section \<open>Levels after a delta\<close>

lemma apply_levels_keys:
  "levels_within P ls \<Longrightarrow> fst ` set (apply_levels m ls) = fst ` set m \<union> pl_price ` set ls"
proof (induction ls arbitrary: m)
  case (Cons l ls)
  have "levels_within P ls" "pl_qty l \<noteq> 0" using Cons.prems by (auto simp: levels_within_def)
  with Cons.IH [of "bt_insert (pl_price l) (pl_qty l) m"] bt_insert_keys [of "pl_price l" "pl_qty l" m]
  show ?case by (simp add: image_comp comp_def)
qed simp

lemma snapshot_side_keys: "levels_within P ls \<Longrightarrow> fst ` set (snapshot_side ls) = pl_price ` set ls"
proof -
  assume a: "levels_within P ls"
  then have "filter (\<lambda>l. 0 < pl_qty l) ls = ls" by (auto simp: levels_within_def filter_id_conv)
  then show ?thesis using apply_levels_keys [OF a, of "[]"] by (simp add: snapshot_side_levels)
qed

lemma gen_levels_keys: "pl_price ` set (fst (gen_levels price [0..<n] g)) = price ` {..<n}"
proof -
  have "pl_price ` set (fst (gen_levels price [0..<n] g)) = set (map pl_price (fst (gen_levels price [0..<n] g)))"
    by simp
  then show ?thesis by (simp only: gen_levels_prices) auto
qed

lemma depth_of_prices:
  assumes "side_wf m" "fst ` set m = price ` {..<n} \<union> price ` {..<k}" "inj_on price {..<2 ^ 56}" "n \<le> 2 ^ 56" "k \<le> 2 ^ 56"
  shows "length m = max n k"
proof -
  have "distinct (map fst m)" using assms(1) by (simp add: side_wf_def bt_wf_def strict_sorted_iff)
  then have "length m = card (fst ` set m)" by (metis distinct_card length_map list.set_map)
  moreover have "price ` {..<n} \<union> price ` {..<k} = price ` {..<max n k}"
    by (auto simp: max_def)
  moreover have "inj_on price {..<max n k}"
    by (rule inj_on_subset [OF assms(3)]) (use assms(4,5) in auto)
  ultimately show ?thesis using assms(2) by (simp add: card_image)
qed

text \<open>After a snapshot of \<open>n\<close> bids and \<open>m\<close> asks, a generated delta with \<open>k\<close> and \<open>l\<close> levels leaves
  \<open>max n k\<close> bids and \<open>max m l\<close> asks: it rewrites the snapshot's own prices, so a delta that is not
  deeper than the snapshot adds no level at all.\<close>

theorem delta_rewrites_levels:
  assumes "sh_book s h = Some b" "n \<le> 2 ^ 56" "m \<le> 2 ^ 56" "k \<le> 2 ^ 56" "l \<le> 2 ^ 56"
  shows "\<exists>b'. sh_book s (sh_apply_delta_for s k l (sh_apply_snapshot_for s n m h)) = Some b' \<and>
    bid_depth b' = max n k \<and> ask_depth b' = max m l \<and>
    ob_last_update_id b' = sh_current_seq h + 2"
proof -
  have b: "map_of (sh_books h) s = Some b" using assms(1) by (simp add: sh_book_def)
  define bids1 asks1 g1 bids2 asks2 where "bids1 = fst (make_bid_levels n (sh_prng h))"
    and "asks1 = fst (make_ask_levels m (snd (make_bid_levels n (sh_prng h))))"
    and "g1 = snd (make_ask_levels m (snd (make_bid_levels n (sh_prng h))))"
    and "bids2 = fst (make_bid_levels k g1)" and "asks2 = fst (make_ask_levels l (snd (make_bid_levels k g1)))"
  note ls = this
  have "sh_book s (sh_apply_delta_for s k l (sh_apply_snapshot_for s n m h)) =
      Some (apply_delta (make_delta s (sh_seq h + 2) bids2 asks2)
        (apply_snapshot (make_snapshot s (sh_seq h + 1) bids1 asks1) b))"
    using b by (simp add: sh_apply_snapshot_for_def sh_apply_delta_for_def sh_next_seq_def case_prod_beta
        Let_def sh_apply_snapshot_def sh_apply_delta_def sh_book_def ls add.commute [of _ 2])
  moreover have "length (apply_levels (snapshot_side bids1) bids2) = max n k"
    unfolding ls make_bid_levels_def
    by (rule depth_of_prices [OF apply_levels_wf [OF snapshot_side_wf] _ price_at_inj(1) assms(2,4)])
      (simp only: apply_levels_keys [OF bid_levels_ok [OF assms(4), unfolded make_bid_levels_def]]
        snapshot_side_keys [OF bid_levels_ok [OF assms(2), unfolded make_bid_levels_def]] gen_levels_keys)
  moreover have "length (apply_levels (snapshot_side asks1) asks2) = max m l"
    unfolding ls make_ask_levels_def
    by (rule depth_of_prices [OF apply_levels_wf [OF snapshot_side_wf] _ price_at_inj(2) assms(3,5)])
      (simp only: apply_levels_keys [OF ask_levels_ok [OF assms(5), unfolded make_ask_levels_def]]
        snapshot_side_keys [OF ask_levels_ok [OF assms(3), unfolded make_ask_levels_def]] gen_levels_keys)
  ultimately show ?thesis
    by (simp add: apply_delta_def apply_snapshot_def make_delta_def make_snapshot_def bid_depth_def
        ask_depth_def sh_current_seq_def)
qed

theorem delta_rewrites_levels_witness:
  "\<exists>b'. sh_book ''A'' (sh_apply_delta_for ''A'' 2 3 (sh_apply_snapshot_for ''A'' 5 5 (sample_harness [''A'']))) =
     Some b' \<and> bid_depth b' = 5 \<and> ask_depth b' = 5"
proof -
  have "sh_book ''A'' (sample_harness [''A'']) = Some (OrderBook_new ''A'')"
    by (simp add: sample_harness_def sh_with_symbols_def sh_new_def sh_add_symbol_def sh_book_def)
  from delta_rewrites_levels [OF this, of 5 5 2 3] show ?thesis by auto
qed

end
