(* ===== verification/Float64.thy ===== *)
theory Float64
  imports Complex_Main "HOL-Library.Word" "HOL-Library.Log_Nat"
begin

text \<open>
  The finite part of \<open>f64\<close> arithmetic that the code uses: conversions from \<open>u64\<close>, products and
  quotients, each the exact result rounded to 53 significant bits, ties to even (subnormals
  included; none of the uses overflows). Values are rationals, so that the definitions compute.
\<close>

type_synonym f64 = rat

text \<open>The exponent of the leading bit.\<close>

definition rat_exponent :: "rat \<Rightarrow> int" where
  "rat_exponent x =
     (let (a, b) = quotient_of \<bar>x\<bar>; k = bitlen a - bitlen b in
      if 2 powi k \<le> \<bar>x\<bar> then k else k - 1)"

definition round_half_even :: "rat \<Rightarrow> int" where
  "round_half_even y =
     (let f = \<lfloor>y\<rfloor>; d = y - of_int f in
      if d < 1 / 2 \<or> d = 1 / 2 \<and> even f then f else f + 1)"

definition f64_round :: "rat \<Rightarrow> f64" where
  "f64_round x =
     (if x = 0 then 0
      else let u = 2 powi (max (rat_exponent x - 52) (-1074)) in of_int (round_half_even (x / u)) * u)"

definition f64_of_u64 :: "64 word \<Rightarrow> f64" where
  "f64_of_u64 n = f64_round (of_int (uint n))"

definition f64_mult :: "f64 \<Rightarrow> f64 \<Rightarrow> f64" where
  "f64_mult x y = f64_round (x * y)"

definition f64_divide :: "f64 \<Rightarrow> f64 \<Rightarrow> f64" where
  "f64_divide x y = f64_round (x / y)"

text \<open>\<open>as u64\<close>: cut off, and saturate.\<close>

definition f64_to_u64 :: "f64 \<Rightarrow> 64 word" where
  "f64_to_u64 x = word_of_int (max 0 (min (2 ^ 64 - 1) (if 0 \<le> x then \<lfloor>x\<rfloor> else \<lceil>x\<rceil>)))"

section \<open>Rounding\<close>

lemma rat_exponent_le:
  assumes "x \<noteq> 0"
  shows "2 powi rat_exponent x \<le> \<bar>x\<bar>"
proof -
  obtain a b where q: "quotient_of \<bar>x\<bar> = (a, b)" by (rule prod.exhaust)
  have x: "\<bar>x\<bar> = of_int a / of_int b" and b: "0 < b"
    using quotient_of_div [OF q] quotient_of_denom_pos [OF q] by simp_all
  with assms have a: "0 < a"
    by (metis abs_ge_zero of_int_0_less_iff of_int_less_0_iff zero_less_abs_iff zero_less_divide_iff
        not_less_iff_gr_or_eq)
  let ?k = "bitlen a - bitlen b"
  have lo: "2 ^ nat (bitlen a - 1) \<le> a" and hi: "b < 2 ^ nat (bitlen b)"
    using bitlen_bounds [OF a] bitlen_bounds [OF b] by simp_all
  have pos: "0 < bitlen a" "0 < bitlen b" using a b bitlen_nonneg [of a] bitlen_nonneg [of b] bitlen_eq_zero_iff [of a] bitlen_eq_zero_iff [of b]
    by linarith+
  have "(2 :: rat) powi (bitlen a - 1) \<le> of_int a"
  proof -
    have "(2 :: rat) powi (bitlen a - 1) = of_int (2 ^ nat (bitlen a - 1))"
      using pos by (simp add: power_int_def)
    then show ?thesis using lo by (simp only: of_int_le_iff)
  qed
  moreover have "of_int b \<le> (2 :: rat) powi bitlen b"
  proof -
    have "(2 :: rat) powi bitlen b = of_int (2 ^ nat (bitlen b))"
      using pos by (simp add: power_int_def)
    then show ?thesis using hi by (simp only: of_int_le_iff less_imp_le)
  qed
  ultimately have "(2 :: rat) powi (bitlen a - 1) / 2 powi bitlen b \<le> of_int a / of_int b"
    using a b by (intro frac_le) simp_all
  moreover have "(2 :: rat) powi (?k - 1) = 2 powi (bitlen a - 1) / 2 powi bitlen b"
    using power_int_diff [of "2 :: rat" "bitlen a - 1" "bitlen b"] by (simp add: algebra_simps)
  ultimately have low: "(2 :: rat) powi (?k - 1) \<le> \<bar>x\<bar>" using x by simp
  have "rat_exponent x = (if 2 powi ?k \<le> \<bar>x\<bar> then ?k else ?k - 1)"
    by (simp add: rat_exponent_def q Let_def)
  with low show ?thesis by presburger
qed

lemma round_half_even_close: "of_int (round_half_even y) \<le> y + 1 / 2" "y - 1 / 2 \<le> of_int (round_half_even y)"
proof -
  have "of_int \<lfloor>y\<rfloor> \<le> y" "y < of_int \<lfloor>y\<rfloor> + 1" using floor_correct [of y] by simp_all
  moreover have "round_half_even y = \<lfloor>y\<rfloor> \<and> y - of_int \<lfloor>y\<rfloor> \<le> 1 / 2 \<or>
      round_half_even y = \<lfloor>y\<rfloor> + 1 \<and> 1 / 2 \<le> y - of_int \<lfloor>y\<rfloor>"
    by (simp only: round_half_even_def Let_def split: if_split) (metis less_imp_le not_le order_refl)
  ultimately show "of_int (round_half_even y) \<le> y + 1 / 2" "y - 1 / 2 \<le> of_int (round_half_even y)"
    by (elim disjE conjE; simp only: of_int_add of_int_1; linarith)+
qed

lemma f64_round_0 [simp]: "f64_round 0 = 0"
  by (simp add: f64_round_def)

text \<open>A bound for what is far from the subnormal numbers.\<close>

definition F64_TINY :: rat where "F64_TINY = 2 powi (- 1000)"

lemma F64_TINY_pos: "0 < F64_TINY"
  unfolding F64_TINY_def by (rule zero_less_power_int) (rule zero_less_numeral)

lemma F64_TINY_le_1: "F64_TINY \<le> 1"
proof -
  have "(2 :: rat) powi (- 1000) \<le> 2 powi 0" by (rule power_int_increasing) simp_all
  then show ?thesis by (simp only: F64_TINY_def power_int_0_right)
qed

lemma F64_TINY_normal: "2 powi (- 1074) \<le> F64_TINY"
  unfolding F64_TINY_def by (rule power_int_increasing) simp_all

text \<open>Rounding a normal number keeps it within half of it and twice it.\<close>

lemma f64_round_bounds:
  assumes "F64_TINY \<le> x"
  shows "x / 2 \<le> f64_round x" "f64_round x \<le> 2 * x"
proof -
  define u where "u = (2 :: rat) powi (max (rat_exponent x - 52) (-1074))"
  have x: "0 < x" using assms F64_TINY_pos by linarith
  have u: "0 < u" by (simp add: u_def)
  have "u \<le> x"
  proof -
    have "(2 :: rat) powi (rat_exponent x - 52) \<le> 2 powi rat_exponent x"
      by (rule power_int_increasing) simp_all
    also have "\<dots> \<le> x" using rat_exponent_le [of x] x by simp
    finally have "(2 :: rat) powi (rat_exponent x - 52) \<le> x" .
    then show ?thesis using assms F64_TINY_normal by (simp only: u_def max_def split: if_split) (metis order_trans)
  qed
  then have "1 \<le> x / u" using u by simp
  moreover have "of_int (round_half_even y) \<le> 2 * y \<and> y / 2 \<le> of_int (round_half_even y)"
    if "1 \<le> y" for y
    using that round_half_even_close [of y] by (intro conjI) linarith+
  ultimately have "of_int (round_half_even (x / u)) \<le> 2 * (x / u)"
    "(x / u) / 2 \<le> of_int (round_half_even (x / u))"
    by blast+
  then have "of_int (round_half_even (x / u)) * u \<le> 2 * (x / u) * u" "(x / u) / 2 * u \<le> of_int (round_half_even (x / u)) * u"
    using u by (simp_all only: mult_right_mono less_imp_le)
  then show "x / 2 \<le> f64_round x" "f64_round x \<le> 2 * x"
    using x u by (simp_all add: f64_round_def Let_def u_def [symmetric])
qed

text \<open>Integers of at most 53 bits are exact.\<close>

lemma round_half_even_int [simp]: "round_half_even (of_int k) = k"
  by (simp add: round_half_even_def)

lemma f64_round_int:
  assumes "\<bar>k\<bar> < 2 ^ 53"
  shows "f64_round (of_int k) = of_int k"
proof (cases "k = 0")
  case False
  define e where "e = rat_exponent (of_int k)"
  have "(2 :: rat) powi e \<le> of_int \<bar>k\<bar>" using rat_exponent_le [of "of_int k"] False by (simp add: e_def)
  also have "\<dots> < 2 powi 53" using assms by (simp flip: of_int_less_iff [where 'a = rat])
  finally have "e < 53" using power_int_increasing [of 53 e "2 :: rat"] by (metis not_less one_le_numeral)
  define j where "j = nat (- max (e - 52) (-1074))"
  have u: "(2 :: rat) powi (max (e - 52) (-1074)) = 1 / 2 ^ j"
    using \<open>e < 53\<close> by (simp add: j_def power_int_def field_simps power_inverse)
  have "(of_int k :: rat) / (1 / 2 ^ j) = of_int (k * 2 ^ j)" by simp
  then show ?thesis
    using False by (simp add: f64_round_def Let_def e_def [symmetric] u del: of_int_mult)
      (simp add: field_simps)
qed simp

section \<open>Order\<close>

lemma rat_exponent_less:
  assumes "x \<noteq> 0"
  shows "\<bar>x\<bar> < 2 powi (rat_exponent x + 1)"
proof -
  obtain a b where q: "quotient_of \<bar>x\<bar> = (a, b)" by (rule prod.exhaust)
  have x: "\<bar>x\<bar> = of_int a / of_int b" and b: "0 < b"
    using quotient_of_div [OF q] quotient_of_denom_pos [OF q] by simp_all
  with assms have a: "0 < a"
    by (metis abs_ge_zero of_int_0_less_iff of_int_less_0_iff zero_less_abs_iff zero_less_divide_iff
        not_less_iff_gr_or_eq)
  let ?k = "bitlen a - bitlen b"
  have bnd: "a < 2 ^ nat (bitlen a)" "2 ^ nat (bitlen b - 1) \<le> b"
    using bitlen_bounds [OF a] bitlen_bounds [OF b] by simp_all
  have pos: "0 < bitlen a" "0 < bitlen b" using a b bitlen_nonneg [of a] bitlen_nonneg [of b]
    bitlen_eq_zero_iff [of a] bitlen_eq_zero_iff [of b] by linarith+
  have "of_int a < (2 :: rat) powi bitlen a"
  proof -
    have "(2 :: rat) powi bitlen a = of_int (2 ^ nat (bitlen a))" using pos by (simp add: power_int_def)
    then show ?thesis using bnd(1) by (simp only: of_int_less_iff)
  qed
  moreover have "(2 :: rat) powi (bitlen b - 1) \<le> of_int b"
  proof -
    have "(2 :: rat) powi (bitlen b - 1) = of_int (2 ^ nat (bitlen b - 1))" using pos by (simp add: power_int_def)
    then show ?thesis using bnd(2) by (simp only: of_int_le_iff)
  qed
  ultimately have "of_int a / of_int b < (2 :: rat) powi bitlen a / 2 powi (bitlen b - 1)"
    using a b by (intro frac_less) simp_all
  moreover have "(2 :: rat) powi (?k + 1) = 2 powi bitlen a / 2 powi (bitlen b - 1)"
    using power_int_diff [of "2 :: rat" "bitlen a" "bitlen b - 1"] by (simp add: algebra_simps)
  ultimately have "\<bar>x\<bar> < 2 powi (?k + 1)" using x by simp
  moreover have "rat_exponent x = (if 2 powi ?k \<le> \<bar>x\<bar> then ?k else ?k - 1)"
    by (simp add: rat_exponent_def q Let_def)
  ultimately show ?thesis by (simp split: if_splits)
qed

lemma rat_exponent_unique:
  assumes "2 powi e \<le> x" "x < 2 powi (e + 1)"
  shows "rat_exponent x = e"
proof -
  have "(0 :: rat) < 2 powi e" by simp
  with assms have x: "x \<noteq> 0" "\<bar>x\<bar> = x" by linarith+
  note lo = rat_exponent_le [OF x(1), unfolded x(2)] and hi = rat_exponent_less [OF x(1), unfolded x(2)]
  have less: "i < j" if "(2 :: rat) powi i < 2 powi j" for i j
    using that power_int_increasing [of j i "2 :: rat"] by (metis not_less one_le_numeral)
  have "rat_exponent x < e + 1" "e < rat_exponent x + 1"
    using le_less_trans [OF lo assms(2)] le_less_trans [OF assms(1) hi] by (simp_all only: less)
  then show ?thesis by simp
qed

lemma round_half_even_mono:
  assumes "x \<le> y"
  shows "round_half_even x \<le> round_half_even y"
proof (cases "\<lfloor>x\<rfloor> = \<lfloor>y\<rfloor>")
  case True
  with assms show ?thesis by (auto simp: round_half_even_def Let_def)
next
  case False
  then have "\<lfloor>x\<rfloor> + 1 \<le> \<lfloor>y\<rfloor>" using floor_mono [OF assms] by simp
  moreover have "round_half_even x \<le> \<lfloor>x\<rfloor> + 1" "\<lfloor>y\<rfloor> \<le> round_half_even y"
    by (simp_all add: round_half_even_def Let_def)
  ultimately show ?thesis by linarith
qed

lemma f64_round_normal:
  assumes "F64_TINY \<le> x"
  shows "f64_round x = of_int (round_half_even (x / 2 powi (rat_exponent x - 52))) * 2 powi (rat_exponent x - 52)"
proof -
  have x: "0 < x" using assms F64_TINY_pos by linarith
  have "F64_TINY < 2 powi (rat_exponent x + 1)" using assms rat_exponent_less [of x] x by simp
  then have "- 1000 < rat_exponent x + 1"
    using power_int_increasing [of "rat_exponent x + 1" "- 1000" "2 :: rat"]
    by (metis F64_TINY_def not_less one_le_numeral)
  then have "max (rat_exponent x - 52) (- 1074) = rat_exponent x - 52" by simp
  with x show ?thesis by (simp add: f64_round_def Let_def)
qed

lemma f64_round_range:
  assumes "F64_TINY \<le> x"
  shows "2 powi rat_exponent x \<le> f64_round x" "f64_round x \<le> 2 powi (rat_exponent x + 1)"
proof -
  let ?u = "(2 :: rat) powi (rat_exponent x - 52)"
  have x: "0 < x" using assms F64_TINY_pos by linarith
  have p: "(2 :: rat) powi rat_exponent x = of_int (2 ^ 52) * ?u"
    "(2 :: rat) powi (rat_exponent x + 1) = of_int (2 ^ 53) * ?u"
    using power_int_add [of "2 :: rat" "rat_exponent x - 52" 52] power_int_add [of "2 :: rat" "rat_exponent x - 52" 53]
    by (simp_all add: add.commute mult.commute)
  have "of_int (2 ^ 52) \<le> x / ?u" "x / ?u \<le> of_int (2 ^ 53)"
    using rat_exponent_le [of x] rat_exponent_less [of x] x by (simp_all only: p) (simp_all add: field_simps)
  then have "2 ^ 52 \<le> round_half_even (x / ?u)" "round_half_even (x / ?u) \<le> 2 ^ 53"
    using round_half_even_mono [of "of_int (2 ^ 52)" "x / ?u"] round_half_even_mono [of "x / ?u" "of_int (2 ^ 53)"]
    by (simp_all only: round_half_even_int)
  then have "of_int (2 ^ 52) * ?u \<le> of_int (round_half_even (x / ?u)) * ?u"
    "of_int (round_half_even (x / ?u)) * ?u \<le> of_int (2 ^ 53) * ?u"
    by (intro mult_right_mono; simp only: of_int_le_iff zero_le_power_int zero_le_numeral)+
  then show "2 powi rat_exponent x \<le> f64_round x" "f64_round x \<le> 2 powi (rat_exponent x + 1)"
    by (simp_all only: f64_round_normal [OF assms] p)
qed

lemma f64_round_mono:
  assumes "F64_TINY \<le> x" "x \<le> y"
  shows "f64_round x \<le> f64_round y"
proof (cases "rat_exponent x = rat_exponent y")
  case True
  let ?u = "(2 :: rat) powi (rat_exponent y - 52)"
  have "x / ?u \<le> y / ?u" using assms(2) by (intro divide_right_mono) simp_all
  from round_half_even_mono [OF this] show ?thesis
    using f64_round_normal [OF assms(1)] f64_round_normal [OF order_trans [OF assms]]
    by (simp add: True mult_right_mono)
next
  case False
  have pos: "0 < x" "0 < y" using assms F64_TINY_pos by linarith+
  have "(2 :: rat) powi rat_exponent x < 2 powi (rat_exponent y + 1)"
    using rat_exponent_le [of x] rat_exponent_less [of y] pos assms(2) by simp
  then have "rat_exponent x < rat_exponent y + 1"
    using power_int_increasing [of "rat_exponent y + 1" "rat_exponent x" "2 :: rat"] by (metis not_less one_le_numeral)
  with False have "(2 :: rat) powi (rat_exponent x + 1) \<le> 2 powi rat_exponent y"
    by (intro power_int_increasing) simp_all
  with f64_round_range(2) [OF assms(1)] f64_round_range(1) [OF order_trans [OF assms]] show ?thesis by linarith
qed

lemma f64_round_half:
  assumes "2 * F64_TINY \<le> x"
  shows "f64_round (x / 2) = f64_round x / 2"
proof -
  have t: "F64_TINY \<le> x" "F64_TINY \<le> x / 2" using assms F64_TINY_pos by simp_all
  then have x: "0 < x" using F64_TINY_pos by linarith
  have "rat_exponent (x / 2) = rat_exponent x - 1"
    using rat_exponent_le [of x] rat_exponent_less [of x] x
    by (intro rat_exponent_unique) (simp_all add: power_int_diff power_int_add)
  moreover have "(2 :: rat) powi (rat_exponent x - 1 - 52) = 2 powi (rat_exponent x - 52) / 2"
    using power_int_diff [of "2 :: rat" "rat_exponent x - 52" 1] by (simp add: algebra_simps)
  ultimately have "f64_round (x / 2) = of_int (round_half_even (x / 2 / (2 powi (rat_exponent x - 52) / 2))) *
      (2 powi (rat_exponent x - 52) / 2)"
    by (simp only: f64_round_normal [OF t(2)])
  then show ?thesis by (simp add: f64_round_normal [OF t(1)])
qed

end
