(* ===== verification/Metrics.thy ===== *)
theory Metrics
  imports Header Decimal Float64
begin

text \<open>
  The metrics registry: \<open>metrics/src\<close> (counter.rs, histogram.rs, registry.rs, render.rs) and the
  helpers of the publish path that feed it (\<open>binance-spot-adapter/src/instrument.rs\<close>). An atomic
  is its value; the wall clock is an argument.
\<close>

section \<open>Counters\<close>

record counter =
  ct_name :: string
  ct_help :: string
  ct_value :: u64

definition ct_new :: "string \<Rightarrow> string \<Rightarrow> counter" where
  "ct_new name help = \<lparr>ct_name = name, ct_help = help, ct_value = 0\<rparr>"

definition ct_increment :: "counter \<Rightarrow> counter" where
  "ct_increment c = c\<lparr>ct_value := ct_value c + 1\<rparr>"

definition ct_add :: "u64 \<Rightarrow> counter \<Rightarrow> counter" where
  "ct_add n c = c\<lparr>ct_value := ct_value c + n\<rparr>"

definition ct_get :: "counter \<Rightarrow> u64" where
  "ct_get c = ct_value c"

section \<open>Histograms\<close>

definition BUCKET_BOUNDS :: "u64 list" where
  "BUCKET_BOUNDS =
     [1000, 5000, 10000, 25000, 50000, 100000, 250000, 500000, 1000000, 2500000, 5000000,
      10000000, 25000000, 50000000, 100000000, 200000000, 500000000, 1000000000, 5000000000]"

definition NUM_BOUNDS :: nat where "NUM_BOUNDS = 19"
definition NUM_BUCKETS :: nat where "NUM_BUCKETS = NUM_BOUNDS + 1"

record histogram =
  hg_name :: string
  hg_help :: string
  hg_buckets :: "u64 list"
  hg_sum :: u64
  hg_count :: u64

definition hg_new :: "string \<Rightarrow> string \<Rightarrow> histogram" where
  "hg_new name help =
     \<lparr>hg_name = name, hg_help = help, hg_buckets = replicate NUM_BUCKETS 0, hg_sum = 0, hg_count = 0\<rparr>"

text \<open>\<open>partition_point\<close>: the bounds are sorted, so those below the value come first.\<close>

definition bucket_index :: "u64 \<Rightarrow> nat" where
  "bucket_index v = min (length (takeWhile (\<lambda>b. b < v) BUCKET_BOUNDS)) NUM_BOUNDS"

definition hg_record :: "i64 \<Rightarrow> histogram \<Rightarrow> histogram" where
  "hg_record nanos h =
     (if nanos < 0 then h
      else
        let v = i64_word nanos; idx = bucket_index v in
        h\<lparr>hg_buckets := (hg_buckets h)[idx := hg_buckets h ! idx + 1],
          hg_sum := hg_sum h + v, hg_count := hg_count h + 1\<rparr>)"

text \<open>The scan of \<open>percentile\<close> over the bounds with the counts so far.\<close>

fun percentile_scan :: "u64 \<Rightarrow> u64 \<Rightarrow> (u64 \<times> u64) list \<Rightarrow> u64" where
  "percentile_scan target cumulative [] = - 1"
| "percentile_scan target cumulative ((upper, n) # rest) =
     (if target \<le> cumulative + n then upper else percentile_scan target (cumulative + n) rest)"

definition hg_percentile :: "f64 \<Rightarrow> histogram \<Rightarrow> u64 option" where
  "hg_percentile p h =
     (if hg_count h = 0 then None
      else
        let target = f64_to_u64 (of_int \<lceil>f64_mult (f64_of_u64 (hg_count h)) p\<rceil>) in
        Some (percentile_scan target 0 (zip BUCKET_BOUNDS (hg_buckets h))))"

definition hg_p50 :: "histogram \<Rightarrow> u64 option" where
  "hg_p50 h = hg_percentile (1 / 2) h"

definition hg_p99 :: "histogram \<Rightarrow> u64 option" where
  "hg_p99 h = hg_percentile (f64_round (99 / 100)) h"

section \<open>Registry\<close>

record connector_metrics =
  cm_wire_latency :: histogram
  cm_processing_latency :: histogram
  cm_end_to_end_latency :: histogram
  cm_messages_in :: counter
  cm_messages_out :: counter
  cm_reconnects :: counter
  cm_stale_books :: counter
  cm_sequence_gaps :: counter
  cm_offer_failures :: counter
  cm_decode_errors :: counter

definition cm_new :: connector_metrics where
  "cm_new =
     \<lparr>cm_wire_latency = hg_new ''connector_wire_latency_ns''
        ''Exchange event timestamp to local socket receive, nanoseconds.'',
      cm_processing_latency = hg_new ''connector_processing_latency_ns''
        ''Local socket receive to Aeron offer (decode + normalise + validate), nanoseconds.'',
      cm_end_to_end_latency = hg_new ''connector_end_to_end_latency_ns''
        ''Exchange event timestamp to Aeron offer (wire + processing), nanoseconds.'',
      cm_messages_in = ct_new ''connector_messages_in''
        ''Raw WebSocket frames received from the exchange.'',
      cm_messages_out = ct_new ''connector_messages_out'' ''Normalized messages offered to Aeron.'',
      cm_reconnects = ct_new ''connector_reconnects'' ''WebSocket reconnect attempts.'',
      cm_stale_books = ct_new ''connector_stale_books'' ''Order books marked stale.'',
      cm_sequence_gaps = ct_new ''connector_sequence_gaps'' ''Sequence-number gaps detected.'',
      cm_offer_failures = ct_new ''connector_offer_failures''
        ''Aeron offer calls that returned back-pressure or an error.'',
      cm_decode_errors = ct_new ''connector_decode_errors''
        ''WebSocket frames that failed both SBE and JSON decoding.''\<rparr>"

definition cm_counters :: "connector_metrics \<Rightarrow> counter list" where
  "cm_counters m =
     [cm_messages_in m, cm_messages_out m, cm_reconnects m, cm_stale_books m, cm_sequence_gaps m,
      cm_offer_failures m, cm_decode_errors m]"

definition cm_histograms :: "connector_metrics \<Rightarrow> histogram list" where
  "cm_histograms m = [cm_wire_latency m, cm_processing_latency m, cm_end_to_end_latency m]"

section \<open>Rendering\<close>

definition u64_str :: "u64 \<Rightarrow> string" where
  "u64_str n = dec_str (unat n)"

definition ends_with :: "string \<Rightarrow> string \<Rightarrow> bool" where
  "ends_with suffix s \<longleftrightarrow>
     length suffix \<le> length s \<and> drop (length s - length suffix) s = suffix"

definition writeln :: "string \<Rightarrow> string" where
  "writeln line = line @ [CHR 0x0A]"

definition counter_full_name :: "counter \<Rightarrow> string" where
  "counter_full_name c =
     (if ends_with ''_total'' (ct_name c) then ct_name c else ct_name c @ ''_total'')"

definition write_counter :: "string \<Rightarrow> counter \<Rightarrow> string" where
  "write_counter out c =
     (let full = counter_full_name c in
      out @ writeln (''# HELP '' @ full @ '' '' @ ct_help c) @
      writeln (''# TYPE '' @ full @ '' counter'') @ writeln (full @ '' '' @ u64_str (ct_get c)))"

definition bucket_line :: "string \<Rightarrow> string \<Rightarrow> u64 \<Rightarrow> string" where
  "bucket_line name le n =
     writeln (name @ ''_bucket{le='' @ [CHR 0x22] @ le @ [CHR 0x22] @ ''} '' @ u64_str n)"

fun bucket_lines :: "string \<Rightarrow> u64 \<Rightarrow> (u64 \<times> u64) list \<Rightarrow> string" where
  "bucket_lines name cumulative [] = []"
| "bucket_lines name cumulative ((upper, n) # rest) =
     bucket_line name (u64_str upper) (cumulative + n) @ bucket_lines name (cumulative + n) rest"

definition write_histogram :: "string \<Rightarrow> histogram \<Rightarrow> string" where
  "write_histogram out h =
     (let name = hg_name h in
      out @ writeln (''# HELP '' @ name @ '' '' @ hg_help h) @
      writeln (''# TYPE '' @ name @ '' histogram'') @
      bucket_lines name 0 (zip BUCKET_BOUNDS (hg_buckets h)) @
      bucket_line name ''+Inf'' (hg_count h) @
      writeln (name @ ''_sum '' @ u64_str (hg_sum h)) @
      writeln (name @ ''_count '' @ u64_str (hg_count h)))"

definition render_prometheus :: "connector_metrics \<Rightarrow> string" where
  "render_prometheus m =
     fold (\<lambda>h out. write_histogram out h) (cm_histograms m)
       (fold (\<lambda>c out. write_counter out c) (cm_counters m) [])"

section \<open>The publish path\<close>

text \<open>\<open>record_publish\<close>, with the clock reading \<open>publish_ts\<close>.\<close>

definition record_publish ::
  "i64 \<Rightarrow> i64 \<Rightarrow> i64 \<Rightarrow> connector_metrics \<Rightarrow> i64 \<times> connector_metrics" where
  "record_publish publish_ts event_ts recv_ts m =
     (let m1 = m\<lparr>cm_messages_out := ct_increment (cm_messages_out m)\<rparr>;
          m2 = (if recv_ts \<noteq> TS_NONE then
                  m1\<lparr>cm_processing_latency :=
                     hg_record (i64_saturating_sub publish_ts recv_ts) (cm_processing_latency m1)\<rparr>
                else m1);
          m3 = (if event_ts \<noteq> TS_NONE \<and> recv_ts \<noteq> TS_NONE then
                  m2\<lparr>cm_wire_latency :=
                       hg_record (i64_saturating_sub recv_ts event_ts) (cm_wire_latency m2),
                     cm_end_to_end_latency :=
                       hg_record (i64_saturating_sub publish_ts event_ts) (cm_end_to_end_latency m2)\<rparr>
                else m2)
      in (publish_ts, m3))"

definition record_sequence_gap :: "connector_metrics \<Rightarrow> connector_metrics" where
  "record_sequence_gap m = m\<lparr>cm_sequence_gaps := ct_increment (cm_sequence_gaps m)\<rparr>"

definition record_book_stale :: "connector_metrics \<Rightarrow> connector_metrics" where
  "record_book_stale m = m\<lparr>cm_stale_books := ct_increment (cm_stale_books m)\<rparr>"

definition record_offer_failure :: "connector_metrics \<Rightarrow> connector_metrics" where
  "record_offer_failure m = m\<lparr>cm_offer_failures := ct_increment (cm_offer_failures m)\<rparr>"

end
