(* ===== verification/Metrics_Properties.thy ===== *)
theory Metrics_Properties
  imports Metrics
begin

text \<open>
  What the histograms count: each bucket line of a scrape is the number of samples up to its
  bound, and a percentile is the least bound that covers its rank.
\<close>

section \<open>Buckets\<close>

lemma takeWhile_less_index:
  fixes v :: "'a::linorder"
  assumes "sorted bs" "i < length bs"
  shows "length (takeWhile (\<lambda>b. b < v) bs) \<le> i \<longleftrightarrow> v \<le> bs ! i"
proof
  let ?k = "length (takeWhile (\<lambda>b. b < v) bs)"
  assume k: "?k \<le> i"
  then have "\<not> bs ! ?k < v" using nth_length_takeWhile [of "\<lambda>b. b < v" bs] assms(2) by linarith
  moreover have "bs ! ?k \<le> bs ! i" using sorted_nth_mono [OF assms(1) k assms(2)] .
  ultimately show "v \<le> bs ! i" by simp
next
  assume v: "v \<le> bs ! i"
  show "length (takeWhile (\<lambda>b. b < v) bs) \<le> i"
  proof (rule ccontr)
    assume "\<not> ?thesis"
    then have i: "i < length (takeWhile (\<lambda>b. b < v) bs)" by simp
    have "bs ! i < v"
      using set_takeWhileD [OF nth_mem [OF i]] takeWhile_nth [OF i] by simp
    with v show False by simp
  qed
qed

lemma bounds_facts: "sorted BUCKET_BOUNDS" "length BUCKET_BOUNDS = 19"
  by (simp_all add: BUCKET_BOUNDS_def)

lemma bucket_index_le: "i < 19 \<Longrightarrow> bucket_index v \<le> i \<longleftrightarrow> v \<le> BUCKET_BOUNDS ! i"
  using takeWhile_less_index [OF bounds_facts(1), of i v] by (auto simp: bucket_index_def NUM_BOUNDS_def bounds_facts)

lemma bucket_index_bound: "bucket_index v < 20"
  by (simp add: bucket_index_def NUM_BOUNDS_def)

lemma sum_list_take_update:
  fixes bs :: "'a::comm_ring_1 list"
  assumes "idx < length bs"
  shows "sum_list (take k (bs[idx := bs ! idx + 1])) = sum_list (take k bs) + (if idx < k then 1 else 0)"
  using assms
proof (induction bs arbitrary: idx k)
  case (Cons b bs)
  then show ?case by (cases idx; cases k) (simp_all add: algebra_simps)
qed simp

text \<open>The samples that count, and those among them that are not above a bound.\<close>

definition valid_samples :: "i64 list \<Rightarrow> u64 list" where
  "valid_samples xs = map i64_word (filter (\<lambda>x. 0 \<le> x) xs)"

definition samples_up_to :: "u64 \<Rightarrow> i64 list \<Rightarrow> nat" where
  "samples_up_to b xs = length (filter (\<lambda>v. v \<le> b) (valid_samples xs))"

definition hist_of :: "string \<Rightarrow> string \<Rightarrow> i64 list \<Rightarrow> histogram" where
  "hist_of name doc xs = fold hg_record xs (hg_new name doc)"

definition counts_exact :: "i64 list \<Rightarrow> histogram \<Rightarrow> bool" where
  "counts_exact xs h \<longleftrightarrow>
     length (hg_buckets h) = 20 \<and>
     hg_count h = word_of_nat (length (valid_samples xs)) \<and> hg_sum h = sum_list (valid_samples xs) \<and>
     (\<forall>i < 19. sum_list (take (Suc i) (hg_buckets h)) = word_of_nat (samples_up_to (BUCKET_BOUNDS ! i) xs)) \<and>
     sum_list (hg_buckets h) = hg_count h"

lemma counts_exact_new: "counts_exact [] (hg_new name doc)"
  by (simp add: counts_exact_def hg_new_def valid_samples_def samples_up_to_def NUM_BUCKETS_def
      NUM_BOUNDS_def take_replicate sum_list_replicate)

lemma counts_exact_record:
  assumes "counts_exact xs h"
  shows "counts_exact (xs @ [x]) (hg_record x h)"
proof (cases "x < 0")
  case True
  then have "valid_samples (xs @ [x]) = valid_samples xs" by (simp add: valid_samples_def)
  with True assms show ?thesis by (simp add: counts_exact_def hg_record_def samples_up_to_def)
next
  case False
  let ?v = "i64_word x"
  have vs: "valid_samples (xs @ [x]) = valid_samples xs @ [?v]"
    using False by (simp add: valid_samples_def)
  have len: "bucket_index ?v < length (hg_buckets h)"
    using assms bucket_index_bound by (simp add: counts_exact_def)
  have "bucket_index ?v < Suc i \<longleftrightarrow> ?v \<le> BUCKET_BOUNDS ! i" if "i < 19" for i
    using bucket_index_le [OF that] by (simp add: less_Suc_eq_le)
  moreover have "sum_list ((hg_buckets h)[bucket_index ?v := hg_buckets h ! bucket_index ?v + 1]) =
      sum_list (hg_buckets h) + 1"
    using sum_list_take_update [OF len, of "length (hg_buckets h)"] len by simp
  ultimately show ?thesis
    using assms False len
    by (simp add: counts_exact_def hg_record_def Let_def vs samples_up_to_def sum_list_take_update)
qed

lemma counts_exact_hist: "counts_exact xs (hist_of name doc xs)"
proof (induction xs rule: rev_induct)
  case (snoc x xs)
  then show ?case using counts_exact_record by (simp add: hist_of_def)
qed (simp add: hist_of_def counts_exact_new)

lemma hist_of_names [simp]: "hg_name (hist_of name doc xs) = name" "hg_help (hist_of name doc xs) = doc"
proof -
  have "hg_name (fold hg_record xs h) = hg_name h \<and> hg_help (fold hg_record xs h) = hg_help h" for h
    by (induction xs arbitrary: h) (simp_all add: hg_record_def Let_def)
  then show "hg_name (hist_of name doc xs) = name" "hg_help (hist_of name doc xs) = doc"
    by (simp_all add: hist_of_def hg_new_def)
qed

section \<open>Running sums\<close>

fun running_sums :: "(u64 \<Rightarrow> u64) \<Rightarrow> u64 \<Rightarrow> (u64 \<times> u64) list \<Rightarrow> bool" where
  "running_sums cum c [] = True"
| "running_sums cum c ((u, n) # rest) = (c + n = cum u \<and> running_sums cum (c + n) rest)"

lemma running_sums_zip:
  "length us \<le> length ns \<Longrightarrow> (\<forall>i < length us. c + sum_list (take (Suc i) ns) = cum (us ! i)) \<Longrightarrow>
   running_sums cum c (zip us ns)"
proof (induction us arbitrary: c ns)
  case (Cons u us)
  then obtain n ns' where ns: "ns = n # ns'" by (cases ns) auto
  have "c + n + sum_list (take (Suc i) ns') = cum (us ! i)" if "i < length us" for i
    using Cons.prems(2) [rule_format, of "Suc i"] that by (simp add: ns add.assoc)
  then have "running_sums cum (c + n) (zip us ns')"
    using Cons.IH [of ns' "c + n"] Cons.prems(1) by (simp add: ns)
  moreover have "c + n = cum u" using Cons.prems(2) [rule_format, of 0] by (simp add: ns)
  ultimately show ?case by (simp add: ns)
qed simp

lemma running_sums_hist:
  "running_sums (\<lambda>b. word_of_nat (samples_up_to b xs)) 0 (zip BUCKET_BOUNDS (hg_buckets (hist_of name doc xs)))"
  using counts_exact_hist [of xs name doc]
  by (intro running_sums_zip) (simp_all add: counts_exact_def bounds_facts)

lemma bucket_lines_sums:
  "running_sums cum c bs \<Longrightarrow>
   bucket_lines name c bs = concat (map (\<lambda>(u, _). bucket_line name (u64_str u) (cum u)) bs)"
  by (induction name c bs rule: bucket_lines.induct) auto

lemma percentile_scan_sums:
  "running_sums cum c bs \<Longrightarrow>
   percentile_scan t c bs = (case find (\<lambda>u. t \<le> cum u) (map fst bs) of Some u \<Rightarrow> u | None \<Rightarrow> - 1)"
  by (induction t c bs rule: percentile_scan.induct) auto

lemma zip_bounds: "map fst (zip BUCKET_BOUNDS (hg_buckets (hist_of name doc xs))) = BUCKET_BOUNDS"
  using counts_exact_hist [of xs name doc] by (simp add: counts_exact_def bounds_facts map_fst_zip_take)

section \<open>Properties\<close>

text \<open>A scrape of a histogram reports its samples: the line of a bucket carries the number of
  samples that are not negative and not above its bound, the last one their number, and the sum is
  theirs.\<close>

theorem scrape_reports_samples:
  "write_histogram [] (hist_of name doc xs) =
     writeln (''# HELP '' @ name @ '' '' @ doc) @ writeln (''# TYPE '' @ name @ '' histogram'') @
     concat (map (\<lambda>b. bucket_line name (u64_str b) (word_of_nat (samples_up_to b xs))) BUCKET_BOUNDS) @
     bucket_line name ''+Inf'' (word_of_nat (length (valid_samples xs))) @
     writeln (name @ ''_sum '' @ u64_str (sum_list (valid_samples xs))) @
     writeln (name @ ''_count '' @ u64_str (word_of_nat (length (valid_samples xs))))"
proof -
  let ?h = "hist_of name doc xs"
  have "concat (map (\<lambda>(u, _). bucket_line name (u64_str u) (word_of_nat (samples_up_to u xs)))
      (zip BUCKET_BOUNDS (hg_buckets ?h))) =
    concat (map (\<lambda>b. bucket_line name (u64_str b) (word_of_nat (samples_up_to b xs)))
      (map fst (zip BUCKET_BOUNDS (hg_buckets ?h))))"
    by (rule arg_cong [of _ _ concat]) (simp only: map_map comp_def case_prod_unfold)
  then show ?thesis
    using counts_exact_hist [of xs name doc]
    by (simp add: write_histogram_def Let_def bucket_lines_sums [OF running_sums_hist] zip_bounds
        counts_exact_def)
qed

lemma samples_up_to_le: "samples_up_to b xs \<le> length xs" "length (valid_samples xs) \<le> length xs"
  using length_filter_le [of "\<lambda>v. v \<le> b" "valid_samples xs"] length_filter_le [of "\<lambda>x. 0 \<le> x" xs]
  by (simp_all add: samples_up_to_def valid_samples_def)

lemma percentile_rank:
  assumes "0 < n" "n < 2 ^ 53" "F64_TINY \<le> p" "p \<le> 1"
  shows "unat (f64_to_u64 (of_int \<lceil>f64_mult (f64_of_u64 (word_of_nat n)) p\<rceil>)) =
    nat \<lceil>f64_round (of_nat n * p)\<rceil>"
proof -
  have "uint (word_of_nat n :: u64) = int n" using assms(2) by (simp add: uint_nat unat_of_nat)
  then have n: "f64_of_u64 (word_of_nat n) = of_nat n"
    using f64_round_int [of "int n"] assms(2) by (simp add: f64_of_u64_def)
  have "(1 :: rat) \<le> of_nat n" using assms(1) by simp
  moreover have p0: "0 \<le> p" using assms(3) F64_TINY_pos by linarith
  ultimately have "p \<le> of_nat n * p" using mult_right_mono [of 1 "of_nat n" p] by simp
  then have small: "F64_TINY \<le> of_nat n * p" using assms(3) by linarith
  have "of_nat n * p \<le> of_nat n" using assms(4) mult_left_mono [of p 1 "of_nat n"] by simp
  moreover have "(of_nat n :: rat) \<le> of_nat (2 ^ 53)" by (rule of_nat_mono) (use assms(2) in simp)
  ultimately have "f64_round (of_nat n * p) \<le> 2 ^ 54" using f64_round_bounds(2) [OF small] by simp
  then have "\<lceil>f64_round (of_nat n * p)\<rceil> \<le> 2 ^ 54" by (simp add: ceiling_le_iff)
  moreover have "0 \<le> \<lceil>f64_round (of_nat n * p)\<rceil>"
  proof -
    have "0 \<le> of_nat n * p / 2" using p0 by simp
    then have "0 \<le> f64_round (of_nat n * p)" using f64_round_bounds(1) [OF small] by linarith
    then show ?thesis by linarith
  qed
  ultimately show ?thesis
    by (simp add: f64_to_u64_def f64_mult_def n unsigned_of_int take_bit_int_eq_self min_def)
qed

text \<open>With fewer than \<open>2 ^ 53\<close> samples a percentile is the least bound that is not below the
  target number of samples, and the greatest \<open>u64\<close> if there is none; the target is the rank
  \<open>p * n\<close>, rounded as floating point and then up.\<close>

theorem percentile_least_bound:
  assumes "valid_samples xs \<noteq> []" "length xs < 2 ^ 53" "F64_TINY \<le> p" "p \<le> 1"
  shows "hg_percentile p (hist_of name doc xs) =
    Some (case find (\<lambda>b. nat \<lceil>f64_round (of_nat (length (valid_samples xs)) * p)\<rceil> \<le> samples_up_to b xs)
        BUCKET_BOUNDS of Some b \<Rightarrow> b | None \<Rightarrow> - 1)"
proof -
  let ?h = "hist_of name doc xs" and ?n = "length (valid_samples xs)"
  let ?t = "f64_to_u64 (of_int \<lceil>f64_mult (f64_of_u64 (word_of_nat ?n)) p\<rceil>)"
  have n: "0 < ?n" "?n < 2 ^ 53" using assms(1,2) samples_up_to_le(2) [of xs] by (simp, linarith)
  have count: "hg_count ?h = word_of_nat ?n" using counts_exact_hist by (simp add: counts_exact_def)
  have "unat (word_of_nat ?n :: u64) = ?n" using n(2) by (simp add: unat_of_nat)
  then have "hg_count ?h \<noteq> 0" using n(1) unfolding count by (metis unat_0 less_irrefl)
  moreover have "?t \<le> word_of_nat (samples_up_to b xs) \<longleftrightarrow>
      nat \<lceil>f64_round (of_nat ?n * p)\<rceil> \<le> samples_up_to b xs" for b
  proof -
    have "unat (word_of_nat (samples_up_to b xs) :: u64) = samples_up_to b xs"
      using samples_up_to_le(1) [of b xs] assms(2) by (simp add: unat_of_nat)
    then show ?thesis using percentile_rank [OF n assms(3,4)] by (simp add: word_le_nat_alt)
  qed
  ultimately show ?thesis
    by (simp add: hg_percentile_def Let_def percentile_scan_sums [OF running_sums_hist] zip_bounds count)
qed

theorem percentile_least_bound_witness:
  "hg_percentile 1 (hist_of ''h'' ''text'' [900, - 5, 70000, 1000]) = Some 100000"
proof -
  have v: "valid_samples [900, - 5, 70000, 1000] = [900, 70000, 1000]"
    by (simp add: valid_samples_def eval_simps)
  have r: "f64_round 3 = 3" using f64_round_int [of 3] by simp
  show ?thesis
    using F64_TINY_le_1 percentile_least_bound [of "[900, - 5, 70000, 1000]" 1 "''h''" "''text''"]
    by (simp add: samples_up_to_def v BUCKET_BOUNDS_def r)
qed

end
