(* ===== verification/Shadow_Compare.thy ===== *)
theory Shadow_Compare
  imports Normalized_Message Sbe Snapshot_Validator Float64
begin

text \<open>
  The comparison of the active with the shadow connector, \<open>bin/shadow-compare/src/lib.rs\<close>. A
  receiver is the list of frames waiting in it. None stands for a panic: the division of the
  least \<open>i64\<close> by \<open>-1\<close>. The hash containers are lists, whose order stands for the unspecified
  iteration order.
\<close>

section \<open>Configuration and statistics\<close>

definition SHADOW_STREAM_ID_OFFSET :: int where "SHADOW_STREAM_ID_OFFSET = 1000"

record compare_config =
  cc_tolerance_bps :: i64
  cc_min_samples :: u64
  cc_max_divergence_pct :: f64

definition compare_config_default :: compare_config where
  "compare_config_default =
     \<lparr>cc_tolerance_bps = 1, cc_min_samples = 60, cc_max_divergence_pct = 0\<rparr>"

record symbol_stats =
  sst_symbol :: string
  sst_samples :: u64
  sst_divergences :: u64
  sst_max_bid_diff_bps :: i64
  sst_max_ask_diff_bps :: i64

definition symbol_stats_new :: "string \<Rightarrow> symbol_stats" where
  "symbol_stats_new s =
     \<lparr>sst_symbol = s, sst_samples = 0, sst_divergences = 0, sst_max_bid_diff_bps = 0,
      sst_max_ask_diff_bps = 0\<rparr>"

definition divergence_pct :: "symbol_stats \<Rightarrow> f64" where
  "divergence_pct st =
     (if sst_samples st = 0 then 0
      else f64_mult (f64_divide (f64_of_u64 (sst_divergences st)) (f64_of_u64 (sst_samples st))) 100)"

definition is_acceptable :: "compare_config \<Rightarrow> symbol_stats \<Rightarrow> bool" where
  "is_acceptable cfg st \<longleftrightarrow> divergence_pct st \<le> cc_max_divergence_pct cfg"

datatype shadow_verdict =
    InsufficientData u64 u64
  | Stable
  | Diverging string i64

fun sv_is_stable :: "shadow_verdict \<Rightarrow> bool" where
  "sv_is_stable Stable = True"
| "sv_is_stable _ = False"

fun sv_exit_code :: "shadow_verdict \<Rightarrow> int" where
  "sv_exit_code Stable = 0"
| "sv_exit_code (Diverging _ _) = 1"
| "sv_exit_code (InsufficientData _ _) = 2"

section \<open>Comparator\<close>

record comparator =
  cmp_config :: compare_config
  cmp_active_rx :: "u8 list list"
  cmp_shadow_rx :: "u8 list list"
  cmp_active_bbo :: "(string, i64 \<times> i64) hash_map"
  cmp_shadow_bbo :: "(string, i64 \<times> i64) hash_map"
  cmp_pending :: "string list"
  cmp_stats :: "(string, symbol_stats) hash_map"

definition cmp_new :: "compare_config \<Rightarrow> u8 list list \<Rightarrow> u8 list list \<Rightarrow> comparator" where
  "cmp_new config active_rx shadow_rx =
     \<lparr>cmp_config = config, cmp_active_rx = active_rx, cmp_shadow_rx = shadow_rx,
      cmp_active_bbo = [], cmp_shadow_bbo = [], cmp_pending = [], cmp_stats = []\<rparr>"

text \<open>What a frame contributes: only a decodable best bid and offer counts.\<close>

definition frame_bbo :: "u8 list \<Rightarrow> (string \<times> i64 \<times> i64) option" where
  "frame_bbo buf =
     (case nm_from_bytes buf of
        Inr (NM_BestBidOffer bbo) \<Rightarrow> Some (bbo_symbol bbo, bbo_bid_price bbo, bbo_ask_price bbo)
      | _ \<Rightarrow> None)"

fun drain_frames ::
  "u8 list list \<Rightarrow> (string, i64 \<times> i64) hash_map \<Rightarrow> string list \<Rightarrow>
   (string, i64 \<times> i64) hash_map \<times> string list" where
  "drain_frames [] bbo pending = (bbo, pending)"
| "drain_frames (buf # rx) bbo pending =
     (case frame_bbo buf of
        None \<Rightarrow> drain_frames rx bbo pending
      | Some (s, prices) \<Rightarrow> drain_frames rx (AList.update s prices bbo) (List.insert s pending))"

definition drain_active :: "comparator \<Rightarrow> comparator" where
  "drain_active c =
     (let (bbo, pending) = drain_frames (cmp_active_rx c) (cmp_active_bbo c) (cmp_pending c) in
      c\<lparr>cmp_active_rx := [], cmp_active_bbo := bbo, cmp_pending := pending\<rparr>)"

definition drain_shadow :: "comparator \<Rightarrow> comparator" where
  "drain_shadow c =
     (let (bbo, pending) = drain_frames (cmp_shadow_rx c) (cmp_shadow_bbo c) (cmp_pending c) in
      c\<lparr>cmp_shadow_rx := [], cmp_shadow_bbo := bbo, cmp_pending := pending\<rparr>)"

text \<open>\<open>((a - s).abs() * 10_000) / a\<close>, zero for an active price of zero.\<close>

definition diff_bps :: "i64 \<Rightarrow> i64 \<Rightarrow> i64 option" where
  "diff_bps a s =
     (if a \<noteq> 0 then
        let n = i64_abs (a - s) * 10000 in
        if a = - 1 \<and> n = i64_of_int (- (2 ^ 63)) then None else Some (i64_div n a)
      else Some 0)"

definition record_sample :: "compare_config \<Rightarrow> i64 \<Rightarrow> i64 \<Rightarrow> symbol_stats \<Rightarrow> symbol_stats" where
  "record_sample cfg bid_diff_bps ask_diff_bps st =
     st\<lparr>sst_samples := sst_samples st + 1,
        sst_divergences := sst_divergences st +
          (if cc_tolerance_bps cfg < bid_diff_bps \<or> cc_tolerance_bps cfg < ask_diff_bps then 1 else 0),
        sst_max_bid_diff_bps := max (sst_max_bid_diff_bps st) bid_diff_bps,
        sst_max_ask_diff_bps := max (sst_max_ask_diff_bps st) ask_diff_bps\<rparr>"

definition compare_symbol :: "string \<Rightarrow> comparator \<Rightarrow> comparator option" where
  "compare_symbol s c =
     (case (map_of (cmp_active_bbo c) s, map_of (cmp_shadow_bbo c) s) of
        (Some (ab, aa), Some (sb, sa)) \<Rightarrow>
          Option.bind (diff_bps ab sb) (\<lambda>bid_diff_bps.
          Option.bind (diff_bps aa sa) (\<lambda>ask_diff_bps.
          let st = (case map_of (cmp_stats c) s of Some st \<Rightarrow> st | None \<Rightarrow> symbol_stats_new s) in
          Some (c\<lparr>cmp_stats := AList.update s
            (record_sample (cmp_config c) bid_diff_bps ask_diff_bps st) (cmp_stats c)\<rparr>)))
      | _ \<Rightarrow> None)"

fun compare_symbols :: "string list \<Rightarrow> comparator \<Rightarrow> comparator option" where
  "compare_symbols [] c = Some c"
| "compare_symbols (s # ss) c = Option.bind (compare_symbol s c) (compare_symbols ss)"

definition compare_pending :: "comparator \<Rightarrow> comparator option" where
  "compare_pending c =
     (let symbols = filter (\<lambda>s. map_of (cmp_active_bbo c) s \<noteq> None \<and> map_of (cmp_shadow_bbo c) s \<noteq> None)
            (cmp_pending c)
      in compare_symbols symbols (c\<lparr>cmp_pending := []\<rparr>))"

definition cmp_tick :: "comparator \<Rightarrow> comparator option" where
  "cmp_tick c = compare_pending (drain_shadow (drain_active c))"

definition cmp_total_samples :: "comparator \<Rightarrow> u64" where
  "cmp_total_samples c = sum_list (map (\<lambda>(_, st). sst_samples st) (cmp_stats c))"

text \<open>The loop over the statistics: the symbol with the greatest difference so far.\<close>

definition worst_step :: "compare_config \<Rightarrow> symbol_stats \<Rightarrow> string \<times> i64 \<Rightarrow> string \<times> i64" where
  "worst_step cfg st = (\<lambda>(worst_symbol, worst_diff_bps).
     if \<not> is_acceptable cfg st then
       let diff = max (sst_max_bid_diff_bps st) (sst_max_ask_diff_bps st) in
       if worst_diff_bps < diff then (sst_symbol st, diff) else (worst_symbol, worst_diff_bps)
     else (worst_symbol, worst_diff_bps))"

definition cmp_verdict :: "comparator \<Rightarrow> shadow_verdict" where
  "cmp_verdict c =
     (let total = sum_list (map (\<lambda>(_, st). sst_samples st) (cmp_stats c)) in
      if total < cc_min_samples (cmp_config c) then InsufficientData total (cc_min_samples (cmp_config c))
      else
        let (worst_symbol, worst_diff_bps) =
              fold (\<lambda>(_, st). worst_step (cmp_config c) st) (cmp_stats c) ([], 0) in
        if worst_symbol \<noteq> [] then Diverging worst_symbol worst_diff_bps else Stable)"

section \<open>Runs\<close>

text \<open>A tick after frames have come in on both streams.\<close>

definition cmp_round :: "u8 list list \<times> u8 list list \<Rightarrow> comparator \<Rightarrow> comparator option" where
  "cmp_round fs c =
     cmp_tick (c\<lparr>cmp_active_rx := cmp_active_rx c @ fst fs, cmp_shadow_rx := cmp_shadow_rx c @ snd fs\<rparr>)"

fun cmp_rounds :: "(u8 list list \<times> u8 list list) list \<Rightarrow> comparator \<Rightarrow> comparator option" where
  "cmp_rounds [] c = Some c"
| "cmp_rounds (fs # rest) c = Option.bind (cmp_round fs c) (cmp_rounds rest)"

end
