(* ===== verification/Shadow_Properties.thy ===== *)
theory Shadow_Properties
  imports Shadow_Compare
begin

text \<open>
  What the verdict of the shadow comparison says: it blames exactly the symbols that diverged,
  and equal feeds never diverge.
\<close>

section \<open>The rate of divergence\<close>

lemma F64_TINY_small: "F64_TINY \<le> 1 / 2 ^ 66"
proof -
  have "(2 :: rat) powi (- 1000) \<le> 2 powi (- 66)" by (rule power_int_increasing) simp_all
  then show ?thesis by (simp add: F64_TINY_def power_int_minus inverse_eq_divide)
qed

lemma f64_of_u64_bounds:
  assumes "n \<noteq> 0"
  shows "1 / 2 \<le> f64_of_u64 n" "f64_of_u64 n \<le> 2 ^ 65"
proof -
  have n: "1 \<le> uint n" "uint n < 2 ^ 64"
    using assms uint_lt2p [of n] by (simp_all add: int_one_le_iff_zero_less word_neq_0_conv word_less_def)
  then have "(of_int 1 :: rat) \<le> of_int (uint n)" "of_int (uint n) \<le> (of_int (2 ^ 64) :: rat)"
    by (simp_all only: of_int_le_iff less_imp_le)
  then have r: "(1 :: rat) \<le> of_int (uint n)" "of_int (uint n) \<le> (2 ^ 64 :: rat)" by simp_all
  then have "F64_TINY \<le> of_int (uint n)" using F64_TINY_le_1 by linarith
  from f64_round_bounds [OF this] r show "1 / 2 \<le> f64_of_u64 n" "f64_of_u64 n \<le> 2 ^ 65"
    by (simp_all add: f64_of_u64_def)
qed

lemma f64_round_ge: "F64_TINY \<le> c \<Longrightarrow> c \<le> x \<Longrightarrow> c / 2 \<le> f64_round x"
  using f64_round_bounds(1) [of x] by linarith

lemma divergence_pct_positive:
  assumes "sst_divergences st \<noteq> 0" "sst_samples st \<noteq> 0"
  shows "0 < divergence_pct st"
proof -
  let ?d = "f64_of_u64 (sst_divergences st)" and ?n = "f64_of_u64 (sst_samples st)"
  note d = f64_of_u64_bounds [OF assms(1)] and n = f64_of_u64_bounds [OF assms(2)]
  define c :: rat where "c = 1 / 2 ^ 66"
  have c: "F64_TINY \<le> c" "0 < c" using F64_TINY_small by (simp_all add: c_def)
  have "1 / 2 / 2 ^ 65 \<le> ?d / ?n"
    using d(1) n by (intro frac_le) linarith+
  then have "c \<le> ?d / ?n" by (simp add: c_def)
  then have "c / 2 \<le> f64_divide ?d ?n" using f64_round_ge c(1) by (simp only: f64_divide_def)
  then have "c \<le> f64_divide ?d ?n * 100" using c(2) by linarith
  then have "c / 2 \<le> divergence_pct st"
    using f64_round_ge c(1) assms(2) by (simp only: divergence_pct_def f64_mult_def if_False)
  then show ?thesis using c(2) by linarith
qed

lemma divergence_pct_zero: "sst_divergences st = 0 \<Longrightarrow> divergence_pct st = 0"
  by (simp add: divergence_pct_def f64_of_u64_def f64_divide_def f64_mult_def)

section \<open>Statistics of a run\<close>

definition worst_diff :: "symbol_stats \<Rightarrow> i64" where
  "worst_diff st = max (sst_max_bid_diff_bps st) (sst_max_ask_diff_bps st)"

text \<open>After at most \<open>k\<close> samples of a symbol; \<open>n\<close> of them were divergences.\<close>

definition stats_ok :: "i64 \<Rightarrow> nat \<Rightarrow> string \<Rightarrow> symbol_stats \<Rightarrow> bool" where
  "stats_ok tol k s st \<longleftrightarrow> sst_symbol st = s \<and>
     (\<exists>m n. sst_samples st = word_of_nat m \<and> sst_divergences st = word_of_nat n \<and> 0 < m \<and> n \<le> m \<and> m \<le> k \<and>
       (0 < n \<longrightarrow> tol < worst_diff st))"

lemma stats_ok_mono: "stats_ok tol k s st \<Longrightarrow> k \<le> l \<Longrightarrow> stats_ok tol l s st"
  unfolding stats_ok_def using order_trans by blast

lemma stats_ok_record:
  assumes "stats_ok (cc_tolerance_bps cfg) k s st \<or> st = symbol_stats_new s"
  shows "stats_ok (cc_tolerance_bps cfg) (Suc k) s (record_sample cfg b a st)"
proof -
  let ?st = "record_sample cfg b a st"
  obtain m n where mn: "sst_symbol st = s" "sst_samples st = word_of_nat m" "sst_divergences st = word_of_nat n"
    "n \<le> m" "m \<le> k" "0 < n \<longrightarrow> cc_tolerance_bps cfg < worst_diff st"
  proof -
    consider "stats_ok (cc_tolerance_bps cfg) k s st" | "st = symbol_stats_new s" using assms by blast
    then show ?thesis
    proof cases
      case 1
      then show ?thesis using that by (auto simp: stats_ok_def)
    next
      case 2
      then show ?thesis using that [of 0 0] by (simp add: symbol_stats_new_def)
    qed
  qed
  define hit where "hit \<longleftrightarrow> cc_tolerance_bps cfg < b \<or> cc_tolerance_bps cfg < a"
  have "worst_diff st \<le> worst_diff ?st" "hit \<Longrightarrow> cc_tolerance_bps cfg < worst_diff ?st"
    by (auto simp: worst_diff_def record_sample_def hit_def less_max_iff_disj le_max_iff_disj)
  then have "0 < n + (if hit then 1 else 0) \<longrightarrow> cc_tolerance_bps cfg < worst_diff ?st"
    using mn(6) by (auto dest: less_le_trans)
  moreover have "sst_samples ?st = word_of_nat (Suc m)"
    "sst_divergences ?st = word_of_nat (n + (if hit then 1 else 0))" "sst_symbol ?st = s"
    using mn(1-3) by (simp_all add: record_sample_def hit_def add.commute)
  ultimately show ?thesis
    unfolding stats_ok_def using mn(4,5)
    by (intro conjI exI [of _ "Suc m"] exI [of _ "n + (if hit then 1 else 0)"]) simp_all
qed

lemma compare_symbol_stats:
  assumes "compare_symbol s c = Some c'"
  shows "\<exists>b a st. (map_of (cmp_stats c) s = Some st \<or> map_of (cmp_stats c) s = None \<and> st = symbol_stats_new s) \<and>
    c' = c\<lparr>cmp_stats := AList.update s (record_sample (cmp_config c) b a st) (cmp_stats c)\<rparr>"
  using assms by (auto simp: compare_symbol_def Let_def bind_eq_Some_conv split: option.splits prod.splits)

definition all_stats :: "i64 \<Rightarrow> (string \<Rightarrow> nat) \<Rightarrow> (string, symbol_stats) hash_map \<Rightarrow> bool" where
  "all_stats tol k m \<longleftrightarrow> hm_wf m \<and> (\<forall>s st. map_of m s = Some st \<longrightarrow> stats_ok tol (k s) s st)"

lemma all_statsD: "all_stats tol k m \<Longrightarrow> map_of m s = Some st \<Longrightarrow> stats_ok tol (k s) s st"
  by (simp add: all_stats_def)

lemma compare_symbols_stats:
  "compare_symbols ss c = Some c' \<Longrightarrow> distinct ss \<Longrightarrow>
   all_stats (cc_tolerance_bps (cmp_config c)) (\<lambda>s. if s \<in> set ss then k else Suc k) (cmp_stats c) \<Longrightarrow>
   cmp_config c' = cmp_config c \<and> cmp_pending c' = cmp_pending c \<and>
   all_stats (cc_tolerance_bps (cmp_config c)) (\<lambda>_. Suc k) (cmp_stats c')"
proof (induction ss arbitrary: c)
  case (Cons s ss)
  obtain c1 where c1: "compare_symbol s c = Some c1" "compare_symbols ss c1 = Some c'"
    using Cons.prems(1) by (auto simp: bind_eq_Some_conv)
  obtain b a st where st: "map_of (cmp_stats c) s = Some st \<or> map_of (cmp_stats c) s = None \<and> st = symbol_stats_new s"
    "c1 = c\<lparr>cmp_stats := AList.update s (record_sample (cmp_config c) b a st) (cmp_stats c)\<rparr>"
    using compare_symbol_stats [OF c1(1)] by blast
  have "stats_ok (cc_tolerance_bps (cmp_config c)) k s st \<or> st = symbol_stats_new s"
    using st(1) all_statsD [OF Cons.prems(3), of s st] by auto
  from stats_ok_record [OF this] have new: "stats_ok (cc_tolerance_bps (cmp_config c)) (Suc k) s
      (record_sample (cmp_config c) b a st)" .
  have "all_stats (cc_tolerance_bps (cmp_config c)) (\<lambda>s. if s \<in> set ss then k else Suc k) (cmp_stats c1)"
    unfolding all_stats_def
  proof (intro conjI allI impI)
    show "hm_wf (cmp_stats c1)" using Cons.prems(3) st(2) by (simp add: all_stats_def)
    fix t stt
    assume t: "map_of (cmp_stats c1) t = Some stt"
    show "stats_ok (cc_tolerance_bps (cmp_config c)) (if t \<in> set ss then k else Suc k) t stt"
    proof (cases "t = s")
      case True
      then show ?thesis using t st(2) new Cons.prems(2) by auto
    next
      case False
      then have "map_of (cmp_stats c) t = Some stt" using t st(2) by simp
      then show ?thesis using all_statsD [OF Cons.prems(3), of t stt] False by simp
    qed
  qed
  then show ?case using Cons.IH [OF c1(2)] Cons.prems(2) st(2) by simp
qed (simp add: all_stats_def)

lemma drain_frames_distinct: "distinct p \<Longrightarrow> distinct (snd (drain_frames rx bbo p))"
  by (induction rx arbitrary: bbo p) (simp_all split: option.splits prod.splits)

lemma cmp_round_stats:
  assumes "cmp_round fs c = Some c'" "cmp_pending c = []"
    and "all_stats (cc_tolerance_bps (cmp_config c)) (\<lambda>_. k) (cmp_stats c)"
  shows "cmp_config c' = cmp_config c \<and> cmp_pending c' = [] \<and>
    all_stats (cc_tolerance_bps (cmp_config c)) (\<lambda>_. Suc k) (cmp_stats c')"
proof -
  define d where "d = drain_shadow (drain_active
    (c\<lparr>cmp_active_rx := cmp_active_rx c @ fst fs, cmp_shadow_rx := cmp_shadow_rx c @ snd fs\<rparr>))"
  have d: "cmp_config d = cmp_config c" "cmp_stats d = cmp_stats c" "distinct (cmp_pending d)"
    using assms(2) by (simp_all add: d_def drain_shadow_def drain_active_def case_prod_beta Let_def
        drain_frames_distinct)
  let ?ss = "filter (\<lambda>s. map_of (cmp_active_bbo d) s \<noteq> None \<and> map_of (cmp_shadow_bbo d) s \<noteq> None) (cmp_pending d)"
  have "compare_symbols ?ss (d\<lparr>cmp_pending := []\<rparr>) = Some c'"
    using assms(1) by (simp add: cmp_round_def cmp_tick_def compare_pending_def d_def Let_def)
  moreover have "all_stats (cc_tolerance_bps (cmp_config d)) (\<lambda>s. if s \<in> set ?ss then k else Suc k) (cmp_stats d)"
    using assms(3) stats_ok_mono [of _ k _ _ "Suc k"] by (auto simp: all_stats_def d(1,2))
  ultimately show ?thesis
    using compare_symbols_stats [of ?ss "d\<lparr>cmp_pending := []\<rparr>" c' k] d by simp
qed

lemma cmp_rounds_stats:
  "cmp_rounds rs c = Some c' \<Longrightarrow> cmp_pending c = [] \<Longrightarrow>
   all_stats (cc_tolerance_bps (cmp_config c)) (\<lambda>_. k) (cmp_stats c) \<Longrightarrow>
   cmp_config c' = cmp_config c \<and>
   all_stats (cc_tolerance_bps (cmp_config c)) (\<lambda>_. k + length rs) (cmp_stats c')"
proof (induction rs arbitrary: c k)
  case (Cons fs rs)
  obtain c1 where c1: "cmp_round fs c = Some c1" "cmp_rounds rs c1 = Some c'"
    using Cons.prems(1) by (auto simp: bind_eq_Some_conv)
  from cmp_round_stats [OF c1(1) Cons.prems(2,3)] show ?case
    using Cons.IH [OF c1(2), of "Suc k"] by simp
qed simp

section \<open>The verdict\<close>

lemma worst_fold:
  assumes "\<forall>(s, st) \<in> set xs. sst_symbol st = s \<and> s \<noteq> [] \<and> (\<not> is_acceptable cfg st \<longrightarrow> 0 < worst_diff st)"
    and "fold (\<lambda>(_, st). worst_step cfg st) xs ([], 0) = (w, d)"
  shows "(w = [] \<longrightarrow> d = 0 \<and> (\<forall>(s, st) \<in> set xs. is_acceptable cfg st)) \<and>
    (w \<noteq> [] \<longrightarrow> 0 < d \<and> (\<exists>st. (w, st) \<in> set xs \<and> \<not> is_acceptable cfg st \<and> worst_diff st = d)) \<and>
    (\<forall>(s, st) \<in> set xs. \<not> is_acceptable cfg st \<longrightarrow> worst_diff st \<le> d)"
  using assms
proof (induction xs arbitrary: w d rule: rev_induct)
  case (snoc x xs)
  obtain s st where x: "x = (s, st)" by (rule prod.exhaust)
  obtain w1 d1 where f: "fold (\<lambda>(_, st). worst_step cfg st) xs ([], 0) = (w1, d1)" by (rule prod.exhaust)
  have IH: "(w1 = [] \<longrightarrow> d1 = 0 \<and> (\<forall>(s, st) \<in> set xs. is_acceptable cfg st)) \<and>
    (w1 \<noteq> [] \<longrightarrow> 0 < d1 \<and> (\<exists>st. (w1, st) \<in> set xs \<and> \<not> is_acceptable cfg st \<and> worst_diff st = d1)) \<and>
    (\<forall>(s, st) \<in> set xs. \<not> is_acceptable cfg st \<longrightarrow> worst_diff st \<le> d1)"
    using snoc.IH [OF _ f] snoc.prems(1) by auto
  have st: "sst_symbol st = s" "s \<noteq> []" "\<not> is_acceptable cfg st \<longrightarrow> 0 < worst_diff st"
    using snoc.prems(1) x by auto
  have step: "(w, d) = (if \<not> is_acceptable cfg st \<and> d1 < worst_diff st then (s, worst_diff st) else (w1, d1))"
    using snoc.prems(2) f st(1) by (auto simp: x worst_step_def worst_diff_def Let_def split: if_splits)
  show ?case
  proof (cases "\<not> is_acceptable cfg st \<and> d1 < worst_diff st")
    case True
    have "worst_diff st' \<le> worst_diff st" if "(s', st') \<in> set xs" "\<not> is_acceptable cfg st'" for s' st'
      using IH that True by (auto intro: order_trans less_imp_le)
    then show ?thesis using step True st x by auto
  next
    case False
    then have wd: "w = w1" "d = d1" using step by auto
    have "is_acceptable cfg st" if "w1 = []" using IH that st(3) False by auto
    moreover have "\<not> is_acceptable cfg st \<longrightarrow> worst_diff st \<le> d1" using False by auto
    ultimately show ?thesis using IH by (auto simp: wd x)
  qed
qed simp


lemma diff_bps_same: "diff_bps a a = Some 0"
proof -
  have "i64_div 0 a = 0" by (simp add: i64_div_def eval_simps)
  moreover have "i64_abs (a - a) * 10000 = 0" by (simp add: i64_abs_def)
  moreover have "(0 :: i64) \<noteq> i64_of_int (- (2 ^ 63))" by (simp add: eval_simps)
  ultimately show ?thesis by (simp add: diff_bps_def Let_def del: power_numeral)
qed

definition sample_shadow_bbo :: "i64 \<Rightarrow> BestBidOffer" where
  "sample_shadow_bbo bid =
     \<lparr>bbo_header = \<lparr>mh_schema_version = 1, mh_message_type = MT_BestBidOffer,
        mh_venue_id = BinanceSpot, mh_market_type = Spot, mh_instrument_id = 1, mh_connection_id = 0,
        mh_instance_id = 0, mh_sequence_number = 1, mh_exchange_event_ts = 0, mh_exchange_tx_ts = 0,
        mh_local_recv_ts = 0, mh_local_publish_ts = 0\<rparr>,
      bbo_symbol = ''BTC'', bbo_price_scale = 2, bbo_qty_scale = 3, bbo_bid_price = bid,
      bbo_bid_qty = 1, bbo_ask_price = 20000, bbo_ask_qty = 1, bbo_update_id = 0\<rparr>"

definition sample_frame :: "i64 \<Rightarrow> u8 list" where
  "sample_frame bid = nm_wire (NM_BestBidOffer (sample_shadow_bbo bid))"

lemma sample_frame_bbo: "frame_bbo (sample_frame bid) = Some (''BTC'', bid, 20000)"
proof -
  have "nm_ok (NM_BestBidOffer (sample_shadow_bbo bid))"
    by (auto simp: sample_shadow_bbo_def BestBidOffer_ok_def str_ok_def u16_MAX_def intro!: str_utf8_ascii)
  from nm_from_bytes_wire [OF this, of "[]"] show ?thesis
    by (simp add: frame_bbo_def sample_frame_def sample_shadow_bbo_def)
qed

definition sample_cfg :: compare_config where
  "sample_cfg = compare_config_default\<lparr>cc_min_samples := 1\<rparr>"

lemma sample_diff: "diff_bps 10000 10050 = Some 50" "diff_bps 20000 20000 = Some 0"
proof -
  have "i64_abs (10000 - 10050) * 10000 = 500000"
    by (simp add: i64_abs_def eval_simps)
  then show "diff_bps 10000 10050 = Some 50" by (simp add: diff_bps_def i64_div_def eval_simps)
qed (rule diff_bps_same)

definition sample_stats :: symbol_stats where
  "sample_stats = \<lparr>sst_symbol = ''BTC'', sst_samples = 1, sst_divergences = 1,
     sst_max_bid_diff_bps = 50, sst_max_ask_diff_bps = 0\<rparr>"

lemma sample_round:
  "cmp_rounds [([sample_frame 10000], [sample_frame 10050])] (cmp_new sample_cfg [] []) =
     Some ((cmp_new sample_cfg [] [])\<lparr>cmp_active_bbo := [(''BTC'', 10000, 20000)],
       cmp_shadow_bbo := [(''BTC'', 10050, 20000)], cmp_stats := [(''BTC'', sample_stats)]\<rparr>)"
proof -
  have "record_sample sample_cfg 50 0 (symbol_stats_new ''BTC'') = sample_stats"
    by (simp add: record_sample_def sample_cfg_def compare_config_default_def symbol_stats_new_def
        sample_stats_def max_def less_eq_i64_def less_i64_def eval_simps)
  then show ?thesis
    by (simp add: cmp_round_def cmp_tick_def compare_pending_def drain_active_def drain_shadow_def
        cmp_new_def sample_frame_bbo compare_symbol_def sample_diff Let_def)
qed


text \<open>The quotient is rounded down: a difference is accepted as long as it is less than one basis point
  above the tolerance. Against an active price that is not positive nothing is ever reported.\<close>

theorem tolerance_rounds_down:
  assumes "0 < i64_val a" "i64_val a < 2 ^ 48" "0 \<le> i64_val s" "i64_val s < 2 ^ 48"
  shows "\<exists>d. diff_bps a s = Some d \<and>
    (tol < d \<longleftrightarrow> (i64_val tol + 1) * i64_val a \<le> 10000 * \<bar>i64_val a - i64_val s\<bar>)"
proof -
  let ?n = "10000 * \<bar>i64_val a - i64_val s\<bar>"
  have diff: "i64_val (a - s) = i64_val a - i64_val s"
  proof -
    have "a - s = i64_of_int (i64_val a - i64_val s)"
      by (simp add: i64_of_int_def minus_i64_def i64_val_def)
    then show ?thesis using assms by (simp add: i64_val_of_int)
  qed
  have abs: "i64_abs (a - s) = i64_of_int \<bar>i64_val a - i64_val s\<bar>"
  proof (cases "a - s < 0")
    case True
    then have "- (a - s) = i64_of_int (- (i64_val a - i64_val s))"
      by (simp add: i64_of_int_def minus_i64_def uminus_i64_def i64_val_def)
    then show ?thesis using True diff by (simp add: i64_abs_def less_i64_def)
  next
    case False
    then show ?thesis using diff i64_of_int_val [of "a - s"] by (simp add: i64_abs_def less_i64_def)
  qed
  have n: "i64_abs (a - s) * 10000 = i64_of_int ?n"
    by (simp add: abs i64_of_int_def times_i64_def numeral_i64)
  have "\<bar>i64_val a - i64_val s\<bar> < 2 ^ 48" using assms by arith
  then have bound: "?n < 2 ^ 63" "0 \<le> ?n" by simp_all
  then have val: "i64_val (i64_of_int ?n) = ?n" by (intro i64_val_of_int) linarith+
  have "a \<noteq> 0" "a \<noteq> - 1" using assms(1) by (auto simp: eval_simps)
  then have "diff_bps a s = Some (i64_div (i64_of_int ?n) a)"
    by (simp add: diff_bps_def n Let_def)
  moreover have "i64_val (i64_div (i64_of_int ?n) a) = ?n div i64_val a"
  proof -
    have "?n div i64_val a \<le> ?n" using zdiv_mono2 [of ?n 1 "i64_val a"] bound(2) assms(1) by simp
    moreover have "0 \<le> ?n div i64_val a" using bound(2) assms(1) by (simp add: pos_imp_zdiv_nonneg_iff)
    ultimately have "i64_val (i64_of_int (?n div i64_val a)) = ?n div i64_val a"
      using bound(1) by (intro i64_val_of_int) linarith+
    then show ?thesis using assms(1) val by (simp add: i64_div_def sgn_if)
  qed
  moreover have "i64_val tol < ?n div i64_val a \<longleftrightarrow> (i64_val tol + 1) * i64_val a \<le> ?n"
  proof
    assume "i64_val tol < ?n div i64_val a"
    then have "(i64_val tol + 1) * i64_val a \<le> ?n div i64_val a * i64_val a"
      using assms(1) by (intro mult_right_mono) simp_all
    also have "\<dots> \<le> ?n" using div_mult_mod_eq [of ?n "i64_val a"] pos_mod_sign [OF assms(1), of ?n] by linarith
    finally show "(i64_val tol + 1) * i64_val a \<le> ?n" .
  next
    assume "(i64_val tol + 1) * i64_val a \<le> ?n"
    from zdiv_mono1 [OF this assms(1)] assms(1) show "i64_val tol < ?n div i64_val a" by simp
  qed
  ultimately show ?thesis by (auto simp: less_i64_def)
qed

section \<open>Equal feeds\<close>

definition feed_bbos :: "u8 list list \<Rightarrow> (string \<times> i64 \<times> i64) list" where
  "feed_bbos fs = List.map_filter frame_bbo fs"

lemma drain_frames_bbos:
  "drain_frames rx bbo p = (fold (\<lambda>(s, v). AList.update s v) (feed_bbos rx) bbo, fold (\<lambda>(s, v). List.insert s) (feed_bbos rx) p)"
  by (induction rx arbitrary: bbo p) (simp_all add: feed_bbos_def map_filter_simps split: option.splits)

definition stats_quiet :: "(string, symbol_stats) hash_map \<Rightarrow> bool" where
  "stats_quiet m \<longleftrightarrow> (\<forall>s st. map_of m s = Some st \<longrightarrow>
     sst_divergences st = 0 \<and> sst_max_bid_diff_bps st = 0 \<and> sst_max_ask_diff_bps st = 0)"

definition twin :: "comparator \<Rightarrow> bool" where
  "twin c \<longleftrightarrow> cmp_active_bbo c = cmp_shadow_bbo c \<and> cmp_active_rx c = [] \<and> cmp_shadow_rx c = [] \<and>
     hm_wf (cmp_stats c) \<and> stats_quiet (cmp_stats c) \<and> 0 \<le> cc_tolerance_bps (cmp_config c)"

lemma twin_compare_symbol:
  assumes "twin c" "map_of (cmp_active_bbo c) s \<noteq> None"
  shows "\<exists>c'. compare_symbol s c = Some c' \<and> twin c' \<and> cmp_config c' = cmp_config c \<and>
    cmp_active_bbo c' = cmp_active_bbo c"
proof -
  obtain b a where ba: "map_of (cmp_shadow_bbo c) s = Some (b, a)" "map_of (cmp_active_bbo c) s = Some (b, a)"
    using assms by (auto simp: twin_def)
  define st where "st = (case map_of (cmp_stats c) s of Some st \<Rightarrow> st | None \<Rightarrow> symbol_stats_new s)"
  have "sst_divergences st = 0" "sst_max_bid_diff_bps st = 0" "sst_max_ask_diff_bps st = 0"
    using assms(1) by (auto simp: st_def twin_def stats_quiet_def symbol_stats_new_def split: option.split)
  then have quiet: "stats_quiet (AList.update s (record_sample (cmp_config c) 0 0 st) (cmp_stats c))"
    using assms(1) by (simp add: twin_def stats_quiet_def record_sample_def not_less)
  have "compare_symbol s c = Some (c\<lparr>cmp_stats :=
      AList.update s (record_sample (cmp_config c) 0 0 st) (cmp_stats c)\<rparr>)"
    by (simp add: compare_symbol_def ba diff_bps_same st_def Let_def)
  with quiet assms(1) show ?thesis by (simp add: twin_def)
qed

lemma twin_compare_symbols:
  "twin c \<Longrightarrow> \<forall>s \<in> set ss. map_of (cmp_active_bbo c) s \<noteq> None \<Longrightarrow>
   \<exists>c'. compare_symbols ss c = Some c' \<and> twin c' \<and> cmp_config c' = cmp_config c"
proof (induction ss arbitrary: c)
  case (Cons s ss)
  obtain c1 where c1: "compare_symbol s c = Some c1" "twin c1" "cmp_config c1 = cmp_config c"
    "cmp_active_bbo c1 = cmp_active_bbo c"
    using twin_compare_symbol [OF Cons.prems(1), of s] Cons.prems(2) by auto
  have "\<forall>s \<in> set ss. map_of (cmp_active_bbo c1) s \<noteq> None" using Cons.prems(2) c1(4) by simp
  from Cons.IH [OF c1(2) this] c1 show ?case by auto
qed simp

lemma twin_round:
  assumes "twin c" "feed_bbos (fst fs) = feed_bbos (snd fs)"
  shows "\<exists>c'. cmp_round fs c = Some c' \<and> twin c' \<and> cmp_config c' = cmp_config c"
proof -
  define d where "d = (drain_shadow (drain_active
    (c\<lparr>cmp_active_rx := cmp_active_rx c @ fst fs, cmp_shadow_rx := cmp_shadow_rx c @ snd fs\<rparr>)))\<lparr>cmp_pending := []\<rparr>"
  have "twin d" "cmp_config d = cmp_config c"
    using assms by (simp_all add: d_def twin_def drain_shadow_def drain_active_def case_prod_beta Let_def
        drain_frames_bbos)
  then show ?thesis
    using twin_compare_symbols [of d] unfolding cmp_round_def cmp_tick_def compare_pending_def Let_def
    by (auto simp: d_def)
qed

lemma twin_rounds:
  "twin c \<Longrightarrow> list_all (\<lambda>fs. feed_bbos (fst fs) = feed_bbos (snd fs)) rs \<Longrightarrow>
   \<exists>c'. cmp_rounds rs c = Some c' \<and> twin c' \<and> cmp_config c' = cmp_config c"
proof (induction rs arbitrary: c)
  case (Cons fs rs)
  obtain c1 where c1: "cmp_round fs c = Some c1" "twin c1" "cmp_config c1 = cmp_config c"
    using twin_round [OF Cons.prems(1), of fs] Cons.prems(2) by auto
  from Cons.IH [OF c1(2)] Cons.prems(2) c1 show ?case by auto
qed simp

text \<open>Feeds that carry the same best bids and offers round by round, whatever else is in them and
  however the frames differ, never diverge: the comparison does not panic, every difference
  recorded is zero, and the verdict is stable as soon as there are samples enough.\<close>

theorem equal_feeds_stable:
  assumes "list_all (\<lambda>fs. feed_bbos (fst fs) = feed_bbos (snd fs)) rounds"
    and "0 \<le> cc_tolerance_bps cfg" "0 \<le> cc_max_divergence_pct cfg"
  shows "\<exists>c. cmp_rounds rounds (cmp_new cfg [] []) = Some c \<and>
    (\<forall>(s, st) \<in> set (cmp_stats c). sst_divergences st = 0 \<and> worst_diff st = 0) \<and>
    cmp_verdict c = (if cmp_total_samples c < cc_min_samples cfg
      then InsufficientData (cmp_total_samples c) (cc_min_samples cfg) else Stable)"
proof -
  have "twin (cmp_new cfg [] [])" using assms(2) by (simp add: twin_def cmp_new_def stats_quiet_def)
  from twin_rounds [OF this assms(1)] obtain c where c: "cmp_rounds rounds (cmp_new cfg [] []) = Some c"
    "twin c" "cmp_config c = cfg" by (auto simp: cmp_new_def)
  have quiet: "sst_divergences st = 0 \<and> worst_diff st = 0" if "(s, st) \<in> set (cmp_stats c)" for s st
    using c(2) that by (auto simp: twin_def stats_quiet_def hm_wf_def worst_diff_def)
  have "fold (\<lambda>(_, st). worst_step cfg st) xs ([], 0) = ([], 0)" if "set xs \<subseteq> set (cmp_stats c)" for xs
    using that
  proof (induction xs)
    case (Cons x xs)
    obtain s st where x: "x = (s, st)" by (rule prod.exhaust)
    have "is_acceptable cfg st"
      using Cons.prems x quiet assms(3) by (auto simp: is_acceptable_def divergence_pct_zero)
    then show ?case using Cons x by (simp add: worst_step_def)
  qed simp
  from this [of "cmp_stats c"] c quiet show ?thesis
    by (auto simp: cmp_verdict_def cmp_total_samples_def Let_def)
qed

theorem equal_feeds_stable_witness:
  "\<exists>c. cmp_rounds [([], [[1, 2, 3]]), ([[]], [])] (cmp_new compare_config_default [] []) = Some c \<and>
     sv_exit_code (cmp_verdict c) \<noteq> 1"
proof -
  have short: "frame_bbo buf = None" if "length buf < 56" for buf
    using header_decode_short [of buf] that by (auto simp: frame_bbo_def nm_from_bytes_def HEADER_SIZE_56)
  have "list_all (\<lambda>fs. feed_bbos (fst fs) = feed_bbos (snd fs)) [([], [[1, 2, 3]]), ([[]], [])]"
    by (simp add: feed_bbos_def map_filter_simps short)
  moreover have "0 \<le> cc_tolerance_bps compare_config_default" "0 \<le> cc_max_divergence_pct compare_config_default"
    by (simp_all add: compare_config_default_def less_eq_i64_def eval_simps)
  ultimately obtain c where "cmp_rounds [([], [[1, 2, 3]]), ([[]], [])] (cmp_new compare_config_default [] []) = Some c"
    "cmp_verdict c = (if cmp_total_samples c < cc_min_samples compare_config_default
       then InsufficientData (cmp_total_samples c) (cc_min_samples compare_config_default) else Stable)"
    using equal_feeds_stable by blast
  then show ?thesis by (auto simp del: cmp_rounds.simps)
qed

end
