(* ===== verification/Connection.thy ===== *)
theory Connection
  imports Metrics Sbe_Normalizer Config
begin

text \<open>
  The WebSocket connection managers of both adapters (\<open>connection_manager.rs\<close>): one session with
  its keepalive, and the loop that reconnects. What the network, the timers and the shutdown
  signal do is an argument: for every turn of the \<open>select!\<close> loop which branches are ready, for
  every connection attempt how it went. The frame callback works on a state of its own.
\<close>

section \<open>One turn of a session\<close>

datatype disconnect_reason = DR_Shutdown | DR_ForcedRotation | DR_PeerClosed

datatype 'e adapter_error = WebSocketError 'e | ConnectTimeout

datatype ws_message =
    WsText string
  | WsBinary "u8 list"
  | WsPing "u8 list"
  | WsPong "u8 list"
  | WsClose
  | WsOther

datatype 'e ws_read = ReadEnd | ReadError 'e | ReadMessage ws_message

record 'e turn =
  tn_shutdown :: bool
  tn_rotation :: bool
  tn_ping_tick :: bool
  tn_read :: "'e ws_read option"
  tn_now :: i64

datatype 'e branch = BrShutdown | BrRotation | BrPingTick | BrRead "'e ws_read"

text \<open>\<open>biased\<close>: the first ready branch is taken.\<close>

definition select_branch :: "'e turn \<Rightarrow> 'e branch option" where
  "select_branch t =
     (if tn_shutdown t then Some BrShutdown
      else if tn_rotation t then Some BrRotation
      else if tn_ping_tick t then Some BrPingTick
      else map_option BrRead (tn_read t))"

record 's session =
  ws_waiting_for_pong :: bool
  ws_out :: "ws_message list"
  ws_metrics :: "connector_metrics option"
  ws_user :: 's

definition count_message_in :: "connector_metrics \<Rightarrow> connector_metrics" where
  "count_message_in m = m\<lparr>cm_messages_in := ct_increment (cm_messages_in m)\<rparr>"

definition count_reconnect :: "connector_metrics \<Rightarrow> connector_metrics" where
  "count_reconnect m = m\<lparr>cm_reconnects := ct_increment (cm_reconnects m)\<rparr>"

definition deliver_data :: "('f \<Rightarrow> 's \<Rightarrow> 's) \<Rightarrow> 'f \<Rightarrow> 's session \<Rightarrow> 's session" where
  "deliver_data on_frame frame s =
     s\<lparr>ws_metrics := map_option count_message_in (ws_metrics s), ws_user := on_frame frame (ws_user s)\<rparr>"

fun session_branch ::
  "(i64 \<Rightarrow> u8 list \<Rightarrow> bool \<Rightarrow> 'f) \<Rightarrow> ('f \<Rightarrow> 's \<Rightarrow> 's) \<Rightarrow> i64 \<Rightarrow> 'e branch \<Rightarrow> 's session \<Rightarrow>
   disconnect_reason option \<times> 's session" where
  "session_branch mk on_frame now BrShutdown s = (Some DR_Shutdown, s)"
| "session_branch mk on_frame now BrRotation s = (Some DR_ForcedRotation, s)"
| "session_branch mk on_frame now BrPingTick s =
     (if ws_waiting_for_pong s then (Some DR_PeerClosed, s)
      else (None, s\<lparr>ws_out := ws_out s @ [WsPing []], ws_waiting_for_pong := True\<rparr>))"
| "session_branch mk on_frame now (BrRead ReadEnd) s = (Some DR_PeerClosed, s)"
| "session_branch mk on_frame now (BrRead (ReadError _)) s = (Some DR_PeerClosed, s)"
| "session_branch mk on_frame now (BrRead (ReadMessage (WsText text))) s =
     (None, deliver_data on_frame (mk now (str_bytes text) False) s)"
| "session_branch mk on_frame now (BrRead (ReadMessage (WsBinary data))) s =
     (None, deliver_data on_frame (mk now data True) s)"
| "session_branch mk on_frame now (BrRead (ReadMessage (WsPing data))) s =
     (None, s\<lparr>ws_out := ws_out s @ [WsPong data]\<rparr>)"
| "session_branch mk on_frame now (BrRead (ReadMessage (WsPong _))) s =
     (None, s\<lparr>ws_waiting_for_pong := False\<rparr>)"
| "session_branch mk on_frame now (BrRead (ReadMessage WsClose)) s = (Some DR_PeerClosed, s)"
| "session_branch mk on_frame now (BrRead (ReadMessage WsOther)) s = (None, s)"

text \<open>The loop of a session; None while it still runs after the given turns.\<close>

fun drive_session ::
  "(i64 \<Rightarrow> u8 list \<Rightarrow> bool \<Rightarrow> 'f) \<Rightarrow> ('f \<Rightarrow> 's \<Rightarrow> 's) \<Rightarrow> 'e turn list \<Rightarrow> 's session \<Rightarrow>
   disconnect_reason option \<times> 's session" where
  "drive_session mk on_frame [] s = (None, s)"
| "drive_session mk on_frame (t # ts) s =
     (case select_branch t of
        None \<Rightarrow> drive_session mk on_frame ts s
      | Some br \<Rightarrow>
          (case session_branch mk on_frame (tn_now t) br s of
             (Some reason, s') \<Rightarrow> (Some reason, s')
           | (None, s') \<Rightarrow> drive_session mk on_frame ts s'))"

section \<open>Connecting\<close>

text \<open>
  How a connection attempt goes: the request cannot be built, the shutdown signal fires first,
  the handshake fails or takes more than ten seconds, or a session starts.
\<close>

datatype 'e connect_outcome =
    ConnBadRequest 'e
  | ConnShutdown
  | ConnFailed 'e
  | ConnTimedOut
  | ConnEstablished "'e turn list"

text \<open>The header of the Spot request; \<open>valid\<close> is \<open>HeaderValue::from_str\<close>.\<close>

definition api_key_header :: "(string \<Rightarrow> bool) \<Rightarrow> string option \<Rightarrow> (string \<times> string) list" where
  "api_key_header valid key =
     (case key of
        Some k \<Rightarrow> if valid k then [(''x-mbx-apikey'', k)] else []
      | None \<Rightarrow> [])"

definition connect_and_run ::
  "(i64 \<Rightarrow> u8 list \<Rightarrow> bool \<Rightarrow> 'f) \<Rightarrow> ('f \<Rightarrow> 's \<Rightarrow> 's) \<Rightarrow> 'e connect_outcome \<Rightarrow>
   connector_metrics option \<Rightarrow> 's \<Rightarrow> ('e adapter_error + disconnect_reason) option \<times> connector_metrics option \<times> 's" where
  "connect_and_run mk on_frame outcome metrics user =
     (case outcome of
        ConnBadRequest e \<Rightarrow> (Some (Inl (WebSocketError e)), metrics, user)
      | ConnShutdown \<Rightarrow> (Some (Inr DR_Shutdown), metrics, user)
      | ConnFailed e \<Rightarrow> (Some (Inl (WebSocketError e)), metrics, user)
      | ConnTimedOut \<Rightarrow> (Some (Inl ConnectTimeout), metrics, user)
      | ConnEstablished ts \<Rightarrow>
          let (reason, s) = drive_session mk on_frame ts
                \<lparr>ws_waiting_for_pong = False, ws_out = [], ws_metrics = metrics, ws_user = user\<rparr>
          in (map_option Inr reason, ws_metrics s, ws_user s))"

section \<open>The reconnect loop\<close>

definition u64_saturating_mul :: "u64 \<Rightarrow> u64 \<Rightarrow> u64" where
  "u64_saturating_mul a b = word_of_nat (min (2 ^ 64 - 1) (unat a * unat b))"

text \<open>The delay in milliseconds.\<close>

definition backoff_delay :: "u32 \<Rightarrow> u64 \<Rightarrow> u64" where
  "backoff_delay attempt base_ms =
     (let shift = min (unat attempt - 1) 6 in min (u64_saturating_mul base_ms (push_bit shift 1)) 30000)"

record 'e attempt =
  at_shutdown :: bool
  at_outcome :: "'e connect_outcome"
  at_shutdown_in_backoff :: bool

record 's manager_run =
  mr_stopped :: bool
  mr_reconnect_count :: u32
  mr_delays :: "u64 list"
  mr_metrics :: "connector_metrics option"
  mr_user :: 's

fun manager_loop ::
  "(i64 \<Rightarrow> u8 list \<Rightarrow> bool \<Rightarrow> 'f) \<Rightarrow> ('f \<Rightarrow> 's \<Rightarrow> 's) \<Rightarrow> u64 \<Rightarrow> 'e attempt list \<Rightarrow> 's manager_run \<Rightarrow>
   's manager_run" where
  "manager_loop mk on_frame base_ms [] r = r"
| "manager_loop mk on_frame base_ms (a # as) r =
     (if at_shutdown a then r\<lparr>mr_stopped := True\<rparr>
      else
        let (result, metrics, user) = connect_and_run mk on_frame (at_outcome a) (mr_metrics r) (mr_user r);
            r1 = r\<lparr>mr_metrics := metrics, mr_user := user\<rparr>;
            r2 = r1\<lparr>mr_reconnect_count := mr_reconnect_count r1 + 1,
                   mr_metrics := map_option count_reconnect (mr_metrics r1)\<rparr>
        in case result of
             None \<Rightarrow> r1
           | Some (Inr DR_Shutdown) \<Rightarrow> r1\<lparr>mr_stopped := True\<rparr>
           | Some (Inr DR_ForcedRotation) \<Rightarrow> manager_loop mk on_frame base_ms as r2
           | Some _ \<Rightarrow>
               let r3 = r2\<lparr>mr_delays := mr_delays r2 @ [backoff_delay (mr_reconnect_count r2) base_ms]\<rparr> in
               if at_shutdown_in_backoff a then r3\<lparr>mr_stopped := True\<rparr>
               else manager_loop mk on_frame base_ms as r3)"

definition manager_start :: "connector_metrics option \<Rightarrow> 's \<Rightarrow> 's manager_run" where
  "manager_start metrics user =
     \<lparr>mr_stopped = False, mr_reconnect_count = 0, mr_delays = [], mr_metrics = metrics, mr_user = user\<rparr>"

section \<open>Spot\<close>

definition spot_raw_frame :: "i64 \<Rightarrow> u8 list \<Rightarrow> bool \<Rightarrow> raw_frame" where
  "spot_raw_frame now payload binary = \<lparr>rf_payload = payload, rf_recv_ts = now, rf_is_binary = binary\<rparr>"

record connection_manager =
  cmg_config :: WebSocketConfig
  cmg_metrics :: "connector_metrics option"

definition cmg_new :: "WebSocketConfig \<Rightarrow> connection_manager" where
  "cmg_new config = \<lparr>cmg_config = config, cmg_metrics = None\<rparr>"

definition cmg_with_metrics :: "connector_metrics \<Rightarrow> connection_manager \<Rightarrow> connection_manager" where
  "cmg_with_metrics m c = c\<lparr>cmg_metrics := Some m\<rparr>"

definition cmg_run ::
  "connection_manager \<Rightarrow> (raw_frame \<Rightarrow> 's \<Rightarrow> 's) \<Rightarrow> 'e attempt list \<Rightarrow> 's \<Rightarrow> 's manager_run" where
  "cmg_run c on_frame attempts user =
     manager_loop spot_raw_frame on_frame (wsc_reconnect_delay_ms (cmg_config c)) attempts
       (manager_start (cmg_metrics c) user)"

section \<open>Futures\<close>

text \<open>
  The Futures manager is a copy whose frames do not say whether they were binary, and whose request
  carries no key.
\<close>

record futures_raw_frame =
  ff_recv_ts :: i64
  ff_payload :: "u8 list"

definition futures_frame :: "i64 \<Rightarrow> u8 list \<Rightarrow> bool \<Rightarrow> futures_raw_frame" where
  "futures_frame now payload binary = \<lparr>ff_recv_ts = now, ff_payload = payload\<rparr>"

datatype 'e futures_adapter_error =
  FA_WebSocket 'e | FA_Json string | FA_Normalize string | FA_ConnectTimeout

definition futures_backoff_delay :: "u32 \<Rightarrow> u64 \<Rightarrow> u64" where
  "futures_backoff_delay attempt base_ms =
     (let shift = min (unat attempt - 1) 6 in min (u64_saturating_mul base_ms (push_bit shift 1)) 30000)"

fun futures_session_branch ::
  "(futures_raw_frame \<Rightarrow> 's \<Rightarrow> 's) \<Rightarrow> i64 \<Rightarrow> 'e branch \<Rightarrow> 's session \<Rightarrow>
   disconnect_reason option \<times> 's session" where
  "futures_session_branch on_frame now BrShutdown s = (Some DR_Shutdown, s)"
| "futures_session_branch on_frame now BrRotation s = (Some DR_ForcedRotation, s)"
| "futures_session_branch on_frame now BrPingTick s =
     (if ws_waiting_for_pong s then (Some DR_PeerClosed, s)
      else (None, s\<lparr>ws_out := ws_out s @ [WsPing []], ws_waiting_for_pong := True\<rparr>))"
| "futures_session_branch on_frame now (BrRead ReadEnd) s = (Some DR_PeerClosed, s)"
| "futures_session_branch on_frame now (BrRead (ReadError _)) s = (Some DR_PeerClosed, s)"
| "futures_session_branch on_frame now (BrRead (ReadMessage (WsText text))) s =
     (None, deliver_data on_frame \<lparr>ff_recv_ts = now, ff_payload = str_bytes text\<rparr> s)"
| "futures_session_branch on_frame now (BrRead (ReadMessage (WsBinary data))) s =
     (None, deliver_data on_frame \<lparr>ff_recv_ts = now, ff_payload = data\<rparr> s)"
| "futures_session_branch on_frame now (BrRead (ReadMessage (WsPing data))) s =
     (None, s\<lparr>ws_out := ws_out s @ [WsPong data]\<rparr>)"
| "futures_session_branch on_frame now (BrRead (ReadMessage (WsPong _))) s =
     (None, s\<lparr>ws_waiting_for_pong := False\<rparr>)"
| "futures_session_branch on_frame now (BrRead (ReadMessage WsClose)) s = (Some DR_PeerClosed, s)"
| "futures_session_branch on_frame now (BrRead (ReadMessage WsOther)) s = (None, s)"

fun futures_drive_session ::
  "(futures_raw_frame \<Rightarrow> 's \<Rightarrow> 's) \<Rightarrow> 'e turn list \<Rightarrow> 's session \<Rightarrow> disconnect_reason option \<times> 's session" where
  "futures_drive_session on_frame [] s = (None, s)"
| "futures_drive_session on_frame (t # ts) s =
     (case select_branch t of
        None \<Rightarrow> futures_drive_session on_frame ts s
      | Some br \<Rightarrow>
          (case futures_session_branch on_frame (tn_now t) br s of
             (Some reason, s') \<Rightarrow> (Some reason, s')
           | (None, s') \<Rightarrow> futures_drive_session on_frame ts s'))"

text \<open>A URL that is no request makes \<open>connect_async\<close> itself fail here.\<close>

definition futures_connect_and_run ::
  "(futures_raw_frame \<Rightarrow> 's \<Rightarrow> 's) \<Rightarrow> 'e connect_outcome \<Rightarrow> connector_metrics option \<Rightarrow> 's \<Rightarrow>
   ('e futures_adapter_error + disconnect_reason) option \<times> connector_metrics option \<times> 's" where
  "futures_connect_and_run on_frame outcome metrics user =
     (case outcome of
        ConnBadRequest e \<Rightarrow> (Some (Inl (FA_WebSocket e)), metrics, user)
      | ConnShutdown \<Rightarrow> (Some (Inr DR_Shutdown), metrics, user)
      | ConnFailed e \<Rightarrow> (Some (Inl (FA_WebSocket e)), metrics, user)
      | ConnTimedOut \<Rightarrow> (Some (Inl FA_ConnectTimeout), metrics, user)
      | ConnEstablished ts \<Rightarrow>
          let (reason, s) = futures_drive_session on_frame ts
                \<lparr>ws_waiting_for_pong = False, ws_out = [], ws_metrics = metrics, ws_user = user\<rparr>
          in (map_option Inr reason, ws_metrics s, ws_user s))"

fun futures_manager_loop ::
  "(futures_raw_frame \<Rightarrow> 's \<Rightarrow> 's) \<Rightarrow> u64 \<Rightarrow> 'e attempt list \<Rightarrow> 's manager_run \<Rightarrow> 's manager_run" where
  "futures_manager_loop on_frame base_ms [] r = r"
| "futures_manager_loop on_frame base_ms (a # as) r =
     (if at_shutdown a then r\<lparr>mr_stopped := True\<rparr>
      else
        let (result, metrics, user) = futures_connect_and_run on_frame (at_outcome a) (mr_metrics r) (mr_user r);
            r1 = r\<lparr>mr_metrics := metrics, mr_user := user\<rparr>;
            r2 = r1\<lparr>mr_reconnect_count := mr_reconnect_count r1 + 1,
                   mr_metrics := map_option count_reconnect (mr_metrics r1)\<rparr>
        in case result of
             None \<Rightarrow> r1
           | Some (Inr DR_Shutdown) \<Rightarrow> r1\<lparr>mr_stopped := True\<rparr>
           | Some (Inr DR_ForcedRotation) \<Rightarrow> futures_manager_loop on_frame base_ms as r2
           | Some _ \<Rightarrow>
               let r3 = r2\<lparr>mr_delays := mr_delays r2 @ [futures_backoff_delay (mr_reconnect_count r2) base_ms]\<rparr> in
               if at_shutdown_in_backoff a then r3\<lparr>mr_stopped := True\<rparr>
               else futures_manager_loop on_frame base_ms as r3)"

record futures_connection_manager =
  fcm_config :: WebSocketConfig
  fcm_metrics :: "connector_metrics option"

definition fcm_new :: "WebSocketConfig \<Rightarrow> futures_connection_manager" where
  "fcm_new config = \<lparr>fcm_config = config, fcm_metrics = None\<rparr>"

definition fcm_with_metrics :: "connector_metrics \<Rightarrow> futures_connection_manager \<Rightarrow> futures_connection_manager" where
  "fcm_with_metrics m c = c\<lparr>fcm_metrics := Some m\<rparr>"

definition fcm_run ::
  "futures_connection_manager \<Rightarrow> (futures_raw_frame \<Rightarrow> 's \<Rightarrow> 's) \<Rightarrow> 'e attempt list \<Rightarrow> 's \<Rightarrow> 's manager_run" where
  "fcm_run c on_frame attempts user =
     futures_manager_loop on_frame (wsc_reconnect_delay_ms (fcm_config c)) attempts
       (manager_start (fcm_metrics c) user)"

end
