(* ===== verification/Connection_Properties.thy ===== *)
theory Connection_Properties
  imports Connection "HOL-Library.Sublist"
begin

text \<open>
  What the connection managers keep: the Futures copy is the same machine; a silent peer is
  noticed at the second ping tick; the metrics agree with what was delivered; and the backoff
  counts every reconnect since the start.
\<close>

section \<open>The Futures copy\<close>

lemma futures_branch_same:
  "futures_session_branch on_frame now br s = session_branch futures_frame on_frame now br s"
  by (cases "(on_frame, now, br, s)" rule: futures_session_branch.cases) (simp_all add: futures_frame_def)

lemma futures_drive_same: "futures_drive_session on_frame ts s = drive_session futures_frame on_frame ts s"
proof (induction ts arbitrary: s)
  case (Cons t ts)
  show ?case
    by (simp only: futures_drive_session.simps drive_session.simps futures_branch_same Cons.IH)
qed simp

fun futures_error :: "'e adapter_error \<Rightarrow> 'e futures_adapter_error" where
  "futures_error (WebSocketError e) = FA_WebSocket e"
| "futures_error ConnectTimeout = FA_ConnectTimeout"

lemma futures_connect_same:
  "futures_connect_and_run on_frame outcome m u =
     (let (r, m', u') = connect_and_run futures_frame on_frame outcome m u in
      (map_option (map_sum futures_error id) r, m', u'))"
  by (simp add: futures_connect_and_run_def connect_and_run_def futures_drive_same case_prod_beta Let_def
      option.map_comp comp_def split: connect_outcome.split)

lemma futures_backoff_same: "futures_backoff_delay = backoff_delay"
  by (rule ext)+ (simp add: futures_backoff_delay_def backoff_delay_def)

text \<open>The Futures connection manager behaves as the Spot one: for the same attempts it stops, waits
  and counts in the same way and calls back with the same frames, less their binary flag.\<close>

theorem futures_manager_same:
  "fcm_run c on_frame attempts user =
     manager_loop futures_frame on_frame (wsc_reconnect_delay_ms (fcm_config c)) attempts
       (manager_start (fcm_metrics c) user)"
proof -
  have "futures_manager_loop on_frame base as r = manager_loop futures_frame on_frame base as r" for base as r
  proof (induction as arbitrary: r)
    case (Cons a as)
    obtain res m u where c: "connect_and_run futures_frame on_frame (at_outcome a) (mr_metrics r) (mr_user r) = (res, m, u)"
      by (metis prod_cases3)
    show ?case
      by (cases res; cases "the res"; cases "projr (the res)")
        (simp_all add: futures_connect_same c futures_backoff_same Let_def Cons.IH)
  qed simp
  then show ?thesis by (simp add: fcm_run_def)
qed

section \<open>Keepalive\<close>

definition branches :: "'e turn list \<Rightarrow> 'e branch list" where
  "branches ts = List.map_filter select_branch ts"

definition is_pong :: "'e branch \<Rightarrow> bool" where
  "is_pong br \<longleftrightarrow> (\<exists>p. br = BrRead (ReadMessage (WsPong p)))"

text \<open>Branches after which the connection could go on.\<close>

fun carries_on :: "'e branch \<Rightarrow> bool" where
  "carries_on BrPingTick = True"
| "carries_on (BrRead (ReadMessage m)) = (m \<noteq> WsClose)"
| "carries_on _ = False"

fun silent :: "bool \<Rightarrow> 'e branch list \<Rightarrow> bool" where
  "silent waiting [] = False"
| "silent waiting (br # brs) =
     (if br = BrPingTick then waiting \<or> silent True brs
      else silent (waiting \<and> \<not> is_pong br) brs)"

lemma drive_silent:
  "list_all carries_on (branches ts) \<Longrightarrow>
   fst (drive_session mk on_frame ts s) =
     (if silent (ws_waiting_for_pong s) (branches ts) then Some DR_PeerClosed else None)"
proof (induction ts arbitrary: s)
  case (Cons t ts)
  show ?case
  proof (cases "select_branch t")
    case None
    then show ?thesis using Cons by (simp add: branches_def map_filter_simps)
  next
    case (Some br)
    then have brs: "branches (t # ts) = br # branches ts" by (simp add: branches_def map_filter_simps)
    then have on: "carries_on br" "list_all carries_on (branches ts)" using Cons.prems by simp_all
    show ?thesis
    proof (cases "br = BrPingTick")
      case True
      then show ?thesis using Some Cons.IH [OF on(2)] by (simp add: brs)
    next
      case False
      then obtain m where m: "br = BrRead (ReadMessage m)" "m \<noteq> WsClose"
        using on(1) by (cases br rule: carries_on.cases) auto
      then obtain s1 where "session_branch mk on_frame (tn_now t) br s = (None, s1)"
        "ws_waiting_for_pong s1 = (ws_waiting_for_pong s \<and> \<not> is_pong br)"
        by (cases m) (simp_all add: is_pong_def deliver_data_def)
      then show ?thesis using Some False Cons.IH [OF on(2)] by (simp add: brs)
    qed
  qed
qed (simp add: branches_def map_filter_simps)

lemma silent_iff:
  "silent w brs \<longleftrightarrow>
     (w \<and> (\<exists>ys zs. brs = ys @ BrPingTick # zs \<and> list_all (\<lambda>br. \<not> is_pong br) ys)) \<or>
     (\<exists>xs ys zs. brs = xs @ BrPingTick # ys @ BrPingTick # zs \<and> list_all (\<lambda>br. \<not> is_pong br) ys)"
    (is "_ \<longleftrightarrow> ?now w brs \<or> ?later brs")
proof (induction brs arbitrary: w)
  case (Cons br brs)
  have later: "?later (br # brs) \<longleftrightarrow> br = BrPingTick \<and> ?now True brs \<or> ?later brs"
    by (auto simp: Cons_eq_append_conv)
  have now: "?now w (br # brs) \<longleftrightarrow> w \<and> (br = BrPingTick \<or> \<not> is_pong br \<and> ?now True brs)"
  proof
    assume "w \<and> (br = BrPingTick \<or> \<not> is_pong br \<and> ?now True brs)"
    then consider w "br = BrPingTick"
      | (later) ys zs where w "\<not> is_pong br" "brs = ys @ BrPingTick # zs" "list_all (\<lambda>br. \<not> is_pong br) ys"
      by blast
    then show "?now w (br # brs)"
    proof cases
      case 1
      then show ?thesis by (intro conjI exI [of _ "[]"] exI [of _ brs]) simp_all
    next
      case later
      then show ?thesis by (intro conjI exI [of _ "br # ys"] exI [of _ zs]) simp_all
    qed
  qed (auto simp: Cons_eq_append_conv)
  show ?case
  proof (cases "br = BrPingTick")
    case True
    then show ?thesis using Cons.IH [of True] later now by auto
  next
    case False
    then show ?thesis using Cons.IH [of "w \<and> \<not> is_pong br"] later now by auto
  qed
qed simp

definition session_start :: "connector_metrics option \<Rightarrow> 's \<Rightarrow> 's session" where
  "session_start m u = \<lparr>ws_waiting_for_pong = False, ws_out = [], ws_metrics = m, ws_user = u\<rparr>"

text \<open>C22: A session whose peer neither closes nor fails ends exactly if some two ping ticks have no pong
  between them, and then as closed by the peer; otherwise it runs on, whatever data it carries.\<close>

theorem dead_peer_detected:
  assumes "list_all carries_on (branches ts)"
  shows "fst (drive_session mk on_frame ts (session_start m u)) =
    (if \<exists>xs ys zs. branches ts = xs @ BrPingTick # ys @ BrPingTick # zs \<and> list_all (\<lambda>br. \<not> is_pong br) ys
     then Some DR_PeerClosed else None)"
  using drive_silent [OF assms, of mk on_frame "session_start m u"] silent_iff [of False "branches ts"]
  by (simp add: session_start_def)

definition tick_turn :: "unit turn" where
  "tick_turn = \<lparr>tn_shutdown = False, tn_rotation = False, tn_ping_tick = True, tn_read = None, tn_now = 0\<rparr>"

definition text_turn :: "string \<Rightarrow> unit turn" where
  "text_turn s = \<lparr>tn_shutdown = False, tn_rotation = False, tn_ping_tick = False,
     tn_read = Some (ReadMessage (WsText s)), tn_now = 0\<rparr>"

theorem dead_peer_detected_witness:
  "fst (drive_session spot_raw_frame (\<lambda>_ n. n + 1) [tick_turn, text_turn ''x'', tick_turn]
     (session_start None (0 :: nat))) = Some DR_PeerClosed"
proof -
  have brs: "branches [tick_turn, text_turn ''x'', tick_turn] =
      [] @ BrPingTick # [BrRead (ReadMessage (WsText ''x''))] @ BrPingTick # []"
    by (simp add: branches_def map_filter_simps tick_turn_def text_turn_def select_branch_def)
  then have "list_all carries_on (branches [tick_turn, text_turn ''x'', tick_turn])" by simp
  moreover have "list_all (\<lambda>br :: unit branch. \<not> is_pong br) [BrRead (ReadMessage (WsText ''x''))]"
    by (simp add: is_pong_def)
  ultimately show ?thesis using dead_peer_detected brs by metis
qed

section \<open>Frames and metrics\<close>

definition read_frames :: "(i64 \<Rightarrow> u8 list \<Rightarrow> bool \<Rightarrow> 'f) \<Rightarrow> 'e turn \<Rightarrow> 'f list" where
  "read_frames mk t =
     (case tn_read t of
        Some (ReadMessage (WsText s)) \<Rightarrow> [mk (tn_now t) (str_bytes s) False]
      | Some (ReadMessage (WsBinary b)) \<Rightarrow> [mk (tn_now t) b True]
      | _ \<Rightarrow> [])"

definition attempt_frames :: "(i64 \<Rightarrow> u8 list \<Rightarrow> bool \<Rightarrow> 'f) \<Rightarrow> 'e attempt \<Rightarrow> 'f list" where
  "attempt_frames mk a =
     (case at_outcome a of ConnEstablished ts \<Rightarrow> concat (map (read_frames mk) ts) | _ \<Rightarrow> [])"

definition add_messages_in :: "nat \<Rightarrow> connector_metrics \<Rightarrow> connector_metrics" where
  "add_messages_in n m = m\<lparr>cm_messages_in := ct_add (word_of_nat n) (cm_messages_in m)\<rparr>"

definition add_reconnects :: "nat \<Rightarrow> connector_metrics \<Rightarrow> connector_metrics" where
  "add_reconnects n m = m\<lparr>cm_reconnects := ct_add (word_of_nat n) (cm_reconnects m)\<rparr>"

lemma metrics_sums [simp]:
  "add_messages_in 0 m = m" "add_reconnects 0 m = m"
  "add_messages_in n (count_message_in m) = add_messages_in (Suc n) m"
  "add_messages_in n (add_messages_in k m) = add_messages_in (k + n) m"
  "add_messages_in n (add_reconnects k m) = add_reconnects k (add_messages_in n m)"
  "count_reconnect (add_reconnects k m) = add_reconnects (Suc k) m"
  by (cases m; cases "cm_messages_in m"; cases "cm_reconnects m";
      simp add: add_messages_in_def add_reconnects_def count_message_in_def count_reconnect_def ct_add_def
        ct_increment_def algebra_simps)+

lemma one_message_in: "count_message_in = add_messages_in (Suc 0)"
  by (rule ext) (simp add: add_messages_in_def count_message_in_def ct_add_def ct_increment_def)

lemma add_no_messages [simp]: "map_option (add_messages_in 0) x = x"
  by (cases x) simp_all

lemma session_branch_frames:
  assumes "session_branch mk on_frame (tn_now t) br s = (e, s')" "select_branch t = Some br"
  shows "\<exists>fs. subseq fs (read_frames mk t) \<and> ws_user s' = fold on_frame fs (ws_user s) \<and>
    ws_metrics s' = map_option (add_messages_in (length fs)) (ws_metrics s)"
proof -
  have same: ?thesis if "ws_user s' = ws_user s" "ws_metrics s' = ws_metrics s"
    using that by (intro exI [of _ "[]"]) (simp add: option.map_id [unfolded id_def])
  show ?thesis
  proof (cases br)
    case (BrRead r)
    then have r: "tn_read t = Some r" using assms(2) by (auto simp: select_branch_def split: if_splits)
    show ?thesis
    proof (cases r)
      case (ReadMessage m)
      show ?thesis
      proof (cases m)
        case (WsText x)
        then show ?thesis using assms(1) BrRead ReadMessage r
          by (intro exI [of _ "read_frames mk t"]) (auto simp: deliver_data_def read_frames_def one_message_in)
      next
        case (WsBinary x)
        then show ?thesis using assms(1) BrRead ReadMessage r
          by (intro exI [of _ "read_frames mk t"]) (auto simp: deliver_data_def read_frames_def one_message_in)
      qed (use assms(1) BrRead ReadMessage same in auto)
    qed (use assms(1) BrRead same in auto)
  qed (use assms(1) same in \<open>auto split: if_splits\<close>)
qed

lemma drive_session_frames:
  "drive_session mk on_frame ts s = (e, s') \<Longrightarrow>
   \<exists>fs. subseq fs (concat (map (read_frames mk) ts)) \<and> ws_user s' = fold on_frame fs (ws_user s) \<and>
     ws_metrics s' = map_option (add_messages_in (length fs)) (ws_metrics s)"
proof (induction ts arbitrary: s)
  case Nil
  then show ?case by (auto simp: option.map_id [unfolded id_def])
next
  case (Cons t ts)
  show ?case
  proof (cases "select_branch t")
    case None
    then have "drive_session mk on_frame ts s = (e, s')" using Cons.prems by simp
    from Cons.IH [OF this] obtain fs where "subseq fs (concat (map (read_frames mk) ts))"
      "ws_user s' = fold on_frame fs (ws_user s)" "ws_metrics s' = map_option (add_messages_in (length fs)) (ws_metrics s)"
      by blast
    then show ?thesis by (intro exI [of _ fs]) (simp add: list_emb_append2)
  next
    case (Some br)
    obtain e1 s1 where s1: "session_branch mk on_frame (tn_now t) br s = (e1, s1)" by (rule prod.exhaust)
    from session_branch_frames [OF this Some] obtain fs where fs: "subseq fs (read_frames mk t)"
      "ws_user s1 = fold on_frame fs (ws_user s)" "ws_metrics s1 = map_option (add_messages_in (length fs)) (ws_metrics s)"
      by blast
    show ?thesis
    proof (cases e1)
      case None
      then have "drive_session mk on_frame ts s1 = (e, s')" using Cons.prems Some s1 by simp
      from Cons.IH [OF this] obtain gs where gs: "subseq gs (concat (map (read_frames mk) ts))"
        "ws_user s' = fold on_frame gs (ws_user s1)" "ws_metrics s' = map_option (add_messages_in (length gs)) (ws_metrics s1)"
        by blast
      show ?thesis
        by (intro exI [of _ "fs @ gs"])
          (use fs gs in \<open>simp add: list_emb_append_mono option.map_comp comp_def\<close>)
    next
      case (Some r)
      then have "s' = s1" using Cons.prems \<open>select_branch t = Some br\<close> s1 by simp
      moreover have "subseq fs (concat (map (read_frames mk) (t # ts)))"
        using list_emb_append_mono [OF fs(1), of "[]" "concat (map (read_frames mk) ts)"] by simp
      ultimately show ?thesis using fs by blast
    qed
  qed
qed

lemma connect_frames:
  assumes "connect_and_run mk on_frame (at_outcome a) m u = (res, m', u')"
  shows "\<exists>fs. subseq fs (attempt_frames mk a) \<and> u' = fold on_frame fs u \<and>
    m' = map_option (add_messages_in (length fs)) m"
proof (cases "at_outcome a")
  case (ConnEstablished ts)
  obtain e s where s: "drive_session mk on_frame ts \<lparr>ws_waiting_for_pong = False, ws_out = [],
      ws_metrics = m, ws_user = u\<rparr> = (e, s)" by (rule prod.exhaust)
  from drive_session_frames [OF s] assms s ConnEstablished show ?thesis
    by (auto simp: connect_and_run_def attempt_frames_def Let_def)
qed (use assms in \<open>auto simp: connect_and_run_def attempt_frames_def option.map_id [unfolded id_def]\<close>)

text \<open>What a run has done: \<open>n\<close> reconnects and the frames \<open>fs\<close>.\<close>

definition run_account ::
  "('f \<Rightarrow> 's \<Rightarrow> 's) \<Rightarrow> connector_metrics option \<Rightarrow> 's \<Rightarrow> 'f list \<Rightarrow> nat \<Rightarrow> 's manager_run \<Rightarrow> bool" where
  "run_account on_frame m u fs n r \<longleftrightarrow>
     mr_user r = fold on_frame fs u \<and> mr_reconnect_count r = word_of_nat n \<and> length (mr_delays r) \<le> n \<and>
     mr_metrics r = map_option (\<lambda>x. add_reconnects n (add_messages_in (length fs) x)) m"

lemma run_account_attempt:
  assumes "run_account on_frame m u fs n r"
    and "connect_and_run mk on_frame (at_outcome a) (mr_metrics r) (mr_user r) = (res, m', u')"
  shows "\<exists>gs. subseq gs (attempt_frames mk a) \<and>
    run_account on_frame m u (fs @ gs) n (r\<lparr>mr_metrics := m', mr_user := u'\<rparr>)"
  using connect_frames [OF assms(2)] assms(1)
  by (force simp: run_account_def option.map_comp comp_def)

lemma run_account_reconnect:
  "run_account on_frame m u fs n r \<Longrightarrow>
   run_account on_frame m u fs (Suc n) (r\<lparr>mr_reconnect_count := mr_reconnect_count r + 1,
     mr_metrics := map_option count_reconnect (mr_metrics r)\<rparr>)"
  by (simp add: run_account_def option.map_comp comp_def add.commute)

lemma run_account_delay:
  "run_account on_frame m u fs n r \<Longrightarrow> length (mr_delays r) < n \<Longrightarrow>
   run_account on_frame m u fs n (r\<lparr>mr_delays := mr_delays r @ [d]\<rparr>)"
  by (simp add: run_account_def)

lemma run_account_stopped [simp]: "run_account on_frame m u fs n (r\<lparr>mr_stopped := b\<rparr>) = run_account on_frame m u fs n r"
  by (simp add: run_account_def)

lemma result_cases:
  fixes res :: "('a + disconnect_reason) option"
  obtains "res = None" | "res = Some (Inr DR_Shutdown)" | "res = Some (Inr DR_ForcedRotation)"
    | (failed) "\<exists>e. res = Some (Inl e) \<or> res = Some (Inr DR_PeerClosed)"
proof (cases res)
  case (Some x)
  then show ?thesis using that by (cases x; cases "projr x") auto
qed (use that in auto)

lemma manager_loop_account:
  "run_account on_frame m u fs n r \<Longrightarrow>
   \<exists>gs k. subseq gs (concat (map (attempt_frames mk) as)) \<and> k \<le> length as \<and>
     run_account on_frame m u (fs @ gs) (n + k) (manager_loop mk on_frame base as r)"
proof (induction as arbitrary: fs n r)
  case Nil
  then show ?case by (intro exI [of _ "[]"] exI [of _ 0]) simp
next
  case (Cons a as)
  obtain res m' u' where c: "connect_and_run mk on_frame (at_outcome a) (mr_metrics r) (mr_user r) = (res, m', u')"
    by (metis prod_cases3)
  from run_account_attempt [OF Cons.prems c] obtain gs where gs: "subseq gs (attempt_frames mk a)"
    "run_account on_frame m u (fs @ gs) n (r\<lparr>mr_metrics := m', mr_user := u'\<rparr>)" by blast
  let ?r1 = "r\<lparr>mr_metrics := m', mr_user := u'\<rparr>"
  let ?r2 = "?r1\<lparr>mr_reconnect_count := mr_reconnect_count ?r1 + 1,
                   mr_metrics := map_option count_reconnect (mr_metrics ?r1)\<rparr>"
  let ?r3 = "?r2\<lparr>mr_delays := mr_delays ?r2 @ [backoff_delay (mr_reconnect_count ?r2) base]\<rparr>"
  let ?all = "concat (map (attempt_frames mk) (a # as))"
  have here: "subseq gs ?all"
    using list_emb_append_mono [OF gs(1), of "[]" "concat (map (attempt_frames mk) as)"] by simp
  have r2: "run_account on_frame m u (fs @ gs) (Suc n) ?r2" using run_account_reconnect [OF gs(2)] .
  have "length (mr_delays ?r2) < Suc n" using gs(2) by (simp add: run_account_def)
  from run_account_delay [OF r2 this] have r3: "run_account on_frame m u (fs @ gs) (Suc n) ?r3" .
  have more: ?case if next_run: "manager_loop mk on_frame base (a # as) r = manager_loop mk on_frame base as q"
    and next_account: "run_account on_frame m u (fs @ gs) (Suc n) q" for q
  proof -
    obtain hs k where hs: "subseq hs (concat (map (attempt_frames mk) as))" "k \<le> length as"
      "run_account on_frame m u ((fs @ gs) @ hs) (Suc n + k) (manager_loop mk on_frame base as q)"
      using Cons.IH [OF next_account] by blast
    have "subseq (gs @ hs) ?all" using list_emb_append_mono [OF gs(1) hs(1)] by simp
    then show ?thesis using hs(2,3) next_run by (intro exI [of _ "gs @ hs"] exI [of _ "Suc k"]) simp
  qed
  have done0: ?case if "manager_loop mk on_frame base (a # as) r = q" "run_account on_frame m u (fs @ gs) n q" for q
    using here that by (intro exI [of _ gs] exI [of _ 0]) simp
  have done1: ?case if "manager_loop mk on_frame base (a # as) r = q" "run_account on_frame m u (fs @ gs) (Suc n) q" for q
    using here that by (intro exI [of _ gs] exI [of _ 1]) simp
  show ?case
  proof (cases "at_shutdown a")
    case True
    then show ?thesis using Cons.prems by (intro exI [of _ "[]"] exI [of _ 0]) simp
  next
    case open1: False
    show ?thesis
    proof (cases res rule: result_cases)
      case 1
      then show ?thesis using done0 [of ?r1] gs(2) open1 c by (simp add: Let_def)
    next
      case 2
      then show ?thesis using done0 [of "?r1\<lparr>mr_stopped := True\<rparr>"] gs(2) open1 c
        by (simp add: Let_def del: option.map_sel)
    next
      case 3
      then show ?thesis using more [of ?r2] r2 open1 c by (simp add: Let_def)
    next
      case failed
      then have loop: "manager_loop mk on_frame base (a # as) r =
          (if at_shutdown_in_backoff a then ?r3\<lparr>mr_stopped := True\<rparr> else manager_loop mk on_frame base as ?r3)"
        using open1 c by (auto simp: Let_def)
      show ?thesis
        using more [of ?r3] done1 [of "?r3\<lparr>mr_stopped := True\<rparr>"] r3
        by (cases "at_shutdown_in_backoff a") (simp_all only: loop if_True if_False run_account_stopped)
    qed
  qed
qed


section \<open>Backoff\<close>

lemma backoff_delay_le: "backoff_delay attempt base \<le> 30000"
  by (simp add: backoff_delay_def Let_def)

text \<open>Sessions that live for their full day and end by the planned rotation.\<close>

definition rotates :: "(i64 \<Rightarrow> u8 list \<Rightarrow> bool \<Rightarrow> 'f) \<Rightarrow> ('f \<Rightarrow> 's \<Rightarrow> 's) \<Rightarrow> 'e attempt \<Rightarrow> bool" where
  "rotates mk on_frame a \<longleftrightarrow> \<not> at_shutdown a \<and>
     (\<exists>ts. at_outcome a = ConnEstablished ts \<and>
       (\<forall>m u. fst (drive_session mk on_frame ts (session_start m u)) = Some DR_ForcedRotation))"

lemma rotations_count:
  "list_all (rotates mk on_frame) as \<Longrightarrow>
   \<exists>r'. manager_loop mk on_frame base (as @ bs) r = manager_loop mk on_frame base bs r' \<and>
     mr_reconnect_count r' = mr_reconnect_count r + word_of_nat (length as) \<and> mr_delays r' = mr_delays r"
proof (induction as arbitrary: r)
  case (Cons a as)
  obtain ts where ts: "at_outcome a = ConnEstablished ts"
    "fst (drive_session mk on_frame ts (session_start (mr_metrics r) (mr_user r))) = Some DR_ForcedRotation"
    "\<not> at_shutdown a" using Cons.prems by (auto simp: rotates_def)
  have "fst (connect_and_run mk on_frame (at_outcome a) (mr_metrics r) (mr_user r)) = Some (Inr DR_ForcedRotation)"
    using ts by (simp add: connect_and_run_def session_start_def Let_def case_prod_beta)
  then obtain m u where c: "connect_and_run mk on_frame (at_outcome a) (mr_metrics r) (mr_user r) =
      (Some (Inr DR_ForcedRotation), m, u)" by (metis prod.collapse)
  let ?r = "r\<lparr>mr_user := u, mr_reconnect_count := mr_reconnect_count r + 1, mr_metrics := map_option count_reconnect m\<rparr>"
  have "manager_loop mk on_frame base ((a # as) @ bs) r = manager_loop mk on_frame base (as @ bs) ?r"
    using ts(3) c by (simp add: Let_def)
  with Cons.IH [of ?r] Cons.prems show ?case by (auto simp: algebra_simps)
qed (auto intro: exI)

text \<open>The backoff counts every reconnect since the start, planned rotations included, and a session
  that held for its full time resets nothing: after \<open>n\<close> sessions that ended by rotation the first
  failed attempt waits as long as attempt \<open>n + 1\<close> of a row of failures.\<close>

theorem rotations_raise_backoff:
  assumes "list_all (rotates mk on_frame) sessions" "\<not> at_shutdown a" "at_outcome a = ConnFailed e"
  shows "mr_delays (manager_loop mk on_frame base (sessions @ [a]) (manager_start m u)) =
    [backoff_delay (word_of_nat (Suc (length sessions))) base]"
proof -
  obtain r' where r': "manager_loop mk on_frame base (sessions @ [a]) (manager_start m u) =
      manager_loop mk on_frame base [a] r'"
    "mr_reconnect_count r' = word_of_nat (length sessions)" "mr_delays r' = []"
    using rotations_count [OF assms(1), of base "[a]" "manager_start m u"] by (auto simp: manager_start_def)
  then show ?thesis
    using assms(2,3) by (simp add: connect_and_run_def Let_def add.commute)
qed

definition rotation_turn :: "unit turn" where
  "rotation_turn = \<lparr>tn_shutdown = False, tn_rotation = True, tn_ping_tick = False, tn_read = None, tn_now = 0\<rparr>"

definition sample_day :: "unit attempt" where
  "sample_day = \<lparr>at_shutdown = False, at_outcome = ConnEstablished [tick_turn, rotation_turn],
     at_shutdown_in_backoff = False\<rparr>"

theorem rotations_raise_backoff_witness:
  "mr_delays (manager_loop spot_raw_frame (\<lambda>_ n. n + 1) 500
     (replicate 6 sample_day @ [\<lparr>at_shutdown = False, at_outcome = ConnFailed (), at_shutdown_in_backoff = False\<rparr>])
     (manager_start None (0 :: nat))) = [30000]"
proof -
  have "rotates spot_raw_frame (\<lambda>_ n :: nat. n + 1) sample_day"
    by (simp add: rotates_def sample_day_def tick_turn_def rotation_turn_def select_branch_def session_start_def)
  then have "list_all (rotates spot_raw_frame (\<lambda>_ n :: nat. n + 1)) (replicate 6 sample_day)"
    by (simp add: list_all_iff)
  from rotations_raise_backoff [OF this, of "\<lparr>at_shutdown = False, at_outcome = ConnFailed (),
      at_shutdown_in_backoff = False\<rparr>" "()" 500 None 0]
  show ?thesis by (simp add: backoff_delay_def u64_saturating_mul_def)
qed

end
