(* ===== verification/Aeron_Client.thy ===== *)
theory Aeron_Client
  imports Publication Config Decimal
begin

text \<open>
  The publications backed by Aeron: \<open>AeronClientPublication\<close> of \<open>publication.rs\<close> and the builders
  of \<open>publisher.rs\<close> in \<open>aeron-publisher/src\<close>, as the connector builds them (feature \<open>aeron\<close>).
  The client library is third-party: the answers of its calls in one attempt to connect are the
  fields of \<open>aeron_client\<close>, and \<open>offer_once\<close> is an argument. The loops that retry take the list
  of the attempts' answers; None means that they still retry when the list ends.
\<close>

section \<open>Offer codes\<close>

definition aeron_offer :: "(u8 list \<Rightarrow> 'a \<Rightarrow> i64 \<times> 'a) \<Rightarrow> 'a offer" where
  "aeron_offer offer_once bytes p =
     (let (pos, p') = offer_once bytes p in
      (if 0 \<le> pos then OfferOk pos
       else if pos = - 2 then BackPressured
       else if pos = - 3 then AdminAction
       else if pos = - 4 then OfferClosed
       else if pos = - 5 then MaxPositionExceeded
       else BackPressured, p'))"

text \<open>\<open>Box<dyn Publication>\<close>: one of the back ends behind the trait.\<close>

datatype 'a boxed = BoxNull null_publication | BoxAeron 'a

fun boxed_offer :: "'a offer \<Rightarrow> 'a boxed offer" where
  "boxed_offer offer bytes (BoxNull p) = map_prod id BoxNull (null_offer bytes p)"
| "boxed_offer offer bytes (BoxAeron p) = map_prod id BoxAeron (offer bytes p)"

type_synonym 'a dyn_publisher = "'a boxed sharded_publisher"

definition build_null_boxed :: "u32 list \<Rightarrow> 'a dyn_publisher" where
  "build_null_boxed shard_ids = sp_new (map (\<lambda>i. (i, BoxNull null_default)) shard_ids)"

section \<open>Connecting\<close>

record 'a aeron_client =
  acl_context :: "string + unit"
  acl_set_dir :: "string \<Rightarrow> string + unit"
  acl_new :: "string + unit"
  acl_start :: "string + unit"
  acl_add_publication :: "string \<Rightarrow> u32 \<Rightarrow> string + 'a"

text \<open>\<open>CString::new\<close> refuses a string with a NUL byte inside.\<close>

definition c_string :: "string \<Rightarrow> string + string" where
  "c_string s =
     (let k = length (takeWhile (\<lambda>c. c \<noteq> CHR 0x00) s) in
      if k < length s then
        Inl (''nul byte found in provided data at position: '' @ dec_str k)
      else Inr s)"

fun add_publications ::
  "'a aeron_client \<Rightarrow> string \<Rightarrow> u32 list \<Rightarrow> publisher_error + (u32 \<times> 'a boxed) list" where
  "add_publications client channel [] = Inr []"
| "add_publications client channel (shard_id # shard_ids) =
     and_then (map_err AeronConnect (acl_add_publication client channel (shard_stream_id shard_id))) (\<lambda>p.
     and_then (add_publications client channel shard_ids) (\<lambda>shards.
     Inr ((shard_id, BoxAeron p) # shards)))"

definition build_aeron ::
  "'a aeron_client \<Rightarrow> AeronConfig \<Rightarrow> u32 list \<Rightarrow> publisher_error + 'a dyn_publisher" where
  "build_aeron client cfg shard_ids =
     and_then (map_err AeronConnect (acl_context client)) (\<lambda>_.
     and_then (map_err AeronConnect (c_string (ac_media_driver_dir cfg))) (\<lambda>dir.
     and_then (map_err AeronConnect (acl_set_dir client dir)) (\<lambda>_.
     and_then (map_err AeronConnect (acl_new client)) (\<lambda>_.
     and_then (map_err AeronConnect (acl_start client)) (\<lambda>_.
     and_then (map_err AeronConnect
       (c_string (channel_from_config (ac_ipc_enabled cfg) (ac_udp_endpoint cfg)))) (\<lambda>channel.
     and_then (add_publications client channel shard_ids) (\<lambda>shards.
     Inr (sp_new shards))))))))"

text \<open>
  One turn of the loop of \<open>build_aeron_with_retry\<close>: what the shutdown flag shows at its top, how
  the race of the blocking call with the signal ends, and whether the signal cuts the sleep.
\<close>

datatype 'a connect_race = CR_Joined "'a aeron_client" | CR_JoinError string | CR_Shutdown

record 'a connect_turn =
  ctn_shutdown :: bool
  ctn_race :: "'a connect_race"
  ctn_sleep_cut :: bool

fun build_aeron_with_retry ::
  "AeronConfig \<Rightarrow> u32 list \<Rightarrow> 'a connect_turn list \<Rightarrow> 'a dyn_publisher option" where
  "build_aeron_with_retry cfg shards [] = None"
| "build_aeron_with_retry cfg shards (t # ts) =
     (if ctn_shutdown t then Some (build_null_boxed shards)
      else
        case ctn_race t of
          CR_Shutdown \<Rightarrow> Some (build_null_boxed shards)
        | r \<Rightarrow>
            (case (case r of CR_Joined client \<Rightarrow> build_aeron client cfg shards
                   | CR_JoinError e \<Rightarrow> Inl (AeronConnect e)
                   | CR_Shutdown \<Rightarrow> Inr (build_null_boxed shards)) of
               Inr p \<Rightarrow> Some p
             | Inl _ \<Rightarrow>
                 if ctn_sleep_cut t then Some (build_null_boxed shards)
                 else build_aeron_with_retry cfg shards ts))"

text \<open>\<open>reconnect_sync\<close> puts the new publisher in the place of the old one.\<close>

fun reconnect_sync :: "AeronConfig \<Rightarrow> u32 \<Rightarrow> 'a aeron_client list \<Rightarrow> 'a dyn_publisher option" where
  "reconnect_sync cfg shard_id [] = None"
| "reconnect_sync cfg shard_id (client # clients) =
     (case build_aeron client cfg [shard_id] of
        Inr p \<Rightarrow> Some p
      | Inl _ \<Rightarrow> reconnect_sync cfg shard_id clients)"

section \<open>What connecting gives\<close>

lemma add_publications_shards:
  "add_publications client channel shard_ids = Inr shards \<Longrightarrow> map fst shards = shard_ids"
  by (induction shard_ids arbitrary: shards) (auto simp: and_then_Inr_iff)

lemma sp_new_keys: "fst ` set (sp_shards (sp_new shards)) = fst ` set shards"
proof -
  have "dom (map_of (fold (\<lambda>(k, p) m. AList.update k p m) shards m)) = fst ` set shards \<union> dom (map_of m)"
    for m :: "(u32 \<times> 'p) list" and shards :: "(u32 \<times> 'p) list"
    by (induction shards arbitrary: m) (auto simp: update_conv')
  from this [of shards "[]"] show ?thesis by (simp add: sp_new_def dom_map_of_conv_image_fst)
qed

lemma build_aeron_shards:
  "build_aeron client cfg shards = Inr p \<Longrightarrow> fst ` set (sp_shards p) = set shards"
  unfolding build_aeron_def and_then_Inr_iff
  by (elim exE conjE) (metis Inr_inject add_publications_shards list.set_map sp_new_keys)

lemma build_null_boxed_shards: "fst ` set (sp_shards (build_null_boxed shards)) = set shards"
  by (simp add: build_null_boxed_def sp_new_keys image_image)

lemma build_aeron_with_retry_shards:
  "build_aeron_with_retry cfg shards turns = Some p \<Longrightarrow> fst ` set (sp_shards p) = set shards"
proof (induction turns)
  case (Cons t ts)
  then show ?case
    using build_null_boxed_shards [of shards, where 'a = 'a] build_aeron_shards [of _ cfg shards p]
    by (simp split: if_splits connect_race.splits sum.splits)
qed simp

lemma reconnect_sync_shards:
  "reconnect_sync cfg shard_id clients = Some p \<Longrightarrow> fst ` set (sp_shards p) = {shard_id}"
proof (induction clients)
  case (Cons client clients)
  then show ?case using build_aeron_shards [of client cfg "[shard_id]" p] by (simp split: sum.splits)
qed simp

lemma map_of_shard: "(\<exists>p. map_of (sp_shards sp) shard_id = Some p) \<longleftrightarrow> shard_id \<in> fst ` set (sp_shards sp)"
  by (metis map_of_eq_None_iff not_Some_eq)

end
