(* ===== verification/Connector.thy ===== *)
theory Connector
  imports Aeron_Client Refdata Metrics Sbe_Normalizer Futures_Normalizer
begin

text \<open>
  The connector process: \<open>bin/connector/src/main.rs\<close>. Start-up from the configuration to the
  subscriptions, the publish path and the frame handlers of both markets. The answers of the
  network, the clock and the media driver are arguments; a metrics registry is the view of one
  task. Command line, log lines and the HTTP server are not modelled.
\<close>

section \<open>Start-up\<close>

datatype 'h connector_error =
  CNE_UnknownVenue string | CNE_UnknownMarket string | CNE_Refdata "'h refdata_error" | CNE_Panic

definition parse_venue :: "string \<Rightarrow> string \<Rightarrow> 'h connector_error + venue_id \<times> market_type" where
  "parse_venue venue market =
     and_then (if venue = ''binance_spot'' then Inr BinanceSpot
               else if venue = ''binance_futures'' then Inr BinanceFutures
               else Inl (CNE_UnknownVenue venue)) (\<lambda>venue_id.
     and_then (if market = ''spot'' then Inr Spot
               else if market = ''usdm_futures'' then Inr UsdmFutures
               else Inl (CNE_UnknownMarket market)) (\<lambda>market_type.
     Inr (venue_id, market_type)))"

definition all_symbols :: "ConnectorConfig \<Rightarrow> refdata_event list \<Rightarrow> string list" where
  "all_symbols cfg events =
     (if syc_universe (cc_symbols cfg) = [] then
        map (\<lambda>e. id_symbol (re_definition e)) (filter (\<lambda>e. id_is_trading (re_definition e)) events)
      else syc_universe (cc_symbols cfg))"

type_synonym symbol_map = "(string, InstrumentDefinition) hash_map"

definition instrument_map :: "refdata_event list \<Rightarrow> symbol_map" where
  "instrument_map events =
     fold (\<lambda>e m. AList.update (id_symbol (re_definition e)) (re_definition e) m) events []"

definition connector_streams :: "venue_id \<Rightarrow> string list \<Rightarrow> string list" where
  "connector_streams venue_id universe =
     (case venue_id of
        BinanceSpot \<Rightarrow> concat (map (\<lambda>sym.
          [spot_stream_name SS_BookTicker sym, spot_stream_name (SS_Depth 100) sym,
           spot_stream_name SS_Trade sym]) universe)
      | BinanceFutures \<Rightarrow> concat (map (\<lambda>sym.
          [futures_stream_name FS_BookTicker sym, futures_stream_name (FS_Depth 100) sym,
           futures_stream_name FS_AggTrade sym, futures_stream_name (FS_MarkPrice 3) sym,
           futures_stream_name FS_ForceOrder sym]) universe))"

text \<open>\<open>chunks(n)\<close> panics for \<open>n = 0\<close>.\<close>

function list_chunks :: "nat \<Rightarrow> 'a list \<Rightarrow> 'a list list" where
  "list_chunks n xs = (if n = 0 \<or> xs = [] then [] else take n xs # list_chunks n (drop n xs))"
  by auto
termination by (relation "measure (\<lambda>(n, xs). length xs)") auto

declare list_chunks.simps [simp del]

record connection_plan =
  cnp_conn_id :: u32
  cnp_streams :: "string list"
  cnp_url :: string

definition connection_plans :: "ConnectorConfig \<Rightarrow> venue_id \<Rightarrow> string list \<Rightarrow> connection_plan list option" where
  "connection_plans cfg venue_id streams =
     (let max_streams = unat (wsc_max_streams_per_connection (cc_websocket cfg)) in
      if max_streams = 0 then None
      else Some (map (\<lambda>(i, chunk). \<lparr>cnp_conn_id = word_of_nat i, cnp_streams = chunk,
             cnp_url = (case venue_id of
                BinanceSpot \<Rightarrow> spot_build_url (wsc_url (cc_websocket cfg)) chunk
              | BinanceFutures \<Rightarrow> futures_build_url (wsc_futures_url (cc_websocket cfg)) chunk)\<rparr>)
             (enumerate 0 (list_chunks max_streams streams))))"

record connector_plan =
  cpl_venue_id :: venue_id
  cpl_market_type :: market_type
  cpl_rest_base_url :: string
  cpl_universe :: "string list"
  cpl_inst_map :: symbol_map
  cpl_connections :: "connection_plan list"
  cpl_open_interest :: "InstrumentDefinition list option"

definition rest_base_url :: "venue_id \<Rightarrow> RestConfig \<Rightarrow> string" where
  "rest_base_url venue_id rest =
     (case venue_id of BinanceSpot \<Rightarrow> rec_spot_base_url rest | BinanceFutures \<Rightarrow> rec_futures_base_url rest)"

definition owned_instruments :: "string list \<Rightarrow> symbol_map \<Rightarrow> InstrumentDefinition list" where
  "owned_instruments universe inst_map = List.map_filter (map_of inst_map) universe"

definition panics :: "'a option \<Rightarrow> 'h connector_error + 'a" where
  "panics x = (case x of None \<Rightarrow> Inl CNE_Panic | Some y \<Rightarrow> Inr y)"

definition connector_start ::
  "(u8 list \<Rightarrow> string + SymbolInfo list) \<Rightarrow> i64 list \<Rightarrow> 'h + u8 list \<Rightarrow> ConnectorConfig \<Rightarrow>
   'h connector_error + connector_plan" where
  "connector_start json clock fetch cfg =
     and_then (parse_venue (ic_venue (cc_instance cfg)) (ic_market (cc_instance cfg))) (\<lambda>(venue_id, market_type).
     and_then (map_err CNE_Refdata (fst (rds_refresh json clock fetch
       (rds_new venue_id market_type (ic_id (cc_instance cfg)))))) (\<lambda>events.
     and_then (panics (filter_owned_symbols cfg venue_id market_type (all_symbols cfg events))) (\<lambda>universe.
     and_then (panics (connection_plans cfg venue_id (connector_streams venue_id universe))) (\<lambda>connections.
     let inst_map = instrument_map events in
     Inr \<lparr>cpl_venue_id = venue_id, cpl_market_type = market_type,
          cpl_rest_base_url = rest_base_url venue_id (cc_rest cfg), cpl_universe = universe,
          cpl_inst_map = inst_map, cpl_connections = connections,
          cpl_open_interest =
            (if venue_id = BinanceFutures \<and> 0 < rec_open_interest_poll_secs (cc_rest cfg)
             then Some (owned_instruments universe inst_map) else None)\<rparr>))))"

section \<open>Publishing\<close>

record 'a publish_state =
  pst_publisher :: "'a dyn_publisher"
  pst_metrics :: connector_metrics
  pst_buf :: "u8 list"

text \<open>What the outside answers to one publication: the clock, and the attempts to reconnect.\<close>

record 'a publish_env =
  pe_now :: i64
  pe_clients :: "'a aeron_client list"

definition publish_one ::
  "'a offer \<Rightarrow> AeronConfig \<Rightarrow> u32 \<Rightarrow> 'a publish_env \<Rightarrow> normalized_message \<Rightarrow> 'a publish_state \<Rightarrow>
   'a publish_state option" where
  "publish_one offer aeron_cfg shard_id env msg s =
     (case nm_encode_into msg (pst_buf s) of
        (Inl e, buf) \<Rightarrow> Some (s\<lparr>pst_buf := buf\<rparr>)
      | (Inr len, buf) \<Rightarrow>
          let hdr = nm_header msg;
              (publish_ts, metrics) = record_publish (pe_now env) (mh_exchange_event_ts hdr)
                (mh_local_recv_ts hdr) (pst_metrics s);
              buf' = blit buf 48 (le_bytes 8 (i64_word publish_ts));
              (r, publisher) = sp_offer (boxed_offer offer) shard_id (take len buf') (pst_publisher s);
              answer = (case r of Inl _ \<Rightarrow> OfferClosed | Inr a \<Rightarrow> a) in
          if offer_is_ok answer then
            Some \<lparr>pst_publisher = publisher, pst_metrics = metrics, pst_buf = buf'\<rparr>
          else
            let metrics' = record_offer_failure metrics in
            if answer = OfferClosed then
              map_option (\<lambda>p. \<lparr>pst_publisher = p, pst_metrics = metrics', pst_buf = buf'\<rparr>)
                (reconnect_sync aeron_cfg shard_id (pe_clients env))
            else Some \<lparr>pst_publisher = publisher, pst_metrics = metrics', pst_buf = buf'\<rparr>)"

text \<open>Messages published one after the other; \<open>env k\<close> is the outside of the k-th.\<close>

fun publish_all ::
  "'a offer \<Rightarrow> AeronConfig \<Rightarrow> u32 \<Rightarrow> (nat \<Rightarrow> 'a publish_env) \<Rightarrow> normalized_message list \<Rightarrow>
   'a publish_state \<Rightarrow> 'a publish_state option" where
  "publish_all offer aeron_cfg shard_id env [] s = Some s"
| "publish_all offer aeron_cfg shard_id env (msg # msgs) s =
     Option.bind (publish_one offer aeron_cfg shard_id (env 0) msg s)
       (publish_all offer aeron_cfg shard_id (\<lambda>k. env (Suc k)) msgs)"

definition startup_messages :: "string list \<Rightarrow> symbol_map \<Rightarrow> i64 \<Rightarrow> normalized_message list" where
  "startup_messages universe inst_map recv_ts =
     map (\<lambda>inst. NM_InstrumentDefinition
            (inst\<lparr>id_header := (id_header inst)\<lparr>mh_local_recv_ts := recv_ts\<rparr>\<rparr>))
       (owned_instruments universe inst_map)"

definition publish_startup ::
  "'a offer \<Rightarrow> AeronConfig \<Rightarrow> u32 \<Rightarrow> (nat \<Rightarrow> 'a publish_env) \<Rightarrow> connector_plan \<Rightarrow> i64 \<Rightarrow>
   'a publish_state \<Rightarrow> 'a publish_state option" where
  "publish_startup offer aeron_cfg shard_id env plan recv_ts s =
     publish_all offer aeron_cfg shard_id env
       (startup_messages (cpl_universe plan) (cpl_inst_map plan) recv_ts) s"

definition publish_open_interest ::
  "'a offer \<Rightarrow> AeronConfig \<Rightarrow> u32 \<Rightarrow> (nat \<Rightarrow> 'a publish_env) \<Rightarrow> OpenInterest list \<Rightarrow>
   'a publish_state \<Rightarrow> 'a publish_state option" where
  "publish_open_interest offer aeron_cfg shard_id env msgs s =
     publish_all offer aeron_cfg shard_id env (map NM_OpenInterest msgs) s"

section \<open>Frame handlers\<close>

fun spot_symbol :: "spot_event \<Rightarrow> string option" where
  "spot_symbol (SE_BookTicker bt) = Some (sbt_symbol bt)"
| "spot_symbol (SE_DepthUpdate du) = Some (sdu_symbol du)"
| "spot_symbol (SE_Trade tr) = Some (stt_symbol tr)"
| "spot_symbol (SE_Unknown _) = None"

fun futures_symbol :: "futures_event \<Rightarrow> string option" where
  "futures_symbol (FE_BookTicker bt) = Some (fbt_symbol bt)"
| "futures_symbol (FE_DepthUpdate du) = Some (fdu_symbol du)"
| "futures_symbol (FE_AggTrade tr) = Some (fat_symbol tr)"
| "futures_symbol (FE_MarkPrice mp) = Some (fmp_symbol mp)"
| "futures_symbol (FE_ForceOrder fo) = Some (flo_symbol (ffo_order fo))"
| "futures_symbol (FE_Unknown _) = None"

record 'a connection_task =
  ctk_publish :: "'a publish_state"
  ctk_seq :: u64

text \<open>What a task is set up with.\<close>

record 'a task_setup =
  tks_offer :: "'a offer"
  tks_aeron_cfg :: AeronConfig
  tks_shard_id :: u32
  tks_inst_map :: symbol_map
  tks_ctx :: normalize_ctx

definition task_publish ::
  "'a task_setup \<Rightarrow> (nat \<Rightarrow> 'a publish_env) \<Rightarrow> normalized_message list \<Rightarrow> u64 \<Rightarrow> 'a connection_task \<Rightarrow>
   'a connection_task option" where
  "task_publish u env msgs seq t =
     map_option (\<lambda>s. \<lparr>ctk_publish = s, ctk_seq = seq\<rparr>)
       (publish_all (tks_offer u) (tks_aeron_cfg u) (tks_shard_id u) env msgs (ctk_publish t))"

definition spot_on_frame ::
  "'j spot_json \<Rightarrow> 'a task_setup \<Rightarrow> (nat \<Rightarrow> 'a publish_env) \<Rightarrow> raw_frame \<Rightarrow> 'a connection_task \<Rightarrow>
   'a connection_task option" where
  "spot_on_frame json u env frame t =
     (case parse_spot_message json (rf_payload frame) of
        Inl _ \<Rightarrow> Some t
      | Inr event \<Rightarrow>
          (case spot_symbol event of
             None \<Rightarrow> Some t
           | Some symbol \<Rightarrow>
               (case map_of (tks_inst_map u) symbol of
                  None \<Rightarrow> Some t
                | Some inst \<Rightarrow>
                    (case normalize_spot_event event inst (tks_ctx u) (rf_recv_ts frame) (ctk_seq t) of
                       (Inr (Some msg), seq) \<Rightarrow> task_publish u env [msg] seq t
                     | (_, seq) \<Rightarrow> Some (t\<lparr>ctk_seq := seq\<rparr>)))))"

record futures_counts =
  fc_frames :: u64
  fc_bbo :: u64
  fc_depth :: u64
  fc_trade :: u64
  fc_mark :: u64
  fc_liq :: u64
  fc_unknown :: u64
  fc_parse_err :: u64
  fc_no_inst :: u64

definition fc_zero :: futures_counts where
  "fc_zero = \<lparr>fc_frames = 0, fc_bbo = 0, fc_depth = 0, fc_trade = 0, fc_mark = 0, fc_liq = 0,
     fc_unknown = 0, fc_parse_err = 0, fc_no_inst = 0\<rparr>"

fun count_event :: "futures_event \<Rightarrow> futures_counts \<Rightarrow> futures_counts" where
  "count_event (FE_BookTicker _) c = c\<lparr>fc_bbo := fc_bbo c + 1\<rparr>"
| "count_event (FE_DepthUpdate _) c = c\<lparr>fc_depth := fc_depth c + 1\<rparr>"
| "count_event (FE_AggTrade _) c = c\<lparr>fc_trade := fc_trade c + 1\<rparr>"
| "count_event (FE_MarkPrice _) c = c\<lparr>fc_mark := fc_mark c + 1\<rparr>"
| "count_event (FE_ForceOrder _) c = c\<lparr>fc_liq := fc_liq c + 1\<rparr>"
| "count_event (FE_Unknown _) c = c\<lparr>fc_unknown := fc_unknown c + 1\<rparr>"

definition futures_on_frame ::
  "'j futures_json \<Rightarrow> 'a task_setup \<Rightarrow> (nat \<Rightarrow> 'a publish_env) \<Rightarrow> raw_frame \<Rightarrow>
   futures_counts \<times> 'a connection_task \<Rightarrow> (futures_counts \<times> 'a connection_task) option" where
  "futures_on_frame json u env frame ct =
     (let (c0, t) = ct; c1 = c0\<lparr>fc_frames := fc_frames c0 + 1\<rparr> in
      case parse_futures_message json (rf_payload frame) of
        Inl _ \<Rightarrow> Some (c1\<lparr>fc_parse_err := fc_parse_err c1 + 1\<rparr>, t)
      | Inr event \<Rightarrow>
          let c2 = count_event event c1 in
          (case futures_symbol event of
             None \<Rightarrow> Some (c2, t)
           | Some symbol \<Rightarrow>
               (case map_of (tks_inst_map u) symbol of
                  None \<Rightarrow> Some (c2\<lparr>fc_no_inst := fc_no_inst c2 + 1\<rparr>, t)
                | Some inst \<Rightarrow>
                    (case normalize_futures_event event inst (tks_ctx u) (rf_recv_ts frame) (ctk_seq t) of
                       (Inl _, seq) \<Rightarrow> Some (c2, t\<lparr>ctk_seq := seq\<rparr>)
                     | (Inr msgs, seq) \<Rightarrow> map_option (Pair c2) (task_publish u env msgs seq t)))))"

text \<open>The frames of a connection in order, each with its outside.\<close>

fun spot_frames ::
  "'j spot_json \<Rightarrow> 'a task_setup \<Rightarrow> ((nat \<Rightarrow> 'a publish_env) \<times> raw_frame) list \<Rightarrow> 'a connection_task \<Rightarrow>
   'a connection_task option" where
  "spot_frames json u [] t = Some t"
| "spot_frames json u ((env, frame) # frames) t =
     Option.bind (spot_on_frame json u env frame t) (spot_frames json u frames)"

fun futures_frames ::
  "'j futures_json \<Rightarrow> 'a task_setup \<Rightarrow> ((nat \<Rightarrow> 'a publish_env) \<times> raw_frame) list \<Rightarrow>
   futures_counts \<times> 'a connection_task \<Rightarrow> (futures_counts \<times> 'a connection_task) option" where
  "futures_frames json u [] t = Some t"
| "futures_frames json u ((env, frame) # frames) t =
     Option.bind (futures_on_frame json u env frame t) (futures_frames json u frames)"

text \<open>A task before its first frame, with the publisher it was built with and 64 KiB of buffer.\<close>

definition task_new :: "'a dyn_publisher \<Rightarrow> connector_metrics \<Rightarrow> 'a connection_task" where
  "task_new publisher metrics =
     \<lparr>ctk_publish = \<lparr>pst_publisher = publisher, pst_metrics = metrics, pst_buf = replicate 65536 0\<rparr>,
      ctk_seq = 0\<rparr>"

end
