(* ===== verification/Connector_Properties.thy ===== *)
theory Connector_Properties
  imports Connector Feed_Properties Operations_Properties "HOL-Library.Sublist"
begin

text \<open>
  The properties of the connector process: the frames of a connection reach the publication as
  the normalizer makes them, stamped in the bytes; the subscriptions of an instance are those of
  the symbols it owns, each on one connection; and an unvalidated configuration panics.
\<close>

section \<open>The time stamp in the bytes\<close>

definition header_stamp :: "i64 \<Rightarrow> message_header \<Rightarrow> message_header" where
  "header_stamp t h = h\<lparr>mh_local_publish_ts := t\<rparr>"

fun nm_stamp :: "i64 \<Rightarrow> normalized_message \<Rightarrow> normalized_message" where
  "nm_stamp t (NM_InstrumentDefinition m) = NM_InstrumentDefinition (m\<lparr>id_header := header_stamp t (id_header m)\<rparr>)"
| "nm_stamp t (NM_TradingStatus m) = NM_TradingStatus (m\<lparr>ts_header := header_stamp t (ts_header m)\<rparr>)"
| "nm_stamp t (NM_BookSnapshot m) = NM_BookSnapshot (m\<lparr>bs_header := header_stamp t (bs_header m)\<rparr>)"
| "nm_stamp t (NM_BookDelta m) = NM_BookDelta (m\<lparr>bd_header := header_stamp t (bd_header m)\<rparr>)"
| "nm_stamp t (NM_BestBidOffer m) = NM_BestBidOffer (m\<lparr>bbo_header := header_stamp t (bbo_header m)\<rparr>)"
| "nm_stamp t (NM_Trade m) = NM_Trade (m\<lparr>tr_header := header_stamp t (tr_header m)\<rparr>)"
| "nm_stamp t (NM_MarkPrice m) = NM_MarkPrice (m\<lparr>mp_header := header_stamp t (mp_header m)\<rparr>)"
| "nm_stamp t (NM_FundingRate m) = NM_FundingRate (m\<lparr>fr_header := header_stamp t (fr_header m)\<rparr>)"
| "nm_stamp t (NM_Liquidation m) = NM_Liquidation (m\<lparr>lq_header := header_stamp t (lq_header m)\<rparr>)"
| "nm_stamp t (NM_OpenInterest m) = NM_OpenInterest (m\<lparr>oi_header := header_stamp t (oi_header m)\<rparr>)"
| "nm_stamp t (NM_AccountUpdate m) = NM_AccountUpdate (m\<lparr>au_header := header_stamp t (au_header m)\<rparr>)"
| "nm_stamp t (NM_OrderUpdate m) = NM_OrderUpdate (m\<lparr>ou_header := header_stamp t (ou_header m)\<rparr>)"
| "nm_stamp t (NM_Heartbeat m) = NM_Heartbeat (m\<lparr>hb_header := header_stamp t (hb_header m)\<rparr>)"
| "nm_stamp t (NM_FeedStatus m) = NM_FeedStatus (m\<lparr>fs_header := header_stamp t (fs_header m)\<rparr>)"
| "nm_stamp t (NM_GapDetected m) = NM_GapDetected (m\<lparr>gd_header := header_stamp t (gd_header m)\<rparr>)"
| "nm_stamp t (NM_BookStale m) = NM_BookStale (m\<lparr>bst_header := header_stamp t (bst_header m)\<rparr>)"
| "nm_stamp t (NM_BookRecovered m) = NM_BookRecovered (m\<lparr>br_header := header_stamp t (br_header m)\<rparr>)"

lemma header_bytes_stamp:
  "blit (header_bytes h @ r) 48 (le_bytes 8 (i64_word t)) = header_bytes (header_stamp t h) @ r"
  by (simp add: blit_def header_bytes_def header_stamp_def)

lemma nm_wire_stamp:
  "\<exists>b. nm_wire m = header_bytes (nm_header m) @ b \<and>
     nm_wire (nm_stamp t m) = header_bytes (header_stamp t (nm_header m)) @ b"
  by (cases m) (simp_all add: InstrumentDefinition_wire_def TradingStatus_wire_def BookSnapshot_wire_def
    BookDelta_wire_def BestBidOffer_wire_def Trade_wire_def MarkPrice_wire_def
    FundingRate_wire_def Liquidation_wire_def OpenInterest_wire_def FeedStatus_wire_def
    GapDetected_wire_def BookStale_wire_def BookRecovered_wire_def)

lemma blit_stamp:
  "blit (nm_wire m @ r) 48 (le_bytes 8 (i64_word t)) = nm_wire (nm_stamp t m) @ r"
  using nm_wire_stamp [of m t] header_bytes_stamp [of "nm_header m" _ t] by auto

lemma length_wire_stamp [simp]: "length (nm_wire (nm_stamp t m)) = length (nm_wire m)"
  using nm_wire_stamp [of m t] by auto

lemma nm_ok_stamp [simp]: "nm_ok (nm_stamp t m) \<longleftrightarrow> nm_ok m"
  by (cases m) (simp_all add: header_stamp_def InstrumentDefinition_ok_def TradingStatus_ok_def BookSnapshot_ok_def BookDelta_ok_def
    BestBidOffer_ok_def Trade_ok_def MarkPrice_ok_def FundingRate_ok_def Liquidation_ok_def
    OpenInterest_ok_def FeedStatus_ok_def GapDetected_ok_def BookStale_ok_def
    BookRecovered_ok_def)

lemma nm_header_stamp [simp]: "nm_header (nm_stamp t m) = header_stamp t (nm_header m)"
  by (cases m) simp_all

section \<open>What is offered\<close>

text \<open>The bytes offered for messages published one after the other.\<close>

definition offered :: "nat \<Rightarrow> (i64 \<times> normalized_message) list \<Rightarrow> u8 list list" where
  "offered n = map (\<lambda>(t, m). nm_wire (nm_stamp t m)) \<circ> filter (\<lambda>(t, m). length (nm_wire m) \<le> n)"

lemma offered_simps [simp]:
  "offered n [] = []"
  "offered n ((t, m) # ms) =
     (if length (nm_wire m) \<le> n then nm_wire (nm_stamp t m) # offered n ms else offered n ms)"
  by (simp_all add: offered_def)

lemma offered_append [simp]: "offered n (ms @ ms') = offered n ms @ offered n ms'"
  by (simp add: offered_def)

definition stamped :: "(nat \<Rightarrow> 'a publish_env) \<Rightarrow> normalized_message list \<Rightarrow> (i64 \<times> normalized_message) list" where
  "stamped env msgs = map (\<lambda>(k, m). (pe_now (env k), m)) (enumerate 0 msgs)"

lemma stamped_simps [simp]:
  "stamped env [] = []"
  "stamped env (m # ms) = (pe_now (env 0), m) # stamped (\<lambda>k. env (Suc k)) ms"
  by (simp_all add: stamped_def enumerate_Suc_eq split_def comp_def)

section \<open>What the frames of a connection mean\<close>

text \<open>The messages of the frames with the time each is published at, and the counter behind them.\<close>

definition spot_recognised ::
  "'j spot_json \<Rightarrow> symbol_map \<Rightarrow> raw_frame \<Rightarrow> (spot_event \<times> InstrumentDefinition) option" where
  "spot_recognised json imap frame =
     (case parse_spot_message json (rf_payload frame) of
        Inl _ \<Rightarrow> None
      | Inr event \<Rightarrow> Option.bind (spot_symbol event) (\<lambda>symbol. map_option (Pair event) (map_of imap symbol)))"

fun spot_feed ::
  "'j spot_json \<Rightarrow> symbol_map \<Rightarrow> normalize_ctx \<Rightarrow> ((nat \<Rightarrow> 'a publish_env) \<times> raw_frame) list \<Rightarrow> u64 \<Rightarrow>
   (i64 \<times> normalized_message) list \<times> u64" where
  "spot_feed json imap ctx [] seq = ([], seq)"
| "spot_feed json imap ctx ((env, frame) # frames) seq =
     (case spot_recognised json imap frame of
        None \<Rightarrow> spot_feed json imap ctx frames seq
      | Some (event, inst) \<Rightarrow>
          let (r, seq1) = normalize_spot_event event inst ctx (rf_recv_ts frame) seq;
              (ms, seq2) = spot_feed json imap ctx frames seq1 in
          ((case r of Inr (Some m) \<Rightarrow> (pe_now (env 0), m) # ms | _ \<Rightarrow> ms), seq2))"

definition futures_recognised ::
  "'j futures_json \<Rightarrow> symbol_map \<Rightarrow> raw_frame \<Rightarrow> (futures_event \<times> InstrumentDefinition) option" where
  "futures_recognised json imap frame =
     (case parse_futures_message json (rf_payload frame) of
        Inl _ \<Rightarrow> None
      | Inr event \<Rightarrow> Option.bind (futures_symbol event) (\<lambda>symbol. map_option (Pair event) (map_of imap symbol)))"

fun futures_feed ::
  "'j futures_json \<Rightarrow> symbol_map \<Rightarrow> normalize_ctx \<Rightarrow> ((nat \<Rightarrow> 'a publish_env) \<times> raw_frame) list \<Rightarrow> u64 \<Rightarrow>
   (i64 \<times> normalized_message) list \<times> u64" where
  "futures_feed json imap ctx [] seq = ([], seq)"
| "futures_feed json imap ctx ((env, frame) # frames) seq =
     (case futures_recognised json imap frame of
        None \<Rightarrow> futures_feed json imap ctx frames seq
      | Some (event, inst) \<Rightarrow>
          let (r, seq1) = normalize_futures_event event inst ctx (rf_recv_ts frame) seq;
              (ms, seq2) = futures_feed json imap ctx frames seq1 in
          ((case r of Inr msgs \<Rightarrow> stamped env msgs @ ms | Inl _ \<Rightarrow> ms), seq2))"

text \<open>Instruments and events that fit the wire format.\<close>

definition instruments_fit :: "symbol_map \<Rightarrow> bool" where
  "instruments_fit imap \<longleftrightarrow> (\<forall>(symbol, inst) \<in> set imap. str_ok (id_symbol inst))"

definition spot_frames_fit :: "'j spot_json \<Rightarrow> raw_frame list \<Rightarrow> bool" where
  "spot_frames_fit json frames \<longleftrightarrow> (\<forall>frame \<in> set frames.
     case parse_spot_message json (rf_payload frame) of Inl _ \<Rightarrow> True | Inr event \<Rightarrow> spot_event_small event)"

definition futures_frames_fit :: "'j futures_json \<Rightarrow> raw_frame list \<Rightarrow> bool" where
  "futures_frames_fit json frames \<longleftrightarrow> (\<forall>frame \<in> set frames.
     case parse_futures_message json (rf_payload frame) of Inl _ \<Rightarrow> True | Inr event \<Rightarrow> futures_event_small event)"

lemma instruments_fit_lookup: "instruments_fit imap \<Longrightarrow> map_of imap symbol = Some inst \<Longrightarrow> str_ok (id_symbol inst)"
  by (auto simp: instruments_fit_def dest: map_of_SomeD)

lemma spot_recognised_fits:
  assumes "spot_recognised json imap frame = Some (event, inst)" "instruments_fit imap"
    "spot_frames_fit json (frame # frames)"
  shows "str_ok (id_symbol inst) \<and> spot_event_small event"
  using assms
  by (auto simp: spot_recognised_def spot_frames_fit_def bind_eq_Some_conv intro: instruments_fit_lookup split: sum.splits)

lemma futures_recognised_fits:
  assumes "futures_recognised json imap frame = Some (event, inst)" "instruments_fit imap"
    "futures_frames_fit json (frame # frames)"
  shows "str_ok (id_symbol inst) \<and> futures_event_small event"
  using assms
  by (auto simp: futures_recognised_def futures_frames_fit_def bind_eq_Some_conv intro: instruments_fit_lookup split: sum.splits)

lemma spot_on_frame_recognised:
  "spot_on_frame json u env frame t =
     (case spot_recognised json (tks_inst_map u) frame of
        None \<Rightarrow> Some t
      | Some (event, inst) \<Rightarrow>
          (case normalize_spot_event event inst (tks_ctx u) (rf_recv_ts frame) (ctk_seq t) of
             (r, seq) \<Rightarrow> task_publish u env (case r of Inr (Some m) \<Rightarrow> [m] | _ \<Rightarrow> []) seq t))"
  by (auto simp: spot_on_frame_def spot_recognised_def task_publish_def split: sum.splits option.splits prod.splits)

lemma futures_on_frame_recognised:
  "map_option snd (futures_on_frame json u env frame (c, t)) =
     (case futures_recognised json (tks_inst_map u) frame of
        None \<Rightarrow> Some t
      | Some (event, inst) \<Rightarrow>
          (case normalize_futures_event event inst (tks_ctx u) (rf_recv_ts frame) (ctk_seq t) of
             (r, seq) \<Rightarrow> task_publish u env (case r of Inr ms \<Rightarrow> ms | Inl _ \<Rightarrow> []) seq t))"
  by (auto simp: futures_on_frame_def futures_recognised_def task_publish_def Let_def option.map_comp comp_def
      split: sum.splits option.splits prod.splits)

section \<open>Publishing to an open publication\<close>

text \<open>A publication that is open stays open and does not answer \<open>Closed\<close>.\<close>

locale open_publication =
  fixes offer :: "'a offer" and is_open :: "'a \<Rightarrow> bool"
  assumes stays_open: "is_open p \<Longrightarrow> offer bytes p = (r, p') \<Longrightarrow> r \<noteq> OfferClosed \<and> is_open p'"
begin

text \<open>The publication that stands behind a shard, and the state around it.\<close>

definition publishing :: "u32 \<Rightarrow> nat \<Rightarrow> 'a \<Rightarrow> 'a publish_state \<Rightarrow> bool" where
  "publishing shard_id n p s \<longleftrightarrow>
     map_of (sp_shards (pst_publisher s)) shard_id = Some (BoxAeron p) \<and> is_open p \<and>
     length (pst_buf s) = n"

lemma publish_one_offers:
  assumes "publishing shard_id n p s" "nm_ok msg"
  shows "\<exists>s'. publish_one offer cfg shard_id env msg s = Some s' \<and>
    publishing shard_id n (if length (nm_wire msg) \<le> n
      then snd (offer (nm_wire (nm_stamp (pe_now env) msg)) p) else p) s'"
proof (cases "length (nm_wire msg) \<le> n")
  case True
  obtain r p' where o: "offer (nm_wire (nm_stamp (pe_now env) msg)) p = (r, p')" by fastforce
  obtain m1 where rec: "record_publish (pe_now env) (mh_exchange_event_ts (nm_header msg))
      (mh_local_recv_ts (nm_header msg)) (pst_metrics s) = (pe_now env, m1)"
    by (simp add: record_publish_def Let_def)
  show ?thesis
    using assms True o stays_open [OF _ o] nm_encode_wire [OF assms(2), of "pst_buf s"] rec
    by (auto simp: publish_one_def publishing_def Let_def blit_stamp sp_offer_def update_conv')
next
  case False
  then have "length (pst_buf s) < length (nm_wire msg)" using assms(1) by (simp add: publishing_def)
  from nm_no_room [OF assms(2) this] assms(1) False show ?thesis
    by (auto simp: publish_one_def publishing_def)
qed

lemma publish_all_offers:
  assumes "publishing shard_id n p s" "\<forall>m \<in> set msgs. nm_ok m"
  shows "\<exists>s'. publish_all offer cfg shard_id env msgs s = Some s' \<and>
    publishing shard_id n (fold (\<lambda>b p. snd (offer b p)) (offered n (stamped env msgs)) p) s'"
  using assms
proof (induction msgs arbitrary: env p s)
  case (Cons m ms)
  from publish_one_offers [OF Cons.prems(1), of m cfg "env 0"] Cons.prems(2)
  obtain s1 where "publish_one offer cfg shard_id (env 0) m s = Some s1"
    "publishing shard_id n (if length (nm_wire m) \<le> n
       then snd (offer (nm_wire (nm_stamp (pe_now (env 0)) m)) p) else p) s1" by auto
  with Cons.IH [of _ s1 "\<lambda>k. env (Suc k)"] Cons.prems(2) show ?case
    by (auto simp del: nm_wire.simps)
qed simp

lemma task_publish_offers:
  assumes "tks_offer u = offer" "publishing (tks_shard_id u) n p (ctk_publish t)" "\<forall>m \<in> set msgs. nm_ok m"
  shows "\<exists>t'. task_publish u env msgs seq t = Some t' \<and> ctk_seq t' = seq \<and>
    publishing (tks_shard_id u) n (fold (\<lambda>b p. snd (offer b p)) (offered n (stamped env msgs)) p) (ctk_publish t')"
  using publish_all_offers [OF assms(2,3), of "tks_aeron_cfg u" env] assms(1)
  by (auto simp: task_publish_def)

lemma spot_frames_offer:
  assumes "tks_offer u = offer" "instruments_fit (tks_inst_map u)"
  shows "publishing (tks_shard_id u) n p (ctk_publish t) \<Longrightarrow> spot_frames_fit json (map snd frames) \<Longrightarrow>
    spot_feed json (tks_inst_map u) (tks_ctx u) frames (ctk_seq t) = (feed, seq') \<Longrightarrow>
    \<exists>t'. spot_frames json u frames t = Some t' \<and> ctk_seq t' = seq' \<and>
      publishing (tks_shard_id u) n (fold (\<lambda>b p. snd (offer b p)) (offered n feed) p) (ctk_publish t')"
proof (induction frames arbitrary: p t feed)
  case (Cons ef frames)
  obtain env frame where ef: "ef = (env, frame)" by fastforce
  have fit: "spot_frames_fit json (map snd frames)" "spot_frames_fit json (frame # map snd frames)"
    using Cons.prems(2) by (auto simp: spot_frames_fit_def ef)
  show ?case
  proof (cases "spot_recognised json (tks_inst_map u) frame")
    case None
    with Cons fit show ?thesis by (simp add: ef spot_on_frame_recognised)
  next
    case (Some x)
    obtain event inst where x: "x = (event, inst)" by fastforce
    obtain r seq1 where n: "normalize_spot_event event inst (tks_ctx u) (rf_recv_ts frame) (ctk_seq t) = (r, seq1)"
      by fastforce
    obtain ms where f: "spot_feed json (tks_inst_map u) (tks_ctx u) frames seq1 = (ms, seq')"
      and feed: "feed = (case r of Inr (Some m) \<Rightarrow> (pe_now (env 0), m) # ms | _ \<Rightarrow> ms)"
      using Cons.prems(3) by (auto simp: ef Some x n split: prod.splits)
    let ?msgs = "case r of Inr (Some m) \<Rightarrow> [m] | _ \<Rightarrow> []"
    have "\<forall>m \<in> set ?msgs. nm_ok m"
      using spot_recognised_fits [OF Some [unfolded x] assms(2) fit(2)] normalize_spot_ok n
      by (auto split: sum.splits option.splits)
    from task_publish_offers [OF assms(1) Cons.prems(1) this, of env seq1]
    obtain t1 where t1: "task_publish u env ?msgs seq1 t = Some t1" "ctk_seq t1 = seq1"
      "publishing (tks_shard_id u) n (fold (\<lambda>b p. snd (offer b p)) (offered n (stamped env ?msgs)) p) (ctk_publish t1)"
      by blast
    have "offered n feed = offered n (stamped env ?msgs) @ offered n ms"
      by (simp add: feed split: sum.splits option.splits)
    with Cons.IH [OF t1(3) fit(1)] f t1 Some x n show ?thesis
      by (simp add: ef spot_on_frame_recognised)
  qed
qed simp

lemma futures_frames_offer:
  assumes "tks_offer u = offer" "instruments_fit (tks_inst_map u)"
  shows "publishing (tks_shard_id u) n p (ctk_publish t) \<Longrightarrow> futures_frames_fit json (map snd frames) \<Longrightarrow>
    futures_feed json (tks_inst_map u) (tks_ctx u) frames (ctk_seq t) = (feed, seq') \<Longrightarrow>
    \<exists>c' t'. futures_frames json u frames (c, t) = Some (c', t') \<and> ctk_seq t' = seq' \<and>
      publishing (tks_shard_id u) n (fold (\<lambda>b p. snd (offer b p)) (offered n feed) p) (ctk_publish t')"
proof (induction frames arbitrary: p c t feed)
  case (Cons ef frames)
  obtain env frame where ef: "ef = (env, frame)" by fastforce
  have fit: "futures_frames_fit json (map snd frames)" "futures_frames_fit json (frame # map snd frames)"
    using Cons.prems(2) by (auto simp: futures_frames_fit_def ef)
  show ?case
  proof (cases "futures_recognised json (tks_inst_map u) frame")
    case None
    then have "\<exists>c1. futures_on_frame json u env frame (c, t) = Some (c1, t)"
      using futures_on_frame_recognised [of json u env frame c t] by auto
    with Cons fit None show ?thesis by (auto simp: ef)
  next
    case (Some x)
    obtain event inst where x: "x = (event, inst)" by fastforce
    obtain r seq1 where n: "normalize_futures_event event inst (tks_ctx u) (rf_recv_ts frame) (ctk_seq t) = (r, seq1)"
      by fastforce
    obtain ms where f: "futures_feed json (tks_inst_map u) (tks_ctx u) frames seq1 = (ms, seq')"
      and feed: "feed = (case r of Inr msgs \<Rightarrow> stamped env msgs @ ms | Inl _ \<Rightarrow> ms)"
      using Cons.prems(3) by (auto simp: ef Some x n split: prod.splits)
    let ?msgs = "case r of Inr ms \<Rightarrow> ms | Inl _ \<Rightarrow> []"
    have "\<forall>m \<in> set ?msgs. nm_ok m"
      using futures_recognised_fits [OF Some [unfolded x] assms(2) fit(2)] normalize_futures_ok n
      by (auto split: sum.splits)
    from task_publish_offers [OF assms(1) Cons.prems(1) this, of env seq1]
    obtain t1 where t1: "task_publish u env ?msgs seq1 t = Some t1" "ctk_seq t1 = seq1"
      "publishing (tks_shard_id u) n (fold (\<lambda>b p. snd (offer b p)) (offered n (stamped env ?msgs)) p) (ctk_publish t1)"
      by blast
    have "offered n feed = offered n (stamped env ?msgs) @ offered n ms"
      by (simp add: feed split: sum.splits)
    moreover have "\<exists>c1. futures_on_frame json u env frame (c, t) = Some (c1, t1)"
      using futures_on_frame_recognised [of json u env frame c t] Some x n t1(1) by auto
    ultimately show ?thesis
      using Cons.IH [OF t1(3) fit(1)] f t1(2) by (auto simp: ef)
  qed
qed simp

end

interpretation chan: open_publication channel_offer cp_receiver_alive
  by unfold_locales (auto simp: channel_offer_def Let_def split: if_splits)

interpretation discard: open_publication null_offer "\<lambda>_. True"
  by unfold_locales (auto simp: null_offer_def Let_def)

text \<open>What a channel that nobody empties holds in the end.\<close>

lemma channel_offers:
  assumes "cp_receiver_alive p"
  shows "cp_queue (fold (\<lambda>b p. snd (channel_offer b p)) bs p) =
      cp_queue p @ take (cp_capacity p - length (cp_queue p)) bs"
  using assms
proof (induction bs arbitrary: p)
  case (Cons b bs)
  show ?case
  proof (cases "cp_capacity p \<le> length (cp_queue p)")
    case True
    with Cons show ?thesis by (simp add: channel_offer_def)
  next
    case False
    then have "cp_capacity p - length (cp_queue p) = Suc (cp_capacity p - Suc (length (cp_queue p)))" by simp
    with Cons False show ?thesis by (simp add: channel_offer_def Let_def)
  qed
qed simp

section \<open>The sequence numbers of a feed\<close>

definition feed_seqs :: "(i64 \<times> normalized_message) list \<Rightarrow> u64 list" where
  "feed_seqs feed = map (\<lambda>(t, m). mh_sequence_number (nm_header m)) feed"

definition numbers :: "u64 \<Rightarrow> nat \<Rightarrow> u64 list" where
  "numbers seq n = map (\<lambda>k. seq + word_of_nat k) [0..<n]"

lemma numbers_append: "numbers seq (n + k) = numbers seq n @ numbers (seq + word_of_nat n) k"
  by (induction k) (simp_all add: numbers_def add.assoc)

text \<open>A part of a feed whose numbers come, in order, from the next \<open>n\<close> of the counter.\<close>

definition numbered :: "u64 \<Rightarrow> u64 list \<Rightarrow> u64 \<Rightarrow> bool" where
  "numbered seq ss seq' \<longleftrightarrow> (\<exists>n. seq' = seq + word_of_nat n \<and> subseq ss (numbers seq n))"

lemma numbered_none: "numbered seq [] (seq + word_of_nat n)"
  unfolding numbered_def by (intro exI [of _ n]) simp

lemmas numbered_Nil = numbered_none [of _ 0, simplified]

lemma numbered_append: "numbered seq ss seq1 \<Longrightarrow> numbered seq1 ss' seq2 \<Longrightarrow> numbered seq (ss @ ss') seq2"
  unfolding numbered_def
  by (elim exE conjE, rule_tac x = "n + na" in exI) (simp add: numbers_append list_emb_append_mono add.assoc)

lemma feed_seqs_append [simp]: "feed_seqs (f @ g) = feed_seqs f @ feed_seqs g"
  by (simp add: feed_seqs_def)

lemma feed_seqs_stamped [simp]: "feed_seqs (stamped env ms) = map (\<lambda>m. mh_sequence_number (nm_header m)) ms"
  by (induction ms arbitrary: env) (simp_all add: feed_seqs_def)

lemma spot_event_numbered:
  assumes "normalize_spot_event event inst ctx recv_ts seq = (r, seq')"
  shows "numbered seq (case r of Inr (Some m) \<Rightarrow> [mh_sequence_number (nm_header m)] | _ \<Rightarrow> []) seq'"
proof (cases "\<exists>m. r = Inr (Some m)")
  case True
  then show ?thesis
    using normalize_spot_header [of event inst ctx recv_ts seq _ seq'] assms
    by (auto simp: numbered_def numbers_def intro!: exI [of _ 1])
next
  case False
  moreover have "seq' = seq + word_of_nat 0 \<or> seq' = seq + word_of_nat 1"
    using assms by (auto simp: normalize_spot_event_def take_seq_def Let_def split: spot_event.splits)
  ultimately show ?thesis
    using numbered_none [of seq 0] numbered_none [of seq 1] by (auto split: sum.splits option.splits)
qed

lemma futures_event_numbered:
  assumes "normalize_futures_event event inst ctx recv_ts seq = (r, seq')"
  shows "numbered seq (case r of Inr ms \<Rightarrow> map (\<lambda>m. mh_sequence_number (nm_header m)) ms | _ \<Rightarrow> []) seq'"
proof (cases r)
  case (Inr ms)
  then show ?thesis
    using normalize_futures_seqs [of event inst ctx recv_ts seq ms seq'] assms
    by (auto simp: numbered_def numbers_def intro!: exI [of _ "length ms"])
next
  case (Inl e)
  have "seq' = seq + word_of_nat 0 \<or> seq' = seq + word_of_nat 1 \<or> seq' = seq + word_of_nat 2"
    using assms
    by (auto simp: normalize_futures_defs split: futures_event.splits sum.splits if_splits)
  then show ?thesis
    using numbered_none [of seq 0] numbered_none [of seq 1] numbered_none [of seq 2] by (auto simp: Inl)
qed

lemma spot_feed_numbered: "spot_feed json imap ctx frames seq = (feed, seq') \<Longrightarrow> numbered seq (feed_seqs feed) seq'"
proof (induction frames arbitrary: seq feed)
  case Nil
  then show ?case by (simp add: numbered_Nil feed_seqs_def)
next
  case (Cons ef frames)
  then show ?case
    by (cases ef)
      (fastforce simp: feed_seqs_def split: option.splits prod.splits sum.splits
        dest: numbered_append [OF spot_event_numbered])
qed

lemma futures_feed_numbered: "futures_feed json imap ctx frames seq = (feed, seq') \<Longrightarrow> numbered seq (feed_seqs feed) seq'"
proof (induction frames arbitrary: seq feed)
  case Nil
  then show ?case by (simp add: numbered_Nil feed_seqs_def)
next
  case (Cons ef frames)
  then show ?case
    by (cases ef)
      (fastforce split: option.splits prod.splits sum.splits
        dest: numbered_append [OF futures_event_numbered])
qed

section \<open>Frames to the publication\<close>

lemma spot_feed_ok:
  assumes "instruments_fit imap" "spot_frames_fit json (map snd frames)"
    "spot_feed json imap ctx frames seq = (feed, seq')"
  shows "\<forall>(t, m) \<in> set feed. nm_ok m"
  using assms(2,3)
proof (induction frames arbitrary: seq feed)
  case (Cons ef frames)
  obtain env frame where ef: "ef = (env, frame)" by fastforce
  have fit: "spot_frames_fit json (map snd frames)" "spot_frames_fit json (frame # map snd frames)"
    using Cons.prems(1) by (auto simp: spot_frames_fit_def ef)
  from Cons.prems(2) Cons.IH [OF fit(1)] spot_recognised_fits [OF _ assms(1) fit(2)] show ?case
    by (fastforce simp: ef split: option.splits prod.splits sum.splits dest: normalize_spot_ok)
qed simp

lemma stamped_ok: "\<forall>m \<in> set ms. nm_ok m \<Longrightarrow> \<forall>(t, m) \<in> set (stamped env ms). nm_ok m"
  by (induction ms arbitrary: env) simp_all

lemma futures_feed_ok:
  assumes "instruments_fit imap" "futures_frames_fit json (map snd frames)"
    "futures_feed json imap ctx frames seq = (feed, seq')"
  shows "\<forall>(t, m) \<in> set feed. nm_ok m"
  using assms(2,3)
proof (induction frames arbitrary: seq feed)
  case (Cons ef frames)
  obtain env frame where ef: "ef = (env, frame)" by fastforce
  have fit: "futures_frames_fit json (map snd frames)" "futures_frames_fit json (frame # map snd frames)"
    using Cons.prems(1) by (auto simp: futures_frames_fit_def ef)
  have ev: "\<forall>(t, m) \<in> set (stamped env ms). nm_ok m"
    if "futures_recognised json imap frame = Some (event, inst)"
      "normalize_futures_event event inst ctx (rf_recv_ts frame) seq = (Inr ms, seq1)" for event inst ms seq1
    using futures_recognised_fits [OF that(1) assms(1) fit(2)] normalize_futures_ok [OF that(2)]
    by (intro stamped_ok) blast
  from Cons.prems(2) Cons.IH [OF fit(1)] ev show ?case
    by (fastforce simp: ef split: option.splits prod.splits sum.splits)
qed simp

text \<open>What a reader makes of the frames a channel took, when \<open>room\<close> more fit into it.\<close>

definition read_back :: "nat \<Rightarrow> nat \<Rightarrow> (i64 \<times> normalized_message) list \<Rightarrow> (core_error + normalized_message) list" where
  "read_back n room feed =
     map (\<lambda>(t, m). Inr (nm_stamp t m)) (take room (filter (\<lambda>(t, m). length (nm_wire m) \<le> n) feed))"

lemma offered_read_back:
  assumes "\<forall>(t, m) \<in> set feed. nm_ok m"
  shows "map nm_from_bytes (take room (offered n feed)) = read_back n room feed"
proof -
  have "nm_from_bytes (nm_wire (nm_stamp t m)) = Inr (nm_stamp t m)" if "(t, m) \<in> set feed" for t m
    using nm_from_bytes_wire [of "nm_stamp t m" "[]"] assms that by auto
  then show ?thesis
    by (auto simp: offered_def read_back_def take_map dest!: in_set_takeD)
qed

text \<open>C24: The frames of a Spot connection, published to a channel, are read back there as the
  messages the normalizer makes of them, in order, each with its publish time patched into the
  bytes; a message is missing only for want of room in the channel or in the 64 KiB buffer, and
  the sequence numbers are taken from the counter in order. The task never blocks.\<close>

theorem spot_frames_published:
  assumes "tks_offer u = channel_offer" "instruments_fit (tks_inst_map u)"
    "spot_frames_fit json (map snd frames)"
    "map_of (sp_shards (pst_publisher (ctk_publish t))) (tks_shard_id u) = Some (BoxAeron p)"
    "cp_receiver_alive p"
    "spot_feed json (tks_inst_map u) (tks_ctx u) frames (ctk_seq t) = (feed, seq')"
  shows "\<exists>t' p' new. spot_frames json u frames t = Some t' \<and> ctk_seq t' = seq' \<and>
    map_of (sp_shards (pst_publisher (ctk_publish t'))) (tks_shard_id u) = Some (BoxAeron p') \<and>
    cp_queue p' = cp_queue p @ new \<and>
    map nm_from_bytes new = read_back (length (pst_buf (ctk_publish t))) (cp_capacity p - length (cp_queue p)) feed \<and>
    numbered (ctk_seq t) (feed_seqs feed) seq'"
proof -
  have "chan.publishing (tks_shard_id u) (length (pst_buf (ctk_publish t))) p (ctk_publish t)"
    using assms(4,5) by (simp add: chan.publishing_def)
  from chan.spot_frames_offer [OF assms(1,2) this assms(3,6)] channel_offers [OF assms(5)]
    offered_read_back [OF spot_feed_ok [OF assms(2,3,6)]] spot_feed_numbered [OF assms(6)]
  show ?thesis by (auto simp: chan.publishing_def)
qed

definition sample_setup :: "channel_publication task_setup" where
  "sample_setup =
     \<lparr>tks_offer = channel_offer,
      tks_aeron_cfg = AeronConfig_read None None None None None None None, tks_shard_id = 1,
      tks_inst_map = [(''BTCUSDT'', sample_inst)], tks_ctx = sample_ctx\<rparr>"

definition sample_task :: "channel_publication connection_task" where
  "sample_task = (task_new (sp_new [(1, BoxAeron (channel_new 4))]) cm_new)\<lparr>ctk_seq := 30\<rparr>"

definition sample_conn_frames :: "((nat \<Rightarrow> channel_publication publish_env) \<times> raw_frame) list" where
  "sample_conn_frames = [(\<lambda>k. \<lparr>pe_now = 150, pe_clients = []\<rparr>,
     \<lparr>rf_payload = [], rf_recv_ts = 99, rf_is_binary = False\<rparr>)]"

lemma sample_setup_fits:
  "tks_offer sample_setup = channel_offer" "instruments_fit (tks_inst_map sample_setup)"
  "map_of (sp_shards (pst_publisher (ctk_publish sample_task))) (tks_shard_id sample_setup) =
     Some (BoxAeron (channel_new 4))"
  "cp_receiver_alive (channel_new 4)" "cp_capacity (channel_new 4) = 4" "cp_queue (channel_new 4) = []"
  "ctk_seq sample_task = 30" "length (pst_buf (ctk_publish sample_task)) = 65536"
  by (simp_all add: sample_setup_def sample_task_def task_new_def sp_new_def channel_new_def
      instruments_fit_def sample_inst_symbol)

lemma sample_fed: "spot_feed sample_json (tks_inst_map sample_setup) (tks_ctx sample_setup) sample_conn_frames 30 =
    ([(150, NM_BookDelta sample_delta)], 31)"
  using sample_normalized
  by (simp add: sample_conn_frames_def spot_recognised_def sample_json_depth sample_setup_def)
    (simp add: sample_depth_def)

theorem spot_frames_published_witness:
  "\<exists>t' p' bytes. spot_frames sample_json sample_setup sample_conn_frames sample_task = Some t' \<and>
     map_of (sp_shards (pst_publisher (ctk_publish t'))) 1 = Some (BoxAeron p') \<and>
     cp_queue p' = [bytes] \<and> nm_from_bytes bytes = Inr (nm_stamp 150 (NM_BookDelta sample_delta))"
proof -
  have "spot_frames_fit sample_json (map snd sample_conn_frames)"
    by (simp add: spot_frames_fit_def sample_conn_frames_def sample_json_depth sample_depth_def u32_MAX_def)
  moreover have "length (nm_wire (NM_BookDelta sample_delta)) \<le> 65536"
    by (simp add: BookDelta_wire_def sample_delta_def str_wire_def levels_wire_def level_wire_def HEADER_SIZE_56)
  ultimately show ?thesis
    using spot_frames_published [OF sample_setup_fits(1,2) _ sample_setup_fits(3,4), of sample_json sample_conn_frames]
      sample_fed sample_setup_fits
    by (auto simp: read_back_def sample_setup_def map_eq_Cons_conv simp del: nm_wire.simps nm_stamp.simps)
qed

text \<open>Every frame is counted under one kind.\<close>

definition fc_balanced :: "futures_counts \<Rightarrow> bool" where
  "fc_balanced c \<longleftrightarrow>
     fc_frames c = fc_bbo c + fc_depth c + fc_trade c + fc_mark c + fc_liq c + fc_unknown c + fc_parse_err c"

lemma fc_balanced_count: "fc_balanced (c\<lparr>fc_frames := fc_frames c - 1\<rparr>) \<Longrightarrow> fc_balanced (count_event e c)"
  by (cases e) (auto simp: fc_balanced_def algebra_simps)

lemma fc_balanced_frame:
  assumes "fc_balanced c" "futures_on_frame json u env frame (c, t) = Some (c', t')"
  shows "fc_balanced c'"
proof -
  have "fc_balanced (count_event e (c\<lparr>fc_frames := fc_frames c + 1\<rparr>))" for e
    by (rule fc_balanced_count) (use assms(1) in \<open>simp add: fc_balanced_def\<close>)
  then show ?thesis
    using assms
    by (auto simp: futures_on_frame_def Let_def fc_balanced_def algebra_simps
        split: sum.splits option.splits prod.splits)
qed

lemma fc_balanced_frames:
  "fc_balanced c \<Longrightarrow> futures_frames json u frames (c, t) = Some (c', t') \<Longrightarrow> fc_balanced c'"
proof (induction frames arbitrary: c t)
  case (Cons ef frames)
  then show ?case by (cases ef) (auto simp: bind_eq_Some_conv dest: fc_balanced_frame)
qed simp


definition sample_futures_json :: "unit futures_json" where
  "sample_futures_json =
     \<lparr>fj_wrapper = (\<lambda>_. Inr (''btcusdt@markPrice'', [])), fj_book_ticker = (\<lambda>_. Inl ()),
      fj_depth_update = (\<lambda>_. Inl ()), fj_agg_trade = (\<lambda>_. Inl ()),
      fj_mark_price = (\<lambda>_. Inr sample_mark), fj_force_order = (\<lambda>_. Inl ())\<rparr>"

lemma sample_futures_json_mark: "parse_futures_message sample_futures_json text = Inr (FE_MarkPrice sample_mark)"
  by (simp add: parse_futures_message_def sample_futures_json_def futures_stream_kind_of_def kind_segment_def)


section \<open>Start-up\<close>

lemma concat_list_chunks: "0 < n \<Longrightarrow> concat (list_chunks n xs) = xs"
proof (induction n xs rule: list_chunks.induct)
  case (1 n xs)
  with list_chunks.simps [of n xs] show ?case by (cases "xs = []") simp_all
qed

lemma list_chunks_length: "c \<in> set (list_chunks n xs) \<Longrightarrow> 0 < length c \<and> length c \<le> n"
proof (induction n xs rule: list_chunks.induct)
  case (1 n xs)
  with list_chunks.simps [of n xs] show ?case by (cases "n = 0 \<or> xs = []") auto
qed

lemma connection_plans_streams:
  assumes "connection_plans cfg venue streams = Some plans"
  shows "concat (map cnp_streams plans) = streams \<and>
    (\<forall>c \<in> set plans. 0 < length (cnp_streams c) \<and>
       length (cnp_streams c) \<le> unat (wsc_max_streams_per_connection (cc_websocket cfg)))"
proof -
  let ?n = "unat (wsc_max_streams_per_connection (cc_websocket cfg))"
  have n: "0 < ?n" and "map cnp_streams plans = map snd (enumerate 0 (list_chunks ?n streams))"
    using assms by (auto simp: connection_plans_def Let_def comp_def split_def split: if_splits)
  then have m: "map cnp_streams plans = list_chunks ?n streams" by simp
  have "0 < length (cnp_streams c) \<and> length (cnp_streams c) \<le> ?n" if "c \<in> set plans" for c
    using that by (intro list_chunks_length [of _ _ streams]) (simp flip: m)
  then show ?thesis by (simp add: m concat_list_chunks [OF n])
qed

text \<open>What every stream that an instance subscribes to is recognised as.\<close>

lemma connector_streams_recognised:
  assumes "\<forall>symbol \<in> set universe. CHR ''@'' \<notin> set symbol"
  shows "set (map spot_stream_kind (connector_streams BinanceSpot universe)) \<subseteq>
      {SK_BookTicker, SK_DepthUpdate, SK_Trade} \<and>
    set (map futures_stream_kind_of (connector_streams BinanceFutures universe)) \<subseteq>
      {FK_BookTicker, FK_DepthUpdate, FK_AggTrade, FK_MarkPrice, FK_ForceOrder}"
  using assms spot_stream_kind_name futures_stream_kind_name
  by (auto simp: connector_streams_def simp del: spot_stream_name.simps futures_stream_name.simps)

text \<open>The universe of a started instance: the symbols it owns.\<close>

lemma connector_start_universe:
  assumes "connector_start json clock fetch cfg = Inr plan" "cc_validate cfg = Inr ()"
  shows "\<exists>events. fst (rds_refresh json clock fetch (rds_new (cpl_venue_id plan) (cpl_market_type plan)
      (ic_id (cc_instance cfg)))) = Inr events \<and> cpl_inst_map plan = instrument_map events \<and>
    cpl_universe plan = filter (\<lambda>s. ic_id (cc_instance cfg) =
      symbol_owner cfg (cpl_venue_id plan) (cpl_market_type plan) s) (all_symbols cfg events) \<and>
    connection_plans cfg (cpl_venue_id plan) (connector_streams (cpl_venue_id plan) (cpl_universe plan)) =
      Some (cpl_connections plan)"
proof -
  have own: "with_instance (ic_id (cc_instance cfg)) cfg = cfg" by (simp add: with_instance_def)
  from assms(1) cc_validate_ids [OF assms(2)]
    filter_owned_symbols_owner [of cfg "ic_id (cc_instance cfg)", unfolded own]
  show ?thesis
    by (auto simp: connector_start_def and_then_Inr_iff panics_def Let_def map_err_def split: option.splits sum.splits)
qed


text \<open>A symbol of the instance's own share, and a start with it.\<close>

definition sample_start_config :: ConnectorConfig where
  "sample_start_config = sample_config
     \<lparr>cc_instance := \<lparr>ic_id = 0, ic_total = 1, ic_venue = ''binance_spot'', ic_market = ''spot''\<rparr>,
      cc_symbols := \<lparr>syc_universe = [''BTCUSDT'']\<rparr>\<rparr>"

lemma sample_start_valid: "cc_validate sample_start_config = Inr ()"
proof -
  have p: "u64_is_power_of_two 64" by (simp add: u64_is_power_of_two_def upt_rec)
  show ?thesis
    by (simp add: cc_validate_def sample_start_config_def sample_config_def cc_venue_id_def
        cc_market_type_def Let_def p word_le_nat_alt ShardingConfig_read_def AeronConfig_read_def
        or_default_def dflt_total_logical_shards_def dflt_mtu_def dflt_term_length_mib_def)
qed

lemma sample_started: "\<exists>plan. connector_start (\<lambda>_. Inr []) [] (Inr [] :: unit + u8 list) sample_start_config = Inr plan \<and>
    cpl_venue_id plan = BinanceSpot \<and> cpl_universe plan = [''BTCUSDT'']"
proof -
  have own: "with_instance 0 sample_start_config = sample_start_config"
    by (simp add: with_instance_def sample_start_config_def)
  have "symbol_owner sample_start_config BinanceSpot Spot s = 0" for s
    by (simp add: symbol_owner_def sample_start_config_def)
  then have "filter_owned_symbols sample_start_config BinanceSpot Spot [''BTCUSDT''] = Some [''BTCUSDT'']"
    using cc_validate_ids [OF sample_start_valid]
      filter_owned_symbols_owner [of sample_start_config 0 BinanceSpot Spot "[''BTCUSDT'']", unfolded own]
    by simp
  then show ?thesis
    by (simp add: connector_start_def parse_venue_def sample_start_config_def sample_config_def panics_def
        rds_refresh_def parse_exchange_info_def all_symbols_def connection_plans_def Let_def
        WebSocketConfig_read_def or_default_def dflt_max_streams_per_connection_def)
qed


text \<open>The connector does not validate: with no instances a start with symbols panics.\<close>

lemma unvalidated_start_panics:
  assumes "ic_total (cc_instance cfg) = 0" "0 < shc_total_logical_shards (cc_sharding cfg)"
    "parse_venue (ic_venue (cc_instance cfg)) (ic_market (cc_instance cfg)) = (Inr vm :: 'h connector_error + _)"
    "fst (rds_refresh json clock fetch (rds_new (fst vm) (snd vm) (ic_id (cc_instance cfg)))) = Inr events"
    "all_symbols cfg events \<noteq> []"
  shows "connector_start json clock (fetch :: 'h + _) cfg = Inl CNE_Panic"
proof -
  obtain s ss where "all_symbols cfg events = s # ss" using assms(5) by (cases "all_symbols cfg events") auto
  then have "filter_owned_symbols cfg (fst vm) (snd vm) (all_symbols cfg events) = None"
    using shard_for_less [OF assms(2), of "fst vm" "snd vm" s] assms(1) by (auto simp: owns_symbol_def u32_rem_def)
  then show ?thesis using assms by (simp add: connector_start_def split_beta panics_def)
qed

end
