(* ===== verification/Bridge.thy ===== *)
theory Bridge
  imports Normalized_Message Sbe Protocol_Json
begin

text \<open>
  The bridge to ClickHouse: \<open>bin/clickhouse-bridge/src\<close> (rows.rs, main.rs). The rows of the eight
  tables, the schema, the check of the tables at start-up, the poll callback and the loop that
  writes and commits. The ClickHouse client is third-party: its inserter is a record of
  operations over a state of its own, and a call that times out is one of its outcomes. None is
  the panic of a division by zero.
\<close>

section \<open>Rows\<close>

definition to_d8 :: "i64 \<Rightarrow> u8 \<Rightarrow> i64 option" where
  "to_d8 m scale =
     (let n = 8 - int (unat scale) in
      if n = 0 then Some m
      else if 0 < n then Some (m * 10 ^ nat n)
      else
        let d = 10 ^ nat (- n) in if d = 0 then None else Some (i64_div m d))"

text \<open>The columns that all rows but the instruments begin with.\<close>

record row_key =
  rk_exchange_event_ts :: i64
  rk_local_recv_ts :: i64
  rk_local_publish_ts :: i64
  rk_venue_id :: u8
  rk_market_type :: u8
  rk_instrument_id :: u32
  rk_symbol :: string
  rk_sequence_number :: u64

record TradeRow = row_key +
  trw_trade_id :: u64
  trw_price :: i64
  trw_qty :: i64
  trw_trade_ts :: i64
  trw_is_buyer_maker :: u8
  trw_aggressor_side :: u8

definition trade_row :: "Trade \<Rightarrow> TradeRow option" where
  "trade_row m =
     (let h = tr_header m in
     Option.bind (to_d8 (tr_price m) (tr_price_scale m)) (\<lambda>price.
     Option.bind (to_d8 (tr_qty m) (tr_qty_scale m)) (\<lambda>qty.
     Some \<lparr>rk_exchange_event_ts = mh_exchange_event_ts h, rk_local_recv_ts = mh_local_recv_ts h,
        rk_local_publish_ts = mh_local_publish_ts h, rk_venue_id = venue_id_u8 (mh_venue_id h),
        rk_market_type = market_type_u8 (mh_market_type h),
        rk_instrument_id = mh_instrument_id h, rk_symbol = tr_symbol m,
        rk_sequence_number = mh_sequence_number h, trw_trade_id = tr_trade_id m,
        trw_price = price, trw_qty = qty, trw_trade_ts = tr_trade_ts m,
        trw_is_buyer_maker = bool_u8 (tr_is_buyer_maker m),
        trw_aggressor_side = aggressor_side_u8 (tr_aggressor_side m)\<rparr>)))"

record BboRow = row_key +
  bbw_bid_price :: i64
  bbw_bid_qty :: i64
  bbw_ask_price :: i64
  bbw_ask_qty :: i64
  bbw_update_id :: u64

definition bbo_row :: "BestBidOffer \<Rightarrow> BboRow option" where
  "bbo_row m =
     (let h = bbo_header m in
     Option.bind (to_d8 (bbo_bid_price m) (bbo_price_scale m)) (\<lambda>bid_price.
     Option.bind (to_d8 (bbo_bid_qty m) (bbo_qty_scale m)) (\<lambda>bid_qty.
     Option.bind (to_d8 (bbo_ask_price m) (bbo_price_scale m)) (\<lambda>ask_price.
     Option.bind (to_d8 (bbo_ask_qty m) (bbo_qty_scale m)) (\<lambda>ask_qty.
     Some \<lparr>rk_exchange_event_ts = mh_exchange_event_ts h, rk_local_recv_ts = mh_local_recv_ts h,
        rk_local_publish_ts = mh_local_publish_ts h, rk_venue_id = venue_id_u8 (mh_venue_id h),
        rk_market_type = market_type_u8 (mh_market_type h),
        rk_instrument_id = mh_instrument_id h, rk_symbol = bbo_symbol m,
        rk_sequence_number = mh_sequence_number h, bbw_bid_price = bid_price,
        bbw_bid_qty = bid_qty, bbw_ask_price = ask_price, bbw_ask_qty = ask_qty,
        bbw_update_id = bbo_update_id m\<rparr>)))))"

record MarkPriceRow = row_key +
  mpw_mark_price :: i64
  mpw_index_price :: i64

definition mark_price_row :: "MarkPrice \<Rightarrow> MarkPriceRow option" where
  "mark_price_row m =
     (let h = mp_header m in
     Option.bind (to_d8 (mp_mark_price m) (mp_price_scale m)) (\<lambda>mark_price.
     Option.bind (to_d8 (mp_index_price m) (mp_price_scale m)) (\<lambda>index_price.
     Some \<lparr>rk_exchange_event_ts = mh_exchange_event_ts h, rk_local_recv_ts = mh_local_recv_ts h,
        rk_local_publish_ts = mh_local_publish_ts h, rk_venue_id = venue_id_u8 (mh_venue_id h),
        rk_market_type = market_type_u8 (mh_market_type h),
        rk_instrument_id = mh_instrument_id h, rk_symbol = mp_symbol m,
        rk_sequence_number = mh_sequence_number h, mpw_mark_price = mark_price,
        mpw_index_price = index_price\<rparr>)))"

record FundingRateRow = row_key +
  frw_funding_rate :: i64
  frw_next_funding_time :: i64

definition funding_rate_row :: "FundingRate \<Rightarrow> FundingRateRow option" where
  "funding_rate_row m =
     (let h = fr_header m in
     Some \<lparr>rk_exchange_event_ts = mh_exchange_event_ts h, rk_local_recv_ts = mh_local_recv_ts h,
        rk_local_publish_ts = mh_local_publish_ts h, rk_venue_id = venue_id_u8 (mh_venue_id h),
        rk_market_type = market_type_u8 (mh_market_type h),
        rk_instrument_id = mh_instrument_id h, rk_symbol = fr_symbol m,
        rk_sequence_number = mh_sequence_number h, frw_funding_rate = fr_funding_rate m,
        frw_next_funding_time = fr_next_funding_time m\<rparr>)"

record LiquidationRow = row_key +
  lqw_side :: u8
  lqw_price :: i64
  lqw_qty :: i64
  lqw_avg_price :: i64
  lqw_last_filled_qty :: i64

definition liquidation_row :: "Liquidation \<Rightarrow> LiquidationRow option" where
  "liquidation_row m =
     (let h = lq_header m in
     Option.bind (to_d8 (lq_price m) (lq_price_scale m)) (\<lambda>price.
     Option.bind (to_d8 (lq_qty m) (lq_qty_scale m)) (\<lambda>qty.
     Option.bind (to_d8 (lq_avg_price m) (lq_price_scale m)) (\<lambda>avg_price.
     Option.bind (to_d8 (lq_last_filled_qty m) (lq_qty_scale m)) (\<lambda>last_filled_qty.
     Some \<lparr>rk_exchange_event_ts = mh_exchange_event_ts h, rk_local_recv_ts = mh_local_recv_ts h,
        rk_local_publish_ts = mh_local_publish_ts h, rk_venue_id = venue_id_u8 (mh_venue_id h),
        rk_market_type = market_type_u8 (mh_market_type h),
        rk_instrument_id = mh_instrument_id h, rk_symbol = lq_symbol m,
        rk_sequence_number = mh_sequence_number h, lqw_side = aggressor_side_u8 (lq_side m),
        lqw_price = price, lqw_qty = qty, lqw_avg_price = avg_price,
        lqw_last_filled_qty = last_filled_qty\<rparr>)))))"

record OpenInterestRow = row_key +
  oiw_open_interest :: i64

definition open_interest_row :: "OpenInterest \<Rightarrow> OpenInterestRow option" where
  "open_interest_row m =
     (let h = oi_header m in
     Option.bind (to_d8 (oi_open_interest m) (oi_qty_scale m)) (\<lambda>open_interest.
     Some \<lparr>rk_exchange_event_ts = mh_exchange_event_ts h, rk_local_recv_ts = mh_local_recv_ts h,
        rk_local_publish_ts = mh_local_publish_ts h, rk_venue_id = venue_id_u8 (mh_venue_id h),
        rk_market_type = market_type_u8 (mh_market_type h),
        rk_instrument_id = mh_instrument_id h, rk_symbol = oi_symbol m,
        rk_sequence_number = mh_sequence_number h, oiw_open_interest = open_interest\<rparr>))"

record BookDeltaRow = row_key +
  bdw_first_update_id :: u64
  bdw_final_update_id :: u64
  bdw_prev_update_id :: u64
  bdw_bid_prices :: "i64 list"
  bdw_bid_qtys :: "i64 list"
  bdw_ask_prices :: "i64 list"
  bdw_ask_qtys :: "i64 list"

definition book_delta_row :: "BookDelta \<Rightarrow> BookDeltaRow option" where
  "book_delta_row m =
     (let h = bd_header m in
     Option.bind (those (map (\<lambda>l. to_d8 (pl_price l) (bd_price_scale m)) (bd_bids m))) (\<lambda>bid_prices.
     Option.bind (those (map (\<lambda>l. to_d8 (pl_qty l) (bd_qty_scale m)) (bd_bids m))) (\<lambda>bid_qtys.
     Option.bind (those (map (\<lambda>l. to_d8 (pl_price l) (bd_price_scale m)) (bd_asks m))) (\<lambda>ask_prices.
     Option.bind (those (map (\<lambda>l. to_d8 (pl_qty l) (bd_qty_scale m)) (bd_asks m))) (\<lambda>ask_qtys.
     Some \<lparr>rk_exchange_event_ts = mh_exchange_event_ts h, rk_local_recv_ts = mh_local_recv_ts h,
        rk_local_publish_ts = mh_local_publish_ts h, rk_venue_id = venue_id_u8 (mh_venue_id h),
        rk_market_type = market_type_u8 (mh_market_type h),
        rk_instrument_id = mh_instrument_id h, rk_symbol = bd_symbol m,
        rk_sequence_number = mh_sequence_number h, bdw_first_update_id = bd_first_update_id m,
        bdw_final_update_id = bd_final_update_id m, bdw_prev_update_id = bd_prev_update_id m,
        bdw_bid_prices = bid_prices, bdw_bid_qtys = bid_qtys, bdw_ask_prices = ask_prices,
        bdw_ask_qtys = ask_qtys\<rparr>)))))"

record InstrumentRow =
  inw_local_recv_ts :: i64
  inw_venue_id :: u8
  inw_market_type :: u8
  inw_instrument_id :: u32
  inw_symbol :: string
  inw_base_asset :: string
  inw_quote_asset :: string
  inw_price_scale :: u32
  inw_qty_scale :: u32
  inw_tick_size :: i64
  inw_step_size :: i64
  inw_min_qty :: i64
  inw_min_notional :: i64
  inw_contract_size :: i64
  inw_is_trading :: u8

definition instrument_row :: "InstrumentDefinition \<Rightarrow> InstrumentRow option" where
  "instrument_row m =
     (let h = id_header m; ps = ucast (id_price_scale m); qs = ucast (id_qty_scale m) in
     Option.bind (to_d8 (id_tick_size m) ps) (\<lambda>tick_size.
     Option.bind (to_d8 (id_step_size m) qs) (\<lambda>step_size.
     Option.bind (to_d8 (id_min_qty m) qs) (\<lambda>min_qty.
     Option.bind (to_d8 (id_min_notional m) ps) (\<lambda>min_notional.
     Option.bind (to_d8 (id_contract_size m) qs) (\<lambda>contract_size.
     Some \<lparr>inw_local_recv_ts = mh_local_recv_ts h, inw_venue_id = venue_id_u8 (mh_venue_id h),
        inw_market_type = market_type_u8 (mh_market_type h),
        inw_instrument_id = mh_instrument_id h, inw_symbol = id_symbol m,
        inw_base_asset = id_base_asset m, inw_quote_asset = id_quote_asset m,
        inw_price_scale = id_price_scale m, inw_qty_scale = id_qty_scale m,
        inw_tick_size = tick_size, inw_step_size = step_size, inw_min_qty = min_qty,
        inw_min_notional = min_notional, inw_contract_size = contract_size,
        inw_is_trading = bool_u8 (id_is_trading m)\<rparr>))))))"

datatype bridge_row =
    Row_Trade TradeRow
  | Row_Bbo BboRow
  | Row_MarkPrice MarkPriceRow
  | Row_FundingRate FundingRateRow
  | Row_Liquidation LiquidationRow
  | Row_OpenInterest OpenInterestRow
  | Row_BookDelta BookDeltaRow
  | Row_Instrument InstrumentRow

section \<open>Schema\<close>

datatype ch_type =
  CH_Int64 | CH_UInt8 | CH_UInt32 | CH_UInt64 | CH_String | CH_Decimal nat nat | CH_Array ch_type

definition key_columns :: "(string \<times> ch_type) list" where
  "key_columns =
     [(''exchange_event_ts'', CH_Int64), (''local_recv_ts'', CH_Int64), (''local_publish_ts'', CH_Int64),
      (''venue_id'', CH_UInt8), (''market_type'', CH_UInt8), (''instrument_id'', CH_UInt32),
      (''symbol'', CH_String), (''sequence_number'', CH_UInt64)]"

definition create_tables :: "(string \<times> (string \<times> ch_type) list) list" where
  "create_tables =
     [(''trades'',
        key_columns @
        [(''trade_id'', CH_UInt64), (''price'', CH_Decimal 18 8),
         (''qty'', CH_Decimal 18 8), (''trade_ts'', CH_Int64),
         (''is_buyer_maker'', CH_UInt8), (''aggressor_side'', CH_UInt8)]),
      (''best_bid_offers'',
        key_columns @
        [(''bid_price'', CH_Decimal 18 8), (''bid_qty'', CH_Decimal 18 8),
         (''ask_price'', CH_Decimal 18 8), (''ask_qty'', CH_Decimal 18 8),
         (''update_id'', CH_UInt64)]),
      (''mark_prices'',
        key_columns @
        [(''mark_price'', CH_Decimal 18 8), (''index_price'', CH_Decimal 18 8)]),
      (''funding_rates'',
        key_columns @
        [(''funding_rate'', CH_Decimal 18 9), (''next_funding_time'', CH_Int64)]),
      (''liquidations'',
        key_columns @
        [(''side'', CH_UInt8), (''price'', CH_Decimal 18 8), (''qty'', CH_Decimal 18 8),
         (''avg_price'', CH_Decimal 18 8), (''last_filled_qty'', CH_Decimal 18 8)]),
      (''open_interest'',
        key_columns @
        [(''open_interest'', CH_Decimal 18 8)]),
      (''book_deltas'',
        key_columns @
        [(''first_update_id'', CH_UInt64), (''final_update_id'', CH_UInt64),
         (''prev_update_id'', CH_UInt64), (''bid_prices'', CH_Array (CH_Decimal 18 8)),
         (''bid_qtys'', CH_Array (CH_Decimal 18 8)),
         (''ask_prices'', CH_Array (CH_Decimal 18 8)),
         (''ask_qtys'', CH_Array (CH_Decimal 18 8))]),
      (''instruments'',
        [(''local_recv_ts'', CH_Int64), (''venue_id'', CH_UInt8),
         (''market_type'', CH_UInt8), (''instrument_id'', CH_UInt32),
         (''symbol'', CH_String), (''base_asset'', CH_String), (''quote_asset'', CH_String),
         (''price_scale'', CH_UInt32), (''qty_scale'', CH_UInt32),
         (''tick_size'', CH_Decimal 18 8), (''step_size'', CH_Decimal 18 8),
         (''min_qty'', CH_Decimal 18 8), (''min_notional'', CH_Decimal 18 8),
         (''contract_size'', CH_Decimal 18 8), (''is_trading'', CH_UInt8)])]"

definition REQUIRED_TABLES :: "string list" where
  "REQUIRED_TABLES =
     [''trades'', ''best_bid_offers'', ''mark_prices'', ''funding_rates'', ''liquidations'',
      ''open_interest'', ''book_deltas'', ''instruments'']"

text \<open>What the derived serializer writes of a row: its fields, by name.\<close>

datatype cell =
  C_i64 i64 | C_u8 u8 | C_u32 u32 | C_u64 u64 | C_str string | C_vec "i64 list"

definition key_cells :: "'a row_key_scheme \<Rightarrow> (string \<times> cell) list" where
  "key_cells r =
     [(''exchange_event_ts'', C_i64 (rk_exchange_event_ts r)),
      (''local_recv_ts'', C_i64 (rk_local_recv_ts r)),
      (''local_publish_ts'', C_i64 (rk_local_publish_ts r)), (''venue_id'', C_u8 (rk_venue_id r)),
      (''market_type'', C_u8 (rk_market_type r)), (''instrument_id'', C_u32 (rk_instrument_id r)),
      (''symbol'', C_str (rk_symbol r)), (''sequence_number'', C_u64 (rk_sequence_number r))]"

fun row_cells :: "bridge_row \<Rightarrow> (string \<times> cell) list" where
  "row_cells (Row_Trade r) =
     key_cells r @
     [(''trade_id'', C_u64 (trw_trade_id r)), (''price'', C_i64 (trw_price r)),
      (''qty'', C_i64 (trw_qty r)), (''trade_ts'', C_i64 (trw_trade_ts r)),
      (''is_buyer_maker'', C_u8 (trw_is_buyer_maker r)),
      (''aggressor_side'', C_u8 (trw_aggressor_side r))]"
| "row_cells (Row_Bbo r) =
     key_cells r @
     [(''bid_price'', C_i64 (bbw_bid_price r)), (''bid_qty'', C_i64 (bbw_bid_qty r)),
      (''ask_price'', C_i64 (bbw_ask_price r)), (''ask_qty'', C_i64 (bbw_ask_qty r)),
      (''update_id'', C_u64 (bbw_update_id r))]"
| "row_cells (Row_MarkPrice r) =
     key_cells r @
     [(''mark_price'', C_i64 (mpw_mark_price r)), (''index_price'', C_i64 (mpw_index_price r))]"
| "row_cells (Row_FundingRate r) =
     key_cells r @
     [(''funding_rate'', C_i64 (frw_funding_rate r)),
      (''next_funding_time'', C_i64 (frw_next_funding_time r))]"
| "row_cells (Row_Liquidation r) =
     key_cells r @
     [(''side'', C_u8 (lqw_side r)), (''price'', C_i64 (lqw_price r)),
      (''qty'', C_i64 (lqw_qty r)), (''avg_price'', C_i64 (lqw_avg_price r)),
      (''last_filled_qty'', C_i64 (lqw_last_filled_qty r))]"
| "row_cells (Row_OpenInterest r) =
     key_cells r @
     [(''open_interest'', C_i64 (oiw_open_interest r))]"
| "row_cells (Row_BookDelta r) =
     key_cells r @
     [(''first_update_id'', C_u64 (bdw_first_update_id r)),
      (''final_update_id'', C_u64 (bdw_final_update_id r)),
      (''prev_update_id'', C_u64 (bdw_prev_update_id r)),
      (''bid_prices'', C_vec (bdw_bid_prices r)), (''bid_qtys'', C_vec (bdw_bid_qtys r)),
      (''ask_prices'', C_vec (bdw_ask_prices r)), (''ask_qtys'', C_vec (bdw_ask_qtys r))]"
| "row_cells (Row_Instrument r) =
     [(''local_recv_ts'', C_i64 (inw_local_recv_ts r)), (''venue_id'', C_u8 (inw_venue_id r)),
      (''market_type'', C_u8 (inw_market_type r)), (''instrument_id'', C_u32 (inw_instrument_id r)),
      (''symbol'', C_str (inw_symbol r)), (''base_asset'', C_str (inw_base_asset r)),
      (''quote_asset'', C_str (inw_quote_asset r)), (''price_scale'', C_u32 (inw_price_scale r)),
      (''qty_scale'', C_u32 (inw_qty_scale r)), (''tick_size'', C_i64 (inw_tick_size r)),
      (''step_size'', C_i64 (inw_step_size r)), (''min_qty'', C_i64 (inw_min_qty r)),
      (''min_notional'', C_i64 (inw_min_notional r)), (''contract_size'', C_i64 (inw_contract_size r)),
      (''is_trading'', C_u8 (inw_is_trading r))]"

section \<open>Start-up\<close>

datatype bridge_error = BE_Connection string | BE_MissingTables string string

text \<open>\<open>check_tables\<close>, with the answer of the query: the names of the tables found.\<close>

definition check_tables :: "string \<Rightarrow> string + string list \<Rightarrow> bridge_error + unit" where
  "check_tables database answer =
     and_then (map_err BE_Connection answer) (\<lambda>existing.
     let missing = filter (\<lambda>t. t \<notin> set existing) REQUIRED_TABLES in
     if missing \<noteq> [] then Inl (BE_MissingTables database (str_join '', '' missing)) else Inr ())"

text \<open>
  \<open>wait_for_clickhouse\<close> over the answers of its attempts and the answer of the check behind the
  first that succeeds: the delays slept in seconds, and the result, None while it still waits.
\<close>

fun wait_for_clickhouse ::
  "string \<Rightarrow> string + string list \<Rightarrow> (string + unit) list \<Rightarrow> nat \<Rightarrow>
   nat list \<times> (bridge_error + unit) option" where
  "wait_for_clickhouse database tables [] delay = ([], None)"
| "wait_for_clickhouse database tables (Inr _ # attempts) delay = ([], Some (check_tables database tables))"
| "wait_for_clickhouse database tables (Inl _ # attempts) delay =
     (let (delays, r) = wait_for_clickhouse database tables attempts (min (delay * 2) 30) in
      (delay # delays, r))"

definition stream_ids :: "int list \<Rightarrow> int \<Rightarrow> int list" where
  "stream_ids streams total_shards = (if streams = [] then [1..total_shards] else streams)"

section \<open>Inserters\<close>

datatype ch_outcome = ChOk | ChErr string | ChTimeout

record 'i inserter_ops =
  iop_open :: "string \<Rightarrow> u64 \<Rightarrow> u64 \<Rightarrow> 'i"
  iop_write :: "bridge_row \<Rightarrow> 'i \<Rightarrow> ch_outcome \<times> 'i"
  iop_commit :: "'i \<Rightarrow> ch_outcome \<times> 'i"
  iop_end :: "'i \<Rightarrow> ch_outcome \<times> 'i"

record 'i inserters =
  isr_trades :: 'i
  isr_bbo :: 'i
  isr_mark_price :: 'i
  isr_funding :: 'i
  isr_liquidation :: 'i
  isr_open_interest :: 'i
  isr_book_delta :: 'i
  isr_instruments :: 'i

definition isr_new :: "'i inserter_ops \<Rightarrow> u64 \<Rightarrow> u64 \<Rightarrow> 'i inserters" where
  "isr_new ops batch_rows batch_secs =
     \<lparr>isr_trades = iop_open ops ''trades'' batch_rows batch_secs,
      isr_bbo = iop_open ops ''best_bid_offers'' batch_rows batch_secs,
      isr_mark_price = iop_open ops ''mark_prices'' batch_rows batch_secs,
      isr_funding = iop_open ops ''funding_rates'' batch_rows batch_secs,
      isr_liquidation = iop_open ops ''liquidations'' batch_rows batch_secs,
      isr_open_interest = iop_open ops ''open_interest'' batch_rows batch_secs,
      isr_book_delta = iop_open ops ''book_deltas'' batch_rows batch_secs,
      isr_instruments = iop_open ops ''instruments'' 1000 batch_secs\<rparr>"

text \<open>The outcome of a write is logged and otherwise ignored.\<close>

definition isr_write :: "'i inserter_ops \<Rightarrow> normalized_message \<Rightarrow> 'i inserters \<Rightarrow> 'i inserters option" where
  "isr_write ops msg s =
     (let w = \<lambda>row i. snd (iop_write ops row i) in
      case msg of
        NM_InstrumentDefinition m \<Rightarrow>
          map_option (\<lambda>r. s\<lparr>isr_instruments := w (Row_Instrument r) (isr_instruments s)\<rparr>) (instrument_row m)
      | NM_Trade m \<Rightarrow> map_option (\<lambda>r. s\<lparr>isr_trades := w (Row_Trade r) (isr_trades s)\<rparr>) (trade_row m)
      | NM_BestBidOffer m \<Rightarrow> map_option (\<lambda>r. s\<lparr>isr_bbo := w (Row_Bbo r) (isr_bbo s)\<rparr>) (bbo_row m)
      | NM_MarkPrice m \<Rightarrow>
          map_option (\<lambda>r. s\<lparr>isr_mark_price := w (Row_MarkPrice r) (isr_mark_price s)\<rparr>) (mark_price_row m)
      | NM_FundingRate m \<Rightarrow>
          map_option (\<lambda>r. s\<lparr>isr_funding := w (Row_FundingRate r) (isr_funding s)\<rparr>) (funding_rate_row m)
      | NM_Liquidation m \<Rightarrow>
          map_option (\<lambda>r. s\<lparr>isr_liquidation := w (Row_Liquidation r) (isr_liquidation s)\<rparr>) (liquidation_row m)
      | NM_OpenInterest m \<Rightarrow>
          map_option (\<lambda>r. s\<lparr>isr_open_interest := w (Row_OpenInterest r) (isr_open_interest s)\<rparr>) (open_interest_row m)
      | NM_BookDelta m \<Rightarrow>
          map_option (\<lambda>r. s\<lparr>isr_book_delta := w (Row_BookDelta r) (isr_book_delta s)\<rparr>) (book_delta_row m)
      | _ \<Rightarrow> Some s)"

text \<open>One call of the macros of \<open>commit\<close> and \<open>end\<close>; after a time-out the rest is not run.\<close>

definition isr_step ::
  "('i \<Rightarrow> ch_outcome \<times> 'i) \<Rightarrow> ('i inserters \<Rightarrow> 'i) \<Rightarrow> (('i \<Rightarrow> 'i) \<Rightarrow> 'i inserters \<Rightarrow> 'i inserters) \<Rightarrow>
   bool \<times> 'i inserters \<Rightarrow> bool \<times> 'i inserters" where
  "isr_step call get_ins upd ts =
     (if fst ts then ts
      else let (r, i) = call (get_ins (snd ts)) in (r = ChTimeout, upd (\<lambda>_. i) (snd ts)))"

definition isr_all :: "('i \<Rightarrow> ch_outcome \<times> 'i) \<Rightarrow> 'i inserters \<Rightarrow> bool \<times> 'i inserters" where
  "isr_all call s =
     isr_step call isr_instruments isr_instruments_update
       (isr_step call isr_book_delta isr_book_delta_update
       (isr_step call isr_open_interest isr_open_interest_update
       (isr_step call isr_liquidation isr_liquidation_update
       (isr_step call isr_funding isr_funding_update
       (isr_step call isr_mark_price isr_mark_price_update
       (isr_step call isr_bbo isr_bbo_update
       (isr_step call isr_trades isr_trades_update (False, s))))))))"

definition isr_commit :: "'i inserter_ops \<Rightarrow> 'i inserters \<Rightarrow> 'i inserters" where
  "isr_commit ops s = snd (isr_all (iop_commit ops) s)"

definition isr_end :: "'i inserter_ops \<Rightarrow> 'i inserters \<Rightarrow> 'i inserters" where
  "isr_end ops s = snd (isr_all (iop_end ops) s)"

section \<open>The loop\<close>

text \<open>The poll callback: what a fragment puts into the channel.\<close>

definition poll_fragment :: "u8 list \<Rightarrow> normalized_message option" where
  "poll_fragment bytes =
     (if length bytes < HEADER_SIZE then None
      else case nm_from_bytes bytes of Inr msg \<Rightarrow> Some msg | Inl _ \<Rightarrow> None)"

record bridge_counts =
  bdc_instrument :: u64
  bdc_trade :: u64
  bdc_bbo :: u64
  bdc_mark_price :: u64
  bdc_funding :: u64
  bdc_liquidation :: u64
  bdc_open_interest :: u64
  bdc_book_delta :: u64
  bdc_other :: u64
  bdc_decode_err :: u64

definition bdc_zero :: bridge_counts where
  "bdc_zero = \<lparr>bdc_instrument = 0, bdc_trade = 0, bdc_bbo = 0, bdc_mark_price = 0, bdc_funding = 0,
     bdc_liquidation = 0, bdc_open_interest = 0, bdc_book_delta = 0, bdc_other = 0, bdc_decode_err = 0\<rparr>"

fun count_msg :: "normalized_message \<Rightarrow> bridge_counts \<Rightarrow> bridge_counts" where
  "count_msg (NM_InstrumentDefinition _) c = c\<lparr>bdc_instrument := bdc_instrument c + 1\<rparr>"
| "count_msg (NM_Trade _) c = c\<lparr>bdc_trade := bdc_trade c + 1\<rparr>"
| "count_msg (NM_BestBidOffer _) c = c\<lparr>bdc_bbo := bdc_bbo c + 1\<rparr>"
| "count_msg (NM_MarkPrice _) c = c\<lparr>bdc_mark_price := bdc_mark_price c + 1\<rparr>"
| "count_msg (NM_FundingRate _) c = c\<lparr>bdc_funding := bdc_funding c + 1\<rparr>"
| "count_msg (NM_Liquidation _) c = c\<lparr>bdc_liquidation := bdc_liquidation c + 1\<rparr>"
| "count_msg (NM_OpenInterest _) c = c\<lparr>bdc_open_interest := bdc_open_interest c + 1\<rparr>"
| "count_msg (NM_BookDelta _) c = c\<lparr>bdc_book_delta := bdc_book_delta c + 1\<rparr>"
| "count_msg _ c = c\<lparr>bdc_other := bdc_other c + 1\<rparr>"

record 'i bridge =
  bdg_inserters :: "'i inserters"
  bdg_counts :: bridge_counts
  bdg_msgs_written :: u64

definition bdg_new :: "'i inserter_ops \<Rightarrow> u64 \<Rightarrow> u64 \<Rightarrow> 'i bridge" where
  "bdg_new ops batch_rows batch_secs =
     \<lparr>bdg_inserters = isr_new ops batch_rows batch_secs, bdg_counts = bdc_zero, bdg_msgs_written = 0\<rparr>"

datatype bridge_event = BV_Tick | BV_Msg normalized_message | BV_Closed

definition bdg_tick :: "'i inserter_ops \<Rightarrow> 'i bridge \<Rightarrow> 'i bridge" where
  "bdg_tick ops b = b\<lparr>bdg_inserters := isr_commit ops (bdg_inserters b)\<rparr>"

definition bdg_msg :: "'i inserter_ops \<Rightarrow> normalized_message \<Rightarrow> 'i bridge \<Rightarrow> 'i bridge option" where
  "bdg_msg ops msg b =
     map_option (\<lambda>s.
       let written = bdg_msgs_written b + 1 in
       \<lparr>bdg_inserters = (if written mod 10000 = 0 then isr_commit ops s else s),
        bdg_counts = count_msg msg (bdg_counts b), bdg_msgs_written = written\<rparr>)
       (isr_write ops msg (bdg_inserters b))"

text \<open>The select loop over what becomes ready; it ends when the channel is closed.\<close>

fun bdg_run :: "'i inserter_ops \<Rightarrow> bridge_event list \<Rightarrow> 'i bridge \<Rightarrow> 'i bridge option" where
  "bdg_run ops [] b = Some b"
| "bdg_run ops (BV_Tick # evs) b = bdg_run ops evs (bdg_tick ops b)"
| "bdg_run ops (BV_Msg msg # evs) b = Option.bind (bdg_msg ops msg b) (bdg_run ops evs)"
| "bdg_run ops (BV_Closed # evs) b = Some (b\<lparr>bdg_inserters := isr_end ops (bdg_inserters b)\<rparr>)"

end
