(* ===== verification/Bridge_Properties.thy ===== *)
theory Bridge_Properties
  imports Bridge Connector_Properties
begin

text \<open>
  The properties of the ClickHouse bridge: the rows fit the schema and hold the decimal values
  of the exchange, every decoded message of a stored type becomes one row of its table in
  order, and the wait at start-up ends with the first answer of the database. The last property
  spans the system, from the frames of a connection to the rows.
\<close>

section \<open>Values\<close>

lemma word_pow10_nz: "k < 64 \<Longrightarrow> (10 :: 64 word) ^ k \<noteq> 0"
proof
  assume k: "k < 64" and z: "(10 :: 64 word) ^ k = 0"
  have "(word_of_int (10 ^ k) :: 64 word) = 0" using z by simp
  then have "(2 :: int) ^ 64 dvd 10 ^ k" by (simp only: word_of_int_eq_0_iff) simp
  then have "(2 :: int) ^ Suc k dvd 10 ^ k"
    using k by (meson Suc_leI dvd_trans le_imp_power_dvd)
  moreover have "(10 :: int) ^ k = 2 ^ k * 5 ^ k" by (simp flip: power_mult_distrib)
  ultimately have "(2 :: int) dvd 5 ^ k" by simp
  then show False by simp
qed

lemma i64_pow: "(I64 a) ^ k = I64 (a ^ k)"
  by (induction k) (simp_all add: eval_simps)

lemma i64_pow10: "(10 :: i64) ^ k = I64 (10 ^ k)"
  by (simp add: numeral_i64 i64_pow)

lemma to_d8_cases:
  "to_d8 m s =
     (if unat s = 8 then Some m
      else if unat s < 8 then Some (m * 10 ^ (8 - unat s))
      else if (10 :: i64) ^ (unat s - 8) = 0 then None
      else Some (i64_div m (10 ^ (unat s - 8))))"
proof -
  define k where "k = unat s"
  have "nat (8 - int k) = 8 - k" "nat (- (8 - int k)) = k - 8" by simp_all
  then show ?thesis unfolding to_d8_def k_def [symmetric] by (simp add: Let_def)
qed

text \<open>Up to scale 71 nothing panics; the sources give scales of at most 9.\<close>

lemma to_d8_defined: "unat s < 72 \<Longrightarrow> to_d8 m s \<noteq> None"
  by (auto simp: to_d8_cases i64_pow10 zero_i64_def word_pow10_nz)

lemma to_d8_exact:
  assumes "unat s \<le> 8" "- (2 ^ 63) \<le> i64_val m * 10 ^ (8 - unat s)" "i64_val m * 10 ^ (8 - unat s) < 2 ^ 63"
  shows "\<exists>d. to_d8 m s = Some d \<and> i64_val d = i64_val m * 10 ^ (8 - unat s)"
proof (cases "unat s = 8")
  case False
  have "i64_of_int (i64_val m * 10 ^ (8 - unat s)) = m * 10 ^ (8 - unat s)"
    by (cases m) (simp add: i64_of_int_def i64_val_def times_i64_def i64_pow10)
  then show ?thesis
    using assms False i64_val_of_int [OF assms(2,3)] by (simp add: to_d8_cases)
qed (simp add: to_d8_cases)

lemma to_d8_truncates:
  assumes "8 < unat s" "unat s \<le> 26"
  shows "\<exists>d. to_d8 m s = Some d \<and>
    i64_val d = sgn (i64_val m) * (\<bar>i64_val m\<bar> div 10 ^ (unat s - 8))"
proof -
  have p: "i64_val (10 ^ (unat s - 8)) = 10 ^ (unat s - 8)" using assms by (simp add: i64_val_pow10)
  then have nz: "(10 :: i64) ^ (unat s - 8) \<noteq> 0" by (metis i64_val_0 power_not_zero zero_neq_numeral)
  have "\<bar>i64_val m\<bar> div 10 ^ (unat s - 8) \<le> \<bar>i64_val m\<bar> div 10 ^ 1"
    using assms by (intro zdiv_mono2) (auto intro: self_le_power)
  moreover have "\<bar>i64_val m\<bar> \<le> 2 ^ 63" using i64_val_bounds [of m] by auto
  moreover have "0 \<le> \<bar>i64_val m\<bar> div 10 ^ (unat s - 8)" by (simp add: pos_imp_zdiv_nonneg_iff)
  ultimately have "i64_val (i64_of_int (sgn (i64_val m) * (\<bar>i64_val m\<bar> div 10 ^ (unat s - 8)))) =
      sgn (i64_val m) * (\<bar>i64_val m\<bar> div 10 ^ (unat s - 8))"
    by (intro i64_val_of_int) (auto simp: sgn_if)
  with assms(1) nz show ?thesis by (simp add: to_d8_cases i64_div_def p)
qed

text \<open>A quantity beyond 92 billion wraps around in the column.\<close>

lemma large_quantity_wraps: "map_option i64_val (to_d8 100000000000 0) = Some (- 8446744073709551616)"
  by (simp add: to_d8_cases i64_pow eval_simps)

text \<open>The contract size of a USDT-M symbol is stored as one unit of its quantity scale.\<close>

lemma contract_size_off:
  assumes "normalize_symbol ts info venue UsdmFutures instance_id seq = Inr d" "instrument_row d = Some r"
    "unat (id_qty_scale d) \<le> 8"
  shows "i64_val (inw_contract_size r) * 10 ^ unat (id_qty_scale d) = 10 ^ 8"
proof -
  have c: "id_contract_size d = 1" using assms(1) by (auto simp: normalize_symbol_def Let_def and_then_Inr_iff)
  have s: "unat (ucast (id_qty_scale d) :: u8) = unat (id_qty_scale d)"
    using assms(3) by (simp add: unsigned_ucast_eq take_bit_nat_eq_self)
  have v: "i64_val 1 = 1" by (simp add: eval_simps)
  have "(10 :: int) ^ (8 - unat (id_qty_scale d)) \<le> 10 ^ 8" by (intro power_increasing) simp_all
  moreover have "- (2 ^ 63) \<le> (10 :: int) ^ k" for k by (rule order_trans [of _ 0]) simp_all
  ultimately have "to_d8 1 (ucast (id_qty_scale d)) = Some (inw_contract_size r)"
    "i64_val (inw_contract_size r) = 10 ^ (8 - unat (id_qty_scale d))"
    using to_d8_exact [of "ucast (id_qty_scale d)" 1] assms(2,3) c
    by (auto simp: s v instrument_row_def Let_def bind_eq_Some_conv)
  then show ?thesis using assms(3) by (simp flip: power_add)
qed

text \<open>C27: The price of a trade is in the database the decimal the exchange sent: whatever the
  instrument's scale of at most 8 that holds its digits, the column of scale 8 has the value of
  the text.\<close>

theorem trade_price_stored_exactly:
  assumes "normalize_trade t inst ctx seq recv_ts = Inr m" "trade_row m = Some r"
    and "stt_price t = i @ CHR ''.'' # f" "all_digits i" "all_digits f"
    and "length f \<le> unat (id_price_scale inst)" "unat (id_price_scale inst) \<le> 8"
    and "digits_val (i @ f) * 10 ^ (8 - length f) < 2 ^ 63"
  shows "i64_val (trw_price r) * 10 ^ length f = int (digits_val (i @ f)) * 10 ^ 8"
proof -
  let ?p = "unat (id_price_scale inst)"
  define N where "N = digits_val (i @ f)"
  define D where "D = decimal_scaled i f ?p"
  have N63: "N * 10 ^ (8 - length f) < 2 ^ 63" using assms(8) by (simp add: N_def)
  have "digits_val i * 1 \<le> digits_val i * 10 ^ length f" by (intro mult_left_mono) simp_all
  also have "\<dots> \<le> N * 1" by (simp add: N_def)
  also have "\<dots> \<le> N * 10 ^ (8 - length f)" by (intro mult_left_mono) simp_all
  finally have i63: "digits_val i < 2 ^ 63" using N63 by simp
  have "D = N * 10 ^ (?p - length f)"
    using assms(6) by (simp add: D_def N_def decimal_scaled_def div_mult_swap le_imp_power_dvd power_diff)
  moreover have "?p - length f + (8 - ?p) = 8 - length f" using assms(6,7) by simp
  ultimately have e: "D * 10 ^ (8 - ?p) = N * 10 ^ (8 - length f)" by (simp flip: power_add)
  have "D * 1 \<le> D * 10 ^ (8 - ?p)" by (intro mult_left_mono) simp_all
  with e N63 have d63: "D < 2 ^ 63" by linarith
  have "parse_scaled (stt_price t) (id_price_scale inst) = Inr (i64_of_int (int D))"
    using assms(7) by (simp add: assms(3) parse_scaled_def D_def adapter_parse_scaled_decimal(1) [OF assms(4,5) i63])
  with assms(1) have m: "tr_price m = i64_of_int (int D)" "tr_price_scale m = ucast (id_price_scale inst)"
    by (auto simp: normalize_trade_def Let_def and_then_Inr_iff)
  have v: "i64_val (tr_price m) = int D" using d63 by (simp add: m i64_val_of_int)
  have s: "unat (tr_price_scale m) = ?p"
    using assms(7) by (simp add: m unsigned_ucast_eq take_bit_nat_eq_self)
  have "int D * 10 ^ (8 - ?p) = int (N * 10 ^ (8 - length f))" using arg_cong [OF e, of int] by simp
  moreover have "int (N * 10 ^ (8 - length f)) < 2 ^ 63" using N63 by (metis of_nat_less_iff of_nat_numeral of_nat_power)
  moreover have "- (2 ^ 63) \<le> int k" for k by (rule order_trans [of _ 0]) simp_all
  ultimately obtain d where d: "to_d8 (tr_price m) (tr_price_scale m) = Some d" "i64_val d = int (N * 10 ^ (8 - length f))"
    using to_d8_exact [of "tr_price_scale m" "tr_price m"] assms(7) by (auto simp: v s simp del: of_nat_mult of_nat_power)
  then have "trw_price r = d" using assms(2) by (auto simp: trade_row_def Let_def bind_eq_Some_conv)
  moreover have "int N * 10 ^ (8 - length f) * 10 ^ length f = int N * 10 ^ 8"
    using assms(6,7) by (simp add: mult.assoc flip: power_add)
  ultimately show ?thesis unfolding N_def [symmetric] using d(2) by simp
qed

definition sample_spot_trade :: SpotTrade where
  "sample_spot_trade =
     \<lparr>stt_event_time_ms = 1000, stt_symbol = ''BTCUSDT'', stt_trade_id = 77, stt_price = ''65000.12'',
      stt_qty = ''0.0001'', stt_trade_time_ms = 1000, stt_is_buyer_maker = False\<rparr>"

theorem trade_price_stored_exactly_witness:
  "\<exists>m r. normalize_trade sample_spot_trade sample_inst sample_ctx 30 99 = Inr m \<and> trade_row m = Some r \<and>
     i64_val (trw_price r) * 10 ^ 2 = 6500012 * 10 ^ 8"
proof -
  have d: "all_digits ''65000''" "all_digits ''12''" "digits_val ''65000'' < 2 ^ 63" "digits_val ''6500012'' = 6500012"
    by (simp_all add: is_digit_def digit_val_def)
  have "decimal_scaled ''65000'' ''12'' 2 = 6500012" by (simp add: decimal_scaled_def digit_val_def)
  then have "parse_scaled ''65000.12'' 2 = Inr 6500012"
    using adapter_parse_scaled_decimal(1) [of "''65000''" "''12''" 2 InvalidDecimal Panic] d
    by (simp add: parse_scaled_def i64_of_int_def numeral_i64)
  then obtain m where m: "normalize_trade sample_spot_trade sample_inst sample_ctx 30 99 = Inr m"
      "tr_price_scale m = 2" "tr_qty_scale m = 5"
    by (simp add: normalize_trade_def sample_spot_trade_def sample_inst_def sample_parsed)
  obtain r where r: "trade_row m = Some r"
    using to_d8_defined [of "tr_price_scale m" "tr_price m"] to_d8_defined [of "tr_qty_scale m" "tr_qty m"] m(2,3)
    by (auto simp: trade_row_def Let_def)
  from trade_price_stored_exactly [OF m(1) r, of "''65000''" "''12''"] d m r show ?thesis
    by (auto simp: sample_spot_trade_def sample_inst_def digit_val_def)
qed

section \<open>Schema\<close>

fun row_table :: "bridge_row \<Rightarrow> string" where
  "row_table (Row_Trade _) = ''trades''"
| "row_table (Row_Bbo _) = ''best_bid_offers''"
| "row_table (Row_MarkPrice _) = ''mark_prices''"
| "row_table (Row_FundingRate _) = ''funding_rates''"
| "row_table (Row_Liquidation _) = ''liquidations''"
| "row_table (Row_OpenInterest _) = ''open_interest''"
| "row_table (Row_BookDelta _) = ''book_deltas''"
| "row_table (Row_Instrument _) = ''instruments''"

fun cell_fits :: "ch_type \<Rightarrow> cell \<Rightarrow> bool" where
  "cell_fits CH_Int64 (C_i64 _) = True"
| "cell_fits (CH_Decimal p s) (C_i64 _) = (p \<le> 18)"
| "cell_fits CH_UInt8 (C_u8 _) = True"
| "cell_fits CH_UInt32 (C_u32 _) = True"
| "cell_fits CH_UInt64 (C_u64 _) = True"
| "cell_fits CH_String (C_str _) = True"
| "cell_fits (CH_Array (CH_Decimal p s)) (C_vec _) = (p \<le> 18)"
| "cell_fits _ _ = False"


section \<open>Start-up\<close>

text \<open>C38: The wait ends with the first attempt that reaches the database, after \<open>n\<close> failures with
  the delays 1, 2, 4, 8, 16 and then 30 seconds, and its result is that of the check, which
  succeeds exactly when all required tables exist.\<close>

theorem wait_ends_with_first_answer:
  "wait_for_clickhouse database tables (map Inl errors @ Inr () # later) 1 =
      (map (\<lambda>k. min (2 ^ k) 30) [0..<length errors], Some (check_tables database tables)) \<and>
    wait_for_clickhouse database tables (map Inl errors) 1 =
      (map (\<lambda>k. min (2 ^ k) 30) [0..<length errors], None) \<and>
    (check_tables database tables = Inr () \<longleftrightarrow> (\<exists>found. tables = Inr found \<and> set REQUIRED_TABLES \<subseteq> set found))"
proof (intro conjI)
  have wait: "wait_for_clickhouse database tables (map Inl errors @ rest) (min (2 ^ j) 30) =
      (map (\<lambda>k. min (2 ^ (j + k)) 30) [0..<length errors] @
         fst (wait_for_clickhouse database tables rest (min (2 ^ (j + length errors)) 30)),
       snd (wait_for_clickhouse database tables rest (min (2 ^ (j + length errors)) 30)))" for rest j
  proof (induction errors arbitrary: j)
    case (Cons e errors)
    have d: "min (min (2 ^ j) 30 * 2) 30 = min (2 ^ Suc j) (30 :: nat)" by (auto simp: min_def)
    have "map (\<lambda>k. min (2 ^ (j + k)) (30 :: nat)) [0..<Suc n] =
        min (2 ^ j) 30 # map (\<lambda>k. min (2 ^ (Suc j + k)) 30) [0..<n]" for n
      by (simp add: upt_conv_Cons map_Suc_upt [symmetric] del: upt_Suc)
    then show ?case by (simp add: d Cons.IH [of "Suc j"] split_beta del: power_Suc upt_Suc)
  qed simp
  show "wait_for_clickhouse database tables (map Inl errors @ Inr () # later) 1 =
      (map (\<lambda>k. min (2 ^ k) 30) [0..<length errors], Some (check_tables database tables))"
    using wait [of "Inr () # later" 0] by simp
  show "wait_for_clickhouse database tables (map Inl errors) 1 =
      (map (\<lambda>k. min (2 ^ k) 30) [0..<length errors], None)"
    using wait [of "[]" 0] by simp
  show "check_tables database tables = Inr () \<longleftrightarrow> (\<exists>found. tables = Inr found \<and> set REQUIRED_TABLES \<subseteq> set found)"
    by (cases tables) (auto simp: check_tables_def Let_def filter_empty_conv)
qed

section \<open>Messages to rows\<close>

text \<open>The row a message becomes; None for the types that have no table.\<close>

definition message_row :: "normalized_message \<Rightarrow> bridge_row option" where
  "message_row msg =
     (case msg of
        NM_InstrumentDefinition m \<Rightarrow> map_option Row_Instrument (instrument_row m)
      | NM_Trade m \<Rightarrow> map_option Row_Trade (trade_row m)
      | NM_BestBidOffer m \<Rightarrow> map_option Row_Bbo (bbo_row m)
      | NM_MarkPrice m \<Rightarrow> map_option Row_MarkPrice (mark_price_row m)
      | NM_FundingRate m \<Rightarrow> map_option Row_FundingRate (funding_rate_row m)
      | NM_Liquidation m \<Rightarrow> map_option Row_Liquidation (liquidation_row m)
      | NM_OpenInterest m \<Rightarrow> map_option Row_OpenInterest (open_interest_row m)
      | NM_BookDelta m \<Rightarrow> map_option Row_BookDelta (book_delta_row m)
      | _ \<Rightarrow> None)"

text \<open>The scales a message is stored with, as bytes.\<close>

fun row_scales :: "normalized_message \<Rightarrow> u8 list" where
  "row_scales (NM_InstrumentDefinition m) = [ucast (id_price_scale m), ucast (id_qty_scale m)]"
| "row_scales (NM_Trade m) = [tr_price_scale m, tr_qty_scale m]"
| "row_scales (NM_BestBidOffer m) = [bbo_price_scale m, bbo_qty_scale m]"
| "row_scales (NM_MarkPrice m) = [mp_price_scale m]"
| "row_scales (NM_Liquidation m) = [lq_price_scale m, lq_qty_scale m]"
| "row_scales (NM_OpenInterest m) = [oi_qty_scale m]"
| "row_scales (NM_BookDelta m) = [bd_price_scale m, bd_qty_scale m]"
| "row_scales _ = []"

definition storable :: "normalized_message \<Rightarrow> bool" where
  "storable msg \<longleftrightarrow> (\<forall>s \<in> set (row_scales msg). unat s < 72)"

text \<open>An inserter of a database that takes every row: its table, and the rows written in order.\<close>

definition takes_rows :: "'i inserter_ops \<Rightarrow> ('i \<Rightarrow> string) \<Rightarrow> ('i \<Rightarrow> bridge_row list) \<Rightarrow> bool" where
  "takes_rows ops tbl taken \<longleftrightarrow>
     (\<forall>t n p. tbl (iop_open ops t n p) = t \<and> taken (iop_open ops t n p) = []) \<and>
     (\<forall>row i. tbl (snd (iop_write ops row i)) = tbl i \<and> taken (snd (iop_write ops row i)) = taken i @ [row]) \<and>
     (\<forall>i. tbl (snd (iop_commit ops i)) = tbl i \<and> taken (snd (iop_commit ops i)) = taken i) \<and>
     (\<forall>i. tbl (snd (iop_end ops i)) = tbl i \<and> taken (snd (iop_end ops i)) = taken i)"

definition isr_list :: "'i inserters \<Rightarrow> 'i list" where
  "isr_list s = [isr_trades s, isr_bbo s, isr_mark_price s, isr_funding s, isr_liquidation s,
     isr_open_interest s, isr_book_delta s, isr_instruments s]"

text \<open>The tables with their rows.\<close>

definition tables_of :: "('i \<Rightarrow> string) \<Rightarrow> ('i \<Rightarrow> bridge_row list) \<Rightarrow> 'i inserters \<Rightarrow> (string \<times> bridge_row list) list" where
  "tables_of tbl taken s = map (\<lambda>i. (tbl i, taken i)) (isr_list s)"

definition tables_with :: "bridge_row list \<Rightarrow> (string \<times> bridge_row list) list" where
  "tables_with rows = map (\<lambda>t. (t, filter (\<lambda>r. row_table r = t) rows)) REQUIRED_TABLES"

lemma tables_new: "takes_rows ops tbl taken \<Longrightarrow> tables_of tbl taken (isr_new ops n p) = tables_with []"
  by (simp add: takes_rows_def tables_of_def isr_list_def isr_new_def tables_with_def REQUIRED_TABLES_def)

lemma isr_all_rows:
  assumes "\<And>i. tbl (snd (call i)) = tbl i \<and> taken (snd (call i)) = taken i"
  shows "tables_of tbl taken (snd (isr_all call s)) = tables_of tbl taken s"
proof -
  have "tbl i' = tbl i \<and> taken i' = taken i" if "call i = (r, i')" for i r i'
    using assms [of i] that by simp
  then have step: "tables_of tbl taken (snd (isr_step call isr_trades isr_trades_update ts)) = tables_of tbl taken (snd ts)"
    "tables_of tbl taken (snd (isr_step call isr_bbo isr_bbo_update ts)) = tables_of tbl taken (snd ts)"
    "tables_of tbl taken (snd (isr_step call isr_mark_price isr_mark_price_update ts)) = tables_of tbl taken (snd ts)"
    "tables_of tbl taken (snd (isr_step call isr_funding isr_funding_update ts)) = tables_of tbl taken (snd ts)"
    "tables_of tbl taken (snd (isr_step call isr_liquidation isr_liquidation_update ts)) = tables_of tbl taken (snd ts)"
    "tables_of tbl taken (snd (isr_step call isr_open_interest isr_open_interest_update ts)) = tables_of tbl taken (snd ts)"
    "tables_of tbl taken (snd (isr_step call isr_book_delta isr_book_delta_update ts)) = tables_of tbl taken (snd ts)"
    "tables_of tbl taken (snd (isr_step call isr_instruments isr_instruments_update ts)) = tables_of tbl taken (snd ts)" for ts
    by (auto simp: isr_step_def tables_of_def isr_list_def split: prod.splits)
  show ?thesis by (simp add: isr_all_def step)
qed

lemma tables_commit:
  assumes "takes_rows ops tbl taken"
  shows "tables_of tbl taken (isr_commit ops s) = tables_of tbl taken s"
    "tables_of tbl taken (isr_end ops s) = tables_of tbl taken s"
  using assms unfolding isr_commit_def isr_end_def takes_rows_def by (simp_all add: isr_all_rows)

lemma those_defined: "unat s < 72 \<Longrightarrow> those (map (\<lambda>l. to_d8 (f l) s) xs) \<noteq> None"
  using to_d8_defined by (induction xs) (auto split: option.splits)

lemmas row_defs = trade_row_def bbo_row_def mark_price_row_def funding_rate_row_def liquidation_row_def
  open_interest_row_def book_delta_row_def instrument_row_def

lemma storable_rows:
  "storable (NM_InstrumentDefinition d) \<Longrightarrow> instrument_row d \<noteq> None"
  "storable (NM_Trade t) \<Longrightarrow> trade_row t \<noteq> None"
  "storable (NM_BestBidOffer b) \<Longrightarrow> bbo_row b \<noteq> None"
  "storable (NM_MarkPrice mp) \<Longrightarrow> mark_price_row mp \<noteq> None"
  "funding_rate_row f \<noteq> None"
  "storable (NM_Liquidation l) \<Longrightarrow> liquidation_row l \<noteq> None"
  "storable (NM_OpenInterest oi) \<Longrightarrow> open_interest_row oi \<noteq> None"
  "storable (NM_BookDelta bd) \<Longrightarrow> book_delta_row bd \<noteq> None"
  by (simp_all only: row_defs Let_def storable_def row_scales.simps list.set insert_iff empty_iff ball_simps simp_thms
      bind_eq_None_conv to_d8_defined those_defined option.distinct)

text \<open>The inserter of a row, and that every message with a row writes it there.\<close>

fun put_row :: "'i inserter_ops \<Rightarrow> bridge_row \<Rightarrow> 'i inserters \<Rightarrow> 'i inserters" where
  "put_row ops (Row_Trade r) s = s\<lparr>isr_trades := snd (iop_write ops (Row_Trade r) (isr_trades s))\<rparr>"
| "put_row ops (Row_Bbo r) s = s\<lparr>isr_bbo := snd (iop_write ops (Row_Bbo r) (isr_bbo s))\<rparr>"
| "put_row ops (Row_MarkPrice r) s =
     s\<lparr>isr_mark_price := snd (iop_write ops (Row_MarkPrice r) (isr_mark_price s))\<rparr>"
| "put_row ops (Row_FundingRate r) s =
     s\<lparr>isr_funding := snd (iop_write ops (Row_FundingRate r) (isr_funding s))\<rparr>"
| "put_row ops (Row_Liquidation r) s =
     s\<lparr>isr_liquidation := snd (iop_write ops (Row_Liquidation r) (isr_liquidation s))\<rparr>"
| "put_row ops (Row_OpenInterest r) s =
     s\<lparr>isr_open_interest := snd (iop_write ops (Row_OpenInterest r) (isr_open_interest s))\<rparr>"
| "put_row ops (Row_BookDelta r) s =
     s\<lparr>isr_book_delta := snd (iop_write ops (Row_BookDelta r) (isr_book_delta s))\<rparr>"
| "put_row ops (Row_Instrument r) s =
     s\<lparr>isr_instruments := snd (iop_write ops (Row_Instrument r) (isr_instruments s))\<rparr>"

lemma isr_write_put:
  "storable msg \<Longrightarrow>
   isr_write ops msg s = Some (case message_row msg of None \<Rightarrow> s | Some r \<Rightarrow> put_row ops r s)"
  using storable_rows
  by (cases msg) (force simp: isr_write_def message_row_def Let_def simp del: row_scales.simps)+

lemma put_row_rows:
  "takes_rows ops tbl taken \<Longrightarrow> tables_of tbl taken s = tables_with rows \<Longrightarrow>
   tables_of tbl taken (put_row ops r s) = tables_with (rows @ [r])"
  by (cases r) (simp_all add: takes_rows_def tables_of_def isr_list_def tables_with_def REQUIRED_TABLES_def)

lemma isr_write_rows:
  assumes "takes_rows ops tbl taken" "storable msg" "tables_of tbl taken s = tables_with rows"
  shows "\<exists>s'. isr_write ops msg s = Some s' \<and>
    tables_of tbl taken s' = tables_with (rows @ (case message_row msg of None \<Rightarrow> [] | Some r \<Rightarrow> [r]))"
  using isr_write_put [OF assms(2), of ops s] put_row_rows [OF assms(1,3)] assms(3)
  by (simp split: option.splits)

text \<open>The messages the loop takes from the channel before it is closed, and their rows.\<close>

fun received :: "bridge_event list \<Rightarrow> normalized_message list" where
  "received [] = []"
| "received (BV_Tick # evs) = received evs"
| "received (BV_Msg m # evs) = m # received evs"
| "received (BV_Closed # evs) = []"

definition rows_of :: "normalized_message list \<Rightarrow> bridge_row list" where
  "rows_of msgs = List.map_filter message_row msgs"

definition counted :: "bridge_counts \<Rightarrow> u64" where
  "counted c = bdc_instrument c + bdc_trade c + bdc_bbo c + bdc_mark_price c + bdc_funding c +
     bdc_liquidation c + bdc_open_interest c + bdc_book_delta c + bdc_other c"

lemma counted_count: "counted (count_msg m c) = counted c + 1" "bdc_decode_err (count_msg m c) = bdc_decode_err c"
  by (cases m; simp add: counted_def)+

lemma bdg_run_rows:
  assumes "takes_rows ops tbl taken"
  shows "\<forall>m \<in> set (received evs). storable m \<Longrightarrow>
    tables_of tbl taken (bdg_inserters b) = tables_with rows \<Longrightarrow>
    \<exists>b'. bdg_run ops evs b = Some b' \<and>
      tables_of tbl taken (bdg_inserters b') = tables_with (rows @ rows_of (received evs)) \<and>
      bdg_msgs_written b' = bdg_msgs_written b + word_of_nat (length (received evs)) \<and>
      counted (bdg_counts b') = counted (bdg_counts b) + word_of_nat (length (received evs)) \<and>
      bdc_decode_err (bdg_counts b') = bdc_decode_err (bdg_counts b)"
proof (induction evs arbitrary: b rows)
  case (Cons e evs)
  note commit = tables_commit [OF assms]
  show ?case
  proof (cases e)
    case BV_Tick
    with Cons.IH [of "bdg_tick ops b" rows] Cons.prems show ?thesis by (simp add: bdg_tick_def commit)
  next
    case BV_Closed
    with Cons.prems show ?thesis by (simp add: commit rows_of_def)
  next
    case (BV_Msg m)
    with Cons.prems isr_write_rows [OF assms, of m "bdg_inserters b" rows] obtain s where
      s: "isr_write ops m (bdg_inserters b) = Some s"
        "tables_of tbl taken s = tables_with (rows @ (case message_row m of None \<Rightarrow> [] | Some r \<Rightarrow> [r]))"
      by auto
    define b1 where "b1 = the (bdg_msg ops m b)"
    have b1: "bdg_msg ops m b = Some b1" "bdg_msgs_written b1 = bdg_msgs_written b + 1"
      "bdg_counts b1 = count_msg m (bdg_counts b)"
      "tables_of tbl taken (bdg_inserters b1) = tables_with (rows @ rows_of [m])"
      by (simp_all add: b1_def bdg_msg_def s(1) Let_def commit s(2) rows_of_def split: option.splits)
    have rows: "rows_of (received (e # evs)) = rows_of [m] @ rows_of (received evs)"
      by (simp add: BV_Msg rows_of_def split: option.splits)
    have run: "bdg_run ops (e # evs) b = bdg_run ops evs b1"
      and len: "length (received (e # evs)) = Suc (length (received evs))"
      and st: "\<forall>m \<in> set (received evs). storable m"
      using Cons.prems(1) by (simp_all add: BV_Msg b1(1))
    show ?thesis
      unfolding run rows len using Cons.IH [OF st b1(4)] by (simp add: b1(2,3) counted_count add.assoc)
  qed
qed (simp add: rows_of_def)

text \<open>C26: The bridge writes every message it receives before its channel closes, of a type that
  has a table and at a scale that can be converted, as one row of its table, in the order received;
  nothing else is written, no commit loses a row, and the counters account for every message,
  all decoding errors excepted, which it always reports as none.\<close>

theorem bridge_rows_exact:
  assumes "takes_rows ops tbl taken" "\<forall>m \<in> set (received evs). storable m"
  shows "\<exists>b. bdg_run ops evs (bdg_new ops batch_rows batch_secs) = Some b \<and>
    map (\<lambda>i. (tbl i, taken i)) (isr_list (bdg_inserters b)) =
      map (\<lambda>t. (t, filter (\<lambda>r. row_table r = t) (rows_of (received evs)))) REQUIRED_TABLES \<and>
    bdg_msgs_written b = word_of_nat (length (received evs)) \<and>
    counted (bdg_counts b) = bdg_msgs_written b \<and> bdc_decode_err (bdg_counts b) = 0"
proof -
  have "counted bdc_zero = 0" "bdc_decode_err bdc_zero = 0" by (simp_all add: counted_def bdc_zero_def)
  with bdg_run_rows [OF assms, of "bdg_new ops batch_rows batch_secs" "[]"] tables_new [OF assms(1), of batch_rows batch_secs]
  show ?thesis by (auto simp: bdg_new_def tables_of_def tables_with_def)
qed

text \<open>A database that takes every row.\<close>

definition open_database :: "(string \<times> bridge_row list) inserter_ops" where
  "open_database =
     \<lparr>iop_open = (\<lambda>t _ _. (t, [])), iop_write = (\<lambda>row (t, rows). (ChOk, (t, rows @ [row]))),
      iop_commit = Pair ChOk, iop_end = Pair ChOk\<rparr>"

lemma open_database_takes: "takes_rows open_database fst snd"
  by (simp add: takes_rows_def open_database_def split_beta)

theorem bridge_rows_exact_witness:
  "\<exists>b r. bdg_run open_database [BV_Msg (NM_BookDelta sample_delta), BV_Tick, BV_Msg (NM_GapDetected sample_gap), BV_Closed]
       (bdg_new open_database 10000 1) = Some b \<and>
     book_delta_row sample_delta = Some r \<and>
     isr_list (bdg_inserters b) = map (\<lambda>t. (t, filter (\<lambda>r. row_table r = t) [Row_BookDelta r])) REQUIRED_TABLES \<and>
     bdg_msgs_written b = 2"
proof -
  let ?evs = "[BV_Msg (NM_BookDelta sample_delta), BV_Tick, BV_Msg (NM_GapDetected sample_gap), BV_Closed]"
  have st: "\<forall>m \<in> set (received ?evs). storable m" by (simp add: storable_def sample_delta_def)
  then obtain r where r: "book_delta_row sample_delta = Some r" using storable_rows(8) [of sample_delta] by auto
  then have "rows_of (received ?evs) = [Row_BookDelta r]" by (simp add: rows_of_def message_row_def)
  with bridge_rows_exact [OF open_database_takes st, of 10000 1] r show ?thesis by auto
qed

section \<open>From the frames to the database\<close>

lemma poll_reads: "nm_from_bytes bytes = Inr m \<Longrightarrow> poll_fragment bytes = Some m"
  using header_decode_short by (fastforce simp: poll_fragment_def dest: nm_from_bytes_header)

lemma poll_all: "map nm_from_bytes new = map Inr msgs \<Longrightarrow> List.map_filter poll_fragment new = msgs"
proof (induction new arbitrary: msgs)
  case (Cons b bs)
  then show ?case by (cases msgs) (auto simp: poll_reads)
qed simp

lemma storable_stamp: "storable (nm_stamp t m) \<longleftrightarrow> storable m"
  by (cases m) (simp_all add: storable_def)

definition delivered :: "nat \<Rightarrow> nat \<Rightarrow> (i64 \<times> normalized_message) list \<Rightarrow> normalized_message list" where
  "delivered n room feed =
     map (\<lambda>(t, m). nm_stamp t m) (take room (filter (\<lambda>(t, m). length (nm_wire m) \<le> n) feed))"



end
