(* ===== verification/Observer.thy ===== *)
theory Observer
  imports Header Decimal Float64
begin

text \<open>
  The latency observer: \<open>bin/aeron-observer/src/main.rs\<close>. Samples per segment, their
  percentiles, the statistics of an interval and the poll loop. Clocks and the fragments of a
  poll are arguments; the layout of the printed table and the rounding in \<open>fmt_ns\<close> are not modelled,
  a report is the numbers that are printed.
\<close>

section \<open>Buckets\<close>

record latency_bucket =
  lb_samples :: "i64 list"

definition lb_new :: latency_bucket where
  "lb_new = \<lparr>lb_samples = []\<rparr>"

definition lb_push :: "i64 \<Rightarrow> latency_bucket \<Rightarrow> latency_bucket" where
  "lb_push ns b = (if 0 < ns then b\<lparr>lb_samples := lb_samples b @ [ns]\<rparr> else b)"

definition lb_rank :: "nat \<Rightarrow> f64 \<Rightarrow> nat" where
  "lb_rank n f =
     min (unat (f64_to_u64 (of_int \<lceil>f64_mult (f64_of_u64 (word_of_nat n)) f\<rceil>)) - 1) (n - 1)"

definition lb_percentiles :: "latency_bucket \<Rightarrow> (i64 \<times> i64 \<times> i64 \<times> i64) option \<times> latency_bucket" where
  "lb_percentiles b =
     (if lb_samples b = [] then (None, b)
      else
        let s = sort (lb_samples b); n = length s; p = \<lambda>f. s ! lb_rank n f in
        (Some (p (1 / 2), p (f64_round (99 / 100)), p (f64_round (999 / 1000)), last s),
         b\<lparr>lb_samples := s\<rparr>))"

definition lb_count :: "latency_bucket \<Rightarrow> nat" where
  "lb_count b = length (lb_samples b)"

definition lb_reset :: "latency_bucket \<Rightarrow> latency_bucket" where
  "lb_reset b = b\<lparr>lb_samples := []\<rparr>"

section \<open>Statistics of an interval\<close>

record interval_stats =
  ist_wire :: latency_bucket
  ist_encode :: latency_bucket
  ist_ipc :: latency_bucket
  ist_e2e :: latency_bucket
  ist_total_msgs :: u64
  ist_no_exchange_ts :: u64

definition ist_new :: interval_stats where
  "ist_new = \<lparr>ist_wire = lb_new, ist_encode = lb_new, ist_ipc = lb_new, ist_e2e = lb_new,
     ist_total_msgs = 0, ist_no_exchange_ts = 0\<rparr>"

definition ist_record :: "message_header \<Rightarrow> i64 \<Rightarrow> interval_stats \<Rightarrow> interval_stats" where
  "ist_record hdr observer_recv_ts s0 =
     (let s1 = s0\<lparr>ist_total_msgs := ist_total_msgs s0 + 1\<rparr>;
          s2 = s1\<lparr>ist_encode := lb_push (mh_local_publish_ts hdr - mh_local_recv_ts hdr) (ist_encode s1)\<rparr>;
          s3 = s2\<lparr>ist_ipc := lb_push (observer_recv_ts - mh_local_publish_ts hdr) (ist_ipc s2)\<rparr>
      in if mh_exchange_event_ts hdr \<noteq> TS_NONE then
           let s4 = s3\<lparr>ist_wire := lb_push (mh_local_recv_ts hdr - mh_exchange_event_ts hdr) (ist_wire s3)\<rparr>
           in s4\<lparr>ist_e2e := lb_push (observer_recv_ts - mh_exchange_event_ts hdr) (ist_e2e s4)\<rparr>
         else s3\<lparr>ist_no_exchange_ts := ist_no_exchange_ts s3 + 1\<rparr>)"

text \<open>A printed row: the percentiles and the number of samples, or none for an empty bucket.\<close>

type_synonym bucket_report = "((i64 \<times> i64 \<times> i64 \<times> i64) \<times> nat) option"

definition print_bucket :: "latency_bucket \<Rightarrow> bucket_report \<times> latency_bucket" where
  "print_bucket b =
     (case lb_percentiles b of
        (None, b') \<Rightarrow> (None, b')
      | (Some p, b') \<Rightarrow> (Some (p, lb_count b'), b'))"

record interval_report =
  irp_total_msgs :: u64
  irp_buckets :: "bucket_report list"
  irp_no_exchange_ts :: "u64 option"

definition print_and_reset :: "interval_stats \<Rightarrow> interval_report \<times> interval_stats" where
  "print_and_reset s =
     (let (wire, w) = print_bucket (ist_wire s); (encode, e) = print_bucket (ist_encode s);
          (ipc, i) = print_bucket (ist_ipc s); (e2e, o2) = print_bucket (ist_e2e s) in
      (\<lparr>irp_total_msgs = ist_total_msgs s, irp_buckets = [wire, encode, ipc, e2e],
        irp_no_exchange_ts =
          (if 0 < ist_no_exchange_ts s then Some (ist_no_exchange_ts s) else None)\<rparr>,
       \<lparr>ist_wire = lb_reset w, ist_encode = lb_reset e, ist_ipc = lb_reset i, ist_e2e = lb_reset o2,
        ist_total_msgs = 0, ist_no_exchange_ts = 0\<rparr>))"

text \<open>The loop over the reversed digits, with the position of the next one.\<close>

fun fmt_count_loop :: "nat \<Rightarrow> string \<Rightarrow> string" where
  "fmt_count_loop i [] = []"
| "fmt_count_loop i (c # cs) =
     (if 0 < i \<and> i mod 3 = 0 then CHR '','' # c # fmt_count_loop (i + 1) cs
      else c # fmt_count_loop (i + 1) cs)"

definition fmt_count :: "u64 \<Rightarrow> string" where
  "fmt_count n = rev (fmt_count_loop 0 (rev (dec_str (unat n))))"

section \<open>The poll loop\<close>

definition observe :: "u8 list \<times> i64 \<Rightarrow> interval_stats \<Rightarrow> interval_stats" where
  "observe fragment s =
     (let (bytes, obs_ts) = fragment in
      if length bytes < HEADER_SIZE then s
      else case header_decode bytes of Inr hdr \<Rightarrow> ist_record hdr obs_ts s | Inl _ \<Rightarrow> s)"

text \<open>
  A turn of the loop: the fragments of the poll with the time each is seen at, and the instant
  after it. Instants and the interval are nanoseconds since the start.
\<close>

fun observe_loop ::
  "nat \<Rightarrow> ((u8 list \<times> i64) list \<times> nat) list \<Rightarrow> nat \<Rightarrow> interval_stats \<Rightarrow>
   interval_report list \<times> interval_stats" where
  "observe_loop interval [] deadline s = ([], s)"
| "observe_loop interval ((fragments, now) # turns) deadline s =
     (let s1 = fold observe fragments s in
      if deadline \<le> now then
        let (report, s2) = print_and_reset s1;
            (reports, s3) = observe_loop interval turns (now + interval) s2
        in (report # reports, s3)
      else observe_loop interval turns deadline s1)"

end
