(* ===== verification/Observer_Properties.thy ===== *)
theory Observer_Properties
  imports Observer Connector_Properties
begin

text \<open>
  The properties of the observer: its percentiles are ordered samples, its intervals lose no
  message, its numbers read as they are, and the encode latency it reports is the one that the
  connector stamped into the bytes.
\<close>

section \<open>Percentiles\<close>

definition rank_of :: "nat \<Rightarrow> f64 \<Rightarrow> nat" where
  "rank_of n f = nat \<lceil>f64_round (of_nat n * f)\<rceil>"

lemma tiny_product:
  assumes "0 < n" "1 / 2 \<le> f"
  shows "F64_TINY \<le> of_nat n * f"
proof -
  have "1 * (1 / 2) \<le> of_nat n * f" using assms by (intro mult_mono) simp_all
  moreover have "F64_TINY \<le> 1 / 2"
  proof -
    have "(2 :: rat) powi (- 1000) \<le> 2 powi (- 1)" by (rule power_int_increasing) simp_all
    then show ?thesis by (simp add: F64_TINY_def power_int_def)
  qed
  ultimately show ?thesis by linarith
qed

lemma rank_of_mono: "0 < n \<Longrightarrow> 1 / 2 \<le> f \<Longrightarrow> f \<le> g \<Longrightarrow> rank_of n f \<le> rank_of n g"
  unfolding rank_of_def
  by (intro nat_mono ceiling_mono f64_round_mono tiny_product mult_left_mono) simp_all

lemma rank_of_1: "n < 2 ^ 53 \<Longrightarrow> rank_of n 1 = n"
  using f64_round_int [of "int n"] by (simp add: rank_of_def)

text \<open>For the fractions in use the rank of the code is the rounded one.\<close>

lemma lb_rank_eq:
  assumes "0 < n" "n < 2 ^ 53" "1 / 2 \<le> f" "f \<le> 1"
  shows "lb_rank n f = rank_of n f - 1 \<and> rank_of n f \<le> n"
proof -
  have le: "rank_of n f \<le> n" using rank_of_mono [OF assms(1,3,4)] rank_of_1 [OF assms(2)] by simp
  have "0 \<le> f64_round (of_nat n * f)"
    using f64_round_bounds(1) [OF tiny_product [OF assms(1,3)]] tiny_product [OF assms(1,3)] F64_TINY_pos by linarith
  then have c: "0 \<le> \<lceil>f64_round (of_nat n * f)\<rceil>" by simp
  with le have "\<lceil>f64_round (of_nat n * f)\<rceil> \<le> int n" by (simp add: rank_of_def)
  with c assms(2) have "unat (f64_to_u64 (of_int \<lceil>f64_round (of_nat n * f)\<rceil>)) = rank_of n f"
    by (simp add: f64_to_u64_def rank_of_def unat_eq_nat_uint unsigned_of_int take_bit_int_eq_self)
  moreover have "f64_of_u64 (word_of_nat n) = of_nat n"
    using assms(2) f64_round_int [of "int n"]
    by (simp add: f64_of_u64_def unsigned_of_nat take_bit_nat_eq_self)
  ultimately show ?thesis using le assms(1) by (simp add: lb_rank_def f64_mult_def)
qed

lemma round_fractions:
  "1 / 2 \<le> f64_round (99 / 100)" "f64_round (99 / 100) \<le> f64_round (999 / 1000)" "f64_round (999 / 1000) \<le> 1"
proof -
  have one: "f64_round 1 = 1" using f64_round_int [of 1] by simp
  have t: "F64_TINY \<le> 99 / 100" "F64_TINY \<le> 999 / 1000" "F64_TINY \<le> 1 / 2"
    using tiny_product [of 1 "99 / 100"] tiny_product [of 1 "999 / 1000"] tiny_product [of 1 "1 / 2"] by simp_all
  have half: "f64_round (1 / 2) = 1 / 2" using f64_round_half [of 1] t(3) one by simp
  show "1 / 2 \<le> f64_round (99 / 100)" using f64_round_mono [OF t(3), of "99 / 100"] half by simp
  show "f64_round (99 / 100) \<le> f64_round (999 / 1000)" using f64_round_mono [OF t(1), of "999 / 1000"] by simp
  show "f64_round (999 / 1000) \<le> 1" using f64_round_mono [OF t(2), of 1] one by simp
qed

lemma rank_of_half:
  assumes "0 < n" "n < 2 ^ 53"
  shows "rank_of n (1 / 2) = (n + 1) div 2"
proof -
  have "2 * F64_TINY \<le> of_nat n" using tiny_product [of n "1 / 2"] assms(1) by simp
  then have "f64_round (of_nat n / 2) = of_nat n / 2"
    using f64_round_half [of "of_nat n"] f64_round_int [of "int n"] assms(2) by simp
  moreover have "\<lceil>(of_nat n :: rat) / 2\<rceil> = int ((n + 1) div 2)"
    by (cases "even n") (auto elim!: evenE oddE intro!: ceiling_unique)
  moreover have "(of_nat n :: rat) * (1 / 2) = of_nat n / 2" by simp
  ultimately show ?thesis by (simp only: rank_of_def nat_int)
qed

text \<open>C29: The percentiles of a bucket are samples of it in order, from the median, the sample of
  rank half the number rounded up, to the greatest; reporting them only sorts the bucket.\<close>

theorem percentiles_ordered:
  assumes "lb_percentiles b = (r, b')" "lb_samples b \<noteq> []" "length (lb_samples b) < 2 ^ 53"
  shows "\<exists>p50 p99 p999 greatest. r = Some (p50, p99, p999, greatest) \<and>
    p50 = sort (lb_samples b) ! ((length (lb_samples b) + 1) div 2 - 1) \<and>
    p50 \<le> p99 \<and> p99 \<le> p999 \<and> p999 \<le> greatest \<and> {p50, p99, p999, greatest} \<subseteq> set (lb_samples b) \<and>
    (\<forall>x \<in> set (lb_samples b). x \<le> greatest) \<and> lb_samples b' = sort (lb_samples b)"
proof -
  let ?s = "sort (lb_samples b)" let ?n = "length ?s"
  let ?i = "lb_rank ?n (1 / 2)" let ?j = "lb_rank ?n (f64_round (99 / 100))" let ?k = "lb_rank ?n (f64_round (999 / 1000))"
  have n: "0 < ?n" "?n < 2 ^ 53" using assms(2,3) by simp_all
  note fr = round_fractions
  have rk: "?i = (?n + 1) div 2 - 1" "?i \<le> ?j" "?j \<le> ?k" "?k \<le> ?n - 1"
    using lb_rank_eq [OF n, of "1 / 2"] lb_rank_eq [OF n, of "f64_round (99 / 100)"]
      lb_rank_eq [OF n, of "f64_round (999 / 1000)"] rank_of_half [OF n]
      rank_of_mono [OF n(1), of "1 / 2" "f64_round (99 / 100)"]
      rank_of_mono [OF n(1), of "f64_round (99 / 100)" "f64_round (999 / 1000)"] fr
    by (simp_all add: diff_le_mono)
  have last: "last ?s = ?s ! (?n - 1)" by (metis last_conv_nth length_greater_0_conv n(1))
  have mono: "?s ! a \<le> ?s ! c" if "a \<le> c" "c \<le> ?n - 1" for a c
  proof -
    have "c < ?n" using that(2) n(1) by linarith
    then show ?thesis using sorted_nth_mono [of ?s a c] that(1) by simp
  qed
  have mem: "?s ! a \<in> set (lb_samples b)" if "a \<le> ?n - 1" for a
  proof -
    have "a < ?n" using that n(1) by linarith
    from nth_mem [OF this] show ?thesis by simp
  qed
  have "x \<le> last ?s" if "x \<in> set (lb_samples b)" for x
  proof -
    have "x \<in> set ?s" using that by simp
    then obtain a where "a < ?n" "x = ?s ! a" by (metis in_set_conv_nth)
    with mono [of a "?n - 1"] last show ?thesis by simp
  qed
  moreover have "r = Some (?s ! ?i, ?s ! ?j, ?s ! ?k, last ?s)" "lb_samples b' = ?s"
    using assms(1,2) by (auto simp: lb_percentiles_def Let_def)
  ultimately show ?thesis
    using rk mono mem last by (auto simp: mono mem)
qed

theorem percentiles_ordered_witness:
  "\<exists>p99 p999 greatest. fst (lb_percentiles \<lparr>lb_samples = [30, 10, 20]\<rparr>) = Some (20, p99, p999, greatest) \<and>
     20 \<le> p99 \<and> p999 \<le> greatest"
proof -
  have "insort_key id (30 :: i64) [] = [30]" by simp
  have s: "sort [30, 10, 20 :: i64] = [10, 20, 30]" by (simp add: eval_simps sort_key_def insort_key.simps)
  from percentiles_ordered [OF surjective_pairing, of "\<lparr>lb_samples = [30, 10, 20]\<rparr>"] s
  show ?thesis by (simp add: nth_Cons') blast
qed

section \<open>Numbers\<close>

lemma dec_str_digits: "c \<in> set (dec_str n) \<Longrightarrow> c \<noteq> CHR '',''"
proof (induction n rule: dec_str.induct)
  case (1 n)
  have digit: "char_of (48 + k) \<noteq> CHR '',''" if "k < 10" for k :: nat
  proof
    assume "char_of (48 + k) = CHR '',''"
    then have "of_char (char_of (48 + k) :: char) = (of_char (CHR '','') :: nat)" by simp
    then have "(48 + k) mod 256 = 44" by (simp only: of_char_of) simp
    with that show False by simp
  qed
  have last: "char_of (48 + n mod 10) \<noteq> CHR '',''" by (rule digit) simp
  show ?case
  proof (cases "n < 10")
    case True
    then have "dec_str n = [char_of (48 + n)]" by (simp add: dec_str.simps)
    with 1(2) have "c = char_of (48 + n)" by (simp only: list.set singleton_iff)
    then show ?thesis by (simp only: digit [OF True] not_False_eq_True)
  next
    case False
    then have "dec_str n = dec_str (n div 10) @ [char_of (48 + n mod 10)]" by (simp add: dec_str.simps [of n])
    with 1(2) have "c \<in> set (dec_str (n div 10)) \<or> c = char_of (48 + n mod 10)"
      by (simp only: set_append list.set Un_iff singleton_iff)
    then show ?thesis using 1(1) [OF False] last by (elim disjE) (simp_all only: not_False_eq_True)
  qed
qed

text \<open>The digits of the count with a comma between groups of three from the right.\<close>

lemma fmt_count_loop_digits:
  "(\<forall>c \<in> set s. c \<noteq> CHR '','') \<Longrightarrow> filter (\<lambda>c. c \<noteq> CHR '','') (fmt_count_loop i s) = s"
  by (induction s arbitrary: i) auto

lemma fmt_count_loop_length: "length (fmt_count_loop i s) = length s + ((i + length s - 1) div 3 - (i - 1) div 3)"
proof (induction s arbitrary: i)
  case (Cons c s)
  define A E where "A = (i - 1) div 3" and "E = (i + length s) div 3"
  have A: "i div 3 = A + (if 0 < i \<and> i mod 3 = 0 then 1 else 0)"
    unfolding A_def by (cases i) (simp_all add: div_Suc)
  have "i div 3 \<le> E" unfolding E_def by (intro div_le_mono) simp
  moreover have "length (fmt_count_loop (i + 1) s) = length s + (E - i div 3)"
    using Cons [of "i + 1"] by (simp add: E_def)
  moreover have "(i + length (c # s) - 1) div 3 = E" "(i - 1) div 3 = A" by (simp_all add: E_def A_def)
  ultimately show ?case unfolding A by (cases "0 < i \<and> i mod 3 = 0") (auto simp del: One_nat_def)
qed simp

lemma fmt_count_digits:
  "filter (\<lambda>c. c \<noteq> CHR '','') (fmt_count n) = dec_str (unat n) \<and>
    length (fmt_count n) = length (dec_str (unat n)) + (length (dec_str (unat n)) - 1) div 3"
  using fmt_count_loop_digits [of "rev (dec_str (unat n))" 0] dec_str_digits
  by (simp add: fmt_count_def rev_filter [symmetric] fmt_count_loop_length)

section \<open>Intervals\<close>

definition seen :: "u8 list \<times> i64 \<Rightarrow> bool" where
  "seen fragment \<longleftrightarrow> (\<exists>hdr. header_decode (fst fragment) = Inr hdr)"

lemma observe_seen:
  "observe f s = (case header_decode (fst f) of Inr hdr \<Rightarrow> ist_record hdr (snd f) s | Inl _ \<Rightarrow> s)"
  using header_decode_short [of "fst f"] by (auto simp: observe_def split_beta split: sum.splits)

lemma observe_total: "ist_total_msgs (observe f s) = ist_total_msgs s + (if seen f then 1 else 0)"
  by (auto simp: observe_seen seen_def ist_record_def Let_def split: sum.splits)

lemma fold_observe_total:
  "ist_total_msgs (fold observe fs s) = ist_total_msgs s + word_of_nat (length (filter seen fs))"
  by (induction fs arbitrary: s) (simp_all add: observe_total)

text \<open>Over any run of the poll loop the messages of the reports printed and those of the interval
  under way are all the fragments with a valid header, each counted once, wherever the interval
  ends fall.\<close>

theorem reports_count_all:
  "sum_list (map irp_total_msgs (fst (observe_loop interval turns deadline s))) +
     ist_total_msgs (snd (observe_loop interval turns deadline s)) =
   ist_total_msgs s + word_of_nat (length (filter seen (concat (map fst turns))))"
proof (induction interval turns deadline s rule: observe_loop.induct)
  case (2 interval fs now turns deadline s)
  show ?case
    using 2 fold_observe_total [of fs s]
    by (simp add: Let_def print_and_reset_def split_beta add_ac)
qed simp

section \<open>What is measured\<close>

lemma lb_push_samples: "lb_samples (lb_push x b) = lb_samples b @ (if 0 < x then [x] else [])"
  by (simp add: lb_push_def)

lemma observe_message:
  assumes "nm_from_bytes (fst f) = Inr m"
  shows "lb_samples (ist_encode (observe f s)) =
      lb_samples (ist_encode s) @ filter ((<) 0) [mh_local_publish_ts (nm_header m) - mh_local_recv_ts (nm_header m)]"
    "lb_samples (ist_wire (observe f s)) = lb_samples (ist_wire s) @
      filter ((<) 0) (if mh_exchange_event_ts (nm_header m) = TS_NONE then []
        else [mh_local_recv_ts (nm_header m) - mh_exchange_event_ts (nm_header m)])"
  using nm_from_bytes_header [OF assms]
  by (auto simp: observe_seen ist_record_def Let_def lb_push_samples)

lemma observe_messages:
  assumes "map (\<lambda>f. nm_from_bytes (fst f)) fs = map Inr msgs"
  shows "lb_samples (ist_encode (fold observe fs s)) = lb_samples (ist_encode s) @
      filter ((<) 0) (map (\<lambda>m. mh_local_publish_ts (nm_header m) - mh_local_recv_ts (nm_header m)) msgs)"
    "lb_samples (ist_wire (fold observe fs s)) = lb_samples (ist_wire s) @
      filter ((<) 0) (map (\<lambda>m. mh_local_recv_ts (nm_header m) - mh_exchange_event_ts (nm_header m))
        (filter (\<lambda>m. mh_exchange_event_ts (nm_header m) \<noteq> TS_NONE) msgs))"
  using assms
proof (induction fs arbitrary: s msgs)
  case (Cons f fs)
  case 1
  then obtain m ms where "msgs = m # ms" "nm_from_bytes (fst f) = Inr m" "map (\<lambda>f. nm_from_bytes (fst f)) fs = map Inr ms"
    by (cases msgs) auto
  with Cons(1) [of ms "observe f s"] observe_message(1) [of f m s] show ?case by simp
next
  case (Cons f fs)
  case 2
  then obtain m ms where "msgs = m # ms" "nm_from_bytes (fst f) = Inr m" "map (\<lambda>f. nm_from_bytes (fst f)) fs = map Inr ms"
    by (cases msgs) auto
  with Cons(2) [of ms "observe f s"] observe_message(2) [of f m s] show ?case by simp
qed simp_all

text \<open>C28: The encode latency that the observer reports is the connector's own: for the frames of a
  Spot connection, whenever the fragments arrive, its samples are the times from the receipt of a
  frame to the publish time stamped for its message, as far as these are positive, and its wire
  samples those from the exchange's event to the receipt.\<close>

theorem observer_measures_connector:
  assumes "tks_offer u = channel_offer" "instruments_fit (tks_inst_map u)"
    "spot_frames_fit json (map snd frames)"
    "map_of (sp_shards (pst_publisher (ctk_publish t))) (tks_shard_id u) = Some (BoxAeron p)"
    "cp_receiver_alive p" "cp_queue p = []"
    "spot_feed json (tks_inst_map u) (tks_ctx u) frames (ctk_seq t) = (feed, seq')"
  shows "\<exists>t' p'. spot_frames json u frames t = Some t' \<and>
    map_of (sp_shards (pst_publisher (ctk_publish t'))) (tks_shard_id u) = Some (BoxAeron p') \<and>
    (let accepted = take (cp_capacity p)
           (filter (\<lambda>(now, m). length (nm_wire m) \<le> length (pst_buf (ctk_publish t))) feed);
         stats = fold observe (map (\<lambda>b. (b, arrival b)) (cp_queue p')) ist_new in
     lb_samples (ist_encode stats) =
       filter ((<) 0) (map (\<lambda>(now, m). now - mh_local_recv_ts (nm_header m)) accepted) \<and>
     lb_samples (ist_wire stats) =
       filter ((<) 0) (map (\<lambda>(now, m). mh_local_recv_ts (nm_header m) - mh_exchange_event_ts (nm_header m))
         (filter (\<lambda>(now, m). mh_exchange_event_ts (nm_header m) \<noteq> TS_NONE) accepted)))"
proof -
  let ?acc = "take (cp_capacity p) (filter (\<lambda>(now, m). length (nm_wire m) \<le> length (pst_buf (ctk_publish t))) feed)"
  obtain t' p' where t': "spot_frames json u frames t = Some t'"
    "map_of (sp_shards (pst_publisher (ctk_publish t'))) (tks_shard_id u) = Some (BoxAeron p')"
    "map nm_from_bytes (cp_queue p') = read_back (length (pst_buf (ctk_publish t))) (cp_capacity p) feed"
    using spot_frames_published [OF assms(1-5,7)] assms(6) by auto
  have "map (\<lambda>f. nm_from_bytes (fst f)) (map (\<lambda>b. (b, arrival b)) (cp_queue p')) =
      map Inr (map (\<lambda>(now, m). nm_stamp now m) ?acc)"
    using t'(3) by (simp add: comp_def read_back_def split_def)
  from observe_messages [OF this, of ist_new] t'(1,2) show ?thesis
    by (auto simp: Let_def ist_new_def lb_new_def split_def comp_def filter_map header_stamp_def)
qed

theorem observer_measures_connector_witness:
  "\<exists>t' p'. spot_frames sample_json sample_setup sample_conn_frames sample_task = Some t' \<and>
     map_of (sp_shards (pst_publisher (ctk_publish t'))) 1 = Some (BoxAeron p') \<and>
     lb_samples (ist_encode (fold observe (map (\<lambda>b. (b, 170)) (cp_queue p')) ist_new)) = [51]"
proof -
  have fit: "spot_frames_fit sample_json (map snd sample_conn_frames)"
    by (simp add: spot_frames_fit_def sample_conn_frames_def sample_json_depth sample_depth_def u32_MAX_def)
  have len: "length (nm_wire (NM_BookDelta sample_delta)) \<le> 65536"
    by (simp add: BookDelta_wire_def sample_delta_def str_wire_def levels_wire_def level_wire_def HEADER_SIZE_56)
  have "mh_local_recv_ts (bd_header sample_delta) = 99" by (simp add: sample_delta_def make_header_def)
  moreover have "(0 :: i64) < 150 - 99" "(150 - 99 :: i64) = 51" by (simp_all add: eval_simps)
  ultimately show ?thesis
    using observer_measures_connector [OF sample_setup_fits(1,2) fit sample_setup_fits(3,4,6) sample_fed [folded sample_setup_fits(7)],
        of "\<lambda>_. 170"] sample_setup_fits len
    by (auto simp: sample_setup_def Let_def simp del: nm_wire.simps)
qed

end
