(* ===== verification/Futures_Guards.thy ===== *)
theory Futures_Guards
  imports Circuit_Breaker Recovery_Buffer
begin

text \<open>
  The guards of the Futures adapter: \<open>binance-futures-adapter/src\<close> has its own circuit breaker
  (circuit_breaker.rs) and recovery buffer (recovery_buffer.rs). They are modelled as they stand
  there, and every operation is that of the Spot adapter behind the map of their states.
\<close>

section \<open>Circuit breaker\<close>

definition FU_MAX_ATTEMPTS :: u32 where "FU_MAX_ATTEMPTS = 5"
definition FU_COOLDOWN_NS :: i64 where "FU_COOLDOWN_NS = 30000000000"

datatype futures_circuit_state = FuClosed | FuOpen (fu_retry_after_ns: i64)

definition fu_is_open :: "futures_circuit_state \<Rightarrow> bool" where
  "fu_is_open s \<longleftrightarrow> (case s of FuOpen _ \<Rightarrow> True | FuClosed \<Rightarrow> False)"

record futures_circuit_breaker =
  fcb_failures :: u32
  fcb_max_attempts :: u32
  fcb_cooldown_ns :: i64
  fcb_open_until :: "i64 option"

definition fcb_with_limits :: "u32 \<Rightarrow> i64 \<Rightarrow> futures_circuit_breaker" where
  "fcb_with_limits max_attempts cooldown_ns =
     \<lparr>fcb_failures = 0, fcb_max_attempts = max_attempts, fcb_cooldown_ns = cooldown_ns,
      fcb_open_until = None\<rparr>"

definition fcb_new :: futures_circuit_breaker where
  "fcb_new = fcb_with_limits FU_MAX_ATTEMPTS FU_COOLDOWN_NS"

definition fcb_check :: "i64 \<Rightarrow> futures_circuit_breaker \<Rightarrow> futures_circuit_state \<times> futures_circuit_breaker" where
  "fcb_check now_ns c =
     (case fcb_open_until c of
        Some until \<Rightarrow>
          if now_ns < until then (FuOpen until, c)
          else (FuClosed, c\<lparr>fcb_failures := 0, fcb_open_until := None\<rparr>)
      | None \<Rightarrow> (FuClosed, c))"

definition fcb_record_success :: "futures_circuit_breaker \<Rightarrow> futures_circuit_breaker" where
  "fcb_record_success c = c\<lparr>fcb_failures := 0, fcb_open_until := None\<rparr>"

definition fcb_record_failure :: "i64 \<Rightarrow> futures_circuit_breaker \<Rightarrow> bool \<times> futures_circuit_breaker" where
  "fcb_record_failure now_ns c =
     (if fcb_open_until c \<noteq> None then (False, c)
      else
        let c' = c\<lparr>fcb_failures := fcb_failures c + 1\<rparr> in
        if fcb_max_attempts c' \<le> fcb_failures c'
        then (True, c'\<lparr>fcb_open_until := Some (now_ns + fcb_cooldown_ns c')\<rparr>)
        else (False, c'))"

section \<open>Recovery buffer\<close>

definition FU_MAX_EVENTS :: nat where "FU_MAX_EVENTS = 2048"
definition FU_MAX_BYTES :: nat where "FU_MAX_BYTES = 4 * 1024 * 1024"
definition FU_MAX_AGE_NS :: i64 where "FU_MAX_AGE_NS = 10000000000"

record futures_buffered_delta =
  fbd_delta :: BookDelta
  fbd_recv_ts :: i64
  fbd_encoded_size :: nat

datatype futures_overflow_reason = FuAge | FuEventCount | FuByteSize

datatype futures_push_result = FuAccepted | FuOverflow futures_overflow_reason

record futures_recovery_buffer =
  frb_events :: "futures_buffered_delta list"
  frb_total_bytes :: nat
  frb_max_events :: nat
  frb_max_bytes :: nat
  frb_max_age_ns :: i64

definition frb_with_limits :: "nat \<Rightarrow> nat \<Rightarrow> i64 \<Rightarrow> futures_recovery_buffer" where
  "frb_with_limits max_events max_bytes max_age_ns =
     \<lparr>frb_events = [], frb_total_bytes = 0, frb_max_events = max_events,
      frb_max_bytes = max_bytes, frb_max_age_ns = max_age_ns\<rparr>"

definition frb_new :: futures_recovery_buffer where
  "frb_new = frb_with_limits FU_MAX_EVENTS FU_MAX_BYTES FU_MAX_AGE_NS"

definition frb_push ::
  "BookDelta \<Rightarrow> i64 \<Rightarrow> nat \<Rightarrow> futures_recovery_buffer \<Rightarrow> futures_push_result \<times> futures_recovery_buffer" where
  "frb_push delta recv_ts encoded_size b =
     (if (case frb_events b of
            [] \<Rightarrow> False
          | oldest # _ \<Rightarrow> frb_max_age_ns b < i64_saturating_sub recv_ts (fbd_recv_ts oldest))
        then (FuOverflow FuAge, b)
      else if frb_max_events b \<le> length (frb_events b) then (FuOverflow FuEventCount, b)
      else if frb_max_bytes b < usize_saturating_add (frb_total_bytes b) encoded_size
        then (FuOverflow FuByteSize, b)
      else (FuAccepted,
        b\<lparr>frb_total_bytes := frb_total_bytes b + encoded_size,
          frb_events := frb_events b @
            [\<lparr>fbd_delta = delta, fbd_recv_ts = recv_ts, fbd_encoded_size = encoded_size\<rparr>]\<rparr>))"

definition frb_drain_after :: "u64 \<Rightarrow> futures_recovery_buffer \<Rightarrow> futures_buffered_delta list \<times> futures_recovery_buffer" where
  "frb_drain_after snapshot_id b =
     (filter (\<lambda>e. snapshot_id < bd_final_update_id (fbd_delta e)) (frb_events b),
      b\<lparr>frb_events := [], frb_total_bytes := 0\<rparr>)"

definition frb_clear :: "futures_recovery_buffer \<Rightarrow> futures_recovery_buffer" where
  "frb_clear b = b\<lparr>frb_events := [], frb_total_bytes := 0\<rparr>"

definition frb_oldest_recv_ts :: "futures_recovery_buffer \<Rightarrow> i64 option" where
  "frb_oldest_recv_ts b = (case frb_events b of [] \<Rightarrow> None | e # _ \<Rightarrow> Some (fbd_recv_ts e))"

section \<open>The Spot guards behind them\<close>

definition fcb_abs :: "futures_circuit_breaker \<Rightarrow> circuit_breaker" where
  "fcb_abs c = \<lparr>cb_failures = fcb_failures c, cb_max_attempts = fcb_max_attempts c,
     cb_cooldown_ns = fcb_cooldown_ns c, cb_open_until = fcb_open_until c\<rparr>"

definition fstate_abs :: "futures_circuit_state \<Rightarrow> circuit_state" where
  "fstate_abs s = (case s of FuClosed \<Rightarrow> Closed | FuOpen t \<Rightarrow> Open t)"

lemma fcb_same:
  "fcb_abs fcb_new = cb_new"
  "map_prod fstate_abs fcb_abs (fcb_check t c) = cb_check t (fcb_abs c)"
  "fcb_abs (fcb_record_success c) = cb_record_success (fcb_abs c)"
  "map_prod id fcb_abs (fcb_record_failure t c) = cb_record_failure t (fcb_abs c)"
  by (auto simp: fcb_abs_def fstate_abs_def fcb_new_def fcb_with_limits_def cb_new_def cb_with_limits_def
      FU_MAX_ATTEMPTS_def FU_COOLDOWN_NS_def MAX_ATTEMPTS_def COOLDOWN_NS_def fcb_check_def cb_check_def
      fcb_record_success_def cb_record_success_def fcb_record_failure_def cb_record_failure_def Let_def
      split: option.splits)

definition fbd_abs :: "futures_buffered_delta \<Rightarrow> buffered_delta" where
  "fbd_abs e = \<lparr>bfd_delta = fbd_delta e, bfd_recv_ts = fbd_recv_ts e, bfd_encoded_size = fbd_encoded_size e\<rparr>"

definition frb_abs :: "futures_recovery_buffer \<Rightarrow> recovery_buffer" where
  "frb_abs b = \<lparr>rb_events = map fbd_abs (frb_events b), rb_total_bytes = frb_total_bytes b,
     rb_max_events = frb_max_events b, rb_max_bytes = frb_max_bytes b, rb_max_age_ns = frb_max_age_ns b\<rparr>"

fun fpush_abs :: "futures_push_result \<Rightarrow> push_result" where
  "fpush_abs FuAccepted = Accepted"
| "fpush_abs (FuOverflow FuAge) = Overflow Age"
| "fpush_abs (FuOverflow FuEventCount) = Overflow EventCount"
| "fpush_abs (FuOverflow FuByteSize) = Overflow ByteSize"

lemma frb_same:
  "frb_abs frb_new = rb_new"
  "map_prod fpush_abs frb_abs (frb_push d t n b) = rb_push d t n (frb_abs b)"
  "map_prod (map fbd_abs) frb_abs (frb_drain_after s b) = rb_drain_after s (frb_abs b)"
  "frb_abs (frb_clear b) = rb_clear (frb_abs b)"
  "frb_oldest_recv_ts b = rb_oldest_recv_ts (frb_abs b)"
  by (auto simp: frb_abs_def fbd_abs_def frb_new_def frb_with_limits_def rb_new_def rb_with_limits_def
      FU_MAX_EVENTS_def FU_MAX_BYTES_def FU_MAX_AGE_NS_def MAX_EVENTS_def MAX_BYTES_def MAX_AGE_NS_def
      frb_push_def rb_push_def rb_too_old_def frb_drain_after_def rb_drain_after_def filter_map comp_def
      frb_clear_def rb_clear_def frb_oldest_recv_ts_def rb_oldest_recv_ts_def split: list.splits)

text \<open>The limits carry over, and with them the contract of an event buffer.\<close>

definition frb_wf :: "futures_recovery_buffer \<Rightarrow> bool" where
  "frb_wf b \<longleftrightarrow> rb_wf (frb_abs b)"

definition frb_put :: "futures_buffered_delta \<Rightarrow> futures_recovery_buffer \<Rightarrow> bool \<times> futures_recovery_buffer" where
  "frb_put e b =
     (let (r, b') = frb_push (fbd_delta e) (fbd_recv_ts e) (fbd_encoded_size e) b in (r = FuAccepted, b'))"

interpretation frb: event_buffer frb_events frb_put "frb_drain_after s" frb_wf for s
proof
  fix e b b'
  show "frb_put e b = (True, b') \<Longrightarrow> frb_events b' = frb_events b @ [e]"
    by (auto simp: frb_put_def frb_push_def split: if_splits)
  show "frb_put e b = (False, b') \<Longrightarrow> b' = b"
    by (auto simp: frb_put_def frb_push_def split: if_splits)
  show "frb_events (snd (frb_drain_after s b)) = []" by (simp add: frb_drain_after_def)
  have "frb_abs (snd (frb_push d t n b)) = snd (rb_push d t n (frb_abs b))" for d t n
    using frb_same(2) [of d t n b] by (metis snd_map_prod)
  then show "frb_wf b \<Longrightarrow> frb_wf (snd (frb_put e b))"
    using rb_wf_push by (simp add: frb_wf_def frb_put_def split_beta)
  have "frb_abs (snd (frb_drain_after s b)) = snd (rb_drain_after s (frb_abs b))"
    using frb_same(3) [of s b] by (metis snd_map_prod)
  then show "frb_wf b \<Longrightarrow> frb_wf (snd (frb_drain_after s b))"
    using rb_wf_drain by (simp add: frb_wf_def)
qed

end
