(* ===== verification/Shard_Task.thy ===== *)
theory Shard_Task
  imports Shard_Engine Snapshot_Validator Spot_Normalizer Publication Config Sbe_Normalizer
begin

text \<open>
  The pipeline of a Spot shard, \<open>bin/connector/examples/spot_e2e.rs\<close>: the task that puts the
  normalizer, the validator, the book, the recovery buffer, the breaker, the BBO and the snapshot
  validators together. One input is one turn of the loop with the answers of the clock and the
  REST client it asks for; the publication behind the sharded publisher is an argument. The
  display of statistics is not modelled.
\<close>

section \<open>State\<close>

record shard_bbo =
  sbb_bid_price :: i64
  sbb_bid_qty :: i64
  sbb_ask_price :: i64
  sbb_ask_qty :: i64
  sbb_p_scale :: u32
  sbb_q_scale :: u32

record symbol_counters =
  ctr_total_msgs :: u64
  ctr_msgs_this_sec :: u64
  ctr_trade_count :: u64
  ctr_gap_count :: u64
  ctr_overflow_count :: u64
  ctr_recover_count :: u64
  ctr_bbo_stale_count :: u64
  ctr_snap_incompat :: u64
  ctr_bbo :: "shard_bbo option"

definition counters_default :: symbol_counters where
  "counters_default = \<lparr>ctr_total_msgs = 0, ctr_msgs_this_sec = 0, ctr_trade_count = 0, ctr_gap_count = 0,
     ctr_overflow_count = 0, ctr_recover_count = 0, ctr_bbo_stale_count = 0, ctr_snap_incompat = 0,
     ctr_bbo = None\<rparr>"

text \<open>What all symbols of a shard share: the sequence counter, the encode buffer, the publisher.\<close>

record 'p shard_io =
  sio_seq :: u64
  sio_buf :: "u8 list"
  sio_publisher :: "'p sharded_publisher"

record 'p shard_setup =
  shs_offer :: "'p offer"
  shs_shard_id :: u32
  shs_ctx :: normalize_ctx

text \<open>What a step on one symbol works on.\<close>

type_synonym 'p symbol_work = "symbol_state \<times> symbol_counters \<times> 'p shard_io"

section \<open>Publishing\<close>

definition ctrl_hdr ::
  "message_type \<Rightarrow> normalize_ctx \<Rightarrow> InstrumentDefinition \<Rightarrow> i64 \<Rightarrow> u64 \<Rightarrow> message_header \<times> u64" where
  "ctrl_hdr msg_type ctx inst ts seq =
     (let seq' = seq + 1 in
      (\<lparr>mh_schema_version = SCHEMA_VERSION, mh_message_type = msg_type,
        mh_venue_id = nc_venue_id ctx, mh_market_type = nc_market_type ctx,
        mh_instrument_id = mh_instrument_id (id_header inst),
        mh_connection_id = nc_connection_id ctx, mh_instance_id = nc_instance_id ctx,
        mh_sequence_number = seq', mh_exchange_event_ts = TS_NONE, mh_exchange_tx_ts = TS_NONE,
        mh_local_recv_ts = ts, mh_local_publish_ts = ts\<rparr>, seq'))"

definition shard_hdr :: "message_type \<Rightarrow> normalize_ctx \<Rightarrow> i64 \<Rightarrow> u64 \<Rightarrow> message_header \<times> u64" where
  "shard_hdr msg_type ctx ts seq =
     (let seq' = seq + 1 in
      (\<lparr>mh_schema_version = SCHEMA_VERSION, mh_message_type = msg_type,
        mh_venue_id = nc_venue_id ctx, mh_market_type = nc_market_type ctx, mh_instrument_id = 0,
        mh_connection_id = nc_connection_id ctx, mh_instance_id = nc_instance_id ctx,
        mh_sequence_number = seq', mh_exchange_event_ts = TS_NONE, mh_exchange_tx_ts = TS_NONE,
        mh_local_recv_ts = ts, mh_local_publish_ts = ts\<rparr>, seq'))"

text \<open>\<open>if let Ok(n) = msg.encode_into(&mut encode_buf) { let _ = publisher.offer(..) }\<close>\<close>

definition offer_bytes :: "'p shard_setup \<Rightarrow> nat \<Rightarrow> 'p shard_io \<Rightarrow> 'p shard_io" where
  "offer_bytes u n io =
     io\<lparr>sio_publisher :=
        snd (sp_offer (shs_offer u) (shs_shard_id u) (take n (sio_buf io)) (sio_publisher io))\<rparr>"

definition offer_message :: "'p shard_setup \<Rightarrow> normalized_message \<Rightarrow> 'p shard_io \<Rightarrow> 'p shard_io" where
  "offer_message u msg io =
     (case nm_encode_into msg (sio_buf io) of
        (Inl _, buf) \<Rightarrow> io\<lparr>sio_buf := buf\<rparr>
      | (Inr n, buf) \<Rightarrow> offer_bytes u n (io\<lparr>sio_buf := buf\<rparr>))"

definition offer_ctrl ::
  "'p shard_setup \<Rightarrow> message_type \<Rightarrow> (message_header \<Rightarrow> normalized_message) \<Rightarrow> InstrumentDefinition \<Rightarrow>
   i64 \<Rightarrow> 'p shard_io \<Rightarrow> 'p shard_io" where
  "offer_ctrl u msg_type msg inst ts io =
     (let (hdr, seq) = ctrl_hdr msg_type (shs_ctx u) inst ts (sio_seq io) in
      offer_message u (msg hdr) (io\<lparr>sio_seq := seq\<rparr>))"

definition set_feed_state :: "'p shard_setup \<Rightarrow> feed_state \<Rightarrow> i64 \<Rightarrow> 'p symbol_work \<Rightarrow> 'p symbol_work" where
  "set_feed_state u new ts w =
     (let (s, c, io) = w in
      if ss_feed_state s = new then w
      else (s\<lparr>ss_feed_state := new\<rparr>, c,
        offer_ctrl u MT_FeedStatus (\<lambda>hdr. NM_FeedStatus \<lparr>fs_header = hdr, fs_state = new\<rparr>) (ss_inst s) ts io))"

definition offer_gap :: "'p shard_setup \<Rightarrow> u64 \<Rightarrow> u64 \<Rightarrow> i64 \<Rightarrow> 'p symbol_work \<Rightarrow> 'p symbol_work" where
  "offer_gap u expected actual ts w =
     (let (s, c, io) = w in
      (s, c, offer_ctrl u MT_GapDetected (\<lambda>hdr. NM_GapDetected \<lparr>gd_header = hdr,
         gd_symbol = id_symbol (ss_inst s), gd_expected_update_id = expected,
         gd_received_update_id = actual\<rparr>) (ss_inst s) ts io))"

definition mark_book_stale :: "'p shard_setup \<Rightarrow> book_stale_reason \<Rightarrow> i64 \<Rightarrow> 'p symbol_work \<Rightarrow> 'p symbol_work" where
  "mark_book_stale u reason ts w =
     (let (s, c, io) = w; s' = s\<lparr>ss_book := mark_stale reason (ss_book s)\<rparr> in
      (s', c, offer_ctrl u MT_BookStale (\<lambda>hdr. NM_BookStale \<lparr>bst_header = hdr,
         bst_symbol = id_symbol (ss_inst s'), bst_reason = reason\<rparr>) (ss_inst s') ts io))"

section \<open>Recovery\<close>

definition push_to_recovery ::
  "BookDelta \<Rightarrow> i64 \<Rightarrow> nat \<Rightarrow> recovery_buffer \<Rightarrow> u64 \<Rightarrow> bool \<times> recovery_buffer \<times> u64" where
  "push_to_recovery delta recv_ts encoded_size buf overflow_count =
     (case rb_push delta recv_ts encoded_size buf of
        (Accepted, buf') \<Rightarrow> (False, buf', overflow_count)
      | (Overflow _, buf') \<Rightarrow> (True, rb_clear buf', overflow_count + 1))"

text \<open>Buffering a delta; the answer says whether the breaker opened over an overflow.\<close>

definition buffer_delta ::
  "'p shard_setup \<Rightarrow> BookDelta \<Rightarrow> i64 \<Rightarrow> nat \<Rightarrow> i64 \<Rightarrow> 'p symbol_work \<Rightarrow> 'p symbol_work" where
  "buffer_delta u bd recv_ts encoded_len now w =
     (let (s, c, io) = w;
          (overflowed, buf, n) =
            push_to_recovery bd recv_ts encoded_len (ss_recovery_buf s) (ctr_overflow_count c);
          s1 = s\<lparr>ss_recovery_buf := buf\<rparr>;
          c1 = c\<lparr>ctr_overflow_count := n\<rparr>
      in if overflowed then
           let (opened, circuit) = cb_record_failure now (ss_circuit s1);
               w2 = (s1\<lparr>ss_circuit := circuit\<rparr>, c1, io)
           in if opened then set_feed_state u FS_Degraded now w2 else w2
         else (s1, c1, io))"

definition recovery_succeeded :: "'p shard_setup \<Rightarrow> u64 \<Rightarrow> i64 \<Rightarrow> 'p symbol_work \<Rightarrow> 'p symbol_work" where
  "recovery_succeeded u snap_id now w =
     (let (s, c, io) = w;
          s1 = s\<lparr>ss_circuit := cb_record_success (ss_circuit s),
                 ss_bbo_validator := bv_clear (ss_bbo_validator s)\<rparr>;
          c1 = c\<lparr>ctr_recover_count := ctr_recover_count c + 1\<rparr>
      in set_feed_state u FS_Live now (s1, c1,
           offer_ctrl u MT_BookRecovered (\<lambda>hdr. NM_BookRecovered \<lparr>br_header = hdr,
             br_symbol = id_symbol (ss_inst s1), br_snapshot_update_id = snap_id\<rparr>) (ss_inst s1) now io))"

text \<open>
  A failed attempt: after a gap the feed falls back to \<open>Stale\<close> unless the breaker opened, the
  retry of the ticker leaves it where it is.
\<close>

definition recovery_failed :: "'p shard_setup \<Rightarrow> bool \<Rightarrow> i64 \<Rightarrow> 'p symbol_work \<Rightarrow> 'p symbol_work" where
  "recovery_failed u after_gap now w =
     (let (s, c, io) = w;
          (opened, circuit) = cb_record_failure now (ss_circuit s);
          w1 = (s\<lparr>ss_circuit := circuit\<rparr>, c, io)
      in if opened then set_feed_state u FS_Degraded now w1
         else if after_gap then set_feed_state u FS_Stale now w1
         else w1)"

definition attempt_recovery ::
  "'p shard_setup \<Rightarrow> bool \<Rightarrow> i64 \<Rightarrow> 'e + BookSnapshot \<Rightarrow> 'p symbol_work \<Rightarrow> 'p symbol_work" where
  "attempt_recovery u after_gap now fetch_result w =
     (let w1 = set_feed_state u FS_Recovering now w in
      case fetch_result of
        Inr snapshot \<Rightarrow>
          (case w1 of (s, c, io) \<Rightarrow>
           case apply_spot_snapshot snapshot (ss_book s) (ss_validator s) (ss_recovery_buf s) of
             (r, book, validator, buf) \<Rightarrow>
               let w2 = (s\<lparr>ss_book := book, ss_validator := validator, ss_recovery_buf := buf\<rparr>, c, io) in
               case (r :: 'e spot_recovery_error + recovery_outcome) of
                 Inr outcome \<Rightarrow> recovery_succeeded u (ro_snapshot_id outcome) now w2
               | Inl _ \<Rightarrow> recovery_failed u after_gap now w2)
      | Inl _ \<Rightarrow> recovery_failed u after_gap now w1)"

section \<open>Ticks\<close>

definition tick_recover :: "'p shard_setup \<Rightarrow> i64 \<Rightarrow> 'e + BookSnapshot \<Rightarrow> 'p symbol_work \<Rightarrow> 'p symbol_work" where
  "tick_recover u now fetch_result w =
     (let (s, c, io) = w; (state, circuit) = cb_check now (ss_circuit s);
          w1 = (s\<lparr>ss_circuit := circuit\<rparr>, c, io)
      in if state = Closed then attempt_recovery u False now fetch_result w1 else w1)"

definition validate_symbol :: "'p shard_setup \<Rightarrow> i64 \<Rightarrow> 'e + BookSnapshot \<Rightarrow> 'p symbol_work \<Rightarrow> 'p symbol_work" where
  "validate_symbol u now fetch_result w =
     (case fetch_result of
        Inl _ \<Rightarrow> w
      | Inr snapshot \<Rightarrow>
          (let (s, c, io) = w in
           case check_snapshot (book_bids (ss_book s)) (book_asks (ss_book s)) snapshot sc_default of
             Compatible \<Rightarrow> w
           | Incompatible _ _ _ \<Rightarrow>
               set_feed_state u FS_Stale now (mark_book_stale u BSR_SnapshotIncompatible now
                 (s, c\<lparr>ctr_snap_incompat := ctr_snap_incompat c + 1\<rparr>, io))))"

section \<open>Frames\<close>

fun symbol_from_event :: "spot_event \<Rightarrow> string option" where
  "symbol_from_event (SE_BookTicker b) = Some (sbt_symbol b)"
| "symbol_from_event (SE_DepthUpdate d) = Some (sdu_symbol d)"
| "symbol_from_event (SE_Trade t) = Some (stt_symbol t)"
| "symbol_from_event (SE_Unknown _) = None"

text \<open>The start-up seed: the first delta is taken to follow a snapshot at the id before it.\<close>

definition seed_validator :: "BookDelta \<Rightarrow> symbol_state \<Rightarrow> symbol_state" where
  "seed_validator bd s =
     (if sv_last_valid_id (ss_validator s) = None
      then s\<lparr>ss_validator := sv_on_snapshot (if bd_first_update_id bd = 0 then 0 else bd_first_update_id bd - 1)
               (ss_validator s)\<rparr>
      else s)"

definition handle_gap ::
  "'p shard_setup \<Rightarrow> BookDelta \<Rightarrow> u64 \<Rightarrow> u64 \<Rightarrow> i64 \<Rightarrow> nat \<Rightarrow> i64 \<Rightarrow> 'e + BookSnapshot \<Rightarrow>
   'p symbol_work \<Rightarrow> 'p symbol_work" where
  "handle_gap u bd expected actual recv_ts encoded_len now fetch_result w =
     (let (s, c, io) = w;
          w1 = offer_gap u expected actual recv_ts (s, c\<lparr>ctr_gap_count := ctr_gap_count c + 1\<rparr>, io);
          w2 = mark_book_stale u BSR_SequenceGap recv_ts w1;
          (s3, c3, io3) = buffer_delta u bd recv_ts encoded_len now w2;
          (state, circuit) = cb_check now (ss_circuit s3);
          w4 = (s3\<lparr>ss_circuit := circuit\<rparr>, c3, io3)
      in if state \<noteq> Closed then set_feed_state u FS_Degraded now w4
         else attempt_recovery u True now fetch_result w4)"

definition handle_delta ::
  "'p shard_setup \<Rightarrow> BookDelta \<Rightarrow> i64 \<Rightarrow> nat \<Rightarrow> i64 \<Rightarrow> 'e + BookSnapshot \<Rightarrow> 'p symbol_work \<Rightarrow> 'p symbol_work" where
  "handle_delta u bd recv_ts encoded_len now fetch_result w =
     (let (s0, c, io) = w; s = seed_validator bd s0;
          (r, validator) = sv_validate (bd_first_update_id bd) (bd_final_update_id bd) (ss_validator s);
          s1 = s\<lparr>ss_validator := validator\<rparr>
      in case r of
           SV_Apply \<Rightarrow>
             let w2 = (s1\<lparr>ss_book := apply_delta bd (ss_book s1)\<rparr>, c, io) in
             if ss_feed_state s1 = FS_Connecting then set_feed_state u FS_Live recv_ts w2 else w2
         | SV_Discard \<Rightarrow> (s1, c, io)
         | SV_Buffering \<Rightarrow> buffer_delta u bd recv_ts encoded_len now (s1, c, io)
         | SV_Gap expected actual _ \<Rightarrow>
             handle_gap u bd expected actual recv_ts encoded_len now fetch_result (s1, c, io))"

definition handle_bbo :: "'p shard_setup \<Rightarrow> BestBidOffer \<Rightarrow> i64 \<Rightarrow> 'p symbol_work \<Rightarrow> 'p symbol_work" where
  "handle_bbo u b recv_ts w =
     (let (s, c, io) = w;
          c1 = c\<lparr>ctr_bbo := Some \<lparr>sbb_bid_price = bbo_bid_price b, sbb_bid_qty = bbo_bid_qty b,
                 sbb_ask_price = bbo_ask_price b, sbb_ask_qty = bbo_ask_qty b,
                 sbb_p_scale = id_price_scale (ss_inst s), sbb_q_scale = id_qty_scale (ss_inst s)\<rparr>\<rparr>
      in if ob_stale (ss_book s)
         then (s\<lparr>ss_bbo_validator := bv_clear (ss_bbo_validator s)\<rparr>, c1, io)
         else
           let (r, v) = bv_check recv_ts (map_option pl_price (best_bid (ss_book s)))
                 (map_option pl_price (best_ask (ss_book s))) (bbo_bid_price b) (bbo_ask_price b)
                 (ss_bbo_validator s);
               s1 = s\<lparr>ss_bbo_validator := v\<rparr>
           in case r of
                BboOk \<Rightarrow> (s1, c1, io)
              | Degrade _ \<Rightarrow> set_feed_state u FS_Degraded recv_ts (s1, c1, io)
              | MarkStale _ \<Rightarrow>
                  let c2 = c1\<lparr>ctr_bbo_stale_count := ctr_bbo_stale_count c1 + 1\<rparr>;
                      s2 = s1\<lparr>ss_bbo_validator := bv_clear (ss_bbo_validator s1)\<rparr>
                  in set_feed_state u FS_Stale recv_ts
                       (mark_book_stale u BSR_BboMismatch recv_ts (s2, c2, io)))"

text \<open>Counting, the dispatch by type and the offer of the first \<open>encoded_len\<close> bytes of the buffer.\<close>

definition handle_message ::
  "'p shard_setup \<Rightarrow> normalized_message \<Rightarrow> i64 \<Rightarrow> nat \<Rightarrow> i64 \<Rightarrow> 'e + BookSnapshot \<Rightarrow>
   'p symbol_work \<Rightarrow> 'p symbol_work" where
  "handle_message u msg recv_ts encoded_len now fetch_result w =
     (let (s, c, io) = w;
          w1 = (s, c\<lparr>ctr_total_msgs := ctr_total_msgs c + 1,
                     ctr_msgs_this_sec := ctr_msgs_this_sec c + 1\<rparr>, io);
          (s2, c2, io2) =
            (case msg of
               NM_BookDelta bd \<Rightarrow> handle_delta u bd recv_ts encoded_len now fetch_result w1
             | NM_BestBidOffer b \<Rightarrow> handle_bbo u b recv_ts w1
             | NM_Trade _ \<Rightarrow> (case w1 of (s, c, io) \<Rightarrow> (s, c\<lparr>ctr_trade_count := ctr_trade_count c + 1\<rparr>, io))
             | _ \<Rightarrow> w1)
      in (s2, c2, offer_bytes u encoded_len io2))"

section \<open>The task\<close>

record 'p shard_task =
  stk_engine :: shard_engine
  stk_counters :: "(string, symbol_counters) hash_map"
  stk_heartbeater :: heartbeater
  stk_io :: "'p shard_io"

text \<open>A step on one symbol: \<open>engine.get_mut(symbol)\<close> and \<open>counters.entry(symbol).or_default()\<close>.\<close>

definition at_symbol ::
  "string \<Rightarrow> ('p symbol_work \<Rightarrow> 'p symbol_work) \<Rightarrow> 'p shard_task \<Rightarrow> 'p shard_task" where
  "at_symbol symbol f t =
     (case se_get symbol (stk_engine t) of
        None \<Rightarrow> t
      | Some s \<Rightarrow>
          (let c = (case map_of (stk_counters t) symbol of Some c \<Rightarrow> c | None \<Rightarrow> counters_default);
               (s', c', io') = f (s, c, stk_io t)
           in t\<lparr>stk_engine := se_get_mut symbol (\<lambda>_. s') (stk_engine t),
                stk_counters := AList.update symbol c' (stk_counters t), stk_io := io'\<rparr>))"

definition on_frame ::
  "'j spot_json \<Rightarrow> 'p shard_setup \<Rightarrow> raw_frame \<Rightarrow> i64 \<Rightarrow> 'e + BookSnapshot \<Rightarrow> 'p shard_task \<Rightarrow> 'p shard_task" where
  "on_frame json u frame now fetch_result t =
     (case parse_spot_message json (rf_payload frame) of
        Inl _ \<Rightarrow> t
      | Inr event \<Rightarrow>
          (case symbol_from_event event of
             None \<Rightarrow> t
           | Some symbol \<Rightarrow>
               (case se_get symbol (stk_engine t) of
                  None \<Rightarrow> t
                | Some s \<Rightarrow>
                    (case normalize_spot_event event (ss_inst s) (shs_ctx u) (rf_recv_ts frame)
                            (sio_seq (stk_io t)) of
                       (Inr (Some msg), seq) \<Rightarrow>
                         (case nm_encode_into msg (sio_buf (stk_io t)) of
                            (Inl _, buf) \<Rightarrow> t\<lparr>stk_io := (stk_io t)\<lparr>sio_seq := seq, sio_buf := buf\<rparr>\<rparr>
                          | (Inr encoded_len, buf) \<Rightarrow>
                              at_symbol symbol
                                (handle_message u msg (rf_recv_ts frame) encoded_len now fetch_result)
                                (t\<lparr>stk_io := (stk_io t)\<lparr>sio_seq := seq, sio_buf := buf\<rparr>\<rparr>))
                     | (_, seq) \<Rightarrow> t\<lparr>stk_io := (stk_io t)\<lparr>sio_seq := seq\<rparr>\<rparr>))))"

definition shard_heartbeat :: "'p shard_setup \<Rightarrow> i64 \<Rightarrow> 'p shard_task \<Rightarrow> 'p shard_task" where
  "shard_heartbeat u now t =
     (if hbt_is_due now (stk_heartbeater t) then
        let (hdr, seq) = shard_hdr MT_Heartbeat (shs_ctx u) now (sio_seq (stk_io t)) in
        t\<lparr>stk_io := offer_message u (NM_Heartbeat \<lparr>hb_header = hdr\<rparr>) ((stk_io t)\<lparr>sio_seq := seq\<rparr>),
          stk_heartbeater := hbt_record_beat now (stk_heartbeater t)\<rparr>
      else t)"

definition on_tick :: "'p shard_setup \<Rightarrow> i64 \<Rightarrow> (string \<Rightarrow> 'e + BookSnapshot) \<Rightarrow> 'p shard_task \<Rightarrow> 'p shard_task" where
  "on_tick u now fetch t =
     (let stale_syms = map fst (filter (\<lambda>(_, s). ss_is_stale s) (se_symbols (stk_engine t)));
          t1 = fold (\<lambda>symbol. at_symbol symbol (tick_recover u now (fetch symbol))) stale_syms t;
          t2 = t1\<lparr>stk_counters :=
                 map (\<lambda>(symbol, c). (symbol, c\<lparr>ctr_msgs_this_sec := 0\<rparr>)) (stk_counters t1)\<rparr>
      in shard_heartbeat u now t2)"

definition on_validation_tick ::
  "'p shard_setup \<Rightarrow> (string \<Rightarrow> i64) \<Rightarrow> (string \<Rightarrow> 'e + BookSnapshot) \<Rightarrow> 'p shard_task \<Rightarrow> 'p shard_task" where
  "on_validation_tick u clock fetch t =
     (let live_syms = map fst (filter (\<lambda>(_, s). \<not> ss_is_stale s \<and> 0 < bid_depth (ss_book s) \<and>
            0 < ask_depth (ss_book s)) (se_symbols (stk_engine t)))
      in fold (\<lambda>symbol. at_symbol symbol (validate_symbol u (clock symbol) (fetch symbol))) live_syms t)"

text \<open>One turn of the loop, and the loop up to the shutdown or the end of the channel.\<close>

datatype 'e shard_input =
    In_Shutdown bool
  | In_Tick i64 "string \<Rightarrow> 'e + BookSnapshot"
  | In_Validation "string \<Rightarrow> i64" "string \<Rightarrow> 'e + BookSnapshot"
  | In_Frame raw_frame i64 "'e + BookSnapshot"
  | In_Closed

fun run_shard :: "'j spot_json \<Rightarrow> 'p shard_setup \<Rightarrow> 'e shard_input list \<Rightarrow> 'p shard_task \<Rightarrow> 'p shard_task" where
  "run_shard json u [] t = t"
| "run_shard json u (In_Shutdown stop # xs) t = (if stop then t else run_shard json u xs t)"
| "run_shard json u (In_Tick now fetch # xs) t = run_shard json u xs (on_tick u now fetch t)"
| "run_shard json u (In_Validation clock fetch # xs) t =
     run_shard json u xs (on_validation_tick u clock fetch t)"
| "run_shard json u (In_Frame frame now fetch # xs) t =
     run_shard json u xs (on_frame json u frame now fetch t)"
| "run_shard json u (In_Closed # xs) t = t"

section \<open>Start-up\<close>

definition E2E_SYMBOLS :: "string list" where
  "E2E_SYMBOLS = [''BTCUSDT'', ''ETHUSDT'', ''SOLUSDT'', ''BNBUSDT'']"

text \<open>\<open>shard_map.entry(shard).or_default().push(inst)\<close>; None is the panic of \<open>shard_for_symbol\<close>.\<close>

fun partition_shards ::
  "u32 \<Rightarrow> InstrumentDefinition list \<Rightarrow> (u32, InstrumentDefinition list) hash_map \<Rightarrow>
   (u32, InstrumentDefinition list) hash_map option" where
  "partition_shards total_shards [] m = Some m"
| "partition_shards total_shards (inst # insts) m =
     Option.bind (shard_for_symbol BinanceSpot Spot (id_symbol inst) total_shards) (\<lambda>shard.
     partition_shards total_shards insts
       (AList.update shard ((case map_of m shard of Some is \<Rightarrow> is | None \<Rightarrow> []) @ [inst]) m))"

definition shard_streams :: "shard_engine \<Rightarrow> string list" where
  "shard_streams e =
     concat (map (\<lambda>(symbol, _). [spot_stream_name SS_BookTicker symbol, spot_stream_name (SS_Depth 100) symbol,
       spot_stream_name SS_Trade symbol]) (se_symbols e))"

definition shard_ws_url :: "shard_engine \<Rightarrow> string" where
  "shard_ws_url e = spot_build_url SPOT_WS_BASE (shard_streams e)"

definition shard_ctx :: "u32 \<Rightarrow> normalize_ctx" where
  "shard_ctx shard_id = \<lparr>nc_venue_id = BinanceSpot, nc_market_type = Spot, nc_instance_id = 0,
     nc_connection_id = shard_id\<rparr>"

definition shard_task_new :: "'p sharded_publisher \<Rightarrow> heartbeater \<Rightarrow> shard_engine \<Rightarrow> 'p shard_task" where
  "shard_task_new publisher heartbeater engine =
     \<lparr>stk_engine = engine, stk_counters = map (\<lambda>symbol. (symbol, counters_default)) (se_symbol_names engine),
      stk_heartbeater = heartbeater,
      stk_io = \<lparr>sio_seq = 0, sio_buf = replicate 8192 0, sio_publisher = publisher\<rparr>\<rparr>"

definition start_shards ::
  "u32 \<Rightarrow> heartbeater \<Rightarrow> InstrumentDefinition list \<Rightarrow>
   (null_publication shard_setup \<times> null_publication shard_task) list option" where
  "start_shards shards heartbeater all_defs =
     (let total_shards = max shards 1;
          insts = filter (\<lambda>d. id_symbol d \<in> set E2E_SYMBOLS) all_defs
      in map_option (map (\<lambda>(shard_id, instruments).
           (\<lparr>shs_offer = null_offer, shs_shard_id = shard_id, shs_ctx = shard_ctx shard_id\<rparr>,
            shard_task_new (build_null [shard_id]) heartbeater
              (fold se_add_symbol instruments (ShardEngine_new shard_id)))))
         (partition_shards total_shards insts []))"

end
