(* ===== verification/Shard_Run.thy ===== *)
theory Shard_Run
  imports Shard_Task
begin

text \<open>
  The runs of a shard task: what its steps do to the state of a symbol. The feed state and the book
  of a symbol agree, and a book that was recovered once stays the exchange's. Both are invariants
  of symbols, lifted to the task by one locale.
\<close>

section \<open>The parts of a step\<close>

lemma set_feed_state_eq:
  "set_feed_state u new ts (s, c, io) = (s\<lparr>ss_feed_state := new\<rparr>, c,
     if ss_feed_state s = new then io
     else offer_ctrl u MT_FeedStatus (\<lambda>hdr. NM_FeedStatus \<lparr>fs_header = hdr, fs_state = new\<rparr>) (ss_inst s) ts io)"
  by (cases s) (simp add: set_feed_state_def)

lemma buffer_delta_eq:
  obtains buf circuit fs n io' where
    "buffer_delta u bd recv_ts len now (s, c, io) =
       (s\<lparr>ss_recovery_buf := buf, ss_circuit := circuit, ss_feed_state := fs\<rparr>,
        c\<lparr>ctr_overflow_count := n\<rparr>, io')"
    "bfd_delta ` set (rb_events buf) \<subseteq> insert bd (bfd_delta ` set (rb_events (ss_recovery_buf s)))"
    "fs = ss_feed_state s \<or> fs = FS_Degraded"
proof -
  obtain b buf n where p: "push_to_recovery bd recv_ts len (ss_recovery_buf s) (ctr_overflow_count c) = (b, buf, n)"
    by (cases "push_to_recovery bd recv_ts len (ss_recovery_buf s) (ctr_overflow_count c)")
  have buf: "bfd_delta ` set (rb_events buf) \<subseteq> insert bd (bfd_delta ` set (rb_events (ss_recovery_buf s)))"
    using p by (auto simp: push_to_recovery_def rb_push_def rb_clear_def split: if_splits)
  obtain opened circuit where r: "cb_record_failure now (ss_circuit s) = (opened, circuit)"
    by (cases "cb_record_failure now (ss_circuit s)")
  show ?thesis
  proof (cases b)
    case True
    show ?thesis
      by (rule that [of "if opened then FS_Degraded else ss_feed_state s" circuit buf n
            "snd (snd (buffer_delta u bd recv_ts len now (s, c, io)))"])
        (use p r True buf in \<open>auto simp: buffer_delta_def set_feed_state_eq\<close>)
  next
    case False
    show ?thesis
      by (rule that [of "ss_feed_state s" "ss_circuit s" buf n
            "snd (snd (buffer_delta u bd recv_ts len now (s, c, io)))"])
        (use p False buf in \<open>auto simp: buffer_delta_def\<close>)
  qed
qed

text \<open>An attempt leaves the exchange's answer in place and ends in one of four feed states.\<close>

lemma recovery_failed_eq:
  obtains circuit fs io' where
    "recovery_failed u g now (s, c, io) = (s\<lparr>ss_circuit := circuit, ss_feed_state := fs\<rparr>, c, io')"
    "fs = ss_feed_state s \<or> fs \<in> {FS_Degraded, FS_Stale}"
proof -
  obtain opened circuit where r: "cb_record_failure now (ss_circuit s) = (opened, circuit)"
    by (cases "cb_record_failure now (ss_circuit s)")
  show ?thesis
    by (rule that [of "if opened then FS_Degraded else if g then FS_Stale else ss_feed_state s" circuit
          "snd (snd (recovery_failed u g now (s, c, io)))"])
      (use r in \<open>auto simp: recovery_failed_def set_feed_state_eq\<close>)
qed

lemma attempt_recovery_cases:
  obtains (fetch_failed) circuit fs io' where
      "attempt_recovery u g now fetch (s, c, io) = (s\<lparr>ss_circuit := circuit, ss_feed_state := fs\<rparr>, c, io')"
      "fs \<in> {FS_Recovering, FS_Degraded, FS_Stale}"
  | (replay_failed) snap e book v buf circuit fs io' where
      "apply_spot_snapshot snap (ss_book s) (ss_validator s) (ss_recovery_buf s) =
         (Inl (e :: 'e spot_recovery_error), book, v, buf)"
      "fetch = Inr snap"
      "attempt_recovery u g now (fetch :: 'e + BookSnapshot) (s, c, io) =
         (s\<lparr>ss_book := book, ss_validator := v, ss_recovery_buf := buf, ss_circuit := circuit,
            ss_feed_state := fs\<rparr>, c, io')"
      "fs \<in> {FS_Recovering, FS_Degraded, FS_Stale}"
  | (recovered) snap out book v buf circuit bbo io' where
      "apply_spot_snapshot snap (ss_book s) (ss_validator s) (ss_recovery_buf s) =
         (Inr out :: 'e spot_recovery_error + recovery_outcome, book, v, buf)"
      "fetch = Inr snap"
      "attempt_recovery u g now fetch (s, c, io) =
         (s\<lparr>ss_book := book, ss_validator := v, ss_recovery_buf := buf, ss_circuit := circuit,
            ss_bbo_validator := bbo, ss_feed_state := FS_Live\<rparr>,
          c\<lparr>ctr_recover_count := ctr_recover_count c + 1\<rparr>, io')"
proof (cases fetch)
  case (Inl x)
  let ?s = "s\<lparr>ss_feed_state := FS_Recovering\<rparr>"
  define io1 where "io1 = snd (snd (set_feed_state u FS_Recovering now (s, c, io)))"
  obtain circuit fs io' where "recovery_failed u g now (?s, c, io1) =
      (?s\<lparr>ss_circuit := circuit, ss_feed_state := fs\<rparr>, c, io')"
    "fs = ss_feed_state ?s \<or> fs \<in> {FS_Degraded, FS_Stale}"
    by (rule recovery_failed_eq)
  with Inl show ?thesis
    by (intro fetch_failed [of fs circuit io']) (auto simp: attempt_recovery_def set_feed_state_eq io1_def Let_def)
next
  case (Inr snap)
  define io1 where "io1 = snd (snd (set_feed_state u FS_Recovering now (s, c, io)))"
  obtain r :: "'e spot_recovery_error + recovery_outcome" and book v buf where
    a: "apply_spot_snapshot snap (ss_book s) (ss_validator s) (ss_recovery_buf s) = (r, book, v, buf)"
    by (cases "apply_spot_snapshot snap (ss_book s) (ss_validator s) (ss_recovery_buf s)
      :: ('e spot_recovery_error + recovery_outcome) \<times> _")
  let ?s = "s\<lparr>ss_feed_state := FS_Recovering, ss_book := book, ss_validator := v, ss_recovery_buf := buf\<rparr>"
  show ?thesis
  proof (cases r)
    case (Inl e)
    obtain circuit fs io' where f: "recovery_failed u g now (?s, c, io1) =
        (?s\<lparr>ss_circuit := circuit, ss_feed_state := fs\<rparr>, c, io')"
      "fs = ss_feed_state ?s \<or> fs \<in> {FS_Degraded, FS_Stale}"
      by (rule recovery_failed_eq)
    show ?thesis
      by (rule replay_failed [of snap e book v buf fs circuit io'])
        (use a f Inl Inr in \<open>auto simp: attempt_recovery_def set_feed_state_eq io1_def Let_def\<close>)
  next
    case (Inr out)
    show ?thesis
      by (rule recovered [of snap out book v buf "bv_clear (ss_bbo_validator s)"
            "cb_record_success (ss_circuit s)" "snd (snd (attempt_recovery u g now fetch (s, c, io)))"])
        (use a Inr \<open>fetch = Inr snap\<close> in
          \<open>auto simp: attempt_recovery_def recovery_succeeded_def set_feed_state_eq io1_def Let_def\<close>)
  qed
qed

lemma apply_spot_snapshot_stale:
  assumes "apply_spot_snapshot snap book v buf = (r, book', v', buf')"
  shows "ob_stale book' = (isl r \<and> ob_stale book)"
proof -
  have replay: "spot_replay es b w n k = (x, b', w') \<Longrightarrow> ob_stale b' = ob_stale b"
    for es b w n k and x :: "'a spot_recovery_error + nat \<times> nat" and b' w'
    by (induction es b w n k rule: spot_replay.induct)
      (auto simp: apply_delta_def split: prod.splits sv_result.splits)
  from assms show ?thesis
    by (auto simp: apply_spot_snapshot_def Let_def apply_snapshot_def mark_recovered_def rb_drain_after_def
        split: prod.splits sum.splits dest!: replay)
qed

section \<open>Feed state and book\<close>

text \<open>A stale book is never behind a feed that is connecting or live, and only it is behind one
  that is stale or recovering.\<close>

definition feed_ok :: "symbol_state \<Rightarrow> bool" where
  "feed_ok s \<longleftrightarrow> ss_feed_state s \<in>
     (if ob_stale (ss_book s) then {FS_Degraded, FS_Stale, FS_Recovering}
      else {FS_Connecting, FS_Live, FS_Degraded})"

lemma feed_ok_buffer:
  "feed_ok s \<Longrightarrow> feed_ok (fst (buffer_delta u bd recv_ts len now (s, c, io)))"
  by (rule buffer_delta_eq [of u bd recv_ts len now s c io]) (auto simp: feed_ok_def)

lemma feed_ok_attempt:
  assumes "ob_stale (ss_book s)"
  shows "feed_ok (fst (attempt_recovery u g now fetch (s, c, io)))"
  by (rule attempt_recovery_cases [of u g now fetch s c io])
    (use assms in \<open>auto simp: feed_ok_def dest!: apply_spot_snapshot_stale\<close>)

lemma feed_ok_tick:
  "feed_ok s \<Longrightarrow> ob_stale (ss_book s) \<Longrightarrow> feed_ok (fst (tick_recover u now fetch (s, c, io)))"
  by (auto simp: tick_recover_def Let_def feed_ok_def [of "_\<lparr>ss_circuit := _\<rparr>"] feed_ok_def [of s]
      feed_ok_attempt split: prod.splits)

lemma feed_ok_validate:
  "feed_ok s \<Longrightarrow> feed_ok (fst (validate_symbol u now fetch (s, c, io)))"
  by (auto simp: validate_symbol_def mark_book_stale_def mark_stale_def set_feed_state_eq feed_ok_def
      Let_def split: sum.splits snapshot_check_result.splits)

lemma handle_gap_cases:
  obtains buf circuit fs n io' deferred where
    "handle_gap u bd expected actual recv_ts len now fetch (s, c, io) =
      (let w = (s\<lparr>ss_book := mark_stale BSR_SequenceGap (ss_book s), ss_recovery_buf := buf,
                  ss_feed_state := fs, ss_circuit := circuit\<rparr>,
                c\<lparr>ctr_gap_count := ctr_gap_count c + 1, ctr_overflow_count := n\<rparr>, io')
       in if deferred then set_feed_state u FS_Degraded now w
          else attempt_recovery u True now fetch w)"
    "bfd_delta ` set (rb_events buf) \<subseteq> insert bd (bfd_delta ` set (rb_events (ss_recovery_buf s)))"
proof -
  let ?s = "s\<lparr>ss_book := mark_stale BSR_SequenceGap (ss_book s)\<rparr>"
  let ?c = "c\<lparr>ctr_gap_count := ctr_gap_count c + 1\<rparr>"
  define io2 where "io2 = snd (snd (mark_book_stale u BSR_SequenceGap recv_ts
    (offer_gap u expected actual recv_ts (s, ?c, io))))"
  obtain buf circuit fs n io3 where b: "buffer_delta u bd recv_ts len now (?s, ?c, io2) =
      (?s\<lparr>ss_recovery_buf := buf, ss_circuit := circuit, ss_feed_state := fs\<rparr>,
       ?c\<lparr>ctr_overflow_count := n\<rparr>, io3)"
    and buf: "bfd_delta ` set (rb_events buf) \<subseteq> insert bd (bfd_delta ` set (rb_events (ss_recovery_buf ?s)))"
    by (rule buffer_delta_eq)
  have m: "mark_book_stale u BSR_SequenceGap recv_ts (offer_gap u expected actual recv_ts (s, ?c, io)) =
      (?s, ?c, io2)"
    by (simp add: io2_def mark_book_stale_def offer_gap_def Let_def)
  show ?thesis
    by (rule that [of "snd (cb_check now circuit)" fs buf n io3 "fst (cb_check now circuit) \<noteq> Closed"])
      (use b m buf in \<open>simp_all add: handle_gap_def Let_def split_beta\<close>)
qed

lemma feed_ok_gap:
  "feed_ok (fst (handle_gap u bd expected actual recv_ts len now fetch (s, c, io)))"
proof (rule handle_gap_cases [of u bd expected actual recv_ts len now fetch s c io])
  fix buf circuit fs n io' deferred
  assume "handle_gap u bd expected actual recv_ts len now fetch (s, c, io) =
      (let w = (s\<lparr>ss_book := mark_stale BSR_SequenceGap (ss_book s), ss_recovery_buf := buf,
                  ss_feed_state := fs, ss_circuit := circuit\<rparr>,
                c\<lparr>ctr_gap_count := ctr_gap_count c + 1, ctr_overflow_count := n\<rparr>, io')
       in if deferred then set_feed_state u FS_Degraded now w
          else attempt_recovery u True now fetch w)"
  then show ?thesis
    by (simp add: set_feed_state_eq feed_ok_attempt mark_stale_def Let_def)
      (simp add: feed_ok_def)
qed

lemma handle_delta_eq:
  assumes "sv_validate (bd_first_update_id bd) (bd_final_update_id bd) (ss_validator (seed_validator bd s)) = (r, v)"
    and "s1 = (seed_validator bd s)\<lparr>ss_validator := v\<rparr>"
  shows "handle_delta u bd recv_ts len now fetch (s, c, io) =
    (case r of
       SV_Apply \<Rightarrow>
         let w2 = (s1\<lparr>ss_book := apply_delta bd (ss_book s1)\<rparr>, c, io) in
         if ss_feed_state s1 = FS_Connecting then set_feed_state u FS_Live recv_ts w2 else w2
     | SV_Discard \<Rightarrow> (s1, c, io)
     | SV_Buffering \<Rightarrow> buffer_delta u bd recv_ts len now (s1, c, io)
     | SV_Gap expected actual _ \<Rightarrow>
         handle_gap u bd expected actual recv_ts len now fetch (s1, c, io))"
  using assms(1) unfolding assms(2) by (simp add: handle_delta_def Let_def)

lemma feed_ok_delta:
  assumes "feed_ok s"
  shows "feed_ok (fst (handle_delta u bd recv_ts len now fetch (s, c, io)))"
proof -
  obtain r v where r: "sv_validate (bd_first_update_id bd) (bd_final_update_id bd)
      (ss_validator (seed_validator bd s)) = (r, v)"
    by (cases "sv_validate (bd_first_update_id bd) (bd_final_update_id bd) (ss_validator (seed_validator bd s))")
  define s1 where "s1 = (seed_validator bd s)\<lparr>ss_validator := v\<rparr>"
  have ok: "feed_ok s1"
    using assms by (auto simp: s1_def feed_ok_def seed_validator_def)
  have stale: "ob_stale (apply_delta bd b) = ob_stale b" for b
    by (simp add: apply_delta_def)
  show ?thesis
  proof (cases r)
    case SV_Apply
    then show ?thesis
      using ok by (auto simp: handle_delta_eq [OF r s1_def] set_feed_state_eq feed_ok_def stale Let_def split: if_splits)
  qed (simp_all add: handle_delta_eq [OF r s1_def] ok feed_ok_buffer feed_ok_gap)
qed

lemma feed_ok_bbo:
  assumes "feed_ok s"
  shows "feed_ok (fst (handle_bbo u b recv_ts (s, c, io)))"
  using assms
  by (auto simp: handle_bbo_def Let_def set_feed_state_eq mark_book_stale_def mark_stale_def feed_ok_def
      split: prod.splits bbo_check_result.splits)

lemma feed_ok_message:
  "feed_ok s \<Longrightarrow> feed_ok (fst (handle_message u msg recv_ts len now fetch (s, c, io)))"
  using feed_ok_delta feed_ok_bbo
  by (auto simp: handle_message_def Let_def split_beta split: normalized_message.splits)

section \<open>Recovered books\<close>

definition delta_faithful :: "history \<Rightarrow> history \<Rightarrow> BookDelta \<Rightarrow> bool" where
  "delta_faithful hb ha d \<longleftrightarrow> sv_ev_ok d \<and> event_faithful hb ha sv_lo d"

definition fetch_faithful :: "history \<Rightarrow> history \<Rightarrow> 'e + BookSnapshot \<Rightarrow> bool" where
  "fetch_faithful hb ha fetch \<longleftrightarrow> (case fetch of Inr snap \<Rightarrow> snapshot_faithful hb ha snap | Inl _ \<Rightarrow> True)"

text \<open>
  What was buffered is what the exchange sent, and once there was a recovery the validator stands
  at the id of a book that is the exchange's.
\<close>

definition exact_ok :: "history \<Rightarrow> history \<Rightarrow> symbol_state \<Rightarrow> symbol_counters \<Rightarrow> bool" where
  "exact_ok hb ha s c \<longleftrightarrow>
     (\<forall>d \<in> bfd_delta ` set (rb_events (ss_recovery_buf s)). delta_faithful hb ha d) \<and>
     (ctr_recover_count c \<noteq> 0 \<longrightarrow> sv.synced hb ha (ss_validator s) (ss_book s))"

lemma synced_marks [simp]:
  "sv.synced hb ha v (mark_stale r b) = sv.synced hb ha v b"
  "sv.synced hb ha v (mark_recovered b) = sv.synced hb ha v b"
  by (simp_all add: sv.synced_def) (simp_all add: mark_stale_def mark_recovered_def)

lemma synced_step:
  assumes "sv.synced hb ha v b" "sv_check d v = (r, v')" "delta_faithful hb ha d"
  shows "sv.synced hb ha v' (if sv_kind r = Apply then apply_delta d b else b)"
proof (cases "sv_live v")
  case True
  have "1 \<le> sv_lo d"
    using assms(3) by (simp add: delta_faithful_def sv_ev_ok_def sv_lo_def word_le_nat_alt)
  with sv.accepted_synced [OF True assms(1), of "[d]"] assms(2,3) show ?thesis
    by (simp add: delta_faithful_def split: if_splits)
next
  case False
  with sv.stopped_buffers [OF False assms(2)] assms(1) show ?thesis by simp
qed

lemma apply_spot_snapshot_synced:
  assumes "apply_spot_snapshot snap book v buf = (r, book', v', buf')" "snapshot_faithful hb ha snap"
    and "\<forall>d \<in> bfd_delta ` set (rb_events buf). delta_faithful hb ha d"
  shows "sv.synced hb ha v' book' \<and> rb_events buf' = []"
proof (rule apply_spot_snapshot_replay [OF assms(1)])
  fix x book2
  assume x: "spot_replay (fst (rb_drain_after (bs_update_id snap) buf)) (apply_snapshot snap book)
       (sv_on_snapshot (bs_update_id snap) v) 0 0 = (x, book2, v')"
    and b: "book' = (case x of Inl _ \<Rightarrow> book2 | Inr _ \<Rightarrow> mark_recovered book2)" and e: "rb_events buf' = []"
  have "\<forall>e \<in> set (fst (rb_drain_after (bs_update_id snap) buf)).
      sv_ev_ok (bfd_delta e) \<and> event_faithful hb ha sv_lo (bfd_delta e)"
    using assms(3) drained_subset by (fastforce simp: delta_faithful_def)
  from spot.replay_synced [OF sv.snapshot_live snapshot_synced_spot [OF assms(2)] x this] b e
  show ?thesis by (auto split: sum.splits)
qed

lemma exact_attempt:
  assumes "exact_ok hb ha s c" "fetch_faithful hb ha fetch"
    and "attempt_recovery u g now fetch (s, c, io) = (s', c', io')"
  shows "exact_ok hb ha s' c'"
  by (rule attempt_recovery_cases [of u g now fetch s c io])
    (use assms in \<open>auto simp: exact_ok_def fetch_faithful_def dest!: apply_spot_snapshot_synced\<close>)

lemma exact_buffer:
  assumes "exact_ok hb ha s c" "delta_faithful hb ha bd"
    and "buffer_delta u bd recv_ts len now (s, c, io) = (s', c', io')"
  shows "exact_ok hb ha s' c'"
  by (rule buffer_delta_eq [of u bd recv_ts len now s c io])
    (use assms in \<open>fastforce simp: exact_ok_def\<close>)

lemma exact_tick:
  assumes "exact_ok hb ha s c" "fetch_faithful hb ha fetch"
    and "tick_recover u now fetch (s, c, io) = (s', c', io')"
  shows "exact_ok hb ha s' c'"
proof -
  have ok: "exact_ok hb ha (s\<lparr>ss_circuit := x\<rparr>) c" for x
    using assms(1) by (simp add: exact_ok_def)
  from assms(3) exact_attempt [OF ok assms(2)] ok show ?thesis
    by (auto simp: tick_recover_def Let_def split: prod.splits if_splits)
qed

lemma exact_gap:
  assumes "exact_ok hb ha s c" "delta_faithful hb ha bd"
    and "fetch_faithful hb ha fetch"
    and "handle_gap u bd expected actual recv_ts len now fetch (s, c, io) = (s', c', io')"
  shows "exact_ok hb ha s' c'"
proof (rule handle_gap_cases [of u bd expected actual recv_ts len now fetch s c io])
  fix buf circuit fs n io1 deferred
  let ?s = "s\<lparr>ss_book := mark_stale BSR_SequenceGap (ss_book s), ss_recovery_buf := buf,
      ss_feed_state := fs, ss_circuit := circuit\<rparr>"
  let ?c = "c\<lparr>ctr_gap_count := ctr_gap_count c + 1, ctr_overflow_count := n\<rparr>"
  assume eq: "handle_gap u bd expected actual recv_ts len now fetch (s, c, io) =
      (let w = (?s, ?c, io1) in if deferred then set_feed_state u FS_Degraded now w
          else attempt_recovery u True now fetch w)"
    and buf: "bfd_delta ` set (rb_events buf) \<subseteq> insert bd (bfd_delta ` set (rb_events (ss_recovery_buf s)))"
  have ok: "exact_ok hb ha ?s ?c"
    using assms(1,2) buf by (fastforce simp: exact_ok_def)
  then have "exact_ok hb ha (?s\<lparr>ss_feed_state := x\<rparr>) ?c" for x
    by (simp add: exact_ok_def)
  with eq assms(4) exact_attempt [OF ok assms(3)] show ?thesis
    by (cases deferred) (auto simp: set_feed_state_eq Let_def eq_commute [of "(s', c', io')"])
qed

lemma exact_delta:
  assumes "exact_ok hb ha s c" "delta_faithful hb ha bd"
    and "fetch_faithful hb ha fetch"
    and eq: "handle_delta u bd recv_ts len now fetch (s, c, io) = (s', c', io')"
  shows "exact_ok hb ha s' c'"
proof -
  obtain r v where r: "sv_validate (bd_first_update_id bd) (bd_final_update_id bd)
      (ss_validator (seed_validator bd s)) = (r, v)"
    by (cases "sv_validate (bd_first_update_id bd) (bd_final_update_id bd) (ss_validator (seed_validator bd s))")
  define s1 where "s1 = (seed_validator bd s)\<lparr>ss_validator := v\<rparr>"
  have buf: "ss_recovery_buf s1 = ss_recovery_buf s" "ss_book s1 = ss_book s" "ss_validator s1 = v"
    by (simp_all add: s1_def seed_validator_def)
  have synced: "sv.synced hb ha v (if sv_kind r = Apply then apply_delta bd (ss_book s) else ss_book s)"
    if "ctr_recover_count c \<noteq> 0"
  proof -
    have "sv.synced hb ha (ss_validator s) (ss_book s)"
      using assms(1) that by (simp add: exact_ok_def)
    moreover from this have "seed_validator bd s = s"
      by (simp add: seed_validator_def sv.synced_def)
    ultimately show ?thesis
      using synced_step [of hb ha "ss_validator s" "ss_book s" bd r v] assms(2) r by (simp add: sv_check_def)
  qed
  show ?thesis
  proof (cases r)
    case SV_Apply
    with eq synced assms(1) buf show ?thesis
      by (auto simp: handle_delta_eq [OF r s1_def] exact_ok_def set_feed_state_eq Let_def split: if_splits)
  next
    case SV_Discard
    with eq synced assms(1) buf show ?thesis
      by (auto simp: handle_delta_eq [OF r s1_def] exact_ok_def)
  next
    case (SV_Gap e a l)
    with synced assms(1) buf have "exact_ok hb ha s1 c" by (auto simp: exact_ok_def)
    from exact_gap [OF this assms(2,3)] eq SV_Gap show ?thesis
      by (simp add: handle_delta_eq [OF r s1_def])
  next
    case SV_Buffering
    with synced assms(1) buf have "exact_ok hb ha s1 c" by (auto simp: exact_ok_def)
    from exact_buffer [OF this assms(2)] eq SV_Buffering show ?thesis
      by (simp add: handle_delta_eq [OF r s1_def])
  qed
qed

lemma exact_bbo:
  assumes "exact_ok hb ha s c" "handle_bbo u b recv_ts (s, c, io) = (s', c', io')"
  shows "exact_ok hb ha s' c'"
  using assms
  by (auto simp: handle_bbo_def Let_def set_feed_state_eq mark_book_stale_def exact_ok_def
      split: prod.splits bbo_check_result.splits if_splits)

lemma exact_validate:
  assumes "exact_ok hb ha s c" "validate_symbol u now fetch (s, c, io) = (s', c', io')"
  shows "exact_ok hb ha s' c'"
  using assms
  by (auto simp: validate_symbol_def mark_book_stale_def set_feed_state_eq exact_ok_def
      Let_def split: sum.splits snapshot_check_result.splits)

lemma exact_message:
  assumes "exact_ok hb ha s c" "\<forall>bd. msg = NM_BookDelta bd \<longrightarrow> delta_faithful hb ha bd"
    and "fetch_faithful hb ha fetch"
    and eq: "handle_message u msg recv_ts len now fetch (s, c, io) = (s', c', io')"
  shows "exact_ok hb ha s' c'"
proof -
  have ok: "exact_ok hb ha s (c\<lparr>ctr_total_msgs := x, ctr_msgs_this_sec := y\<rparr>)"
    "exact_ok hb ha s (c\<lparr>ctr_total_msgs := x, ctr_msgs_this_sec := y, ctr_trade_count := z\<rparr>)" for x y z
    using assms(1) by (simp_all add: exact_ok_def)
  show ?thesis
  proof (cases "\<exists>bd. msg = NM_BookDelta bd")
    case True
    then obtain bd where bd: "msg = NM_BookDelta bd" ..
    with assms(2) have "delta_faithful hb ha bd" by simp
    from exact_delta [OF ok(1) this assms(3)] eq bd show ?thesis
      by (auto simp: handle_message_def Let_def split: prod.splits)
  next
    case False
    then show ?thesis
      using eq exact_bbo [OF ok(1)] ok
      by (cases msg) (auto simp: handle_message_def Let_def split: prod.splits)
  qed
qed

section \<open>Runs\<close>

definition counters_of :: "'p shard_task \<Rightarrow> string \<Rightarrow> symbol_counters" where
  "counters_of t k = (case map_of (stk_counters t) k of Some c \<Rightarrow> c | None \<Rightarrow> counters_default)"

lemma at_symbol_eq:
  assumes "se_get k (stk_engine t) = Some s" "f (s, counters_of t k, stk_io t) = (s', c', io')"
  shows "at_symbol k f t = t\<lparr>stk_engine := se_get_mut k (\<lambda>_. s') (stk_engine t),
    stk_counters := AList.update k c' (stk_counters t), stk_io := io'\<rparr>"
  using assms by (simp add: at_symbol_def counters_of_def [symmetric])

lemma at_symbol_get:
  assumes "se_get k (stk_engine t) = Some s" "f (s, counters_of t k, stk_io t) = (s', c', io')"
  shows "se_get j (stk_engine (at_symbol k f t)) = (if j = k then Some s' else se_get j (stk_engine t))"
    and "counters_of (at_symbol k f t) j = (if j = k then c' else counters_of t j)"
    and "stk_io (at_symbol k f t) = io'"
    and "stk_heartbeater (at_symbol k f t) = stk_heartbeater t"
    and "hm_wf (se_symbols (stk_engine t)) \<Longrightarrow> hm_wf (se_symbols (stk_engine (at_symbol k f t)))"
  unfolding at_symbol_eq [of k t s f, OF assms]
  using assms(1) by (simp_all add: se.lookup_change counters_of_def update_conv')
    (simp add: se_get_mut_def split: option.splits)

lemma at_symbol_None: "se_get k (stk_engine t) = None \<Longrightarrow> at_symbol k f t = t"
  by (simp add: at_symbol_def)

lemma counters_of_second:
  "counters_of (t\<lparr>stk_counters := map (\<lambda>(k, c). (k, c\<lparr>ctr_msgs_this_sec := 0\<rparr>)) (stk_counters t)\<rparr>) k =
     (counters_of t k)\<lparr>ctr_msgs_this_sec := 0\<rparr>"
  by (auto simp: counters_of_def map_of_map counters_default_def split: option.splits)

text \<open>Steps on symbols that differ do not disturb each other.\<close>

lemma fold_at_symbol:
  assumes "distinct ks" "Q t"
    and "\<And>k s. k \<in> set ks \<Longrightarrow> se_get k (stk_engine t) = Some s \<Longrightarrow> D s"
    and "\<And>k t s. k \<in> set ks \<Longrightarrow> Q t \<Longrightarrow> se_get k (stk_engine t) = Some s \<Longrightarrow> D s \<Longrightarrow> Q (at_symbol k (f k) t)"
  shows "Q (fold (\<lambda>k. at_symbol k (f k)) ks t)"
  using assms
proof (induction ks arbitrary: t)
  case (Cons k ks)
  show ?case
  proof (cases "se_get k (stk_engine t)")
    case None
    have "Q (fold (\<lambda>k. at_symbol k (f k)) ks t)"
      by (rule Cons.IH) (use Cons.prems in auto)
    with None show ?thesis by (simp add: at_symbol_None)
  next
    case (Some s)
    obtain s' c' io' where e: "f k (s, counters_of t k, stk_io t) = (s', c', io')"
      by (cases "f k (s, counters_of t k, stk_io t)")
    have q: "Q (at_symbol k (f k) t)"
      using Cons.prems(2) Cons.prems(3) [of k s] Cons.prems(4) [of k t s] Some by simp
    have same: "se_get j (stk_engine (at_symbol k (f k) t)) = se_get j (stk_engine t)" if "j \<in> set ks" for j
      using at_symbol_get(1) [OF Some, of "f k", OF e] that Cons.prems(1) by auto
    have "Q (fold (\<lambda>k. at_symbol k (f k)) ks (at_symbol k (f k) t))"
      by (rule Cons.IH) (use q same Cons.prems in auto)
    then show ?thesis by simp
  qed
qed simp

text \<open>An invariant of the task, from that of its turns.\<close>

lemma run_shard_inv:
  assumes "Q t"
    and "\<And>now fetch t. In_Tick now fetch \<in> set xs \<Longrightarrow> Q t \<Longrightarrow> Q (on_tick u now fetch t)"
    and "\<And>clock fetch t. In_Validation clock fetch \<in> set xs \<Longrightarrow> Q t \<Longrightarrow> Q (on_validation_tick u clock fetch t)"
    and "\<And>frame now fetch t. In_Frame frame now fetch \<in> set xs \<Longrightarrow> Q t \<Longrightarrow> Q (on_frame json u frame now fetch t)"
  shows "Q (run_shard json u xs t)"
  using assms by (induction json u xs t rule: run_shard.induct) simp_all

lemma on_frame_cases:
  obtains (ignored) seq where
      "on_frame json u frame now fetch t = t\<lparr>stk_io := (stk_io t)\<lparr>sio_seq := seq\<rparr>\<rparr>"
  | (unencodable) event k s msg seq e buf where
      "parse_spot_message json (rf_payload frame) = Inr event" "symbol_from_event event = Some k"
      "se_get k (stk_engine t) = Some s"
      "normalize_spot_event event (ss_inst s) (shs_ctx u) (rf_recv_ts frame) (sio_seq (stk_io t)) =
         (Inr (Some msg), seq)"
      "nm_encode_into msg (sio_buf (stk_io t)) = (Inl e, buf)"
      "on_frame json u frame now fetch t = t\<lparr>stk_io := (stk_io t)\<lparr>sio_seq := seq, sio_buf := buf\<rparr>\<rparr>"
  | (handled) event k s msg seq n buf where
      "parse_spot_message json (rf_payload frame) = Inr event" "symbol_from_event event = Some k"
      "se_get k (stk_engine t) = Some s"
      "normalize_spot_event event (ss_inst s) (shs_ctx u) (rf_recv_ts frame) (sio_seq (stk_io t)) =
         (Inr (Some msg), seq)"
      "nm_encode_into msg (sio_buf (stk_io t)) = (Inr n, buf)"
      "on_frame json u frame now fetch t =
         at_symbol k (handle_message u msg (rf_recv_ts frame) n now fetch)
           (t\<lparr>stk_io := (stk_io t)\<lparr>sio_seq := seq, sio_buf := buf\<rparr>\<rparr>)"
proof -
  have none: thesis if "on_frame json u frame now fetch t = t"
    using ignored [of "sio_seq (stk_io t)"] that by simp
  show thesis
  proof (cases "parse_spot_message json (rf_payload frame)")
    case (Inr event)
    show thesis
    proof (cases "symbol_from_event event")
      case (Some k)
      show thesis
      proof (cases "se_get k (stk_engine t)")
        case s: (Some s)
        obtain r seq where r: "normalize_spot_event event (ss_inst s) (shs_ctx u) (rf_recv_ts frame)
            (sio_seq (stk_io t)) = (r, seq)"
          by (cases "normalize_spot_event event (ss_inst s) (shs_ctx u) (rf_recv_ts frame)
            (sio_seq (stk_io t))")
        note eqs = on_frame_def Inr Some s r
        show thesis
        proof (cases "\<exists>msg. r = Inr (Some msg)")
          case True
          then obtain msg where msg: "r = Inr (Some msg)" ..
          obtain x buf where x: "nm_encode_into msg (sio_buf (stk_io t)) = (x, buf)"
            by (cases "nm_encode_into msg (sio_buf (stk_io t))")
          show thesis
            by (cases x) (use unencodable [OF Inr Some s] handled [OF Inr Some s] in
              \<open>auto simp: eqs msg x\<close>)
        next
          case False
          then have "on_frame json u frame now fetch t = t\<lparr>stk_io := (stk_io t)\<lparr>sio_seq := seq\<rparr>\<rparr>"
            by (auto simp: eqs split: sum.splits option.splits)
          then show thesis by (rule ignored)
        qed
      qed (use none Inr Some in \<open>simp add: on_frame_def\<close>)
    qed (use none Inr in \<open>simp add: on_frame_def\<close>)
  qed (use none in \<open>simp add: on_frame_def\<close>)
qed

text \<open>
  A property of each symbol that its steps keep is one of every run: the contract of the steps,
  and what it gives for the task.
\<close>

locale symbol_invariant =
  fixes I :: "string \<Rightarrow> symbol_state \<Rightarrow> symbol_counters \<Rightarrow> bool"
    and fetch_good :: "string \<Rightarrow> 'e + BookSnapshot \<Rightarrow> bool"
    and msg_good :: "string \<Rightarrow> normalized_message \<Rightarrow> bool"
    and u :: "'p shard_setup"
  assumes step_message: "I k s c \<Longrightarrow> msg_good k msg \<Longrightarrow> fetch_good k fetch \<Longrightarrow>
      handle_message u msg ts n now fetch (s, c, io) = (s', c', io') \<Longrightarrow> I k s' c'"
    and step_tick: "I k s c \<Longrightarrow> ob_stale (ss_book s) \<Longrightarrow> fetch_good k fetch \<Longrightarrow>
      tick_recover u now fetch (s, c, io) = (s', c', io') \<Longrightarrow> I k s' c'"
    and step_validate: "I k s c \<Longrightarrow> fetch_good k fetch \<Longrightarrow>
      validate_symbol u now fetch (s, c, io) = (s', c', io') \<Longrightarrow> I k s' c'"
    and step_second: "I k s c \<Longrightarrow> I k s (c\<lparr>ctr_msgs_this_sec := 0\<rparr>)"
begin

definition holds :: "'p shard_task \<Rightarrow> bool" where
  "holds t \<longleftrightarrow> hm_wf (se_symbols (stk_engine t)) \<and>
     (\<forall>k s. se_get k (stk_engine t) = Some s \<longrightarrow> I k s (counters_of t k))"

lemma holds_io [simp]: "holds (t\<lparr>stk_io := io\<rparr>) = holds t"
  by (simp add: holds_def counters_of_def)

lemma holds_heartbeat [simp]: "holds (shard_heartbeat u now t) = holds t"
  by (simp add: shard_heartbeat_def holds_def counters_of_def split: prod.splits)

lemma holds_at_symbol:
  assumes "holds t"
    and "\<And>s s' c' io'. se_get k (stk_engine t) = Some s \<Longrightarrow> I k s (counters_of t k) \<Longrightarrow>
      f (s, counters_of t k, stk_io t) = (s', c', io') \<Longrightarrow> I k s' c'"
  shows "holds (at_symbol k f t)"
proof (cases "se_get k (stk_engine t)")
  case None
  then show ?thesis using assms(1) by (simp add: at_symbol_None)
next
  case (Some s)
  obtain s' c' io' where f: "f (s, counters_of t k, stk_io t) = (s', c', io')"
    by (cases "f (s, counters_of t k, stk_io t)")
  note get = at_symbol_get [of k t s f, OF Some f]
  have "I k s' c'"
    using assms Some f by (auto simp: holds_def)
  then show ?thesis
    using assms(1) get by (simp add: holds_def)
qed

lemma holds_tick:
  assumes "holds t" "\<And>k. fetch_good k (fetch k)"
  shows "holds (on_tick u now fetch t)"
proof -
  let ?ks = "map fst (filter (\<lambda>(_, s). ss_is_stale s) (se_symbols (stk_engine t)))"
  have wf: "hm_wf (se_symbols (stk_engine t))" using assms(1) by (simp add: holds_def)
  then have d: "distinct ?ks" by (simp add: hm_wf_def distinct_map_filter)
  have stale: "ob_stale (ss_book s)" if "k \<in> set ?ks" "se_get k (stk_engine t) = Some s" for k s
    using that wf by (auto simp: hm_wf_def se_get_def ss_is_stale_def dest!: map_of_SomeD dest: eq_key_imp_eq_value)
  have "holds (fold (\<lambda>k. at_symbol k (tick_recover u now (fetch k))) ?ks t)" (is "holds ?t1")
    by (rule fold_at_symbol [where Q = holds and D = "\<lambda>s. ob_stale (ss_book s)", OF d assms(1) stale])
      (auto intro!: holds_at_symbol intro: step_tick [OF _ _ assms(2)])
  then have "holds (?t1\<lparr>stk_counters := map (\<lambda>(k, c). (k, c\<lparr>ctr_msgs_this_sec := 0\<rparr>)) (stk_counters ?t1)\<rparr>)"
    using step_second by (simp add: holds_def counters_of_second)
  then have "holds (shard_heartbeat u now
      (?t1\<lparr>stk_counters := map (\<lambda>(k, c). (k, c\<lparr>ctr_msgs_this_sec := 0\<rparr>)) (stk_counters ?t1)\<rparr>))"
    by (simp add: holds_heartbeat)
  then show ?thesis by (simp add: on_tick_def Let_def)
qed

lemma holds_validation_tick:
  assumes "holds t" "\<And>k. fetch_good k (fetch k)"
  shows "holds (on_validation_tick u clock fetch t)"
proof -
  let ?ks = "map fst (filter (\<lambda>(_, s). \<not> ss_is_stale s \<and> 0 < bid_depth (ss_book s) \<and>
    0 < ask_depth (ss_book s)) (se_symbols (stk_engine t)))"
  have d: "distinct ?ks" using assms(1) by (simp add: holds_def hm_wf_def distinct_map_filter)
  have "holds (fold (\<lambda>k. at_symbol k (validate_symbol u (clock k) (fetch k))) ?ks t)"
    by (rule fold_at_symbol [where Q = holds and D = "\<lambda>s. True", OF d assms(1)])
      (auto intro!: holds_at_symbol intro: step_validate [OF _ assms(2)])
  then show ?thesis by (simp add: on_validation_tick_def Let_def)
qed

lemma holds_frame:
  assumes "holds t"
    and "\<And>event k. parse_spot_message json (rf_payload frame) = Inr event \<Longrightarrow>
      symbol_from_event event = Some k \<Longrightarrow> fetch_good k fetch"
    and "\<And>event k s msg seq. parse_spot_message json (rf_payload frame) = Inr event \<Longrightarrow>
      symbol_from_event event = Some k \<Longrightarrow> se_get k (stk_engine t) = Some s \<Longrightarrow>
      normalize_spot_event event (ss_inst s) (shs_ctx u) (rf_recv_ts frame) (sio_seq (stk_io t)) =
        (Inr (Some msg), seq) \<Longrightarrow> msg_good k msg"
  shows "holds (on_frame json u frame now fetch t)"
proof (cases rule: on_frame_cases [of json u frame now fetch t])
  case (handled event k s msg seq n buf)
  have "msg_good k msg" "fetch_good k fetch" using assms(2,3) handled by blast+
  then show ?thesis
    using assms(1) handled(6) by (auto intro!: holds_at_symbol intro: step_message)
qed (use assms in simp_all)

end

lemma ss_inst_buffer:
  "buffer_delta u bd recv_ts len now (s, c, io) = (s', c', io') \<Longrightarrow> ss_inst s' = ss_inst s"
  by (rule buffer_delta_eq [of u bd recv_ts len now s c io]) auto

lemma ss_inst_attempt:
  "attempt_recovery u g now fetch (s, c, io) = (s', c', io') \<Longrightarrow> ss_inst s' = ss_inst s"
  by (rule attempt_recovery_cases [of u g now fetch s c io]) auto

lemma ss_inst_tick:
  "tick_recover u now fetch (s, c, io) = (s', c', io') \<Longrightarrow> ss_inst s' = ss_inst s"
  by (auto simp: tick_recover_def Let_def dest: ss_inst_attempt split: prod.splits if_splits)

lemma ss_inst_gap:
  "handle_gap u bd expected actual recv_ts len now fetch (s, c, io) = (s', c', io') \<Longrightarrow> ss_inst s' = ss_inst s"
  by (rule handle_gap_cases [of u bd expected actual recv_ts len now fetch s c io])
    (auto simp: Let_def set_feed_state_eq dest: ss_inst_attempt split: if_splits)

lemma ss_inst_delta:
  assumes "handle_delta u bd recv_ts len now fetch (s, c, io) = (s', c', io')"
  shows "ss_inst s' = ss_inst s"
proof -
  obtain r v where r: "sv_validate (bd_first_update_id bd) (bd_final_update_id bd)
      (ss_validator (seed_validator bd s)) = (r, v)"
    by (cases "sv_validate (bd_first_update_id bd) (bd_final_update_id bd) (ss_validator (seed_validator bd s))")
  define s1 where "s1 = (seed_validator bd s)\<lparr>ss_validator := v\<rparr>"
  have "ss_inst s1 = ss_inst s" by (simp add: s1_def seed_validator_def)
  with assms show ?thesis
    by (cases r) (auto simp: handle_delta_eq [OF r s1_def] set_feed_state_eq Let_def
        dest: ss_inst_gap ss_inst_buffer split: if_splits)
qed

lemma ss_inst_message:
  "handle_message u msg recv_ts len now fetch (s, c, io) = (s', c', io') \<Longrightarrow> ss_inst s' = ss_inst s"
  by (cases msg) (auto simp: handle_message_def handle_bbo_def mark_book_stale_def set_feed_state_eq Let_def
      dest: ss_inst_delta split: prod.splits bbo_check_result.splits if_splits)

lemma ss_inst_validate:
  "validate_symbol u now fetch (s, c, io) = (s', c', io') \<Longrightarrow> ss_inst s' = ss_inst s"
  by (auto simp: validate_symbol_def mark_book_stale_def set_feed_state_eq Let_def
      split: sum.splits snapshot_check_result.splits)

interpretation feed_inv: symbol_invariant "\<lambda>k s c. feed_ok s" "\<lambda>k (fetch :: 'e + BookSnapshot). True" "\<lambda>k m. True"
  "u :: 'p shard_setup" for u
  by unfold_locales (metis feed_ok_message feed_ok_tick feed_ok_validate fst_conv)+

interpretation exact_inv: symbol_invariant
  "\<lambda>k s c. insts k = Some (ss_inst s) \<and> exact_ok (hb k) (ha k) s c"
  "\<lambda>k (fetch :: 'e + BookSnapshot). fetch_faithful (hb k) (ha k) fetch"
  "\<lambda>k m. \<forall>bd. m = NM_BookDelta bd \<longrightarrow> delta_faithful (hb k) (ha k) bd"
  "u :: 'p shard_setup" for insts hb ha u
proof
  fix k s c and fetch :: "'e + BookSnapshot" and u :: "'p shard_setup" and now io s' c' io' msg ts n
  assume i: "insts k = Some (ss_inst s) \<and> exact_ok (hb k) (ha k) s c"
  then show "insts k = Some (ss_inst s) \<and> exact_ok (hb k) (ha k) s (c\<lparr>ctr_msgs_this_sec := 0\<rparr>)"
    by (simp add: exact_ok_def)
  assume f: "fetch_faithful (hb k) (ha k) fetch"
  show "insts k = Some (ss_inst s') \<and> exact_ok (hb k) (ha k) s' c'"
    if "tick_recover u now fetch (s, c, io) = (s', c', io')"
    using i f that exact_tick ss_inst_tick by metis
  show "insts k = Some (ss_inst s') \<and> exact_ok (hb k) (ha k) s' c'"
    if "validate_symbol u now fetch (s, c, io) = (s', c', io')"
    using i that exact_validate ss_inst_validate by metis
  show "insts k = Some (ss_inst s') \<and> exact_ok (hb k) (ha k) s' c'"
    if "\<forall>bd. msg = NM_BookDelta bd \<longrightarrow> delta_faithful (hb k) (ha k) bd"
      "handle_message u msg ts n now fetch (s, c, io) = (s', c', io')"
    using i f that exact_message ss_inst_message by metis
qed

text \<open>
  What an input brings is the exchange's: the snapshots of its REST answers, and the delta of its
  frame when it is one.
\<close>

fun input_faithful ::
  "'j spot_json \<Rightarrow> 'p shard_setup \<Rightarrow> (string \<Rightarrow> history) \<Rightarrow> (string \<Rightarrow> history) \<Rightarrow>
   (string \<Rightarrow> InstrumentDefinition option) \<Rightarrow> 'e shard_input \<Rightarrow> bool" where
  "input_faithful json u hb ha insts (In_Tick now fetch) \<longleftrightarrow>
     (\<forall>k. fetch_faithful (hb k) (ha k) (fetch k))"
| "input_faithful json u hb ha insts (In_Validation clock fetch) \<longleftrightarrow>
     (\<forall>k. fetch_faithful (hb k) (ha k) (fetch k))"
| "input_faithful json u hb ha insts (In_Frame frame now fetch) \<longleftrightarrow>
     (\<forall>event k. parse_spot_message json (rf_payload frame) = Inr event \<longrightarrow>
        symbol_from_event event = Some k \<longrightarrow>
        fetch_faithful (hb k) (ha k) fetch \<and>
        (\<forall>inst seq seq' bd. insts k = Some inst \<longrightarrow>
           normalize_spot_event event inst (shs_ctx u) (rf_recv_ts frame) seq =
             (Inr (Some (NM_BookDelta bd)), seq') \<longrightarrow>
           delta_faithful (hb k) (ha k) bd))"
| "input_faithful json u hb ha insts _ \<longleftrightarrow> True"

definition engine_insts :: "shard_engine \<Rightarrow> string \<Rightarrow> InstrumentDefinition option" where
  "engine_insts e k = map_option ss_inst (se_get k e)"

lemma exact_run:
  assumes "exact_inv.holds insts hb ha t" "\<forall>x \<in> set xs. input_faithful json u hb ha insts x"
  shows "exact_inv.holds insts hb ha (run_shard json u xs t)"
proof (rule run_shard_inv [where Q = "exact_inv.holds insts hb ha", OF assms(1)])
  fix now :: i64 and fetch and t :: "'a shard_task"
  assume "In_Tick now fetch \<in> set xs" "exact_inv.holds insts hb ha t"
  with assms(2) show "exact_inv.holds insts hb ha (on_tick u now fetch t)"
    by (auto intro!: exact_inv.holds_tick)
next
  fix clock fetch and t :: "'a shard_task"
  assume "In_Validation clock fetch \<in> set xs" "exact_inv.holds insts hb ha t"
  with assms(2) show "exact_inv.holds insts hb ha (on_validation_tick u clock fetch t)"
    by (auto intro!: exact_inv.holds_validation_tick)
next
  fix frame now fetch and t :: "'a shard_task"
  assume i: "In_Frame frame now fetch \<in> set xs" and h: "exact_inv.holds insts hb ha t"
  have f: "input_faithful json u hb ha insts (In_Frame frame now fetch)"
    using assms(2) i by blast
  show "exact_inv.holds insts hb ha (on_frame json u frame now fetch t)"
    by (rule exact_inv.holds_frame [OF h]) (use f h in \<open>auto simp: exact_inv.holds_def\<close>)
qed

lemma feed_run:
  assumes "feed_inv.holds t"
  shows "feed_inv.holds (run_shard json u xs t)"
  by (rule run_shard_inv [where Q = feed_inv.holds, OF assms])
    (auto intro: feed_inv.holds_tick feed_inv.holds_validation_tick feed_inv.holds_frame)

text \<open>A fresh task: every symbol in its initial state, every counter zero.\<close>

definition shard_engine_of :: "u32 \<Rightarrow> InstrumentDefinition list \<Rightarrow> shard_engine" where
  "shard_engine_of shard_id insts = fold se_add_symbol insts (ShardEngine_new shard_id)"

lemma shard_engine_of_state:
  assumes "se_get k (shard_engine_of shard_id insts) = Some s"
  shows "s = SymbolState_new (ss_inst s) \<and> id_symbol (ss_inst s) = k \<and> ss_inst s \<in> set insts"
  using assms unfolding shard_engine_of_def
  by (auto simp: se.fold_add_first se.lookup_empty [where n = shard_id] find_Some_iff SymbolState_new_def
      split: option.splits)

lemma shard_engine_of_wf: "hm_wf (se_symbols (shard_engine_of shard_id insts))"
proof -
  have "hm_wf (se_symbols e) \<Longrightarrow> hm_wf (se_symbols (fold se_add_symbol insts e))" for e
    by (induction insts arbitrary: e) (simp_all add: se_wf_add)
  then show ?thesis by (simp add: shard_engine_of_def ShardEngine_new_def)
qed

lemma counters_of_new: "counters_of (shard_task_new publisher hbt e) k = counters_default"
  by (auto simp: counters_of_def shard_task_new_def map_of_map_restrict restrict_map_def)

lemma new_holds:
  "feed_inv.holds (shard_task_new publisher hbt (shard_engine_of shard_id insts))"
  "exact_inv.holds (engine_insts (shard_engine_of shard_id insts)) hb ha
     (shard_task_new publisher hbt (shard_engine_of shard_id insts))"
proof -
  let ?t = "shard_task_new publisher hbt (shard_engine_of shard_id insts)"
  have e: "stk_engine ?t = shard_engine_of shard_id insts" by (simp add: shard_task_new_def)
  have s: "feed_ok s \<and> exact_ok h h' s counters_default" if "se_get k (stk_engine ?t) = Some s" for k s h h'
  proof -
    have "s = SymbolState_new (ss_inst s)" using shard_engine_of_state that e by metis
    moreover have "feed_ok (SymbolState_new i)" "exact_ok h h' (SymbolState_new i) counters_default" for i
      by (simp_all add: feed_ok_def exact_ok_def SymbolState_new_def OrderBook_new_def rb_new_def
          rb_with_limits_def counters_default_def)
    ultimately show ?thesis by metis
  qed
  then show "feed_inv.holds ?t" "exact_inv.holds (engine_insts (shard_engine_of shard_id insts)) hb ha ?t"
    by (simp_all add: feed_inv.holds_def exact_inv.holds_def counters_of_new e shard_engine_of_wf)
      (simp_all add: engine_insts_def)
qed

end
