(* ===== verification/Shard_Publish.thy ===== *)
theory Shard_Publish
  imports Shard_Run Wire_Properties
begin

text \<open>
  What the steps of a shard task publish: control messages of their instrument, numbered on from
  the counter, which follow the feed state of the symbol.
\<close>

section \<open>What a step publishes\<close>

text \<open>A publication that remembers what it was offered.\<close>

definition rec_offer :: "u8 list list offer" where
  "rec_offer bytes log = (OfferOk 0, log @ [bytes])"

definition published :: "u8 list list shard_setup \<Rightarrow> u8 list list shard_io \<Rightarrow> u8 list list" where
  "published u io = (case sp_publication (shs_shard_id u) (sio_publisher io) of Some log \<Rightarrow> log | None \<Rightarrow> [])"

definition recording :: "u8 list list shard_setup \<Rightarrow> u8 list list shard_io \<Rightarrow> bool" where
  "recording u io \<longleftrightarrow> shs_offer u = rec_offer \<and> sp_publication (shs_shard_id u) (sio_publisher io) \<noteq> None"

lemma offer_bytes_fields [simp]:
  "sio_seq (offer_bytes u n io) = sio_seq io" "sio_buf (offer_bytes u n io) = sio_buf io"
  by (simp_all add: offer_bytes_def)

lemma offer_bytes_published:
  assumes "recording u io"
  shows "recording u (offer_bytes u n io) \<and> published u (offer_bytes u n io) = published u io @ [take n (sio_buf io)]"
  using assms
  by (auto simp: recording_def published_def offer_bytes_def sp_offer_def sp_publication_def rec_offer_def update_conv')

lemma recording_buf [simp]:
  "recording u (io\<lparr>sio_seq := x\<rparr>) = recording u io" "recording u (io\<lparr>sio_buf := y\<rparr>) = recording u io"
  "published u (io\<lparr>sio_seq := x\<rparr>) = published u io" "published u (io\<lparr>sio_buf := y\<rparr>) = published u io"
  by (simp_all add: recording_def published_def)

text \<open>The control messages of an instrument that a step publishes, numbered on from the counter.\<close>

fun is_ctrl :: "normalized_message \<Rightarrow> bool" where
  "is_ctrl (NM_FeedStatus _) \<longleftrightarrow> True"
| "is_ctrl (NM_GapDetected _) \<longleftrightarrow> True"
| "is_ctrl (NM_BookStale _) \<longleftrightarrow> True"
| "is_ctrl (NM_BookRecovered _) \<longleftrightarrow> True"
| "is_ctrl _ \<longleftrightarrow> False"

definition ctrl_room :: "InstrumentDefinition \<Rightarrow> nat" where
  "ctrl_room inst = HEADER_SIZE + 18 + length (str_bytes (id_symbol inst))"

definition ctrl_of :: "InstrumentDefinition \<Rightarrow> normalized_message \<Rightarrow> bool" where
  "ctrl_of inst m \<longleftrightarrow> is_ctrl m \<and> nm_ok m \<and> length (nm_wire m) \<le> ctrl_room inst \<and>
     mh_instrument_id (nm_header m) = mh_instrument_id (id_header inst)"

definition emit :: "u8 list list shard_setup \<Rightarrow> normalized_message \<Rightarrow> u8 list list shard_io \<Rightarrow> u8 list list shard_io" where
  "emit u m io = offer_bytes u (length (nm_wire m))
     (io\<lparr>sio_seq := mh_sequence_number (nm_header m),
         sio_buf := nm_wire m @ drop (length (nm_wire m)) (sio_buf io)\<rparr>)"

inductive emits ::
  "u8 list list shard_setup \<Rightarrow> InstrumentDefinition \<Rightarrow> normalized_message list \<Rightarrow>
   u8 list list shard_io \<Rightarrow> u8 list list shard_io \<Rightarrow> bool" for u inst where
  emits_none: "emits u inst [] io io"
| emits_more: "emits u inst ms io io1 \<Longrightarrow> ctrl_of inst m \<Longrightarrow>
    mh_sequence_number (nm_header m) = sio_seq io1 + 1 \<Longrightarrow> emits u inst (ms @ [m]) io (emit u m io1)"

lemma emits_trans: "emits u inst ms' io1 io2 \<Longrightarrow> emits u inst ms io io1 \<Longrightarrow> emits u inst (ms @ ms') io io2"
proof (induction rule: emits.induct)
  case (emits_more ms' io1 io2 m)
  then show ?case using emits.emits_more [of u inst "ms @ ms'" io io2 m] by simp
qed simp

lemma emits_single:
  "ctrl_of inst m \<Longrightarrow> mh_sequence_number (nm_header m) = sio_seq io + 1 \<Longrightarrow> emits u inst [m] io (emit u m io)"
  using emits_more [OF emits_none, of inst m io u] by simp

lemma emits_room:
  "emits u inst ms io io' \<Longrightarrow> ctrl_room inst \<le> length (sio_buf io) \<Longrightarrow> length (sio_buf io') = length (sio_buf io)"
  by (induction rule: emits.induct) (auto simp: emit_def ctrl_of_def)

lemma emits_published:
  assumes "emits u inst ms io io'" "recording u io"
  shows "recording u io' \<and> published u io' = published u io @ map nm_wire ms"
  using assms by (induction rule: emits.induct) (auto simp: emit_def offer_bytes_published)

lemma emits_buf:
  assumes "emits u inst ms io io'" "sio_buf io = nm_wire m @ r" "ctrl_room inst \<le> length (sio_buf io)"
  shows "\<exists>r'. sio_buf io' = nm_wire (last (m # ms)) @ r'"
  using assms by (induction rule: emits.induct) (auto simp: emit_def)

lemma emits_numbers:
  assumes "emits u inst ms io io'"
  shows "map (mh_sequence_number \<circ> nm_header) ms = map (\<lambda>i. sio_seq io + of_nat i) [1..<Suc (length ms)] \<and>
    sio_seq io' = sio_seq io + of_nat (length ms)"
  using assms by (induction rule: emits.induct) (auto simp: emit_def)

lemma emits_ctrl: "emits u inst ms io io' \<Longrightarrow> \<forall>m \<in> set ms. ctrl_of inst m"
  by (induction rule: emits.induct) auto

text \<open>Offering a control message that fits is such a step.\<close>

lemma offer_ctrl_emits:
  assumes "\<And>h. mh_message_type h = mt \<Longrightarrow> mh_instrument_id h = mh_instrument_id (id_header inst) \<Longrightarrow>
      ctrl_of inst (msg h) \<and> nm_header (msg h) = h"
    and "ctrl_room inst \<le> length (sio_buf io)"
  shows "\<exists>h. emits u inst [msg h] io (offer_ctrl u mt msg inst ts io)"
proof -
  obtain h where h: "ctrl_hdr mt (shs_ctx u) inst ts (sio_seq io) = (h, sio_seq io + 1)"
      "mh_message_type h = mt" "mh_instrument_id h = mh_instrument_id (id_header inst)"
      "mh_sequence_number h = sio_seq io + 1"
    by (simp add: ctrl_hdr_def Let_def)
  note m = assms(1) [OF h(2,3)]
  then have w: "length (nm_wire (msg h)) \<le> length (sio_buf io)" and ok: "nm_ok (msg h)"
    using assms(2) by (auto simp: ctrl_of_def)
  have "offer_ctrl u mt msg inst ts io = emit u (msg h) io"
    using nm_encode_wire [OF ok w] h(1,4) m by (simp add: offer_ctrl_def offer_message_def emit_def)
  moreover have "emits u inst [msg h] io (emit u (msg h) io)"
    by (rule emits_single) (use m h in simp_all)
  ultimately show ?thesis by metis
qed

text \<open>What a consumer of the feed states of an instrument makes of the messages.\<close>

fun see_status :: "u32 \<Rightarrow> normalized_message \<Rightarrow> feed_state \<Rightarrow> feed_state" where
  "see_status i (NM_FeedStatus m) st = (if mh_instrument_id (fs_header m) = i then fs_state m else st)"
| "see_status i _ st = st"

definition work_emits :: "u8 list list shard_setup \<Rightarrow> u8 list list symbol_work \<Rightarrow> u8 list list symbol_work \<Rightarrow> bool" where
  "work_emits u w w' \<longleftrightarrow> (case w of (s, c, io) \<Rightarrow> case w' of (s', c', io') \<Rightarrow>
     ss_inst s' = ss_inst s \<and> (\<exists>ms. emits u (ss_inst s) ms io io' \<and>
       fold (see_status (mh_instrument_id (id_header (ss_inst s)))) ms (ss_feed_state s) = ss_feed_state s'))"

definition work_room :: "'p symbol_work \<Rightarrow> bool" where
  "work_room w \<longleftrightarrow> (case w of (s, c, io) \<Rightarrow>
     str_ok (id_symbol (ss_inst s)) \<and> ctrl_room (ss_inst s) \<le> length (sio_buf io))"

lemma work_emits_same:
  "ss_inst s' = ss_inst s \<Longrightarrow> ss_feed_state s' = ss_feed_state s \<Longrightarrow> work_emits u (s, c, io) (s', c', io)"
  by (auto simp: work_emits_def intro: exI [of _ "[]"] emits_none)

lemma work_emits_trans:
  assumes "work_emits u w w1" "work_emits u w1 w2"
  shows "work_emits u w w2"
proof -
  obtain s c io s1 c1 io1 s2 c2 io2 where w: "w = (s, c, io)" "w1 = (s1, c1, io1)" "w2 = (s2, c2, io2)"
    by (cases w; cases w1; cases w2)
  obtain ms where ms: "emits u (ss_inst s) ms io io1" "ss_inst s1 = ss_inst s"
    "fold (see_status (mh_instrument_id (id_header (ss_inst s)))) ms (ss_feed_state s) = ss_feed_state s1"
    using assms(1) by (auto simp: w work_emits_def)
  obtain ms' where ms': "emits u (ss_inst s1) ms' io1 io2" "ss_inst s2 = ss_inst s1"
    "fold (see_status (mh_instrument_id (id_header (ss_inst s1)))) ms' (ss_feed_state s1) = ss_feed_state s2"
    using assms(2) by (auto simp: w work_emits_def)
  have "emits u (ss_inst s) (ms @ ms') io io2"
    using emits_trans ms(1,2) ms'(1) by metis
  then show ?thesis
    using ms ms' by (auto simp: w work_emits_def intro!: exI [of _ "ms @ ms'"])
qed

lemma work_emits_room: "work_emits u w w' \<Longrightarrow> work_room w \<Longrightarrow> work_room w'"
  by (auto simp: work_emits_def work_room_def emits_room)

lemma ctrl_of_msgs:
  assumes "mh_instrument_id h = mh_instrument_id (id_header inst)" "str_ok (id_symbol inst)"
  shows
    "mh_message_type h = MT_FeedStatus \<Longrightarrow> ctrl_of inst (NM_FeedStatus \<lparr>fs_header = h, fs_state = st\<rparr>)"
    "mh_message_type h = MT_GapDetected \<Longrightarrow> ctrl_of inst (NM_GapDetected \<lparr>gd_header = h,
       gd_symbol = id_symbol inst, gd_expected_update_id = a, gd_received_update_id = b\<rparr>)"
    "mh_message_type h = MT_BookStale \<Longrightarrow> ctrl_of inst (NM_BookStale \<lparr>bst_header = h,
       bst_symbol = id_symbol inst, bst_reason = r\<rparr>)"
    "mh_message_type h = MT_BookRecovered \<Longrightarrow> ctrl_of inst (NM_BookRecovered \<lparr>br_header = h,
       br_symbol = id_symbol inst, br_snapshot_update_id = a\<rparr>)"
  using assms
  by (auto simp: ctrl_of_def ctrl_room_def FeedStatus_ok_def GapDetected_ok_def BookStale_ok_def BookRecovered_ok_def
      FeedStatus_wire_def GapDetected_wire_def BookStale_wire_def BookRecovered_wire_def str_wire_def)

lemma set_feed_state_emits:
  assumes "work_room w"
  shows "work_emits u w (set_feed_state u new ts w)"
proof -
  obtain s c io where w: "w = (s, c, io)" by (cases w)
  obtain h where "emits u (ss_inst s) [NM_FeedStatus \<lparr>fs_header = h, fs_state = new\<rparr>] io
      (offer_ctrl u MT_FeedStatus (\<lambda>h. NM_FeedStatus \<lparr>fs_header = h, fs_state = new\<rparr>) (ss_inst s) ts io)"
    using offer_ctrl_emits [of MT_FeedStatus "ss_inst s" "\<lambda>h. NM_FeedStatus \<lparr>fs_header = h, fs_state = new\<rparr>" io u ts]
      ctrl_of_msgs(1) assms by (auto simp: w work_room_def)
  moreover from this have "mh_instrument_id h = mh_instrument_id (id_header (ss_inst s))"
    by (auto dest!: emits_ctrl simp: ctrl_of_def)
  ultimately have "work_emits u w (s\<lparr>ss_feed_state := new\<rparr>, c, offer_ctrl u MT_FeedStatus
      (\<lambda>h. NM_FeedStatus \<lparr>fs_header = h, fs_state = new\<rparr>) (ss_inst s) ts io)"
    by (auto simp: w work_emits_def intro!: exI [of _ "[NM_FeedStatus \<lparr>fs_header = h, fs_state = new\<rparr>]"])
  then show ?thesis
    by (cases "ss_feed_state s = new") (simp_all add: w set_feed_state_eq work_emits_same)
qed

lemma offer_ctrl_work:
  assumes "work_room (s, c, io)" "ss_inst s' = ss_inst s" "ss_feed_state s' = ss_feed_state s"
    and "\<And>h. mh_message_type h = mt \<Longrightarrow> mh_instrument_id h = mh_instrument_id (id_header (ss_inst s)) \<Longrightarrow>
      ctrl_of (ss_inst s) (msg h) \<and> nm_header (msg h) = h"
    and "\<And>h st. see_status (mh_instrument_id (id_header (ss_inst s))) (msg h) st = st"
  shows "work_emits u (s, c, io) (s', c', offer_ctrl u mt msg (ss_inst s) ts io)"
proof -
  obtain h where "emits u (ss_inst s) [msg h] io (offer_ctrl u mt msg (ss_inst s) ts io)"
    using offer_ctrl_emits [of mt "ss_inst s" msg io u ts] assms(1,4) by (auto simp: work_room_def)
  then show ?thesis
    using assms(2,3,5) by (auto simp: work_emits_def intro!: exI [of _ "[msg h]"])
qed

lemma offer_gap_emits: "work_room w \<Longrightarrow> work_emits u w (offer_gap u a b ts w)"
  by (cases w) (auto simp: offer_gap_def work_room_def intro!: offer_ctrl_work ctrl_of_msgs)

lemma mark_book_stale_emits: "work_room w \<Longrightarrow> work_emits u w (mark_book_stale u r ts w)"
  by (cases w) (auto simp: mark_book_stale_def Let_def work_room_def intro!: offer_ctrl_work ctrl_of_msgs)

text \<open>Chains of steps, with the room carried along.\<close>

lemma work_emits_then:
  assumes "work_emits u w w1" "work_room w" "work_room w1 \<Longrightarrow> work_emits u w1 w2"
  shows "work_emits u w w2"
  using assms work_emits_trans work_emits_room by blast

lemma work_emits_update:
  assumes "ss_inst s' = ss_inst s" "ss_feed_state s' = ss_feed_state s" "work_room (s, c, io)"
    and "work_room (s', c', io) \<Longrightarrow> work_emits u (s', c', io) w"
  shows "work_emits u (s, c, io) w"
  by (rule work_emits_then [OF work_emits_same [OF assms(1,2)] assms(3,4)])

lemma buffer_delta_emits:
  assumes "work_room w"
  shows "work_emits u w (buffer_delta u bd ts n now w)"
proof -
  obtain s c io where w: "w = (s, c, io)" by (cases w)
  show ?thesis
    unfolding w buffer_delta_def Let_def
    by (auto split: prod.splits intro!: work_emits_same)
      (rule work_emits_update [OF _ _ assms [unfolded w] set_feed_state_emits]; simp)
qed

lemma recovery_failed_emits:
  assumes "work_room w"
  shows "work_emits u w (recovery_failed u g now w)"
proof -
  obtain s c io where w: "w = (s, c, io)" by (cases w)
  show ?thesis
    unfolding w recovery_failed_def Let_def
    by (auto split: prod.splits intro!: work_emits_same)
      (rule work_emits_update [OF _ _ assms [unfolded w] set_feed_state_emits]; simp)+
qed

lemma recovery_succeeded_emits:
  assumes "work_room w"
  shows "work_emits u w (recovery_succeeded u i now w)"
proof -
  obtain s c io where w: "w = (s, c, io)" by (cases w)
  let ?s = "s\<lparr>ss_circuit := cb_record_success (ss_circuit s), ss_bbo_validator := bv_clear (ss_bbo_validator s)\<rparr>"
  have "work_emits u w (?s, c\<lparr>ctr_recover_count := ctr_recover_count c + 1\<rparr>,
      offer_ctrl u MT_BookRecovered (\<lambda>hdr. NM_BookRecovered \<lparr>br_header = hdr,
        br_symbol = id_symbol (ss_inst s), br_snapshot_update_id = i\<rparr>) (ss_inst s) now io)"
    unfolding w by (rule offer_ctrl_work) (use assms in \<open>auto simp: w work_room_def intro: ctrl_of_msgs\<close>)
  from work_emits_then [OF this assms set_feed_state_emits] show ?thesis
    by (simp add: recovery_succeeded_def w Let_def)
qed

lemma attempt_recovery_emits:
  assumes "work_room w"
  shows "work_emits u w (attempt_recovery u g now fetch w)"
proof -
  obtain s c io where w1: "set_feed_state u FS_Recovering now w = (s, c, io)"
    by (cases "set_feed_state u FS_Recovering now w")
  have "work_emits u (s, c, io) (attempt_recovery u g now fetch w)" if room: "work_room (s, c, io)"
  proof (cases fetch)
    case (Inl e)
    then show ?thesis using room w1 by (simp add: attempt_recovery_def recovery_failed_emits)
  next
    case (Inr snap)
    obtain r :: "'a spot_recovery_error + recovery_outcome" and book v buf where
      a: "apply_spot_snapshot snap (ss_book s) (ss_validator s) (ss_recovery_buf s) = (r, book, v, buf)"
      by (cases "apply_spot_snapshot snap (ss_book s) (ss_validator s) (ss_recovery_buf s)
        :: ('a spot_recovery_error + recovery_outcome) \<times> _")
    show ?thesis
      by (cases r; rule work_emits_update [where s' = "s\<lparr>ss_book := book, ss_validator := v,
            ss_recovery_buf := buf\<rparr>" and c' = c, OF _ _ room])
        (simp_all add: attempt_recovery_def w1 Inr a Let_def recovery_failed_emits recovery_succeeded_emits)
  qed
  then show ?thesis
    using work_emits_then [OF set_feed_state_emits assms] assms w1 by metis
qed

lemma tick_recover_emits:
  assumes "work_room w"
  shows "work_emits u w (tick_recover u now fetch w)"
proof -
  obtain s c io where w: "w = (s, c, io)" by (cases w)
  show ?thesis
    unfolding w tick_recover_def Let_def
    by (auto split: prod.splits intro!: work_emits_same)
      (rule work_emits_update [OF _ _ assms [unfolded w] attempt_recovery_emits]; simp)
qed

lemma validate_symbol_emits:
  assumes "work_room w"
  shows "work_emits u w (validate_symbol u now fetch w)"
proof -
  obtain s c io where w: "w = (s, c, io)" by (cases w)
  have "work_emits u w (set_feed_state u FS_Stale now (mark_book_stale u BSR_SnapshotIncompatible now (s, c', io)))" for c'
    unfolding w
    by (rule work_emits_update [where c' = c', OF refl refl assms [unfolded w]])
      (blast intro: work_emits_then [OF mark_book_stale_emits] set_feed_state_emits)
  moreover have "work_emits u w w"
    unfolding w by (rule work_emits_same) simp_all
  ultimately show ?thesis
    by (auto simp: validate_symbol_def w split: sum.splits snapshot_check_result.splits)
qed

lemma handle_gap_emits:
  assumes "work_room w"
  shows "work_emits u w (handle_gap u bd a b ts n now fetch w)"
proof -
  obtain s c io where w: "w = (s, c, io)" by (cases w)
  let ?w0 = "(s, c\<lparr>ctr_gap_count := ctr_gap_count c + 1\<rparr>, io)"
  let ?w1 = "offer_gap u a b ts ?w0"
  let ?w2 = "mark_book_stale u BSR_SequenceGap ts ?w1"
  obtain s3 c3 io3 where w3: "buffer_delta u bd ts n now ?w2 = (s3, c3, io3)"
    by (cases "buffer_delta u bd ts n now ?w2")
  obtain st circuit where st: "cb_check now (ss_circuit s3) = (st, circuit)"
    by (cases "cb_check now (ss_circuit s3)")
  let ?w4 = "(s3\<lparr>ss_circuit := circuit\<rparr>, c3, io3)"
  have room0: "work_room ?w0" using assms by (simp add: w work_room_def)
  have e1: "work_emits u w ?w1"
    unfolding w by (rule work_emits_update [OF refl refl assms [unfolded w] offer_gap_emits])
  note room1 = work_emits_room [OF e1 assms]
  have e2: "work_emits u w ?w2"
    by (rule work_emits_trans [OF e1 mark_book_stale_emits [OF room1]])
  note room2 = work_emits_room [OF e2 assms]
  have e3: "work_emits u w (s3, c3, io3)"
    using work_emits_trans [OF e2 buffer_delta_emits [OF room2]] w3 by metis
  have e4: "work_emits u w ?w4"
    by (rule work_emits_trans [OF e3 work_emits_same]) simp_all
  note room4 = work_emits_room [OF e4 assms]
  show ?thesis
    using work_emits_trans [OF e4 set_feed_state_emits [OF room4]]
      work_emits_trans [OF e4 attempt_recovery_emits [where fetch = fetch, OF room4]]
    by (simp add: handle_gap_def w Let_def w3 st)
qed

lemma handle_delta_emits:
  assumes "work_room w"
  shows "work_emits u w (handle_delta u bd ts n now fetch w)"
proof -
  obtain s c io where w: "w = (s, c, io)" by (cases w)
  obtain r v where r: "sv_validate (bd_first_update_id bd) (bd_final_update_id bd)
      (ss_validator (seed_validator bd s)) = (r, v)"
    by (cases "sv_validate (bd_first_update_id bd) (bd_final_update_id bd) (ss_validator (seed_validator bd s))")
  define s1 where "s1 = (seed_validator bd s)\<lparr>ss_validator := v\<rparr>"
  have s1: "ss_inst s1 = ss_inst s" "ss_feed_state s1 = ss_feed_state s"
    by (simp_all add: s1_def seed_validator_def)
  have upd: "work_emits u w w'" if "work_room (s', c, io) \<Longrightarrow> work_emits u (s', c, io) w'"
    "ss_inst s' = ss_inst s" "ss_feed_state s' = ss_feed_state s" for s' w'
    unfolding w by (rule work_emits_update [OF that(2,3) assms [unfolded w] that(1)])
  let ?s2 = "s1\<lparr>ss_book := apply_delta bd (ss_book s1)\<rparr>"
  have "work_emits u w (?s2, c, io)" "work_emits u w (s1, c, io)"
    using s1 by (simp_all add: w work_emits_same)
  moreover have "work_emits u w (set_feed_state u FS_Live ts (?s2, c, io))"
    by (rule upd [OF set_feed_state_emits]) (simp_all add: s1)
  moreover have "work_emits u w (buffer_delta u bd ts n now (s1, c, io))"
    by (rule upd [OF buffer_delta_emits]) (simp_all add: s1)
  moreover have "work_emits u w (handle_gap u bd a b ts n now fetch (s1, c, io))" for a b
    by (rule upd [OF handle_gap_emits]) (simp_all add: s1)
  ultimately show ?thesis
    by (cases r) (simp_all add: w handle_delta_eq [OF r s1_def] Let_def)
qed

lemma handle_bbo_emits:
  assumes "work_room w"
  shows "work_emits u w (handle_bbo u b ts w)"
proof -
  obtain s c io where w: "w = (s, c, io)" by (cases w)
  have upd: "work_emits u w w'" if "work_room (s', c', io) \<Longrightarrow> work_emits u (s', c', io) w'"
    "ss_inst s' = ss_inst s" "ss_feed_state s' = ss_feed_state s" for s' c' w'
    unfolding w by (rule work_emits_update [OF that(2,3) assms [unfolded w] that(1)])
  have "work_emits u w (s\<lparr>ss_bbo_validator := v\<rparr>, c', io)" for v c'
    by (simp add: w work_emits_same)
  moreover have "work_emits u w (set_feed_state u FS_Degraded ts (s\<lparr>ss_bbo_validator := v\<rparr>, c', io))" for v c'
    by (rule upd [OF set_feed_state_emits]) simp_all
  moreover have "work_emits u w (set_feed_state u FS_Stale ts
      (mark_book_stale u BSR_BboMismatch ts (s\<lparr>ss_bbo_validator := v\<rparr>, c', io)))" for v c'
    by (rule upd [where s' = "s\<lparr>ss_bbo_validator := v\<rparr>" and c' = c'])
      (auto intro: work_emits_then [OF mark_book_stale_emits] set_feed_state_emits)
  ultimately show ?thesis
    by (auto simp: w handle_bbo_def Let_def split: prod.splits bbo_check_result.splits)
qed

text \<open>The dispatch, and the offer behind it.\<close>

lemma handle_message_emits:
  assumes "work_room w"
  obtains w' where "work_emits u w w'"
    "handle_message u msg ts n now fetch w = (fst w', fst (snd w'), offer_bytes u n (snd (snd w')))"
proof -
  obtain s c io where w: "w = (s, c, io)" by (cases w)
  let ?c = "c\<lparr>ctr_total_msgs := ctr_total_msgs c + 1, ctr_msgs_this_sec := ctr_msgs_this_sec c + 1\<rparr>"
  define w' where "w' = (case msg of
       NM_BookDelta bd \<Rightarrow> handle_delta u bd ts n now fetch (s, ?c, io)
     | NM_BestBidOffer b \<Rightarrow> handle_bbo u b ts (s, ?c, io)
     | NM_Trade _ \<Rightarrow> (s, ?c\<lparr>ctr_trade_count := ctr_trade_count ?c + 1\<rparr>, io)
     | _ \<Rightarrow> (s, ?c, io))"
  have eq: "handle_message u msg ts n now fetch w = (fst w', fst (snd w'), offer_bytes u n (snd (snd w')))"
    by (simp add: handle_message_def w w'_def Let_def split_beta split: normalized_message.split)
  have "work_emits u w w'"
    unfolding w w'_def
    by (cases msg)
      (auto simp: work_emits_same intro!: work_emits_update [OF _ _ assms [unfolded w]] handle_delta_emits handle_bbo_emits)
  from that [OF this eq] show ?thesis .
qed

end
