(* ===== verification/Shard_Properties.thy ===== *)
theory Shard_Properties
  imports Shard_Publish Feed_Properties
begin

text \<open>
  The properties of the Spot shard pipeline: recovered books are exact, the published feed state is
  the state the task is in, and what a frame publishes is the control messages of its step, behind
  which stands the message of the frame only when there are none.
\<close>

section \<open>What a frame publishes\<close>

text \<open>The messages of the normalizer have room for every control message of their instrument.\<close>

lemma normalized_room:
  assumes "normalize_spot_event event inst ctx recv_ts seq = (Inr (Some m), seq')"
  shows "ctrl_room inst \<le> length (nm_wire m) \<and> (\<forall>i st. see_status i m st = st)"
  using assms
  by (auto simp: normalize_spot_event_def take_seq_def Let_def and_then_Inr_iff
      normalize_book_ticker_def normalize_depth_update_def normalize_trade_def ctrl_room_def
      BestBidOffer_wire_def BookDelta_wire_def Trade_wire_def str_wire_def
      split: spot_event.splits)

lemma from_bytes_ctrl: "\<forall>m \<in> set ms. ctrl_of inst m \<Longrightarrow> map (nm_from_bytes \<circ> nm_wire) ms = map Inr ms"
  using nm_from_bytes_wire [where rest = "[]"] by (auto simp: ctrl_of_def)

lemma handle_message_published:
  assumes "recording u io" "sio_buf io = nm_wire m @ r" "nm_ok m" "str_ok (id_symbol (ss_inst s))"
    and "ctrl_room (ss_inst s) \<le> length (nm_wire m)"
    and "handle_message u m ts (length (nm_wire m)) now fetch (s, c, io) = (s', c', io')"
  obtains ms where "\<forall>x \<in> set ms. ctrl_of (ss_inst s) x"
    "map nm_from_bytes (published u io') = map nm_from_bytes (published u io) @ map Inr ms @ [Inr (last (m # ms))]"
    "map (mh_sequence_number \<circ> nm_header) ms = map (\<lambda>i. sio_seq io + of_nat i) [1..<Suc (length ms)]"
    "sio_seq io' = sio_seq io + of_nat (length ms)" "recording u io'"
    "fold (see_status (mh_instrument_id (id_header (ss_inst s)))) ms (ss_feed_state s) = ss_feed_state s'"
    "ss_inst s' = ss_inst s" "length (sio_buf io') = length (sio_buf io)"
proof -
  have room: "work_room (s, c, io)"
    using assms by (simp add: work_room_def)
  obtain w where w: "work_emits u (s, c, io) w"
    "handle_message u m ts (length (nm_wire m)) now fetch (s, c, io) =
      (fst w, fst (snd w), offer_bytes u (length (nm_wire m)) (snd (snd w)))"
    by (rule handle_message_emits [OF room])
  obtain io1 where io1: "w = (s', c', io1)" "io' = offer_bytes u (length (nm_wire m)) io1"
    using w(2) assms(6) by (cases w) auto
  obtain ms where ms: "emits u (ss_inst s) ms io io1" "ss_inst s' = ss_inst s"
    "fold (see_status (mh_instrument_id (id_header (ss_inst s)))) ms (ss_feed_state s) = ss_feed_state s'"
    using w(1) by (auto simp: io1 work_emits_def)
  have len: "ctrl_room (ss_inst s) \<le> length (sio_buf io)"
    using assms(2,5) by simp
  note pub = emits_published [OF ms(1) assms(1)] and ctrl = emits_ctrl [OF ms(1)]
  obtain r' where r': "sio_buf io1 = nm_wire (last (m # ms)) @ r'"
    using emits_buf [OF ms(1) assms(2) len] by blast
  have "last (m # ms) \<in> set (m # ms)" by (rule last_in_set) simp
  then have "nm_ok (last (m # ms))" "length (nm_wire (last (m # ms))) \<le> length (nm_wire m)"
    using ctrl assms(3,5) by (auto simp: ctrl_of_def split: if_splits) (meson last_in_set order_trans)
  then have "nm_from_bytes (take (length (nm_wire m)) (sio_buf io1)) = Inr (last (m # ms))"
    by (simp add: r' nm_from_bytes_wire)
  then have "map nm_from_bytes (published u io') =
      map nm_from_bytes (published u io) @ map Inr ms @ [Inr (last (m # ms))]"
    using pub offer_bytes_published [of u io1] from_bytes_ctrl [OF ctrl] by (simp add: io1)
  with that [OF ctrl this _ _ _ ms(3,2)] emits_numbers [OF ms(1)] pub offer_bytes_published [of u io1]
    emits_room [OF ms(1) len]
  show thesis by (simp add: io1)
qed

lemma on_frame_handled:
  assumes "parse_spot_message json (rf_payload frame) = Inr event" "symbol_from_event event = Some k"
    and "se_get k (stk_engine t) = Some s"
    and "normalize_spot_event event (ss_inst s) (shs_ctx u) (rf_recv_ts frame) (sio_seq (stk_io t)) =
      (Inr (Some m), seq)"
    and "nm_ok m" "length (nm_wire m) \<le> length (sio_buf (stk_io t))"
    and io: "io = (stk_io t)\<lparr>sio_seq := seq, sio_buf := nm_wire m @ drop (length (nm_wire m)) (sio_buf (stk_io t))\<rparr>"
    and h: "handle_message u m (rf_recv_ts frame) (length (nm_wire m)) now fetch (s, counters_of t k, io) = (s', c', io')"
  shows "stk_io (on_frame json u frame now fetch t) = io'"
    and "se_get k (stk_engine (on_frame json u frame now fetch t)) = Some s'"
    and "counters_of (on_frame json u frame now fetch t) k = c'"
proof -
  let ?f = "handle_message u m (rf_recv_ts frame) (length (nm_wire m)) now fetch"
  have frame: "on_frame json u frame now fetch t = at_symbol k ?f (t\<lparr>stk_io := io\<rparr>)"
    using assms nm_encode_wire [OF assms(5,6)] by (simp add: on_frame_def)
  have c: "counters_of (t\<lparr>stk_io := io\<rparr>) k = counters_of t k" by (simp add: counters_of_def)
  note get = at_symbol_get [of k "t\<lparr>stk_io := io\<rparr>" s ?f]
  show "stk_io (on_frame json u frame now fetch t) = io'"
    "se_get k (stk_engine (on_frame json u frame now fetch t)) = Some s'"
    "counters_of (on_frame json u frame now fetch t) k = c'"
    unfolding frame using get(1-3) assms(3) h c by simp_all
qed

text \<open>C9: A recognised frame whose message fits the buffer publishes the control messages of its step,
  numbered on from the counter behind the message. When there are none the message follows, as it
  is; otherwise the buffer holds the last control message by then, which is published once more,
  and the message of the frame never is. There is one whenever the feed state changes.\<close>

theorem frame_published_or_overwritten:
  assumes "recording u (stk_io t)" "parse_spot_message json (rf_payload frame) = Inr event"
    and "symbol_from_event event = Some k" "se_get k (stk_engine t) = Some s"
    and "normalize_spot_event event (ss_inst s) (shs_ctx u) (rf_recv_ts frame) (sio_seq (stk_io t)) =
      (Inr (Some m), seq)"
    and "str_ok (id_symbol (ss_inst s))" "spot_event_small event"
    and "length (nm_wire m) \<le> length (sio_buf (stk_io t))"
    and t': "t' = on_frame json u frame now fetch t"
  shows "\<exists>ms s'. (\<forall>x \<in> set ms. is_ctrl x) \<and> se_get k (stk_engine t') = Some s' \<and>
    map nm_from_bytes (published u (stk_io t')) =
      map nm_from_bytes (published u (stk_io t)) @ map Inr ms @ [Inr (if ms = [] then m else last ms)] \<and>
    map (mh_sequence_number \<circ> nm_header) ms = map (\<lambda>i. seq + of_nat i) [1..<Suc (length ms)] \<and>
    sio_seq (stk_io t') = seq + of_nat (length ms) \<and>
    (ss_feed_state s' \<noteq> ss_feed_state s \<longrightarrow> ms \<noteq> [])"
proof -
  note ok = normalize_spot_ok [OF assms(5-7)] and room = normalized_room [OF assms(5)]
  define io where "io = (stk_io t)\<lparr>sio_seq := seq, sio_buf := nm_wire m @ drop (length (nm_wire m)) (sio_buf (stk_io t))\<rparr>"
  obtain s' c' io' where h: "handle_message u m (rf_recv_ts frame) (length (nm_wire m)) now fetch
      (s, counters_of t k, io) = (s', c', io')"
    by (cases "handle_message u m (rf_recv_ts frame) (length (nm_wire m)) now fetch (s, counters_of t k, io)")
  note step = on_frame_handled [OF assms(2-5) ok assms(8) io_def h]
  have rec: "recording u io" "published u io = published u (stk_io t)" "sio_seq io = seq"
    and buf: "sio_buf io = nm_wire m @ drop (length (nm_wire m)) (sio_buf (stk_io t))"
    using assms(1) by (simp_all add: recording_def published_def io_def)
  obtain ms where ms: "\<forall>x \<in> set ms. ctrl_of (ss_inst s) x"
    "map nm_from_bytes (published u io') = map nm_from_bytes (published u io) @ map Inr ms @ [Inr (last (m # ms))]"
    "map (mh_sequence_number \<circ> nm_header) ms = map (\<lambda>i. sio_seq io + of_nat i) [1..<Suc (length ms)]"
    "sio_seq io' = sio_seq io + of_nat (length ms)"
    "fold (see_status (mh_instrument_id (id_header (ss_inst s)))) ms (ss_feed_state s) = ss_feed_state s'"
    by (rule handle_message_published [OF rec(1) buf ok assms(6) conjunct1 [OF room] h])
  then show ?thesis
    unfolding t' step rec by (intro exI [of _ ms] exI [of _ s']) (auto simp: rec ctrl_of_def)
qed

section \<open>The published feed state\<close>

definition see_bytes :: "u32 \<Rightarrow> u8 list \<Rightarrow> feed_state \<Rightarrow> feed_state" where
  "see_bytes i bytes st = (case nm_from_bytes bytes of Inr m \<Rightarrow> see_status i m st | Inl _ \<Rightarrow> st)"

text \<open>The feed state of instrument \<open>i\<close> to a consumer that starts at \<open>Connecting\<close>.\<close>

definition consumer_state :: "u32 \<Rightarrow> u8 list list \<Rightarrow> feed_state" where
  "consumer_state i log = fold (see_bytes i) log FS_Connecting"

lemma see_bytes_decoded:
  "map nm_from_bytes log = map nm_from_bytes log0 @ map Inr ms \<Longrightarrow>
   consumer_state i log = fold (see_status i) ms (consumer_state i log0)"
proof -
  have f: "fold (see_bytes i) l st = fold (\<lambda>x st. case x of Inr m \<Rightarrow> see_status i m st | Inl _ \<Rightarrow> st)
      (map nm_from_bytes l) st" for l st
    by (induction l arbitrary: st) (simp_all add: see_bytes_def)
  have g: "fold (\<lambda>x st. case x of Inr m \<Rightarrow> see_status i m st | Inl (_ :: core_error) \<Rightarrow> st) (map Inr ms) st =
      fold (see_status i) ms st" for st
    by (induction ms arbitrary: st) simp_all
  assume "map nm_from_bytes log = map nm_from_bytes log0 @ map Inr ms"
  then show ?thesis by (simp add: consumer_state_def f g)
qed

lemma see_status_other:
  "ctrl_of inst m \<Longrightarrow> i \<noteq> mh_instrument_id (id_header inst) \<Longrightarrow> see_status i m st = st"
  by (cases m) (auto simp: ctrl_of_def)

lemma fold_see_other:
  "\<forall>m \<in> set ms. ctrl_of inst m \<Longrightarrow> i \<noteq> mh_instrument_id (id_header inst) \<Longrightarrow> fold (see_status i) ms st = st"
  by (induction ms arbitrary: st) (auto simp: see_status_other)

lemma see_last_again: "ms \<noteq> [] \<Longrightarrow> see_status i (last ms) (fold (see_status i) ms st) = fold (see_status i) ms st"
proof (induction ms rule: rev_induct)
  case (snoc m ms)
  show ?case by (cases m) auto
qed simp

text \<open>
  The shard between its turns: the log is kept, there is room for control messages, and the
  consumer's state of every instrument is the one of its symbol. Instruments have their own ids.
\<close>

definition inst_ids_distinct :: "(string \<Rightarrow> InstrumentDefinition option) \<Rightarrow> bool" where
  "inst_ids_distinct insts \<longleftrightarrow> (\<forall>k k' i i'. insts k = Some i \<longrightarrow> insts k' = Some i' \<longrightarrow>
     mh_instrument_id (id_header i) = mh_instrument_id (id_header i') \<longrightarrow> k = k')"

definition insts_fit :: "(string \<Rightarrow> InstrumentDefinition option) \<Rightarrow> nat \<Rightarrow> bool" where
  "insts_fit insts n \<longleftrightarrow> HEADER_SIZE \<le> n \<and> (\<forall>k i. insts k = Some i \<longrightarrow> str_ok (id_symbol i) \<and> ctrl_room i \<le> n)"

definition mirrored ::
  "u8 list list shard_setup \<Rightarrow> (string \<Rightarrow> InstrumentDefinition option) \<Rightarrow> nat \<Rightarrow> u8 list list shard_task \<Rightarrow> bool" where
  "mirrored u insts n t \<longleftrightarrow> recording u (stk_io t) \<and> length (sio_buf (stk_io t)) = n \<and>
     hm_wf (se_symbols (stk_engine t)) \<and>
     (\<forall>k s. se_get k (stk_engine t) = Some s \<longrightarrow> insts k = Some (ss_inst s) \<and>
        consumer_state (mh_instrument_id (id_header (ss_inst s))) (published u (stk_io t)) = ss_feed_state s)"

lemma mirrored_io:
  assumes "mirrored u insts n t" "recording u io" "length (sio_buf io) = n"
    and "\<And>i. consumer_state i (published u io) = consumer_state i (published u (stk_io t))"
  shows "mirrored u insts n (t\<lparr>stk_io := io\<rparr>)"
  using assms by (simp add: mirrored_def)

text \<open>One symbol moves on, with what it published.\<close>

lemma mirrored_at_symbol:
  assumes m: "mirrored u insts n t" and d: "inst_ids_distinct insts" and s: "se_get k (stk_engine t) = Some s"
    and f: "f (s, counters_of t k, stk_io t) = (s', c', io')" and i: "ss_inst s' = ss_inst s"
    and r: "recording u io'" "length (sio_buf io') = n"
    and own: "consumer_state (mh_instrument_id (id_header (ss_inst s))) (published u io') = ss_feed_state s'"
    and other: "\<And>i. i \<noteq> mh_instrument_id (id_header (ss_inst s)) \<Longrightarrow>
      consumer_state i (published u io') = consumer_state i (published u (stk_io t))"
  shows "mirrored u insts n (at_symbol k f t)"
proof -
  note get = at_symbol_get [of k t s f, OF s f]
  have k: "insts k = Some (ss_inst s)" using m s by (simp add: mirrored_def)
  have "insts j = Some (ss_inst x) \<and>
      consumer_state (mh_instrument_id (id_header (ss_inst x))) (published u io') = ss_feed_state x"
    if x: "se_get j (stk_engine (at_symbol k f t)) = Some x" for j x
  proof (cases "j = k")
    case True
    with x get(1) k i own show ?thesis by simp
  next
    case False
    with x get(1) have "se_get j (stk_engine t) = Some x" by simp
    with m have j: "insts j = Some (ss_inst x)"
      "consumer_state (mh_instrument_id (id_header (ss_inst x))) (published u (stk_io t)) = ss_feed_state x"
      by (simp_all add: mirrored_def)
    with d k False have "mh_instrument_id (id_header (ss_inst x)) \<noteq> mh_instrument_id (id_header (ss_inst s))"
      unfolding inst_ids_distinct_def by metis
    with j other show ?thesis by simp
  qed
  moreover have "hm_wf (se_symbols (stk_engine (at_symbol k f t)))"
    using get(5) m by (simp add: mirrored_def)
  ultimately show ?thesis
    using get(3) r by (simp add: mirrored_def)
qed

lemma mirrored_step:
  assumes m: "mirrored u insts n t" and d: "inst_ids_distinct insts" "insts_fit insts n"
    and f: "\<And>w. work_room w \<Longrightarrow> work_emits u w (f w)"
  shows "mirrored u insts n (at_symbol k f t)"
proof (cases "se_get k (stk_engine t)")
  case None
  with m show ?thesis by (simp add: at_symbol_None)
next
  case (Some s)
  obtain s' c' io' where e: "f (s, counters_of t k, stk_io t) = (s', c', io')"
    by (cases "f (s, counters_of t k, stk_io t)")
  have ms: "insts k = Some (ss_inst s)" "recording u (stk_io t)" "length (sio_buf (stk_io t)) = n"
    "consumer_state (mh_instrument_id (id_header (ss_inst s))) (published u (stk_io t)) = ss_feed_state s"
    using m Some by (simp_all add: mirrored_def)
  then have room: "work_room (s, counters_of t k, stk_io t)" "ctrl_room (ss_inst s) \<le> length (sio_buf (stk_io t))"
    using d(2) by (auto simp: work_room_def insts_fit_def)
  obtain xs where xs: "ss_inst s' = ss_inst s" "emits u (ss_inst s) xs (stk_io t) io'"
    "fold (see_status (mh_instrument_id (id_header (ss_inst s)))) xs (ss_feed_state s) = ss_feed_state s'"
    using f [OF room(1)] e by (auto simp: work_emits_def)
  note pub = emits_published [OF xs(2) ms(2)] and ctrl = emits_ctrl [OF xs(2)]
  have see: "consumer_state i (published u io') = fold (see_status i) xs (consumer_state i (published u (stk_io t)))" for i
    by (rule see_bytes_decoded) (use pub from_bytes_ctrl [OF ctrl] in simp)
  show ?thesis
    by (rule mirrored_at_symbol [where f = f, OF m d(1) Some e xs(1)])
      (use pub see xs ms emits_room [OF xs(2) room(2)] fold_see_other [OF ctrl] in simp_all)
qed

lemma mirrored_message:
  assumes t: "mirrored u insts n t" and d: "inst_ids_distinct insts"
    and s: "se_get k (stk_engine t) = Some s" "str_ok (id_symbol (ss_inst s))"
    and m: "nm_ok m" "ctrl_room (ss_inst s) \<le> length (nm_wire m)" "\<forall>i st. see_status i m st = st"
    and buf: "sio_buf (stk_io t) = nm_wire m @ r"
  shows "mirrored u insts n (at_symbol k (handle_message u m ts (length (nm_wire m)) now fetch) t)"
proof -
  let ?f = "handle_message u m ts (length (nm_wire m)) now fetch"
  obtain s' c' io' where h: "?f (s, counters_of t k, stk_io t) = (s', c', io')"
    by (cases "?f (s, counters_of t k, stk_io t)")
  have rec: "recording u (stk_io t)" using t by (simp add: mirrored_def)
  show ?thesis
  proof (rule handle_message_published [OF rec buf m(1) s(2) m(2) h])
    fix ms
    assume ctrl: "\<forall>x \<in> set ms. ctrl_of (ss_inst s) x" and rec': "recording u io'" "ss_inst s' = ss_inst s"
      and pub: "map nm_from_bytes (published u io') =
        map nm_from_bytes (published u (stk_io t)) @ map Inr ms @ [Inr (last (m # ms))]"
      and st: "fold (see_status (mh_instrument_id (id_header (ss_inst s)))) ms (ss_feed_state s) = ss_feed_state s'"
      and len: "length (sio_buf io') = length (sio_buf (stk_io t))"
    have see: "consumer_state i (published u io') = fold (see_status i) ms (consumer_state i (published u (stk_io t)))" for i
    proof -
      have "consumer_state i (published u io') =
          see_status i (last (m # ms)) (fold (see_status i) ms (consumer_state i (published u (stk_io t))))"
        using see_bytes_decoded [of "published u io'" "published u (stk_io t)" "ms @ [last (m # ms)]" i] pub by simp
      then show ?thesis
        using see_last_again [of ms i] m(3) by (cases "ms = []") simp_all
    qed
    show ?thesis
      by (rule mirrored_at_symbol [where f = ?f, OF t d s(1) h rec'(2,1)])
        (use see st t s len fold_see_other [OF ctrl] in \<open>simp_all add: mirrored_def\<close>)
  qed
qed

lemma mirrored_fold:
  assumes "mirrored u insts n t" "inst_ids_distinct insts" "insts_fit insts n" "distinct ks"
    and "\<And>k w. work_room w \<Longrightarrow> work_emits u w (f k w)"
  shows "mirrored u insts n (fold (\<lambda>k. at_symbol k (f k)) ks t)"
  by (rule fold_at_symbol [where Q = "mirrored u insts n" and D = "\<lambda>s. True", OF assms(4,1)])
    (auto intro: mirrored_step assms)

lemma mirrored_heartbeat:
  assumes "mirrored u insts n t" "HEADER_SIZE \<le> n"
  shows "mirrored u insts n (shard_heartbeat u now t)"
proof -
  obtain h seq where h: "shard_hdr MT_Heartbeat (shs_ctx u) now (sio_seq (stk_io t)) = (h, seq)"
      "mh_message_type h = MT_Heartbeat"
    by (simp add: shard_hdr_def Let_def)
  let ?m = "NM_Heartbeat \<lparr>hb_header = h\<rparr>" and ?start = "(stk_io t)\<lparr>sio_seq := seq\<rparr>"
  have m: "nm_ok ?m" "length (nm_wire ?m) \<le> length (sio_buf (stk_io t))"
    using h(2) assms by (simp_all add: mirrored_def)
  let ?io = "?start\<lparr>sio_buf := nm_wire ?m @ drop (length (nm_wire ?m)) (sio_buf (stk_io t))\<rparr>"
  have rec: "recording u ?io" "published u ?io = published u (stk_io t)"
    using assms by (simp_all add: mirrored_def recording_def published_def)
  have o: "offer_message u ?m ?start = offer_bytes u (length (nm_wire ?m)) ?io"
    using nm_encode_wire [OF m] by (simp add: offer_message_def)
  note p = offer_bytes_published [OF rec(1), of "length (nm_wire ?m)"]
  have dec: "nm_from_bytes (take (length (nm_wire ?m)) (sio_buf ?io)) = Inr ?m"
    using nm_from_bytes_wire [OF m(1), of "[]"] by simp
  have "consumer_state i (published u (offer_message u ?m ?start)) = consumer_state i (published u (stk_io t))" for i
    using see_bytes_decoded [of "published u (offer_message u ?m ?start)" "published u (stk_io t)" "[?m]" i]
      p rec(2) dec by (simp add: o)
  moreover have "recording u (offer_message u ?m ?start)" "length (sio_buf (offer_message u ?m ?start)) = n"
    using p assms(1) m(2) by (simp_all add: o mirrored_def)
  ultimately have "mirrored u insts n (t\<lparr>stk_io := offer_message u ?m ?start\<rparr>)"
    by (intro mirrored_io [OF assms(1)])
  then have "mirrored u insts n (t\<lparr>stk_io := offer_message u ?m ?start,
      stk_heartbeater := hbt_record_beat now (stk_heartbeater t)\<rparr>)"
    by (simp add: mirrored_def)
  then show ?thesis
    using assms(1) by (simp add: shard_heartbeat_def h(1))
qed

lemma mirrored_tick:
  assumes "mirrored u insts n t" "inst_ids_distinct insts" "insts_fit insts n"
  shows "mirrored u insts n (on_tick u now fetch t)"
proof -
  let ?ks = "map fst (filter (\<lambda>(_, s). ss_is_stale s) (se_symbols (stk_engine t)))"
  let ?t1 = "fold (\<lambda>k. at_symbol k (tick_recover u now (fetch k))) ?ks t"
  have "distinct ?ks" using assms(1) by (simp add: mirrored_def hm_wf_def distinct_map_filter)
  then have "mirrored u insts n ?t1"
    by (rule mirrored_fold [OF assms]) (rule tick_recover_emits)
  then have "mirrored u insts n (?t1\<lparr>stk_counters := c\<rparr>)" for c
    by (simp add: mirrored_def)
  then show ?thesis
    using assms(3) by (simp add: on_tick_def Let_def mirrored_heartbeat insts_fit_def)
qed

lemma mirrored_validation:
  assumes "mirrored u insts n t" "inst_ids_distinct insts" "insts_fit insts n"
  shows "mirrored u insts n (on_validation_tick u clock fetch t)"
  unfolding on_validation_tick_def Let_def
  by (rule mirrored_fold [OF assms])
    (use assms(1) in \<open>simp_all add: mirrored_def hm_wf_def distinct_map_filter validate_symbol_emits\<close>)

definition frame_small :: "'j spot_json \<Rightarrow> raw_frame \<Rightarrow> bool" where
  "frame_small json frame \<longleftrightarrow>
     (case parse_spot_message json (rf_payload frame) of Inr event \<Rightarrow> spot_event_small event | Inl _ \<Rightarrow> True)"

lemma mirrored_frame:
  assumes t: "mirrored u insts n t" and d: "inst_ids_distinct insts" "insts_fit insts n" "frame_small json frame"
  shows "mirrored u insts n (on_frame json u frame now fetch t)"
proof (cases rule: on_frame_cases [of json u frame now fetch t])
  case (ignored seq)
  with t show ?thesis by (simp add: mirrored_def)
next
  case (unencodable event k s m seq e buf)
  have "str_ok (id_symbol (ss_inst s))" "spot_event_small event"
    using t d unencodable by (auto simp: mirrored_def insts_fit_def frame_small_def)
  from normalize_spot_ok [OF unencodable(4) this]
  have ok: "nm_ok m" .
  have "length buf = length (sio_buf (stk_io t))"
    using unencodable(5) nm_encode_wire [OF ok] nm_no_room [OF ok, of "sio_buf (stk_io t)"]
    by (cases "length (nm_wire m) \<le> length (sio_buf (stk_io t))") auto
  with t show ?thesis by (simp add: unencodable(6) mirrored_def)
next
  case (handled event k s m seq len buf)
  have sym: "str_ok (id_symbol (ss_inst s))" "spot_event_small event"
    using t d handled by (auto simp: mirrored_def insts_fit_def frame_small_def)
  note ok = normalize_spot_ok [OF handled(4) sym] and room = normalized_room [OF handled(4)]
  have fits: "length (nm_wire m) \<le> length (sio_buf (stk_io t))"
    using handled(5) nm_no_room [OF ok, of "sio_buf (stk_io t)"] by (metis not_less Inl_Inr_False prod.inject)
  then have buf: "len = length (nm_wire m)" "buf = nm_wire m @ drop len (sio_buf (stk_io t))"
    using handled(5) nm_encode_wire [OF ok] by auto
  let ?t = "t\<lparr>stk_io := (stk_io t)\<lparr>sio_seq := seq, sio_buf := buf\<rparr>\<rparr>"
  have "mirrored u insts n ?t"
    by (rule mirrored_io [OF t]) (use t fits buf in \<open>simp_all add: mirrored_def recording_def published_def\<close>)
  from mirrored_message [where fetch = fetch, OF this d(1), of k s m] handled(3) sym ok room buf show ?thesis
    by (simp add: handled(6))
qed

lemma mirrored_run:
  assumes "mirrored u insts n t" "inst_ids_distinct insts" "insts_fit insts n"
    and "\<forall>frame now fetch. In_Frame frame now fetch \<in> set xs \<longrightarrow> frame_small json frame"
  shows "mirrored u insts n (run_shard json u xs t)"
  by (rule run_shard_inv [where Q = "mirrored u insts n", OF assms(1)])
    (use assms(2-4) in \<open>auto intro: mirrored_tick mirrored_validation mirrored_frame\<close>)

text \<open>A shard with a recording publication.\<close>

definition recording_setup :: "u32 \<Rightarrow> u8 list list shard_setup" where
  "recording_setup i = \<lparr>shs_offer = rec_offer, shs_shard_id = i, shs_ctx = shard_ctx i\<rparr>"

definition recording_task :: "u32 \<Rightarrow> heartbeater \<Rightarrow> InstrumentDefinition list \<Rightarrow> u8 list list shard_task" where
  "recording_task i hbt insts = shard_task_new (sp_new [(i, [])]) hbt (shard_engine_of i insts)"

lemma mirrored_new:
  "mirrored (recording_setup i) (engine_insts (shard_engine_of i insts)) 8192 (recording_task i hbt insts)"
proof -
  have init: "ss_feed_state s = FS_Connecting" if "se_get k (shard_engine_of i insts) = Some s" for k s
    using shard_engine_of_state [OF that] by (metis SymbolState_new_def symbol_state.select_convs(7))
  then show ?thesis
    by (auto simp: mirrored_def recording_task_def shard_task_new_def recording_def recording_setup_def published_def
        sp_publication_def sp_new_def shard_engine_of_wf engine_insts_def consumer_state_def)
qed

text \<open>C8: After any run of a Spot shard whose instruments have distinct ids and names that fit the wire
  format, a consumer that reads the published feed states knows the feed state of every symbol;
  and a stale book is never behind a feed announced as live or connecting, a feed announced as
  stale or recovering never in front of a book that is not stale.\<close>

theorem announced_state_is_the_books:
  assumes "inst_ids_distinct (engine_insts (shard_engine_of i insts))"
    and "insts_fit (engine_insts (shard_engine_of i insts)) 8192"
    and "\<forall>frame now fetch. In_Frame frame now fetch \<in> set xs \<longrightarrow> frame_small json frame"
    and "t = run_shard json (recording_setup i) xs (recording_task i hbt insts)"
    and "se_get k (stk_engine t) = Some s"
  shows "consumer_state (mh_instrument_id (id_header (ss_inst s))) (published (recording_setup i) (stk_io t)) =
      ss_feed_state s \<and>
    ss_feed_state s \<in> (if ss_is_stale s then {FS_Degraded, FS_Stale, FS_Recovering}
      else {FS_Connecting, FS_Live, FS_Degraded})"
proof -
  let ?insts = "engine_insts (shard_engine_of i insts)"
  have m: "mirrored (recording_setup i) ?insts 8192 t"
    unfolding assms(4) by (rule mirrored_run [OF mirrored_new]) (use assms in simp_all)
  have "feed_inv.holds t"
    unfolding assms(4) recording_task_def by (rule feed_run [OF new_holds(1)])
  then have "feed_ok s"
    using assms(5) by (auto simp: feed_inv.holds_def)
  with m assms(5) show ?thesis
    by (simp add: mirrored_def feed_ok_def ss_is_stale_def)
qed

text \<open>
  The first delta of a fresh symbol is taken as following a snapshot that was never fetched: the
  feed goes live on a book that holds the levels of this delta and nothing else.
\<close>

lemma seeded_book_is_partial:
  assumes "0 < bd_first_update_id bd" "bd_first_update_id bd \<le> bd_final_update_id bd"
    and "handle_delta u bd recv_ts len now fetch (SymbolState_new inst, c, io) = (s', c', io')"
  shows "ss_feed_state s' = FS_Live \<and> ss_book s' = apply_delta bd (OrderBook_new (id_symbol inst))"
proof -
  have "bd_first_update_id bd \<noteq> 0" using assms(1) by simp
  then have "bd_first_update_id bd - 1 < bd_first_update_id bd"
    unfolding word_less_nat_alt by (rule measure_unat)
  then have "\<not> bd_final_update_id bd \<le> bd_first_update_id bd - 1" using assms(2) by simp
  moreover have "bd_first_update_id bd \<le> bd_first_update_id bd - 1 + 1" by simp
  ultimately have v: "sv_validate (bd_first_update_id bd) (bd_final_update_id bd)
      (ss_validator (seed_validator bd (SymbolState_new inst))) = (SV_Apply, \<lparr>sv_state = SV_Active (bd_final_update_id bd)\<rparr>)"
    using \<open>bd_first_update_id bd \<noteq> 0\<close>
    by (simp add: seed_validator_def SymbolState_new_def sv_new_def sv_last_valid_id_def sv_on_snapshot_def
        sv_validate_def del: diff_add_cancel)
  have s: "ss_book (seed_validator bd (SymbolState_new inst)) = OrderBook_new (id_symbol inst)"
    "ss_feed_state (seed_validator bd (SymbolState_new inst)) = FS_Connecting"
    by (simp_all add: seed_validator_def SymbolState_new_def)
  show ?thesis
    using assms(3) by (auto simp: handle_delta_eq [OF v refl] s set_feed_state_eq)
qed

section \<open>Recovered books\<close>

text \<open>C3: When the exchange is faithful, every book of a Spot shard that was recovered once is the
  exchange's own book at its last update id and the validator stands at that id, after any run of
  frames, ticks and validations with gaps, overflows, failed and repeated recoveries.\<close>

theorem recovered_books_exact:
  assumes "\<forall>x \<in> set xs. input_faithful json u hb ha (engine_insts (shard_engine_of shard_id insts)) x"
    and "t = run_shard json u xs (shard_task_new publisher hbt (shard_engine_of shard_id insts))"
    and "se_get k (stk_engine t) = Some s" "ctr_recover_count (counters_of t k) \<noteq> 0"
  shows "book_exact (hb k) (ha k) (ss_book s) \<and>
    sv_last_valid_id (ss_validator s) = Some (ob_last_update_id (ss_book s))"
proof -
  have "exact_inv.holds (engine_insts (shard_engine_of shard_id insts)) hb ha t"
    unfolding assms(2) by (rule exact_run [OF new_holds(2) assms(1)])
  with assms(3) have "exact_ok (hb k) (ha k) s (counters_of t k)"
    by (simp add: exact_inv.holds_def)
  with assms(4) have "sv.synced (hb k) (ha k) (ss_validator s) (ss_book s)"
    by (simp add: exact_ok_def)
  then show ?thesis by (simp add: sv.synced_def)
qed


section \<open>A sample run\<close>

text \<open>
  Two frames of one symbol: the first delta, and one behind a gap that is answered with a snapshot.
  The exchange made one level, at id 5.
\<close>

definition run_history :: history where
  "run_history n = (if n = 5 then [\<lparr>pl_price = 100, pl_qty = 3\<rparr>] else [])"

definition run_depth :: "u64 \<Rightarrow> SpotDepthUpdate" where
  "run_depth n = \<lparr>sdu_event_time_ms = 1000, sdu_symbol = ''BTCUSDT'', sdu_first_update_id = n,
     sdu_last_update_id = n, sdu_bids = [], sdu_asks = []\<rparr>"

definition run_json :: "unit spot_json" where
  "run_json = \<lparr>sj_wrapper = (\<lambda>bytes. Inr (''btcusdt@depth@100ms'', if bytes = [] then ''1'' else ''7'')),
     sj_book_ticker = (\<lambda>_. Inl ()),
     sj_depth_update = (\<lambda>data. Inr (run_depth (if data = ''1'' then 1 else 7))), sj_trade = (\<lambda>_. Inl ())\<rparr>"

definition run_frame :: "u8 list \<Rightarrow> raw_frame" where
  "run_frame bytes = \<lparr>rf_payload = bytes, rf_recv_ts = 99, rf_is_binary = False\<rparr>"

definition run_snapshot :: BookSnapshot where
  "run_snapshot = \<lparr>bs_header = make_header MT_BookSnapshot sample_inst (shard_ctx 1) 0 0 0, bs_symbol = ''BTCUSDT'',
     bs_price_scale = 2, bs_qty_scale = 5, bs_update_id = 6,
     bs_bids = [\<lparr>pl_price = 100, pl_qty = 3\<rparr>], bs_asks = []\<rparr>"

definition run_delta :: "u64 \<Rightarrow> u64 \<Rightarrow> BookDelta" where
  "run_delta seq n = \<lparr>bd_header = make_header MT_BookDelta sample_inst (shard_ctx 1) seq (ms_to_ns 1000) 99,
     bd_symbol = ''BTCUSDT'', bd_price_scale = ucast (id_price_scale sample_inst),
     bd_qty_scale = ucast (id_qty_scale sample_inst), bd_first_update_id = n, bd_final_update_id = n,
     bd_prev_update_id = UPDATE_ID_NONE, bd_bids = [], bd_asks = []\<rparr>"

definition run_hbt :: heartbeater where
  "run_hbt = \<lparr>hbt_interval_ns = HEARTBEAT_INTERVAL_NS, hbt_last_beat_ns = 0\<rparr>"

definition run_inputs :: "unit shard_input list" where
  "run_inputs = [In_Frame (run_frame []) 0 (Inl ()), In_Frame (run_frame [1]) 0 (Inr run_snapshot)]"

definition run_t0 :: "u8 list list shard_task" where
  "run_t0 = recording_task 1 run_hbt [sample_inst]"

definition run_t1 :: "u8 list list shard_task" where
  "run_t1 = on_frame run_json (recording_setup 1) (run_frame []) 0 (Inl () :: unit + BookSnapshot) run_t0"

lemma run_parse: "parse_spot_message run_json bytes = Inr (SE_DepthUpdate (run_depth (if bytes = [] then 1 else 7)))"
  by (simp add: parse_spot_message_def run_json_def spot_stream_kind_def kind_segment_def)

lemma run_normalized:
  "normalize_spot_event (SE_DepthUpdate (run_depth n)) sample_inst (shs_ctx (recording_setup 1)) 99 seq =
     (Inr (Some (NM_BookDelta (run_delta seq n))), seq + 1)"
  by (simp add: normalize_spot_event_def take_seq_def normalize_depth_update_def run_depth_def run_delta_def
      parse_levels_def Let_def recording_setup_def) (simp add: sample_inst_def)

lemma run_wire: "length (nm_wire (NM_BookDelta (run_delta seq n))) \<le> 8192"
  by (simp add: BookDelta_wire_def run_delta_def str_wire_def levels_wire_def HEADER_SIZE_56)

lemma run_insts:
  "engine_insts (shard_engine_of 1 [sample_inst]) = (\<lambda>k. if k = ''BTCUSDT'' then Some sample_inst else None)"
  by (rule ext) (simp add: engine_insts_def shard_engine_of_def se_add_symbol_def ShardEngine_new_def se_get_def
      SymbolState_new_def sample_inst_def)

lemma run_insts_ok:
  "inst_ids_distinct (engine_insts (shard_engine_of 1 [sample_inst]))"
  "insts_fit (engine_insts (shard_engine_of 1 [sample_inst])) 8192"
  using sample_inst_symbol
  by (auto simp: run_insts inst_ids_distinct_def insts_fit_def ctrl_room_def HEADER_SIZE_56)
    (simp add: sample_inst_def)

lemma run_small: "frame_small run_json frame"
  by (simp add: frame_small_def run_parse run_depth_def)

definition run_s0 :: symbol_state where
  "run_s0 = SymbolState_new sample_inst"

definition run_s1 :: symbol_state where
  "run_s1 = run_s0\<lparr>ss_validator := \<lparr>sv_state = SV_Active 1\<rparr>,
     ss_book := apply_delta (run_delta 0 1) (ss_book run_s0), ss_feed_state := FS_Live\<rparr>"

lemma run_start:
  "se_get ''BTCUSDT'' (stk_engine run_t0) = Some run_s0" "counters_of run_t0 k = counters_default"
  "recording (recording_setup 1) (stk_io run_t0)" "published (recording_setup 1) (stk_io run_t0) = []"
  "sio_seq (stk_io run_t0) = 0" "length (sio_buf (stk_io run_t0)) = 8192"
proof -
  show "se_get ''BTCUSDT'' (stk_engine run_t0) = Some run_s0"
    by (simp add: run_t0_def recording_task_def shard_task_new_def shard_engine_of_def se_add_symbol_def
        ShardEngine_new_def se_get_def run_s0_def) (simp add: sample_inst_def)
  show "counters_of run_t0 k = counters_default"
    unfolding run_t0_def recording_task_def by (rule counters_of_new)
  show "recording (recording_setup 1) (stk_io run_t0)" "published (recording_setup 1) (stk_io run_t0) = []"
    "sio_seq (stk_io run_t0) = 0" "length (sio_buf (stk_io run_t0)) = 8192"
    by (simp_all add: run_t0_def recording_task_def shard_task_new_def recording_def published_def
        recording_setup_def sp_publication_def sp_new_def)
qed

lemma run_first_step:
  "\<exists>c' io'. handle_message u (NM_BookDelta (run_delta 0 1)) ts n now fetch (run_s0, counters_default, io) =
     (run_s1, c', io') \<and> ctr_recover_count c' = 0"
  by (simp add: handle_message_def handle_delta_def seed_validator_def run_s0_def run_s1_def SymbolState_new_def
      sv_new_def sv_validate_def sv_on_snapshot_def sv_last_valid_id_def set_feed_state_eq run_delta_def
      counters_default_def Let_def)

lemma run_t1_state:
  "se_get ''BTCUSDT'' (stk_engine run_t1) = Some run_s1 \<and> ctr_recover_count (counters_of run_t1 ''BTCUSDT'') = 0"
proof -
  let ?m = "NM_BookDelta (run_delta 0 1)"
  define io where "io = (stk_io run_t0)\<lparr>sio_seq := 1, sio_buf := nm_wire ?m @ drop (length (nm_wire ?m)) (sio_buf (stk_io run_t0))\<rparr>"
  obtain c' io' where h: "handle_message (recording_setup 1) ?m 99 (length (nm_wire ?m)) 0 (Inl () :: unit + BookSnapshot)
      (run_s0, counters_of run_t0 ''BTCUSDT'', io) = (run_s1, c', io')" "ctr_recover_count c' = 0"
    using run_first_step run_start(2) by metis
  have n: "normalize_spot_event (SE_DepthUpdate (run_depth 1)) (ss_inst run_s0) (shs_ctx (recording_setup 1))
      (rf_recv_ts (run_frame [])) (sio_seq (stk_io run_t0)) = (Inr (Some ?m), 1)"
    using run_normalized [of 1 0] by (simp add: run_s0_def SymbolState_new_def run_frame_def run_start(5))
  have ok: "nm_ok ?m"
    using normalize_spot_ok [OF n] sample_inst_symbol by (simp add: run_s0_def SymbolState_new_def run_depth_def)
  have p: "parse_spot_message run_json (rf_payload (run_frame [])) = Inr (SE_DepthUpdate (run_depth 1))"
    "symbol_from_event (SE_DepthUpdate (run_depth 1)) = Some ''BTCUSDT''"
    by (simp_all add: run_parse run_frame_def run_depth_def)
  have fits: "length (nm_wire ?m) \<le> length (sio_buf (stk_io run_t0))"
    using run_wire by (simp only: run_start(6))
  have h': "handle_message (recording_setup 1) ?m (rf_recv_ts (run_frame [])) (length (nm_wire ?m)) 0
      (Inl () :: unit + BookSnapshot) (run_s0, counters_of run_t0 ''BTCUSDT'', io) = (run_s1, c', io')"
    using h(1) by (simp add: run_frame_def)
  show ?thesis
    using on_frame_handled(2,3) [OF p run_start(1) n ok fits io_def h'] h(2)
    unfolding run_t1_def by simp
qed

lemma run_second_step:
  assumes "ctr_recover_count c = 0" "n \<le> 8192"
  shows "\<exists>s' c' io'. handle_message u (NM_BookDelta (run_delta q 7)) ts n 0 (Inr run_snapshot :: unit + BookSnapshot)
    (run_s1, c, io) = (s', c', io') \<and> ctr_recover_count c' \<noteq> 0"
proof -
  have v: "sv_validate 7 7 \<lparr>sv_state = SV_Active 1\<rparr> = (SV_Gap 2 7 1, \<lparr>sv_state = SV_Stale 1\<rparr>)"
    by (simp add: sv_validate_def)
  have "apply_spot_snapshot run_snapshot b \<lparr>sv_state = SV_Stale 1\<rparr>
      (rb_new\<lparr>rb_total_bytes := n, rb_events := [\<lparr>bfd_delta = run_delta q 7, bfd_recv_ts = ts, bfd_encoded_size = n\<rparr>]\<rparr>) =
    (Inr \<lparr>ro_snapshot_id = 6, ro_replayed = 1, ro_discarded = 0\<rparr> :: unit spot_recovery_error + recovery_outcome,
     mark_recovered (apply_delta (run_delta q 7) (apply_snapshot run_snapshot b)), \<lparr>sv_state = SV_Active 7\<rparr>,
     rb_new\<lparr>rb_total_bytes := 0, rb_events := []\<rparr>)" for b
    by (simp add: apply_spot_snapshot_def run_snapshot_def rb_drain_after_def sv_on_snapshot_def run_delta_def
        sv_validate_def Let_def rb_new_def rb_with_limits_def)
  moreover have "rb_push d ts n rb_new = (Accepted, rb_new\<lparr>rb_total_bytes := n,
      rb_events := [\<lparr>bfd_delta = d, bfd_recv_ts = ts, bfd_encoded_size = n\<rparr>]\<rparr>)" for d
    using assms(2) by (simp add: rb_push_def rb_new_def rb_with_limits_def rb_too_old_def MAX_EVENTS_def MAX_BYTES_def usize_saturating_add_def)
  moreover have "bd_first_update_id (run_delta q 7) = 7" "bd_final_update_id (run_delta q 7) = 7"
    by (simp_all add: run_delta_def)
  ultimately show ?thesis
    using assms(1)
    by (simp add: handle_message_def handle_delta_def seed_validator_def run_s1_def run_s0_def SymbolState_new_def
      sv_last_valid_id_def v handle_gap_def offer_gap_def mark_book_stale_def buffer_delta_def push_to_recovery_def
      cb_check_def cb_new_def cb_with_limits_def attempt_recovery_def recovery_succeeded_def set_feed_state_eq Let_def)
qed

lemma run_t2_recovered:
  "\<exists>s. se_get ''BTCUSDT'' (stk_engine (run_shard run_json (recording_setup 1) run_inputs run_t0)) = Some s \<and>
     ctr_recover_count (counters_of (run_shard run_json (recording_setup 1) run_inputs run_t0) ''BTCUSDT'') \<noteq> 0"
proof -
  define q where "q = sio_seq (stk_io run_t1)"
  let ?m = "NM_BookDelta (run_delta q 7)"
  let ?fetch = "Inr run_snapshot :: unit + BookSnapshot"
  define io where "io = (stk_io run_t1)\<lparr>sio_seq := q + 1, sio_buf := nm_wire ?m @ drop (length (nm_wire ?m)) (sio_buf (stk_io run_t1))\<rparr>"
  have "mirrored (recording_setup 1) (engine_insts (shard_engine_of 1 [sample_inst])) 8192 run_t0"
    unfolding run_t0_def by (rule mirrored_new)
  from mirrored_frame [where fetch = "Inl () :: unit + BookSnapshot", OF this run_insts_ok run_small]
  have len: "length (sio_buf (stk_io run_t1)) = 8192"
    by (simp add: run_t1_def mirrored_def)
  have wire: "length (nm_wire ?m) \<le> 8192" by (rule run_wire)
  obtain s' c' io' where h: "handle_message (recording_setup 1) ?m (rf_recv_ts (run_frame [1])) (length (nm_wire ?m)) 0 ?fetch
      (run_s1, counters_of run_t1 ''BTCUSDT'', io) = (s', c', io')" "ctr_recover_count c' \<noteq> 0"
    using run_second_step [OF conjunct2 [OF run_t1_state] wire] by blast
  have i: "ss_inst run_s1 = sample_inst" by (simp add: run_s1_def run_s0_def SymbolState_new_def)
  have n: "normalize_spot_event (SE_DepthUpdate (run_depth 7)) (ss_inst run_s1) (shs_ctx (recording_setup 1))
      (rf_recv_ts (run_frame [1])) (sio_seq (stk_io run_t1)) = (Inr (Some ?m), q + 1)"
    using run_normalized [of 7 q] by (simp add: i run_frame_def q_def)
  have ok: "nm_ok ?m"
    using normalize_spot_ok [OF n] sample_inst_symbol by (simp add: i run_depth_def)
  have p: "parse_spot_message run_json (rf_payload (run_frame [1])) = Inr (SE_DepthUpdate (run_depth 7))"
    "symbol_from_event (SE_DepthUpdate (run_depth 7)) = Some ''BTCUSDT''"
    by (simp_all add: run_parse run_frame_def run_depth_def)
  have fits: "length (nm_wire ?m) \<le> length (sio_buf (stk_io run_t1))"
    using wire by (simp only: len)
  show ?thesis
    using on_frame_handled(2,3) [OF p conjunct1 [OF run_t1_state] n ok fits io_def h(1)] h(2)
    by (simp add: run_inputs_def run_t1_def)
qed

lemma run_snapshot_faithful: "snapshot_faithful run_history (\<lambda>_. []) run_snapshot"
proof -
  have e: "exch_side run_history 6 = set_levels [\<lparr>pl_price = 100, pl_qty = 3\<rparr>] Map.empty"
    by (simp add: exch_side_def run_history_def upt_rec)
  have "exch_side (\<lambda>_. []) n = Map.empty" for n
    by (induction n) (simp_all add: exch_side_def)
  with e show ?thesis
    by (simp add: snapshot_faithful_def run_snapshot_def snapshot_side_def set_level_def) (simp add: eval_simps)
qed

lemma run_faithful:
  "\<forall>x \<in> set run_inputs. input_faithful run_json (recording_setup 1) (\<lambda>_. run_history) (\<lambda>_ _. [])
     (engine_insts (shard_engine_of 1 [sample_inst])) x"
proof -
  have d: "delta_faithful run_history (\<lambda>_. []) (run_delta q n)" if "n = 1 \<or> n = 7" for q n
    using that by (auto simp: delta_faithful_def sv_ev_ok_def event_faithful_def covers_def sv_lo_def run_delta_def
        run_history_def)
  with run_snapshot_faithful show ?thesis
    by (auto simp: run_inputs_def run_frame_def run_parse run_insts fetch_faithful_def run_normalized
      split: if_splits)
qed

theorem recovered_books_exact_witness:
  "\<exists>s. se_get ''BTCUSDT'' (stk_engine (run_shard run_json (recording_setup 1) run_inputs run_t0)) = Some s \<and>
     book_exact run_history (\<lambda>_. []) (ss_book s)"
proof -
  obtain s where s: "se_get ''BTCUSDT'' (stk_engine (run_shard run_json (recording_setup 1) run_inputs run_t0)) = Some s"
    "ctr_recover_count (counters_of (run_shard run_json (recording_setup 1) run_inputs run_t0) ''BTCUSDT'') \<noteq> 0"
    using run_t2_recovered by blast
  have "run_t0 = shard_task_new (sp_new [(1, [])]) run_hbt (shard_engine_of 1 [sample_inst])"
    by (simp add: run_t0_def recording_task_def)
  from recovered_books_exact [OF run_faithful refl s [unfolded this]] s(1) show ?thesis
    by (simp add: \<open>run_t0 = _\<close>)
qed

text \<open>The first delta of a fresh symbol is lost behind the announcement of the live feed.\<close>

theorem frame_published_or_overwritten_witness:
  "\<exists>ms. ms \<noteq> [] \<and> (\<forall>x \<in> set ms. is_ctrl x) \<and>
     map nm_from_bytes (published (recording_setup 1) (stk_io run_t1)) = map Inr ms @ [Inr (last ms)]"
proof -
  have n: "normalize_spot_event (SE_DepthUpdate (run_depth 1)) (ss_inst run_s0) (shs_ctx (recording_setup 1))
      (rf_recv_ts (run_frame [])) (sio_seq (stk_io run_t0)) = (Inr (Some (NM_BookDelta (run_delta 0 1))), 1)"
    using run_normalized [of 1 0] by (simp add: run_s0_def SymbolState_new_def run_frame_def run_start(5))
  have p: "parse_spot_message run_json (rf_payload (run_frame [])) = Inr (SE_DepthUpdate (run_depth 1))"
    "symbol_from_event (SE_DepthUpdate (run_depth 1)) = Some ''BTCUSDT''" "spot_event_small (SE_DepthUpdate (run_depth 1))"
    "str_ok (id_symbol (ss_inst run_s0))"
    using sample_inst_symbol by (simp_all add: run_parse run_frame_def run_depth_def run_s0_def SymbolState_new_def)
  have "length (nm_wire (NM_BookDelta (run_delta 0 1))) \<le> length (sio_buf (stk_io run_t0))"
    using run_wire by (simp only: run_start(6))
  from frame_published_or_overwritten [OF run_start(3) p(1,2) run_start(1) n p(4,3) this run_t1_def]
  obtain ms s' where ms: "\<forall>x \<in> set ms. is_ctrl x" "se_get ''BTCUSDT'' (stk_engine run_t1) = Some s'"
    "map nm_from_bytes (published (recording_setup 1) (stk_io run_t1)) =
      map nm_from_bytes (published (recording_setup 1) (stk_io run_t0)) @ map Inr ms @
        [Inr (if ms = [] then NM_BookDelta (run_delta 0 1) else last ms)]"
    "ss_feed_state s' \<noteq> ss_feed_state run_s0 \<longrightarrow> ms \<noteq> []"
    by blast
  moreover have "s' = run_s1" using ms(2) run_t1_state by simp
  then have "ss_feed_state s' \<noteq> ss_feed_state run_s0"
    by (simp add: run_s1_def run_s0_def SymbolState_new_def)
  ultimately show ?thesis
    using run_start(4) by (intro exI [of _ ms]) auto
qed

theorem announced_state_is_the_books_witness:
  "consumer_state (mh_instrument_id (id_header sample_inst)) (published (recording_setup 1) (stk_io run_t1)) = FS_Live"
proof -
  have t: "run_t1 = run_shard run_json (recording_setup 1) [In_Frame (run_frame []) 0 (Inl () :: unit + BookSnapshot)]
      (recording_task 1 run_hbt [sample_inst])"
    by (simp add: run_t1_def run_t0_def)
  from announced_state_is_the_books [OF run_insts_ok _ t conjunct1 [OF run_t1_state]] run_small show ?thesis
    by (simp add: run_s1_def run_s0_def SymbolState_new_def)
qed

end
