(* ===== verification/Futures_Shard.thy ===== *)
theory Futures_Shard
  imports Shard_Task Futures_Normalizer
begin

text \<open>
  The pipeline of a Futures shard, \<open>bin/connector/examples/futures_e2e.rs\<close>. It differs from the
  Spot pipeline in that one frame gives several messages, deltas of a stale or waiting symbol are
  buffered before the validator sees them, a delta is published when it is applied, and there is
  no ticker: a recovery is tried at a gap only. One input is one turn of the loop.
\<close>

section \<open>State\<close>

record futures_counters =
  fct_bbo :: u64
  fct_book_deltas :: u64
  fct_trades :: u64
  fct_mark_prices :: u64
  fct_funding_rates :: u64
  fct_liquidations :: u64
  fct_gaps :: u64
  fct_recoveries :: u64

definition futures_counters_default :: futures_counters where
  "futures_counters_default = \<lparr>fct_bbo = 0, fct_book_deltas = 0, fct_trades = 0, fct_mark_prices = 0,
     fct_funding_rates = 0, fct_liquidations = 0, fct_gaps = 0, fct_recoveries = 0\<rparr>"

type_synonym 'p futures_work = "futures_symbol_state \<times> futures_counters \<times> 'p shard_io"

section \<open>Message helpers\<close>

definition futures_shard_hdr :: "message_type \<Rightarrow> normalize_ctx \<Rightarrow> i64 \<Rightarrow> u64 \<Rightarrow> message_header \<times> u64" where
  "futures_shard_hdr msg_type ctx ts seq =
     (let seq' = seq + 1 in
      (\<lparr>mh_schema_version = SCHEMA_VERSION, mh_message_type = msg_type,
        mh_venue_id = nc_venue_id ctx, mh_market_type = nc_market_type ctx, mh_instrument_id = 0,
        mh_connection_id = nc_connection_id ctx, mh_instance_id = nc_instance_id ctx,
        mh_sequence_number = seq', mh_exchange_event_ts = TS_NONE, mh_exchange_tx_ts = TS_NONE,
        mh_local_recv_ts = ts, mh_local_publish_ts = ts\<rparr>, seq'))"

definition inst_hdr ::
  "message_type \<Rightarrow> InstrumentDefinition \<Rightarrow> normalize_ctx \<Rightarrow> i64 \<Rightarrow> u64 \<Rightarrow> message_header \<times> u64" where
  "inst_hdr msg_type inst ctx recv_ts seq =
     (let seq' = seq + 1 in
      (\<lparr>mh_schema_version = SCHEMA_VERSION, mh_message_type = msg_type,
        mh_venue_id = nc_venue_id ctx, mh_market_type = nc_market_type ctx,
        mh_instrument_id = mh_instrument_id (id_header inst),
        mh_connection_id = nc_connection_id ctx, mh_instance_id = nc_instance_id ctx,
        mh_sequence_number = seq', mh_exchange_event_ts = TS_NONE, mh_exchange_tx_ts = TS_NONE,
        mh_local_recv_ts = recv_ts, mh_local_publish_ts = recv_ts\<rparr>, seq'))"

definition futures_set_feed_state :: "'p shard_setup \<Rightarrow> feed_state \<Rightarrow> i64 \<Rightarrow> 'p shard_io \<Rightarrow> 'p shard_io" where
  "futures_set_feed_state u state ts io =
     (let (hdr, seq) = futures_shard_hdr MT_FeedStatus (shs_ctx u) ts (sio_seq io) in
      offer_message u (NM_FeedStatus \<lparr>fs_header = hdr, fs_state = state\<rparr>) (io\<lparr>sio_seq := seq\<rparr>))"

definition publish_gap_detected ::
  "'p shard_setup \<Rightarrow> InstrumentDefinition \<Rightarrow> u64 \<Rightarrow> u64 \<Rightarrow> i64 \<Rightarrow> 'p shard_io \<Rightarrow> 'p shard_io" where
  "publish_gap_detected u inst expected actual ts io =
     (let (hdr, seq) = inst_hdr MT_GapDetected inst (shs_ctx u) ts (sio_seq io) in
      offer_message u (NM_GapDetected \<lparr>gd_header = hdr, gd_symbol = id_symbol inst,
        gd_expected_update_id = expected, gd_received_update_id = actual\<rparr>) (io\<lparr>sio_seq := seq\<rparr>))"

definition publish_book_stale ::
  "'p shard_setup \<Rightarrow> InstrumentDefinition \<Rightarrow> book_stale_reason \<Rightarrow> i64 \<Rightarrow> 'p shard_io \<Rightarrow> 'p shard_io" where
  "publish_book_stale u inst reason ts io =
     (let (hdr, seq) = inst_hdr MT_BookStale inst (shs_ctx u) ts (sio_seq io) in
      offer_message u (NM_BookStale \<lparr>bst_header = hdr, bst_symbol = id_symbol inst, bst_reason = reason\<rparr>)
        (io\<lparr>sio_seq := seq\<rparr>))"

definition publish_book_recovered ::
  "'p shard_setup \<Rightarrow> InstrumentDefinition \<Rightarrow> u64 \<Rightarrow> i64 \<Rightarrow> 'p shard_io \<Rightarrow> 'p shard_io" where
  "publish_book_recovered u inst snap_id ts io =
     (let (hdr, seq) = inst_hdr MT_BookRecovered inst (shs_ctx u) ts (sio_seq io) in
      offer_message u (NM_BookRecovered \<lparr>br_header = hdr, br_symbol = id_symbol inst,
        br_snapshot_update_id = snap_id\<rparr>) (io\<lparr>sio_seq := seq\<rparr>))"

section \<open>Depth\<close>

fun overflow_stale_reason :: "overflow_reason \<Rightarrow> book_stale_reason" where
  "overflow_stale_reason Age = BSR_StaleTimeout"
| "overflow_stale_reason EventCount = BSR_BufferOverflow"
| "overflow_stale_reason ByteSize = BSR_BufferOverflow"

definition futures_failure :: "i64 \<Rightarrow> futures_symbol_state \<Rightarrow> futures_symbol_state" where
  "futures_failure now s = s\<lparr>fss_circuit := snd (cb_record_failure now (fss_circuit s))\<rparr>"

definition futures_recover ::
  "'p shard_setup \<Rightarrow> i64 \<Rightarrow> 'e + BookSnapshot \<Rightarrow> 'p futures_work \<Rightarrow> 'p futures_work" where
  "futures_recover u now snap w =
     (let (s, c, io) = w in
      case snap of
        Inl _ \<Rightarrow> (futures_failure now s, c, io)
      | Inr snapshot \<Rightarrow>
          (case apply_futures_snapshot snapshot (fss_book s) (fss_validator s) (fss_recovery_buf s) of
             (r, book, validator, buf) \<Rightarrow>
               let s1 = s\<lparr>fss_book := book, fss_validator := validator, fss_recovery_buf := buf\<rparr> in
               case (r :: 'e futures_recovery_error + recovery_outcome) of
                 Inr outcome \<Rightarrow>
                   (s1\<lparr>fss_circuit := cb_record_success (fss_circuit s1), fss_feed_state := FS_Live\<rparr>,
                    c\<lparr>fct_recoveries := fct_recoveries c + 1\<rparr>,
                    publish_book_recovered u (fss_inst s1) (ro_snapshot_id outcome) now io)
               | Inl _ \<Rightarrow> (futures_failure now s1, c, io)))"

definition futures_gap ::
  "'p shard_setup \<Rightarrow> u64 \<Rightarrow> u64 \<Rightarrow> i64 \<Rightarrow> 'e + BookSnapshot \<Rightarrow> 'p futures_work \<Rightarrow> 'p futures_work" where
  "futures_gap u expected_pu actual_pu now snap w =
     (let (s, c, io) = w;
          s1 = s\<lparr>fss_book := mark_stale BSR_SequenceGap (fss_book s)\<rparr>;
          io1 = publish_gap_detected u (fss_inst s1) expected_pu actual_pu now io;
          io2 = publish_book_stale u (fss_inst s1) BSR_SequenceGap now io1;
          (state, circuit) = cb_check now (fss_circuit s1);
          s2 = s1\<lparr>fss_feed_state := FS_Recovering, fss_circuit := circuit\<rparr>;
          c1 = c\<lparr>fct_gaps := fct_gaps c + 1\<rparr>
      in if state \<noteq> Closed then (futures_failure now s2, c1, io2)
         else futures_recover u now snap (s2, c1, io2))"

text \<open>The answer says whether the turn goes on to the heartbeat or \<open>continue\<close>s.\<close>

definition futures_delta ::
  "'p shard_setup \<Rightarrow> BookDelta \<Rightarrow> i64 \<Rightarrow> 'e + BookSnapshot \<Rightarrow> 'p futures_work \<Rightarrow> bool \<times> 'p futures_work" where
  "futures_delta u bd now snap w =
     (let (s, c, io) = w;
          (r, buf) = nm_encode_into (NM_BookDelta bd) (sio_buf io);
          encoded_size = (case r of Inr n \<Rightarrow> n | Inl _ \<Rightarrow> 0);
          io1 = io\<lparr>sio_buf := buf\<rparr>;
          (pushed, rbuf) = rb_push bd now encoded_size (fss_recovery_buf s)
      in if fss_is_stale s then
           (False, case pushed of
              Accepted \<Rightarrow> (s\<lparr>fss_recovery_buf := rbuf\<rparr>, c, io1)
            | Overflow reason \<Rightarrow> (s\<lparr>fss_recovery_buf := rb_clear rbuf\<rparr>, c,
                publish_book_stale u (fss_inst s) (overflow_stale_reason reason) now io1))
         else if fv_state (fss_validator s) = FV_AwaitingSnapshot then
           (False, case pushed of
              Accepted \<Rightarrow> (s\<lparr>fss_recovery_buf := rbuf\<rparr>, c, io1)
            | Overflow _ \<Rightarrow> (s\<lparr>fss_recovery_buf := rb_clear rbuf\<rparr>, c, io1))
         else
           (True,
            case fv_validate (bd_first_update_id bd) (bd_final_update_id bd) (bd_prev_update_id bd)
                   (fss_validator s) of
              (FV_Apply, v) \<Rightarrow>
                (s\<lparr>fss_validator := v, fss_book := apply_delta bd (fss_book s)\<rparr>,
                 c\<lparr>fct_book_deltas := fct_book_deltas c + 1\<rparr>, offer_message u (NM_BookDelta bd) io1)
            | (FV_Discard, v) \<Rightarrow> (s\<lparr>fss_validator := v\<rparr>, c, io1)
            | (FV_Buffering, v) \<Rightarrow> (s\<lparr>fss_validator := v, fss_recovery_buf := rbuf\<rparr>, c, io1)
            | (FV_Gap expected_pu actual_pu _, v) \<Rightarrow>
                futures_gap u expected_pu actual_pu now snap (s\<lparr>fss_validator := v\<rparr>, c, io1)))"

section \<open>Messages\<close>

fun futures_count :: "normalized_message \<Rightarrow> futures_counters \<Rightarrow> futures_counters option" where
  "futures_count (NM_BestBidOffer _) c = Some (c\<lparr>fct_bbo := fct_bbo c + 1\<rparr>)"
| "futures_count (NM_Trade _) c = Some (c\<lparr>fct_trades := fct_trades c + 1\<rparr>)"
| "futures_count (NM_MarkPrice _) c = Some (c\<lparr>fct_mark_prices := fct_mark_prices c + 1\<rparr>)"
| "futures_count (NM_FundingRate _) c = Some (c\<lparr>fct_funding_rates := fct_funding_rates c + 1\<rparr>)"
| "futures_count (NM_Liquidation _) c = Some (c\<lparr>fct_liquidations := fct_liquidations c + 1\<rparr>)"
| "futures_count _ c = None"

definition futures_dispatch ::
  "'p shard_setup \<Rightarrow> normalized_message \<Rightarrow> i64 \<Rightarrow> 'e + BookSnapshot \<Rightarrow> 'p futures_work \<Rightarrow> bool \<times> 'p futures_work" where
  "futures_dispatch u msg now snap w =
     (case msg of
        NM_BookDelta bd \<Rightarrow> futures_delta u bd now snap w
      | _ \<Rightarrow>
          (case w of (s, c, io) \<Rightarrow>
           case futures_count msg c of
             Some c' \<Rightarrow> (True, (s, c', offer_message u msg io))
           | None \<Rightarrow> (True, w)))"

record 'p futures_task =
  ftk_engine :: futures_shard_engine
  ftk_counters :: "(string, futures_counters) hash_map"
  ftk_heartbeater :: heartbeater
  ftk_io :: "'p shard_io"

definition futures_heartbeat :: "'p shard_setup \<Rightarrow> i64 \<Rightarrow> 'p futures_task \<Rightarrow> 'p futures_task" where
  "futures_heartbeat u now t =
     (if hbt_is_due now (ftk_heartbeater t) then
        let (hdr, seq) = futures_shard_hdr MT_Heartbeat (shs_ctx u) now (sio_seq (ftk_io t)) in
        t\<lparr>ftk_io := offer_message u (NM_Heartbeat \<lparr>hb_header = hdr\<rparr>) ((ftk_io t)\<lparr>sio_seq := seq\<rparr>),
          ftk_heartbeater := hbt_record_beat now (ftk_heartbeater t)\<rparr>
      else t)"

text \<open>
  One message of a frame. The symbol is one of the engine and has counters, as the frame was
  routed by it; the clock is read after the dispatch.
\<close>

definition futures_message ::
  "'p shard_setup \<Rightarrow> string \<Rightarrow> i64 \<Rightarrow> i64 \<Rightarrow> 'e + BookSnapshot \<Rightarrow> normalized_message \<Rightarrow>
   'p futures_task \<Rightarrow> 'p futures_task" where
  "futures_message u symbol recv_ts now snap msg t =
     (case (fse_get symbol (ftk_engine t), map_of (ftk_counters t) symbol) of
        (Some s, Some c) \<Rightarrow>
          (let (go_on, s', c', io') = futures_dispatch u msg recv_ts snap (s, c, ftk_io t);
               t' = t\<lparr>ftk_engine := fse_get_mut symbol (\<lambda>_. s') (ftk_engine t),
                      ftk_counters := AList.update symbol c' (ftk_counters t), ftk_io := io'\<rparr>
           in if go_on then futures_heartbeat u now t' else t')
      | _ \<Rightarrow> t)"

fun futures_messages ::
  "'p shard_setup \<Rightarrow> string \<Rightarrow> i64 \<Rightarrow> (nat \<Rightarrow> i64) \<Rightarrow> (nat \<Rightarrow> 'e + BookSnapshot) \<Rightarrow>
   normalized_message list \<Rightarrow> 'p futures_task \<Rightarrow> 'p futures_task" where
  "futures_messages u symbol recv_ts clock snap [] t = t"
| "futures_messages u symbol recv_ts clock snap (msg # msgs) t =
     futures_messages u symbol recv_ts (\<lambda>k. clock (Suc k)) (\<lambda>k. snap (Suc k)) msgs
       (futures_message u symbol recv_ts (clock 0) (snap 0) msg t)"

fun symbol_from_futures_event :: "futures_event \<Rightarrow> string option" where
  "symbol_from_futures_event (FE_BookTicker bt) = Some (fbt_symbol bt)"
| "symbol_from_futures_event (FE_DepthUpdate du) = Some (fdu_symbol du)"
| "symbol_from_futures_event (FE_AggTrade tr) = Some (fat_symbol tr)"
| "symbol_from_futures_event (FE_MarkPrice mp) = Some (fmp_symbol mp)"
| "symbol_from_futures_event (FE_ForceOrder fo) = Some (flo_symbol (ffo_order fo))"
| "symbol_from_futures_event (FE_Unknown _) = None"

definition futures_shard_frame ::
  "'j futures_json \<Rightarrow> 'p shard_setup \<Rightarrow> raw_frame \<Rightarrow> (nat \<Rightarrow> i64) \<Rightarrow> (nat \<Rightarrow> 'e + BookSnapshot) \<Rightarrow>
   'p futures_task \<Rightarrow> 'p futures_task" where
  "futures_shard_frame json u frame clock snap t =
     (case parse_futures_message json (rf_payload frame) of
        Inl _ \<Rightarrow> t
      | Inr event \<Rightarrow>
          (case symbol_from_futures_event event of
             None \<Rightarrow> t
           | Some symbol \<Rightarrow>
               (case fse_get symbol (ftk_engine t) of
                  None \<Rightarrow> t
                | Some s \<Rightarrow>
                    (case normalize_futures_event event (fss_inst s) (shs_ctx u) (rf_recv_ts frame)
                            (sio_seq (ftk_io t)) of
                       (Inl _, seq) \<Rightarrow> t\<lparr>ftk_io := (ftk_io t)\<lparr>sio_seq := seq\<rparr>\<rparr>
                     | (Inr msgs, seq) \<Rightarrow>
                         futures_messages u symbol (rf_recv_ts frame) clock snap msgs
                           (t\<lparr>ftk_io := (ftk_io t)\<lparr>sio_seq := seq\<rparr>\<rparr>)))))"

section \<open>The loop\<close>

datatype 'e futures_input =
    FIn_Shutdown bool
  | FIn_Frame raw_frame "nat \<Rightarrow> i64" "nat \<Rightarrow> 'e + BookSnapshot"
  | FIn_Closed

fun run_futures_shard ::
  "'j futures_json \<Rightarrow> 'p shard_setup \<Rightarrow> 'e futures_input list \<Rightarrow> 'p futures_task \<Rightarrow> 'p futures_task" where
  "run_futures_shard json u [] t = t"
| "run_futures_shard json u (FIn_Shutdown stop # xs) t = (if stop then t else run_futures_shard json u xs t)"
| "run_futures_shard json u (FIn_Frame frame clock snap # xs) t =
     run_futures_shard json u xs (futures_shard_frame json u frame clock snap t)"
| "run_futures_shard json u (FIn_Closed # xs) t = t"

definition futures_shard_ctx :: "u32 \<Rightarrow> normalize_ctx" where
  "futures_shard_ctx shard_id = \<lparr>nc_venue_id = BinanceFutures, nc_market_type = UsdmFutures,
     nc_instance_id = 0, nc_connection_id = shard_id\<rparr>"

definition futures_shard_streams :: "futures_shard_engine \<Rightarrow> string list" where
  "futures_shard_streams e =
     concat (map (\<lambda>symbol. [futures_stream_name FS_BookTicker symbol, futures_stream_name (FS_Depth 100) symbol,
       futures_stream_name FS_AggTrade symbol, futures_stream_name (FS_MarkPrice 1) symbol,
       futures_stream_name FS_ForceOrder symbol]) (fse_symbol_names e))"

definition futures_shard_url :: "futures_shard_engine \<Rightarrow> string" where
  "futures_shard_url e = futures_build_url FUTURES_WS_BASE (futures_shard_streams e)"

text \<open>The task up to its loop: the buffer of 64000 bytes and the first announcement.\<close>

definition futures_task_new ::
  "'p shard_setup \<Rightarrow> 'p sharded_publisher \<Rightarrow> heartbeater \<Rightarrow> i64 \<Rightarrow> futures_shard_engine \<Rightarrow> 'p futures_task" where
  "futures_task_new u publisher heartbeater now engine =
     \<lparr>ftk_engine = engine,
      ftk_counters = map (\<lambda>symbol. (symbol, futures_counters_default)) (fse_symbol_names engine),
      ftk_heartbeater = heartbeater,
      ftk_io = futures_set_feed_state u FS_Connecting now
        \<lparr>sio_seq = 0, sio_buf = replicate 64000 0, sio_publisher = publisher\<rparr>\<rparr>"

definition FUTURES_TOTAL_SHARDS :: u32 where "FUTURES_TOTAL_SHARDS = 2"

text \<open>\<open>shard_insts[shard as usize].push(inst)\<close>; None is the panic of \<open>shard_for_symbol\<close>.\<close>

fun partition_futures :: "InstrumentDefinition list \<Rightarrow> InstrumentDefinition list list \<Rightarrow>
   InstrumentDefinition list list option" where
  "partition_futures [] shards = Some shards"
| "partition_futures (inst # insts) shards =
     Option.bind (shard_for_symbol BinanceFutures UsdmFutures (id_symbol inst) FUTURES_TOTAL_SHARDS) (\<lambda>shard.
     if unat shard < length shards
     then partition_futures insts (shards[unat shard := shards ! unat shard @ [inst]])
     else None)"

definition start_futures_shards ::
  "heartbeater \<Rightarrow> i64 \<Rightarrow> InstrumentDefinition list \<Rightarrow>
   (null_publication shard_setup \<times> null_publication futures_task) list option" where
  "start_futures_shards heartbeater now all_defs =
     map_option (\<lambda>shards.
       map (\<lambda>(shard_id, insts).
           let u = \<lparr>shs_offer = null_offer, shs_shard_id = word_of_nat shard_id,
                    shs_ctx = futures_shard_ctx (word_of_nat shard_id)\<rparr>
           in (u, futures_task_new u (build_null [word_of_nat shard_id]) heartbeater now
                 (fold fse_add_symbol insts (FuturesShardEngine_new (word_of_nat shard_id)))))
         (filter (\<lambda>(shard_id, insts). insts \<noteq> []) (enumerate 0 shards)))
       (partition_futures (filter (\<lambda>d. id_symbol d \<in> set E2E_SYMBOLS) all_defs)
         (replicate (unat FUTURES_TOTAL_SHARDS) []))"

end
