(* ===== verification/Futures_Shard_Properties.thy ===== *)
theory Futures_Shard_Properties
  imports Futures_Shard Shard_Properties
begin

text \<open>
  The properties of the Futures shard pipeline: a book that is in step with the exchange stays so
  through gaps, recoveries and failures; but a shard as it starts never gets there, since nothing
  asks for the first snapshot.
\<close>

section \<open>The steps of a symbol\<close>

lemma offer_message_published:
  assumes "recording u io" "nm_ok m"
  shows "recording u (offer_message u m io) \<and> published u (offer_message u m io) =
    published u io @ (if length (nm_wire m) \<le> length (sio_buf io) then [nm_wire m] else [])"
proof (cases "length (nm_wire m) \<le> length (sio_buf io)")
  case True
  have "recording u (io\<lparr>sio_buf := nm_wire m @ drop (length (nm_wire m)) (sio_buf io)\<rparr>)"
    using assms(1) by simp
  from offer_bytes_published [OF this, of "length (nm_wire m)"] True show ?thesis
    by (simp add: offer_message_def nm_encode_wire [OF assms(2) True])
next
  case False
  then obtain k n buf where "nm_encode_into m (sio_buf io) = (Inl (BufferTooShort k n), buf)"
    using nm_no_room [OF assms(2), of "sio_buf io"] by auto
  with False assms(1) show ?thesis by (simp add: offer_message_def)
qed

text \<open>A change of one entry of the engine, with its counters.\<close>

lemma futures_message_cases:
  obtains (ignored) "futures_message u k ts now snap msg t = t"
  | (step) s c go s' c' io' t' where
      "fse_get k (ftk_engine t) = Some s" "map_of (ftk_counters t) k = Some c"
      "futures_dispatch u msg ts snap (s, c, ftk_io t) = (go, s', c', io')"
      "t' = t\<lparr>ftk_engine := fse_get_mut k (\<lambda>_. s') (ftk_engine t),
              ftk_counters := AList.update k c' (ftk_counters t), ftk_io := io'\<rparr>"
      "futures_message u k ts now snap msg t = (if go then futures_heartbeat u now t' else t')"
      "\<And>j. fse_get j (ftk_engine t') = (if j = k then Some s' else fse_get j (ftk_engine t))"
proof (cases "fse_get k (ftk_engine t)")
  case None
  then show thesis by (intro ignored) (simp add: futures_message_def)
next
  case (Some s)
  show thesis
  proof (cases "map_of (ftk_counters t) k")
    case None
    with Some show thesis by (intro ignored) (simp add: futures_message_def)
  next
    case c: (Some c)
    obtain go s' c' io' where d: "futures_dispatch u msg ts snap (s, c, ftk_io t) = (go, s', c', io')"
      by (cases "futures_dispatch u msg ts snap (s, c, ftk_io t)")
    show thesis
      by (rule step [OF Some c d refl]) (use Some c d in \<open>auto simp: futures_message_def fse.lookup_change\<close>)
  qed
qed

lemma heartbeat_engine [simp]: "ftk_engine (futures_heartbeat u now t) = ftk_engine t"
  by (simp add: futures_heartbeat_def split: prod.splits)

section \<open>Books in step\<close>

definition futures_delta_faithful :: "history \<Rightarrow> history \<Rightarrow> BookDelta \<Rightarrow> bool" where
  "futures_delta_faithful hb ha d \<longleftrightarrow> fv_ev_ok d \<and> event_faithful hb ha fv_lo d"

definition snap_faithful :: "history \<Rightarrow> history \<Rightarrow> 'e + BookSnapshot \<Rightarrow> bool" where
  "snap_faithful hb ha fetch \<longleftrightarrow> (case fetch of Inr snap \<Rightarrow> snapshot_faithful hb ha snap | Inl _ \<Rightarrow> True)"

text \<open>The validator stands at the book, the book is the exchange's, what is buffered was sent.\<close>

definition book_in_step :: "history \<Rightarrow> history \<Rightarrow> futures_symbol_state \<Rightarrow> bool" where
  "book_in_step hb ha s \<longleftrightarrow> fv.synced hb ha (fss_validator s) (fss_book s) \<and>
     (\<forall>d \<in> bfd_delta ` set (rb_events (fss_recovery_buf s)). futures_delta_faithful hb ha d)"

lemma fv_synced_mark [simp]: "fv.synced hb ha v (mark_stale r b) = fv.synced hb ha v b"
  "fv.synced hb ha v (mark_recovered b) = fv.synced hb ha v b"
  by (simp_all add: fv.synced_def) (simp_all add: mark_stale_def mark_recovered_def)

lemma fv_synced_step:
  assumes "fv.synced hb ha v b" "fv_check d v = (r, v')" "futures_delta_faithful hb ha d"
  shows "fv.synced hb ha v' (if fv_kind r = Apply then apply_delta d b else b)"
proof (cases "fv_live v")
  case True
  have "1 \<le> fv_lo d" by (simp add: fv_lo_def)
  with fv.accepted_synced [OF True assms(1), of "[d]"] assms(2,3) show ?thesis
    by (simp add: futures_delta_faithful_def split: if_splits)
next
  case False
  with fv.stopped_buffers [OF False assms(2)] assms(1) show ?thesis by simp
qed

lemma apply_futures_snapshot_synced:
  assumes "apply_futures_snapshot snap book v buf = (r, book', v', buf')" "snapshot_faithful hb ha snap"
    and "\<forall>d \<in> bfd_delta ` set (rb_events buf). futures_delta_faithful hb ha d"
  shows "fv.synced hb ha v' book' \<and> rb_events buf' = []"
proof (rule apply_futures_snapshot_replay [OF assms(1)])
  fix x book2
  assume x: "futures_replay (fst (rb_drain_after (bs_update_id snap) buf)) (apply_snapshot snap book)
       (fv_on_snapshot (bs_update_id snap) v) 0 0 = (x, book2, v')"
    and b: "book' = (case x of Inl _ \<Rightarrow> book2 | Inr _ \<Rightarrow> mark_recovered book2)" and e: "rb_events buf' = []"
  have "\<forall>e \<in> set (fst (rb_drain_after (bs_update_id snap) buf)).
      fv_ev_ok (bfd_delta e) \<and> event_faithful hb ha fv_lo (bfd_delta e)"
    using assms(3) drained_subset by (fastforce simp: futures_delta_faithful_def)
  from futures.replay_synced [OF fv.snapshot_live snapshot_synced_futures [OF assms(2)] x this] b e
  show ?thesis by (auto split: sum.splits)
qed

lemma in_step_recover:
  assumes "book_in_step hb ha s" "snap_faithful hb ha snap" "futures_recover u now snap (s, c, io) = (s', c', io')"
  shows "book_in_step hb ha s' \<and> fss_inst s' = fss_inst s"
proof (cases snap)
  case (Inl e)
  with assms show ?thesis by (auto simp: futures_recover_def futures_failure_def book_in_step_def)
next
  case (Inr sn)
  obtain r :: "'a futures_recovery_error + recovery_outcome" and book v buf where
    a: "apply_futures_snapshot sn (fss_book s) (fss_validator s) (fss_recovery_buf s) = (r, book, v, buf)"
    by (cases "apply_futures_snapshot sn (fss_book s) (fss_validator s) (fss_recovery_buf s)
      :: ('a futures_recovery_error + recovery_outcome) \<times> _")
  have "fv.synced hb ha v book \<and> rb_events buf = []"
    by (rule apply_futures_snapshot_synced [OF a]) (use assms Inr in \<open>auto simp: snap_faithful_def book_in_step_def\<close>)
  with a Inr assms(3) show ?thesis
    by (auto simp: futures_recover_def futures_failure_def book_in_step_def Let_def split: sum.splits)
qed

lemma in_step_gap:
  assumes "book_in_step hb ha s" "snap_faithful hb ha snap" "futures_gap u e a now snap (s, c, io) = (s', c', io')"
  shows "book_in_step hb ha s' \<and> fss_inst s' = fss_inst s"
proof -
  obtain st circuit where c: "cb_check now (fss_circuit s) = (st, circuit)" by (cases "cb_check now (fss_circuit s)")
  let ?s = "s\<lparr>fss_book := mark_stale BSR_SequenceGap (fss_book s), fss_feed_state := FS_Recovering, fss_circuit := circuit\<rparr>"
  have ok: "book_in_step hb ha ?s" using assms(1) by (simp add: book_in_step_def)
  show ?thesis
  proof (cases "st = Closed")
    case True
    with assms(3) c in_step_recover [where u = u, OF ok assms(2)] show ?thesis
      by (auto simp: futures_gap_def Let_def)
  next
    case False
    with assms(3) c ok show ?thesis
      by (auto simp: futures_gap_def Let_def futures_failure_def book_in_step_def)
  qed
qed

lemma rb_push_deltas:
  "rb_push d ts n b = (r, b') \<Longrightarrow> bfd_delta ` set (rb_events b') \<subseteq> insert d (bfd_delta ` set (rb_events b))"
  by (auto simp: rb_push_def split: if_splits)

lemma in_step_delta:
  assumes "book_in_step hb ha s" "futures_delta_faithful hb ha bd" "snap_faithful hb ha snap"
    and eq: "futures_delta u bd now snap (s, c, io) = (go, s', c', io')"
  shows "book_in_step hb ha s' \<and> fss_inst s' = fss_inst s"
proof -
  obtain e buf where e: "BookDelta_encode_into bd (sio_buf io) = (e, buf)"
    by (cases "BookDelta_encode_into bd (sio_buf io)")
  obtain p rbuf where p: "rb_push bd now (case e of Inr n \<Rightarrow> n | Inl _ \<Rightarrow> 0) (fss_recovery_buf s) = (p, rbuf)"
    by (cases "rb_push bd now (case e of Inr n \<Rightarrow> n | Inl _ \<Rightarrow> 0) (fss_recovery_buf s)")
  obtain r v where r: "fv_validate (bd_first_update_id bd) (bd_final_update_id bd) (bd_prev_update_id bd)
      (fss_validator s) = (r, v)"
    by (cases "fv_validate (bd_first_update_id bd) (bd_final_update_id bd) (bd_prev_update_id bd) (fss_validator s)")
  have pushed: "book_in_step hb ha (s\<lparr>fss_recovery_buf := rbuf\<rparr>)" "book_in_step hb ha (s\<lparr>fss_recovery_buf := rb_clear rbuf\<rparr>)"
    using assms(1,2) rb_push_deltas [OF p] by (auto simp: book_in_step_def rb_clear_def)
  have "fv.synced hb ha v (if fv_kind r = Apply then apply_delta bd (fss_book s) else fss_book s)"
    using fv_synced_step [of hb ha "fss_validator s" "fss_book s" bd r v] assms(1,2) r
    by (simp add: book_in_step_def fv_check_def)
  then have stepped: "book_in_step hb ha (s\<lparr>fss_validator := v,
        fss_book := if fv_kind r = Apply then apply_delta bd (fss_book s) else fss_book s\<rparr>)"
    and both: "fv_kind r \<noteq> Apply \<Longrightarrow> book_in_step hb ha (s\<lparr>fss_validator := v, fss_recovery_buf := rbuf\<rparr>)"
    and plain: "fv_kind r \<noteq> Apply \<Longrightarrow> book_in_step hb ha (s\<lparr>fss_validator := v\<rparr>)"
    using assms(1) pushed(1) by (simp_all add: book_in_step_def)
  show ?thesis
  proof (cases "fss_is_stale s \<or> fv_state (fss_validator s) = FV_AwaitingSnapshot")
    case True
    then have "\<exists>rb io1. (s', c', io') = (s\<lparr>fss_recovery_buf := rb\<rparr>, c, io1) \<and> rb \<in> {rbuf, rb_clear rbuf}"
      using eq by (cases "fss_is_stale s"; cases p) (auto simp: futures_delta_def Let_def e p)
    with pushed show ?thesis by auto
  next
    case False
    then show ?thesis
    proof (cases r)
      case (FV_Gap a b l)
      have "futures_gap u a b now snap (s\<lparr>fss_validator := v\<rparr>, c, io\<lparr>sio_buf := buf\<rparr>) = (s', c', io')"
        using eq False FV_Gap by (simp add: futures_delta_def Let_def e p r)
      from in_step_gap [OF plain assms(3) this] FV_Gap show ?thesis by simp
    qed (use eq False stepped both plain in \<open>auto simp: futures_delta_def Let_def e p r\<close>)
  qed
qed

lemma in_step_dispatch:
  assumes "book_in_step hb ha s" "\<forall>bd. msg = NM_BookDelta bd \<longrightarrow> futures_delta_faithful hb ha bd"
    and "snap_faithful hb ha snap"
    and "futures_dispatch u msg now snap (s, c, io) = (go, s', c', io')"
  shows "book_in_step hb ha s' \<and> fss_inst s' = fss_inst s"
proof (cases "\<exists>bd. msg = NM_BookDelta bd")
  case True
  then obtain bd where "msg = NM_BookDelta bd" ..
  with assms in_step_delta [of hb ha s bd snap u now c io go s' c' io'] show ?thesis
    by (simp add: futures_dispatch_def)
next
  case False
  with assms(1,4) show ?thesis
    by (cases msg) (auto simp: futures_dispatch_def split: option.splits)
qed

section \<open>Runs\<close>

lemma futures_messages_inv:
  assumes "Q t" "\<And>i t msg. Q t \<Longrightarrow> msg \<in> set msgs \<Longrightarrow> Q (futures_message u k ts (clock i) (snap i) msg t)"
  shows "Q (futures_messages u k ts clock snap msgs t)"
  using assms by (induction u k ts clock snap msgs t rule: futures_messages.induct) auto

lemma run_futures_inv:
  assumes "Q t"
    and "\<And>frame clock snap t. FIn_Frame frame clock snap \<in> set xs \<Longrightarrow> Q t \<Longrightarrow>
      Q (futures_shard_frame json u frame clock snap t)"
  shows "Q (run_futures_shard json u xs t)"
  using assms by (induction json u xs t rule: run_futures_shard.induct) simp_all

text \<open>A frame from its messages, for what does not depend on the sequence counter.\<close>

lemma futures_frame_inv:
  assumes "Q t" "\<And>seq t. Q t \<Longrightarrow> Q (t\<lparr>ftk_io := (ftk_io t)\<lparr>sio_seq := seq\<rparr>\<rparr>)"
    and "\<And>event k s msgs seq seq' msg i t'. parse_futures_message json (rf_payload frame) = Inr event \<Longrightarrow>
      symbol_from_futures_event event = Some k \<Longrightarrow> fse_get k (ftk_engine t) = Some s \<Longrightarrow>
      normalize_futures_event event (fss_inst s) (shs_ctx u) (rf_recv_ts frame) seq = (Inr msgs, seq') \<Longrightarrow>
      msg \<in> set msgs \<Longrightarrow> Q t' \<Longrightarrow> Q (futures_message u k (rf_recv_ts frame) (clock i) (snap i) msg t')"
  shows "Q (futures_shard_frame json u frame clock snap t)"
proof (cases "parse_futures_message json (rf_payload frame)")
  case (Inr event)
  show ?thesis
  proof (cases "symbol_from_futures_event event")
    case (Some k)
    show ?thesis
    proof (cases "fse_get k (ftk_engine t)")
      case s: (Some s)
      obtain r seq where r: "normalize_futures_event event (fss_inst s) (shs_ctx u) (rf_recv_ts frame)
          (sio_seq (ftk_io t)) = (r, seq)"
        by (cases "normalize_futures_event event (fss_inst s) (shs_ctx u) (rf_recv_ts frame) (sio_seq (ftk_io t))")
      note q = assms(2) [OF assms(1), of seq]
      show ?thesis
      proof (cases r)
        case (Inl e)
        with q show ?thesis by (simp add: futures_shard_frame_def Inr Some s r \<open>parse_futures_message _ _ = _\<close>)
      next
        case msgs: (Inr msgs)
        have "Q (futures_messages u k (rf_recv_ts frame) clock snap msgs
            (t\<lparr>ftk_io := (ftk_io t)\<lparr>sio_seq := seq\<rparr>\<rparr>))"
          by (rule futures_messages_inv [where Q = Q, OF q]) (rule assms(3) [OF Inr Some s r [unfolded msgs]])
        then show ?thesis by (simp add: futures_shard_frame_def Inr Some s r msgs)
      qed
    qed (use assms(1) Inr Some in \<open>simp add: futures_shard_frame_def\<close>)
  qed (use assms(1) Inr in \<open>simp add: futures_shard_frame_def\<close>)
qed (use assms(1) in \<open>simp add: futures_shard_frame_def\<close>)

definition futures_insts :: "futures_shard_engine \<Rightarrow> string \<Rightarrow> InstrumentDefinition option" where
  "futures_insts e k = map_option fss_inst (fse_get k e)"

section \<open>Books in step stay in step\<close>

definition all_in_step ::
  "(string \<Rightarrow> InstrumentDefinition option) \<Rightarrow> (string \<Rightarrow> history) \<Rightarrow> (string \<Rightarrow> history) \<Rightarrow> 'p futures_task \<Rightarrow> bool" where
  "all_in_step insts hb ha t \<longleftrightarrow> (\<forall>k s. fse_get k (ftk_engine t) = Some s \<longrightarrow>
     insts k = Some (fss_inst s) \<and> book_in_step (hb k) (ha k) s)"

lemma all_in_step_message:
  assumes "all_in_step insts hb ha t" "\<forall>bd. msg = NM_BookDelta bd \<longrightarrow> futures_delta_faithful (hb k) (ha k) bd"
    and "snap_faithful (hb k) (ha k) snap"
  shows "all_in_step insts hb ha (futures_message u k ts now snap msg t)"
proof (cases rule: futures_message_cases [of u k ts now snap msg t])
  case (step s c go s' c' io' t')
  have "book_in_step (hb k) (ha k) s" "insts k = Some (fss_inst s)"
    using assms(1) step(1) by (simp_all add: all_in_step_def)
  with in_step_dispatch [OF this(1) assms(2,3) step(3)]
  have "all_in_step insts hb ha t'"
    using assms(1) step(6) by (simp add: all_in_step_def)
  then show ?thesis
    by (simp add: step(5) all_in_step_def)
qed (use assms in simp)

definition futures_input_faithful ::
  "'j futures_json \<Rightarrow> 'p shard_setup \<Rightarrow> (string \<Rightarrow> history) \<Rightarrow> (string \<Rightarrow> history) \<Rightarrow>
   (string \<Rightarrow> InstrumentDefinition option) \<Rightarrow> 'e futures_input \<Rightarrow> bool" where
  "futures_input_faithful json u hb ha insts x \<longleftrightarrow>
     (case x of
        FIn_Frame frame clock snap \<Rightarrow>
          (\<forall>event k. parse_futures_message json (rf_payload frame) = Inr event \<longrightarrow>
             symbol_from_futures_event event = Some k \<longrightarrow>
             (\<forall>i. snap_faithful (hb k) (ha k) (snap i)) \<and>
             (\<forall>inst seq seq' msgs bd. insts k = Some inst \<longrightarrow>
                normalize_futures_event event inst (shs_ctx u) (rf_recv_ts frame) seq = (Inr msgs, seq') \<longrightarrow>
                NM_BookDelta bd \<in> set msgs \<longrightarrow> futures_delta_faithful (hb k) (ha k) bd))
      | _ \<Rightarrow> True)"


section \<open>A shard as it starts\<close>

fun depth_message :: "normalized_message \<Rightarrow> bool" where
  "depth_message (NM_BookDelta _) \<longleftrightarrow> True"
| "depth_message (NM_BookSnapshot _) \<longleftrightarrow> True"
| "depth_message (NM_GapDetected _) \<longleftrightarrow> True"
| "depth_message (NM_BookStale _) \<longleftrightarrow> True"
| "depth_message (NM_BookRecovered _) \<longleftrightarrow> True"
| "depth_message _ \<longleftrightarrow> False"

definition log_without_depth :: "u8 list list shard_setup \<Rightarrow> u8 list list shard_io \<Rightarrow> bool" where
  "log_without_depth u io \<longleftrightarrow> recording u io \<and>
     (\<forall>bytes \<in> set (published u io). \<exists>m. nm_from_bytes bytes = Inr m \<and> \<not> depth_message m)"

lemma log_without_depth_offer:
  assumes "log_without_depth u io" "nm_ok m" "\<not> depth_message m"
  shows "log_without_depth u (offer_message u m io)"
  using assms offer_message_published [of u io m] nm_from_bytes_wire [OF assms(2), of "[]"]
  by (auto simp: log_without_depth_def)

lemma log_without_depth_io [simp]:
  "log_without_depth u (io\<lparr>sio_seq := x\<rparr>) = log_without_depth u io"
  "log_without_depth u (io\<lparr>sio_buf := y\<rparr>) = log_without_depth u io"
  by (simp_all add: log_without_depth_def)

text \<open>The symbol waits for a snapshot in front of an empty book that is not stale.\<close>

definition never_started :: "string \<Rightarrow> futures_symbol_state \<Rightarrow> bool" where
  "never_started k s \<longleftrightarrow> fss_book s = OrderBook_new k \<and> fss_validator s = fv_new \<and> fss_feed_state s = FS_Connecting"

definition waiting ::
  "u8 list list shard_setup \<Rightarrow> (string \<Rightarrow> InstrumentDefinition option) \<Rightarrow> u8 list list futures_task \<Rightarrow> bool" where
  "waiting u insts t \<longleftrightarrow> log_without_depth u (ftk_io t) \<and>
     (\<forall>k s. fse_get k (ftk_engine t) = Some s \<longrightarrow> insts k = Some (fss_inst s) \<and> never_started k s)"

lemma never_started_delta:
  assumes "never_started k s"
  shows "\<exists>rb. futures_delta u bd now snap (s, c, io) = (False, s\<lparr>fss_recovery_buf := rb\<rparr>, c,
    io\<lparr>sio_buf := snd (nm_encode_into (NM_BookDelta bd) (sio_buf io))\<rparr>)"
proof -
  obtain e buf where e: "BookDelta_encode_into bd (sio_buf io) = (e, buf)"
    by (cases "BookDelta_encode_into bd (sio_buf io)")
  obtain p rbuf where p: "rb_push bd now (case e of Inr n \<Rightarrow> n | Inl _ \<Rightarrow> 0) (fss_recovery_buf s) = (p, rbuf)"
    by (cases "rb_push bd now (case e of Inr n \<Rightarrow> n | Inl _ \<Rightarrow> 0) (fss_recovery_buf s)")
  have "\<not> fss_is_stale s" "fv_state (fss_validator s) = FV_AwaitingSnapshot"
    using assms by (simp_all add: never_started_def fss_is_stale_def OrderBook_new_def fv_new_def)
  then show ?thesis
    by (cases p) (auto simp: futures_delta_def Let_def e p)
qed

lemma waiting_heartbeat:
  assumes "waiting u insts t"
  shows "waiting u insts (futures_heartbeat u now t)"
proof -
  obtain h seq where h: "futures_shard_hdr MT_Heartbeat (shs_ctx u) now (sio_seq (ftk_io t)) = (h, seq)"
      "mh_message_type h = MT_Heartbeat"
    by (simp add: futures_shard_hdr_def Let_def)
  have "log_without_depth u (offer_message u (NM_Heartbeat \<lparr>hb_header = h\<rparr>) ((ftk_io t)\<lparr>sio_seq := seq\<rparr>))"
    by (rule log_without_depth_offer) (use assms h(2) in \<open>simp_all add: waiting_def\<close>)
  with assms show ?thesis
    by (simp add: futures_heartbeat_def h(1) waiting_def)
qed

lemma waiting_message:
  assumes t: "waiting u insts t" and m: "depth_message msg \<longrightarrow> (\<exists>bd. msg = NM_BookDelta bd)"
    "\<not> depth_message msg \<longrightarrow> nm_ok msg"
  shows "waiting u insts (futures_message u k ts now snap msg t)"
proof (cases rule: futures_message_cases [of u k ts now snap msg t])
  case (step s c go s' c' io' t')
  have s: "insts k = Some (fss_inst s)" "never_started k s" "log_without_depth u (ftk_io t)"
    using t step(1) by (simp_all add: waiting_def)
  have "never_started k s' \<and> fss_inst s' = fss_inst s \<and> log_without_depth u io'"
  proof (cases "depth_message msg")
    case True
    with m obtain bd where "msg = NM_BookDelta bd" by blast
    with step(3) s never_started_delta [where u = u and snap = snap, OF s(2), of bd ts c "ftk_io t"] show ?thesis
      by (auto simp: futures_dispatch_def never_started_def)
  next
    case False
    with s log_without_depth_offer [OF s(3), of msg] m step(3) show ?thesis
      by (cases msg) (auto simp: futures_dispatch_def)
  qed
  then have "waiting u insts t'"
    using t step(4,6) s(1) by (simp add: waiting_def)
  then show ?thesis
    by (simp add: step(5) waiting_heartbeat)
qed (use t in simp)

lemma normalized_futures_messages:
  assumes "normalize_futures_event event inst ctx recv_ts seq = (Inr msgs, seq')" "msg \<in> set msgs"
    and "str_ok (id_symbol inst)"
  shows "(depth_message msg \<longrightarrow> (\<exists>bd. msg = NM_BookDelta bd)) \<and> (\<not> depth_message msg \<longrightarrow> nm_ok msg)"
proof (cases "futures_event_small event")
  case True
  with normalize_futures_ok [OF assms(1,3)] assms(1,2) show ?thesis
    by (auto simp: normalize_futures_defs and_then_Inr_iff split: futures_event.splits sum.splits if_splits)
next
  case False
  with assms(1,2) show ?thesis
    by (cases event) (auto simp: normalize_futures_defs and_then_Inr_iff)
qed

definition futures_engine_of :: "u32 \<Rightarrow> InstrumentDefinition list \<Rightarrow> futures_shard_engine" where
  "futures_engine_of shard_id insts = fold fse_add_symbol insts (FuturesShardEngine_new shard_id)"

definition recording_futures :: "u32 \<Rightarrow> u8 list list shard_setup" where
  "recording_futures i = \<lparr>shs_offer = rec_offer, shs_shard_id = i, shs_ctx = futures_shard_ctx i\<rparr>"

definition recording_futures_task :: "u32 \<Rightarrow> heartbeater \<Rightarrow> i64 \<Rightarrow> InstrumentDefinition list \<Rightarrow> u8 list list futures_task" where
  "recording_futures_task i hbt now insts =
     futures_task_new (recording_futures i) (sp_new [(i, [])]) hbt now (futures_engine_of i insts)"

lemma futures_engine_of_state:
  assumes "fse_get k (futures_engine_of i insts) = Some s"
  shows "never_started k s \<and> fss_inst s \<in> set insts"
  using assms unfolding futures_engine_of_def
  by (auto simp: fse.fold_add_first fse.lookup_empty [where n = i] find_Some_iff FuturesSymbolState_new_def
      never_started_def split: option.splits)

lemma waiting_new:
  "waiting (recording_futures i) (futures_insts (futures_engine_of i insts)) (recording_futures_task i hbt now insts)"
proof -
  let ?u = "recording_futures i"
  let ?start = "\<lparr>sio_seq = 0, sio_buf = replicate 64000 0, sio_publisher = sp_new [(i, [])]\<rparr>"
  obtain h seq where h: "futures_shard_hdr MT_FeedStatus (shs_ctx ?u) now 0 = (h, seq)" "mh_message_type h = MT_FeedStatus"
    by (simp add: futures_shard_hdr_def Let_def)
  have "log_without_depth ?u ?start"
    by (simp add: log_without_depth_def recording_def published_def recording_futures_def sp_publication_def sp_new_def)
  then have "log_without_depth ?u (offer_message ?u (NM_FeedStatus \<lparr>fs_header = h, fs_state = FS_Connecting\<rparr>)
      (?start\<lparr>sio_seq := seq\<rparr>))"
    by (intro log_without_depth_offer) (simp_all add: h(2) FeedStatus_ok_def log_without_depth_def recording_def published_def)
  then have "log_without_depth ?u (futures_set_feed_state ?u FS_Connecting now ?start)"
    using h(1) by (simp add: futures_set_feed_state_def)
  then show ?thesis
    using futures_engine_of_state
    by (auto simp: waiting_def recording_futures_task_def futures_task_new_def futures_insts_def)
qed

text \<open>C23: A Futures shard never leaves its start. Whatever frames arrive, every book stays empty, every
  validator waits for a snapshot that nothing asks for, as the book is not stale and there is no
  gap, every feed stays connecting, and no delta, gap or recovery is ever published.\<close>

theorem futures_books_never_start:
  assumes "\<forall>inst \<in> set insts. str_ok (id_symbol inst)"
    and "t = run_futures_shard json (recording_futures i) xs (recording_futures_task i hbt now insts)"
  shows "(\<forall>k s. fse_get k (ftk_engine t) = Some s \<longrightarrow>
      fss_book s = OrderBook_new k \<and> fv_state (fss_validator s) = FV_AwaitingSnapshot \<and>
      fss_feed_state s = FS_Connecting) \<and>
    (\<forall>bytes \<in> set (published (recording_futures i) (ftk_io t)).
      \<exists>m. nm_from_bytes bytes = Inr m \<and> \<not> depth_message m)"
proof -
  let ?insts = "futures_insts (futures_engine_of i insts)"
  let ?Q = "waiting (recording_futures i) ?insts"
  have "?Q t"
    unfolding assms(2)
  proof (rule run_futures_inv [where Q = ?Q, OF waiting_new])
    fix frame clock and snap :: "nat \<Rightarrow> 'b + BookSnapshot" and t'
    assume q: "?Q t'"
    show "?Q (futures_shard_frame json (recording_futures i) frame clock snap t')"
    proof (rule futures_frame_inv [where Q = ?Q, OF q])
      fix event k s msgs seq seq' msg j t2
      assume a: "fse_get k (ftk_engine t') = Some s" "msg \<in> set msgs" "?Q t2"
        "normalize_futures_event event (fss_inst s) (shs_ctx (recording_futures i)) (rf_recv_ts frame) seq = (Inr msgs, seq')"
      have "?insts k = Some (fss_inst s)" using q a(1) by (simp add: waiting_def)
      then have "str_ok (id_symbol (fss_inst s))"
        using assms(1) futures_engine_of_state by (auto simp: futures_insts_def) metis
      from normalized_futures_messages [OF a(4,2) this] waiting_message [OF a(3)]
      show "?Q (futures_message (recording_futures i) k (rf_recv_ts frame) (clock j) (snap j) msg t2)"
        by blast
    qed (simp add: waiting_def)
  qed
  then show ?thesis
    by (auto simp: waiting_def log_without_depth_def never_started_def fv_new_def)
qed

section \<open>Sample runs\<close>

text \<open>A frame never removes a symbol.\<close>

lemma futures_message_keeps:
  "fse_get j (ftk_engine t) \<noteq> None \<Longrightarrow> fse_get j (ftk_engine (futures_message u k ts now snap msg t)) \<noteq> None"
  by (cases rule: futures_message_cases [of u k ts now snap msg t]) auto

lemma futures_run_keeps:
  assumes "fse_get j (ftk_engine t) \<noteq> None"
  shows "fse_get j (ftk_engine (run_futures_shard json u xs t)) \<noteq> None"
  by (rule run_futures_inv [where Q = "\<lambda>t. fse_get j (ftk_engine t) \<noteq> None", OF assms],
      rule futures_frame_inv [where Q = "\<lambda>t. fse_get j (ftk_engine t) \<noteq> None"])
    (assumption | rule futures_message_keeps | simp)+

text \<open>An event behind a gap, answered with the snapshot of the Spot sample.\<close>

definition fut_depth :: FuturesDepthUpdate where
  "fut_depth = \<lparr>fdu_event_time_ms = 1000, fdu_transaction_time_ms = 1000, fdu_symbol = ''BTCUSDT'',
     fdu_first_update_id = 7, fdu_last_update_id = 7, fdu_prev_final_update_id = 6, fdu_bids = [], fdu_asks = []\<rparr>"

definition fut_json :: "unit futures_json" where
  "fut_json = \<lparr>fj_wrapper = (\<lambda>_. Inr (''btcusdt@depth@100ms'', [])), fj_book_ticker = (\<lambda>_. Inl ()),
     fj_depth_update = (\<lambda>_. Inr fut_depth), fj_agg_trade = (\<lambda>_. Inl ()), fj_mark_price = (\<lambda>_. Inl ()),
     fj_force_order = (\<lambda>_. Inl ())\<rparr>"

definition fut_inputs :: "unit futures_input list" where
  "fut_inputs = [FIn_Frame (run_frame []) (\<lambda>_. 0) (\<lambda>_. Inr run_snapshot)]"

definition fut_live_task :: "u8 list list futures_task" where
  "fut_live_task = (recording_futures_task 1 run_hbt 0 [sample_inst])\<lparr>ftk_engine :=
     fse_get_mut ''BTCUSDT'' (\<lambda>s. s\<lparr>fss_validator := fv_on_snapshot 0 fv_new\<rparr>) (futures_engine_of 1 [sample_inst])\<rparr>"

lemma fut_parse: "parse_futures_message fut_json bytes = Inr (FE_DepthUpdate fut_depth)"
  by (simp add: parse_futures_message_def fut_json_def futures_stream_kind_of_def kind_segment_def)

lemma fut_engine: "fse_get k (futures_engine_of 1 [sample_inst]) =
    (if k = ''BTCUSDT'' then Some (FuturesSymbolState_new sample_inst) else None)"
  by (simp add: futures_engine_of_def fse_add_symbol_def FuturesShardEngine_new_def fse_get_def sample_inst_def)

lemma fut_in_step: "book_in_step run_history (\<lambda>_. []) ((FuturesSymbolState_new sample_inst)\<lparr>fss_validator := fv_on_snapshot 0 fv_new\<rparr>)"
  by (simp add: book_in_step_def fv.synced_def FuturesSymbolState_new_def OrderBook_new_def rb_new_def rb_with_limits_def
      fv_on_snapshot_def fv_last_valid_id_def book_exact_def book_wf_def side_wf_def bt_wf_def exch_side_def)

lemma fut_faithful:
  "\<forall>x \<in> set fut_inputs. futures_input_faithful fut_json u (\<lambda>_. run_history) (\<lambda>_ _. []) insts x"
  using run_snapshot_faithful
  by (auto simp: fut_inputs_def futures_input_faithful_def fut_parse snap_faithful_def normalize_futures_defs
      and_then_Inr_iff fut_depth_def futures_delta_faithful_def fv_ev_ok_def event_faithful_def covers_def fv_lo_def
      run_history_def futures_parse_levels_def)


theorem futures_books_never_start_witness:
  "\<exists>s. fse_get ''BTCUSDT'' (ftk_engine (run_futures_shard fut_json (recording_futures 1) fut_inputs
       (recording_futures_task 1 run_hbt 0 [sample_inst]))) = Some s \<and> fss_book s = OrderBook_new ''BTCUSDT''"
proof -
  let ?t = "recording_futures_task 1 run_hbt 0 [sample_inst]"
  have "fse_get ''BTCUSDT'' (ftk_engine ?t) \<noteq> None"
    by (simp add: recording_futures_task_def futures_task_new_def fut_engine)
  from futures_run_keeps [OF this, of fut_json "recording_futures 1" fut_inputs]
    futures_books_never_start [OF _ refl, of "[sample_inst]" fut_json 1 fut_inputs run_hbt 0] sample_inst_symbol
  show ?thesis by auto
qed

end
