(* ===== verification/Rest_Client.thy ===== *)
theory Rest_Client
  imports Refdata
begin

text \<open>
  The REST client of the reference data and its two users that run on their own: \<open>refdata/src\<close>
  client.rs and open_interest.rs, and the program \<open>bin/connector/examples/refdata_e2e.rs\<close>. The HTTP
  library is the argument \<open>http\<close>: the body of a successful answer to a URL, or an error, which
  also stands for \<open>error_for_status\<close>. A call sees its own \<open>http\<close>, since answers change with time.
\<close>

section \<open>Client\<close>

record rest_client =
  rcl_base_url :: string

definition RestClient_new :: "string \<Rightarrow> rest_client" where
  "RestClient_new base_url = \<lparr>rcl_base_url = base_url\<rparr>"

type_synonym 'h http = "string \<Rightarrow> 'h + u8 list"

definition fetch_exchange_info ::
  "(u8 list \<Rightarrow> string + SymbolInfo list) \<Rightarrow> 'h http \<Rightarrow> i64 list \<Rightarrow> venue_id \<Rightarrow> market_type \<Rightarrow> u32 \<Rightarrow> u64 \<Rightarrow>
   rest_client \<Rightarrow> 'h refdata_error + InstrumentDefinition list" where
  "fetch_exchange_info json http clock venue_id market_type instance_id first_seq c =
     (let path = exchange_info_path venue_id market_type; url = rcl_base_url c @ path in
      and_then (map_err RD_Http (http url)) (\<lambda>bytes.
      parse_exchange_info json clock bytes venue_id market_type instance_id first_seq))"

definition fetch_spot_depth_snapshot ::
  "(u8 list \<Rightarrow> string + DepthSnapshotResponse) \<Rightarrow> 'h http \<Rightarrow> InstrumentDefinition \<Rightarrow> i64 \<Rightarrow>
   rest_client \<Rightarrow> 'h refdata_error + BookSnapshot" where
  "fetch_spot_depth_snapshot json http inst recv_ts c =
     (let url = rcl_base_url c @ ''/api/v3/depth?symbol='' @ id_symbol inst @ ''&limit=1000'' in
      and_then (map_err RD_Http (http url)) (\<lambda>bytes. parse_depth_snapshot json bytes inst recv_ts))"

definition fetch_futures_depth_snapshot ::
  "(u8 list \<Rightarrow> string + DepthSnapshotResponse) \<Rightarrow> 'h http \<Rightarrow> InstrumentDefinition \<Rightarrow> i64 \<Rightarrow>
   rest_client \<Rightarrow> 'h refdata_error + BookSnapshot" where
  "fetch_futures_depth_snapshot json http inst recv_ts c =
     (let url = rcl_base_url c @ ''/fapi/v1/depth?symbol='' @ id_symbol inst @ ''&limit=1000'' in
      and_then (map_err RD_Http (http url)) (\<lambda>bytes. parse_depth_snapshot json bytes inst recv_ts))"

definition fetch_futures_open_interest ::
  "(u8 list \<Rightarrow> string + OpenInterestResponse) \<Rightarrow> 'h http \<Rightarrow> string \<Rightarrow>
   rest_client \<Rightarrow> 'h refdata_error + OpenInterestResponse" where
  "fetch_futures_open_interest json http symbol c =
     (let url = rcl_base_url c @ ''/fapi/v1/openInterest?symbol='' @ symbol in
      and_then (map_err RD_Http (http url)) (\<lambda>bytes. map_err RD_Json (json bytes)))"

text \<open>The refresh of the service is the client's \<open>fetch_exchange_info\<close> and the batch.\<close>

lemma refresh_fetches:
  "rds_refresh json clock (http (rcl_base_url c @ exchange_info_path (rds_venue_id s) (rds_market_type s))) s =
   (case fetch_exchange_info json http clock (rds_venue_id s) (rds_market_type s) (rds_instance_id s)
           (rds_next_seq s) c of
      Inl e \<Rightarrow> (Inl e, s)
    | Inr defs \<Rightarrow>
        let (events, registry) = ir_apply_batch defs (rds_registry s) in
        (Inr events, s\<lparr>rds_next_seq := rds_next_seq s + word_of_nat (length defs), rds_registry := registry\<rparr>))"
  by (simp add: rds_refresh_def fetch_exchange_info_def)

section \<open>Open interest poller\<close>

record open_interest_poller =
  oip_client :: rest_client
  oip_symbols :: "InstrumentDefinition list"
  oip_next_seq :: u64

definition OpenInterestPoller_new :: "rest_client \<Rightarrow> InstrumentDefinition list \<Rightarrow> open_interest_poller" where
  "OpenInterestPoller_new client symbols =
     \<lparr>oip_client = client, oip_symbols = symbols, oip_next_seq = 0\<rparr>"

text \<open>
  One \<open>poll_all\<close>, as far as it gets: the clock and the network at each answer. A shutdown ends it early
  at an await point, so that answers are missing for the last symbols.
\<close>

definition oip_poll ::
  "(u8 list \<Rightarrow> string + OpenInterestResponse) \<Rightarrow> (i64 \<times> 'h http) list \<Rightarrow> open_interest_poller \<Rightarrow>
   OpenInterest list \<times> open_interest_poller" where
  "oip_poll json answers p =
     (let (msgs, seq) = oi_poll_all
            (map (\<lambda>(inst, ts, http).
                 (inst, ts, fetch_futures_open_interest json http (id_symbol inst) (oip_client p)))
               (zip (oip_symbols p) answers))
            (oip_next_seq p)
      in (msgs, p\<lparr>oip_next_seq := seq\<rparr>))"

text \<open>The turns of \<open>run\<close> after the first poll: a tick with its poll, and whether it was cut short; or the shutdown.\<close>

datatype 'h oi_turn = OI_Tick "(i64 \<times> 'h http) list" bool | OI_Shutdown

fun oip_loop ::
  "(u8 list \<Rightarrow> string + OpenInterestResponse) \<Rightarrow> 'h oi_turn list \<Rightarrow> open_interest_poller \<Rightarrow>
   OpenInterest list \<times> open_interest_poller" where
  "oip_loop json [] p = ([], p)"
| "oip_loop json (OI_Shutdown # turns) p = ([], p)"
| "oip_loop json (OI_Tick answers aborted # turns) p =
     (let (msgs, p1) = oip_poll json answers p in
      if aborted then (msgs, p1)
      else let (rest, p2) = oip_loop json turns p1 in (msgs @ rest, p2))"

definition oip_run ::
  "(u8 list \<Rightarrow> string + OpenInterestResponse) \<Rightarrow> bool \<Rightarrow> (i64 \<times> 'h http) list \<Rightarrow> bool \<Rightarrow> bool \<Rightarrow>
   'h oi_turn list \<Rightarrow> open_interest_poller \<Rightarrow> OpenInterest list \<times> open_interest_poller" where
  "oip_run json stopped first aborted stopped_at_tick turns p =
     (if stopped then ([], p)
      else
        let (msgs, p1) = oip_poll json first p in
        if aborted \<or> stopped_at_tick then (msgs, p1)
        else let (rest, p2) = oip_loop json turns p1 in (msgs @ rest, p2))"

text \<open>The messages are numbered without a hole, whatever answers fail; each is of a symbol of the poller.\<close>

definition oi_numbered :: "u64 \<Rightarrow> OpenInterest list \<Rightarrow> u64 \<Rightarrow> bool" where
  "oi_numbered seq msgs seq' \<longleftrightarrow>
     map (mh_sequence_number \<circ> oi_header) msgs = map (\<lambda>i. seq + of_nat i) [0..<length msgs] \<and>
     seq' = seq + of_nat (length msgs)"

lemma oi_numbered_append:
  assumes "oi_numbered a xs b" "oi_numbered b ys c"
  shows "oi_numbered a (xs @ ys) c"
proof -
  have "map (\<lambda>i. a + of_nat i) [0..<length xs + length ys] =
      map (\<lambda>i. a + of_nat i) [0..<length xs] @ map (\<lambda>i. a + of_nat (length xs) + of_nat i) [0..<length ys]"
    by (rule nth_equalityI) (auto simp: nth_append add.assoc simp flip: of_nat_add)
  with assms show ?thesis by (simp add: oi_numbered_def add.assoc)
qed

lemma oi_numbered_Cons:
  assumes "mh_sequence_number (oi_header m) = seq" "oi_numbered (seq + 1) ms seq'"
  shows "oi_numbered seq (m # ms) seq'"
  using oi_numbered_append [of seq "[m]" "seq + 1" ms seq'] assms by (simp add: oi_numbered_def)

lemma oi_poll_all_numbered:
  "oi_poll_all xs seq = (msgs, seq') \<Longrightarrow>
   oi_numbered seq msgs seq' \<and> set (map oi_symbol msgs) \<subseteq> set (map (id_symbol \<circ> fst) xs)"
proof (induction xs arbitrary: seq msgs)
  case Nil
  then show ?case by (simp add: oi_numbered_def)
next
  case (Cons x xs)
  obtain inst ts answer where x: "x = (inst, ts, answer)" by (cases x)
  show ?case
  proof (cases "and_then answer (\<lambda>resp. normalize_open_interest ts resp inst seq)")
    case (Inl e)
    with Cons.prems x have "oi_poll_all xs seq = (msgs, seq')" by simp
    from Cons.IH [OF this] show ?thesis by auto
  next
    case (Inr m)
    then have m: "mh_sequence_number (oi_header m) = seq" "oi_symbol m = id_symbol inst"
      by (auto simp: normalize_open_interest_def and_then_def split: sum.splits)
    obtain ms where ms: "oi_poll_all xs (seq + 1) = (ms, seq')" "msgs = m # ms"
      using Cons.prems Inr x by (auto split: prod.splits)
    note IH = Cons.IH [OF ms(1)]
    have "oi_numbered seq msgs seq'"
      unfolding ms(2) by (rule oi_numbered_Cons [OF m(1)]) (use IH in blast)
    moreover have "set (map oi_symbol msgs) \<subseteq> set (map (id_symbol \<circ> fst) (x # xs))"
      using IH m(2) x by (auto simp: ms(2))
    ultimately show ?thesis by blast
  qed
qed

lemma oip_poll_numbered:
  assumes "oip_poll json answers p = (msgs, p')"
  shows "oi_numbered (oip_next_seq p) msgs (oip_next_seq p') \<and>
    set (map oi_symbol msgs) \<subseteq> set (map id_symbol (oip_symbols p)) \<and> oip_symbols p' = oip_symbols p"
proof -
  let ?xs = "map (\<lambda>(inst, ts, http).
      (inst, ts, fetch_futures_open_interest json http (id_symbol inst) (oip_client p))) (zip (oip_symbols p) answers)"
  obtain seq where seq: "oi_poll_all ?xs (oip_next_seq p) = (msgs, seq)" "p' = p\<lparr>oip_next_seq := seq\<rparr>"
    using assms by (auto simp: oip_poll_def split: prod.splits)
  have "set (map (id_symbol \<circ> fst) ?xs) \<subseteq> set (map id_symbol (oip_symbols p))"
    by (auto simp: split_beta dest: set_zip_leftD)
  from order.trans [OF conjunct2 [OF oi_poll_all_numbered [OF seq(1)]] this]
  show ?thesis using oi_poll_all_numbered [OF seq(1)] seq(2) by simp
qed

lemma oip_loop_numbered:
  "oip_loop json turns p = (msgs, p') \<Longrightarrow>
   oi_numbered (oip_next_seq p) msgs (oip_next_seq p') \<and>
   set (map oi_symbol msgs) \<subseteq> set (map id_symbol (oip_symbols p))"
proof (induction json turns p arbitrary: msgs p' rule: oip_loop.induct)
  case (3 json answers aborted turns p)
  obtain ms p1 where ms: "oip_poll json answers p = (ms, p1)" by (cases "oip_poll json answers p")
  note poll = oip_poll_numbered [OF ms]
  show ?case
  proof (cases aborted)
    case True
    with 3 ms poll show ?thesis by simp
  next
    case False
    obtain rest p2 where rest: "oip_loop json turns p1 = (rest, p2)" by (cases "oip_loop json turns p1")
    have m: "msgs = ms @ rest" "p' = p2" using 3(2) ms False rest by auto
    note IH = 3(1) [OF ms [symmetric] refl False rest]
    have "oi_numbered (oip_next_seq p) msgs (oip_next_seq p')"
      unfolding m by (rule oi_numbered_append) (use IH poll in blast)+
    moreover have "set (map oi_symbol msgs) \<subseteq> set (map id_symbol (oip_symbols p))"
      using IH poll by (simp add: m)
    ultimately show ?thesis by blast
  qed
qed (auto simp: oi_numbered_def)

lemma open_interest_numbered:
  assumes "oip_run json stopped first aborted stopped_at_tick turns (OpenInterestPoller_new client symbols) = (msgs, p)"
  shows "map (mh_sequence_number \<circ> oi_header) msgs = map of_nat [0..<length msgs] \<and>
    set (map oi_symbol msgs) \<subseteq> set (map id_symbol symbols)"
proof -
  let ?p = "OpenInterestPoller_new client symbols"
  obtain ms p1 where ms: "oip_poll json first ?p = (ms, p1)" by (cases "oip_poll json first ?p")
  obtain rest p2 where rest: "oip_loop json turns p1 = (rest, p2)" by (cases "oip_loop json turns p1")
  note poll = oip_poll_numbered [OF ms] and loop = oip_loop_numbered [OF rest]
  consider "msgs = []" "p = ?p" | "msgs = ms" "p = p1" | "msgs = ms @ rest" "p = p2"
    using assms by (auto simp: oip_run_def ms rest split: if_splits)
  then have "oi_numbered (oip_next_seq ?p) msgs (oip_next_seq p) \<and>
    set (map oi_symbol msgs) \<subseteq> set (map id_symbol (oip_symbols ?p))"
  proof cases
    case 3
    have "oi_numbered (oip_next_seq ?p) msgs (oip_next_seq p)"
      unfolding 3 by (rule oi_numbered_append) (use poll loop in blast)+
    with 3 poll loop show ?thesis by simp
  qed (use poll in \<open>simp_all add: oi_numbered_def\<close>)
  then show ?thesis by (simp add: oi_numbered_def OpenInterestPoller_new_def)
qed

end
