(* ===== verification/Refdata_Demo.thy ===== *)
theory Refdata_Demo
  imports Rest_Client Refdata_Properties
begin

text \<open>
  The reference data end to end, \<open>bin/connector/examples\<close>: refdata_e2e.rs, two refreshes of a venue
  and the broadcast of the events of the first, and spot_refdata.rs, one fetch. The programs show
  that a repeated refresh has no events and that messages survive the round trip; here both are
  proved. What they print is the result.
\<close>

section \<open>The program\<close>

record venue_stats =
  vst_instruments :: u32
  vst_trading :: u32
  vst_added :: u32
  vst_updated :: u32
  vst_offers :: u32

definition E2E_SHARDS :: "u32 list" where "E2E_SHARDS = [0, 1]"

text \<open>The loop over the events; None is the panic of a failed broadcast.\<close>

fun venue_events ::
  "'p offer \<Rightarrow> refdata_event list \<Rightarrow> venue_stats \<Rightarrow> 'p refdata_publisher \<Rightarrow> venue_stats option" where
  "venue_events offer [] stats p = Some stats"
| "venue_events offer (event # events) stats p =
     (let stats1 = stats\<lparr>vst_added := vst_added stats + (if re_is_added event then 1 else 0),
            vst_updated := vst_updated stats + (if re_is_updated event then 1 else 0),
            vst_trading := vst_trading stats + (if id_is_trading (re_definition event) then 1 else 0)\<rparr>
      in case rp_broadcast offer event p of
           (Inl _, _) \<Rightarrow> None
         | (Inr n, p1) \<Rightarrow> venue_events offer events (stats1\<lparr>vst_offers := vst_offers stats1 + n\<rparr>) p1)"

text \<open>The check of the first definition, up to its assertions.\<close>

definition round_trip_check :: "InstrumentDefinition \<Rightarrow> bool" where
  "round_trip_check def =
     (case InstrumentDefinition_encode_into def (replicate 4096 0) of
        (Inl _, _) \<Rightarrow> False
      | (Inr n, buf) \<Rightarrow>
          (case InstrumentDefinition_decode (take n buf) of
             Inl _ \<Rightarrow> False
           | Inr decoded \<Rightarrow>
               id_symbol def = id_symbol decoded \<and> id_base_asset def = id_base_asset decoded \<and>
               id_price_scale def = id_price_scale decoded \<and> id_qty_scale def = id_qty_scale decoded \<and>
               id_tick_size def = id_tick_size decoded \<and> id_step_size def = id_step_size decoded \<and>
               id_min_qty def = id_min_qty decoded \<and> id_min_notional def = id_min_notional decoded \<and>
               id_is_trading def = id_is_trading decoded))"

text \<open>
  \<open>run_venue\<close>, with the clock and the network at either refresh: the statistics and the number
  of events of the second refresh, or None for a panic.
\<close>

definition run_venue ::
  "(u8 list \<Rightarrow> string + SymbolInfo list) \<Rightarrow> i64 list \<times> 'h http \<Rightarrow> i64 list \<times> 'h http \<Rightarrow> string \<Rightarrow>
   venue_id \<Rightarrow> market_type \<Rightarrow> (venue_stats \<times> nat) option" where
  "run_venue json net1 net2 base_url venue_id market_type =
     (let url = base_url @ exchange_info_path venue_id market_type in
      case rds_refresh json (fst net1) (snd net1 url) (rds_new venue_id market_type 0) of
        (Inl _, _) \<Rightarrow> None
      | (Inr events, svc) \<Rightarrow>
          Option.bind (venue_events null_offer events
            \<lparr>vst_instruments = word_of_nat (length events), vst_trading = 0, vst_added = 0, vst_updated = 0,
             vst_offers = 0\<rparr> (rp_new (build_null E2E_SHARDS))) (\<lambda>stats.
          case rds_refresh json (fst net2) (snd net2 url) svc of
            (Inl _, _) \<Rightarrow> None
          | (Inr second, _) \<Rightarrow>
              (case events of
                 [] \<Rightarrow> Some (stats, length second)
               | event # _ \<Rightarrow>
                   if round_trip_check (re_definition event) then Some (stats, length second) else None)))"

text \<open>\<open>main\<close> of refdata_e2e.rs: the totals of both venues, instruments and offers.\<close>

definition refdata_e2e ::
  "(u8 list \<Rightarrow> string + SymbolInfo list) \<Rightarrow> i64 list \<times> 'h http \<Rightarrow> i64 list \<times> 'h http \<Rightarrow> i64 list \<times> 'h http \<Rightarrow>
   i64 list \<times> 'h http \<Rightarrow> (u32 \<times> u32) option" where
  "refdata_e2e json spot1 spot2 futures1 futures2 =
     Option.bind (run_venue json spot1 spot2 ''https://api.binance.com'' BinanceSpot Spot) (\<lambda>(spot, _).
     Option.bind (run_venue json futures1 futures2 ''https://fapi.binance.com'' BinanceFutures UsdmFutures)
       (\<lambda>(futures, _). Some (vst_instruments spot + vst_instruments futures, vst_offers spot + vst_offers futures)))"

text \<open>spot_refdata.rs: the definitions fetched, or None for the panic of a failed call, of an empty
  answer, or of the check of the first definition.\<close>

definition spot_refdata ::
  "(u8 list \<Rightarrow> string + SymbolInfo list) \<Rightarrow> i64 list \<Rightarrow> 'h http \<Rightarrow> InstrumentDefinition list option" where
  "spot_refdata json clock http =
     (case fetch_exchange_info json http clock BinanceSpot Spot 0 0 (RestClient_new ''https://api.binance.com'') of
        Inl _ \<Rightarrow> None
      | Inr [] \<Rightarrow> None
      | Inr (first # defs) \<Rightarrow>
          (case InstrumentDefinition_encode_into first (replicate 4096 0) of
             (Inl _, _) \<Rightarrow> None
           | (Inr n, buf) \<Rightarrow>
               (case InstrumentDefinition_decode (take n buf) of
                  Inl _ \<Rightarrow> None
                | Inr decoded \<Rightarrow>
                    if id_symbol first = id_symbol decoded \<and> id_price_scale first = id_price_scale decoded \<and>
                       id_tick_size first = id_tick_size decoded
                    then Some (first # defs) else None)))"

section \<open>A repeated refresh\<close>

text \<open>What an event is about: the fields that \<open>business_fields_differ\<close> compares.\<close>

definition same_business :: "InstrumentDefinition \<Rightarrow> InstrumentDefinition \<Rightarrow> bool" where
  "same_business a b \<longleftrightarrow> id_symbol a = id_symbol b \<and> \<not> business_fields_differ a b"

lemma normalize_symbol_business:
  assumes "normalize_symbol ts info v m i seq = (Inr def :: 'h refdata_error + InstrumentDefinition)"
  shows "id_symbol def = sin_symbol info \<and>
    (\<exists>def'. normalize_symbol ts' info v m i seq' = (Inr def' :: 'h refdata_error + InstrumentDefinition) \<and> same_business def def')"
  using assms
  by (auto simp: normalize_symbol_def Let_def and_then_Inr_iff same_business_def business_fields_differ_def)

lemma normalize_symbols_business:
  "normalize_symbols clock infos v m i seq = (Inr defs :: 'h refdata_error + InstrumentDefinition list) \<Longrightarrow>
   map id_symbol defs = map sin_symbol infos \<and>
   (\<exists>defs'. normalize_symbols clock' infos v m i seq' = (Inr defs' :: 'h refdata_error + InstrumentDefinition list) \<and> list_all2 same_business defs defs')"
proof (induction infos arbitrary: clock clock' seq seq' defs)
  case (Cons info infos)
  define ts where "ts = (case clock of [] \<Rightarrow> 0 | t # _ \<Rightarrow> t)"
  define ts' where "ts' = (case clock' of [] \<Rightarrow> 0 | t # _ \<Rightarrow> t)"
  obtain def ds where d: "normalize_symbol ts info v m i seq = (Inr def :: 'h refdata_error + InstrumentDefinition)"
      "normalize_symbols (tl clock) infos v m i (seq + 1) = (Inr ds :: 'h refdata_error + InstrumentDefinition list)" "defs = def # ds"
    using Cons.prems by (auto simp: and_then_Inr_iff ts_def)
  obtain def' where d': "normalize_symbol ts' info v m i seq' = (Inr def' :: 'h refdata_error + InstrumentDefinition)" "same_business def def'"
    using normalize_symbol_business [OF d(1)] by blast
  obtain ds' where ds': "normalize_symbols (tl clock') infos v m i (seq' + 1) = (Inr ds' :: 'h refdata_error + InstrumentDefinition list)"
      "list_all2 same_business ds ds'" "map id_symbol ds = map sin_symbol infos"
    using Cons.IH [OF d(2)] by blast
  have "normalize_symbols clock' (info # infos) v m i seq' = (Inr (def' # ds') :: 'h refdata_error + InstrumentDefinition list)"
    using d'(1) ds'(1) by (simp add: ts'_def)
  with normalize_symbol_business [OF d(1)] d'(2) ds'(2,3) show ?case by (auto simp: d(3))
qed simp

text \<open>A definition is known when the registry holds one with the same business fields.\<close>

definition known :: "instrument_registry \<Rightarrow> InstrumentDefinition \<Rightarrow> bool" where
  "known r def \<longleftrightarrow> (\<exists>prev. ir_get (id_symbol def) r = Some prev \<and> \<not> business_fields_differ prev def)"

lemma known_same: "known r a \<Longrightarrow> same_business a b \<Longrightarrow> known r b"
  by (auto simp: known_def same_business_def business_fields_differ_def)

lemma upsert_known: "ir_upsert def r = (ev, r') \<Longrightarrow> known r' def"
  by (auto simp: ir_upsert_def Let_def known_def ir_get_def update_conv business_fields_differ_def
      split: option.splits if_splits)

lemma upsert_other: "ir_upsert def r = (ev, r') \<Longrightarrow> s \<noteq> id_symbol def \<Longrightarrow> ir_get s r' = ir_get s r"
  by (auto simp: ir_upsert_def Let_def ir_get_def update_conv split: option.splits if_splits)

lemma batch_other:
  "ir_apply_batch defs r = (evs, r') \<Longrightarrow> s \<notin> set (map id_symbol defs) \<Longrightarrow> ir_get s r' = ir_get s r"
proof (induction defs arbitrary: r evs)
  case (Cons def defs)
  obtain ev r1 where u: "ir_upsert def r = (ev, r1)" by (rule prod.exhaust)
  obtain evs' r2 where b: "ir_apply_batch defs r1 = (evs', r2)" by (rule prod.exhaust)
  have "r2 = r'" using Cons.prems(1) u b by simp
  with Cons.IH [OF b [unfolded this]] upsert_other [OF u] Cons.prems(2) show ?case by simp
qed simp

lemma batch_known:
  "ir_apply_batch defs r = (evs, r') \<Longrightarrow> distinct (map id_symbol defs) \<Longrightarrow> \<forall>d \<in> set defs. known r' d"
proof (induction defs arbitrary: r evs)
  case (Cons def defs)
  obtain ev r1 where u: "ir_upsert def r = (ev, r1)" by (rule prod.exhaust)
  obtain evs' r2 where b: "ir_apply_batch defs r1 = (evs', r2)" by (rule prod.exhaust)
  have r2: "r2 = r'" using Cons.prems(1) u b by simp
  have "known r' def"
    using upsert_known [OF u] batch_other [OF b [unfolded r2], of "id_symbol def"] Cons.prems(2)
    by (simp add: known_def)
  with Cons.IH [OF b [unfolded r2]] Cons.prems(2) show ?case by simp
qed simp

lemma known_batch:
  "\<forall>d \<in> set defs. known r d \<Longrightarrow>
   \<exists>r'. ir_apply_batch defs r = ([], r') \<and> ir_instruments r' = ir_instruments r"
proof (induction defs arbitrary: r)
  case (Cons def defs)
  then have u: "ir_upsert def r = (None, r\<lparr>ir_next_seq := ir_next_seq r + 1\<rparr>)"
    by (auto simp: known_def ir_get_def ir_upsert_def Let_def)
  have "\<forall>d \<in> set defs. known (r\<lparr>ir_next_seq := ir_next_seq r + 1\<rparr>) d"
    using Cons.prems by (simp add: known_def ir_get_def)
  from Cons.IH [OF this] u show ?case by auto
qed simp

lemma refresh_defs:
  "rds_refresh json clock (Inr bytes :: 'h + u8 list) s = (Inr events, s1) \<longleftrightarrow>
   (\<exists>infos defs registry. json bytes = Inr infos \<and>
      normalize_symbols clock infos (rds_venue_id s) (rds_market_type s) (rds_instance_id s) (rds_next_seq s) =
        (Inr defs :: 'h refdata_error + InstrumentDefinition list) \<and>
      ir_apply_batch defs (rds_registry s) = (events, registry) \<and>
      s1 = s\<lparr>rds_next_seq := rds_next_seq s + word_of_nat (length defs), rds_registry := registry\<rparr>)"
  for json :: "u8 list \<Rightarrow> string + SymbolInfo list"
  by (cases "json bytes")
    (auto simp: rds_refresh_def parse_exchange_info_def Let_def split: sum.splits prod.splits)

text \<open>C31: Refreshing again with the same answer of the exchange yields no event and leaves the
  registry as it is, whatever clock and sequence numbers the new definitions carry, if the answer
  names every symbol once.\<close>

theorem refresh_idempotent:
  assumes "rds_refresh json clock (Inr bytes :: 'h + u8 list) s = (Inr events, s1)"
    and "json bytes = Inr infos" "distinct (map sin_symbol infos)"
  shows "\<exists>s2. rds_refresh json clock' (Inr bytes :: 'h + u8 list) s1 = (Inr [], s2) \<and>
    ir_instruments (rds_registry s2) = ir_instruments (rds_registry s1)"
proof -
  obtain defs registry where d: "normalize_symbols clock infos (rds_venue_id s) (rds_market_type s)
        (rds_instance_id s) (rds_next_seq s) = (Inr defs :: 'h refdata_error + InstrumentDefinition list)"
      "ir_apply_batch defs (rds_registry s) = (events, registry)"
      "s1 = s\<lparr>rds_next_seq := rds_next_seq s + word_of_nat (length defs), rds_registry := registry\<rparr>"
    using assms(1,2) unfolding refresh_defs by auto
  obtain defs' where d': "normalize_symbols clock' infos (rds_venue_id s1) (rds_market_type s1)
        (rds_instance_id s1) (rds_next_seq s1) = (Inr defs' :: 'h refdata_error + InstrumentDefinition list)"
      "list_all2 same_business defs defs'"
    using normalize_symbols_business [OF d(1), of clock' "rds_next_seq s1"] by (auto simp: d(3))
  have "distinct (map id_symbol defs)"
    using normalize_symbols_business [OF d(1)] assms(3) by simp
  from batch_known [OF d(2) this] d'(2) have "\<forall>x \<in> set defs'. known registry x"
    by (metis in_set_conv_nth known_same list_all2_conv_all_nth)
  from known_batch [OF this] obtain r' where
    "ir_apply_batch defs' registry = ([], r')" "ir_instruments r' = ir_instruments registry" by blast
  then show ?thesis
    using d' assms(2) unfolding refresh_defs by (auto simp: d(3))
qed

theorem refresh_idempotent_witness:
  "\<exists>ev s1 s2. rds_refresh (\<lambda>_. Inr [sample_symbol]) [5] (Inr [] :: unit + u8 list) (rds_new BinanceSpot Spot 1) =
       (Inr [ev], s1) \<and>
     rds_refresh (\<lambda>_. Inr [sample_symbol]) [6] (Inr [] :: unit + u8 list) s1 = (Inr [], s2)"
proof -
  let ?json = "\<lambda>_. Inr [sample_symbol]" and ?s0 = "rds_new BinanceSpot Spot 1"
  obtain def where d: "normalize_symbol 5 sample_symbol BinanceSpot Spot 1 0 =
      (Inr def :: unit refdata_error + InstrumentDefinition)"
    using sample_symbol_normalized by (auto simp: normalize_symbol_def Let_def and_then_Inr_iff)
  then obtain ev s1 where r: "rds_refresh ?json [5] (Inr [] :: unit + u8 list) ?s0 = (Inr [ev], s1)"
    by (auto simp: rds_refresh_def rds_new_def parse_exchange_info_def Let_def ir_upsert_def ir_new_def)
  from refresh_idempotent [OF r refl, of "[6]"] r show ?thesis by auto
qed

section \<open>The run of a venue\<close>

text \<open>Three strings that fit a message, which leaves room in the 4096 bytes of the buffer.\<close>

definition info_small :: "SymbolInfo \<Rightarrow> bool" where
  "info_small info \<longleftrightarrow> str_ok (sin_symbol info) \<and> str_ok (sin_base_asset info) \<and> str_ok (sin_quote_asset info) \<and>
     length (sin_symbol info) + length (sin_base_asset info) + length (sin_quote_asset info) \<le> 3985"

definition def_small :: "InstrumentDefinition \<Rightarrow> bool" where
  "def_small d \<longleftrightarrow> nm_ok (NM_InstrumentDefinition d) \<and> length (nm_wire (NM_InstrumentDefinition d)) \<le> 4096"

lemma normalize_symbol_small:
  assumes "info_small info" "normalize_symbol ts info v m i seq = Inr d"
  shows "def_small d"
  using assms
  by (auto simp: info_small_def def_small_def normalize_symbol_def Let_def and_then_Inr_iff refdata_make_header_def
      InstrumentDefinition_ok_def InstrumentDefinition_wire_def str_wire_def HEADER_SIZE_56)

lemma normalize_symbols_small:
  "normalize_symbols clock infos v m i seq = Inr defs \<Longrightarrow> \<forall>info \<in> set infos. info_small info \<Longrightarrow>
   \<forall>d \<in> set defs. def_small d"
proof (induction infos arbitrary: clock seq defs)
  case (Cons info infos)
  then show ?case by (auto simp: and_then_Inr_iff intro: normalize_symbol_small)
qed simp

lemma added_ok: "def_small d \<Longrightarrow> event_ok (RE_Added d (make_trading_status d k))"
  by (auto simp: def_small_def event_ok_def make_trading_status_def InstrumentDefinition_ok_def TradingStatus_ok_def
      InstrumentDefinition_wire_def TradingStatus_wire_def str_wire_def HEADER_SIZE_56)

lemma definition_encoded:
  "def_small d \<Longrightarrow> InstrumentDefinition_encode_into d (replicate 4096 0) =
     (Inr (length (nm_wire (NM_InstrumentDefinition d))), nm_wire (NM_InstrumentDefinition d) @
        drop (length (nm_wire (NM_InstrumentDefinition d))) (replicate 4096 0))"
  using nm_encode_wire [of "NM_InstrumentDefinition d" "replicate 4096 0"] by (simp add: def_small_def)

lemma definition_decoded: "def_small d \<Longrightarrow> InstrumentDefinition_decode (nm_wire (NM_InstrumentDefinition d)) = Inr d"
  using decode_fulls(1) [of d "[]"] by (simp add: def_small_def)

lemma small_round_trip: "def_small d \<Longrightarrow> round_trip_check d"
  using definition_encoded [of d] definition_decoded [of d]
  by (simp add: round_trip_check_def del: nm_wire.simps)

text \<open>The first batch of a registry adds every definition, in order.\<close>

lemma batch_adds:
  "ir_apply_batch defs r = (evs, r') \<Longrightarrow> distinct (map id_symbol defs) \<Longrightarrow>
   \<forall>d \<in> set defs. ir_get (id_symbol d) r = None \<Longrightarrow>
   list_all2 (\<lambda>d ev. \<exists>k. ev = RE_Added d (make_trading_status d k)) defs evs"
proof (induction defs arbitrary: r evs)
  case (Cons def defs)
  obtain ev r1 where u: "ir_upsert def r = (ev, r1)" by (rule prod.exhaust)
  obtain evs' r2 where b: "ir_apply_batch defs r1 = (evs', r2)" by (rule prod.exhaust)
  have e: "ev = Some (RE_Added def (make_trading_status def (ir_next_seq r)))"
    using u Cons.prems(3) by (auto simp: ir_upsert_def Let_def ir_get_def)
  have r2: "r2 = r'" and evs: "evs = RE_Added def (make_trading_status def (ir_next_seq r)) # evs'"
    using Cons.prems(1) u b e by simp_all
  have "\<forall>d \<in> set defs. ir_get (id_symbol d) r1 = None"
    using upsert_other [OF u] Cons.prems(2,3) by (metis image_eqI list.set_map list.simps(9) distinct.simps(2) list.set_intros(2))
  with Cons.IH [OF b [unfolded r2]] Cons.prems(2) show ?case by (auto simp: evs)
qed simp

text \<open>A broadcast to publications that take everything, whatever they are.\<close>

lemma offer_encoded_keeps:
  assumes "nm_ok m" "length (nm_wire m) \<le> length (rp_buf p)" "shard \<in> set (sp_shard_ids (rp_publisher p))"
    and "encode = nm_encode_into m"
  shows "\<exists>p'. rp_offer_encoded offer shard encode p = (Inr (), p') \<and> length (rp_buf p') = length (rp_buf p) \<and>
    sp_shard_ids (rp_publisher p') = sp_shard_ids (rp_publisher p)"
proof -
  obtain x where x: "map_of (sp_shards (rp_publisher p)) shard = Some x"
    using assms(3) by (metis map_of_eq_None_iff not_None_eq set_map sp_shard_ids_def)
  then have "shard \<in> fst ` set (sp_shards (rp_publisher p))" by (auto dest: map_of_SomeD intro: rev_image_eqI)
  with x show ?thesis
    using nm_encode_wire [OF assms(1,2)] assms(2)
    by (simp add: assms(4) rp_offer_encoded_def sp_offer_def sp_shard_ids_def update_keys split: prod.splits)
qed

lemma broadcast_counts:
  assumes "event_ok (RE_Added d ts)"
  shows "length (rp_buf p) = 4096 \<Longrightarrow> set ids \<subseteq> set (sp_shard_ids (rp_publisher p)) \<Longrightarrow>
    \<exists>p'. rp_broadcast_to offer ids (RE_Added d ts) sent p = (Inr (sent + word_of_nat (2 * length ids)), p') \<and>
      length (rp_buf p') = 4096 \<and> sp_shard_ids (rp_publisher p') = sp_shard_ids (rp_publisher p)"
proof (induction ids arbitrary: p sent)
  case (Cons k ids)
  have enc: "InstrumentDefinition_encode_into d = nm_encode_into (NM_InstrumentDefinition d)"
    "TradingStatus_encode_into ts = nm_encode_into (NM_TradingStatus ts)"
    by (rule ext, simp)+
  have ok: "nm_ok (NM_InstrumentDefinition d)" "length (nm_wire (NM_InstrumentDefinition d)) \<le> 4096"
    "nm_ok (NM_TradingStatus ts)" "length (nm_wire (NM_TradingStatus ts)) \<le> 4096"
    using assms by (simp_all add: event_ok_def)
  have k: "k \<in> set (sp_shard_ids (rp_publisher p))" using Cons.prems(2) by simp
  obtain p1 where p1: "rp_offer_encoded offer k (InstrumentDefinition_encode_into d) p = (Inr (), p1)"
      "length (rp_buf p1) = 4096" "sp_shard_ids (rp_publisher p1) = sp_shard_ids (rp_publisher p)"
    using offer_encoded_keeps [OF ok(1) _ k enc(1), of offer] ok(2) Cons.prems(1) by auto
  obtain p2 where p2: "rp_offer_encoded offer k (TradingStatus_encode_into ts) p1 = (Inr (), p2)"
      "length (rp_buf p2) = 4096" "sp_shard_ids (rp_publisher p2) = sp_shard_ids (rp_publisher p)"
    using offer_encoded_keeps [OF ok(3) _ _ enc(2), of p1 k offer] ok(4) k p1 by auto
  have "rp_offer_to_shard offer k (RE_Added d ts) p = (Inr 2, p2)"
    by (simp add: rp_offer_to_shard_def p1(1) p2(1))
  moreover have "set ids \<subseteq> set (sp_shard_ids (rp_publisher p2))" using Cons.prems(2) p2(3) by simp
  ultimately show ?case
    using Cons.IH [OF p2(2), of "sent + 2"] p2(3) by (auto simp: algebra_simps)
qed simp

lemma venue_events_added:
  "list_all2 (\<lambda>d ev. \<exists>k. ev = RE_Added d (make_trading_status d k)) defs evs \<Longrightarrow> \<forall>d \<in> set defs. def_small d \<Longrightarrow>
   length (rp_buf p) = 4096 \<Longrightarrow>
   venue_events offer evs st p = Some (st\<lparr>vst_added := vst_added st + word_of_nat (length defs),
     vst_trading := vst_trading st + word_of_nat (length (filter id_is_trading defs)),
     vst_offers := vst_offers st + word_of_nat (2 * length (sp_shard_ids (rp_publisher p)) * length defs)\<rparr>)"
proof (induction defs evs arbitrary: st p rule: list_all2_induct)
  case (Cons d defs ev evs)
  obtain k where ev: "ev = RE_Added d (make_trading_status d k)" using Cons.hyps(1) by blast
  have "event_ok ev" using Cons.prems(1) by (simp add: ev added_ok)
  from broadcast_counts [OF this [unfolded ev] Cons.prems(2) subset_refl, of offer 0] obtain p' where
    p': "rp_broadcast offer ev p = (Inr (word_of_nat (2 * length (sp_shard_ids (rp_publisher p)))), p')"
      "length (rp_buf p') = 4096" "sp_shard_ids (rp_publisher p') = sp_shard_ids (rp_publisher p)"
    by (auto simp: rp_broadcast_def ev)
  show ?case
    using Cons.IH [OF _ p'(2)] Cons.prems(1) p'(1,3) by (simp add: Let_def ev algebra_simps)
qed simp

text \<open>The program on a venue whose answer names every symbol once, in strings that fit a message, and is
  the same at both refreshes: nothing panics, every symbol is added and offered to both shards as
  definition and status, and the second refresh has no events.\<close>

theorem venue_run_exact:
  assumes "snd net1 (base_url @ exchange_info_path venue market) = (Inr bytes :: 'h + u8 list)"
    and "snd net2 (base_url @ exchange_info_path venue market) = (Inr bytes :: 'h + u8 list)"
    and "json bytes = Inr infos" "distinct (map sin_symbol infos)" "\<forall>info \<in> set infos. info_small info"
    and "normalize_symbols (fst net1) infos venue market 0 0 = (Inr defs :: 'h refdata_error + InstrumentDefinition list)"
  shows "run_venue json net1 net2 base_url venue market = Some
    (\<lparr>vst_instruments = word_of_nat (length infos), vst_trading = word_of_nat (length (filter id_is_trading defs)),
      vst_added = word_of_nat (length infos), vst_updated = 0,
      vst_offers = word_of_nat (4 * length infos)\<rparr>, 0)"
proof -
  let ?s0 = "rds_new venue market 0"
  obtain events registry where b: "ir_apply_batch defs (rds_registry ?s0) = (events, registry)"
    by (rule prod.exhaust)
  define s1 where "s1 = ?s0\<lparr>rds_next_seq := word_of_nat (length defs), rds_registry := registry\<rparr>"
  have first: "rds_refresh json (fst net1) (Inr bytes :: 'h + u8 list) ?s0 = (Inr events, s1)"
    unfolding refresh_defs using assms(3,6) b by (simp add: rds_new_def s1_def)
  obtain s2 where second: "rds_refresh json (fst net2) (Inr bytes :: 'h + u8 list) s1 = (Inr [], s2)"
    using refresh_idempotent [OF first assms(3,4), of "fst net2"] by blast
  have syms: "map id_symbol defs = map sin_symbol infos"
    using normalize_symbols_business [OF assms(6)] by simp
  have len: "length defs = length infos" using syms by (metis length_map)
  have small: "\<forall>d \<in> set defs. def_small d" by (rule normalize_symbols_small [OF assms(6,5)])
  have added: "list_all2 (\<lambda>d ev. \<exists>k. ev = RE_Added d (make_trading_status d k)) defs events"
    by (rule batch_adds [OF b]) (use syms assms(4) in \<open>simp_all add: rds_new_def ir_new_def ir_get_def\<close>)
  then have n: "length events = length infos" using len by (simp add: list_all2_lengthD)
  have stats: "venue_events null_offer events st (rp_new (build_null E2E_SHARDS)) =
      Some (st\<lparr>vst_added := vst_added st + word_of_nat (length infos),
        vst_trading := vst_trading st + word_of_nat (length (filter id_is_trading defs)),
        vst_offers := vst_offers st + word_of_nat (4 * length infos)\<rparr>)" for st
    using venue_events_added [OF added small, of "rp_new (build_null E2E_SHARDS)"]
    by (simp add: len rp_new_def build_null_def sp_new_def sp_shard_ids_def E2E_SHARDS_def)
  have check: "round_trip_check (re_definition ev)" if "ev \<in> set events" for ev
  proof -
    obtain i where i: "i < length events" "ev = events ! i"
      using \<open>ev \<in> set events\<close> by (auto simp: in_set_conv_nth)
    then obtain k where k: "ev = RE_Added (defs ! i) (make_trading_status (defs ! i) k)"
      using list_all2_nthD2 [OF added i(1)] by blast
    have "def_small (defs ! i)" using small i(1) n len by simp
    then show ?thesis by (simp add: k small_round_trip)
  qed
  have last: "(case events of [] \<Rightarrow> Some x | ev # _ \<Rightarrow> if round_trip_check (re_definition ev) then Some x else None) =
      Some x" for x :: "venue_stats \<times> nat"
    using check by (auto split: list.splits)
  show ?thesis
    by (simp add: run_venue_def assms(1,2) first second stats last n)
qed

lemma spot_refdata_exact:
  assumes "fetch_exchange_info json http clock BinanceSpot Spot 0 0 (RestClient_new ''https://api.binance.com'') = Inr (d # defs)"
    and "def_small d"
  shows "spot_refdata json clock http = Some (d # defs)"
  using definition_encoded [OF assms(2)] definition_decoded [OF assms(2)] assms(1)
  by (simp add: spot_refdata_def del: nm_wire.simps)

end
