(* ===== verification/Sbe_Smoke.thy ===== *)
theory Sbe_Smoke
  imports Sbe_Normalizer Config
begin

text \<open>
  The live test of the SBE feed, \<open>bin/connector/examples/sbe_smoke.rs\<close>: its command line, its
  subscription, and the loop that counts what the frames decode to. The connection manager behind
  it is modelled in theory \<open>Connection\<close>; the frames it passes on are the input here.
\<close>

section \<open>Command line\<close>

record smoke_args =
  sma_symbol :: string
  sma_count :: nat
  sma_secs :: nat

text \<open>\<open>parse::<usize>\<close> and \<open>parse::<u64>\<close>: an optional plus, at least one digit, below \<open>2 ^ 64\<close>.\<close>

fun unsigned_digits :: "nat \<Rightarrow> string \<Rightarrow> nat option" where
  "unsigned_digits acc [] = Some acc"
| "unsigned_digits acc (c # cs) =
     (case dec_digit c of
        None \<Rightarrow> None
      | Some d \<Rightarrow> if 2 ^ 64 \<le> acc * 10 + d then None else unsigned_digits (acc * 10 + d) cs)"

definition parse_unsigned :: "string \<Rightarrow> nat option" where
  "parse_unsigned s =
     (let ds = (case s of c # cs \<Rightarrow> if c = CHR ''+'' then cs else s | [] \<Rightarrow> [])
      in if ds = [] then None else unsigned_digits 0 ds)"

definition value_or :: "'a \<Rightarrow> 'a option \<Rightarrow> 'a" where
  "value_or d v = (case v of None \<Rightarrow> d | Some x \<Rightarrow> x)"

fun parse_flags :: "string list \<Rightarrow> smoke_args \<Rightarrow> smoke_args" where
  "parse_flags [] a = a"
| "parse_flags [flag] a = a"
| "parse_flags (flag # v # rest) a =
     (if flag = ''--symbol'' then parse_flags rest (a\<lparr>sma_symbol := v\<rparr>)
      else if flag = ''--count'' then parse_flags rest (a\<lparr>sma_count := value_or (sma_count a) (parse_unsigned v)\<rparr>)
      else if flag = ''--secs'' then parse_flags rest (a\<lparr>sma_secs := value_or (sma_secs a) (parse_unsigned v)\<rparr>)
      else parse_flags (v # rest) a)"

definition parse_args :: "string list \<Rightarrow> smoke_args" where
  "parse_args argv = parse_flags argv \<lparr>sma_symbol = ''BTCUSDT'', sma_count = 20, sma_secs = 30\<rparr>"

section \<open>Subscription\<close>

definition SBE_BASE :: string where "SBE_BASE = ''wss://stream-sbe.binance.com''"

definition smoke_streams :: "string \<Rightarrow> string list" where
  "smoke_streams symbol =
     (let sym = str_lowercase symbol in [sym @ ''@trade'', sym @ ''@bookTicker'', sym @ ''@depth@100ms''])"

definition smoke_url :: "smoke_args \<Rightarrow> string" where
  "smoke_url args = spot_build_url SBE_BASE (smoke_streams (sma_symbol args))"

text \<open>\<open>Ok(k) if !k.is_empty()\<close>\<close>

definition smoke_api_key :: "string option \<Rightarrow> string option" where
  "smoke_api_key env = (case env of Some k \<Rightarrow> if k \<noteq> [] then Some k else None | None \<Rightarrow> None)"

text \<open>These are the streams the adapter itself subscribes to.\<close>

lemma smoke_streams_known:
  "smoke_streams symbol = map (\<lambda>s. spot_stream_name s symbol) [SS_Trade, SS_BookTicker, SS_Depth 100]"
proof -
  have "dec_str 100 = ''100''" by code_simp
  then show ?thesis by (simp add: smoke_streams_def Let_def)
qed

section \<open>The loop\<close>

record smoke_counts =
  smc_total :: nat
  smc_sbe :: nat
  smc_json :: nat
  smc_err :: nat

text \<open>A turn: the deadline, which is looked at first, or what the channel gives.\<close>

datatype smoke_turn = Smoke_Deadline | Smoke_Frame "raw_frame option"

definition smoke_count :: "'j spot_json \<Rightarrow> raw_frame \<Rightarrow> smoke_counts \<Rightarrow> smoke_counts" where
  "smoke_count json frame c =
     (let c1 = c\<lparr>smc_total := smc_total c + 1\<rparr> in
      case decode_raw_frame json frame of
        Inr (DF_Sbe _) \<Rightarrow> c1\<lparr>smc_sbe := smc_sbe c1 + 1\<rparr>
      | Inr (DF_Json _) \<Rightarrow> c1\<lparr>smc_json := smc_json c1 + 1\<rparr>
      | Inl _ \<Rightarrow> c1\<lparr>smc_err := smc_err c1 + 1\<rparr>)"

fun smoke_loop :: "'j spot_json \<Rightarrow> nat \<Rightarrow> smoke_turn list \<Rightarrow> smoke_counts \<Rightarrow> smoke_counts" where
  "smoke_loop json count [] c = c"
| "smoke_loop json count (Smoke_Deadline # turns) c = c"
| "smoke_loop json count (Smoke_Frame None # turns) c = c"
| "smoke_loop json count (Smoke_Frame (Some frame) # turns) c =
     (let c1 = smoke_count json frame c in
      if count \<le> smc_total c1 then c1 else smoke_loop json count turns c1)"

text \<open>The exit code: success when a frame decoded as SBE.\<close>

definition smoke_run :: "'j spot_json \<Rightarrow> string list \<Rightarrow> smoke_turn list \<Rightarrow> bool" where
  "smoke_run json argv turns =
     (0 < smc_sbe (smoke_loop json (sma_count (parse_args argv)) turns
        \<lparr>smc_total = 0, smc_sbe = 0, smc_json = 0, smc_err = 0\<rparr>))"

text \<open>The frames before the deadline or the end of the channel, at most \<open>count\<close> and at least one.\<close>

fun smoke_frames :: "smoke_turn list \<Rightarrow> raw_frame list" where
  "smoke_frames (Smoke_Frame (Some frame) # turns) = frame # smoke_frames turns"
| "smoke_frames _ = []"

definition is_sbe_frame :: "'j spot_json \<Rightarrow> raw_frame \<Rightarrow> bool" where
  "is_sbe_frame json frame \<longleftrightarrow> (\<exists>m. decode_raw_frame json frame = Inr (DF_Sbe m))"

lemma smoke_count_total:
  "smc_total (smoke_count json frame c) = smc_total c + 1"
  "smc_sbe (smoke_count json frame c) = smc_sbe c + (if is_sbe_frame json frame then 1 else 0)"
  by (auto simp: smoke_count_def is_sbe_frame_def Let_def split: sum.splits decoded_frame.splits)

lemma smoke_loop_counts:
  "smc_sbe (smoke_loop json count turns c) = smc_sbe c +
     length (filter (is_sbe_frame json) (take (max 1 (count - smc_total c)) (smoke_frames turns)))"
proof (induction json count turns c rule: smoke_loop.induct)
  case (4 json count frame turns c)
  show ?case
  proof (cases "count \<le> Suc (smc_total c)")
    case True
    then have "max 1 (count - smc_total c) = Suc 0" by simp
    with True show ?thesis by (simp add: smoke_count_total Let_def)
  next
    case False
    then have "max 1 (count - smc_total c) = Suc (max 1 (count - Suc (smc_total c)))" by simp
    with False 4 [OF refl] show ?thesis by (simp add: smoke_count_total Let_def)
  qed
qed simp_all

text \<open>The program succeeds exactly when one of the frames it looks at is an SBE message.\<close>

theorem smoke_run_exact:
  "smoke_run json argv turns \<longleftrightarrow>
     (\<exists>frame \<in> set (take (max 1 (sma_count (parse_args argv))) (smoke_frames turns)). is_sbe_frame json frame)"
  by (simp add: smoke_run_def smoke_loop_counts filter_empty_conv)

end
