(* ===== verification/Shadow_Demo.thy ===== *)
theory Shadow_Demo
  imports Shadow_Properties
begin

text \<open>
  The demonstration of the shadow comparison, \<open>bin/shadow-compare/src/main.rs\<close> with \<open>--demo\<close>: three
  phases of best bids and offers for four symbols, a report after each, and the exit code. The
  channels hold 4096 frames and every tick empties them, so no send waits. Of the reports the
  verdicts are modelled; command line and printing are not.
\<close>

section \<open>The program\<close>

definition demo_header :: message_header where
  "demo_header = \<lparr>mh_schema_version = SCHEMA_VERSION, mh_message_type = MT_BestBidOffer,
     mh_venue_id = BinanceSpot, mh_market_type = Spot, mh_instrument_id = 1, mh_connection_id = 0,
     mh_instance_id = 0, mh_sequence_number = 0, mh_exchange_event_ts = 0, mh_exchange_tx_ts = TS_NONE,
     mh_local_recv_ts = 0, mh_local_publish_ts = 0\<rparr>"

definition demo_bbo :: "string \<Rightarrow> i64 \<Rightarrow> i64 \<Rightarrow> u64 \<Rightarrow> BestBidOffer" where
  "demo_bbo symbol bid ask seq =
     \<lparr>bbo_header = demo_header\<lparr>mh_sequence_number := seq\<rparr>, bbo_symbol = symbol, bbo_price_scale = 2,
      bbo_qty_scale = 3, bbo_bid_price = bid, bbo_bid_qty = 1000000, bbo_ask_price = ask,
      bbo_ask_qty = 500000, bbo_update_id = seq\<rparr>"

text \<open>The frame \<open>send_bbo\<close> sends; None is the panic of its \<open>unwrap\<close>.\<close>

definition send_bbo :: "string \<Rightarrow> i64 \<Rightarrow> i64 \<Rightarrow> u64 \<Rightarrow> u8 list option" where
  "send_bbo symbol bid ask seq =
     (case BestBidOffer_encode_into (demo_bbo symbol bid ask seq) (replicate 512 0) of
        (Inl _, _) \<Rightarrow> None
      | (Inr len, buf) \<Rightarrow> Some (take len buf))"

definition demo_prices :: "(string \<times> i64 \<times> i64) list" where
  "demo_prices = [(''BTCUSDT'', 640000000, 640010000), (''ETHUSDT'', 170000000, 170010000),
     (''BNBUSDT'', 60000000, 60010000), (''SOLUSDT'', 7000000, 7010000)]"

fun demo_feed :: "(string \<times> i64 \<times> i64) list \<Rightarrow> u64 \<Rightarrow> u8 list list option" where
  "demo_feed [] seq = Some []"
| "demo_feed ((symbol, bid, ask) # prices) seq =
     Option.bind (send_bbo symbol bid ask seq) (\<lambda>frame.
     Option.bind (demo_feed prices seq) (\<lambda>frames. Some (frame # frames)))"

text \<open>Phases 1 and 3: matching pairs, a tick for each number.\<close>

fun demo_phase :: "u64 list \<Rightarrow> comparator \<Rightarrow> comparator option" where
  "demo_phase [] c = Some c"
| "demo_phase (seq # seqs) c =
     Option.bind (demo_feed demo_prices seq) (\<lambda>frames.
     Option.bind (cmp_round (frames, frames) c) (demo_phase seqs))"

definition demo_diverge :: "comparator \<Rightarrow> comparator option" where
  "demo_diverge c =
     Option.bind (send_bbo ''ETHUSDT'' 170000000 170010000 9999) (\<lambda>active.
     Option.bind (send_bbo ''ETHUSDT'' 170850000 170860000 9999) (\<lambda>shadow.
     cmp_round ([active], [shadow]) c))"

text \<open>The verdicts of the three reports; the last one is that of the exit code.\<close>

definition run_demo :: "compare_config \<Rightarrow> (shadow_verdict \<times> shadow_verdict \<times> shadow_verdict) option" where
  "run_demo cfg =
     Option.bind (demo_phase (map word_of_nat [0..<unat (cc_min_samples cfg)]) (cmp_new cfg [] [])) (\<lambda>c1.
     Option.bind (demo_diverge c1) (\<lambda>c2.
     Option.bind (demo_phase (map word_of_nat [10000..<10005]) c2) (\<lambda>c3.
     Some (cmp_verdict c1, cmp_verdict c2, cmp_verdict c3))))"

section \<open>Its verdicts\<close>

lemma send_bbo_decodes:
  assumes "str_ok symbol" "length symbol \<le> 100"
  shows "\<exists>frame. send_bbo symbol bid ask seq = Some frame \<and> frame_bbo frame = Some (symbol, bid, ask)"
proof -
  let ?m = "NM_BestBidOffer (demo_bbo symbol bid ask seq)"
  have ok: "nm_ok ?m" "length (nm_wire ?m) \<le> length (replicate 512 (0 :: u8))"
    using assms by (auto simp: demo_bbo_def demo_header_def BestBidOffer_ok_def BestBidOffer_wire_def str_wire_def HEADER_SIZE_56)
  from nm_encode_wire [OF this] nm_from_bytes_wire [OF ok(1), of "[]"] show ?thesis
    by (auto simp: send_bbo_def frame_bbo_def demo_bbo_def)
qed

lemma demo_feed_bbos:
  "\<forall>(s, b, a) \<in> set prices. str_ok s \<and> length s \<le> 100 \<Longrightarrow>
   \<exists>frames. demo_feed prices seq = Some frames \<and> feed_bbos frames = prices"
proof (induction prices)
  case (Cons p prices)
  obtain s b a where p: "p = (s, b, a)" by (cases p)
  obtain frame where "send_bbo s b a seq = Some frame" "frame_bbo frame = Some (s, b, a)"
    using send_bbo_decodes [of s b a seq] Cons.prems p by auto
  with Cons p show ?case by (auto simp: feed_bbos_def map_filter_simps)
qed (simp add: feed_bbos_def map_filter_simps)

lemma demo_frames: "\<exists>frames. demo_feed demo_prices seq = Some frames \<and> feed_bbos frames = demo_prices"
proof (rule demo_feed_bbos)
  show "\<forall>(s, b, a) \<in> set demo_prices. str_ok s \<and> length s \<le> 100"
    by (auto simp: demo_prices_def str_ok_def u16_MAX_def intro!: str_utf8_ascii)
qed

text \<open>The statistics after \<open>k\<close> matching pairs of every symbol, but for those of ETHUSDT.\<close>

definition quiet_stats :: "string \<Rightarrow> nat \<Rightarrow> symbol_stats" where
  "quiet_stats s k = (symbol_stats_new s)\<lparr>sst_samples := word_of_nat k\<rparr>"

definition demo_stats :: "nat \<Rightarrow> symbol_stats \<Rightarrow> (string, symbol_stats) hash_map" where
  "demo_stats k eth = [(''SOLUSDT'', quiet_stats ''SOLUSDT'' k), (''BNBUSDT'', quiet_stats ''BNBUSDT'' k),
     (''ETHUSDT'', eth), (''BTCUSDT'', quiet_stats ''BTCUSDT'' k)]"

definition demo_state :: "compare_config \<Rightarrow> (string \<times> i64 \<times> i64) list \<Rightarrow> nat \<Rightarrow> symbol_stats \<Rightarrow> comparator" where
  "demo_state cfg shadow k eth = (cmp_new cfg [] [])\<lparr>cmp_active_bbo := demo_prices, cmp_shadow_bbo := shadow,
     cmp_stats := demo_stats k eth\<rparr>"

lemma record_same:
  assumes "0 \<le> cc_tolerance_bps cfg" "0 \<le> sst_max_bid_diff_bps st" "0 \<le> sst_max_ask_diff_bps st"
  shows "record_sample cfg 0 0 st = st\<lparr>sst_samples := sst_samples st + 1\<rparr>"
  using assms by (simp add: record_sample_def max_def antisym)

lemma record_quiet:
  "0 \<le> cc_tolerance_bps cfg \<Longrightarrow> record_sample cfg 0 0 (quiet_stats s k) = quiet_stats s (Suc k)"
  by (simp add: record_same quiet_stats_def symbol_stats_new_def)

lemma record_first:
  "0 \<le> cc_tolerance_bps cfg \<Longrightarrow> record_sample cfg 0 0 (symbol_stats_new s) = quiet_stats s 1"
  by (simp add: record_same quiet_stats_def symbol_stats_new_def)

lemmas round_simps = cmp_round_def cmp_tick_def compare_pending_def drain_active_def drain_shadow_def
  drain_frames_bbos compare_symbol_def Let_def diff_bps_same

lemma round_first:
  assumes "feed_bbos fs = demo_prices" "0 \<le> cc_tolerance_bps cfg"
  shows "cmp_round (fs, fs) (cmp_new cfg [] []) = Some (demo_state cfg demo_prices 1 (quiet_stats ''ETHUSDT'' 1))"
  using assms
  by (simp add: round_simps record_first cmp_new_def demo_prices_def demo_state_def demo_stats_def)

lemma round_again:
  assumes "feed_bbos fs = demo_prices" "0 \<le> cc_tolerance_bps cfg"
    and "shadow = demo_prices \<or> shadow = AList.update ''ETHUSDT'' p demo_prices"
    and "0 \<le> sst_max_bid_diff_bps eth" "0 \<le> sst_max_ask_diff_bps eth"
  shows "cmp_round (fs, fs) (demo_state cfg shadow k eth) =
    Some (demo_state cfg demo_prices (Suc k) (eth\<lparr>sst_samples := sst_samples eth + 1\<rparr>))"
proof -
  have u: "fold (\<lambda>(s, v). AList.update s v) demo_prices demo_prices = demo_prices"
    "fold (\<lambda>(s, v). AList.update s v) demo_prices (AList.update ''ETHUSDT'' p demo_prices) = demo_prices"
    by (simp_all add: demo_prices_def)
  have "fold (\<lambda>(s, v). AList.update s v) demo_prices shadow = demo_prices"
    using assms(3) u by auto
  with assms(1,2,4,5) u(1) show ?thesis
    by (simp add: round_simps record_quiet record_same cmp_new_def demo_state_def demo_stats_def)
      (simp add: demo_prices_def compare_symbol_def diff_bps_same record_quiet record_same)
qed

lemma phase_again:
  assumes "0 \<le> cc_tolerance_bps cfg" "0 \<le> sst_max_bid_diff_bps eth" "0 \<le> sst_max_ask_diff_bps eth"
  shows "demo_phase seqs (demo_state cfg demo_prices k eth) = Some (demo_state cfg demo_prices (k + length seqs)
    (eth\<lparr>sst_samples := sst_samples eth + word_of_nat (length seqs)\<rparr>))"
  using assms(2,3)
proof (induction seqs arbitrary: k eth)
  case (Cons seq seqs)
  obtain frames where f: "demo_feed demo_prices seq = Some frames" "feed_bbos frames = demo_prices"
    using demo_frames by blast
  show ?case
    using round_again [OF f(2) assms(1) disjI1 [OF refl] Cons.prems, of k] f(1) Cons.prems
      Cons.IH [of "eth\<lparr>sst_samples := sst_samples eth + 1\<rparr>" "Suc k"]
    by (simp add: algebra_simps)
qed simp

lemma phase_first:
  assumes "0 \<le> cc_tolerance_bps cfg" "seqs \<noteq> []"
  shows "demo_phase seqs (cmp_new cfg [] []) = Some (demo_state cfg demo_prices (length seqs)
    (quiet_stats ''ETHUSDT'' (length seqs)))"
proof -
  obtain seq rest where s: "seqs = seq # rest" using assms(2) by (cases seqs) auto
  obtain frames where f: "demo_feed demo_prices seq = Some frames" "feed_bbos frames = demo_prices"
    using demo_frames by blast
  have q: "0 \<le> sst_max_bid_diff_bps (quiet_stats x k)" "0 \<le> sst_max_ask_diff_bps (quiet_stats x k)"
    "quiet_stats x k\<lparr>sst_samples := sst_samples (quiet_stats x k) + word_of_nat n\<rparr> = quiet_stats x (k + n)" for x k n
    by (simp_all add: quiet_stats_def symbol_stats_new_def)
  show ?thesis
    using phase_again [OF assms(1) q(1,2), of rest 1] round_first [OF f(2) assms(1)] f(1) q(3) [of "''ETHUSDT''" 1 "length rest"]
    by (simp add: s)
qed

lemma demo_diff: "diff_bps 170000000 170850000 = Some 50" "diff_bps 170010000 170860000 = Some 49"
proof -
  have "i64_abs (170000000 - 170850000) * 10000 = 8500000000" "i64_abs (170010000 - 170860000) * 10000 = 8500000000"
    by (simp_all add: i64_abs_def eval_simps)
  then show "diff_bps 170000000 170850000 = Some 50" "diff_bps 170010000 170860000 = Some 49"
    by (simp_all add: diff_bps_def i64_div_def eval_simps)
qed

definition diverged_stats :: "nat \<Rightarrow> nat \<Rightarrow> symbol_stats" where
  "diverged_stats k n = \<lparr>sst_symbol = ''ETHUSDT'', sst_samples = word_of_nat (k + n), sst_divergences = 1,
     sst_max_bid_diff_bps = 50, sst_max_ask_diff_bps = 49\<rparr>"

lemma record_diverged:
  assumes "0 \<le> cc_tolerance_bps cfg" "cc_tolerance_bps cfg < 50"
  shows "record_sample cfg 50 49 (quiet_stats ''ETHUSDT'' k) = diverged_stats k 1"
proof -
  have "max 0 (50 :: i64) = 50" "max 0 (49 :: i64) = 49"
    by (simp_all add: max_def less_eq_i64_def eval_simps)
  with assms show ?thesis
    by (simp add: record_sample_def quiet_stats_def symbol_stats_new_def diverged_stats_def)
qed

lemma round_diverged:
  assumes "0 \<le> cc_tolerance_bps cfg" "cc_tolerance_bps cfg < 50"
  shows "demo_diverge (demo_state cfg demo_prices k (quiet_stats ''ETHUSDT'' k)) =
    Some (demo_state cfg (AList.update ''ETHUSDT'' (170850000, 170860000) demo_prices) k (diverged_stats k 1))"
proof -
  have eth: "str_ok ''ETHUSDT''" "length ''ETHUSDT'' \<le> 100"
    by (auto simp: str_ok_def u16_MAX_def intro!: str_utf8_ascii)
  obtain a where a: "send_bbo ''ETHUSDT'' 170000000 170010000 9999 = Some a"
      "frame_bbo a = Some (''ETHUSDT'', 170000000, 170010000)"
    using send_bbo_decodes [OF eth] by blast
  obtain b where b: "send_bbo ''ETHUSDT'' 170850000 170860000 9999 = Some b"
      "frame_bbo b = Some (''ETHUSDT'', 170850000, 170860000)"
    using send_bbo_decodes [OF eth] by blast
  have "feed_bbos [a] = [(''ETHUSDT'', 170000000, 170010000)]" "feed_bbos [b] = [(''ETHUSDT'', 170850000, 170860000)]"
    using a(2) b(2) by (simp_all add: feed_bbos_def map_filter_simps)
  then show ?thesis
    by (simp add: demo_diverge_def a(1) b(1) round_simps demo_state_def cmp_new_def demo_prices_def demo_stats_def
        demo_diff record_diverged [OF assms])
qed

lemma total_samples:
  assumes "sst_samples eth = word_of_nat n" "3 * k + n < 2 ^ 64"
  shows "unat (sum_list (map (\<lambda>(_, st). sst_samples st) (demo_stats k eth))) = 3 * k + n"
proof -
  have "sum_list (map (\<lambda>(_, st). sst_samples st) (demo_stats k eth)) = word_of_nat (3 * k + n)"
    using assms(1) by (simp add: demo_stats_def quiet_stats_def algebra_simps)
  moreover have "unat (word_of_nat (3 * k + n) :: u64) = 3 * k + n"
    using assms(2) by (simp add: unat_of_nat del: of_nat_add of_nat_mult)
  ultimately show ?thesis by metis
qed

lemma enough_samples:
  assumes "sst_samples eth = word_of_nat n" "3 * k + n < 2 ^ 64" "unat (cc_min_samples cfg) \<le> 3 * k + n"
  shows "\<not> sum_list (map (\<lambda>(_, st). sst_samples st) (demo_stats k eth)) < cc_min_samples cfg"
  unfolding word_less_nat_alt total_samples [OF assms(1,2)] using assms(3) by simp

lemma quiet_acceptable: "cc_max_divergence_pct cfg = 0 \<Longrightarrow> worst_step cfg (quiet_stats s k) w = w"
  by (cases w) (simp add: worst_step_def is_acceptable_def divergence_pct_zero quiet_stats_def symbol_stats_new_def)

lemma verdict_quiet:
  assumes "cc_max_divergence_pct cfg = 0" "4 * k < 2 ^ 64" "unat (cc_min_samples cfg) \<le> 4 * k"
  shows "cmp_verdict (demo_state cfg shadow k (quiet_stats ''ETHUSDT'' k)) = Stable"
proof -
  have n: "sst_samples (quiet_stats ''ETHUSDT'' k) = word_of_nat k"
    by (simp add: quiet_stats_def)
  have "\<not> sum_list (map (\<lambda>(_, st). sst_samples st) (demo_stats k (quiet_stats ''ETHUSDT'' k))) < cc_min_samples cfg"
    by (rule enough_samples [OF n]) (use assms in simp_all)
  moreover have "fold (\<lambda>(_, st). worst_step cfg st) (demo_stats k (quiet_stats ''ETHUSDT'' k)) w = w" for w
    by (simp add: demo_stats_def quiet_acceptable [OF assms(1)])
  ultimately show ?thesis
    by (simp add: cmp_verdict_def demo_state_def cmp_new_def Let_def)
qed

lemma verdict_diverged:
  assumes "cc_max_divergence_pct cfg = 0" "3 * k + (j + n) < 2 ^ 64" "unat (cc_min_samples cfg) \<le> 3 * k + (j + n)"
    and "0 < j + n"
  shows "cmp_verdict (demo_state cfg shadow k (diverged_stats j n)) = Diverging ''ETHUSDT'' 50"
proof -
  let ?st = "diverged_stats j n"
  have s: "sst_samples ?st = word_of_nat (j + n)" by (simp add: diverged_stats_def)
  have "unat (word_of_nat (j + n) :: u64) = j + n" using assms(2) by (simp add: unat_of_nat del: of_nat_add)
  then have "sst_samples ?st \<noteq> 0" using assms(4) s by (metis less_numeral_extra(3) unat_0)
  then have pos: "0 < divergence_pct ?st"
    by (intro divergence_pct_positive) (simp_all add: diverged_stats_def)
  have "max (50 :: i64) 49 = 50" "(0 :: i64) < 50"
    by (simp_all add: max_def less_eq_i64_def less_i64_def eval_simps)
  then have step: "worst_step cfg ?st ([], 0) = (''ETHUSDT'', 50)"
    using pos assms(1) by (simp add: worst_step_def is_acceptable_def) (simp add: diverged_stats_def)
  have "\<not> sum_list (map (\<lambda>(_, st). sst_samples st) (demo_stats k ?st)) < cc_min_samples cfg"
    by (rule enough_samples [OF s assms(2,3)])
  moreover have "fold (\<lambda>(_, st). worst_step cfg st) (demo_stats k ?st) ([], 0) = (''ETHUSDT'', 50)"
    by (simp add: demo_stats_def quiet_acceptable [OF assms(1)] step)
  ultimately show ?thesis
    by (simp add: cmp_verdict_def demo_state_def cmp_new_def Let_def)
qed

text \<open>The reports of the demonstration are stable, diverging and diverging, whatever the tolerance below
  50 basis points and the number of samples; the third verdict, that of insufficient data, is never seen,
  and the program ends with exit code 1 after the shadow has recovered.\<close>

theorem demo_verdicts:
  assumes "0 \<le> cc_tolerance_bps cfg" "cc_tolerance_bps cfg < 50" "cc_max_divergence_pct cfg = 0"
    and "cc_min_samples cfg \<noteq> 0" "unat (cc_min_samples cfg) < 2 ^ 60"
  shows "run_demo cfg = Some (Stable, Diverging ''ETHUSDT'' 50, Diverging ''ETHUSDT'' 50)"
proof -
  define k where "k = unat (cc_min_samples cfg)"
  have k: "0 < k" "k < 2 ^ 60" "unat (cc_min_samples cfg) = k"
    using assms(4,5) by (simp_all add: k_def unat_gt_0)
  have one: "demo_phase (map word_of_nat [0..<k]) (cmp_new cfg [] []) =
      Some (demo_state cfg demo_prices k (quiet_stats ''ETHUSDT'' k))"
    using phase_first [OF assms(1), of "map word_of_nat [0..<k]"] k(1) by simp
  note two = round_diverged [OF assms(1,2), of k]
  have d: "0 \<le> sst_max_bid_diff_bps (diverged_stats k n)" "0 \<le> sst_max_ask_diff_bps (diverged_stats k n)"
    "diverged_stats k n\<lparr>sst_samples := sst_samples (diverged_stats k n) + word_of_nat m\<rparr> = diverged_stats k (n + m)" for n m
    by (simp_all add: diverged_stats_def less_eq_i64_def eval_simps add.assoc)
  obtain seq seqs where seqs: "map word_of_nat [10000..<10005] = (seq :: u64) # seqs" "length seqs = 4"
    by (cases "map word_of_nat [10000..<10005] :: u64 list") (auto dest: arg_cong [where f = length])
  obtain frames where f: "demo_feed demo_prices seq = Some frames" "feed_bbos frames = demo_prices"
    using demo_frames by blast
  have three: "demo_phase (seq # seqs)
      (demo_state cfg (AList.update ''ETHUSDT'' (170850000, 170860000) demo_prices) k (diverged_stats k 1)) =
    Some (demo_state cfg demo_prices (Suc k + 4) (diverged_stats k 6))"
    using round_again [OF f(2) assms(1) disjI2 [OF refl] d(1,2), of "(170850000, 170860000)" k 1] f(1)
      phase_again [OF assms(1) d(1,2), of seqs "Suc k" 2] d(3) [of 1 1] d(3) [of 2 4] seqs(2)
    by (simp add: numeral_2_eq_2 [symmetric])
  have "cmp_verdict (demo_state cfg demo_prices k (quiet_stats ''ETHUSDT'' k)) = Stable"
    by (rule verdict_quiet [OF assms(3)]) (use k in simp_all)
  moreover have "cmp_verdict (demo_state cfg sh k (diverged_stats k 1)) = Diverging ''ETHUSDT'' 50" for sh
    by (rule verdict_diverged [OF assms(3)]) (use k in simp_all)
  moreover have "cmp_verdict (demo_state cfg sh (Suc k + 4) (diverged_stats k 6)) = Diverging ''ETHUSDT'' 50" for sh
    by (rule verdict_diverged [OF assms(3)]) (use k in simp_all)
  ultimately show ?thesis
    by (simp only: run_demo_def k(3) one two seqs(1) three Option.bind.bind_lunit)
qed

end
