(* ===== verification/Spec2Isabelle.thy ===== *)
theory Spec2Isabelle
  imports Wire_Properties Gateway_Properties Market_Properties Feed_Properties
    Operations_Properties Refdata_Properties Replay_Properties Harness_Properties
    Metrics_Properties Shadow_Properties Connection_Properties
    Connector_Properties Bridge_Properties Observer_Properties
    Futures_Guards Shard_Properties Futures_Shard_Properties Refdata_Demo Sbe_Smoke Shadow_Demo
begin

text \<open>
  A model of the connectivity layer of a trading system (the Rust workspace under
  \<open>src/crates\<close> and the programs under \<open>src/bin\<close>). The connector receives market data of Binance
  Spot and USDT-M Futures, keeps an order book per symbol that is recovered from gaps with REST
  snapshots, publishes normalized messages in a fixed binary format, and submits and tracks orders
  through a gateway with a write-ahead journal. Around it stand the reference data, the replayer,
  the bridge to a database, the latency observer and the comparison of a shadow instance. File
  names below are relative to \<open>src/crates\<close>, or to \<open>src\<close> when they start with \<open>bin\<close>.

  \<^bold>\<open>Parts and theories.\<close>
  \<^item> Foundations: \<open>Prelude\<close> has machine integers (\<open>u8\<close>..\<open>u64\<close> as words, \<open>i64\<close> with its signed
    order), little-endian bytes, UTF-8, the result combinators \<open>and_then\<close> and \<open>map_err\<close>, hash maps
    as association lists. \<open>BTree_Map\<close> is Rust's \<open>BTreeMap\<close> as a sorted association list,
    \<open>Decimal\<close> the decimal scaling that four normalizers share, \<open>Float64\<close> the finite part of
    \<open>f64\<close> as rationals rounded to 53 bits.
  \<^item> Wire format (\<open>connector-core/src\<close>): \<open>Core_Types\<close> (types.rs, error.rs), \<open>Codec\<close> (codec.rs),
    \<open>Header\<close> (header.rs), \<open>Messages\<close> and \<open>Normalized_Message\<close> (message.rs). An encoder is its
    buffer and position, an operation returns a sum and the new encoder.
  \<^item> Feeds: \<open>Protocol_Json\<close> (protocol-json/src, both stream.rs), \<open>Sbe\<close> (protocol-sbe/src) and
    \<open>Sbe_Frames\<close>, the layout of its schema as a specification, \<open>Spot_Normalizer\<close> and
    \<open>Futures_Normalizer\<close> (both normalizer.rs), \<open>Sbe_Normalizer\<close> (sbe_normalizer.rs, feed.rs, the
    frames of the connection manager), \<open>Connection\<close> (both connection_manager.rs: sessions,
    keepalive, reconnect and backoff).
  \<^item> Market data: \<open>Order_Book\<close> (order-book/src/lib.rs), and of the two adapters \<open>Sequence\<close>
    (both sequence.rs), \<open>Recovery_Buffer\<close> and \<open>Circuit_Breaker\<close> (Spot), \<open>Futures_Guards\<close> (the same
    two of Futures), \<open>Recovery\<close> (both recovery.rs), \<open>Bbo_Validator\<close>, \<open>Snapshot_Validator\<close>,
    \<open>Shard_Engine\<close> (symbol_state.rs and shard_engine.rs). \<open>Exchange_Spec\<close> states what the exchange
    promises: a history of level changes per update id, of which snapshots and deltas are views.
    \<open>Harness\<close> is order-book/src/harness.rs.
  \<^item> Shard pipelines (\<open>bin/connector/examples\<close>): \<open>Shard_Task\<close> (spot_e2e.rs) and \<open>Futures_Shard\<close>
    (futures_e2e.rs) put all of these together. One input is one turn of the loop: a frame, a tick
    or a validation tick with the answers of the clock and the REST client it asks for.
  \<^item> Orders (\<open>order-gateway/src\<close>): \<open>Order_Types\<close>, \<open>Cloid\<close> (cloid.rs), \<open>Journal\<close> (journal.rs),
    \<open>Gateway\<close> (gateway.rs), \<open>Machine\<close> (machine.rs), \<open>User_Stream\<close> (user_stream.rs, normalizer.rs),
    \<open>Reconciler\<close> (reconciler.rs).
  \<^item> Publishing and running: \<open>Publication\<close> and \<open>Aeron_Client\<close> (aeron-publisher/src), \<open>Config\<close>
    (connector-config/src), \<open>Arbiter\<close> (redundancy/src), \<open>Metrics\<close> (metrics/src, instrument.rs),
    \<open>Refdata\<close> and \<open>Rest_Client\<close> (refdata/src), \<open>Replay\<close> (replay/src), \<open>Connector\<close>
    (bin/connector/src/main.rs).
  \<^item> Consumers: \<open>Bridge\<close> (bin/clickhouse-bridge/src), \<open>Observer\<close> (bin/aeron-observer/src/main.rs),
    \<open>Shadow_Compare\<close> and \<open>Shadow_Demo\<close> (bin/shadow-compare/src).
  \<^item> Example programs (\<open>bin/connector/examples\<close>): \<open>Refdata_Demo\<close> (refdata_e2e.rs,
    spot_refdata.rs), \<open>Sbe_Smoke\<close> (sbe_smoke.rs).

  \<^bold>\<open>What the lemmas show.\<close>
  \<^item> \<open>Wire_Properties\<close>: encoding and decoding of every message round-trip; short buffers and
    truncated messages are errors. Each message is an interpretation of the locale of a codec.
  \<^item> \<open>Market_Properties\<close>: after a recovery and through any later stream the local book is the
    exchange's book at its update id; gaps stop a validator until the next snapshot; the book
    stays sorted; the guards (buffer, breaker, BBO and snapshot checks) keep their limits. The
    two validators interpret one locale of sequence validators, the two recoveries one locale
    of replay loops, the buffers of both adapters one locale of event buffers.
  \<^item> \<open>Feed_Properties\<close>: binary and text frames of one event normalize alike, frames laid out by
    the schema decode, numbers and identities of normalized messages. \<open>Connection_Properties\<close>:
    metrics match the sessions, dead peers are detected, how the backoff grows.
  \<^item> \<open>Shard_Run\<close>: the locale of invariants of a symbol that the steps of the Spot pipeline keep,
    and so its runs; interpreted with the feed state and with exactness of recovered books.
    \<open>Shard_Publish\<close>: what each step publishes, as control messages numbered in order.
    \<open>Shard_Properties\<close>: recovered books are the exchange's; the feed state that is published is
    the state of the symbol; which frames are published and which are overwritten.
    \<open>Futures_Shard_Properties\<close>: books in step stay so, but no book gets there from the start.
  \<^item> \<open>Journal_Roundtrip\<close>, \<open>Gateway_Recovery\<close>, \<open>Gateway_Lifecycle\<close>, \<open>Machine_Gateway\<close>,
    \<open>Machine_Order\<close> and \<open>Gateway_Properties\<close>: the journal round-trips and restores the gateway,
    ids are fresh, terminal orders are final, every fill counts once whatever the order of
    arrival, and the machine and the gateway behind it agree.
  \<^item> \<open>Operations_Properties\<close>: reconciliation is exact, every symbol has one owner, agreeing
    instances never diverge, back-pressure escalates with time. \<open>Connector_Properties\<close>: the owned
    streams are subscribed once and every frame reaches the publication as it is normalized.
    \<open>Refdata_Properties\<close>, \<open>Replay_Properties\<close>, \<open>Harness_Properties\<close>, \<open>Metrics_Properties\<close>: the events
    mirror the registry, the replayer conserves frames, the harness finds nothing to report,
    histograms and their text count what was recorded. \<open>Refdata_Demo\<close>: a repeated refresh is
    silent. \<open>Rest_Client\<close>: open interest is numbered without a hole.
  \<^item> \<open>Bridge_Properties\<close>, \<open>Observer_Properties\<close>, \<open>Shadow_Properties\<close>: rows are the messages in order
    with exact decimals, from the frames of a connection to the tables; percentiles are ordered
    samples and latencies the stamped ones; the verdict blames exactly what diverged.
    \<open>Shadow_Demo\<close>, \<open>Sbe_Smoke\<close>: the verdicts of the demonstration, when the test succeeds.

  \<^bold>\<open>Conventions.\<close> Operations are total functions on explicit state. Arithmetic wraps as in a
  release build. A panic is the value None or an error of its own. Clocks, REST answers and the
  outcome of network and file operations are arguments. Loops are structural recursion, folds or
  a \<open>function\<close> with a measure; loops that wait for the outside take the list of its answers, so no
  fuel is used. Hash maps whose iteration order Rust leaves open are association lists; no
  property depends on that order.

  \<^bold>\<open>Not modelled.\<close> Third-party code is a parameter: serde_json, the HTTP, WebSocket, Aeron and
  ClickHouse clients. Threads and async scheduling appear as the order of the inputs. Logging,
  most command lines, HTTP serving, signal handling and formatting for display are left out, and
  with them bin/aeron-driver, which consists of nothing else.
\<close>

end
